(* ===== verification/Domain_Models.thy ===== *)
theory Domain_Models
  imports Go_Prelude
begin

text \<open>
  The domain layer, \<^verbatim>\<open>internal/domain/crawl\<close>: identifiers (\<^verbatim>\<open>valueobjects\<close>), the status
  types, tasks, jobs, job configurations, outbox events (\<^verbatim>\<open>models\<close>, \<^verbatim>\<open>events\<close>) and the
  operations they carry.  The well-formedness of a task, kept by each of its transitions, is the
  invariant the workers rely on.
\<close>

section \<open>Identifiers\<close>

text \<open>
  An identifier holds a string.  \<^verbatim>\<open>uuid.Parse\<close> is third-party code and is the argument
  \<open>uuid_ok\<close>: whether it accepts the text.
\<close>

type_synonym ID = string
type_synonym CrawlTaskID = ID
type_synonym CrawlJobID = ID
type_synonym UserID = ID
type_synonym OutboxEventID = string

definition ErrEmptyID :: gerr where "ErrEmptyID = ErrText ''ID cannot be empty''"
definition ErrInvalidID :: gerr where "ErrInvalidID = ErrText ''invalid ID''"

definition NewID :: "(string \<Rightarrow> bool) \<Rightarrow> string \<Rightarrow> ID res" where
  "NewID uuid_ok s =
     (if s = [] then Inl ErrEmptyID
      else if \<not> uuid_ok s then Inl ErrInvalidID
      else Inr s)"

definition ID_IsEmpty :: "ID \<Rightarrow> bool" where
  "ID_IsEmpty i \<longleftrightarrow> i = []"

definition NewCrawlTaskID :: "(string \<Rightarrow> bool) \<Rightarrow> string \<Rightarrow> CrawlTaskID res" where
  "NewCrawlTaskID uuid_ok s = (case NewID uuid_ok s of Inl e \<Rightarrow> Inl e | Inr b \<Rightarrow> Inr b)"

definition NewCrawlJobID :: "(string \<Rightarrow> bool) \<Rightarrow> string \<Rightarrow> CrawlJobID res" where
  "NewCrawlJobID uuid_ok s = (case NewID uuid_ok s of Inl e \<Rightarrow> Inl e | Inr b \<Rightarrow> Inr b)"

definition NewUserID :: "(string \<Rightarrow> bool) \<Rightarrow> string \<Rightarrow> UserID res" where
  "NewUserID uuid_ok s = (case NewID uuid_ok s of Inl e \<Rightarrow> Inl e | Inr b \<Rightarrow> Inr b)"

definition NewOutboxEventID :: "string \<Rightarrow> OutboxEventID res" where
  "NewOutboxEventID s = (if s = [] then Inl ErrEmptyID else Inr s)"

definition valid_id :: "(string \<Rightarrow> bool) \<Rightarrow> string \<Rightarrow> bool" where
  "valid_id uuid_ok s \<longleftrightarrow> s \<noteq> [] \<and> uuid_ok s"

lemma NewID_valid [simp]: "valid_id ok s \<Longrightarrow> NewID ok s = Inr s"
  by (simp add: NewID_def valid_id_def)

lemma NewID_InrD: "NewID ok s = Inr i \<Longrightarrow> i = s \<and> valid_id ok s"
  by (auto simp: NewID_def valid_id_def split: if_splits)

lemma NewTypedID_eq:
  "NewCrawlTaskID ok s = NewID ok s"
  "NewCrawlJobID ok s = NewID ok s"
  "NewUserID ok s = NewID ok s"
  by (simp_all add: NewCrawlTaskID_def NewCrawlJobID_def NewUserID_def split: sum.splits)

section \<open>Statuses\<close>

text \<open>The status types are Go string types: a value read from the database may be any string.\<close>

type_synonym TaskStatus = string
type_synonym ExportStatus = string

definition TaskStatusInProgress :: TaskStatus where [status_defs]: "TaskStatusInProgress = ''InProgress''"
definition TaskStatusFetched :: TaskStatus where [status_defs]: "TaskStatusFetched = ''Fetched''"
definition TaskStatusParsed :: TaskStatus where [status_defs]: "TaskStatusParsed = ''Parsed''"
definition TaskStatusCompleted :: TaskStatus where [status_defs]: "TaskStatusCompleted = ''Completed''"
definition TaskStatusFailed :: TaskStatus where [status_defs]: "TaskStatusFailed = ''Failed''"
definition TaskStatusSkipped :: TaskStatus where [status_defs]: "TaskStatusSkipped = ''Skipped''"

definition TaskStatus_IsValid :: "TaskStatus \<Rightarrow> bool" where
  "TaskStatus_IsValid s \<longleftrightarrow>
     s \<in> {TaskStatusInProgress, TaskStatusFetched, TaskStatusCompleted, TaskStatusFailed,
          TaskStatusParsed, TaskStatusSkipped}"

definition AllTaskStatuses :: "TaskStatus list" where
  "AllTaskStatuses =
     [TaskStatusInProgress, TaskStatusFetched, TaskStatusParsed, TaskStatusCompleted,
      TaskStatusFailed, TaskStatusSkipped]"

text \<open>The loop of \<^verbatim>\<open>AllTaskStatusesString\<close>: a separator before every element but the first.\<close>

fun join_statuses :: "nat \<Rightarrow> TaskStatus list \<Rightarrow> string \<Rightarrow> string" where
  "join_statuses i [] result = result"
| "join_statuses i (s # ss) result =
     join_statuses (Suc i) ss ((if 0 < i then result @ '', '' else result) @ s)"

definition AllTaskStatusesString :: string where
  "AllTaskStatusesString = join_statuses 0 AllTaskStatuses []"

definition ExportStatusNotStarted :: ExportStatus where [status_defs]: "ExportStatusNotStarted = ''NOT_STARTED''"
definition ExportStatusInProgress :: ExportStatus where [status_defs]: "ExportStatusInProgress = ''IN_PROGRESS''"
definition ExportStatusCompleted :: ExportStatus where [status_defs]: "ExportStatusCompleted = ''COMPLETED''"
definition ExportStatusFailed :: ExportStatus where [status_defs]: "ExportStatusFailed = ''FAILED''"

definition ExportStatus_IsValid :: "ExportStatus \<Rightarrow> bool" where
  "ExportStatus_IsValid s \<longleftrightarrow>
     s \<in> {ExportStatusNotStarted, ExportStatusInProgress, ExportStatusCompleted, ExportStatusFailed}"

lemma TaskStatus_distinct [simp]:
  "distinct [TaskStatusInProgress, TaskStatusFetched, TaskStatusParsed, TaskStatusCompleted,
     TaskStatusFailed, TaskStatusSkipped]"
  by (simp add: status_defs)

lemma TaskStatus_neqs [simp]:
  "TaskStatusInProgress \<noteq> TaskStatusFetched" "TaskStatusInProgress \<noteq> TaskStatusParsed"
  "TaskStatusInProgress \<noteq> TaskStatusCompleted" "TaskStatusInProgress \<noteq> TaskStatusFailed"
  "TaskStatusInProgress \<noteq> TaskStatusSkipped" "TaskStatusFetched \<noteq> TaskStatusParsed"
  "TaskStatusFetched \<noteq> TaskStatusCompleted" "TaskStatusFetched \<noteq> TaskStatusFailed"
  "TaskStatusFetched \<noteq> TaskStatusSkipped" "TaskStatusParsed \<noteq> TaskStatusCompleted"
  "TaskStatusParsed \<noteq> TaskStatusFailed" "TaskStatusParsed \<noteq> TaskStatusSkipped"
  "TaskStatusCompleted \<noteq> TaskStatusFailed" "TaskStatusCompleted \<noteq> TaskStatusSkipped"
  "TaskStatusFailed \<noteq> TaskStatusSkipped" "TaskStatusFetched \<noteq> TaskStatusInProgress"
  "TaskStatusParsed \<noteq> TaskStatusInProgress" "TaskStatusCompleted \<noteq> TaskStatusInProgress"
  "TaskStatusFailed \<noteq> TaskStatusInProgress" "TaskStatusSkipped \<noteq> TaskStatusInProgress"
  "TaskStatusParsed \<noteq> TaskStatusFetched" "TaskStatusCompleted \<noteq> TaskStatusFetched"
  "TaskStatusFailed \<noteq> TaskStatusFetched" "TaskStatusSkipped \<noteq> TaskStatusFetched"
  "TaskStatusCompleted \<noteq> TaskStatusParsed" "TaskStatusFailed \<noteq> TaskStatusParsed"
  "TaskStatusSkipped \<noteq> TaskStatusParsed" "TaskStatusFailed \<noteq> TaskStatusCompleted"
  "TaskStatusSkipped \<noteq> TaskStatusCompleted" "TaskStatusSkipped \<noteq> TaskStatusFailed"
  by (simp_all add: status_defs)

lemma ExportStatus_neqs [simp]:
  "ExportStatusCompleted \<noteq> ExportStatusInProgress" "ExportStatusFailed \<noteq> ExportStatusInProgress"
  "ExportStatusNotStarted \<noteq> ExportStatusInProgress" "ExportStatusCompleted \<noteq> ExportStatusFailed"
  "ExportStatusFailed \<noteq> ExportStatusCompleted" "ExportStatusInProgress \<noteq> ExportStatusCompleted"
  "ExportStatusNotStarted \<noteq> ExportStatusCompleted" "ExportStatusNotStarted \<noteq> ExportStatusFailed"
  "ExportStatusInProgress \<noteq> ExportStatusNotStarted" "ExportStatusFailed \<noteq> ExportStatusNotStarted"
  "ExportStatusCompleted \<noteq> ExportStatusNotStarted" "ExportStatusInProgress \<noteq> ExportStatusFailed"
  by (simp_all add: status_defs)

section \<open>Job configurations\<close>

text \<open>
  \<^verbatim>\<open>float64\<close> fields are rationals (the rounding of the arithmetic on them is not modelled);
  \<^verbatim>\<open>uint64\<close> and \<^verbatim>\<open>uint32\<close> fields are words.  The one-field structs \<^verbatim>\<open>Seed\<close> and
  \<^verbatim>\<open>RateLimitPolicy\<close> are their field (\<open>cfg_Seeds\<close>, \<open>cfg_Rps\<close>).
\<close>

record ScopeRules =
  MaxDepth :: u64
  AllowedDomains :: "string list"
  DenyUrlPatterns :: "string list"
  AllowedURLPatterns :: "string list"

record RetryPolicy =
  MaxAttempts :: u64
  BackoffInitialMs :: u64
  BackoffMultiplier :: rat

record AuthOptions =
  Cookie :: string
  BasicUser :: string
  BasicPassword :: string
  BearerToken :: string

record ScheduleOptions =
  Cron :: string
  LastRunAt :: "time option"
  NextRunAt :: "time option"

record QueueWeight =
  qw_Queue :: string
  qw_Weight :: u32

type_synonym ValueType = string
type_synonym TransformOp = string

record ExtractorSpec =
  ex_Selector :: string
  ex_Attribute :: string
  ex_Multiple :: bool
  ex_Index :: "int option"

text \<open>The argument of a transform, a free-form JSON value: the Go types the code distinguishes.\<close>

datatype transform_arg =
  ArgNone | ArgInt int | ArgInt64 int | ArgFloat rat | ArgNumber string | ArgString string | ArgOther

record TransformSpec =
  tr_Op :: TransformOp
  tr_Arg :: transform_arg

record FieldSpec =
  fs_Name :: string
  fs_Type :: ValueType
  fs_Required :: bool
  fs_Extractor :: ExtractorSpec
  fs_Transforms :: "TransformSpec list"

record PaginationSpec =
  pg_Name :: string
  pg_Selector :: string
  pg_Attribute :: string
  pg_Multiple :: bool

record ItemsSpec =
  ContainerSelector :: string
  items_Fields :: "FieldSpec list"

record ExtractionSpec =
  spec_Fields :: "FieldSpec list"
  spec_Pagination :: "PaginationSpec list"
  spec_Items :: "ItemsSpec option"

type_synonym CrawlMode = string
type_synonym JobType = string

definition CrawlModePaginationAndLinks :: CrawlMode where [status_defs]: "CrawlModePaginationAndLinks = ''pagination_and_links''"
definition CrawlModePaginationOnly :: CrawlMode where [status_defs]: "CrawlModePaginationOnly = ''pagination_only''"
definition CrawlModeLinksOnly :: CrawlMode where [status_defs]: "CrawlModeLinksOnly = ''links_only''"
definition JobTypeOnce :: JobType where [status_defs]: "JobTypeOnce = ''JOB_TYPE_ONCE''"
definition JobTypeScheduled :: JobType where [status_defs]: "JobTypeScheduled = ''JOB_TYPE_SCHEDULED''"

record CrawlJobConfig =
  cfg_ID :: ID
  cfg_UserID :: UserID
  cfg_Name :: string
  cfg_ExtractionSpec :: ExtractionSpec
  cfg_Scopes :: ScopeRules
  cfg_Seeds :: "string list"
  cfg_Rps :: rat
  cfg_Retries :: RetryPolicy
  cfg_Auth :: AuthOptions
  cfg_Schedule :: ScheduleOptions
  cfg_JobType :: JobType
  cfg_RespectRobotsTxt :: bool
  cfg_CrawlMode :: CrawlMode
  cfg_QueueWeights :: "QueueWeight list"

section \<open>Jobs\<close>

record CrawlJob =
  job_ID :: CrawlJobID
  job_JobConfigID :: ID
  job_JobConfig :: "CrawlJobConfig option"
  job_UserID :: UserID
  job_Name :: "string option"
  job_Status :: TaskStatus
  job_CreatedAt :: time
  job_CompletedAt :: "time option"
  job_ExportJSONKey :: "string option"
  job_ExportCSVKey :: "string option"
  job_ExportedAt :: "time option"
  job_ExportStatus :: ExportStatus

definition MarkAsExported :: "CrawlJob \<Rightarrow> string \<Rightarrow> string \<Rightarrow> time \<Rightarrow> CrawlJob" where
  "MarkAsExported job jsonKey csvKey exportedAt =
     job\<lparr>job_ExportJSONKey := Some jsonKey, job_ExportCSVKey := Some csvKey,
         job_ExportedAt := Some exportedAt, job_CompletedAt := Some exportedAt,
         job_ExportStatus := ExportStatusCompleted, job_Status := TaskStatusCompleted\<rparr>"

section \<open>Tasks\<close>

record CrawlTask =
  task_ID :: CrawlTaskID
  task_JobID :: CrawlJobID
  task_Job :: "CrawlJob option"
  task_URL :: string
  task_FinalURL :: "string option"
  task_Status :: TaskStatus
  task_EnqueuedAt :: time
  task_Depth :: u64
  task_MinioObjectKey :: string
  task_ResultObjectKey :: "string option"
  task_ResultContentType :: "string option"
  task_ResultSizeBytes :: "int option"
  task_ResultCreatedAt :: "time option"
  task_ErrorMessage :: "string option"

text \<open>The struct literal the creators of tasks use: every field left out is Go's zero value.\<close>

definition new_task :: "CrawlTaskID \<Rightarrow> CrawlJobID \<Rightarrow> string \<Rightarrow> time \<Rightarrow> u64 \<Rightarrow> CrawlTask" where
  "new_task tid jid url enqueuedAt depth =
     \<lparr>task_ID = tid, task_JobID = jid, task_Job = None, task_URL = url, task_FinalURL = None,
      task_Status = TaskStatusInProgress, task_EnqueuedAt = enqueuedAt, task_Depth = depth,
      task_MinioObjectKey = [], task_ResultObjectKey = None, task_ResultContentType = None,
      task_ResultSizeBytes = None, task_ResultCreatedAt = None, task_ErrorMessage = None\<rparr>"

definition clearResultMetadata :: "CrawlTask \<Rightarrow> CrawlTask" where
  "clearResultMetadata t =
     t\<lparr>task_ResultObjectKey := None, task_ResultContentType := None,
       task_ResultSizeBytes := None, task_ResultCreatedAt := None\<rparr>"

definition MarkAsFetched :: "CrawlTask \<Rightarrow> string \<Rightarrow> string \<Rightarrow> CrawlTask" where
  "MarkAsFetched t finalUrl minioKey =
     t\<lparr>task_MinioObjectKey := minioKey, task_FinalURL := Some finalUrl,
       task_Status := TaskStatusFetched, task_ErrorMessage := None\<rparr>"

definition MarkAsParsed :: "CrawlTask \<Rightarrow> string \<Rightarrow> string \<Rightarrow> int \<Rightarrow> time \<Rightarrow> CrawlTask" where
  "MarkAsParsed t objectKey contentType sizeBytes parsedAt =
     t\<lparr>task_Status := TaskStatusParsed, task_ResultObjectKey := Some objectKey,
       task_ResultContentType := Some contentType, task_ResultSizeBytes := Some sizeBytes,
       task_ResultCreatedAt := Some parsedAt, task_ErrorMessage := None\<rparr>"

definition MarkAsFailed :: "CrawlTask \<Rightarrow> string \<Rightarrow> CrawlTask" where
  "MarkAsFailed t reason =
     (clearResultMetadata (t\<lparr>task_Status := TaskStatusFailed\<rparr>))\<lparr>task_ErrorMessage := Some reason\<rparr>"

definition MarkAsSkipped :: "CrawlTask \<Rightarrow> string \<Rightarrow> CrawlTask" where
  "MarkAsSkipped t reason =
     (clearResultMetadata (t\<lparr>task_Status := TaskStatusSkipped\<rparr>))\<lparr>task_ErrorMessage := Some reason\<rparr>"

lemmas task_mark_defs =
  clearResultMetadata_def MarkAsFetched_def MarkAsParsed_def MarkAsFailed_def MarkAsSkipped_def

text \<open>Every transition leaves the identity, the URL and the depth of the task alone.\<close>

lemma task_mark_frame [simp]:
  "task_ID (MarkAsFetched t u k) = task_ID t" "task_ID (MarkAsParsed t k c n p) = task_ID t"
  "task_ID (MarkAsFailed t r) = task_ID t" "task_ID (MarkAsSkipped t r) = task_ID t"
  "task_JobID (MarkAsFetched t u k) = task_JobID t" "task_JobID (MarkAsParsed t k c n p) = task_JobID t"
  "task_JobID (MarkAsFailed t r) = task_JobID t" "task_JobID (MarkAsSkipped t r) = task_JobID t"
  "task_URL (MarkAsFetched t u k) = task_URL t" "task_URL (MarkAsParsed t k c n p) = task_URL t"
  "task_URL (MarkAsFailed t r) = task_URL t" "task_URL (MarkAsSkipped t r) = task_URL t"
  "task_Depth (MarkAsFetched t u k) = task_Depth t" "task_Depth (MarkAsParsed t k c n p) = task_Depth t"
  "task_Depth (MarkAsFailed t r) = task_Depth t" "task_Depth (MarkAsSkipped t r) = task_Depth t"
  "task_EnqueuedAt (MarkAsFetched t u k) = task_EnqueuedAt t"
  "task_EnqueuedAt (MarkAsParsed t k c n p) = task_EnqueuedAt t"
  "task_EnqueuedAt (MarkAsFailed t r) = task_EnqueuedAt t"
  "task_EnqueuedAt (MarkAsSkipped t r) = task_EnqueuedAt t"
  by (simp_all add: task_mark_defs)

lemma task_mark_status [simp]:
  "task_Status (MarkAsFetched t u k) = TaskStatusFetched"
  "task_Status (MarkAsParsed t k c n p) = TaskStatusParsed"
  "task_Status (MarkAsFailed t r) = TaskStatusFailed"
  "task_Status (MarkAsSkipped t r) = TaskStatusSkipped"
  by (simp_all add: task_mark_defs)

lemma new_task_fields [simp]:
  "task_ID (new_task i j u e d) = i" "task_JobID (new_task i j u e d) = j"
  "task_URL (new_task i j u e d) = u" "task_EnqueuedAt (new_task i j u e d) = e"
  "task_Depth (new_task i j u e d) = d" "task_Status (new_task i j u e d) = TaskStatusInProgress"
  by (simp_all add: new_task_def)

text \<open>
  A well-formed task: its status is one of the six; an error message is present exactly for a
  failed or skipped task; such a task carries no result; a parsed task carries one; the four result
  fields are set together; a fetched or parsed task has a page in the content store.
\<close>

definition task_wf :: "CrawlTask \<Rightarrow> bool" where
  "task_wf t \<longleftrightarrow>
     TaskStatus_IsValid (task_Status t) \<and>
     (task_ErrorMessage t \<noteq> None \<longleftrightarrow> task_Status t \<in> {TaskStatusFailed, TaskStatusSkipped}) \<and>
     (task_Status t \<in> {TaskStatusFailed, TaskStatusSkipped} \<longrightarrow> task_ResultObjectKey t = None) \<and>
     (task_Status t = TaskStatusParsed \<longrightarrow> task_ResultObjectKey t \<noteq> None) \<and>
     ((task_ResultObjectKey t = None) = (task_ResultContentType t = None)) \<and>
     ((task_ResultObjectKey t = None) = (task_ResultSizeBytes t = None)) \<and>
     ((task_ResultObjectKey t = None) = (task_ResultCreatedAt t = None)) \<and>
     (task_Status t = TaskStatusFetched \<longrightarrow> task_FinalURL t \<noteq> None)"

lemma task_wf_new: "task_wf (new_task i j u e d)"
  by (simp add: task_wf_def new_task_def TaskStatus_IsValid_def)

lemma task_wf_MarkAsFetched: "task_wf t \<Longrightarrow> task_wf (MarkAsFetched t u k)"
  by (auto simp add: task_wf_def task_mark_defs TaskStatus_IsValid_def)

lemma task_wf_MarkAsParsed: "task_wf (MarkAsParsed t k c n p)"
  by (simp add: task_wf_def task_mark_defs TaskStatus_IsValid_def)

lemma task_wf_MarkAsFailed: "task_wf (MarkAsFailed t r)"
  by (simp add: task_wf_def task_mark_defs TaskStatus_IsValid_def)

lemma task_wf_MarkAsSkipped: "task_wf (MarkAsSkipped t r)"
  by (simp add: task_wf_def task_mark_defs TaskStatus_IsValid_def)

lemmas task_wf_intros =
  task_wf_new task_wf_MarkAsFetched task_wf_MarkAsParsed task_wf_MarkAsFailed task_wf_MarkAsSkipped

section \<open>Outbox events\<close>

definition EventTypeTaskEnqueued :: string where
  "EventTypeTaskEnqueued = ''task.enqueued''"

type_synonym trace_context = "(string \<times> string) list"

record TaskEnqueuedEvent =
  ev_ID :: string
  ev_Type :: string
  ev_OccurredAt :: time
  ev_TaskID :: string
  ev_JobID :: string
  ev_URL :: string
  ev_EnqueuedAt :: time
  ev_TraceContext :: trace_context
  ev_TargetQueue :: string

text \<open>
  \<^verbatim>\<open>NewTaskEnqueuedEvent\<close>; the fresh UUID of \<^verbatim>\<open>NewBaseEvent\<close> and the reading of the clock
  are its last two arguments.
\<close>

definition NewTaskEnqueuedEvent ::
  "string \<Rightarrow> string \<Rightarrow> string \<Rightarrow> time \<Rightarrow> string \<Rightarrow> time \<Rightarrow> TaskEnqueuedEvent" where
  "NewTaskEnqueuedEvent taskID jobID url enqueuedAt uuid now =
     \<lparr>ev_ID = uuid, ev_Type = EventTypeTaskEnqueued, ev_OccurredAt = now, ev_TaskID = taskID,
      ev_JobID = jobID, ev_URL = url, ev_EnqueuedAt = enqueuedAt, ev_TraceContext = [],
      ev_TargetQueue = []\<rparr>"

record OutboxEvent =
  ob_ID :: OutboxEventID
  ob_EventType :: string
  ob_AggregateID :: string
  ob_Payload :: string
  ob_OccurredAt :: time
  ob_ProcessedAt :: "time option"
  ob_CreatedAt :: time

definition IsProcessed :: "OutboxEvent \<Rightarrow> bool" where
  "IsProcessed e \<longleftrightarrow> ob_ProcessedAt e \<noteq> None"

end
