(* ===== verification/Database_Model.thy ===== *)
theory Database_Model
  imports Domain_Models
begin

text \<open>
  The rows the repositories write (\<^verbatim>\<open>postgres/snapshots\<close>), the converters between rows and
  models (\<^verbatim>\<open>postgres/converters\<close>), and the database: one list of rows per table, in insertion
  order.  A \<^verbatim>\<open>sql.NullString\<close> (\<^verbatim>\<open>NullInt64\<close>, \<^verbatim>\<open>NullTime\<close>) is an option.  The
  columns of a job configuration that hold JSON are kept as the values they encode, so the row of a
  configuration is the configuration.

  The schema's constraints (the migrations) are part of the operations: primary keys, the unique index
  on job and URL of a task, the unique configuration name, and the foreign keys with their cascades.
\<close>

section \<open>Rows\<close>

record CrawlTaskSnapshot =
  ts_ID :: string
  ts_JobID :: string
  ts_URL :: string
  ts_FinalURL :: "string option"
  ts_Status :: string
  ts_EnqueuedAt :: time
  ts_Depth :: u64
  ts_MinioObjectKey :: string
  ts_ResultObjectKey :: "string option"
  ts_ResultContentType :: "string option"
  ts_ResultSizeBytes :: "int option"
  ts_ResultCreatedAt :: "time option"
  ts_ErrorMessage :: "string option"

record CrawlJobSnapshot =
  js_ID :: string
  js_JobConfigID :: "string option"
  js_UserID :: "string option"
  js_Name :: "string option"
  js_Status :: string
  js_CreatedAt :: time
  js_CompletedAt :: "time option"
  js_ExportJSONKey :: "string option"
  js_ExportCSVKey :: "string option"
  js_ExportedAt :: "time option"
  js_ExportStatus :: "string option"

section \<open>Converters\<close>

definition SaveCrawlTaskToSnapshot :: "CrawlTask \<Rightarrow> CrawlTaskSnapshot" where
  "SaveCrawlTaskToSnapshot t =
     \<lparr>ts_ID = task_ID t, ts_JobID = task_JobID t, ts_URL = task_URL t, ts_FinalURL = task_FinalURL t,
      ts_Status = task_Status t, ts_EnqueuedAt = task_EnqueuedAt t, ts_Depth = task_Depth t,
      ts_MinioObjectKey = task_MinioObjectKey t, ts_ResultObjectKey = task_ResultObjectKey t,
      ts_ResultContentType = task_ResultContentType t, ts_ResultSizeBytes = task_ResultSizeBytes t,
      ts_ResultCreatedAt = task_ResultCreatedAt t, ts_ErrorMessage = task_ErrorMessage t\<rparr>"

definition task_of_row :: "CrawlTaskSnapshot \<Rightarrow> CrawlJob option \<Rightarrow> CrawlTask" where
  "task_of_row s job =
     \<lparr>task_ID = ts_ID s, task_JobID = ts_JobID s, task_Job = job, task_URL = ts_URL s,
      task_FinalURL = ts_FinalURL s, task_Status = ts_Status s, task_EnqueuedAt = ts_EnqueuedAt s,
      task_Depth = ts_Depth s, task_MinioObjectKey = ts_MinioObjectKey s,
      task_ResultObjectKey = ts_ResultObjectKey s, task_ResultContentType = ts_ResultContentType s,
      task_ResultSizeBytes = ts_ResultSizeBytes s, task_ResultCreatedAt = ts_ResultCreatedAt s,
      task_ErrorMessage = ts_ErrorMessage s\<rparr>"

definition RestoreCrawlTaskFromSnapshot :: "(string \<Rightarrow> bool) \<Rightarrow> CrawlTaskSnapshot \<Rightarrow> CrawlTask res" where
  "RestoreCrawlTaskFromSnapshot uuid_ok s =
     bind_res (NewCrawlTaskID uuid_ok (ts_ID s)) (\<lambda>_.
     bind_res (NewCrawlJobID uuid_ok (ts_JobID s)) (\<lambda>_. Inr (task_of_row s None)))"

definition SaveCrawlJobToSnapshot :: "CrawlJob \<Rightarrow> CrawlJobSnapshot" where
  "SaveCrawlJobToSnapshot j =
     \<lparr>js_ID = job_ID j,
      js_JobConfigID = (if ID_IsEmpty (job_JobConfigID j) then None else Some (job_JobConfigID j)),
      js_UserID = (if ID_IsEmpty (job_UserID j) then None else Some (job_UserID j)),
      js_Name = job_Name j, js_Status = job_Status j, js_CreatedAt = job_CreatedAt j,
      js_CompletedAt = job_CompletedAt j, js_ExportJSONKey = job_ExportJSONKey j,
      js_ExportCSVKey = job_ExportCSVKey j, js_ExportedAt = job_ExportedAt j,
      js_ExportStatus = Some (job_ExportStatus j)\<rparr>"

text \<open>
  A row of configurations keeps the specification, the scopes, the seeds and the policies in JSON
  columns; the row of the model holds the values these columns encode, so that of the two
  converters the identifiers and the default of the job type remain.  The columns themselves are in
  \<open>Config_JSON\<close>, with the proof that they implement these converters.
\<close>

definition SaveCrawlJobConfigToSnapshot :: "CrawlJobConfig \<Rightarrow> CrawlJobConfig" where
  "SaveCrawlJobConfigToSnapshot config =
     config\<lparr>cfg_JobType := if cfg_JobType config = [] then JobTypeOnce else cfg_JobType config\<rparr>"

definition RestoreCrawlJobConfigFromSnapshot :: "(string \<Rightarrow> bool) \<Rightarrow> CrawlJobConfig \<Rightarrow> CrawlJobConfig res" where
  "RestoreCrawlJobConfigFromSnapshot uuid_ok s =
     bind_res (wrap_err ''failed to parse ID'' (NewID uuid_ok (cfg_ID s))) (\<lambda>i.
     bind_res (if ID_IsEmpty (cfg_UserID s) then Inr []
               else wrap_err ''failed to parse user id'' (NewUserID uuid_ok (cfg_UserID s))) (\<lambda>u.
       Inr (s\<lparr>cfg_ID := i, cfg_UserID := u,
              cfg_JobType := if cfg_JobType s \<noteq> [] then cfg_JobType s else JobTypeOnce\<rparr>)))"

text \<open>
  \<^verbatim>\<open>RestoreCrawlJobFromSnapshot\<close>; the last argument is the row of the configuration joined to
  the row of the job.
\<close>

definition RestoreCrawlJobFromSnapshot ::
  "(string \<Rightarrow> bool) \<Rightarrow> CrawlJobSnapshot \<Rightarrow> CrawlJobConfig option \<Rightarrow> CrawlJob res" where
  "RestoreCrawlJobFromSnapshot uuid_ok s cfg =
     bind_res (NewCrawlJobID uuid_ok (js_ID s)) (\<lambda>i.
     bind_res (case js_JobConfigID s of None \<Rightarrow> Inr [] | Some c \<Rightarrow> NewID uuid_ok c) (\<lambda>c.
     bind_res (case js_UserID s of None \<Rightarrow> Inr [] | Some u \<Rightarrow> NewUserID uuid_ok u) (\<lambda>u.
     bind_res (case cfg of None \<Rightarrow> Inr None
               | Some row \<Rightarrow> bind_res (RestoreCrawlJobConfigFromSnapshot uuid_ok row) (\<lambda>r. Inr (Some r))) (\<lambda>jc.
       Inr \<lparr>job_ID = i, job_JobConfigID = c, job_JobConfig = jc, job_UserID = u, job_Name = js_Name s,
            job_Status = js_Status s, job_CreatedAt = js_CreatedAt s, job_CompletedAt = js_CompletedAt s,
            job_ExportJSONKey = js_ExportJSONKey s, job_ExportCSVKey = js_ExportCSVKey s,
            job_ExportedAt = js_ExportedAt s,
            job_ExportStatus = (case js_ExportStatus s of None \<Rightarrow> ExportStatusNotStarted | Some e \<Rightarrow> e)\<rparr>))))"

text \<open>
  \<^verbatim>\<open>RestoreCrawlTaskWithJobFromSnapshot\<close>: the job is restored from the columns the join
  selects.
\<close>

definition RestoreCrawlTaskWithJobFromSnapshot ::
  "(string \<Rightarrow> bool) \<Rightarrow> CrawlTaskSnapshot \<Rightarrow> CrawlJobSnapshot option \<Rightarrow> CrawlTask res" where
  "RestoreCrawlTaskWithJobFromSnapshot uuid_ok s job =
     bind_res (NewCrawlTaskID uuid_ok (ts_ID s)) (\<lambda>_.
     bind_res (NewCrawlJobID uuid_ok (ts_JobID s)) (\<lambda>_.
     case job of
       None \<Rightarrow> Inr (task_of_row s None)
     | Some js \<Rightarrow> bind_res (RestoreCrawlJobFromSnapshot uuid_ok js None) (\<lambda>j.
                   Inr (task_of_row s (Some j)))))"

lemma Save_fields [simp]:
  "ts_ID (SaveCrawlTaskToSnapshot t) = task_ID t"
  "ts_JobID (SaveCrawlTaskToSnapshot t) = task_JobID t"
  "ts_URL (SaveCrawlTaskToSnapshot t) = task_URL t"
  "ts_Status (SaveCrawlTaskToSnapshot t) = task_Status t"
  "ts_Depth (SaveCrawlTaskToSnapshot t) = task_Depth t"
  "ts_EnqueuedAt (SaveCrawlTaskToSnapshot t) = task_EnqueuedAt t"
  "ts_ResultObjectKey (SaveCrawlTaskToSnapshot t) = task_ResultObjectKey t"
  by (simp_all add: SaveCrawlTaskToSnapshot_def)

lemma SaveJob_fields [simp]:
  "js_ID (SaveCrawlJobToSnapshot j) = job_ID j"
  "js_Status (SaveCrawlJobToSnapshot j) = job_Status j"
  "js_CreatedAt (SaveCrawlJobToSnapshot j) = job_CreatedAt j"
  "js_CompletedAt (SaveCrawlJobToSnapshot j) = job_CompletedAt j"
  "js_ExportStatus (SaveCrawlJobToSnapshot j) = Some (job_ExportStatus j)"
  "js_ExportedAt (SaveCrawlJobToSnapshot j) = job_ExportedAt j"
  by (simp_all add: SaveCrawlJobToSnapshot_def)

lemma task_of_row_fields [simp]:
  "task_ID (task_of_row s j) = ts_ID s" "task_JobID (task_of_row s j) = ts_JobID s"
  "task_Job (task_of_row s j) = j" "task_URL (task_of_row s j) = ts_URL s"
  "task_Status (task_of_row s j) = ts_Status s" "task_Depth (task_of_row s j) = ts_Depth s"
  "task_EnqueuedAt (task_of_row s j) = ts_EnqueuedAt s"
  "task_ResultObjectKey (task_of_row s j) = ts_ResultObjectKey s"
  by (simp_all add: task_of_row_def)

lemma task_of_row_Save: "task_of_row (SaveCrawlTaskToSnapshot t) j = t\<lparr>task_Job := j\<rparr>"
  by (simp add: task_of_row_def SaveCrawlTaskToSnapshot_def)

lemma Save_task_of_row: "SaveCrawlTaskToSnapshot (task_of_row s j) = s"
  by (simp add: task_of_row_def SaveCrawlTaskToSnapshot_def)

lemma Save_drop_job [simp]: "SaveCrawlTaskToSnapshot (t\<lparr>task_Job := j\<rparr>) = SaveCrawlTaskToSnapshot t"
  by (simp add: SaveCrawlTaskToSnapshot_def)

lemma RestoreTask_InrD:
  "RestoreCrawlTaskWithJobFromSnapshot ok s job = Inr t \<Longrightarrow>
     SaveCrawlTaskToSnapshot t = s \<and> valid_id ok (ts_ID s) \<and> valid_id ok (ts_JobID s)"
  by (auto simp: RestoreCrawlTaskWithJobFromSnapshot_def bind_res_Inr_iff NewTypedID_eq Save_task_of_row
      dest: NewID_InrD split: option.splits)

definition config_restorable :: "(string \<Rightarrow> bool) \<Rightarrow> CrawlJobConfig \<Rightarrow> bool" where
  "config_restorable ok cfg \<longleftrightarrow>
     valid_id ok (cfg_ID cfg) \<and> (cfg_UserID cfg = [] \<or> valid_id ok (cfg_UserID cfg)) \<and> cfg_JobType cfg \<noteq> []"

lemma config_roundtrip:
  "config_restorable ok cfg \<Longrightarrow>
     RestoreCrawlJobConfigFromSnapshot ok (SaveCrawlJobConfigToSnapshot cfg) = Inr cfg"
  by (auto simp: config_restorable_def RestoreCrawlJobConfigFromSnapshot_def SaveCrawlJobConfigToSnapshot_def
      NewTypedID_eq ID_IsEmpty_def)

lemma RestoreConfig_id:
  "RestoreCrawlJobConfigFromSnapshot ok s = Inr cfg \<Longrightarrow> cfg_ID cfg = cfg_ID s \<and> cfg_Name cfg = cfg_Name s"
  by (auto simp: RestoreCrawlJobConfigFromSnapshot_def bind_res_Inr_iff dest: NewID_InrD)

text \<open>
  Aggregates survive the database: restoring what was saved gives the task back (without the
  job it points to, which lives in its own row), and gives the job back with its configuration,
  whichever of its nullable fields are set.
\<close>

theorem snapshot_roundtrip:
  assumes "valid_id ok (task_ID t)" and "valid_id ok (task_JobID t)"
    and "valid_id ok (job_ID j)" and "valid_id ok (job_JobConfigID j)"
    and "job_UserID j = [] \<or> valid_id ok (job_UserID j)"
    and "\<forall>cfg. job_JobConfig j = Some cfg \<longrightarrow> config_restorable ok cfg"
  shows "RestoreCrawlTaskFromSnapshot ok (SaveCrawlTaskToSnapshot t) = Inr (t\<lparr>task_Job := None\<rparr>) \<and>
         RestoreCrawlJobFromSnapshot ok (SaveCrawlJobToSnapshot j)
           (map_option SaveCrawlJobConfigToSnapshot (job_JobConfig j)) = Inr j"
proof
  show "RestoreCrawlTaskFromSnapshot ok (SaveCrawlTaskToSnapshot t) = Inr (t\<lparr>task_Job := None\<rparr>)"
    using assms(1,2) by (simp add: RestoreCrawlTaskFromSnapshot_def NewTypedID_eq task_of_row_Save)
  have ne: "job_JobConfigID j \<noteq> []" using assms(4) by (auto simp: valid_id_def)
  show "RestoreCrawlJobFromSnapshot ok (SaveCrawlJobToSnapshot j)
          (map_option SaveCrawlJobConfigToSnapshot (job_JobConfig j)) = Inr j"
    using assms(3-6) ne
    by (cases "job_JobConfig j")
       (auto simp: RestoreCrawlJobFromSnapshot_def SaveCrawlJobToSnapshot_def NewTypedID_eq ID_IsEmpty_def
         config_roundtrip)
qed

definition sample_job :: "string \<Rightarrow> string \<Rightarrow> CrawlJob" where
  "sample_job i c =
     \<lparr>job_ID = i, job_JobConfigID = c, job_JobConfig = None, job_UserID = ''u1'', job_Name = None,
      job_Status = TaskStatusInProgress, job_CreatedAt = 5, job_CompletedAt = None,
      job_ExportJSONKey = None, job_ExportCSVKey = None, job_ExportedAt = None,
      job_ExportStatus = ExportStatusNotStarted\<rparr>"

definition sample_config :: "string \<Rightarrow> CrawlJobConfig" where
  "sample_config i =
     \<lparr>cfg_ID = i, cfg_UserID = ''u1'', cfg_Name = ''demo'',
      cfg_ExtractionSpec = \<lparr>spec_Fields = [], spec_Pagination = [], spec_Items = None\<rparr>,
      cfg_Scopes = \<lparr>MaxDepth = 2, AllowedDomains = [], DenyUrlPatterns = [], AllowedURLPatterns = []\<rparr>,
      cfg_Seeds = [''http://a''], cfg_Rps = 0,
      cfg_Retries = \<lparr>MaxAttempts = 3, BackoffInitialMs = 100, BackoffMultiplier = 2\<rparr>,
      cfg_Auth = \<lparr>Cookie = [], BasicUser = [], BasicPassword = [], BearerToken = []\<rparr>,
      cfg_Schedule = \<lparr>Cron = [], LastRunAt = None, NextRunAt = None\<rparr>,
      cfg_JobType = JobTypeOnce, cfg_RespectRobotsTxt = False, cfg_CrawlMode = [], cfg_QueueWeights = []\<rparr>"

theorem snapshot_roundtrip_witness:
  "RestoreCrawlTaskFromSnapshot (\<lambda>s. length s = 2)
     (SaveCrawlTaskToSnapshot (MarkAsFailed (new_task ''t1'' ''j1'' ''http://a'' 7 0) ''boom''))
   = Inr ((MarkAsFailed (new_task ''t1'' ''j1'' ''http://a'' 7 0) ''boom'')\<lparr>task_Job := None\<rparr>) \<and>
   RestoreCrawlJobFromSnapshot (\<lambda>s. length s = 2)
     (SaveCrawlJobToSnapshot ((sample_job ''j1'' ''c1'')\<lparr>job_JobConfig := Some (sample_config ''c1'')\<rparr>))
     (map_option SaveCrawlJobConfigToSnapshot
        (job_JobConfig ((sample_job ''j1'' ''c1'')\<lparr>job_JobConfig := Some (sample_config ''c1'')\<rparr>)))
   = Inr ((sample_job ''j1'' ''c1'')\<lparr>job_JobConfig := Some (sample_config ''c1'')\<rparr>)"
  by (rule snapshot_roundtrip)
     (simp_all add: valid_id_def sample_job_def sample_config_def config_restorable_def JobTypeOnce_def)

section \<open>The database\<close>

record DB =
  db_configs :: "CrawlJobConfig list"
  db_jobs :: "CrawlJobSnapshot list"
  db_tasks :: "CrawlTaskSnapshot list"
  db_outbox :: "OutboxEvent list"

definition empty_db :: DB where
  "empty_db = \<lparr>db_configs = [], db_jobs = [], db_tasks = [], db_outbox = []\<rparr>"

definition unique_violation :: gerr where
  "unique_violation = ErrText ''duplicate key value violates unique constraint''"

definition fk_violation :: gerr where
  "fk_violation = ErrText ''violates foreign key constraint''"

text \<open>
  A statement sent to the database either fails for a reason of the environment (connection lost,
  timeout) and changes nothing, or runs.
\<close>

definition db_call :: "gerr option \<Rightarrow> ('db \<Rightarrow> 'a res \<times> 'db) \<Rightarrow> 'db \<Rightarrow> 'a res \<times> 'db" where
  "db_call fail op db = (case fail of Some e \<Rightarrow> (Inl e, db) | None \<Rightarrow> op db)"

lemma db_call_simps [simp]:
  "db_call (Some e) op db = (Inl e, db)"
  "db_call None op db = op db"
  by (simp_all add: db_call_def)

text \<open>
  A transaction (\<^verbatim>\<open>transaction.go\<close>): begin, run the body, commit; an error of the body or of the
  commit leaves the database as it was (the same code serves every set of tables).  \<open>fail_begin\<close> and \<open>fail_commit\<close> are what the driver
  answers to the two calls.
\<close>

definition transaction ::
  "gerr option \<Rightarrow> gerr option \<Rightarrow> ('db \<Rightarrow> 'a res \<times> 'db) \<Rightarrow> 'db \<Rightarrow> 'a res \<times> 'db" where
  "transaction fail_begin fail_commit body db =
     (case fail_begin of
        Some e \<Rightarrow> (Inl (ErrWrap ''cant begin transaction'' e), db)
      | None \<Rightarrow>
          (case body db of
             (Inl e, _) \<Rightarrow> (Inl (ErrWrap ''failed executing code inside transaction'' e), db)
           | (Inr x, db') \<Rightarrow>
               (case fail_commit of
                  Some e \<Rightarrow> (Inl (ErrWrap ''tx commit failed'' e), db)
                | None \<Rightarrow> (Inr x, db'))))"

lemma transaction_error_unchanged: "transaction fb fc body db = (Inl e, db') \<Longrightarrow> db' = db"
  by (auto simp: transaction_def split: option.splits prod.splits sum.splits)

lemma transaction_commits:
  "transaction fb fc body db = (Inr x, db') \<longleftrightarrow> fb = None \<and> fc = None \<and> body db = (Inr x, db')"
  by (auto simp: transaction_def split: option.splits prod.splits sum.splits)

text \<open>
  Consistency of the tables: the keys and the unique index hold and every foreign key has its
  target.
\<close>

definition task_key :: "CrawlTaskSnapshot \<Rightarrow> string \<times> string" where
  "task_key r = (ts_JobID r, ts_URL r)"

definition tasks_inv :: "CrawlTaskSnapshot list \<Rightarrow> bool" where
  "tasks_inv rows \<longleftrightarrow> distinct (map ts_ID rows) \<and> distinct (map task_key rows)"

definition db_inv :: "DB \<Rightarrow> bool" where
  "db_inv db \<longleftrightarrow>
     tasks_inv (db_tasks db) \<and>
     (\<forall>r \<in> set (db_tasks db). ts_JobID r \<in> js_ID ` set (db_jobs db)) \<and>
     distinct (map js_ID (db_jobs db)) \<and>
     (\<forall>j \<in> set (db_jobs db). \<exists>c \<in> set (db_configs db). js_JobConfigID j = Some (cfg_ID c)) \<and>
     distinct (map cfg_ID (db_configs db)) \<and> distinct (map cfg_Name (db_configs db)) \<and>
     distinct (map ob_ID (db_outbox db))"

lemma empty_db_inv: "db_inv empty_db"
  by (simp add: db_inv_def tasks_inv_def empty_db_def)

end
