(* ===== verification/Task_Repository.thy ===== *)
theory Task_Repository
  imports Database_Model "HOL-Library.Multiset"
begin

text \<open>
  The task repository, \<^verbatim>\<open>postgres/repos/crawl_task_repo.go\<close>: each method is what its SQL
  statement does to the table of tasks.  \<^verbatim>\<open>ORDER BY\<close> is a stable sort of the rows in insertion
  order (PostgreSQL leaves the order of equal keys open).  The keyset pagination of
  \<^verbatim>\<open>ListWithCursor\<close> has its own theory.
\<close>

section \<open>Operations\<close>

definition find_task :: "DB \<Rightarrow> string \<Rightarrow> CrawlTaskSnapshot option" where
  "find_task db i = List.find (\<lambda>r. ts_ID r = i) (db_tasks db)"

definition find_job :: "DB \<Rightarrow> string \<Rightarrow> CrawlJobSnapshot option" where
  "find_job db i = List.find (\<lambda>r. js_ID r = i) (db_jobs db)"

definition task_Create :: "(string \<Rightarrow> bool) \<Rightarrow> CrawlTask \<Rightarrow> DB \<Rightarrow> CrawlTaskID res \<times> DB" where [repo_defs]:
  "task_Create uuid_ok t db =
     (let r = SaveCrawlTaskToSnapshot t
      in if ts_ID r \<in> ts_ID ` set (db_tasks db) \<or> task_key r \<in> task_key ` set (db_tasks db)
         then (Inl unique_violation, db)
         else if find_job db (ts_JobID r) = None then (Inl fk_violation, db)
         else (NewCrawlTaskID uuid_ok (ts_ID r), db\<lparr>db_tasks := db_tasks db @ [r]\<rparr>))"

text \<open>
  \<^verbatim>\<open>INSERT ... ON CONFLICT (job_id, url) DO NOTHING RETURNING id\<close>: a row whose job and URL are
  already there, or come earlier in the statement, is skipped; the identifiers of the inserted rows
  are returned in order.
\<close>

fun insert_rows ::
  "CrawlTaskSnapshot list \<Rightarrow> CrawlTaskSnapshot list \<Rightarrow> (CrawlTaskSnapshot list \<times> string list) res" where
  "insert_rows tbl [] = Inr (tbl, [])"
| "insert_rows tbl (r # rs) =
     (if task_key r \<in> task_key ` set tbl then insert_rows tbl rs
      else if ts_ID r \<in> ts_ID ` set tbl then Inl unique_violation
      else (case insert_rows (tbl @ [r]) rs of
              Inl e \<Rightarrow> Inl e
            | Inr (tbl', ids) \<Rightarrow> Inr (tbl', ts_ID r # ids)))"

definition task_BulkCreate ::
  "(string \<Rightarrow> bool) \<Rightarrow> CrawlTask list \<Rightarrow> DB \<Rightarrow> CrawlTaskID list res \<times> DB" where [repo_defs]:
  "task_BulkCreate uuid_ok ts db =
     (if ts = [] then (Inr [], db)
      else (case insert_rows (db_tasks db) (map SaveCrawlTaskToSnapshot ts) of
          Inl e \<Rightarrow> (Inl e, db)
        | Inr (tbl', ids) \<Rightarrow>
            if \<exists>r \<in> set (drop (length (db_tasks db)) tbl'). find_job db (ts_JobID r) = None
            then (Inl fk_violation, db)
            else (map_res (NewCrawlTaskID uuid_ok) ids, db\<lparr>db_tasks := tbl'\<rparr>)))"

text \<open>The join selects five columns of the job; the others are left at their zero values.\<close>

definition job_columns_of_join :: "CrawlJobSnapshot \<Rightarrow> CrawlJobSnapshot" where
  "job_columns_of_join j =
     j\<lparr>js_UserID := None, js_Name := None, js_ExportJSONKey := None, js_ExportCSVKey := None,
       js_ExportedAt := None, js_ExportStatus := None\<rparr>"

definition task_Get :: "(string \<Rightarrow> bool) \<Rightarrow> CrawlTaskID \<Rightarrow> DB \<Rightarrow> CrawlTask res" where [repo_defs]:
  "task_Get uuid_ok i db =
     (case find_task db i of
        None \<Rightarrow> Inl ErrNoRows
      | Some r \<Rightarrow> (case find_job db (ts_JobID r) of
            None \<Rightarrow> Inl ErrNoRows
          | Some j \<Rightarrow> RestoreCrawlTaskWithJobFromSnapshot uuid_ok r (Some (job_columns_of_join j))))"

text \<open>\<^verbatim>\<open>UPDATE\<close> writes every column but the identifier, the job and the time of enqueueing.\<close>

definition updated_row :: "CrawlTask \<Rightarrow> CrawlTaskSnapshot \<Rightarrow> CrawlTaskSnapshot" where
  "updated_row t r =
     (SaveCrawlTaskToSnapshot t)\<lparr>ts_ID := ts_ID r, ts_JobID := ts_JobID r, ts_EnqueuedAt := ts_EnqueuedAt r\<rparr>"

definition task_Update :: "CrawlTask \<Rightarrow> DB \<Rightarrow> unit res \<times> DB" where [repo_defs]:
  "task_Update t db =
     (case find_task db (task_ID t) of
        None \<Rightarrow> (Inr (), db)
      | Some r \<Rightarrow>
          if \<exists>x \<in> set (db_tasks db). ts_ID x \<noteq> task_ID t \<and> task_key x = task_key (updated_row t r)
          then (Inl unique_violation, db)
          else (Inr (), db\<lparr>db_tasks := map (\<lambda>x. if ts_ID x = task_ID t then updated_row t x else x) (db_tasks db)\<rparr>))"

definition task_ListByJob :: "(string \<Rightarrow> bool) \<Rightarrow> CrawlJobID \<Rightarrow> DB \<Rightarrow> CrawlTask list res" where [repo_defs]:
  "task_ListByJob uuid_ok jid db =
     map_res (RestoreCrawlTaskFromSnapshot uuid_ok)
       (sort_key ts_EnqueuedAt (filter (\<lambda>r. ts_JobID r = jid) (db_tasks db)))"

definition task_ListByStatus :: "(string \<Rightarrow> bool) \<Rightarrow> TaskStatus \<Rightarrow> nat \<Rightarrow> DB \<Rightarrow> CrawlTask list res" where [repo_defs]:
  "task_ListByStatus uuid_ok status limit db =
     map_res (RestoreCrawlTaskFromSnapshot uuid_ok)
       (take limit (sort_key ts_EnqueuedAt (filter (\<lambda>r. ts_Status r = status) (db_tasks db))))"

definition task_SetTaskResult :: "CrawlTaskID \<Rightarrow> string \<Rightarrow> string \<Rightarrow> int \<Rightarrow> time \<Rightarrow> DB \<Rightarrow> unit res \<times> DB" where [repo_defs]:
  "task_SetTaskResult i objectKey contentType sizeBytes now db =
     (Inr (), db\<lparr>db_tasks := map (\<lambda>r. if ts_ID r = i
        then r\<lparr>ts_ResultObjectKey := Some objectKey, ts_ResultContentType := Some contentType,
               ts_ResultSizeBytes := Some sizeBytes, ts_ResultCreatedAt := Some now\<rparr> else r) (db_tasks db)\<rparr>)"

definition task_ExistsByJobIDAndURL :: "CrawlJobID \<Rightarrow> string \<Rightarrow> DB \<Rightarrow> bool res" where [repo_defs]:
  "task_ExistsByJobIDAndURL jid url db =
     Inr (list_ex (\<lambda>r. ts_JobID r = jid \<and> ts_URL r = url \<and> ts_Status r \<noteq> TaskStatusInProgress) (db_tasks db))"

definition task_ListStaleInProgress :: "(string \<Rightarrow> bool) \<Rightarrow> time \<Rightarrow> nat \<Rightarrow> DB \<Rightarrow> CrawlTask list res" where [repo_defs]:
  "task_ListStaleInProgress uuid_ok olderThan limit db =
     map_res (RestoreCrawlTaskFromSnapshot uuid_ok)
       (take limit (sort_key ts_EnqueuedAt
          (filter (\<lambda>r. ts_Status r = TaskStatusInProgress \<and> ts_EnqueuedAt r < olderThan) (db_tasks db))))"

record TaskAnalytics =
  StatusCounts :: "(string \<times> nat) list"
  DepthCounts :: "(u64 \<times> nat) list"
  TotalCount :: nat

text \<open>\<^verbatim>\<open>GROUP BY\<close> with \<^verbatim>\<open>COUNT(*)\<close>: one pair per value that occurs.\<close>

definition group_count :: "('a \<Rightarrow> 'k) \<Rightarrow> 'a list \<Rightarrow> ('k \<times> nat) list" where
  "group_count f xs = map (\<lambda>k. (k, length (filter (\<lambda>x. f x = k) xs))) (remdups (map f xs))"

definition task_GetAnalyticsByJob :: "CrawlJobID \<Rightarrow> DB \<Rightarrow> TaskAnalytics res" where [repo_defs]:
  "task_GetAnalyticsByJob jid db =
     (let rows = filter (\<lambda>r. ts_JobID r = jid) (db_tasks db);
          sc = group_count ts_Status rows
      in Inr \<lparr>StatusCounts = sc, DepthCounts = sort_key fst (group_count ts_Depth rows),
              TotalCount = foldl (\<lambda>acc (s, n). acc + n) 0 sc\<rparr>)"

section \<open>Lemmas\<close>

lemma tasks_inv_same_id:
  "tasks_inv rows \<Longrightarrow> x \<in> set rows \<Longrightarrow> y \<in> set rows \<Longrightarrow> ts_ID x = ts_ID y \<Longrightarrow> x = y"
  by (auto simp: tasks_inv_def distinct_map dest: inj_onD)

lemma tasks_inv_same_key:
  "tasks_inv rows \<Longrightarrow> x \<in> set rows \<Longrightarrow> y \<in> set rows \<Longrightarrow> task_key x = task_key y \<Longrightarrow> x = y"
  by (auto simp: tasks_inv_def distinct_map dest: inj_onD)

lemma find_task_SomeD: "find_task db i = Some r \<Longrightarrow> r \<in> set (db_tasks db) \<and> ts_ID r = i"
  by (auto simp: find_task_def find_Some_iff)

lemma find_task_iff:
  assumes "tasks_inv (db_tasks db)"
  shows "find_task db i = Some r \<longleftrightarrow> r \<in> set (db_tasks db) \<and> ts_ID r = i"
proof
  assume r: "r \<in> set (db_tasks db) \<and> ts_ID r = i"
  then have "find_task db i \<noteq> None" by (auto simp: find_task_def find_None_iff)
  then obtain r' where r': "find_task db i = Some r'" by blast
  then have "r' \<in> set (db_tasks db)" "ts_ID r' = i" by (auto dest: find_task_SomeD)
  with r assms have "r' = r" by (auto intro: tasks_inv_same_id)
  with r' show "find_task db i = Some r" by simp
qed (rule find_task_SomeD)

lemma find_job_None_iff: "find_job db i = None \<longleftrightarrow> i \<notin> js_ID ` set (db_jobs db)"
  by (auto simp: find_job_def find_None_iff image_iff)

lemma updated_row_fields [simp]:
  "ts_ID (updated_row t r) = ts_ID r" "ts_JobID (updated_row t r) = ts_JobID r"
  "ts_EnqueuedAt (updated_row t r) = ts_EnqueuedAt r" "ts_URL (updated_row t r) = task_URL t"
  "ts_Status (updated_row t r) = task_Status t" "ts_Depth (updated_row t r) = task_Depth t"
  "ts_ResultObjectKey (updated_row t r) = task_ResultObjectKey t"
  by (simp_all add: updated_row_def)

lemma task_key_updated [simp]: "task_key (updated_row t r) = (ts_JobID r, task_URL t)"
  by (simp add: task_key_def)

subsection \<open>Bulk insertion\<close>

lemma insert_rows_extends:
  "insert_rows tbl rs = Inr (tbl', ids) \<Longrightarrow>
     \<exists>new. tbl' = tbl @ new \<and> map ts_ID new = ids \<and> subseq new rs"
proof (induction tbl rs arbitrary: tbl' ids rule: insert_rows.induct)
  case (1 tbl)
  then show ?case by simp
next
  case (2 tbl r rs)
  show ?case
  proof (cases "task_key r \<in> task_key ` set tbl")
    case True
    with 2 show ?thesis by fastforce
  next
    case False
    with 2 obtain ids' where ids': "insert_rows (tbl @ [r]) rs = Inr (tbl', ids')" "ids = ts_ID r # ids'"
      by (auto split: if_splits sum.splits)
    with 2(2) [OF False _ ids'(1)] 2(3) False obtain new where
      "tbl' = (tbl @ [r]) @ new" "map ts_ID new = ids'" "subseq new rs"
      by (auto split: if_splits)
    with ids'(2) show ?thesis by (intro exI [of _ "r # new"]) simp
  qed
qed

lemma insert_rows_inv:
  "insert_rows tbl rs = Inr (tbl', ids) \<Longrightarrow> tasks_inv tbl \<Longrightarrow> tasks_inv tbl'"
proof (induction tbl rs arbitrary: tbl' ids rule: insert_rows.induct)
  case (2 tbl r rs)
  show ?case
  proof (cases "task_key r \<in> task_key ` set tbl")
    case True
    with 2 show ?thesis by simp
  next
    case False
    with 2(3) obtain ids' where new: "ts_ID r \<notin> ts_ID ` set tbl"
      "insert_rows (tbl @ [r]) rs = Inr (tbl', ids')"
      by (auto split: if_splits sum.splits)
    have "tasks_inv (tbl @ [r])"
      using 2(4) False new(1) by (auto simp: tasks_inv_def)
    with 2(2) [OF False new] show ?thesis .
  qed
qed simp

lemma insert_rows_keys:
  "insert_rows tbl rs = Inr (tbl', ids) \<Longrightarrow> task_key ` set tbl' = task_key ` set tbl \<union> task_key ` set rs"
proof (induction tbl rs arbitrary: tbl' ids rule: insert_rows.induct)
  case (2 tbl r rs)
  show ?case
  proof (cases "task_key r \<in> task_key ` set tbl")
    case True
    with 2 have "task_key ` set tbl' = task_key ` set tbl \<union> task_key ` set rs" by simp
    with True show ?thesis by auto
  next
    case False
    with 2(3) obtain ids' where new: "ts_ID r \<notin> ts_ID ` set tbl"
      "insert_rows (tbl @ [r]) rs = Inr (tbl', ids')"
      by (auto split: if_splits sum.splits)
    have "task_key ` set tbl' = task_key ` set (tbl @ [r]) \<union> task_key ` set rs"
      using 2(2) [OF False new] .
    then show ?thesis by simp
  qed
qed simp

lemma insert_rows_total:
  assumes "ts_ID ` set rs \<inter> ts_ID ` set tbl = {}" and "distinct (map ts_ID rs)"
  shows "\<exists>tbl' ids. insert_rows tbl rs = Inr (tbl', ids)"
  using assms
proof (induction tbl rs rule: insert_rows.induct)
  case (2 tbl r rs)
  show ?case
  proof (cases "task_key r \<in> task_key ` set tbl")
    case True
    with 2 show ?thesis by simp
  next
    case False
    have n: "ts_ID r \<notin> ts_ID ` set tbl" using 2(3) by auto
    have "ts_ID ` set rs \<inter> ts_ID ` set (tbl @ [r]) = {}" "distinct (map ts_ID rs)"
      using 2(3,4) by auto
    with 2(2) [OF False n] obtain tbl' ids where "insert_rows (tbl @ [r]) rs = Inr (tbl', ids)" by blast
    with False n show ?thesis by simp
  qed
qed simp

lemma insert_rows_fixed: "task_key ` set rs \<subseteq> task_key ` set tbl \<Longrightarrow> insert_rows tbl rs = Inr (tbl, [])"
  by (induction rs) auto

subsection \<open>Consistency is kept\<close>

lemma find_Some_ex: "x \<in> set xs \<Longrightarrow> P x \<Longrightarrow> \<exists>y. List.find P xs = Some y"
  by (induction xs) auto

lemma tasks_inv_map_update:
  assumes "tasks_inv rows" and "\<And>x. x \<in> set rows \<Longrightarrow> ts_ID (f x) = ts_ID x"
    and "distinct (map (task_key \<circ> f) rows)"
  shows "tasks_inv (map f rows)"
  using assms by (simp add: tasks_inv_def cong: map_cong)

lemma updated_keys_distinct:
  assumes inv: "tasks_inv rows"
    and free: "\<And>x y. x \<in> set rows \<Longrightarrow> y \<in> set rows \<Longrightarrow> ts_ID y = i \<Longrightarrow> ts_ID x \<noteq> i \<Longrightarrow>
        task_key x \<noteq> (ts_JobID y, u)"
    and f: "\<And>x. task_key (f x) = (if ts_ID x = i then (ts_JobID x, u) else task_key x)"
  shows "distinct (map (task_key \<circ> f) rows)"
proof (simp only: distinct_map, rule conjI)
  show "distinct rows" using inv by (auto simp: tasks_inv_def distinct_map)
  have ids: "inj_on ts_ID (set rows)" and keys: "inj_on task_key (set rows)"
    using inv by (auto simp: tasks_inv_def distinct_map)
  show "inj_on (task_key \<circ> f) (set rows)"
  proof (rule inj_onI)
    fix x y assume xy: "x \<in> set rows" "y \<in> set rows" "(task_key \<circ> f) x = (task_key \<circ> f) y"
    show "x = y"
    proof (cases "ts_ID x = i \<longleftrightarrow> ts_ID y = i")
      case True
      then show ?thesis
      proof (cases "ts_ID x = i")
        case xi: True
        then show ?thesis using True xy inj_onD [OF ids] by auto
      next
        case False
        then show ?thesis using True xy inj_onD [OF keys] by (auto simp: f)
      qed
    next
      case False
      then show ?thesis using xy free [of x y] free [of y x] by (auto simp: f)
    qed
  qed
qed

lemma task_Update_inv:
  assumes "db_inv db" and "task_Update t db = (res, db')"
  shows "db_inv db'"
proof (cases "find_task db (task_ID t)")
  case None
  with assms show ?thesis by (simp add: task_Update_def)
next
  case (Some r)
  let ?f = "\<lambda>x. if ts_ID x = task_ID t then updated_row t x else x"
  have r: "r \<in> set (db_tasks db)" "ts_ID r = task_ID t" using find_task_SomeD [OF Some] by auto
  have inv: "tasks_inv (db_tasks db)" using assms(1) by (simp add: db_inv_def)
  show ?thesis
  proof (cases "\<exists>x \<in> set (db_tasks db). ts_ID x \<noteq> task_ID t \<and> task_key x = task_key (updated_row t r)")
    case True
    with Some assms show ?thesis by (simp add: task_Update_def)
  next
    case False
    have uniq: "y = r" if "y \<in> set (db_tasks db)" "ts_ID y = task_ID t" for y
      using tasks_inv_same_id [OF inv that(1) r(1)] that(2) r(2) by simp
    have d: "distinct (map (task_key \<circ> ?f) (db_tasks db))"
      by (rule updated_keys_distinct [OF inv, where i = "task_ID t" and u = "task_URL t"])
        (use False uniq in auto)
    have "tasks_inv (map ?f (db_tasks db))"
      by (rule tasks_inv_map_update [OF inv _ d]) simp
    moreover have "db' = db\<lparr>db_tasks := map ?f (db_tasks db)\<rparr>"
      using Some False assms(2) by (auto simp: task_Update_def split: if_splits)
    ultimately show ?thesis
      using assms(1) by (auto simp: db_inv_def)
  qed
qed

lemma task_BulkCreate_inv:
  assumes "db_inv db" and "task_BulkCreate ok ts db = (res, db')"
  shows "db_inv db'"
proof (cases "insert_rows (db_tasks db) (map SaveCrawlTaskToSnapshot ts)")
  case (Inl e)
  with assms show ?thesis by (auto simp: task_BulkCreate_def split: if_splits)
next
  case (Inr p)
  obtain tbl' ids where p: "p = (tbl', ids)" by (cases p)
  obtain new where new: "tbl' = db_tasks db @ new"
    using insert_rows_extends Inr p by blast
  have "tasks_inv tbl'" using insert_rows_inv Inr p assms(1) by (auto simp: db_inv_def)
  then show ?thesis
    using assms Inr p new
    by (auto simp: task_BulkCreate_def db_inv_def find_job_None_iff split: if_splits)
qed

lemma task_Create_inv:
  assumes "db_inv db" and "task_Create ok t db = (res, db')"
  shows "db_inv db'"
  using assms by (auto simp: task_Create_def Let_def db_inv_def tasks_inv_def find_job_None_iff split: if_splits)

lemma task_SetTaskResult_inv:
  assumes "db_inv db" and "task_SetTaskResult i k c n now db = (res, db')"
  shows "db_inv db'"
proof -
  let ?f = "\<lambda>r. if ts_ID r = i then r\<lparr>ts_ResultObjectKey := Some k, ts_ResultContentType := Some c,
               ts_ResultSizeBytes := Some n, ts_ResultCreatedAt := Some now\<rparr> else r"
  have same: "ts_ID (?f r) = ts_ID r" "task_key (?f r) = task_key r" "ts_JobID (?f r) = ts_JobID r" for r
    by (simp_all add: task_key_def)
  have "tasks_inv (map ?f (db_tasks db)) = tasks_inv (db_tasks db)"
    unfolding tasks_inv_def map_map comp_def same ..
  then show ?thesis using assms by (auto simp: task_SetTaskResult_def db_inv_def)
qed

section \<open>The contract the workers use\<close>

text \<open>
  A store of tasks: updating a stored task under its own URL succeeds, changes that row and no other,
  and keeps the store consistent; updating a task that is gone does nothing.
\<close>

locale task_store =
  fixes lookup :: "'db \<Rightarrow> string \<Rightarrow> CrawlTaskSnapshot option"
    and upd :: "CrawlTask \<Rightarrow> 'db \<Rightarrow> unit res \<times> 'db"
    and inv :: "'db \<Rightarrow> bool"
  assumes upd_present:
      "inv db \<Longrightarrow> lookup db (task_ID t) = Some r \<Longrightarrow> ts_URL r = task_URL t \<Longrightarrow>
         \<exists>db'. upd t db = (Inr (), db') \<and> inv db' \<and>
               lookup db' = (lookup db)(task_ID t \<mapsto> updated_row t r)"
    and upd_absent: "lookup db (task_ID t) = None \<Longrightarrow> upd t db = (Inr (), db)"
begin

text \<open>The last of two updates wins.\<close>

lemma upd_upd:
  assumes "inv db" and "lookup db (task_ID t) = Some r" and "ts_URL r = task_URL t"
    and "task_ID t2 = task_ID t" and "task_URL t2 = task_URL t"
  shows "\<exists>db1 db2. upd t db = (Inr (), db1) \<and> upd t2 db1 = (Inr (), db2) \<and>
           lookup db2 = (lookup db)(task_ID t \<mapsto> updated_row t2 r)"
proof -
  obtain db1 where db1: "upd t db = (Inr (), db1)" "inv db1"
    "lookup db1 = (lookup db)(task_ID t \<mapsto> updated_row t r)"
    using upd_present [OF assms(1-3)] by blast
  have "lookup db1 (task_ID t2) = Some (updated_row t r)" using db1(3) assms(4) by simp
  then obtain db2 where db2: "upd t2 db1 = (Inr (), db2)"
    "lookup db2 = (lookup db1)(task_ID t2 \<mapsto> updated_row t2 (updated_row t r))"
    using upd_present [OF db1(2), of t2 "updated_row t r"] assms(5) by auto
  have "updated_row t2 (updated_row t r) = updated_row t2 r" by (simp add: updated_row_def)
  with db1 db2 assms(4) show ?thesis by auto
qed

lemma upd_other:
  assumes "inv db" and "lookup db (task_ID t) = Some r" and "ts_URL r = task_URL t"
    and "upd t db = (x, db')" and "i \<noteq> task_ID t"
  shows "lookup db' i = lookup db i"
  using upd_present [OF assms(1-3)] assms(4,5) by auto

end

lemma find_task_map_update:
  assumes "\<And>x. ts_ID (f x) = ts_ID x"
  shows "List.find (\<lambda>r. ts_ID r = i) (map (\<lambda>x. if ts_ID x = k then f x else x) rows) =
         (if i = k then map_option f (List.find (\<lambda>r. ts_ID r = i) rows) else List.find (\<lambda>r. ts_ID r = i) rows)"
  using assms by (induction rows) auto

lemma task_Update_present:
  assumes inv: "db_inv db" and r: "find_task db (task_ID t) = Some r" and u: "ts_URL r = task_URL t"
  shows "\<exists>db'. task_Update t db = (Inr (), db') \<and> db_inv db' \<and> db_jobs db' = db_jobs db \<and>
           find_task db' = (find_task db)(task_ID t \<mapsto> updated_row t r)"
proof -
  let ?f = "\<lambda>x. if ts_ID x = task_ID t then updated_row t x else x"
  let ?db' = "db\<lparr>db_tasks := map ?f (db_tasks db)\<rparr>"
  have rin: "r \<in> set (db_tasks db)" "ts_ID r = task_ID t" using find_task_SomeD [OF r] by auto
  have key: "task_key (updated_row t r) = task_key r" using u by (simp add: task_key_def)
  have ok: "\<not> (\<exists>x \<in> set (db_tasks db). ts_ID x \<noteq> task_ID t \<and> task_key x = task_key (updated_row t r))"
    using inv rin key tasks_inv_same_key [of "db_tasks db" _ r] by (auto simp: db_inv_def)
  have upd: "task_Update t db = (Inr (), ?db')" using r ok by (simp add: task_Update_def)
  moreover have "db_inv ?db'" using task_Update_inv [OF inv upd] .
  moreover have "find_task ?db' i = ((find_task db)(task_ID t \<mapsto> updated_row t r)) i" for i
    using r find_task_map_update [of "updated_row t" i "task_ID t" "db_tasks db"]
    by (simp add: find_task_def)
  ultimately show ?thesis by auto
qed

interpretation tasks: task_store find_task task_Update db_inv
proof
  fix db and t :: CrawlTask and r
  assume "db_inv db" "find_task db (task_ID t) = Some r" "ts_URL r = task_URL t"
  then show "\<exists>db'. task_Update t db = (Inr (), db') \<and> db_inv db' \<and>
      find_task db' = (find_task db)(task_ID t \<mapsto> updated_row t r)"
    using task_Update_present by blast
next
  fix db and t :: CrawlTask
  assume "find_task db (task_ID t) = None"
  then show "task_Update t db = (Inr (), db)" by (simp add: task_Update_def)
qed

section \<open>Properties\<close>

text \<open>A database with one configuration, one job and one task, used to evaluate instances.\<close>

definition sample_db :: DB where
  "sample_db =
     \<lparr>db_configs = [sample_config ''c1''],
      db_jobs = [SaveCrawlJobToSnapshot (sample_job ''j1'' ''c1'')],
      db_tasks = [SaveCrawlTaskToSnapshot (new_task ''t1'' ''j1'' ''http://a'' 7 0)],
      db_outbox = []\<rparr>"

definition ok2 :: "string \<Rightarrow> bool" where
  "ok2 s = (length s = 2)"

lemma sample_db_inv: "db_inv sample_db"
  by (simp add: db_inv_def tasks_inv_def sample_db_def sample_config_def sample_job_def
      SaveCrawlJobToSnapshot_def ID_IsEmpty_def new_task_def)

text \<open>
  C4. URL deduplication within a job.  A bulk insert of fresh tasks never fails on a duplicate URL: it
  inserts a subsequence of the tasks, keeps the tables consistent and the stored rows untouched, and
  returns exactly the identifiers it inserted; afterwards each requested URL has exactly one row in
  its job; and repeating the insert inserts nothing.
\<close>

theorem BulkCreate_deduplicates:
  assumes inv: "db_inv db"
    and fresh: "\<forall>t \<in> set ts. task_ID t \<notin> ts_ID ` set (db_tasks db)" "distinct (map task_ID ts)"
    and jobs: "\<forall>t \<in> set ts. find_job db (task_JobID t) \<noteq> None"
    and ids: "\<forall>t \<in> set ts. valid_id ok (task_ID t)"
  shows "\<exists>inserted db' new. task_BulkCreate ok ts db = (Inr inserted, db') \<and> db_inv db' \<and>
           db_tasks db' = db_tasks db @ new \<and> subseq new (map SaveCrawlTaskToSnapshot ts) \<and>
           inserted = map ts_ID new \<and>
           (\<forall>t \<in> set ts. \<exists>!r. r \<in> set (db_tasks db') \<and> ts_JobID r = task_JobID t \<and> ts_URL r = task_URL t) \<and>
           task_BulkCreate ok ts db' = (Inr [], db')"
proof -
  let ?rs = "map SaveCrawlTaskToSnapshot ts"
  have "ts_ID ` set ?rs \<inter> ts_ID ` set (db_tasks db) = {}" "distinct (map ts_ID ?rs)"
    using fresh by (auto simp: comp_def)
  then obtain tbl' inserted where ins: "insert_rows (db_tasks db) ?rs = Inr (tbl', inserted)"
    using insert_rows_total by blast
  obtain new where new: "tbl' = db_tasks db @ new" "map ts_ID new = inserted" "subseq new ?rs"
    using insert_rows_extends [OF ins] by blast
  have new_in: "\<exists>t \<in> set ts. r = SaveCrawlTaskToSnapshot t" if "r \<in> set new" for r
    using subseq_mem [OF new(3) that] by auto
  let ?db' = "db\<lparr>db_tasks := tbl'\<rparr>"
  have nofk: "\<not> (\<exists>r \<in> set (drop (length (db_tasks db)) tbl'). find_job db (ts_JobID r) = None)"
    using new new_in jobs by fastforce
  have "map_res (NewCrawlTaskID ok) inserted = Inr (map id inserted)"
    using new new_in ids by (intro map_res_all) (fastforce simp: NewTypedID_eq)
  then have bc: "task_BulkCreate ok ts db = (Inr inserted, ?db')"
    using ins nofk new by (cases "ts = []") (auto simp: task_BulkCreate_def)
  have inv': "db_inv ?db'" using task_BulkCreate_inv [OF inv bc] .
  have keys: "task_key ` set ?rs \<subseteq> task_key ` set tbl'" using insert_rows_keys [OF ins] by auto
  have uniq: "\<exists>!r. r \<in> set tbl' \<and> ts_JobID r = task_JobID t \<and> ts_URL r = task_URL t" if t: "t \<in> set ts" for t
  proof -
    have "task_key (SaveCrawlTaskToSnapshot t) \<in> task_key ` set tbl'" using keys t by auto
    then obtain r where r: "r \<in> set tbl'" "task_key r = (task_JobID t, task_URL t)"
      by (auto simp: task_key_def image_iff)
    have "r' = r" if "r' \<in> set tbl'" "task_key r' = (task_JobID t, task_URL t)" for r'
      using tasks_inv_same_key [of tbl' r' r] inv' that r by (simp add: db_inv_def)
    with r show ?thesis unfolding task_key_def prod.inject by (intro ex1I [of _ r]) blast+
  qed
  have "task_BulkCreate ok ts ?db' = (Inr [], ?db')"
    using insert_rows_fixed [OF keys] by (simp add: task_BulkCreate_def)
  with bc inv' new uniq show ?thesis by (intro exI [of _ inserted] exI [of _ ?db'] exI [of _ new]) simp
qed

theorem BulkCreate_deduplicates_witness:
  "\<exists>inserted db' new.
     task_BulkCreate ok2 [new_task ''t2'' ''j1'' ''http://a'' 9 1, new_task ''t3'' ''j1'' ''http://b'' 9 1] sample_db
       = (Inr inserted, db') \<and> db_inv db' \<and>
     db_tasks db' = db_tasks sample_db @ new \<and>
     subseq new (map SaveCrawlTaskToSnapshot [new_task ''t2'' ''j1'' ''http://a'' 9 1, new_task ''t3'' ''j1'' ''http://b'' 9 1]) \<and>
     inserted = map ts_ID new \<and>
     (\<forall>t \<in> set [new_task ''t2'' ''j1'' ''http://a'' 9 1, new_task ''t3'' ''j1'' ''http://b'' 9 1].
        \<exists>!r. r \<in> set (db_tasks db') \<and> ts_JobID r = task_JobID t \<and> ts_URL r = task_URL t) \<and>
     task_BulkCreate ok2 [new_task ''t2'' ''j1'' ''http://a'' 9 1, new_task ''t3'' ''j1'' ''http://b'' 9 1] db'
       = (Inr [], db')"
  by (rule BulkCreate_deduplicates [OF sample_db_inv])
    (simp_all add: sample_db_def find_job_def valid_id_def ok2_def sample_job_def)

text \<open>
  An update writes one row: the stored task gets the new columns but keeps its identifier, job and
  time of enqueueing, every other task reads as before, and the constraints still hold.
\<close>

theorem Update_writes_one_row:
  assumes "db_inv db" and "find_task db (task_ID t) = Some r" and "ts_URL r = task_URL t"
  shows "\<exists>db'. task_Update t db = (Inr (), db') \<and> db_inv db' \<and>
           find_task db' (task_ID t) =
             Some ((SaveCrawlTaskToSnapshot t)\<lparr>ts_ID := ts_ID r, ts_JobID := ts_JobID r,
                     ts_EnqueuedAt := ts_EnqueuedAt r\<rparr>) \<and>
           (\<forall>i. i \<noteq> task_ID t \<longrightarrow> find_task db' i = find_task db i)"
  using tasks.upd_present [OF assms] by (auto simp: updated_row_def)

theorem Update_writes_one_row_witness:
  "\<exists>db'. task_Update (MarkAsFailed (new_task ''t1'' ''j1'' ''http://a'' 0 0) ''x'') sample_db = (Inr (), db') \<and>
     db_inv db' \<and> (\<exists>r. find_task db' ''t1'' = Some r \<and> ts_Status r = TaskStatusFailed \<and> ts_EnqueuedAt r = 7)"
proof -
  have r: "find_task sample_db (task_ID (MarkAsFailed (new_task ''t1'' ''j1'' ''http://a'' 0 0) ''x'')) =
      Some (SaveCrawlTaskToSnapshot (new_task ''t1'' ''j1'' ''http://a'' 7 0))"
    by (simp add: find_task_def sample_db_def)
  have u: "ts_URL (SaveCrawlTaskToSnapshot (new_task ''t1'' ''j1'' ''http://a'' 7 0)) =
      task_URL (MarkAsFailed (new_task ''t1'' ''j1'' ''http://a'' 0 0) ''x'')" by simp
  show ?thesis
    using Update_writes_one_row [OF sample_db_inv r u] by auto
qed

lemma sum_length_filter:
  assumes "finite K" and "f ` set xs \<subseteq> K"
  shows "(\<Sum>k \<in> K. length (filter (\<lambda>x. f x = k) xs)) = length xs"
  using assms(2)
proof (induction xs)
  case Nil
  then show ?case by simp
next
  case (Cons x xs)
  have "(\<Sum>k \<in> K. length (filter (\<lambda>y. f y = k) (x # xs))) =
        (\<Sum>k \<in> K. length (filter (\<lambda>y. f y = k) xs) + (if k = f x then 1 else 0))"
    by (intro sum.cong) auto
  also have "\<dots> = length xs + 1"
    using Cons assms(1) by (simp add: sum.distrib sum.delta)
  finally show ?case by simp
qed

lemma group_count_total: "(\<Sum>(k, n) \<leftarrow> group_count f xs. n) = length xs"
proof -
  have "(\<Sum>(k, n) \<leftarrow> group_count f xs. n) = (\<Sum>k \<leftarrow> remdups (map f xs). length (filter (\<lambda>x. f x = k) xs))"
    by (simp add: group_count_def comp_def)
  also have "\<dots> = (\<Sum>k \<in> set (map f xs). length (filter (\<lambda>x. f x = k) xs))"
    by (subst sum_list_distinct_conv_sum_set) (simp_all only: distinct_remdups set_remdups)
  also have "\<dots> = length xs" by (rule sum_length_filter) auto
  finally show ?thesis .
qed

lemma foldl_add_pairs: "foldl (\<lambda>acc (s, n). acc + n) a ps = a + (\<Sum>(s, n) \<leftarrow> ps. n)" for a :: nat
  by (induction ps arbitrary: a) auto

text \<open>
  The analytics of a job are consistent: the total is the number of the job's tasks, the counts
  by status and by depth both add up to it, and each status is counted correctly.
\<close>

theorem Analytics_consistent:
  "\<exists>a. task_GetAnalyticsByJob jid db = Inr a \<and>
     TotalCount a = length (filter (\<lambda>r. ts_JobID r = jid) (db_tasks db)) \<and>
     (\<Sum>(s, n) \<leftarrow> StatusCounts a. n) = TotalCount a \<and>
     (\<Sum>(d, n) \<leftarrow> DepthCounts a. n) = TotalCount a \<and>
     (\<forall>(s, n) \<in> set (StatusCounts a).
        n = length (filter (\<lambda>r. ts_JobID r = jid \<and> ts_Status r = s) (db_tasks db)))"
proof -
  let ?rows = "filter (\<lambda>r. ts_JobID r = jid) (db_tasks db)"
  have perm: "(\<Sum>(d, n) \<leftarrow> sort_key fst xs. n) = (\<Sum>(d, n) \<leftarrow> xs. n)" for xs :: "(u64 \<times> nat) list"
    by (metis (no_types) mset_map mset_sort sum_mset_sum_list)
  show ?thesis
    by (auto simp: task_GetAnalyticsByJob_def Let_def foldl_add_pairs group_count_total perm)
      (auto simp: group_count_def intro: arg_cong [where f = length] filter_cong)
qed

theorem Analytics_consistent_witness:
  "\<exists>a. task_GetAnalyticsByJob ''j1'' sample_db = Inr a \<and> TotalCount a = 1"
  using Analytics_consistent [of "''j1''" sample_db] by (auto simp: sample_db_def)

end
