(* ===== verification/Job_Repository.thy ===== *)
theory Job_Repository
  imports Task_Repository "HOL-Library.List_Lexorder" "HOL-Library.Char_ord"
begin

text \<open>
  The repositories of configurations, jobs and outbox events
  (\<^verbatim>\<open>crawl_job_config_repo.go\<close>, \<^verbatim>\<open>crawl_job_repo.go\<close>, \<^verbatim>\<open>outbox_repo.go\<close> under
  \<^verbatim>\<open>postgres/repos\<close>).  As in the task repository each method is the effect of its SQL
  statement on the tables.  Rows locked by concurrent transactions (\<^verbatim>\<open>FOR UPDATE SKIP LOCKED\<close>)
  are an argument; names are ordered bytewise; the users table belongs to the authentication
  component, and a violated reference to it is one of the failures \<^const>\<open>db_call\<close> injects.
\<close>

section \<open>Configurations\<close>

definition find_config :: "DB \<Rightarrow> string \<Rightarrow> CrawlJobConfig option" where
  "find_config db i = List.find (\<lambda>c. cfg_ID c = i) (db_configs db)"

definition config_Create :: "(string \<Rightarrow> bool) \<Rightarrow> CrawlJobConfig \<Rightarrow> DB \<Rightarrow> ID res \<times> DB" where [repo_defs]:
  "config_Create uuid_ok entity db =
     (let c = SaveCrawlJobConfigToSnapshot entity
      in if cfg_ID c \<in> cfg_ID ` set (db_configs db) \<or> cfg_Name c \<in> cfg_Name ` set (db_configs db)
         then (Inl unique_violation, db)
         else (NewID uuid_ok (cfg_ID c), db\<lparr>db_configs := db_configs db @ [c]\<rparr>))"

definition config_Get :: "(string \<Rightarrow> bool) \<Rightarrow> ID \<Rightarrow> DB \<Rightarrow> CrawlJobConfig res" where [repo_defs]:
  "config_Get uuid_ok i db =
     (case find_config db i of
        None \<Rightarrow> Inl ErrNoRows
      | Some c \<Rightarrow> RestoreCrawlJobConfigFromSnapshot uuid_ok c)"

definition config_Update :: "CrawlJobConfig \<Rightarrow> DB \<Rightarrow> unit res \<times> DB" where [repo_defs]:
  "config_Update entity db =
     (let c = SaveCrawlJobConfigToSnapshot entity
      in if find_config db (cfg_ID c) \<noteq> None \<and>
            (\<exists>x \<in> set (db_configs db). cfg_ID x \<noteq> cfg_ID c \<and> cfg_Name x = cfg_Name c)
         then (Inl unique_violation, db)
         else (Inr (), db\<lparr>db_configs := map (\<lambda>x. if cfg_ID x = cfg_ID c then c else x) (db_configs db)\<rparr>))"

text \<open>\<^verbatim>\<open>ON DELETE CASCADE\<close>: the jobs of a deleted configuration and their tasks go with it.\<close>

definition config_Delete :: "ID \<Rightarrow> DB \<Rightarrow> unit res \<times> DB" where [repo_defs]:
  "config_Delete i db =
     (let gone = map js_ID (filter (\<lambda>j. js_JobConfigID j = Some i) (db_jobs db))
      in (Inr (), db\<lparr>db_configs := filter (\<lambda>c. cfg_ID c \<noteq> i) (db_configs db),
                     db_jobs := filter (\<lambda>j. js_JobConfigID j \<noteq> Some i) (db_jobs db),
                     db_tasks := filter (\<lambda>t. ts_JobID t \<notin> set gone) (db_tasks db)\<rparr>))"

definition config_ListAllScheduled :: "(string \<Rightarrow> bool) \<Rightarrow> nat \<Rightarrow> nat \<Rightarrow> DB \<Rightarrow> CrawlJobConfig list res" where [repo_defs]:
  "config_ListAllScheduled uuid_ok limit offset db =
     map_res (RestoreCrawlJobConfigFromSnapshot uuid_ok)
       (take limit (drop offset (sort_key cfg_Name
          (filter (\<lambda>c. cfg_JobType c = JobTypeScheduled) (db_configs db)))))"

section \<open>Jobs\<close>

definition not_null_violation :: gerr where
  "not_null_violation = ErrText ''null value violates not-null constraint''"

definition job_Create :: "(string \<Rightarrow> bool) \<Rightarrow> CrawlJob \<Rightarrow> DB \<Rightarrow> CrawlJobID res \<times> DB" where [repo_defs]:
  "job_Create uuid_ok entity db =
     (let r = SaveCrawlJobToSnapshot entity
      in case js_JobConfigID r of
           None \<Rightarrow> (Inl not_null_violation, db)
         | Some c \<Rightarrow>
             if js_ID r \<in> js_ID ` set (db_jobs db) then (Inl unique_violation, db)
             else if find_config db c = None then (Inl fk_violation, db)
             else (NewCrawlJobID uuid_ok (js_ID r), db\<lparr>db_jobs := db_jobs db @ [r]\<rparr>))"

definition job_Delete :: "CrawlJobID \<Rightarrow> DB \<Rightarrow> unit res \<times> DB" where [repo_defs]:
  "job_Delete i db =
     (Inr (), db\<lparr>db_jobs := filter (\<lambda>j. js_ID j \<noteq> i) (db_jobs db),
                 db_tasks := filter (\<lambda>t. ts_JobID t \<noteq> i) (db_tasks db)\<rparr>)"

text \<open>
  \<^verbatim>\<open>scanCrawlJobWithConfig\<close> on a row of the left join: a missing configuration makes the scan
  of the null identifier into a Go string fail.
\<close>

definition scan_null :: gerr where
  "scan_null = ErrText ''cannot scan null into *string''"

definition scanCrawlJobWithConfig :: "DB \<Rightarrow> CrawlJobSnapshot \<Rightarrow> (CrawlJobSnapshot \<times> CrawlJobConfig option) res" where [repo_defs]:
  "scanCrawlJobWithConfig db j =
     (case Option.bind (js_JobConfigID j) (find_config db) of
        None \<Rightarrow> Inl scan_null
      | Some c \<Rightarrow> Inr (j, if cfg_ID c \<noteq> [] then Some c else None))"

definition scanJobsWithQueueEndpoints :: "(string \<Rightarrow> bool) \<Rightarrow> DB \<Rightarrow> CrawlJobSnapshot list \<Rightarrow> CrawlJob list res" where [repo_defs]:
  "scanJobsWithQueueEndpoints uuid_ok db rows =
     bind_res (map_res (scanCrawlJobWithConfig db) rows)
       (map_res (\<lambda>(j, c). RestoreCrawlJobFromSnapshot uuid_ok j c))"

definition job_Get :: "(string \<Rightarrow> bool) \<Rightarrow> CrawlJobID \<Rightarrow> DB \<Rightarrow> CrawlJob res" where [repo_defs]:
  "job_Get uuid_ok i db =
     (case find_job db i of
        None \<Rightarrow> Inl ErrNoRows
      | Some j \<Rightarrow> bind_res (scanCrawlJobWithConfig db j) (\<lambda>(j, c). RestoreCrawlJobFromSnapshot uuid_ok j c))"

text \<open>\<^verbatim>\<open>UPDATE\<close> writes every column but the identifier and the creation time.\<close>

definition job_Update :: "CrawlJob \<Rightarrow> DB \<Rightarrow> unit res \<times> DB" where [repo_defs]:
  "job_Update entity db =
     (let r = SaveCrawlJobToSnapshot entity
      in case find_job db (js_ID r) of
           None \<Rightarrow> (Inr (), db)
         | Some old \<Rightarrow>
             (case js_JobConfigID r of
                None \<Rightarrow> (Inl not_null_violation, db)
              | Some c \<Rightarrow>
                  if find_config db c = None then (Inl fk_violation, db)
                  else (Inr (), db\<lparr>db_jobs := map (\<lambda>x. if js_ID x = js_ID r then r\<lparr>js_CreatedAt := js_CreatedAt x\<rparr> else x)
                                                (db_jobs db)\<rparr>)))"

definition by_created_desc :: "CrawlJobSnapshot list \<Rightarrow> CrawlJobSnapshot list" where
  "by_created_desc = sort_key (\<lambda>j. - js_CreatedAt j)"

definition job_List :: "(string \<Rightarrow> bool) \<Rightarrow> TaskStatus \<Rightarrow> nat \<Rightarrow> nat \<Rightarrow> DB \<Rightarrow> CrawlJob list res" where [repo_defs]:
  "job_List uuid_ok status limit offset db =
     scanJobsWithQueueEndpoints uuid_ok db
       (take limit (drop offset (by_created_desc (filter (\<lambda>j. js_Status j = status) (db_jobs db)))))"

definition job_ListAll :: "(string \<Rightarrow> bool) \<Rightarrow> nat \<Rightarrow> nat \<Rightarrow> DB \<Rightarrow> CrawlJob list res" where [repo_defs]:
  "job_ListAll uuid_ok limit offset db =
     scanJobsWithQueueEndpoints uuid_ok db (take limit (drop offset (by_created_desc (db_jobs db))))"

text \<open>
  \<^verbatim>\<open>GetLatestByConfigID\<close> compares the error of the row with \<^verbatim>\<open>sql.ErrNoRows\<close>, while the
  driver reports its own sentinel; \<open>is_sql_no_rows\<close> stands for \<^verbatim>\<open>errors.Is(err, sql.ErrNoRows)\<close> on
  the driver's errors.
\<close>

definition job_GetLatestByConfigID ::
  "(gerr \<Rightarrow> bool) \<Rightarrow> (string \<Rightarrow> bool) \<Rightarrow> ID \<Rightarrow> DB \<Rightarrow> CrawlJob option res" where [repo_defs]:
  "job_GetLatestByConfigID is_sql_no_rows uuid_ok cid db =
     (case (case by_created_desc (filter (\<lambda>j. js_JobConfigID j = Some cid) (db_jobs db)) of
              [] \<Rightarrow> Inl ErrNoRows
            | j # _ \<Rightarrow> scanCrawlJobWithConfig db j) of
        Inl e \<Rightarrow> if is_sql_no_rows e then Inr None else Inl e
      | Inr (j, c) \<Rightarrow> bind_res (RestoreCrawlJobFromSnapshot uuid_ok j c) (\<lambda>x. Inr (Some x)))"

section \<open>Export of a job\<close>

text \<open>The five conditions of the \<^verbatim>\<open>WHERE\<close> clause, in the order of the query.\<close>

definition parsed_or_completed :: "CrawlTaskSnapshot \<Rightarrow> bool" where
  "parsed_or_completed t \<longleftrightarrow> ts_Status t = TaskStatusParsed \<or> ts_Status t = TaskStatusCompleted"

definition terminal_task :: "CrawlTaskSnapshot \<Rightarrow> bool" where
  "terminal_task t \<longleftrightarrow> ts_Status t \<in> {TaskStatusParsed, TaskStatusCompleted, TaskStatusFailed, TaskStatusSkipped}"

definition export_not_running :: "CrawlJobSnapshot \<Rightarrow> bool" where
  "export_not_running j \<longleftrightarrow> (case js_ExportStatus j of None \<Rightarrow> False | Some s \<Rightarrow> s \<noteq> ExportStatusInProgress)"

definition no_pending_events :: "DB \<Rightarrow> CrawlJobSnapshot \<Rightarrow> bool" where
  "no_pending_events db j \<longleftrightarrow>
     \<not> list_ex (\<lambda>e. ob_ProcessedAt e = None \<and> ob_EventType e = EventTypeTaskEnqueued \<and>
          list_ex (\<lambda>t. ts_ID t = ob_AggregateID e \<and> ts_JobID t = js_ID j) (db_tasks db)) (db_outbox db)"

definition export_outdated :: "DB \<Rightarrow> CrawlJobSnapshot \<Rightarrow> bool" where
  "export_outdated db j \<longleftrightarrow>
     (case js_ExportedAt j of
        None \<Rightarrow> True
      | Some exported \<Rightarrow> list_ex (\<lambda>t. ts_JobID t = js_ID j \<and> parsed_or_completed t \<and>
                      (case ts_ResultCreatedAt t of None \<Rightarrow> False | Some c \<Rightarrow> exported < c)) (db_tasks db))"

definition eligible :: "DB \<Rightarrow> CrawlJobSnapshot \<Rightarrow> bool" where
  "eligible db j \<longleftrightarrow>
     export_not_running j \<and>
     \<not> list_ex (\<lambda>t. ts_JobID t = js_ID j \<and> \<not> terminal_task t) (db_tasks db) \<and>
     \<not> list_ex (\<lambda>t. ts_JobID t = js_ID j \<and> parsed_or_completed t \<and>
           (case ts_ResultObjectKey t of None \<Rightarrow> True | Some k \<Rightarrow> k = [])) (db_tasks db) \<and>
     no_pending_events db j \<and>
     export_outdated db j"

text \<open>\<^verbatim>\<open>ORDER BY completed_at ASC\<close>: PostgreSQL puts nulls last.\<close>

definition nulls_last :: "('a \<Rightarrow> time option) \<Rightarrow> 'a list \<Rightarrow> 'a list" where
  "nulls_last f xs = sort_key (\<lambda>x. the (f x)) (filter (\<lambda>x. f x \<noteq> None) xs) @ filter (\<lambda>x. f x = None) xs"

definition job_ListEligibleForExport ::
  "(string \<Rightarrow> bool) \<Rightarrow> string list \<Rightarrow> nat \<Rightarrow> DB \<Rightarrow> CrawlJob list res" where [repo_defs]:
  "job_ListEligibleForExport uuid_ok locked limit db =
     scanJobsWithQueueEndpoints uuid_ok db
       (take limit (nulls_last js_CompletedAt
          (filter (\<lambda>j. eligible db j \<and> js_ID j \<notin> set locked) (db_jobs db))))"

definition startable :: "CrawlJobID \<Rightarrow> CrawlJobSnapshot \<Rightarrow> bool" where
  "startable i j \<longleftrightarrow> js_ID j = i \<and> js_ExportStatus j = Some ExportStatusNotStarted"

definition job_TryStartExport :: "CrawlJobID \<Rightarrow> DB \<Rightarrow> bool res \<times> DB" where [repo_defs]:
  "job_TryStartExport i db =
     (let rowsAffected = length (filter (startable i) (db_jobs db));
          db' = db\<lparr>db_jobs := map (\<lambda>j. if startable i j then j\<lparr>js_ExportStatus := Some ExportStatusInProgress\<rparr> else j)
                   (db_jobs db)\<rparr>
      in if rowsAffected \<noteq> 1 then (Inl (ErrText ''more than 1 row affected''), db')
         else (Inr (rowsAffected = 1), db'))"

definition job_FailExport :: "CrawlJobID \<Rightarrow> DB \<Rightarrow> unit res \<times> DB" where [repo_defs]:
  "job_FailExport i db =
     (Inr (), db\<lparr>db_jobs := map (\<lambda>j. if js_ID j = i then j\<lparr>js_ExportStatus := Some ExportStatusFailed\<rparr> else j)
                 (db_jobs db)\<rparr>)"

section \<open>The outbox\<close>

definition outbox_Create :: "OutboxEvent \<Rightarrow> DB \<Rightarrow> unit res \<times> DB" where [repo_defs]:
  "outbox_Create e db =
     (if ob_ID e \<in> ob_ID ` set (db_outbox db) then (Inl unique_violation, db)
      else (Inr (), db\<lparr>db_outbox := db_outbox db @ [e]\<rparr>))"

definition outbox_BulkCreate :: "OutboxEvent list \<Rightarrow> DB \<Rightarrow> unit res \<times> DB" where [repo_defs]:
  "outbox_BulkCreate es db =
     (if es = [] then (Inr (), db)
      else if \<not> distinct (map ob_ID es) \<or> (\<exists>e \<in> set es. ob_ID e \<in> ob_ID ` set (db_outbox db))
      then (Inl unique_violation, db)
      else (Inr (), db\<lparr>db_outbox := db_outbox db @ es\<rparr>))"

definition RestoreOutboxEventFromSnapshot :: "OutboxEvent \<Rightarrow> OutboxEvent res" where
  "RestoreOutboxEventFromSnapshot s = bind_res (NewOutboxEventID (ob_ID s)) (\<lambda>i. Inr (s\<lparr>ob_ID := i\<rparr>))"

definition outbox_FetchUnprocessedEvents :: "string list \<Rightarrow> nat \<Rightarrow> DB \<Rightarrow> OutboxEvent list res" where [repo_defs]:
  "outbox_FetchUnprocessedEvents locked limit db =
     map_res RestoreOutboxEventFromSnapshot
       (take limit (sort_key ob_OccurredAt
          (filter (\<lambda>e. ob_ProcessedAt e = None \<and> ob_ID e \<notin> set locked) (db_outbox db))))"

definition outbox_MarkAsProcessed :: "time \<Rightarrow> OutboxEventID \<Rightarrow> DB \<Rightarrow> unit res \<times> DB" where [repo_defs]:
  "outbox_MarkAsProcessed now i db =
     (Inr (), db\<lparr>db_outbox := map (\<lambda>e. if ob_ID e = i then e\<lparr>ob_ProcessedAt := Some now\<rparr> else e) (db_outbox db)\<rparr>)"

section \<open>Consistency is kept\<close>

lemma find_config_None_iff: "find_config db i = None \<longleftrightarrow> i \<notin> cfg_ID ` set (db_configs db)"
  by (auto simp: find_config_def find_None_iff image_iff)

lemma find_config_Some: "find_config db i = Some c \<Longrightarrow> c \<in> set (db_configs db) \<and> cfg_ID c = i"
  by (auto simp: find_config_def find_Some_iff)

lemma find_config_iff:
  assumes "db_inv db"
  shows "find_config db i = Some c \<longleftrightarrow> c \<in> set (db_configs db) \<and> cfg_ID c = i"
proof
  assume c: "c \<in> set (db_configs db) \<and> cfg_ID c = i"
  then obtain c' where c': "find_config db i = Some c'" using find_config_None_iff [of db i] by blast
  have "inj_on cfg_ID (set (db_configs db))" using assms by (simp add: db_inv_def distinct_map)
  then show "find_config db i = Some c" using c c' find_config_Some [OF c'] by (auto dest: inj_onD)
qed (rule find_config_Some)

lemma find_job_SomeD: "find_job db i = Some j \<Longrightarrow> j \<in> set (db_jobs db) \<and> js_ID j = i"
  by (auto simp: find_job_def find_Some_iff)

lemma find_job_iff:
  assumes "db_inv db"
  shows "find_job db i = Some j \<longleftrightarrow> j \<in> set (db_jobs db) \<and> js_ID j = i"
proof
  assume j: "j \<in> set (db_jobs db) \<and> js_ID j = i"
  then have "find_job db i \<noteq> None" unfolding find_job_None_iff by blast
  then obtain j' where j': "find_job db i = Some j'" by blast
  have "inj_on js_ID (set (db_jobs db))" using assms by (simp add: db_inv_def distinct_map)
  then have "j' = j" using j find_job_SomeD [OF j'] by (auto elim: inj_onD)
  with j' show "find_job db i = Some j" by simp
qed (rule find_job_SomeD)

lemma db_inv_ref: "db_inv db \<Longrightarrow> j \<in> set (db_jobs db) \<Longrightarrow> \<exists>c \<in> set (db_configs db). js_JobConfigID j = Some (cfg_ID c)"
  by (simp add: db_inv_def)

text \<open>What a change of the jobs table that keeps identifiers and references preserves.\<close>

lemma db_inv_map_jobs:
  assumes inv: "db_inv db"
    and id: "\<And>j. j \<in> set (db_jobs db) \<Longrightarrow> js_ID (f j) = js_ID j"
    and cfg: "\<And>j. j \<in> set (db_jobs db) \<Longrightarrow> \<exists>c \<in> set (db_configs db). js_JobConfigID (f j) = Some (cfg_ID c)"
  shows "db_inv (db\<lparr>db_jobs := map f (db_jobs db)\<rparr>)"
proof -
  have "map js_ID (map f (db_jobs db)) = map js_ID (db_jobs db)" using id by simp
  moreover from this have "js_ID ` set (map f (db_jobs db)) = js_ID ` set (db_jobs db)"
    by (metis list.set_map)
  ultimately show ?thesis using inv cfg unfolding db_inv_def by (simp del: map_map set_map) (use cfg in auto)
qed

lemma config_Create_inv: "db_inv db \<Longrightarrow> config_Create ok c db = (res, db') \<Longrightarrow> db_inv db'"
  by (auto simp: config_Create_def Let_def db_inv_def split: if_splits)

lemma updated_names_distinct:
  assumes "distinct (map cfg_ID cs)" and "distinct (map cfg_Name cs)"
    and free: "\<And>x. x \<in> set cs \<Longrightarrow> cfg_ID x \<noteq> cfg_ID c \<Longrightarrow> cfg_Name x \<noteq> cfg_Name c"
  shows "distinct (map cfg_Name (map (\<lambda>x. if cfg_ID x = cfg_ID c then c else x) cs))"
  using assms
proof (induction cs)
  case (Cons a cs)
  have rest: "(\<lambda>x. if cfg_ID x = cfg_ID c then c else x) x = x" if "x \<in> set cs" "cfg_ID a = cfg_ID c" for x
  proof -
    have "cfg_ID a \<notin> cfg_ID ` set cs" using Cons.prems(1) by simp
    then have "cfg_ID x \<noteq> cfg_ID c" using that by (metis imageI)
    then show ?thesis by simp
  qed
  have n: "cfg_Name a \<notin> cfg_Name ` set cs" using Cons.prems(2) by simp
  have hd: "cfg_Name (if cfg_ID a = cfg_ID c then c else a) \<notin>
        set (map cfg_Name (map (\<lambda>x. if cfg_ID x = cfg_ID c then c else x) cs))"
  proof (cases "cfg_ID a = cfg_ID c")
    case True
    then have "map (\<lambda>x. if cfg_ID x = cfg_ID c then c else x) cs = cs" using rest by (simp add: map_idI)
    moreover have "cfg_Name c \<noteq> cfg_Name x" if "x \<in> set cs" for x
    proof -
      have "cfg_ID x \<noteq> cfg_ID c" using Cons.prems(1) True that by (metis distinct.simps(2) imageI list.set_map list.simps(9))
      then show ?thesis using Cons.prems(3) [of x] that by simp
    qed
    ultimately show ?thesis using True by (auto simp del: map_map)
  next
    case False
    then have "cfg_Name a \<noteq> cfg_Name c" using Cons.prems(3) [of a] by simp
    then show ?thesis using n False by (auto split: if_splits)
  qed
  have "distinct (map cfg_Name (map (\<lambda>x. if cfg_ID x = cfg_ID c then c else x) cs))"
    using Cons.prems by (intro Cons.IH) simp_all
  with hd show ?case unfolding list.map distinct.simps by blast
qed simp

lemma config_Update_inv:
  assumes inv: "db_inv db" and u: "config_Update c db = (res, db')"
  shows "db_inv db'"
proof -
  let ?c = "SaveCrawlJobConfigToSnapshot c"
  let ?f = "\<lambda>x. if cfg_ID x = cfg_ID ?c then ?c else x"
  have same: "map cfg_ID (map ?f (db_configs db)) = map cfg_ID (db_configs db)" by simp
  have found: "find_config db (cfg_ID ?c) = None \<Longrightarrow> map ?f (db_configs db) = db_configs db"
    unfolding find_config_None_iff by (rule map_idI) (metis imageI)
  have ref: "\<exists>x \<in> set (map ?f (db_configs db)). js_JobConfigID j = Some (cfg_ID x)"
    if j: "j \<in> set (db_jobs db)" for j
  proof -
    obtain y where "y \<in> set (db_configs db)" "js_JobConfigID j = Some (cfg_ID y)"
      using db_inv_ref [OF inv j] by blast
    then show ?thesis by (intro bexI [of _ "?f y"]) auto
  qed
  show ?thesis
  proof (cases "find_config db (cfg_ID ?c) \<noteq> None \<and>
      (\<exists>x \<in> set (db_configs db). cfg_ID x \<noteq> cfg_ID ?c \<and> cfg_Name x = cfg_Name ?c)")
    case True
    then show ?thesis using inv u by (auto simp: config_Update_def Let_def)
  next
    case False
    then have db': "db' = db\<lparr>db_configs := map ?f (db_configs db)\<rparr>" using u
      unfolding config_Update_def Let_def if_not_P [OF False] by simp
    have "distinct (map cfg_Name (map ?f (db_configs db)))"
    proof (cases "find_config db (cfg_ID ?c) = None")
      case True
      then show ?thesis using found inv by (simp add: db_inv_def del: map_map)
    next
      case present: False
      then show ?thesis using False inv by (intro updated_names_distinct) (auto simp: db_inv_def)
    qed
    then show ?thesis using inv ref same unfolding db' db_inv_def by (simp del: map_map)
  qed
qed

lemma config_Delete_inv:
  assumes inv: "db_inv db" and d: "config_Delete i db = (res, db')"
  shows "db_inv db'"
proof -
  let ?gone = "js_ID ` {j \<in> set (db_jobs db). js_JobConfigID j = Some i}"
  have db': "db' = db\<lparr>db_configs := filter (\<lambda>c. cfg_ID c \<noteq> i) (db_configs db),
                 db_jobs := filter (\<lambda>j. js_JobConfigID j \<noteq> Some i) (db_jobs db),
                 db_tasks := filter (\<lambda>t. ts_JobID t \<notin> ?gone) (db_tasks db)\<rparr>"
    using d by (simp add: config_Delete_def)
  have t: "\<exists>j \<in> set (db_jobs db). ts_JobID r = js_ID j \<and> js_JobConfigID j \<noteq> Some i"
    if "r \<in> set (db_tasks db)" "ts_JobID r \<notin> ?gone" for r
  proof -
    obtain j where "j \<in> set (db_jobs db)" "ts_JobID r = js_ID j" using inv \<open>r \<in> _\<close> by (auto simp: db_inv_def)
    then show ?thesis using that(2) by blast
  qed
  have c: "\<exists>c \<in> set (db_configs db). js_JobConfigID j = Some (cfg_ID c) \<and> cfg_ID c \<noteq> i"
    if "j \<in> set (db_jobs db)" "js_JobConfigID j \<noteq> Some i" for j
    using db_inv_ref [OF inv that(1)] that(2) by auto
  show ?thesis using inv unfolding db' db_inv_def tasks_inv_def
    by (simp add: distinct_map_filter) (use t c in blast)
qed

lemma job_Create_inv: "db_inv db \<Longrightarrow> job_Create ok j db = (res, db') \<Longrightarrow> db_inv db'"
  by (auto simp: job_Create_def Let_def db_inv_def find_config_None_iff split: if_splits option.splits)

lemma job_Delete_inv:
  assumes inv: "db_inv db" and d: "job_Delete i db = (res, db')"
  shows "db_inv db'"
proof -
  have "ts_JobID r \<in> js_ID ` {x \<in> set (db_jobs db). js_ID x \<noteq> i}"
    if "r \<in> set (db_tasks db)" "ts_JobID r \<noteq> i" for r
  proof -
    have "ts_JobID r \<in> js_ID ` set (db_jobs db)" using inv that(1) by (simp add: db_inv_def)
    then show ?thesis using that(2) by auto
  qed
  moreover have "db' = db\<lparr>db_jobs := filter (\<lambda>j. js_ID j \<noteq> i) (db_jobs db),
                 db_tasks := filter (\<lambda>t. ts_JobID t \<noteq> i) (db_tasks db)\<rparr>"
    using d by (simp add: job_Delete_def)
  ultimately show ?thesis using inv by (simp add: db_inv_def tasks_inv_def distinct_map_filter)
qed

lemma job_Update_inv:
  assumes inv: "db_inv db" and u: "job_Update j db = (res, db')"
  shows "db_inv db'"
proof -
  let ?r = "SaveCrawlJobToSnapshot j"
  let ?f = "\<lambda>x. if js_ID x = js_ID ?r then ?r\<lparr>js_CreatedAt := js_CreatedAt x\<rparr> else x"
  have upd: "db_inv (db\<lparr>db_jobs := map ?f (db_jobs db)\<rparr>)"
    if c: "js_JobConfigID ?r = Some c" and ex: "find_config db c \<noteq> None" for c
  proof (rule db_inv_map_jobs [OF inv])
    fix x assume x: "x \<in> set (db_jobs db)"
    show "js_ID (?f x) = js_ID x" by simp
    obtain c' where "c' \<in> set (db_configs db)" "c = cfg_ID c'" using ex unfolding find_config_None_iff by auto
    then have "\<exists>c \<in> set (db_configs db). js_JobConfigID ?r = Some (cfg_ID c)" using c by blast
    with db_inv_ref [OF inv x] show "\<exists>c \<in> set (db_configs db). js_JobConfigID (?f x) = Some (cfg_ID c)"
      by (cases "js_ID x = js_ID ?r") simp_all
  qed
  have "db' = db \<or> (\<exists>c. js_JobConfigID ?r = Some c \<and> find_config db c \<noteq> None \<and> db' = db\<lparr>db_jobs := map ?f (db_jobs db)\<rparr>)"
    using u unfolding job_Update_def Let_def by (cases "find_job db (js_ID ?r)"; cases "js_JobConfigID ?r") (simp_all split: if_splits)
  then show ?thesis using inv upd by blast
qed

lemma TryStartExport_inv: "db_inv db \<Longrightarrow> job_TryStartExport i db = (res, db') \<Longrightarrow> db_inv db'"
  by (auto simp: job_TryStartExport_def Let_def split: if_splits intro!: db_inv_map_jobs dest: db_inv_ref)

lemma FailExport_inv: "db_inv db \<Longrightarrow> job_FailExport i db = (res, db') \<Longrightarrow> db_inv db'"
  by (auto simp: job_FailExport_def intro!: db_inv_map_jobs dest: db_inv_ref)

lemma outbox_Create_inv: "db_inv db \<Longrightarrow> outbox_Create e db = (res, db') \<Longrightarrow> db_inv db'"
  by (auto simp: outbox_Create_def db_inv_def split: if_splits)

lemma outbox_BulkCreate_inv: "db_inv db \<Longrightarrow> outbox_BulkCreate es db = (res, db') \<Longrightarrow> db_inv db'"
  by (auto simp: outbox_BulkCreate_def db_inv_def split: if_splits) (metis imageI)

lemma outbox_MarkAsProcessed_inv: "db_inv db \<Longrightarrow> outbox_MarkAsProcessed now i db = (res, db') \<Longrightarrow> db_inv db'"
  by (auto simp: outbox_MarkAsProcessed_def db_inv_def comp_def if_distrib cong: if_cong)

lemmas repo_inv =
  task_Create_inv task_BulkCreate_inv task_Update_inv task_SetTaskResult_inv
  config_Create_inv config_Update_inv config_Delete_inv
  job_Create_inv job_Delete_inv job_Update_inv TryStartExport_inv FailExport_inv
  outbox_Create_inv outbox_BulkCreate_inv outbox_MarkAsProcessed_inv

section \<open>Histories of repository operations\<close>

datatype repo_op =
    TaskCreate CrawlTask | TaskBulkCreate "CrawlTask list" | TaskUpdate CrawlTask
  | SetTaskResult CrawlTaskID string string int time
  | ConfigCreate CrawlJobConfig | ConfigUpdate CrawlJobConfig | ConfigDelete ID
  | JobCreate CrawlJob | JobDelete CrawlJobID | JobUpdate CrawlJob
  | TryStartExport CrawlJobID | FailExport CrawlJobID
  | OutboxCreate OutboxEvent | OutboxBulkCreate "OutboxEvent list" | MarkAsProcessed time OutboxEventID

fun repo_step :: "(string \<Rightarrow> bool) \<Rightarrow> DB \<Rightarrow> repo_op \<Rightarrow> DB" where
  "repo_step ok db (TaskCreate t) = snd (task_Create ok t db)"
| "repo_step ok db (TaskBulkCreate ts) = snd (task_BulkCreate ok ts db)"
| "repo_step ok db (TaskUpdate t) = snd (task_Update t db)"
| "repo_step ok db (SetTaskResult i k c n now) = snd (task_SetTaskResult i k c n now db)"
| "repo_step ok db (ConfigCreate c) = snd (config_Create ok c db)"
| "repo_step ok db (ConfigUpdate c) = snd (config_Update c db)"
| "repo_step ok db (ConfigDelete i) = snd (config_Delete i db)"
| "repo_step ok db (JobCreate j) = snd (job_Create ok j db)"
| "repo_step ok db (JobDelete i) = snd (job_Delete i db)"
| "repo_step ok db (JobUpdate j) = snd (job_Update j db)"
| "repo_step ok db (TryStartExport i) = snd (job_TryStartExport i db)"
| "repo_step ok db (FailExport i) = snd (job_FailExport i db)"
| "repo_step ok db (OutboxCreate e) = snd (outbox_Create e db)"
| "repo_step ok db (OutboxBulkCreate es) = snd (outbox_BulkCreate es db)"
| "repo_step ok db (MarkAsProcessed now i) = snd (outbox_MarkAsProcessed now i db)"

lemmas repo_inv_snd = repo_inv [OF _ surjective_pairing]

interpretation repo: inv_machine "repo_step ok" db_inv for ok
  by unfold_locales (case_tac e; simp add: repo_inv_snd)

text \<open>
  The tables stay consistent: whatever sequence of repository calls the services and workers
  make, failing ones included, identifiers stay unique, a job has at most one task per URL, every
  task has its job and every job its configuration, and no two configurations share a name.
\<close>

lemma repository_consistency:
  assumes "db_inv db"
  shows "db_inv (foldl (repo_step ok) db ops)"
  using assms by (rule repo.run_inv)

subsection \<open>Starting an export\<close>

text \<open>The operations that leave the export status of the job alone or move it away from the start.\<close>

fun no_export_reset :: "CrawlJobID \<Rightarrow> repo_op \<Rightarrow> bool" where
  "no_export_reset i (JobUpdate j) \<longleftrightarrow> job_ID j = i \<longrightarrow> job_ExportStatus j \<noteq> ExportStatusNotStarted"
| "no_export_reset i (JobCreate j) \<longleftrightarrow> job_ID j \<noteq> i"
| "no_export_reset i _ \<longleftrightarrow> True"

text \<open>The number of calls of \<^const>\<open>job_TryStartExport\<close> for a job that succeed in a history.\<close>

fun start_count :: "(string \<Rightarrow> bool) \<Rightarrow> CrawlJobID \<Rightarrow> DB \<Rightarrow> repo_op list \<Rightarrow> nat" where
  "start_count ok i db [] = 0"
| "start_count ok i db (op # ops) =
     (if op = TryStartExport i \<and> fst (job_TryStartExport i db) = Inr True then 1 else 0) +
     start_count ok i (repo_step ok db op) ops"

definition no_startable :: "CrawlJobID \<Rightarrow> DB \<Rightarrow> bool" where
  "no_startable i db \<longleftrightarrow> (\<forall>j \<in> set (db_jobs db). \<not> startable i j)"

lemma no_startable_fails:
  "no_startable i db \<Longrightarrow> job_TryStartExport i db = (Inl (ErrText ''more than 1 row affected''), db)"
proof -
  assume n: "no_startable i db"
  then have "filter (startable i) (db_jobs db) = []" by (auto simp: no_startable_def filter_empty_conv)
  moreover have "map (\<lambda>j. if startable i j then j\<lparr>js_ExportStatus := Some ExportStatusInProgress\<rparr> else j) (db_jobs db) = db_jobs db"
    using n by (intro map_idI) (simp add: no_startable_def)
  ultimately show ?thesis by (simp add: job_TryStartExport_def)
qed

lemma TryStartExport_no_startable: "no_startable i (snd (job_TryStartExport i db))"
proof -
  have "\<not> startable i (j\<lparr>js_ExportStatus := Some ExportStatusInProgress\<rparr>)" for j
    by (simp add: startable_def)
  then show ?thesis by (auto simp: no_startable_def job_TryStartExport_def Let_def)
qed

text \<open>Every other operation but the updates of jobs leaves the table of jobs alone.\<close>

lemma tasks_only [simp]:
  "db_jobs (snd (task_Create ok t db)) = db_jobs db"
  "db_jobs (snd (task_BulkCreate ok ts db)) = db_jobs db"
  "db_jobs (snd (task_Update t db)) = db_jobs db"
  "db_jobs (snd (task_SetTaskResult i k c n now db)) = db_jobs db"
  "db_jobs (snd (config_Create ok cf db)) = db_jobs db"
  "db_jobs (snd (config_Update cf db)) = db_jobs db"
  "db_jobs (snd (outbox_Create e db)) = db_jobs db"
  "db_jobs (snd (outbox_BulkCreate es db)) = db_jobs db"
  "db_jobs (snd (outbox_MarkAsProcessed now k db)) = db_jobs db"
  by (simp_all add: repo_defs Let_def split: option.splits sum.splits prod.splits)

lemma no_startable_step:
  assumes n: "no_startable i db" and k: "no_export_reset i op"
  shows "no_startable i (repo_step ok db op)"
proof (cases op)
  case (JobCreate j)
  then show ?thesis using n k
    by (auto simp: no_startable_def job_Create_def Let_def startable_def split: option.splits)
next
  case (JobUpdate j)
  then show ?thesis using n k
    by (auto simp: no_startable_def job_Update_def Let_def startable_def split: option.splits)
qed (use n in \<open>auto simp: no_startable_def config_Delete_def Let_def job_Delete_def job_TryStartExport_def
       job_FailExport_def startable_def\<close>)

lemma no_startable_run:
  "no_startable i db \<Longrightarrow> \<forall>op \<in> set ops. no_export_reset i op \<Longrightarrow> no_startable i (foldl (repo_step ok) db ops)"
  by (induction ops arbitrary: db) (auto intro: no_startable_step)

lemma no_startable_count:
  "no_startable i db \<Longrightarrow> \<forall>op \<in> set ops. no_export_reset i op \<Longrightarrow> start_count ok i db ops = 0"
  by (induction ops arbitrary: db) (auto simp: no_startable_fails intro: no_startable_step)

text \<open>
  The start of an export is a compare-and-swap.  In every history of repository calls in which
  the job is not written back to the unstarted state, at most one call that starts its export
  succeeds, however the attempts are interleaved with the other calls.
\<close>

theorem TryStartExport_exclusive:
  assumes "\<forall>op \<in> set ops. no_export_reset i op"
  shows "start_count ok i db ops \<le> 1"
  using assms
proof (induction ops arbitrary: db)
  case (Cons op ops)
  show ?case
  proof (cases "op = TryStartExport i \<and> fst (job_TryStartExport i db) = Inr True")
    case True
    then have "no_startable i (repo_step ok db op)" using TryStartExport_no_startable by simp
    then show ?thesis using Cons.prems True by (simp add: no_startable_count)
  next
    case False
    then have "start_count ok i db (op # ops) = start_count ok i (repo_step ok db op) ops" by auto
    then show ?thesis using Cons by simp
  qed
qed simp

lemma sample_start: "fst (job_TryStartExport ''j1'' sample_db) = Inr True"
  by (simp add: job_TryStartExport_def sample_db_def startable_def sample_job_def)

theorem TryStartExport_exclusive_witness:
  "start_count ok2 ''j1'' sample_db [TryStartExport ''j1'', TryStartExport ''j1'', FailExport ''j1'', TryStartExport ''j1''] = 1"
proof -
  have "start_count ok2 ''j1'' sample_db [TryStartExport ''j1'', TryStartExport ''j1'', FailExport ''j1'', TryStartExport ''j1''] \<le> 1"
    by (rule TryStartExport_exclusive) simp
  then show ?thesis by (simp add: sample_start)
qed

text \<open>
  A job whose export is complete, with a result newer than the export: the query lists it for a new
  export.
\<close>

definition reparsed_db :: DB where
  "reparsed_db = sample_db\<lparr>
     db_jobs := [SaveCrawlJobToSnapshot (MarkAsExported (sample_job ''j1'' ''c1'') ''j.json'' ''j.csv'' 10)],
     db_tasks := [SaveCrawlTaskToSnapshot
       (MarkAsParsed (new_task ''t1'' ''j1'' ''http://a'' 7 0) ''k'' ''application/json'' 3 12)]\<rparr>"

lemma reparsed_db_inv: "db_inv reparsed_db"
  by (simp add: db_inv_def tasks_inv_def reparsed_db_def sample_db_def sample_config_def sample_job_def
      SaveCrawlJobToSnapshot_def ID_IsEmpty_def new_task_def MarkAsExported_def)

subsection \<open>Eligible jobs\<close>

definition ids_valid :: "(string \<Rightarrow> bool) \<Rightarrow> DB \<Rightarrow> bool" where
  "ids_valid ok db \<longleftrightarrow>
     (\<forall>j \<in> set (db_jobs db). valid_id ok (js_ID j) \<and> (\<forall>c. js_JobConfigID j = Some c \<longrightarrow> valid_id ok c) \<and>
        (\<forall>u. js_UserID j = Some u \<longrightarrow> valid_id ok u)) \<and>
     (\<forall>c \<in> set (db_configs db). cfg_UserID c = [] \<or> valid_id ok (cfg_UserID c))"

lemma scan_restores:
  assumes inv: "db_inv db" and ids: "ids_valid ok db" and j: "j \<in> set (db_jobs db)"
  shows "\<exists>c job. scanCrawlJobWithConfig db j = Inr (j, Some c) \<and>
           RestoreCrawlJobFromSnapshot ok j (Some c) = Inr job \<and> job_ID job = js_ID j"
proof -
  obtain c where c: "c \<in> set (db_configs db)" "js_JobConfigID j = Some (cfg_ID c)"
    using db_inv_ref [OF inv j] by blast
  then have "find_config db (cfg_ID c) \<noteq> None" by (simp add: find_config_None_iff)
  then obtain c' where c': "find_config db (cfg_ID c) = Some c'" by blast
  have v: "valid_id ok (cfg_ID c)" "valid_id ok (js_ID j)" "\<forall>u. js_UserID j = Some u \<longrightarrow> valid_id ok u"
    using ids j c(2) by (auto simp: ids_valid_def)
  have id: "cfg_ID c' = cfg_ID c" "c' \<in> set (db_configs db)" using find_config_Some [OF c'] by simp_all
  have "cfg_UserID c' = [] \<or> valid_id ok (cfg_UserID c')" using ids id(2) by (simp add: ids_valid_def)
  then obtain r where r: "RestoreCrawlJobConfigFromSnapshot ok c' = Inr r"
    using v(1) id(1) by (cases "cfg_UserID c' = []")
      (auto simp: RestoreCrawlJobConfigFromSnapshot_def NewTypedID_eq ID_IsEmpty_def)
  have "cfg_ID c' \<noteq> []" using v(1) id(1) by (simp add: valid_id_def)
  then have "scanCrawlJobWithConfig db j = Inr (j, Some c')"
    using c' c(2) by (simp add: scanCrawlJobWithConfig_def)
  moreover have "\<exists>job. RestoreCrawlJobFromSnapshot ok j (Some c') = Inr job \<and> job_ID job = js_ID j"
    using v c(2) r by (cases "js_UserID j") (auto simp: RestoreCrawlJobFromSnapshot_def NewTypedID_eq)
  ultimately show ?thesis by blast
qed

lemma scanJobs_total:
  assumes inv: "db_inv db" and ids: "ids_valid ok db" and sub: "set rows \<subseteq> set (db_jobs db)"
  shows "\<exists>jobs. scanJobsWithQueueEndpoints ok db rows = Inr jobs \<and> map job_ID jobs = map js_ID rows"
  using sub
proof (induction rows)
  case (Cons j rows)
  then obtain jobs where jobs: "scanJobsWithQueueEndpoints ok db rows = Inr jobs" "map job_ID jobs = map js_ID rows"
    by auto
  obtain c job where c: "scanCrawlJobWithConfig db j = Inr (j, Some c)"
    "RestoreCrawlJobFromSnapshot ok j (Some c) = Inr job" "job_ID job = js_ID j"
    using scan_restores [OF inv ids] Cons.prems by force
  then show ?case using jobs
    by (auto simp: scanJobsWithQueueEndpoints_def split: sum.splits)
qed (simp add: scanJobsWithQueueEndpoints_def)

lemma set_nulls_last [simp]: "set (nulls_last f xs) = set xs"
  by (auto simp: nulls_last_def)

lemma distinct_nulls_last: "distinct (map g xs) \<Longrightarrow> distinct (map g (nulls_last f xs))"
proof -
  have "mset (nulls_last f xs) = mset xs"
    using multiset_partition [of "mset xs" "\<lambda>x. f x \<noteq> None"] by (simp add: nulls_last_def)
  then have "mset (map g (nulls_last f xs)) = mset (map g xs)" by simp
  then show "distinct (map g xs) \<Longrightarrow> ?thesis" using mset_eq_imp_distinct_iff by blast
qed

text \<open>
  The query for exportable jobs returns at most the requested number of jobs, no job twice, and
  only jobs that are not locked, not being exported, with all tasks in a final state, a stored
  result for each parsed task and no unpublished event; and when it returns fewer than the limit, it
  has returned all of them.
\<close>

theorem ListEligibleForExport_spec:
  assumes inv: "db_inv db" and ids: "ids_valid ok db"
  shows "\<exists>jobs. job_ListEligibleForExport ok locked limit db = Inr jobs \<and> length jobs \<le> limit \<and>
           distinct (map job_ID jobs) \<and>
           (\<forall>i \<in> set (map job_ID jobs). i \<notin> set locked \<and> (\<exists>j. find_job db i = Some j \<and> eligible db j \<and>
              (\<forall>t \<in> set (db_tasks db). ts_JobID t = i \<longrightarrow> terminal_task t \<and>
                 (parsed_or_completed t \<longrightarrow> (\<exists>k. ts_ResultObjectKey t = Some k \<and> k \<noteq> []))))) \<and>
           (length jobs < limit \<longrightarrow>
              (\<forall>j \<in> set (db_jobs db). eligible db j \<and> js_ID j \<notin> set locked \<longrightarrow> js_ID j \<in> set (map job_ID jobs)))"
proof -
  let ?el = "nulls_last js_CompletedAt (filter (\<lambda>j. eligible db j \<and> js_ID j \<notin> set locked) (db_jobs db))"
  have sub: "set (take limit ?el) \<subseteq> set (db_jobs db)" using set_take_subset [of limit ?el] by auto
  obtain jobs where jobs: "job_ListEligibleForExport ok locked limit db = Inr jobs"
    "map job_ID jobs = map js_ID (take limit ?el)"
    using scanJobs_total [OF inv ids sub] unfolding job_ListEligibleForExport_def by blast
  have len: "length jobs = min (length ?el) limit" using arg_cong [OF jobs(2), of length] by simp
  have dist: "distinct (map job_ID jobs)"
    unfolding jobs(2) take_map [symmetric]
    using inv by (intro distinct_take distinct_nulls_last) (simp add: db_inv_def distinct_map_filter)
  have elig: "i \<notin> set locked \<and> (\<exists>j. find_job db i = Some j \<and> eligible db j \<and>
              (\<forall>t \<in> set (db_tasks db). ts_JobID t = i \<longrightarrow> terminal_task t \<and>
                 (parsed_or_completed t \<longrightarrow> (\<exists>k. ts_ResultObjectKey t = Some k \<and> k \<noteq> []))))"
    if i: "i \<in> set (map job_ID jobs)" for i
  proof -
    obtain j where j: "j \<in> set (take limit ?el)" "js_ID j = i" using i unfolding jobs(2) by auto
    then have "j \<in> set ?el" using set_take_subset by fastforce
    then have "j \<in> set (db_jobs db)" "eligible db j" "js_ID j \<notin> set locked" by simp_all
    moreover from this have "find_job db i = Some j" using find_job_iff [OF inv] j(2) by simp
    moreover have "terminal_task t \<and> (parsed_or_completed t \<longrightarrow> (\<exists>k. ts_ResultObjectKey t = Some k \<and> k \<noteq> []))"
      if "t \<in> set (db_tasks db)" "ts_JobID t = i" for t
      using \<open>eligible db j\<close> that j(2) by (auto simp: eligible_def list_ex_iff split: option.splits)
    ultimately show ?thesis using j(2) by blast
  qed
  have all: "js_ID j \<in> set (map job_ID jobs)"
    if "length jobs < limit" "j \<in> set (db_jobs db)" "eligible db j" "js_ID j \<notin> set locked" for j
  proof -
    have "take limit ?el = ?el" using that(1) len by simp
    then show ?thesis using that(2-4) unfolding jobs(2) by simp
  qed
  have "length jobs \<le> limit" using len by simp
  then show ?thesis using jobs(1) dist elig all by blast
qed

lemma mem_short_list: "x \<in> set xs \<Longrightarrow> length xs \<le> 1 \<Longrightarrow> xs = [x]"
  by (cases xs) auto

theorem ListEligibleForExport_spec_witness:
  "\<exists>jobs. job_ListEligibleForExport ok2 [] 5 reparsed_db = Inr jobs \<and> map job_ID jobs = [''j1'']"
proof -
  have ids: "ids_valid ok2 reparsed_db"
    by (simp add: ids_valid_def reparsed_db_def sample_db_def sample_config_def sample_job_def valid_id_def ok2_def
        SaveCrawlJobToSnapshot_def MarkAsExported_def ID_IsEmpty_def)
  have el: "\<forall>j \<in> set (db_jobs reparsed_db). js_ID j = ''j1'' \<and> eligible reparsed_db j"
    by (simp add: eligible_def reparsed_db_def sample_db_def no_pending_events_def export_outdated_def
        export_not_running_def terminal_task_def parsed_or_completed_def MarkAsExported_def sample_job_def
        MarkAsParsed_def new_task_def SaveCrawlTaskToSnapshot_def)
  have ne: "db_jobs reparsed_db \<noteq> []" by (simp add: reparsed_db_def)
  show ?thesis
  proof (rule exE [OF ListEligibleForExport_spec [OF reparsed_db_inv ids, of "[]" 5]], elim conjE, goal_cases)
    case (1 jobs)
    have only: "set (map job_ID jobs) \<subseteq> {''j1''}"
    proof
      fix i assume "i \<in> set (map job_ID jobs)"
      then obtain j where "find_job reparsed_db i = Some j" using 1(4) by blast
      then show "i \<in> {''j1''}" using el find_job_SomeD by blast
    qed
    have len: "length (map job_ID jobs) \<le> 1"
      using card_mono [OF _ only] distinct_card [OF 1(3)] by simp
    have short: "length jobs < 5" using len by simp
    obtain j where j: "j \<in> set (db_jobs reparsed_db)" using ne by (cases "db_jobs reparsed_db") auto
    then have e: "js_ID j = ''j1''" "eligible reparsed_db j" using el by blast+
    have "js_ID j \<in> set (map job_ID jobs)"
      using 1(5) [THEN mp, OF short, THEN bspec, OF j] e(2) unfolding list.set(1) by blast
    then have "''j1'' \<in> set (map job_ID jobs)" unfolding e(1) .
    then have "map job_ID jobs = [''j1'']" using len by (rule mem_short_list)
    then show ?case by (intro exI [of _ jobs] conjI 1(1))
  qed
qed

end
