(* ===== verification/Outbox_Publisher.thy ===== *)
theory Outbox_Publisher
  imports Job_Repository
begin

text \<open>
  The outbox publisher, \<^verbatim>\<open>worker/outbox_publisher.go\<close>, and the messages of
  \<^verbatim>\<open>infra/messaging/messages.go\<close>.  The state is the database and the sequence of messages the
  broker has accepted; one poll runs in one transaction, but a message that was published stays
  published when the transaction is rolled back.  What the network and the database answer to each
  call is given by the environment of the poll, keyed by the event the call is made for;
  \<^verbatim>\<open>json.Unmarshal\<close> of the payload and the trace context of the span are functions of it too.
\<close>

section \<open>Model\<close>

record CrawlTaskMessage =
  cm_TaskID :: string
  cm_JobID :: string
  cm_URL :: string
  cm_EnqueuedAt :: time
  cm_TraceContext :: trace_context

type_synonym sent = "(string \<times> CrawlTaskMessage) list"

record outbox_env =
  oe_decode :: "string \<Rightarrow> TaskEnqueuedEvent res"
  oe_trace :: "TaskEnqueuedEvent \<Rightarrow> trace_context"
  oe_queueName :: string
  oe_batchSize :: nat
  oe_now :: time
  oe_locked :: "string list"
  oe_begin :: "gerr option"
  oe_fetch :: "gerr option"
  oe_publish :: "OutboxEventID \<Rightarrow> gerr option"
  oe_mark :: "OutboxEventID \<Rightarrow> gerr option"
  oe_commit :: "gerr option"

definition target_queue :: "outbox_env \<Rightarrow> TaskEnqueuedEvent \<Rightarrow> string" where
  "target_queue env event = (if ev_TargetQueue event \<noteq> [] then ev_TargetQueue event else oe_queueName env)"

definition task_message :: "outbox_env \<Rightarrow> TaskEnqueuedEvent \<Rightarrow> CrawlTaskMessage" where
  "task_message env event =
     \<lparr>cm_TaskID = ev_TaskID event, cm_JobID = ev_JobID event, cm_URL = ev_URL event,
      cm_EnqueuedAt = ev_EnqueuedAt event, cm_TraceContext = oe_trace env event\<rparr>"

definition mark_processed :: "outbox_env \<Rightarrow> OutboxEventID \<Rightarrow> DB \<Rightarrow> unit res \<times> DB" where
  "mark_processed env i db = db_call (oe_mark env i) (outbox_MarkAsProcessed (oe_now env) i) db"

definition publishTaskEnqueuedEvent :: "outbox_env \<Rightarrow> OutboxEvent \<Rightarrow> DB \<times> sent \<Rightarrow> unit res \<times> DB \<times> sent" where
  "publishTaskEnqueuedEvent env e st =
     (case st of (db, sent) \<Rightarrow>
      case oe_decode env (ob_Payload e) of
        Inl err \<Rightarrow> (Inl (ErrWrap ''failed to unmarshal event payload'' err), db, sent)
      | Inr event \<Rightarrow>
          (case oe_publish env (ob_ID e) of
             Some err \<Rightarrow> (Inl (ErrWrap ''failed to publish task to message broker'' err), db, sent)
           | None \<Rightarrow>
               let sent' = sent @ [(target_queue env event, task_message env event)]
               in case mark_processed env (ob_ID e) db of
                    (Inl err, db') \<Rightarrow> (Inl (ErrWrap ''failed to mark event as processed'' err), db', sent')
                  | (Inr _, db') \<Rightarrow> (Inr (), db', sent')))"

definition processEvent :: "outbox_env \<Rightarrow> OutboxEvent \<Rightarrow> DB \<times> sent \<Rightarrow> unit res \<times> DB \<times> sent" where
  "processEvent env e st =
     (if ob_EventType e = EventTypeTaskEnqueued then publishTaskEnqueuedEvent env e st
      else case st of (db, sent) \<Rightarrow>
             (case mark_processed env (ob_ID e) db of (r, db') \<Rightarrow> (r, db', sent)))"

text \<open>The loop over the batch stops at the first error.\<close>

fun processEvents :: "outbox_env \<Rightarrow> OutboxEvent list \<Rightarrow> DB \<times> sent \<Rightarrow> unit res \<times> DB \<times> sent" where
  "processEvents env [] st = (Inr (), st)"
| "processEvents env (e # es) st =
     (case processEvent env e st of
        (Inl err, st') \<Rightarrow> (Inl (ErrWrap (''failed to process outbox event '' @ ob_ID e) err), st')
      | (Inr _, st') \<Rightarrow> processEvents env es st')"

definition outbox_body :: "outbox_env \<Rightarrow> DB \<times> sent \<Rightarrow> unit res \<times> DB \<times> sent" where
  "outbox_body env st =
     (case (case oe_fetch env of Some err \<Rightarrow> Inl err
            | None \<Rightarrow> outbox_FetchUnprocessedEvents (oe_locked env) (oe_batchSize env) (fst st)) of
        Inl err \<Rightarrow> (Inl (ErrWrap ''failed to fetch unprocessed events'' err), st)
      | Inr evts \<Rightarrow> processEvents env evts st)"

text \<open>
  One poll.  The error the code only logs is the first component; the database is what the
  transaction leaves, the messages are those the body sent.
\<close>

definition processOutboxEvents :: "outbox_env \<Rightarrow> DB \<times> sent \<Rightarrow> unit res \<times> DB \<times> sent" where
  "processOutboxEvents env st =
     (case st of (db, sent) \<Rightarrow>
      case oe_begin env of
        Some err \<Rightarrow> (Inl (ErrWrap ''cant begin transaction'' err), db, sent)
      | None \<Rightarrow>
          (case outbox_body env (db, sent) of
             (r, db', sent') \<Rightarrow>
               (case transaction None (oe_commit env) (\<lambda>_. (r, db')) db of (r2, db2) \<Rightarrow> (r2, db2, sent'))))"

section \<open>Lemmas\<close>

text \<open>The message an event stands for, and the marking of a batch.\<close>

definition message_of :: "outbox_env \<Rightarrow> OutboxEvent \<Rightarrow> (string \<times> CrawlTaskMessage) option" where
  "message_of env e =
     (if ob_EventType e = EventTypeTaskEnqueued
      then (case oe_decode env (ob_Payload e) of Inl _ \<Rightarrow> None
            | Inr event \<Rightarrow> Some (target_queue env event, task_message env event))
      else None)"

definition mark_all :: "time \<Rightarrow> string set \<Rightarrow> DB \<Rightarrow> DB" where
  "mark_all now ids db =
     db\<lparr>db_outbox := map (\<lambda>e. if ob_ID e \<in> ids then e\<lparr>ob_ProcessedAt := Some now\<rparr> else e) (db_outbox db)\<rparr>"

lemma mark_all_empty [simp]: "mark_all now {} db = db"
  by (simp add: mark_all_def)

lemma mark_all_insert: "mark_all now ids (mark_all now {i} db) = mark_all now (insert i ids) db"
  by (auto simp: mark_all_def)

lemma MarkAsProcessed_mark_all: "outbox_MarkAsProcessed now i db = (Inr (), mark_all now {i} db)"
  by (simp add: outbox_MarkAsProcessed_def mark_all_def)

lemma processEvent_Inr:
  assumes "processEvent env e (db, sent) = (Inr u, db', sent')"
  shows "db' = mark_all (oe_now env) {ob_ID e} db \<and> sent' = sent @ List.map_filter (message_of env) [e] \<and>
         (ob_EventType e = EventTypeTaskEnqueued \<longrightarrow> message_of env e \<noteq> None)"
  using assms
  by (auto simp: processEvent_def publishTaskEnqueuedEvent_def mark_processed_def db_call_def Let_def
      MarkAsProcessed_mark_all message_of_def List.map_filter_def
      split: if_splits sum.splits option.splits)

lemma processEvent_sent: "processEvent env e (db, sent) = (r, db', sent') \<Longrightarrow> prefix sent sent'"
  by (auto simp: processEvent_def publishTaskEnqueuedEvent_def Let_def
      split: if_splits sum.splits option.splits prod.splits)

lemma processEvents_sent: "processEvents env es (db, sent) = (r, db', sent') \<Longrightarrow> prefix sent sent'"
proof (induction es arbitrary: db sent)
  case (Cons e es)
  obtain r1 db1 sent1 where s: "processEvent env e (db, sent) = (r1, db1, sent1)" by (metis surj_pair)
  then have "prefix sent sent1" by (rule processEvent_sent)
  then show ?case using Cons s by (cases r1) (auto intro: prefix_order.trans)
qed simp

lemma processEvents_Inr:
  assumes "processEvents env es (db, sent) = (Inr u, db', sent')"
  shows "db' = mark_all (oe_now env) (ob_ID ` set es) db \<and> sent' = sent @ List.map_filter (message_of env) es \<and>
         (\<forall>e \<in> set es. ob_EventType e = EventTypeTaskEnqueued \<longrightarrow> message_of env e \<noteq> None)"
  using assms
proof (induction es arbitrary: db sent)
  case (Cons e es)
  obtain r1 db1 sent1 where s: "processEvent env e (db, sent) = (r1, db1, sent1)" by (metis surj_pair)
  with Cons.prems obtain u1 where r1: "r1 = Inr u1" by (cases r1) auto
  have "processEvents env es (db1, sent1) = (Inr u, db', sent')" using Cons.prems s r1 by simp
  note IH = Cons.IH [OF this] and S = processEvent_Inr [OF s [unfolded r1]]
  show ?case using IH S by (simp add: mark_all_insert List.map_filter_def)
qed (simp add: List.map_filter_def)

definition pending :: "DB \<Rightarrow> OutboxEvent list" where
  "pending db = filter (\<lambda>e. ob_ProcessedAt e = None) (db_outbox db)"

definition batch :: "outbox_env \<Rightarrow> DB \<Rightarrow> OutboxEvent list" where
  "batch env db = take (oe_batchSize env) (sort_key ob_OccurredAt
     (filter (\<lambda>e. ob_ProcessedAt e = None \<and> ob_ID e \<notin> set (oe_locked env)) (db_outbox db)))"

lemma set_batch: "set (batch env db) \<subseteq> set (pending db)"
  using set_take_subset by (fastforce simp: batch_def pending_def)

lemma Fetch_batch:
  "outbox_FetchUnprocessedEvents (oe_locked env) (oe_batchSize env) db = Inr evts \<Longrightarrow> evts = batch env db"
proof -
  have id: "RestoreOutboxEventFromSnapshot e = Inr e' \<Longrightarrow> e' = e" for e e'
    by (auto simp: RestoreOutboxEventFromSnapshot_def NewOutboxEventID_def split: if_splits)
  assume "outbox_FetchUnprocessedEvents (oe_locked env) (oe_batchSize env) db = Inr evts"
  then have "list_all2 (\<lambda>x y. RestoreOutboxEventFromSnapshot x = Inr y) (batch env db) evts"
    by (auto simp: outbox_FetchUnprocessedEvents_def batch_def dest: map_res_InrD)
  then show "evts = batch env db" by (induction rule: list_all2_induct) (auto dest: id)
qed

lemma Fetch_ok:
  "\<forall>e \<in> set (db_outbox db). ob_ID e \<noteq> [] \<Longrightarrow>
     outbox_FetchUnprocessedEvents (oe_locked env) (oe_batchSize env) db = Inr (batch env db)"
proof -
  assume ne: "\<forall>e \<in> set (db_outbox db). ob_ID e \<noteq> []"
  have "RestoreOutboxEventFromSnapshot e = Inr (id e)" if "e \<in> set (batch env db)" for e
    using ne that set_batch [of env db]
    by (auto simp: pending_def RestoreOutboxEventFromSnapshot_def NewOutboxEventID_def)
  then have "map_res RestoreOutboxEventFromSnapshot (batch env db) = Inr (map id (batch env db))"
    by (rule map_res_all)
  then show ?thesis by (simp add: outbox_FetchUnprocessedEvents_def batch_def [symmetric])
qed

text \<open>A poll either leaves the database alone or marks exactly its batch.\<close>

lemma poll_cases:
  assumes "processOutboxEvents env (db, sent) = (r, db', sent')"
  shows "prefix sent sent' \<and>
    (db' = db \<and> (\<exists>err. r = Inl err) \<or>
     r = Inr () \<and> db' = mark_all (oe_now env) (ob_ID ` set (batch env db)) db \<and>
     sent' = sent @ List.map_filter (message_of env) (batch env db) \<and>
     (\<forall>e \<in> set (batch env db). ob_EventType e = EventTypeTaskEnqueued \<longrightarrow> message_of env e \<noteq> None))"
proof (cases "oe_begin env")
  case None
  obtain r1 db1 sent1 where b: "outbox_body env (db, sent) = (r1, db1, sent1)" by (metis surj_pair)
  have s: "sent1 = sent'" using assms None b by (auto simp: processOutboxEvents_def split: prod.splits)
  have pre: "prefix sent sent1" using b
    by (auto simp: outbox_body_def split: sum.splits option.splits dest: processEvents_sent)
  show ?thesis
  proof (cases r1)
    case (Inl e)
    then show ?thesis using assms None b s pre by (auto simp: processOutboxEvents_def transaction_def)
  next
    case (Inr u)
    then obtain evts where "outbox_FetchUnprocessedEvents (oe_locked env) (oe_batchSize env) db = Inr evts"
      and e: "processEvents env evts (db, sent) = (Inr u, db1, sent1)"
      using b by (auto simp: outbox_body_def split: sum.splits option.splits)
    then have "evts = batch env db" using Fetch_batch by blast
    note P = processEvents_Inr [OF e [unfolded this]]
    show ?thesis
      using assms None b s pre Inr P by (cases "oe_commit env") (auto simp: processOutboxEvents_def transaction_def)
  qed
qed (use assms in \<open>auto simp: processOutboxEvents_def\<close>)

section \<open>Delivery\<close>

text \<open>The event's task has been handed to the broker, on the queue the event asks for if it does.\<close>

definition delivered :: "(string \<Rightarrow> TaskEnqueuedEvent res) \<Rightarrow> sent \<Rightarrow> OutboxEvent \<Rightarrow> bool" where
  "delivered dec sent e \<longleftrightarrow>
     (\<exists>ev q m. dec (ob_Payload e) = Inr ev \<and> (q, m) \<in> set sent \<and> cm_TaskID m = ev_TaskID ev \<and>
        cm_JobID m = ev_JobID ev \<and> cm_URL m = ev_URL ev \<and> (ev_TargetQueue ev \<noteq> [] \<longrightarrow> q = ev_TargetQueue ev))"

definition outbox_inv :: "(string \<Rightarrow> TaskEnqueuedEvent res) \<Rightarrow> DB \<times> sent \<Rightarrow> bool" where
  "outbox_inv dec st \<longleftrightarrow> distinct (map ob_ID (db_outbox (fst st))) \<and>
     (\<forall>e \<in> set (db_outbox (fst st)). ob_EventType e = EventTypeTaskEnqueued \<and> IsProcessed e \<longrightarrow> delivered dec (snd st) e)"

datatype outbox_action = Poll outbox_env | Enqueue "OutboxEvent list"

fun outbox_step :: "(string \<Rightarrow> TaskEnqueuedEvent res) \<Rightarrow> DB \<times> sent \<Rightarrow> outbox_action \<Rightarrow> DB \<times> sent" where
  "outbox_step dec st (Poll env) = snd (processOutboxEvents (env\<lparr>oe_decode := dec\<rparr>) st)"
| "outbox_step dec (db, sent) (Enqueue es) =
     (snd (outbox_BulkCreate (map (\<lambda>e. e\<lparr>ob_ProcessedAt := None\<rparr>) es) db), sent)"

lemma delivered_mono: "delivered dec sent e \<Longrightarrow> prefix sent sent' \<Longrightarrow> delivered dec sent' e"
  unfolding delivered_def using set_mono_prefix by blast

lemma delivered_mark [simp]: "delivered dec sent (e\<lparr>ob_ProcessedAt := x\<rparr>) = delivered dec sent e"
  by (simp add: delivered_def)

lemma message_delivered:
  assumes "message_of env e \<noteq> None" and "e \<in> set es"
  shows "delivered (oe_decode env) (sent @ List.map_filter (message_of env) es) e"
proof -
  obtain ev where ev: "oe_decode env (ob_Payload e) = Inr ev"
    "message_of env e = Some (target_queue env ev, task_message env ev)"
    using assms(1) by (auto simp: message_of_def split: if_splits sum.splits)
  then have "(target_queue env ev, task_message env ev) \<in> set (List.map_filter (message_of env) es)"
    using assms(2) by (force simp: List.map_filter_def image_iff)
  then show ?thesis using ev(1) unfolding delivered_def
    by (intro exI [of _ ev] exI [of _ "target_queue env ev"] exI [of _ "task_message env ev"])
       (auto simp: task_message_def target_queue_def)
qed

lemma mark_all_ids [simp]: "map ob_ID (db_outbox (mark_all now ids db)) = map ob_ID (db_outbox db)"
  by (simp add: mark_all_def)

lemma poll_inv:
  assumes inv: "outbox_inv dec (db, sent)" and dec: "oe_decode env = dec"
  shows "outbox_inv dec (snd (processOutboxEvents env (db, sent)))"
proof -
  obtain r db' sent' where p: "processOutboxEvents env (db, sent) = (r, db', sent')" by (metis surj_pair)
  note P = poll_cases [OF p]
  have pre: "prefix sent sent'" using P by blast
  let ?now = "oe_now env"
  let ?ids = "ob_ID ` set (batch env db)"
  consider "db' = db"
    | "db' = mark_all ?now ?ids db" "sent' = sent @ List.map_filter (message_of env) (batch env db)"
      "\<forall>e \<in> set (batch env db). ob_EventType e = EventTypeTaskEnqueued \<longrightarrow> message_of env e \<noteq> None"
    using P by blast
  then have "outbox_inv dec (db', sent')"
  proof cases
    case 1
    then show ?thesis using inv pre by (auto simp: outbox_inv_def intro: delivered_mono)
  next
    case 2
    have inj: "inj_on ob_ID (set (db_outbox db))" using inv by (simp add: outbox_inv_def distinct_map)
    have "delivered dec sent' x"
      if x: "x \<in> set (db_outbox db')" "ob_EventType x = EventTypeTaskEnqueued" "IsProcessed x" for x
    proof -
      obtain e where e: "e \<in> set (db_outbox db)"
        and xe: "x = (if ob_ID e \<in> ?ids then e\<lparr>ob_ProcessedAt := Some ?now\<rparr> else e)"
        using x(1) 2(1) by (auto simp: mark_all_def)
      show ?thesis
      proof (cases "ob_ID e \<in> ?ids")
        case True
        then obtain b where b: "b \<in> set (batch env db)" "ob_ID e = ob_ID b" by blast
        then have "b \<in> set (db_outbox db)" using set_batch [of env db] by (auto simp: pending_def)
        then have "e = b" using inj e b(2) by (auto elim: inj_onD)
        then have "message_of env e \<noteq> None" "e \<in> set (batch env db)" using 2(3) b(1) x(2) xe True by auto
        then have "delivered dec sent' e" using message_delivered dec 2(2) by blast
        then show ?thesis using xe True by simp
      next
        case False
        then have "delivered dec sent e" using inv e x(2,3) xe by (simp add: outbox_inv_def)
        then show ?thesis using pre xe False by (auto intro: delivered_mono)
      qed
    qed
    then show ?thesis using inv 2(1) by (simp add: outbox_inv_def del: map_map)
  qed
  then show ?thesis using p by simp
qed

interpretation outbox: inv_machine "outbox_step dec" "outbox_inv dec" for dec
proof unfold_locales
  fix st a
  assume inv: "outbox_inv dec st"
  obtain db sent where st: "st = (db, sent)" by (metis surj_pair)
  show "outbox_inv dec (outbox_step dec st a)"
  proof (cases a)
    case (Poll env)
    then show ?thesis using poll_inv [of dec db sent "env\<lparr>oe_decode := dec\<rparr>"] inv st by simp
  next
    case (Enqueue es)
    then show ?thesis using inv st
      by (auto simp: outbox_inv_def outbox_BulkCreate_def IsProcessed_def comp_def) (metis imageI)
  qed
qed

text \<open>
  C3. No task is lost between the database and the broker.  Starting from an empty outbox, after
  any sequence of insertions and polls, with any failures of the database, of the decoding or of the
  broker, every task event marked as processed has been handed to the broker with its task, job and
  URL, on the queue it asks for.
\<close>

theorem outbox_at_least_once:
  assumes "foldl (outbox_step dec) (empty_db, []) acts = (db, sent)"
    and "e \<in> set (db_outbox db)" and "ob_EventType e = EventTypeTaskEnqueued" and "IsProcessed e"
  shows "delivered dec sent e"
proof -
  have "outbox_inv dec (empty_db, [])" by (simp add: outbox_inv_def empty_db_def)
  from outbox.run_inv [OF this, of acts] show ?thesis using assms by (simp add: outbox_inv_def)
qed

text \<open>A payload that names the URL, an event with it, and an environment without failures.\<close>

definition sample_decode :: "string \<Rightarrow> TaskEnqueuedEvent res" where
  "sample_decode p = (if p = ''bad'' then Inl (ErrText ''invalid character'')
                      else Inr (NewTaskEnqueuedEvent ''t1'' ''j1'' p 7 ''x1'' 7))"

definition sample_event :: "string \<Rightarrow> string \<Rightarrow> time \<Rightarrow> OutboxEvent" where
  "sample_event i p t = \<lparr>ob_ID = i, ob_EventType = EventTypeTaskEnqueued, ob_AggregateID = ''t1'', ob_Payload = p,
     ob_OccurredAt = t, ob_ProcessedAt = None, ob_CreatedAt = t\<rparr>"

definition sample_env :: "nat \<Rightarrow> outbox_env" where
  "sample_env n = \<lparr>oe_decode = sample_decode, oe_trace = (\<lambda>_. []), oe_queueName = ''crawl_queue'', oe_batchSize = n,
     oe_now = 20, oe_locked = [], oe_begin = None, oe_fetch = None, oe_publish = (\<lambda>_. None), oe_mark = (\<lambda>_. None),
     oe_commit = None\<rparr>"

lemmas outbox_eval = sample_decode_def sample_event_def sample_env_def empty_db_def processOutboxEvents_def
  outbox_body_def outbox_FetchUnprocessedEvents_def RestoreOutboxEventFromSnapshot_def NewOutboxEventID_def
  processEvent_def publishTaskEnqueuedEvent_def mark_processed_def outbox_MarkAsProcessed_def transaction_def
  outbox_BulkCreate_def NewTaskEnqueuedEvent_def target_queue_def task_message_def

theorem outbox_at_least_once_witness:
  "delivered sample_decode
     (snd (foldl (outbox_step sample_decode) (empty_db, []) [Enqueue [sample_event ''e1'' ''http://a'' 7], Poll (sample_env 5)]))
     ((sample_event ''e1'' ''http://a'' 7)\<lparr>ob_ProcessedAt := Some 20\<rparr>)"
proof -
  let ?acts = "[Enqueue [sample_event ''e1'' ''http://a'' 7], Poll (sample_env 5)]"
  let ?st = "foldl (outbox_step sample_decode) (empty_db, []) [Enqueue [sample_event ''e1'' ''http://a'' 7], Poll (sample_env 5)]"
  have "(sample_event ''e1'' ''http://a'' 7)\<lparr>ob_ProcessedAt := Some 20\<rparr> \<in> set (db_outbox (fst ?st))"
    by (simp add: outbox_eval)
  moreover have "?st = (fst ?st, snd ?st)" by (rule surjective_pairing)
  moreover have "ob_EventType ((sample_event ''e1'' ''http://a'' 7)\<lparr>ob_ProcessedAt := Some 20\<rparr>) = EventTypeTaskEnqueued"
    "IsProcessed ((sample_event ''e1'' ''http://a'' 7)\<lparr>ob_ProcessedAt := Some 20\<rparr>)"
    by (simp_all add: sample_event_def IsProcessed_def)
  ultimately show ?thesis using outbox_at_least_once [of sample_decode ?acts "fst ?st" "snd ?st"] by blast
qed

section \<open>Progress\<close>

text \<open>An environment in which every call succeeds and no other publisher holds a row.\<close>

definition healthy :: "outbox_env \<Rightarrow> bool" where
  "healthy env \<longleftrightarrow> oe_begin env = None \<and> oe_fetch env = None \<and> oe_commit env = None \<and> oe_locked env = [] \<and>
     oe_publish env = (\<lambda>_. None) \<and> oe_mark env = (\<lambda>_. None)"

definition publishable :: "outbox_env \<Rightarrow> OutboxEvent \<Rightarrow> bool" where
  "publishable env e \<longleftrightarrow> ob_ID e \<noteq> [] \<and> (ob_EventType e = EventTypeTaskEnqueued \<longrightarrow> message_of env e \<noteq> None)"

lemma processEvents_healthy:
  assumes "healthy env" and "\<forall>e \<in> set es. publishable env e"
  shows "\<exists>db' sent'. processEvents env es (db, sent) = (Inr (), db', sent')"
  using assms(2)
proof (induction es arbitrary: db sent)
  case (Cons e es)
  have "\<exists>db1 sent1. processEvent env e (db, sent) = (Inr (), db1, sent1)"
    using assms(1) Cons.prems
    by (auto simp: processEvent_def publishTaskEnqueuedEvent_def mark_processed_def healthy_def publishable_def
        message_of_def MarkAsProcessed_mark_all Let_def split: sum.splits if_splits)
  then show ?case using Cons by fastforce
qed simp

lemma poll_healthy:
  assumes "healthy env" and pub: "\<forall>e \<in> set (db_outbox db). publishable env e"
  shows "processOutboxEvents env (db, sent) =
     (Inr (), mark_all (oe_now env) (ob_ID ` set (batch env db)) db,
      sent @ List.map_filter (message_of env) (batch env db))"
proof -
  have "\<forall>e \<in> set (db_outbox db). ob_ID e \<noteq> []" using pub by (simp add: publishable_def)
  note F = Fetch_ok [OF this, of env]
  have "\<forall>e \<in> set (batch env db). publishable env e" using pub set_batch [of env db] by (auto simp: pending_def)
  then obtain db' sent' where p: "processEvents env (batch env db) (db, sent) = (Inr (), db', sent')"
    using processEvents_healthy [OF assms(1)] by blast
  then have "processOutboxEvents env (db, sent) = (Inr (), db', sent')"
    using assms(1) F by (simp add: processOutboxEvents_def outbox_body_def healthy_def transaction_def)
  then show ?thesis using processEvents_Inr [OF p] by simp
qed

lemma pending_mark:
  assumes d: "distinct (map ob_ID (db_outbox db))" and b: "set b \<subseteq> set (db_outbox db)"
  shows "pending (mark_all now (ob_ID ` set b) db) = filter (\<lambda>e. e \<notin> set b) (pending db)"
proof -
  have inj: "inj_on ob_ID (set (db_outbox db))" using d by (simp add: distinct_map)
  have mem: "ob_ID e \<in> ob_ID ` set b \<longleftrightarrow> e \<in> set b" if "e \<in> set (db_outbox db)" for e
    using inj_on_image_mem_iff [OF inj that b] .
  let ?f = "\<lambda>e. if ob_ID e \<in> ob_ID ` set b then e\<lparr>ob_ProcessedAt := Some now\<rparr> else e"
  have "filter (\<lambda>e. ob_ProcessedAt e = None) (map ?f es) = filter (\<lambda>e. e \<notin> set b) (filter (\<lambda>e. ob_ProcessedAt e = None) es)"
    if "set es \<subseteq> set (db_outbox db)" for es
    using that by (induction es) (auto simp: mem)
  then show ?thesis by (simp add: pending_def mark_all_def)
qed

lemma mset_map_filter: "mset (List.map_filter f xs) = image_mset (the \<circ> f) (filter_mset (\<lambda>x. f x \<noteq> None) (mset xs))"
  by (simp add: List.map_filter_def)

lemma pending_split:
  assumes "healthy env" and d: "distinct (map ob_ID (db_outbox db))"
  shows "mset (pending db) = mset (batch env db) + mset (filter (\<lambda>e. e \<notin> set (batch env db)) (pending db))"
    and "length (batch env db) = min (oe_batchSize env) (length (pending db))"
proof -
  let ?s = "sort_key ob_OccurredAt (pending db)"
  have bs: "batch env db = take (oe_batchSize env) ?s" using assms(1) by (simp add: batch_def pending_def healthy_def)
  have ds: "distinct ?s" using d by (simp add: pending_def distinct_map)
  then have dis: "set (batch env db) \<inter> set (drop (oe_batchSize env) ?s) = {}"
    unfolding bs by (rule set_take_disj_set_drop_if_distinct) simp
  have "?s = batch env db @ drop (oe_batchSize env) ?s" unfolding bs by simp
  then have m: "mset (pending db) = mset (batch env db) + mset (drop (oe_batchSize env) ?s)"
    by (metis mset_append mset_sort)
  have "mset (filter (\<lambda>e. e \<notin> set (batch env db)) (pending db)) =
        filter_mset (\<lambda>e. e \<notin> set (batch env db)) (mset (batch env db) + mset (drop (oe_batchSize env) ?s))"
    using m by (simp add: mset_filter)
  also have "\<dots> = mset (drop (oe_batchSize env) ?s)"
  proof -
    have "filter (\<lambda>e. e \<notin> set (batch env db)) (batch env db) = []" by (simp add: filter_empty_conv)
    moreover have "filter (\<lambda>e. e \<notin> set (batch env db)) (drop (oe_batchSize env) ?s) = drop (oe_batchSize env) ?s"
      by (rule filter_True) (use dis in blast)
    ultimately show ?thesis unfolding filter_union_mset by (metis add_0 mset.simps(1) mset_filter)
  qed
  finally show "mset (pending db) = mset (batch env db) + mset (filter (\<lambda>e. e \<notin> set (batch env db)) (pending db))"
    using m by simp
  show "length (batch env db) = min (oe_batchSize env) (length (pending db))" unfolding bs by simp
qed

text \<open>Repeated polls of a healthy publisher.\<close>

primrec polls :: "outbox_env \<Rightarrow> nat \<Rightarrow> DB \<times> sent \<Rightarrow> DB \<times> sent" where
  "polls env 0 st = st"
| "polls env (Suc k) st = polls env k (snd (processOutboxEvents env st))"

lemma polls_drain:
  assumes h: "healthy env" and n: "0 < oe_batchSize env" and "distinct (map ob_ID (db_outbox db))"
    and "\<forall>e \<in> set (db_outbox db). publishable env e" and "length (pending db) \<le> k * oe_batchSize env"
    and "polls env k (db, sent) = (db', sent')"
  shows "pending db' = [] \<and> (\<exists>new. sent' = sent @ new \<and> mset new = mset (List.map_filter (message_of env) (pending db)))"
  using assms(3-6)
proof (induction k arbitrary: db sent)
  case 0
  then show ?case by (simp add: List.map_filter_def)
next
  case (Suc k)
  let ?b = "batch env db"
  let ?db1 = "mark_all (oe_now env) (ob_ID ` set ?b) db"
  let ?sent1 = "sent @ List.map_filter (message_of env) ?b"
  have sub: "set ?b \<subseteq> set (db_outbox db)" using set_batch [of env db] by (auto simp: pending_def)
  have p1: "pending ?db1 = filter (\<lambda>e. e \<notin> set ?b) (pending db)" using pending_mark [OF Suc.prems(1) sub] .
  note split = pending_split [OF h Suc.prems(1)]
  have "length (pending db) = length ?b + length (pending ?db1)"
    using arg_cong [OF split(1), of size] unfolding p1 by (metis size_mset size_union)
  then have len: "length (pending ?db1) \<le> k * oe_batchSize env" using split(2) Suc.prems(3) by auto
  have pub: "\<forall>e \<in> set (db_outbox ?db1). publishable env e"
    using Suc.prems(2) by (auto simp: mark_all_def publishable_def message_of_def)
  have run: "polls env k (?db1, ?sent1) = (db', sent')"
    using Suc.prems(4) poll_healthy [OF h Suc.prems(2)] by simp
  obtain new where IH: "pending db' = []" "sent' = ?sent1 @ new"
    "mset new = mset (List.map_filter (message_of env) (pending ?db1))"
    using Suc.IH [OF _ pub len run] Suc.prems(1) by (auto simp del: map_map)
  have "mset (List.map_filter (message_of env) ?b @ new) = mset (List.map_filter (message_of env) (pending db))"
    using IH(3) split(1) [folded p1] by (simp add: mset_map_filter)
  then show ?case using IH(1,2) by auto
qed

text \<open>
  C34. The outbox drains.  When the calls of the polls succeed and every pending event can be
  decoded, as many polls as the pending events make batches leave no event pending, and together
  they publish exactly one message for each pending task event.
\<close>

theorem outbox_drains:
  assumes "healthy env" and "0 < oe_batchSize env" and "distinct (map ob_ID (db_outbox db))"
    and "\<forall>e \<in> set (db_outbox db). publishable env e" and "length (pending db) \<le> k * oe_batchSize env"
  shows "\<exists>db' new. polls env k (db, sent) = (db', sent @ new) \<and> pending db' = [] \<and>
           mset new = mset (List.map_filter (message_of env) (pending db))"
  using polls_drain [OF assms] by (metis surj_pair)

definition sample_outbox :: DB where
  "sample_outbox = empty_db\<lparr>db_outbox := [sample_event ''e1'' ''http://b'' 9, sample_event ''e2'' ''http://a'' 7]\<rparr>"

theorem outbox_drains_witness:
  "\<exists>db' new. polls (sample_env 1) 2 (sample_outbox, []) = (db', [] @ new) \<and> pending db' = [] \<and>
           mset new = mset (List.map_filter (message_of (sample_env 1)) (pending sample_outbox))"
  by (rule outbox_drains)
     (simp_all add: healthy_def sample_env_def sample_outbox_def sample_event_def empty_db_def publishable_def
       message_of_def sample_decode_def pending_def)

text \<open>
  One undecodable event stops the publisher.  As long as a task event whose payload does not
  decode is in the batch, a poll fails and marks nothing: after any number of polls the outbox is
  what it was, so the events of the batch that come before the bad one are published again each time.
\<close>

theorem undecodable_event_blocks:
  assumes "\<forall>env \<in> set envs. oe_decode env = dec \<and> e \<in> set (batch env db)"
    and "ob_EventType e = EventTypeTaskEnqueued" and "dec (ob_Payload e) = Inl err"
  shows "fst (foldl (\<lambda>st env. snd (processOutboxEvents env st)) (db, sent) envs) = db"
  using assms(1)
proof (induction envs arbitrary: sent)
  case (Cons env envs)
  obtain r db' sent' where p: "processOutboxEvents env (db, sent) = (r, db', sent')" by (metis surj_pair)
  have "message_of env e = None" using Cons.prems assms(2,3) by (simp add: message_of_def)
  then have "db' = db" using poll_cases [OF p] Cons.prems assms(2) by auto
  then show ?case using Cons p by simp
qed simp

theorem undecodable_event_blocks_witness:
  "fst (foldl (\<lambda>st env. snd (processOutboxEvents env st))
     (empty_db\<lparr>db_outbox := [sample_event ''e1'' ''http://b'' 9, sample_event ''e2'' ''bad'' 11]\<rparr>, [])
     [sample_env 5, sample_env 5]) =
   empty_db\<lparr>db_outbox := [sample_event ''e1'' ''http://b'' 9, sample_event ''e2'' ''bad'' 11]\<rparr>"
  by (rule undecodable_event_blocks [of _ sample_decode "sample_event ''e2'' ''bad'' 11"])
     (simp_all add: sample_env_def batch_def sample_event_def sample_decode_def empty_db_def)

end
