(* ===== verification/HTTP_Fetcher.thy ===== *)
theory HTTP_Fetcher
  imports Domain_Models
begin

text \<open>
  The HTTP fetcher with its retry loop, \<^verbatim>\<open>services/fetcher/http_fetcher.go\<close>.  The HTTP client is
  the record \<open>http_env\<close>: what the request constructor, the transport and the body reader answer on
  each attempt, what \<^verbatim>\<open>errors.As\<close> finds in an error, and whether the context is done when the
  loop is about to sleep.  The duration of a sleep is kept as an integer; the product with the
  \<^verbatim>\<open>float64\<close> multiplier is truncated as in Go, without the rounding of the float.
\<close>

section \<open>Model\<close>

record FetchResult =
  fr_Body :: string
  fr_FinalURL :: string
  fr_StatusCode :: int
  fr_ContentType :: string

record http_response =
  rsp_StatusCode :: int
  rsp_ContentType :: string
  rsp_Body :: "string res"
  rsp_FinalURL :: string

type_synonym headers = "(string \<times> string) list"

record http_env =
  he_new_request :: "string \<Rightarrow> unit res"
  he_do :: "nat \<Rightarrow> headers \<Rightarrow> string \<Rightarrow> http_response res"
  he_basic :: "string \<Rightarrow> string \<Rightarrow> string"
  he_as_dns :: "gerr \<Rightarrow> bool"
  he_as_url :: "gerr \<Rightarrow> gerr option"
  he_done :: "nat \<Rightarrow> gerr option"

text \<open>\<^verbatim>\<open>Header.Set\<close> replaces the values of the key.\<close>

definition set_header :: "string \<Rightarrow> string \<Rightarrow> headers \<Rightarrow> headers" where
  "set_header k v hs = filter (\<lambda>h. fst h \<noteq> k) hs @ [(k, v)]"

definition user_agent :: string where
  "user_agent = ''Mozilla/5.0 (Windows NT 10.0; Win64; x64) AppleWebKit/537.36 (KHTML, like Gecko) Chrome/120.0.0.0 Safari/537.36''"

definition request_headers :: "http_env \<Rightarrow> AuthOptions \<Rightarrow> headers" where
  "request_headers env auth =
     (let h0 = set_header ''Accept-Language'' ''ru-RU,ru;q=0.9,en-US;q=0.8,en;q=0.7''
            (set_header ''Accept'' ''text/html,application/xhtml+xml,application/xml;q=0.9,*/*;q=0.8''
            (set_header ''User-Agent'' user_agent []));
          h1 = (if Cookie auth \<noteq> [] then set_header ''Cookie'' (Cookie auth) h0 else h0);
          h2 = (if BasicUser auth \<noteq> [] then set_header ''Authorization'' (he_basic env (BasicUser auth) (BasicPassword auth)) h1
                else h1)
      in if BearerToken auth \<noteq> [] then set_header ''Authorization'' (''Bearer '' @ BearerToken auth) h2 else h2)"

definition doFetch :: "http_env \<Rightarrow> AuthOptions \<Rightarrow> nat \<Rightarrow> string \<Rightarrow> FetchResult res" where
  "doFetch env auth attempt url =
     bind_res (wrap_err ''failed to create request'' (he_new_request env url)) (\<lambda>_.
     bind_res (wrap_err ''failed to execute request'' (he_do env attempt (request_headers env auth) url)) (\<lambda>resp.
     bind_res (wrap_err ''failed to read response body'' (rsp_Body resp)) (\<lambda>body.
       Inr \<lparr>fr_Body = body, fr_FinalURL = rsp_FinalURL resp, fr_StatusCode = rsp_StatusCode resp,
            fr_ContentType = (if rsp_ContentType resp = [] then ''text/html'' else rsp_ContentType resp)\<rparr>)))"

definition isRetryableError :: "http_env \<Rightarrow> gerr \<Rightarrow> bool" where
  "isRetryableError env err \<longleftrightarrow>
     \<not> he_as_dns env err \<and>
     (case he_as_url env err of
        None \<Rightarrow> True
      | Some u \<Rightarrow> \<not> he_as_dns env u \<and> \<not> str_contains (err_text u) ''no such host'' \<and>
                   \<not> str_contains (err_text u) ''unsupported protocol scheme'') \<and>
     \<not> str_contains (err_text err) ''connection refused''"

text \<open>\<^verbatim>\<open>NewHTTPFetcher\<close>: at least one attempt.\<close>

definition NewHTTPFetcher :: "RetryPolicy \<Rightarrow> RetryPolicy" where
  "NewHTTPFetcher retry = (if MaxAttempts retry = 0 then retry\<lparr>MaxAttempts := 1\<rparr> else retry)"

text \<open>\<^verbatim>\<open>time.Duration(float64(backoff) * m)\<close>, truncated towards zero.\<close>

definition trunc :: "rat \<Rightarrow> int" where
  "trunc r = (if 0 \<le> r then floor r else ceiling r)"

definition next_backoff :: "RetryPolicy \<Rightarrow> duration \<Rightarrow> duration" where
  "next_backoff policy b = trunc (of_int b * BackoffMultiplier policy)"

text \<open>
  The loop: \<open>left\<close> attempts remain, \<open>attempt\<close> have been made; the sleeps it makes are collected.
\<close>

fun fetch_loop ::
  "http_env \<Rightarrow> AuthOptions \<Rightarrow> RetryPolicy \<Rightarrow> string \<Rightarrow> nat \<Rightarrow> nat \<Rightarrow> duration \<Rightarrow> gerr \<Rightarrow>
     FetchResult res \<times> duration list" where
  "fetch_loop env auth policy url 0 attempt backoff lastErr =
     (Inl (ErrWrap (''failed after '' @ show_nat (unat (MaxAttempts policy)) @ '' attempts'') lastErr), [])"
| "fetch_loop env auth policy url (Suc left) attempt backoff lastErr =
     (case doFetch env auth attempt url of
        Inr result \<Rightarrow> (Inr result, [])
      | Inl err \<Rightarrow>
          if \<not> isRetryableError env err
          then (Inl (ErrWrap ''permanent error (not retryable)'' err), [])
          else if left = 0 then fetch_loop env auth policy url left (attempt + 1) backoff err
          else (case he_done env attempt of
                  Some e \<Rightarrow> (Inl (ErrWrap ''context cancelled during retry'' e), [])
                | None \<Rightarrow>
                    (case fetch_loop env auth policy url left (attempt + 1) (next_backoff policy backoff) err of
                       (r, sleeps) \<Rightarrow> (r, backoff # sleeps))))"

text \<open>\<^verbatim>\<open>time.Duration(BackoffInitialMs) * time.Millisecond\<close> wraps as a signed 64-bit integer.\<close>

definition initial_backoff :: "RetryPolicy \<Rightarrow> duration" where
  "initial_backoff policy = sint (BackoffInitialMs policy * 1000000 :: 64 word)"

definition Fetch :: "http_env \<Rightarrow> AuthOptions \<Rightarrow> RetryPolicy \<Rightarrow> string \<Rightarrow> FetchResult res \<times> duration list" where
  "Fetch env auth retry url =
     (let policy = NewHTTPFetcher retry
      in fetch_loop env auth policy url (unat (MaxAttempts policy)) 0 (initial_backoff policy) (ErrText ''nil''))"

section \<open>Properties\<close>

text \<open>The texts by which the worker recognises an error after which the task is given up.\<close>

definition isPermanent :: "gerr \<Rightarrow> bool" where
  "isPermanent err \<longleftrightarrow> str_contains (err_text err) ''permanent error''"

definition retriesExhausted :: "gerr \<Rightarrow> bool" where
  "retriesExhausted err \<longleftrightarrow>
     str_contains (err_text err) ''failed after'' \<and> str_contains (err_text err) ''attempts''"

text \<open>The outcomes of the attempts, before the loop turns them into one.\<close>

definition transient :: "http_env \<Rightarrow> AuthOptions \<Rightarrow> string \<Rightarrow> nat \<Rightarrow> bool" where
  "transient env auth url k \<longleftrightarrow> (\<exists>e. doFetch env auth k url = Inl e \<and> isRetryableError env e)"

lemma exhausted_text: "retriesExhausted (ErrWrap (''failed after '' @ n @ '' attempts'') e)"
proof -
  have "str_contains (''failed after '' @ y) ''failed after''" for y by (rule str_contains_left) simp
  moreover have "str_contains (''failed after '' @ n @ '' attempts'' @ y) ''attempts''" for y
    by (intro str_contains_right str_contains_left) simp
  ultimately show ?thesis unfolding retriesExhausted_def err_text.simps append_assoc by blast
qed

lemma permanent_text: "isPermanent (ErrWrap ''permanent error (not retryable)'' e)"
  unfolding isPermanent_def err_text.simps
  by (rule str_contains_left) simp

lemma fetch_loop_ok:
  assumes "left = Suc (k + m)" and "\<forall>i < k. transient env auth url (a + i) \<and> he_done env (a + i) = None"
    and "doFetch env auth (a + k) url = Inr r"
  shows "\<exists>sleeps. fetch_loop env auth policy url left a b e = (Inr r, sleeps) \<and> length sleeps = k"
  using assms
proof (induction k arbitrary: left a b e)
  case 0
  then show ?case by simp
next
  case (Suc k)
  obtain err where err: "doFetch env auth a url = Inl err" "isRetryableError env err" "he_done env a = None"
    using Suc.prems(2) by (force simp: transient_def)
  have "\<forall>i < k. transient env auth url (a + 1 + i) \<and> he_done env (a + 1 + i) = None"
    using Suc.prems(2) by (metis Suc_mono add.assoc plus_1_eq_Suc)
  moreover have "doFetch env auth (a + 1 + k) url = Inr r" using Suc.prems(3) by simp
  ultimately obtain sleeps where
    "fetch_loop env auth policy url (Suc (k + m)) (a + 1) (next_backoff policy b) err = (Inr r, sleeps)" "length sleeps = k"
    using Suc.IH [of "Suc (k + m)" "a + 1"] by blast
  then show ?case using Suc.prems(1) err by simp
qed

lemma fetch_loop_error:
  assumes "fetch_loop env auth policy url left a b e = (Inl err, sleeps)" and "\<forall>i. he_done env i = None"
  shows "isPermanent err \<or> retriesExhausted err"
  using assms
proof (induction left arbitrary: a b e sleeps)
  case 0
  then show ?case using exhausted_text by auto
next
  case (Suc left)
  obtain err' where d: "doFetch env auth a url = Inl err'" using Suc.prems by (cases "doFetch env auth a url") auto
  show ?case
  proof (cases "isRetryableError env err'")
    case False
    then show ?thesis using Suc.prems d permanent_text by auto
  next
    case True
    then obtain b' s where "fetch_loop env auth policy url left (a + 1) b' err' = (Inl err, s)"
      using Suc.prems d by (auto split: if_splits prod.splits)
    then show ?thesis using Suc.IH Suc.prems(2) by blast
  qed
qed

lemma NewHTTPFetcher_attempts: "0 < unat (MaxAttempts (NewHTTPFetcher retry))"
  by (simp add: NewHTTPFetcher_def word_neq_0_conv [symmetric] unat_gt_0)

text \<open>
  The retry loop returns the first success: when the first attempts fail transiently and a
  later one, within the configured number, succeeds, the page of that attempt is returned, after
  exactly as many sleeps as there were failures.
\<close>

theorem Fetch_first_success:
  assumes "k < unat (MaxAttempts (NewHTTPFetcher retry))"
    and "\<forall>i < k. transient env auth url i \<and> he_done env i = None"
    and "doFetch env auth k url = Inr r"
  shows "\<exists>sleeps. Fetch env auth retry url = (Inr r, sleeps) \<and> length sleeps = k"
proof -
  obtain m where "unat (MaxAttempts (NewHTTPFetcher retry)) = Suc (k + m)"
    using assms(1) less_iff_Suc_add by blast
  then show ?thesis unfolding Fetch_def Let_def
    by (rule fetch_loop_ok) (use assms(2,3) in simp_all)
qed

text \<open>An HTTP client that answers a transient error until the given attempt.\<close>

definition flaky_env :: "nat \<Rightarrow> http_env" where
  "flaky_env n = \<lparr>he_new_request = (\<lambda>_. Inr ()),
     he_do = (\<lambda>k h u. if k < n then Inl (ErrText ''timeout'')
                       else Inr \<lparr>rsp_StatusCode = 200, rsp_ContentType = [], rsp_Body = Inr ''page'', rsp_FinalURL = u\<rparr>),
     he_basic = (\<lambda>u p. ''Basic ''), he_as_dns = (\<lambda>_. False), he_as_url = (\<lambda>_. None), he_done = (\<lambda>_. None)\<rparr>"

definition no_auth :: AuthOptions where
  "no_auth = \<lparr>Cookie = [], BasicUser = [], BasicPassword = [], BearerToken = []\<rparr>"

definition three_attempts :: RetryPolicy where
  "three_attempts = \<lparr>MaxAttempts = 3, BackoffInitialMs = 100, BackoffMultiplier = 2\<rparr>"

theorem Fetch_first_success_witness:
  "\<exists>sleeps. Fetch (flaky_env 2) no_auth three_attempts ''http://a'' =
     (Inr \<lparr>fr_Body = ''page'', fr_FinalURL = ''http://a'', fr_StatusCode = 200, fr_ContentType = ''text/html''\<rparr>, sleeps) \<and>
     length sleeps = 2"
  by (rule Fetch_first_success)
     (auto simp: three_attempts_def NewHTTPFetcher_def transient_def doFetch_def flaky_env_def isRetryableError_def)

text \<open>
  Every failure of the fetcher is final for the worker: unless the context is cancelled, the
  error it returns is recognised as a permanent error or as exhausted retries, so that the worker
  gives the task up instead of putting the message back.
\<close>

theorem Fetch_errors_final:
  assumes "Fetch env auth retry url = (Inl err, sleeps)" and "\<forall>i. he_done env i = None"
  shows "isPermanent err \<or> retriesExhausted err"
  using assms fetch_loop_error unfolding Fetch_def Let_def by blast

theorem Fetch_errors_final_witness:
  "\<exists>err sleeps. Fetch (flaky_env 9) no_auth three_attempts ''http://a'' = (Inl err, sleeps) \<and>
     (isPermanent err \<or> retriesExhausted err)"
proof -
  have n: "unat (MaxAttempts (NewHTTPFetcher three_attempts)) = Suc (Suc (Suc 0))"
    by (simp add: NewHTTPFetcher_def three_attempts_def)
  have "\<exists>err sleeps. Fetch (flaky_env 9) no_auth three_attempts ''http://a'' = (Inl err, sleeps)"
    unfolding Fetch_def Let_def n by (simp add: doFetch_def flaky_env_def isRetryableError_def)
  moreover have "\<forall>i. he_done (flaky_env 9) i = None" by (simp add: flaky_env_def)
  ultimately show ?thesis using Fetch_errors_final by blast
qed

end
