(* ===== verification/Scope_Rules.thy ===== *)
theory Scope_Rules
  imports Domain_Models
begin

text \<open>
  Which URLs a job may crawl: the wildcard patterns of \<^verbatim>\<open>models/scoperules.go\<close> and the scope
  validator of \<^verbatim>\<open>internal/infra/services/fetcher/scope_validator.go\<close>.

  Of \<^verbatim>\<open>regexp\<close> the wildcard code uses \<^verbatim>\<open>QuoteMeta\<close> and the regular expressions built from
  it: anchors, literal (possibly escaped) characters and \<^verbatim>\<open>.*\<close>; that fragment is modelled by
  \<open>compile_body\<close> and \<open>match_toks\<close>.  The deny patterns are arbitrary regular expressions:
  \<^verbatim>\<open>regexp.MatchString\<close> is the argument \<open>re_match\<close>, and \<^verbatim>\<open>url.Parse\<close> the argument
  \<open>parse_url\<close>.
\<close>

section \<open>URLs\<close>

record URL =
  u_Scheme :: string
  u_Host :: string
  u_Hostname :: string
  u_Fragment :: string

section \<open>Wildcard patterns\<close>

abbreviation bslash :: char where
  "bslash \<equiv> CHR 0x5C"

definition is_meta :: "char \<Rightarrow> bool" where
  "is_meta c \<longleftrightarrow> c = bslash \<or> c \<in> set ''.+*?()|[]{}^$''"

fun QuoteMeta :: "string \<Rightarrow> string" where
  "QuoteMeta [] = []"
| "QuoteMeta (c # cs) = (if is_meta c then bslash # c # QuoteMeta cs else c # QuoteMeta cs)"

text \<open>\<^verbatim>\<open>strings.ReplaceAll(s, "\*", ".*")\<close>: leftmost occurrences, not overlapping.\<close>

fun replace_star :: "string \<Rightarrow> string" where
  "replace_star (c # d # cs) =
     (if c = bslash \<and> d = CHR ''*'' then CHR ''.'' # CHR ''*'' # replace_star cs
      else c # replace_star (d # cs))"
| "replace_star cs = cs"

definition wildcard_regexp :: "string \<Rightarrow> string" where
  "wildcard_regexp pattern = ''^'' @ replace_star (QuoteMeta pattern) @ ''$''"

datatype ptok = Lit char | AnyStar

fun compile_body :: "string \<Rightarrow> ptok list res" where
  "compile_body [] = Inl (ErrText ''error parsing regexp'')"
| "compile_body [c] = (if c = CHR ''$'' then Inr [] else Inl (ErrText ''error parsing regexp''))"
| "compile_body (c # d # cs) =
     (if c = bslash then map_sum id ((#) (Lit d)) (compile_body cs)
      else if c = CHR ''.'' \<and> d = CHR ''*'' then map_sum id ((#) AnyStar) (compile_body cs)
      else if is_meta c then Inl (ErrText ''error parsing regexp'')
      else map_sum id ((#) (Lit c)) (compile_body (d # cs)))"

definition regexp_Compile :: "string \<Rightarrow> ptok list res" where
  "regexp_Compile s =
     (case s of c # cs \<Rightarrow> if c = CHR ''^'' then compile_body cs else Inl (ErrText ''error parsing regexp'')
      | [] \<Rightarrow> Inl (ErrText ''error parsing regexp''))"

text \<open>A dot matches every character but the line feed.\<close>

fun match_toks :: "ptok list \<Rightarrow> string \<Rightarrow> bool" where
  "match_toks [] s = (s = [])"
| "match_toks (Lit c # ts) s = (case s of [] \<Rightarrow> False | x # xs \<Rightarrow> x = c \<and> match_toks ts xs)"
| "match_toks (AnyStar # ts) [] = match_toks ts []"
| "match_toks (AnyStar # ts) (x # xs) =
     (match_toks ts (x # xs) \<or> (x \<noteq> CHR 0x0A \<and> match_toks (AnyStar # ts) xs))"

definition CompileAllowedURLPattern :: "string \<Rightarrow> ptok list option res" where
  "CompileAllowedURLPattern pattern0 =
     (let pattern = TrimSpace pattern0
      in if pattern = [] then Inr None
         else (case regexp_Compile (wildcard_regexp pattern) of Inl e \<Rightarrow> Inl e | Inr re \<Rightarrow> Inr (Some re)))"

fun CompileAllowedURLPatterns :: "string list \<Rightarrow> ptok list list res" where
  "CompileAllowedURLPatterns [] = Inr []"
| "CompileAllowedURLPatterns (p # ps) =
     (case CompileAllowedURLPattern p of Inl e \<Rightarrow> Inl e
      | Inr re \<Rightarrow> (case CompileAllowedURLPatterns ps of Inl e \<Rightarrow> Inl e
          | Inr res \<Rightarrow> Inr (case re of None \<Rightarrow> res | Some r \<Rightarrow> r # res)))"

text \<open>
  What a wildcard pattern means: a star stands for any text without a line feed, every other
  character for itself.
\<close>

inductive wildcard :: "string \<Rightarrow> string \<Rightarrow> bool" where
  wild_end: "wildcard [] []"
| wild_char: "c \<noteq> CHR ''*'' \<Longrightarrow> wildcard p s \<Longrightarrow> wildcard (c # p) (c # s)"
| wild_star: "CHR 0x0A \<notin> set u \<Longrightarrow> wildcard p s \<Longrightarrow> wildcard (CHR ''*'' # p) (u @ s)"

inductive_cases wildcard_nilE: "wildcard [] s"
inductive_cases wildcard_consE: "wildcard (c # p) s"

definition tok_of :: "char \<Rightarrow> ptok" where
  "tok_of c = (if c = CHR ''*'' then AnyStar else Lit c)"

lemma tok_of_simps: "tok_of CHR ''*'' = AnyStar" "c \<noteq> CHR ''*'' \<Longrightarrow> tok_of c = Lit c"
  by (simp_all add: tok_of_def)

subsection \<open>The compiled pattern means the wildcard\<close>

lemma replace_star_safe: "c \<noteq> bslash \<Longrightarrow> replace_star (c # cs) = c # replace_star cs"
  by (cases cs) auto

lemma QuoteMeta_head_not_star: "QuoteMeta cs = d # ds \<Longrightarrow> d \<noteq> CHR ''*''"
  by (cases cs) (auto simp: is_meta_def split: if_splits)

lemma replace_star_backslash:
  assumes "QuoteMeta cs = ds"
  shows "replace_star (bslash # ds) = bslash # replace_star ds"
  using assms QuoteMeta_head_not_star [of cs] by (cases ds) auto

lemma replace_star_QuoteMeta_Cons:
  "replace_star (QuoteMeta (c # cs)) =
     (if c = CHR ''*'' then CHR ''.'' # CHR ''*'' # replace_star (QuoteMeta cs)
      else if is_meta c then bslash # c # replace_star (QuoteMeta cs)
      else c # replace_star (QuoteMeta cs))"
proof (cases "is_meta c")
  case True
  show ?thesis
  proof (cases "c = bslash")
    case bs: True
    then show ?thesis
      using True replace_star_backslash [of cs "QuoteMeta cs"] by simp
  next
    case False
    then show ?thesis using True by (auto simp: replace_star_safe)
  qed
next
  case False
  then have "c \<noteq> bslash" "c \<noteq> CHR ''*''" by (auto simp: is_meta_def)
  then show ?thesis using False by (simp add: replace_star_safe)
qed

lemma compile_body_Cons:
  assumes "rest \<noteq> []"
  shows "compile_body (bslash # c # rest) = map_sum id ((#) (Lit c)) (compile_body rest)"
    and "compile_body (CHR ''.'' # CHR ''*'' # rest) = map_sum id ((#) AnyStar) (compile_body rest)"
    and "\<not> is_meta c \<Longrightarrow> compile_body (c # rest) = map_sum id ((#) (Lit c)) (compile_body rest)"
  using assms by (simp_all, cases rest, auto simp: is_meta_def)

lemma compile_wildcard:
  "compile_body (replace_star (QuoteMeta p) @ ''$'') = Inr (map tok_of p)"
proof (induction p)
  case Nil
  then show ?case by simp
next
  case (Cons c p)
  let ?rest = "replace_star (QuoteMeta p) @ ''$''"
  have ne: "?rest \<noteq> []" by simp
  show ?case
    using Cons.IH compile_body_Cons [OF ne]
    by (simp add: replace_star_QuoteMeta_Cons tok_of_def
        del: QuoteMeta.simps replace_star.simps compile_body.simps)
qed

lemma match_star: "match_toks (AnyStar # ts) s \<longleftrightarrow> (\<exists>u v. s = u @ v \<and> CHR 0x0A \<notin> set u \<and> match_toks ts v)"
proof (induction s)
  case Nil
  then show ?case by simp
next
  case (Cons x xs)
  show ?case
  proof
    assume "match_toks (AnyStar # ts) (x # xs)"
    then consider "match_toks ts (x # xs)" | "x \<noteq> CHR 0x0A" "match_toks (AnyStar # ts) xs" by auto
    then show "\<exists>u v. x # xs = u @ v \<and> CHR 0x0A \<notin> set u \<and> match_toks ts v"
    proof cases
      case 1
      then show ?thesis by (intro exI [of _ "[]"] exI [of _ "x # xs"]) simp
    next
      case 2
      with Cons.IH obtain u v where "xs = u @ v" "CHR 0x0A \<notin> set u" "match_toks ts v" by blast
      with 2(1) show ?thesis by (intro exI [of _ "x # u"] exI [of _ v]) simp
    qed
  next
    assume "\<exists>u v. x # xs = u @ v \<and> CHR 0x0A \<notin> set u \<and> match_toks ts v"
    then obtain u v where uv: "x # xs = u @ v" "CHR 0x0A \<notin> set u" "match_toks ts v" by blast
    show "match_toks (AnyStar # ts) (x # xs)"
    proof (cases u)
      case Nil
      with uv have "match_toks ts (x # xs)" by simp
      then show ?thesis by simp
    next
      case (Cons y ys)
      then have "x \<noteq> CHR 0x0A" "match_toks (AnyStar # ts) xs"
        using uv Cons.IH by auto
      then show ?thesis by simp
    qed
  qed
qed

lemma wildcard_star_iff:
  "wildcard (CHR ''*'' # p) s \<longleftrightarrow> (\<exists>u v. s = u @ v \<and> CHR 0x0A \<notin> set u \<and> wildcard p v)"
proof
  assume "wildcard (CHR ''*'' # p) s"
  then show "\<exists>u v. s = u @ v \<and> CHR 0x0A \<notin> set u \<and> wildcard p v"
    by (rule wildcard_consE) auto
qed (auto intro: wildcard.intros)

lemma match_toks_wildcard: "match_toks (map tok_of p) s \<longleftrightarrow> wildcard p s"
proof (induction p arbitrary: s)
  case Nil
  then show ?case by (auto intro: wildcard.intros elim: wildcard_nilE)
next
  case (Cons c p)
  show ?case
  proof (cases "c = CHR ''*''")
    case True
    then have "match_toks (map tok_of (c # p)) s \<longleftrightarrow>
        (\<exists>u v. s = u @ v \<and> CHR 0x0A \<notin> set u \<and> wildcard p v)"
      by (simp only: list.map tok_of_def refl if_True match_star Cons.IH)
    also have "\<dots> \<longleftrightarrow> wildcard (c # p) s"
      using True by (simp add: wildcard_star_iff)
    finally show ?thesis .
  next
    case False
    then show ?thesis
      by (auto simp: tok_of_simps Cons.IH intro: wildcard.intros elim!: wildcard_consE split: list.splits)
  qed
qed

lemma CompileAllowedURLPattern_ok:
  "CompileAllowedURLPattern p =
     Inr (if TrimSpace p = [] then None else Some (map tok_of (TrimSpace p)))"
  by (simp add: CompileAllowedURLPattern_def Let_def regexp_Compile_def wildcard_regexp_def compile_wildcard)

lemma CompileAllowedURLPatterns_ok:
  "CompileAllowedURLPatterns ps =
     Inr (map (map tok_of) (filter (\<lambda>p. p \<noteq> []) (map TrimSpace ps)))"
  by (induction ps) (auto simp: CompileAllowedURLPattern_ok)

text \<open>The test both link collectors make: no pattern at all, or one that matches.\<close>

definition url_pattern_allowed :: "ptok list list \<Rightarrow> string \<Rightarrow> bool" where
  "url_pattern_allowed res link \<longleftrightarrow> (res \<noteq> [] \<longrightarrow> (\<exists>re \<in> set res. match_toks re link))"

text \<open>
  C32. The pipeline from a user's wildcard to a match (trim, quote, replace the escaped stars,
  compile, match) accepts every pattern and means what the wildcard says: it matches exactly the
  URLs in which each star stands for some text without a line feed and every other character, regular
  expression operators included, stands for itself.
\<close>

theorem allowed_pattern_semantics:
  "\<exists>res. CompileAllowedURLPatterns ps = Inr res \<and>
     (\<forall>link. url_pattern_allowed res link \<longleftrightarrow>
        ((\<exists>p \<in> set ps. TrimSpace p \<noteq> []) \<longrightarrow>
         (\<exists>p \<in> set ps. TrimSpace p \<noteq> [] \<and> wildcard (TrimSpace p) link)))"
proof -
  let ?res = "map (map tok_of) (filter (\<lambda>p. p \<noteq> []) (map TrimSpace ps))"
  have ne: "?res \<noteq> [] \<longleftrightarrow> (\<exists>p \<in> set ps. TrimSpace p \<noteq> [])"
    by (auto simp: filter_empty_conv)
  have ex: "(\<exists>re \<in> set ?res. match_toks re link) \<longleftrightarrow>
      (\<exists>p \<in> set ps. TrimSpace p \<noteq> [] \<and> wildcard (TrimSpace p) link)" for link
    by (auto simp: match_toks_wildcard [symmetric])
  show ?thesis
    unfolding url_pattern_allowed_def CompileAllowedURLPatterns_ok ex [symmetric] ne [symmetric]
    by simp
qed

theorem allowed_pattern_semantics_witness:
  "wildcard ''http://a.b/*'' ''http://a.b/p?q=1''"
proof -
  obtain res where res: "CompileAllowedURLPatterns ['' http://a.b/* ''] = Inr res"
    and all: "\<forall>link. url_pattern_allowed res link \<longleftrightarrow>
      ((\<exists>p \<in> set ['' http://a.b/* '']. TrimSpace p \<noteq> []) \<longrightarrow>
       (\<exists>p \<in> set ['' http://a.b/* '']. TrimSpace p \<noteq> [] \<and> wildcard (TrimSpace p) link))"
    using allowed_pattern_semantics [of "['' http://a.b/* '']"] by blast
  have t: "TrimSpace '' http://a.b/* '' = ''http://a.b/*''"
    by (simp add: TrimSpace_def is_space_def of_char_def)
  have "res = [map tok_of ''http://a.b/*'']"
    using res by (simp add: CompileAllowedURLPatterns_ok t)
  then have "url_pattern_allowed res ''http://a.b/p?q=1''"
    by (simp add: url_pattern_allowed_def tok_of_def)
  with all show ?thesis by (simp add: t)
qed

section \<open>The scope validator\<close>

definition domain_allowed :: "string list \<Rightarrow> string \<Rightarrow> bool" where
  "domain_allowed domains host \<longleftrightarrow> (\<exists>d \<in> set domains. host = d \<or> HasSuffix host (''.'' @ d))"

fun check_deny :: "(string \<Rightarrow> string \<Rightarrow> bool res) \<Rightarrow> string list \<Rightarrow> string \<Rightarrow> unit res" where
  "check_deny re_match [] url = Inr ()"
| "check_deny re_match (p # ps) url =
     (case re_match p url of
        Inl e \<Rightarrow> Inl (ErrWrap (''invalid deny pattern '' @ p) e)
      | Inr matched \<Rightarrow>
          if matched then Inl (ErrText (''URL matches denied pattern: '' @ p))
          else check_deny re_match ps url)"

definition Validate ::
  "(string \<Rightarrow> URL res) \<Rightarrow> (string \<Rightarrow> string \<Rightarrow> bool res) \<Rightarrow> string \<Rightarrow> u64 \<Rightarrow> ScopeRules \<Rightarrow> unit res" where
  "Validate parse_url re_match url depth rules =
     (if MaxDepth rules < depth then
        Inl (ErrText (''depth '' @ show_nat (unat depth) @ '' exceeds max depth '' @ show_nat (unat (MaxDepth rules))))
      else (case parse_url url of
          Inl e \<Rightarrow> Inl (ErrWrap ''invalid URL'' e)
        | Inr u \<Rightarrow>
            if AllowedDomains rules \<noteq> [] \<and> \<not> domain_allowed (AllowedDomains rules) (u_Host u) then
              Inl (ErrText (''domain '' @ u_Host u @ '' not in allowed domains''))
            else check_deny re_match (DenyUrlPatterns rules) url))"

lemma check_deny_Inr_iff:
  "check_deny re_match ps url = Inr x \<longleftrightarrow> (\<forall>p \<in> set ps. re_match p url = Inr False)"
  by (induction ps) (auto split: sum.splits)

text \<open>
  What the workers rely on of a scope validator: an accepted URL is not deeper than the rules allow,
  it parses, and no deny pattern matches it.
\<close>

locale scope_validator =
  fixes parse_url :: "string \<Rightarrow> URL res"
    and re_match :: "string \<Rightarrow> string \<Rightarrow> bool res"
    and validate :: "string \<Rightarrow> u64 \<Rightarrow> ScopeRules \<Rightarrow> unit res"
  assumes accepted_depth: "validate url d r = Inr x \<Longrightarrow> d \<le> MaxDepth r"
    and accepted_parses: "validate url d r = Inr x \<Longrightarrow> \<exists>u. parse_url url = Inr u"
    and accepted_not_denied:
      "validate url d r = Inr x \<Longrightarrow> p \<in> set (DenyUrlPatterns r) \<Longrightarrow> re_match p url = Inr False"
begin

lemma too_deep_refused: "MaxDepth r < d \<Longrightarrow> \<exists>e. validate url d r = Inl e"
  using accepted_depth [of url d r] by (cases "validate url d r") (auto simp: linorder_not_less)

lemma denied_refused:
  "p \<in> set (DenyUrlPatterns r) \<Longrightarrow> re_match p url = Inr True \<Longrightarrow> \<exists>e. validate url d r = Inl e"
  using accepted_not_denied [of url d r _ p] by (cases "validate url d r") auto

end

text \<open>
  The validator accepts a URL exactly when its depth is within the limit, it parses, its host is
  one of the allowed domains or a subdomain of one (when domains are given), and no deny pattern is
  invalid or matches.
\<close>

theorem Validate_iff:
  "Validate parse_url re_match url depth rules = Inr () \<longleftrightarrow>
     depth \<le> MaxDepth rules \<and>
     (\<exists>u. parse_url url = Inr u \<and>
        (AllowedDomains rules = [] \<or>
         (\<exists>d \<in> set (AllowedDomains rules). u_Host u = d \<or> (\<exists>pre. u_Host u = pre @ ''.'' @ d)))) \<and>
     (\<forall>p \<in> set (DenyUrlPatterns rules). re_match p url = Inr False)"
  by (auto simp: Validate_def check_deny_Inr_iff domain_allowed_def HasSuffix_def suffix_def
      linorder_not_less split: sum.splits if_splits)

theorem Validate_iff_witness:
  "Validate (\<lambda>s. Inr \<lparr>u_Scheme = ''http'', u_Host = ''x.ex.org'', u_Hostname = ''x.ex.org'', u_Fragment = []\<rparr>)
      (\<lambda>p s. Inr (str_contains s p)) ''http://x.ex.org/a'' 1
      \<lparr>MaxDepth = 2, AllowedDomains = [''ex.org''], DenyUrlPatterns = [''logout''], AllowedURLPatterns = []\<rparr>
    = Inr () \<and>
   Validate (\<lambda>s. Inr \<lparr>u_Scheme = ''http'', u_Host = ''badex.org'', u_Hostname = ''badex.org'', u_Fragment = []\<rparr>)
      (\<lambda>p s. Inr (str_contains s p)) ''http://badex.org/a'' 1
      \<lparr>MaxDepth = 2, AllowedDomains = [''ex.org''], DenyUrlPatterns = [''logout''], AllowedURLPatterns = []\<rparr>
    \<noteq> Inr ()"
  unfolding Validate_iff by (simp add: suffix_def [symmetric] suffix_to_prefix)

interpretation domain_scope: scope_validator parse_url re_match "Validate parse_url re_match"
  for parse_url re_match
proof
  fix url :: string and d r x p
  assume ok: "Validate parse_url re_match url d r = Inr x"
  then show "d \<le> MaxDepth r" and "\<exists>u. parse_url url = Inr u"
    by (auto simp: Validate_def linorder_not_less split: sum.splits if_splits)
  show "re_match p url = Inr False" if "p \<in> set (DenyUrlPatterns r)"
    using ok that by (auto simp: Validate_def check_deny_Inr_iff split: sum.splits if_splits)
qed

end
