(* ===== verification/Fetch_Worker.thy ===== *)
theory Fetch_Worker
  imports Outbox_Publisher HTTP_Fetcher Scope_Rules
begin

text \<open>
  The fetch worker, \<^verbatim>\<open>worker/fetch_worker.go\<close>.  One call of \<^verbatim>\<open>handleMessage\<close> maps the world
  (the database, the content store, the messages on the parsing and the crawl queues) to the world it leaves and to
  the error it returns; the consumer acknowledges a message when the error is nil.  The record
  \<open>fetch_env\<close> holds what the services outside the worker answer during the call: the failures of the
  database statements, the robots check, the two questions to the rate limiter, the fetcher, the
  content store, the broker and the clock.  Logging, spans and metrics have no part in the state.
\<close>

section \<open>Model\<close>

record ParsingTaskMessage =
  pm_TaskID :: string
  pm_JobID :: string
  pm_EnqueuedAt :: time
  pm_TraceContext :: trace_context

type_synonym content_store = "string \<rightharpoonup> string \<times> string"

record world =
  w_db :: DB
  w_store :: content_store
  w_parsing :: "(string \<times> ParsingTaskMessage) list"
  w_crawl :: sent

record fetch_env =
  fe_decode :: "string \<Rightarrow> CrawlTaskMessage res"
  fe_uuid_ok :: "string \<Rightarrow> bool"
  fe_parse_url :: "string \<Rightarrow> URL res"
  fe_re_match :: "string \<Rightarrow> string \<Rightarrow> bool res"
  fe_get :: "gerr option"
  fe_config :: "gerr option"
  fe_update :: "gerr option"
  fe_robots :: "string \<Rightarrow> bool res"
  fe_allow :: "string \<Rightarrow> (bool \<times> duration) res"
  fe_allow_again :: "string \<Rightarrow> (bool \<times> duration) res"
  fe_fetch :: "AuthOptions \<Rightarrow> RetryPolicy \<Rightarrow> string \<Rightarrow> FetchResult res"
  fe_store :: "gerr option"
  fe_publish :: "gerr option"
  fe_parsingQueue :: string
  fe_now :: time
  fe_trace :: trace_context

definition db_read :: "gerr option \<Rightarrow> ('db \<Rightarrow> 'a res) \<Rightarrow> 'db \<Rightarrow> 'a res" where
  "db_read fail q db = (case fail of Some e \<Rightarrow> Inl e | None \<Rightarrow> q db)"

text \<open>Marking the task as failed and saving it: the common end of the refusals.\<close>

definition fail_task :: "fetch_env \<Rightarrow> CrawlTask \<Rightarrow> string \<Rightarrow> world \<Rightarrow> unit res \<times> world" where
  "fail_task env task reason w =
     (case db_call (fe_update env) (task_Update (MarkAsFailed task reason)) (w_db w) of
        (Inl e, db') \<Rightarrow> (Inl (ErrWrap ''failed to update task status'' e), w\<lparr>w_db := db'\<rparr>)
      | (Inr _, db') \<Rightarrow> (Inr (), w\<lparr>w_db := db'\<rparr>))"

text \<open>The host the rate limiter is asked about.\<close>

definition rate_limit_host :: "fetch_env \<Rightarrow> string \<Rightarrow> string res" where
  "rate_limit_host env url =
     (case fe_parse_url env url of
        Inl e \<Rightarrow> Inl (ErrWrap ''invalid url for rate limiting'' e)
      | Inr u \<Rightarrow> if u_Host u = [] then Inl (ErrWrap ''invalid url for rate limiting'' (ErrText ''missing host''))
                 else Inr (if u_Hostname u = [] then u_Host u else u_Hostname u))"

text \<open>At most one wait: the limiter is asked again after the pause it asked for.\<close>

definition wait_for_slot :: "fetch_env \<Rightarrow> string \<Rightarrow> unit res" where
  "wait_for_slot env host =
     (case fe_allow env host of
        Inl e \<Rightarrow> Inl (ErrWrap ''failed to check rate limit'' e)
      | Inr (allowed, retryAfter) \<Rightarrow>
          if allowed then Inr ()
          else (case fe_allow_again env host of
                  Inl e \<Rightarrow> Inl (ErrWrap ''failed to check rate limit after retry'' e)
                | Inr (allowed2, retryAfter2) \<Rightarrow>
                    if allowed2 then Inr () else Inl (ErrText ''still rate limited after waiting'')))"

definition minioKey :: "CrawlTask \<Rightarrow> string" where
  "minioKey task = ''pages/'' @ task_JobID task @ ''/'' @ task_ID task @ ''.html''"

definition save_page :: "fetch_env \<Rightarrow> CrawlTaskMessage \<Rightarrow> CrawlTask \<Rightarrow> FetchResult \<Rightarrow> world \<Rightarrow> unit res \<times> world" where
  "save_page env msg task page w =
     (case fe_store env of
        Some e \<Rightarrow> (Inl (ErrWrap ''failed to store content to MinIO'' e), w)
      | None \<Rightarrow>
          let w1 = w\<lparr>w_store := (w_store w)(minioKey task \<mapsto> (fr_Body page, fr_ContentType page))\<rparr>
          in case db_call (fe_update env) (task_Update (MarkAsFetched task (fr_FinalURL page) (minioKey task))) (w_db w1) of
               (Inl e, db') \<Rightarrow> (Inl (ErrWrap ''failed to update task'' e), w1\<lparr>w_db := db'\<rparr>)
             | (Inr _, db') \<Rightarrow>
                 (case fe_publish env of
                    Some e \<Rightarrow> (Inl (ErrWrap ''failed to publish to parsing queue'' e), w1\<lparr>w_db := db'\<rparr>)
                  | None \<Rightarrow>
                      (Inr (), w1\<lparr>w_db := db',
                         w_parsing := w_parsing w1 @ [(fe_parsingQueue env,
                           \<lparr>pm_TaskID = cm_TaskID msg, pm_JobID = cm_JobID msg, pm_EnqueuedAt = fe_now env,
                            pm_TraceContext = fe_trace env\<rparr>)]\<rparr>)))"

definition fetch_page :: "fetch_env \<Rightarrow> CrawlTaskMessage \<Rightarrow> CrawlJobConfig \<Rightarrow> CrawlTask \<Rightarrow> world \<Rightarrow> unit res \<times> world" where
  "fetch_page env msg config task w =
     (case fe_fetch env (cfg_Auth config) (cfg_Retries config) (task_URL task) of
        Inl err \<Rightarrow>
          if isPermanent err \<or> retriesExhausted err
          then fail_task env task (''fetch failed: '' @ err_text err) w
          else (Inl (ErrWrap ''failed to fetch page'' err), w)
      | Inr page \<Rightarrow> save_page env msg task page w)"

definition process_task :: "fetch_env \<Rightarrow> CrawlTaskMessage \<Rightarrow> CrawlJobConfig \<Rightarrow> CrawlTask \<Rightarrow> world \<Rightarrow> unit res \<times> world" where
  "process_task env msg config task w =
     (case Validate (fe_parse_url env) (fe_re_match env) (task_URL task) (task_Depth task) (cfg_Scopes config) of
        Inl e \<Rightarrow> fail_task env task (''scope validation failed: '' @ err_text e) w
      | Inr _ \<Rightarrow>
          if cfg_RespectRobotsTxt config \<and> fe_robots env (task_URL task) = Inr False
          then fail_task env task ''URL disallowed by robots.txt'' w
          else (case rate_limit_host env (task_URL task) of
                  Inl e \<Rightarrow> (Inl e, w)
                | Inr host \<Rightarrow>
                    (case wait_for_slot env host of
                       Inl e \<Rightarrow> (Inl e, w)
                     | Inr _ \<Rightarrow> fetch_page env msg config task w)))"

text \<open>
  The handler.  The dereference of the task's job would panic on a nil pointer; the join of
  \<^const>\<open>task_Get\<close> always fills it.
\<close>

definition fetch_handleMessage :: "fetch_env \<Rightarrow> string \<Rightarrow> world \<Rightarrow> unit res \<times> world" where
  "fetch_handleMessage env body w =
     (case fe_decode env body of
        Inl e \<Rightarrow> (Inl (ErrWrap ''failed to unmarshal task'' e), w)
      | Inr msg \<Rightarrow>
        (case NewCrawlTaskID (fe_uuid_ok env) (cm_TaskID msg) of
           Inl e \<Rightarrow> (Inl (ErrWrap ''invalid task ID'' e), w)
         | Inr taskID \<Rightarrow>
           (case db_read (fe_get env) (task_Get (fe_uuid_ok env) taskID) (w_db w) of
              Inl e \<Rightarrow> if is_no_rows e then (Inr (), w) else (Inl (ErrWrap ''failed to get task'' e), w)
            | Inr task \<Rightarrow>
              (case task_Job task of
                 None \<Rightarrow> (Inl (ErrText ''nil pointer dereference''), w)
               | Some job \<Rightarrow>
                 (case db_read (fe_config env) (config_Get (fe_uuid_ok env) (job_JobConfigID job)) (w_db w) of
                    Inl e \<Rightarrow> if is_no_rows e then (Inr (), w) else (Inl (ErrWrap ''failed to get job config'' e), w)
                  | Inr config \<Rightarrow> process_task env msg config task w)))))"

text \<open>The labels of the metrics.\<close>

definition extractDomain :: "(string \<Rightarrow> URL res) \<Rightarrow> string \<Rightarrow> string" where
  "extractDomain parse_url rawURL =
     (case parse_url rawURL of
        Inl _ \<Rightarrow> ''unknown''
      | Inr u \<Rightarrow> if u_Hostname u = [] then ''unknown'' else u_Hostname u)"

definition categorizeError :: "gerr \<Rightarrow> string" where
  "categorizeError err =
     (let errStr = ToLower (err_text err)
      in if str_contains errStr ''timeout'' then ''timeout''
         else if str_contains errStr ''connection refused'' then ''connection_refused''
         else if str_contains errStr ''no such host'' then ''dns_error''
         else if str_contains errStr ''permanent error'' then ''permanent''
         else if str_contains errStr ''403'' \<or> str_contains errStr ''forbidden'' then ''http_403''
         else if str_contains errStr ''404'' \<or> str_contains errStr ''not found'' then ''http_404''
         else if str_contains errStr ''5'' then ''http_5xx''
         else ''other'')"

section \<open>Lemmas\<close>

text \<open>A task loaded from a row: the row is what saving the task gives.\<close>

definition loaded :: "DB \<Rightarrow> CrawlTask \<Rightarrow> CrawlTaskSnapshot \<Rightarrow> bool" where
  "loaded db t r \<longleftrightarrow> find_task db (task_ID t) = Some r \<and> r = SaveCrawlTaskToSnapshot t"

lemma task_Get_loaded:
  assumes "task_Get ok i db = Inr t"
  shows "\<exists>r j. loaded db t r \<and> find_job db (ts_JobID r) = Some j \<and> task_ID t = i \<and>
           (\<exists>job. task_Job t = Some job \<and> (\<forall>c. js_JobConfigID j = Some c \<longrightarrow> job_JobConfigID job = c))"
proof -
  obtain r j where r: "find_task db i = Some r" "find_job db (ts_JobID r) = Some j"
    and t: "RestoreCrawlTaskWithJobFromSnapshot ok r (Some (job_columns_of_join j)) = Inr t"
    using assms by (auto simp: task_Get_def split: option.splits)
  have "SaveCrawlTaskToSnapshot t = r" using RestoreTask_InrD [OF t] by simp
  moreover have "task_ID t = i" using calculation find_task_SomeD [OF r(1)] by auto
  moreover obtain job where "task_Job t = Some job"
      "RestoreCrawlJobFromSnapshot ok (job_columns_of_join j) None = Inr job"
    using t by (auto simp: RestoreCrawlTaskWithJobFromSnapshot_def bind_res_Inr_iff)
  moreover from this(2) have "\<forall>c. js_JobConfigID j = Some c \<longrightarrow> job_JobConfigID job = c"
    by (auto simp: RestoreCrawlJobFromSnapshot_def bind_res_Inr_iff job_columns_of_join_def dest: NewID_InrD)
  ultimately show ?thesis using r by (auto simp: loaded_def)
qed

lemma Update_loaded:
  assumes "db_inv db" and "loaded db t r" and "task_ID t' = task_ID t" and "task_URL t' = task_URL t"
  shows "\<exists>db'. task_Update t' db = (Inr (), db') \<and> db_inv db' \<and>
           find_task db' = (find_task db)(task_ID t \<mapsto> updated_row t' r)"
  using tasks.upd_present [OF assms(1), of t' r] assms(2-4) by (auto simp: loaded_def)

text \<open>The three ways a call can end for a loaded task.\<close>

definition put_back :: "CrawlTask \<Rightarrow> world \<Rightarrow> unit res \<Rightarrow> world \<Rightarrow> bool" where
  "put_back t w res w' \<longleftrightarrow> (\<exists>e. res = Inl e) \<and> w_db w' = w_db w \<and> w_parsing w' = w_parsing w \<and>
     (w_store w' = w_store w \<or> (\<exists>c. w_store w' = (w_store w)(minioKey t \<mapsto> c)))"

definition gave_up :: "CrawlTask \<Rightarrow> CrawlTaskSnapshot \<Rightarrow> world \<Rightarrow> unit res \<Rightarrow> world \<Rightarrow> bool" where
  "gave_up t r w res w' \<longleftrightarrow> res = Inr () \<and> (\<exists>reason db'. w' = w\<lparr>w_db := db'\<rparr> \<and> db_inv db' \<and>
     find_task db' = (find_task (w_db w))(task_ID t \<mapsto> updated_row (MarkAsFailed t reason) r))"

definition fetched :: "fetch_env \<Rightarrow> CrawlTaskMessage \<Rightarrow> CrawlTask \<Rightarrow> CrawlTaskSnapshot \<Rightarrow> world \<Rightarrow> unit res \<Rightarrow> world \<Rightarrow> bool" where
  "fetched env msg t r w res w' \<longleftrightarrow>
     (\<exists>page :: FetchResult. db_inv (w_db w') \<and>
        find_task (w_db w') = (find_task (w_db w))(task_ID t \<mapsto> updated_row (MarkAsFetched t (fr_FinalURL page) (minioKey t)) r) \<and>
        w_store w' = (w_store w)(minioKey t \<mapsto> (fr_Body page, fr_ContentType page)) \<and>
        (if fe_publish env = None
         then res = Inr () \<and> (\<exists>m. pm_TaskID m = cm_TaskID msg \<and> pm_JobID m = cm_JobID msg \<and>
                                   w_parsing w' = w_parsing w @ [(fe_parsingQueue env, m)])
         else (\<exists>e. res = Inl e) \<and> w_parsing w' = w_parsing w))"

lemma fail_task_cases:
  assumes "db_inv (w_db w)" and "loaded (w_db w) t r" and "fail_task env t reason w = (res, w')"
  shows "put_back t w res w' \<or> gave_up t r w res w'"
  using Update_loaded [OF assms(1,2), of "MarkAsFailed t reason"] assms(3)
  by (cases "fe_update env") (auto simp: fail_task_def put_back_def gave_up_def)

lemma save_page_cases:
  assumes "db_inv (w_db w)" and "loaded (w_db w) t r" and "save_page env msg t page w = (res, w')"
  shows "put_back t w res w' \<or> fetched env msg t r w res w'"
proof -
  obtain db' where u: "task_Update (MarkAsFetched t (fr_FinalURL page) (minioKey t)) (w_db w) = (Inr (), db')" "db_inv db'"
    "find_task db' = (find_task (w_db w))(task_ID t \<mapsto> updated_row (MarkAsFetched t (fr_FinalURL page) (minioKey t)) r)"
    using Update_loaded [OF assms(1,2), of "MarkAsFetched t (fr_FinalURL page) (minioKey t)"] by auto
  show ?thesis
  proof (cases "fe_store env = None \<and> fe_update env = None")
    case True
    then have "fetched env msg t r w res w'"
      unfolding fetched_def using assms(3) u
      by (intro exI [of _ page]) (cases "fe_publish env"; auto simp: save_page_def)
    then show ?thesis ..
  next
    case False
    then have "put_back t w res w'" using assms(3) unfolding put_back_def
      by (cases "fe_store env"; cases "fe_update env") (fastforce simp: save_page_def)+
    then show ?thesis ..
  qed
qed

lemma process_task_cases:
  assumes inv: "db_inv (w_db w)" and l: "loaded (w_db w) t r" and p: "process_task env msg config t w = (res, w')"
  shows "put_back t w res w' \<or> gave_up t r w res w' \<or> fetched env msg t r w res w'"
proof (cases "Validate (fe_parse_url env) (fe_re_match env) (task_URL t) (task_Depth t) (cfg_Scopes config)")
  case (Inl e)
  then show ?thesis using fail_task_cases [OF inv l] p by (auto simp: process_task_def)
next
  case (Inr u)
  note V = Inr
  show ?thesis
  proof (cases "cfg_RespectRobotsTxt config \<and> fe_robots env (task_URL t) = Inr False")
    case True
    then show ?thesis using V fail_task_cases [OF inv l] p by (auto simp: process_task_def)
  next
    case False
    have same: "put_back t w (Inl e) w" for e by (simp add: put_back_def)
    have tail: "process_task env msg config t w =
        (case rate_limit_host env (task_URL t) of Inl e \<Rightarrow> (Inl e, w)
         | Inr host \<Rightarrow> (case wait_for_slot env host of Inl e \<Rightarrow> (Inl e, w) | Inr _ \<Rightarrow> fetch_page env msg config t w))"
      unfolding process_task_def V sum.case if_not_P [OF False] ..
    consider e where "(res, w') = (Inl e, w)" | "fetch_page env msg config t w = (res, w')"
    proof (cases "rate_limit_host env (task_URL t)")
      case (Inr host)
      then show ?thesis using that p unfolding tail by (cases "wait_for_slot env host") (simp_all, metis)
    qed (use that p tail in \<open>simp, metis\<close>)
    then show ?thesis
    proof cases
      case 2
      show ?thesis
      proof (cases "fe_fetch env (cfg_Auth config) (cfg_Retries config) (task_URL t)")
        case (Inl e)
        then show ?thesis using 2 same fail_task_cases [OF inv l, of env _ res w']
          by (auto simp: fetch_page_def split: if_splits)
      next
        case (Inr page)
        then show ?thesis using 2 save_page_cases [OF inv l, of env msg page res w'] by (auto simp: fetch_page_def)
      qed
    qed (use same in auto)
  qed
qed

lemma handle_cases:
  assumes inv: "db_inv (w_db w)" and h: "fetch_handleMessage env body w = (res, w')"
  shows "w' = w \<or>
    (\<exists>msg t r. fe_decode env body = Inr msg \<and> task_ID t = cm_TaskID msg \<and> loaded (w_db w) t r \<and>
       (put_back t w res w' \<or> gave_up t r w res w' \<or> fetched env msg t r w res w'))"
proof (cases "w' = w")
  case False
  obtain msg where msg: "fe_decode env body = Inr msg"
    using h False by (cases "fe_decode env body") (auto simp: fetch_handleMessage_def)
  obtain i where i: "NewCrawlTaskID (fe_uuid_ok env) (cm_TaskID msg) = Inr i"
    using h False msg by (cases "NewCrawlTaskID (fe_uuid_ok env) (cm_TaskID msg)") (auto simp: fetch_handleMessage_def)
  then have im: "i = cm_TaskID msg" by (auto simp: NewTypedID_eq dest: NewID_InrD)
  obtain t where g: "db_read (fe_get env) (task_Get (fe_uuid_ok env) i) (w_db w) = Inr t"
    using h False msg i by (cases "db_read (fe_get env) (task_Get (fe_uuid_ok env) i) (w_db w)")
      (auto simp: fetch_handleMessage_def split: if_splits)
  then have "task_Get (fe_uuid_ok env) i (w_db w) = Inr t" by (simp add: db_read_def split: option.splits)
  then obtain r job where r: "loaded (w_db w) t r" "task_ID t = i" "task_Job t = Some job"
    using task_Get_loaded by blast
  obtain config where "process_task env msg config t w = (res, w')"
    using h False msg i g r(3) by (auto simp: fetch_handleMessage_def split: sum.splits if_splits)
  then show ?thesis using process_task_cases [OF inv r(1)] msg r im by blast
qed simp

section \<open>Properties\<close>

text \<open>
  The pages are where the messages and the rows say: every message on the parsing queue whose task
  still exists, and every task marked as fetched, has its page in the content store.
\<close>

definition page_key :: "CrawlTaskSnapshot \<Rightarrow> string" where
  "page_key r = ''pages/'' @ ts_JobID r @ ''/'' @ ts_ID r @ ''.html''"

definition pages_inv :: "world \<Rightarrow> bool" where
  "pages_inv w \<longleftrightarrow> db_inv (w_db w) \<and>
     (\<forall>q m r. (q, m) \<in> set (w_parsing w) \<and> find_task (w_db w) (pm_TaskID m) = Some r \<longrightarrow> page_key r \<in> dom (w_store w)) \<and>
     (\<forall>i r. find_task (w_db w) i = Some r \<and> ts_Status r = TaskStatusFetched \<longrightarrow> ts_MinioObjectKey r \<in> dom (w_store w))"

lemma page_key_loaded: "loaded db t r \<Longrightarrow> page_key r = minioKey t"
  by (auto simp: loaded_def page_key_def minioKey_def)

lemma page_key_updated [simp]: "page_key (updated_row t r) = page_key r"
  by (simp add: page_key_def)

lemma updated_MarkAs [simp]:
  "ts_Status (updated_row (MarkAsFailed t reason) r) = TaskStatusFailed"
  "ts_Status (updated_row (MarkAsFetched t u k) r) = TaskStatusFetched"
  "ts_MinioObjectKey (updated_row (MarkAsFetched t u k) r) = k"
  "ts_ErrorMessage (updated_row (MarkAsFailed t reason) r) = Some reason"
  "task_ResultObjectKey (MarkAsFailed t reason) = None"
  by (simp_all add: updated_row_def SaveCrawlTaskToSnapshot_def task_mark_defs)

lemma pages_invD:
  "pages_inv w \<Longrightarrow> (q, m) \<in> set (w_parsing w) \<Longrightarrow> find_task (w_db w) (pm_TaskID m) = Some r \<Longrightarrow> page_key r \<in> dom (w_store w)"
  "pages_inv w \<Longrightarrow> find_task (w_db w) i = Some r \<Longrightarrow> ts_Status r = TaskStatusFetched \<Longrightarrow> ts_MinioObjectKey r \<in> dom (w_store w)"
  unfolding pages_inv_def by blast+

lemma pages_invI:
  "db_inv (w_db w) \<Longrightarrow>
   (\<And>q m r. (q, m) \<in> set (w_parsing w) \<Longrightarrow> find_task (w_db w) (pm_TaskID m) = Some r \<Longrightarrow> page_key r \<in> dom (w_store w)) \<Longrightarrow>
   (\<And>i r. find_task (w_db w) i = Some r \<Longrightarrow> ts_Status r = TaskStatusFetched \<Longrightarrow> ts_MinioObjectKey r \<in> dom (w_store w)) \<Longrightarrow>
   pages_inv w"
  unfolding pages_inv_def by blast

lemma pages_inv_put_back:
  assumes "pages_inv w" and "put_back t w res w'"
  shows "pages_inv w'"
proof -
  have d: "dom (w_store w) \<subseteq> dom (w_store w')" and same: "w_db w' = w_db w" "w_parsing w' = w_parsing w"
    using assms(2) by (auto simp: put_back_def)
  show ?thesis
  proof (rule pages_invI, goal_cases)
    case 1
    then show ?case using assms(1) same(1) by (simp add: pages_inv_def)
  qed (use d pages_invD [OF assms(1)] in \<open>unfold same, blast+\<close>)
qed

lemma pages_inv_gave_up:
  assumes inv: "pages_inv w" and g: "gave_up t r w res w'" and l: "loaded (w_db w) t r"
  shows "pages_inv w'"
proof -
  obtain reason where db: "db_inv (w_db w')" and same: "w_store w' = w_store w" "w_parsing w' = w_parsing w"
    and ft: "find_task (w_db w') = (find_task (w_db w))(task_ID t \<mapsto> updated_row (MarkAsFailed t reason) r)"
    using g by (auto simp: gave_up_def)
  have "page_key x \<in> dom (w_store w')"
    if "(q, m) \<in> set (w_parsing w')" "find_task (w_db w') (pm_TaskID m) = Some x" for q m x
    using that ft l same pages_invD(1) [OF inv, of q m]
    by (cases "pm_TaskID m = task_ID t") (auto simp: loaded_def simp del: domIff)
  moreover have "ts_MinioObjectKey x \<in> dom (w_store w')"
    if "find_task (w_db w') k = Some x" "ts_Status x = TaskStatusFetched" for k x
    using that ft same pages_invD(2) [OF inv, of k] by (cases "k = task_ID t") (auto simp del: domIff)
  ultimately show ?thesis using db by (rule_tac pages_invI)
qed

lemma pages_inv_fetched:
  assumes inv: "pages_inv w" and f: "fetched env msg t r w res w'" and l: "loaded (w_db w) t r"
    and i: "task_ID t = cm_TaskID msg"
  shows "pages_inv w'"
proof -
  obtain page :: FetchResult where db: "db_inv (w_db w')"
    and ft: "find_task (w_db w') = (find_task (w_db w))(task_ID t \<mapsto> updated_row (MarkAsFetched t (fr_FinalURL page) (minioKey t)) r)"
    and st: "w_store w' = (w_store w)(minioKey t \<mapsto> (fr_Body page, fr_ContentType page))"
    and ps: "w_parsing w' = w_parsing w \<or>
      (\<exists>m. pm_TaskID m = cm_TaskID msg \<and> w_parsing w' = w_parsing w @ [(fe_parsingQueue env, m)])"
    using f by (auto simp: fetched_def split: if_splits)
  have dom: "dom (w_store w') = insert (minioKey t) (dom (w_store w))" using st by simp
  have key: "page_key r = minioKey t" using page_key_loaded [OF l] .
  have "page_key x \<in> dom (w_store w')"
    if m: "(q, m) \<in> set (w_parsing w')" and x: "find_task (w_db w') (pm_TaskID m) = Some x" for q m x
  proof (cases "pm_TaskID m = task_ID t")
    case True
    then show ?thesis using x ft key dom by auto
  next
    case False
    then have "(q, m) \<in> set (w_parsing w)" using ps m i by auto
    then show ?thesis using pages_invD(1) [OF inv, of q m x] x ft False dom by simp
  qed
  moreover have "ts_MinioObjectKey x \<in> dom (w_store w')"
    if "find_task (w_db w') k = Some x" "ts_Status x = TaskStatusFetched" for k x
    using that ft dom pages_invD(2) [OF inv, of k] by (cases "k = task_ID t") (auto simp del: domIff)
  ultimately show ?thesis using db by (rule_tac pages_invI)
qed

lemma handle_pages_inv: "pages_inv w \<Longrightarrow> pages_inv (snd (fetch_handleMessage env body w))"
proof -
  assume inv: "pages_inv w"
  obtain res w' where h: "fetch_handleMessage env body w = (res, w')" by (metis surj_pair)
  have "db_inv (w_db w)" using inv by (simp add: pages_inv_def)
  from handle_cases [OF this h] show ?thesis
    using h inv pages_inv_put_back pages_inv_gave_up pages_inv_fetched by (metis snd_conv)
qed

interpretation fetcher: inv_machine "\<lambda>w (env, body). snd (fetch_handleMessage env body w)" pages_inv
  by unfold_locales (auto intro: handle_pages_inv)

text \<open>
  The parser finds its pages.  Whatever messages the fetch worker handles, redelivered ones and
  failing calls included, every message on the parsing queue whose task still exists and every task
  marked as fetched has its page in the content store, and the tables stay consistent.
\<close>

theorem fetch_pages_stored:
  assumes "pages_inv w"
  shows "pages_inv (foldl (\<lambda>w (env, body). snd (fetch_handleMessage env body w)) w calls)"
  using assms by (rule fetcher.run_inv)

text \<open>A worker whose calls succeed; the body of the message is the identifier of the task.\<close>

definition sample_url :: "string \<Rightarrow> URL res" where
  "sample_url s = (if s = [] then Inl (ErrText ''empty url'')
     else Inr \<lparr>u_Scheme = ''http'', u_Host = ''h'', u_Hostname = ''h'', u_Fragment = []\<rparr>)"

definition sample_fetch_env :: fetch_env where
  "sample_fetch_env = \<lparr>
     fe_decode = (\<lambda>b. Inr \<lparr>cm_TaskID = b, cm_JobID = ''j1'', cm_URL = ''http://a'', cm_EnqueuedAt = 7, cm_TraceContext = []\<rparr>),
     fe_uuid_ok = ok2, fe_parse_url = sample_url, fe_re_match = (\<lambda>p s. Inr (str_contains s p)),
     fe_get = None, fe_config = None, fe_update = None, fe_robots = (\<lambda>_. Inr True),
     fe_allow = (\<lambda>_. Inr (True, 0)), fe_allow_again = (\<lambda>_. Inr (True, 0)),
     fe_fetch = (\<lambda>a r u. Inr \<lparr>fr_Body = ''page'', fr_FinalURL = u, fr_StatusCode = 200, fr_ContentType = ''text/html''\<rparr>),
     fe_store = None, fe_publish = None, fe_parsingQueue = ''parsing_queue'', fe_now = 30, fe_trace = []\<rparr>"

definition sample_world :: world where
  "sample_world = \<lparr>w_db = sample_db, w_store = Map.empty, w_parsing = [], w_crawl = []\<rparr>"

definition reparsed_world :: world where
  "reparsed_world = \<lparr>w_db = reparsed_db, w_store = Map.empty, w_parsing = [], w_crawl = []\<rparr>"

theorem fetch_pages_stored_witness:
  "pages_inv (foldl (\<lambda>w (env, body). snd (fetch_handleMessage env body w)) sample_world
     [(sample_fetch_env, ''t1''), (sample_fetch_env\<lparr>fe_publish := Some (ErrText ''closed'')\<rparr>, ''t1''), (sample_fetch_env, ''t9'')])"
proof (rule fetch_pages_stored)
  have "ts_Status r = TaskStatusInProgress" if "find_task sample_db i = Some r" for i r
    using find_task_SomeD [OF that] by (simp add: sample_db_def)
  then show "pages_inv sample_world" using sample_db_inv by (fastforce simp: pages_inv_def sample_world_def)
qed

text \<open>
  C9. An acknowledged message is dealt with.  When the task exists and the handler returns no error,
  the task is either marked as failed with its reason and without a result, nothing else changing, or
  marked as fetched with the page stored under its key and one parsing message sent for it; and no
  other row changes.
\<close>

theorem fetch_acknowledged:
  assumes inv: "db_inv (w_db w)" and msg: "fe_decode env body = Inr msg"
    and r: "find_task (w_db w) (cm_TaskID msg) = Some r"
    and up: "fe_get env = None" "fe_config env = None"
    and h: "fetch_handleMessage env body w = (Inr (), w')"
  shows "\<exists>r'. find_task (w_db w') = (find_task (w_db w))(cm_TaskID msg \<mapsto> r') \<and> db_inv (w_db w') \<and>
     (ts_Status r' = TaskStatusFailed \<and> ts_ErrorMessage r' \<noteq> None \<and> ts_ResultObjectKey r' = None \<and>
        w_store w' = w_store w \<and> w_parsing w' = w_parsing w \<or>
      ts_Status r' = TaskStatusFetched \<and> ts_MinioObjectKey r' = page_key r \<and>
        (\<exists>c. w_store w' = (w_store w)(page_key r \<mapsto> c)) \<and>
        (\<exists>m. pm_TaskID m = cm_TaskID msg \<and> w_parsing w' = w_parsing w @ [(fe_parsingQueue env, m)]))"
proof -
  obtain i where i: "NewCrawlTaskID (fe_uuid_ok env) (cm_TaskID msg) = Inr i"
    using h msg by (cases "NewCrawlTaskID (fe_uuid_ok env) (cm_TaskID msg)") (auto simp: fetch_handleMessage_def)
  then have im: "i = cm_TaskID msg" by (auto simp: NewTypedID_eq dest: NewID_InrD)
  have row: "r \<in> set (db_tasks (w_db w))" using find_task_SomeD [OF r] by simp
  obtain j where j: "find_job (w_db w) (ts_JobID r) = Some j"
    using inv row by (cases "find_job (w_db w) (ts_JobID r)") (auto simp: db_inv_def find_job_None_iff)
  have "\<not> is_no_rows e" if "task_Get (fe_uuid_ok env) i (w_db w) = Inl e" for e
    using that r j im by (auto simp: task_Get_def RestoreCrawlTaskWithJobFromSnapshot_def
        RestoreCrawlJobFromSnapshot_def bind_res_def NewTypedID_eq NewID_def ErrEmptyID_def ErrInvalidID_def
        split: sum.splits if_splits option.splits)
  then obtain t where g: "task_Get (fe_uuid_ok env) i (w_db w) = Inr t"
    using h msg i up by (cases "task_Get (fe_uuid_ok env) i (w_db w)")
      (auto simp: fetch_handleMessage_def db_read_def)
  obtain job where l: "loaded (w_db w) t r" "task_ID t = i" "task_Job t = Some job"
    "\<forall>c. js_JobConfigID j = Some c \<longrightarrow> job_JobConfigID job = c"
    using task_Get_loaded [OF g] r j im by (auto simp: loaded_def)
  obtain c where c: "c \<in> set (db_configs (w_db w))" "js_JobConfigID j = Some (cfg_ID c)"
    using db_inv_ref [OF inv] find_job_SomeD [OF j] by blast
  have "\<not> is_no_rows e" if "config_Get (fe_uuid_ok env) (job_JobConfigID job) (w_db w) = Inl e" for e
    using that l(4) c find_config_None_iff [of "w_db w" "cfg_ID c"]
    by (auto simp: config_Get_def RestoreCrawlJobConfigFromSnapshot_def bind_res_def wrap_err_def NewTypedID_eq NewID_def
        ErrEmptyID_def ErrInvalidID_def split: sum.splits if_splits option.splits)
  then obtain config where "process_task env msg config t w = (Inr (), w')"
    using h msg i g up l(3) by (auto simp: fetch_handleMessage_def db_read_def split: sum.splits if_splits)
  from process_task_cases [OF inv l(1) this]
  consider "gave_up t r w (Inr ()) w'" | "fetched env msg t r w (Inr ()) w'" by (auto simp: put_back_def)
  then show ?thesis
  proof cases
    case 1
    then obtain reason where "w_store w' = w_store w" "w_parsing w' = w_parsing w" "db_inv (w_db w')"
      "find_task (w_db w') = (find_task (w_db w))(task_ID t \<mapsto> updated_row (MarkAsFailed t reason) r)"
      by (auto simp: gave_up_def)
    then show ?thesis using l(2) im
      by (intro exI [of _ "updated_row (MarkAsFailed t reason) r"]) simp
  next
    case 2
    then obtain page :: FetchResult and m where "db_inv (w_db w')"
      "find_task (w_db w') = (find_task (w_db w))(task_ID t \<mapsto> updated_row (MarkAsFetched t (fr_FinalURL page) (minioKey t)) r)"
      "w_store w' = (w_store w)(minioKey t \<mapsto> (fr_Body page, fr_ContentType page))"
      "pm_TaskID m = cm_TaskID msg" "w_parsing w' = w_parsing w @ [(fe_parsingQueue env, m)]"
      by (auto simp: fetched_def split: if_splits)
    then show ?thesis using l(2) im page_key_loaded [OF l(1)]
      by (intro exI [of _ "updated_row (MarkAsFetched t (fr_FinalURL page) (minioKey t)) r"]) auto
  qed
qed

lemmas fetch_eval = fetch_handleMessage_def process_task_def fetch_page_def save_page_def fail_task_def
  rate_limit_host_def wait_for_slot_def db_read_def sample_fetch_env_def sample_url_def

lemma sample_get:
  "\<exists>t job. task_Get ok2 ''t1'' reparsed_db = Inr t \<and> task_URL t = ''http://a'' \<and> task_Depth t = 0 \<and>
     task_Job t = Some job \<and> job_JobConfigID job = ''c1'' \<and> task_ID t = ''t1'' \<and> task_JobID t = ''j1''"
  by (simp add: task_Get_def find_task_def find_job_def reparsed_db_def MarkAsParsed_def new_task_def
      SaveCrawlTaskToSnapshot_def SaveCrawlJobToSnapshot_def MarkAsExported_def sample_job_def job_columns_of_join_def
      RestoreCrawlTaskWithJobFromSnapshot_def RestoreCrawlJobFromSnapshot_def task_of_row_def
      NewTypedID_eq NewID_def ok2_def ID_IsEmpty_def)

lemma sample_config_get: "config_Get ok2 ''c1'' reparsed_db = Inr (sample_config ''c1'')"
  by (simp add: config_Get_def find_config_def reparsed_db_def sample_db_def sample_config_def
      RestoreCrawlJobConfigFromSnapshot_def NewTypedID_eq NewID_def ok2_def ID_IsEmpty_def JobTypeOnce_def)

text \<open>
  The instance is a redelivery: the task had been parsed already, and the message takes it back to
  the fetched state and sends it to the parser again.
\<close>

theorem fetch_acknowledged_witness:
  "\<exists>w' r'. fetch_handleMessage sample_fetch_env ''t1'' reparsed_world = (Inr (), w') \<and>
     map_option ts_Status (find_task (w_db reparsed_world) ''t1'') = Some TaskStatusParsed \<and>
     find_task (w_db w') ''t1'' = Some r' \<and> ts_Status r' = TaskStatusFetched \<and> length (w_parsing w') = 1"
proof -
  obtain t job where g: "task_Get ok2 ''t1'' reparsed_db = Inr t" "task_URL t = ''http://a''" "task_Depth t = 0"
    "task_Job t = Some job" "job_JobConfigID job = ''c1''" "task_ID t = ''t1''" "task_JobID t = ''j1''"
    using sample_get by blast
  obtain r where r: "find_task reparsed_db ''t1'' = Some r" "r = SaveCrawlTaskToSnapshot t"
    using task_Get_loaded [OF g(1)] by (auto simp: loaded_def)
  have st: "ts_Status r = TaskStatusParsed" using r(1) by (auto simp: find_task_def reparsed_db_def)
  obtain db' where u: "task_Update (MarkAsFetched t ''http://a'' (minioKey t)) reparsed_db = (Inr (), db')"
    using Update_loaded [OF reparsed_db_inv, of t r "MarkAsFetched t ''http://a'' (minioKey t)"] r g(6) by (auto simp: loaded_def)
  have "\<exists>w'. fetch_handleMessage sample_fetch_env ''t1'' reparsed_world = (Inr (), w') \<and> length (w_parsing w') = 1"
    by (simp add: fetch_eval reparsed_world_def NewTypedID_eq NewID_def g sample_config_get u Validate_def
        ok2_def sample_config_def)
  then obtain w' where w': "fetch_handleMessage sample_fetch_env ''t1'' reparsed_world = (Inr (), w')" "length (w_parsing w') = 1"
    by blast
  obtain r' where "find_task (w_db w') = (find_task (w_db reparsed_world))(''t1'' \<mapsto> r')" and
    o: "w_parsing w' = w_parsing reparsed_world \<or> ts_Status r' = TaskStatusFetched"
    using fetch_acknowledged [OF _ _ _ _ _ w'(1), of
        "\<lparr>cm_TaskID = ''t1'', cm_JobID = ''j1'', cm_URL = ''http://a'', cm_EnqueuedAt = 7, cm_TraceContext = []\<rparr>" r]
      reparsed_db_inv r(1) by (auto simp: reparsed_world_def sample_fetch_env_def)
  moreover from o w'(2) have "ts_Status r' = TaskStatusFetched" by (auto simp: reparsed_world_def)
  ultimately show ?thesis using w' r(1) st by (intro exI [of _ w'] exI [of _ r']) (simp add: reparsed_world_def)
qed

text \<open>
  A refused URL is not fetched.  When the scope rules reject the URL of the task, the robots
  check forbids it, or the rate limiter gives no slot, the outcome does not depend on what the site
  would answer, no page is stored and nothing is sent to the parser.
\<close>

theorem refused_not_fetched:
  assumes "(\<exists>e. Validate (fe_parse_url env) (fe_re_match env) (task_URL t) (task_Depth t) (cfg_Scopes config) = Inl e) \<or>
     cfg_RespectRobotsTxt config \<and> fe_robots env (task_URL t) = Inr False \<or>
     (\<forall>host. \<exists>e. wait_for_slot env host = Inl e)"
  shows "process_task (env\<lparr>fe_fetch := f\<rparr>) msg config t w = process_task env msg config t w \<and>
         w_store (snd (process_task env msg config t w)) = w_store w \<and>
         w_parsing (snd (process_task env msg config t w)) = w_parsing w"
proof -
  have ft: "fail_task (env\<lparr>fe_fetch := f\<rparr>) t reason w = fail_task env t reason w"
    "w_store (snd (fail_task env t reason w)) = w_store w" "w_parsing (snd (fail_task env t reason w)) = w_parsing w" for reason
    by (auto simp: fail_task_def split: prod.splits sum.splits)
  have eqs: "rate_limit_host (env\<lparr>fe_fetch := f\<rparr>) = rate_limit_host env"
    "wait_for_slot (env\<lparr>fe_fetch := f\<rparr>) = wait_for_slot env"
    by (rule ext, simp add: rate_limit_host_def wait_for_slot_def split: sum.splits)+
  from assms consider e where "Validate (fe_parse_url env) (fe_re_match env) (task_URL t) (task_Depth t) (cfg_Scopes config) = Inl e"
    | "cfg_RespectRobotsTxt config \<and> fe_robots env (task_URL t) = Inr False"
    | "\<forall>host. \<exists>e. wait_for_slot env host = Inl e" by blast
  then show ?thesis
  proof cases
    case 3
    have slot: "(case wait_for_slot env h of Inl e \<Rightarrow> (Inl e, w) | Inr _ \<Rightarrow> x) = (Inl (projl (wait_for_slot env h)), w)"
      for h and x :: "unit res \<times> world"
      using 3 by (metis sum.case(1) sum.sel(1))
    show ?thesis by (auto simp: process_task_def ft eqs slot split: sum.splits)
  qed (auto simp: process_task_def ft eqs split: sum.splits)
qed

theorem refused_not_fetched_witness:
  "w_store (snd (process_task (sample_fetch_env\<lparr>fe_allow := \<lambda>_. Inr (False, 5), fe_allow_again := \<lambda>_. Inr (False, 5)\<rparr>)
     \<lparr>cm_TaskID = ''t1'', cm_JobID = ''j1'', cm_URL = ''http://a'', cm_EnqueuedAt = 7, cm_TraceContext = []\<rparr>
     (sample_config ''c1'') (new_task ''t1'' ''j1'' ''http://a'' 7 0) sample_world)) = Map.empty"
proof -
  let ?env = "sample_fetch_env\<lparr>fe_allow := \<lambda>_. Inr (False, 5), fe_allow_again := \<lambda>_. Inr (False, 5)\<rparr>"
  have "\<forall>host. \<exists>e. wait_for_slot ?env host = Inl e" by (simp add: wait_for_slot_def)
  from refused_not_fetched [of ?env _ "sample_config ''c1''", OF disjI2 [OF disjI2 [OF this]]]
  show ?thesis by (simp add: sample_world_def)
qed

end
