(* ===== verification/Go_Floats.thy ===== *)
theory Go_Floats
  imports Go_Prelude "HOL-Library.Word"
begin

text \<open>
  \<^verbatim>\<open>float64\<close> as far as the program uses it: its values, the conversions from and to 64-bit integers.  A finite value
  is the rational number it stands for; arithmetic on floats is rational arithmetic elsewhere, only the
  conversion of an integer rounds here.
\<close>

section \<open>Integers to floats\<close>

text \<open>
  Rounding of a natural number to a \<^verbatim>\<open>float64\<close>: the 53 leading bits are kept, to nearest, ties to even.
\<close>

fun bit_len :: "nat \<Rightarrow> nat" where
  "bit_len n = (if n = 0 then 0 else Suc (bit_len (n div 2)))"

declare bit_len.simps [simp del]

definition round_float64 :: "nat \<Rightarrow> nat" where
  "round_float64 n =
     (let p = 2 ^ (bit_len n - 53); q = n div p; r = n mod p
      in (if p < 2 * r \<or> 2 * r = p \<and> odd q then Suc q else q) * p)"

definition float64_of_int :: "int \<Rightarrow> int" where
  "float64_of_int z = sgn z * int (round_float64 (nat \<bar>z\<bar>))"

section \<open>Floats\<close>

text \<open>The values of the type; \<open>Infinite True\<close> is the positive infinity.\<close>

datatype float64 = Finite rat | NegZero | Infinite bool | NaN

definition float64_of_int64 :: "int \<Rightarrow> float64" where
  "float64_of_int64 z = Finite (of_int (float64_of_int z))"

definition int64_range :: "int \<Rightarrow> bool" where
  "int64_range i \<longleftrightarrow> - (2 ^ 63) \<le> i \<and> i < 2 ^ 63"

definition trunc_rat :: "rat \<Rightarrow> int" where
  "trunc_rat r = (if 0 \<le> r then floor r else ceiling r)"

text \<open>
  \<^verbatim>\<open>int64(f)\<close> drops the fraction; of a value that does not fit, an infinity or a NaN the result is left to the
  implementation, which is the argument \<open>impl\<close>.
\<close>

definition int64_of_float64 :: "(float64 \<Rightarrow> 64 word) \<Rightarrow> float64 \<Rightarrow> int" where
  "int64_of_float64 impl f =
     (case f of
        Finite r \<Rightarrow> if int64_range (trunc_rat r) then trunc_rat r else sint (impl f)
      | NegZero \<Rightarrow> 0
      | _ \<Rightarrow> sint (impl f))"

lemma int64_of_float64_range: "int64_range (int64_of_float64 impl f)"
proof -
  have "int64_range (sint w)" for w :: "64 word"
    using sint_greater_eq [of w] sint_less [of w] by (simp add: int64_range_def)
  moreover have "int64_range 0" by (simp add: int64_range_def)
  ultimately show ?thesis by (auto simp: int64_of_float64_def split: float64.split)
qed

lemma int64_of_float64_finite: "int64_range (trunc_rat r) \<Longrightarrow> int64_of_float64 impl (Finite r) = trunc_rat r"
  by (simp add: int64_of_float64_def)

end
