(* ===== verification/Extraction_DSL.thy ===== *)
theory Extraction_DSL
  imports Scope_Rules Go_Floats
begin

text \<open>
  The extraction DSL of the parser worker, \<^verbatim>\<open>worker/parser_worker.go\<close>: selectors, transforms and
  type conversion.  The HTML library (parsing with charset detection, CSS selection, text, inner
  HTML, attributes), the resolution and printing of URLs, the reading and printing of floats, the integer a float
  out of range is converted to and the hash function are the fields of \<open>dom_env\<close>; a node of the document is a value of the type variable.
  \<^verbatim>\<open>strconv.ParseInt\<close>, \<^verbatim>\<open>strconv.ParseBool\<close> and the three fixed regular expressions are
  defined here.
\<close>

section \<open>Values\<close>

text \<open>
  The dynamic types an extracted \<^verbatim>\<open>any\<close> can have: the branches of the code for the other types
  (\<^verbatim>\<open>int\<close>, \<^verbatim>\<open>float32\<close>, \<^verbatim>\<open>json.Number\<close>, \<^verbatim>\<open>[]any\<close>) are never entered, since extractors
  make strings and lists of strings and transforms make 64-bit integers and floats of them.
\<close>

datatype val = VNil | VStr string | VStrs "string list" | VInt int | VFloat float64 | VBool bool

record 'n dom_env =
  d_parse :: "string \<Rightarrow> 'n res"
  d_find :: "'n \<Rightarrow> string \<Rightarrow> 'n list"
  d_text :: "'n \<Rightarrow> string"
  d_html :: "'n \<Rightarrow> string res"
  d_attr :: "'n \<Rightarrow> string \<Rightarrow> string option"
  d_url_parse :: "string \<Rightarrow> URL res"
  d_url_ref :: "URL \<Rightarrow> string \<Rightarrow> URL res"
  d_url_resolve :: "URL \<Rightarrow> URL \<Rightarrow> URL"
  d_url_string :: "URL \<Rightarrow> string"
  d_float_parse :: "string \<Rightarrow> float64 res"
  d_float_show :: "float64 \<Rightarrow> string"
  d_float_int :: "float64 \<Rightarrow> 64 word"
  d_sha256 :: "string \<Rightarrow> string"

section \<open>Numbers and fixed regular expressions\<close>

definition is_digit :: "char \<Rightarrow> bool" where
  "is_digit c \<longleftrightarrow> c \<in> set ''0123456789''"

definition digit_val :: "char \<Rightarrow> int" where
  "digit_val c = of_char c - 48"

definition read_nat :: "string \<Rightarrow> int" where
  "read_nat s = foldl (\<lambda>a c. 10 * a + digit_val c) 0 s"

text \<open>\<^verbatim>\<open>strconv.ParseInt(s, 10, 64)\<close>.\<close>

definition ParseInt :: "string \<Rightarrow> int res" where
  "ParseInt s =
     (let (neg, ds) = (case s of [] \<Rightarrow> (False, []) | c # cs \<Rightarrow>
            if c = CHR ''-'' then (True, cs) else if c = CHR ''+'' then (False, cs) else (False, s))
      in if ds = [] \<or> \<not> list_all is_digit ds then Inl (ErrText ''invalid syntax'')
         else let n = (if neg then - read_nat ds else read_nat ds)
              in if n < - (2 ^ 63) \<or> 2 ^ 63 - 1 < n then Inl (ErrText ''value out of range'') else Inr n)"

definition ParseBool :: "string \<Rightarrow> bool res" where
  "ParseBool s =
     (if s \<in> set [''1'', ''t'', ''T'', ''TRUE'', ''true'', ''True''] then Inr True
      else if s \<in> set [''0'', ''f'', ''F'', ''FALSE'', ''false'', ''False''] then Inr False
      else Inl (ErrText ''invalid syntax''))"

text \<open>The white space of regular expressions, and every maximal run of it replaced by one space.\<close>

definition is_ws :: "char \<Rightarrow> bool" where
  "is_ws c \<longleftrightarrow> c = CHR '' '' \<or> c = CHR 0x09 \<or> c = CHR 0x0A \<or> c = CHR 0x0C \<or> c = CHR 0x0D"

fun replace_ws :: "bool \<Rightarrow> string \<Rightarrow> string" where
  "replace_ws inside [] = []"
| "replace_ws inside (c # cs) =
     (if is_ws c then (if inside then replace_ws True cs else CHR '' '' # replace_ws True cs)
      else c # replace_ws False cs)"

definition collapse_ws :: "string \<Rightarrow> string" where
  "collapse_ws s = replace_ws False (TrimSpace s)"

text \<open>Deletion of the matches of \<^verbatim>\<open><[^>]*>\<close>: an opening bracket with no closing one stays.\<close>

function strip_tags :: "string \<Rightarrow> string" where
  "strip_tags [] = []"
| "strip_tags (c # cs) =
     (if c = CHR ''<'' \<and> CHR ''>'' \<in> set cs then strip_tags (tl (dropWhile (\<lambda>x. x \<noteq> CHR ''>'') cs))
      else c # strip_tags cs)"
  by pat_completeness auto
termination
proof (relation "measure length")
  fix c :: char and cs :: string
  have "length (tl (dropWhile (\<lambda>x. x \<noteq> CHR ''>'') cs)) \<le> length cs"
    using length_dropWhile_le [of "\<lambda>x. x \<noteq> CHR ''>''" cs] by simp
  then show "(tl (dropWhile (\<lambda>x. x \<noteq> CHR ''>'') cs), c # cs) \<in> measure length" by simp
qed simp_all

text \<open>The leftmost match of \<^verbatim>\<open>[0-9]+\.?[0-9]*\<close>.\<close>

definition price_match :: "string \<Rightarrow> string" where
  "price_match s =
     (let rest = dropWhile (\<lambda>c. \<not> is_digit c) s;
          whole = takeWhile is_digit rest;
          after = dropWhile is_digit rest
      in case after of
           c # cs \<Rightarrow> if c = CHR ''.'' then whole @ c # takeWhile is_digit cs else whole
         | [] \<Rightarrow> whole)"

text \<open>The \<^verbatim>\<open>seen\<close> map of \<^verbatim>\<open>OpUnique\<close>: first occurrences stay, in order.\<close>

fun unique :: "string list \<Rightarrow> string list \<Rightarrow> string list" where
  "unique seen [] = []"
| "unique seen (x # xs) = (if x \<in> set seen then unique seen xs else x # unique (x # seen) xs)"

section \<open>Transforms and types\<close>

definition OpTrim :: TransformOp where "OpTrim = ''trim''"
definition OpLower :: TransformOp where "OpLower = ''lower''"
definition OpUpper :: TransformOp where "OpUpper = ''upper''"
definition OpNormalizeURL :: TransformOp where "OpNormalizeURL = ''normalize_url''"
definition OpUnique :: TransformOp where "OpUnique = ''unique''"
definition OpLimit :: TransformOp where "OpLimit = ''limit''"
definition OpParseInt :: TransformOp where "OpParseInt = ''to_int''"
definition OpParseFloat :: TransformOp where "OpParseFloat = ''to_float''"
definition OpParsePrice :: TransformOp where "OpParsePrice = ''parse_price''"
definition OpHTMLToText :: TransformOp where "OpHTMLToText = ''html_to_text''"
definition OpCollapseWS :: TransformOp where "OpCollapseWS = ''collapse_ws''"
definition OpSHA256 :: TransformOp where "OpSHA256 = ''sha256''"

lemmas op_defs = OpTrim_def OpLower_def OpUpper_def OpNormalizeURL_def OpUnique_def OpLimit_def OpParseInt_def
  OpParseFloat_def OpParsePrice_def OpHTMLToText_def OpCollapseWS_def OpSHA256_def

definition limit_of :: "'n dom_env \<Rightarrow> transform_arg \<Rightarrow> int" where
  "limit_of d arg =
     (case arg of
        ArgInt v \<Rightarrow> v
      | ArgInt64 v \<Rightarrow> v
      | ArgFloat v \<Rightarrow> int64_of_float64 (d_float_int d) (Finite v)
      | ArgNumber s \<Rightarrow> (case ParseInt s of Inr i \<Rightarrow> i | Inl _ \<Rightarrow> - 1)
      | ArgString s \<Rightarrow> (case ParseInt (TrimSpace s) of Inr i \<Rightarrow> i | Inl _ \<Rightarrow> - 1)
      | _ \<Rightarrow> - 1)"

definition transform_string :: "'n dom_env \<Rightarrow> TransformOp \<Rightarrow> string \<Rightarrow> val" where
  "transform_string d op str =
     (if op = OpTrim then VStr (TrimSpace str)
      else if op = OpLower then VStr (ToLower str)
      else if op = OpUpper then VStr (ToUpper str)
      else if op = OpCollapseWS then VStr (collapse_ws str)
      else if op = OpHTMLToText then VStr (strip_tags str)
      else if op = OpNormalizeURL then
        (case d_url_parse d str of Inr u \<Rightarrow> VStr (d_url_string d u) | Inl _ \<Rightarrow> VStr str)
      else if op = OpParseInt then
        (case ParseInt (TrimSpace str) of Inr i \<Rightarrow> VInt i | Inl _ \<Rightarrow> VStr str)
      else if op = OpParseFloat then
        (case d_float_parse d (TrimSpace str) of Inr f \<Rightarrow> VFloat f | Inl _ \<Rightarrow> VStr str)
      else if op = OpParsePrice then
        (if price_match str = [] then VStr str
         else case d_float_parse d (price_match str) of Inr f \<Rightarrow> VFloat f | Inl _ \<Rightarrow> VStr str)
      else if op = OpSHA256 then VStr (d_sha256 d str)
      else VStr str)"

definition applyTransform :: "'n dom_env \<Rightarrow> TransformSpec \<Rightarrow> val \<Rightarrow> val" where
  "applyTransform d spec v =
     (case v of
        VStr str \<Rightarrow> transform_string d (tr_Op spec) str
      | VStrs arr \<Rightarrow>
          if tr_Op spec = OpUnique then VStrs (unique [] arr)
          else if tr_Op spec = OpLimit then
            (let limit = limit_of d (tr_Arg spec)
             in if 0 \<le> limit \<and> limit < int (length arr) then VStrs (take (nat limit) arr) else VStrs arr)
          else VStrs arr
      | _ \<Rightarrow> v)"

definition ValueString :: ValueType where "ValueString = ''string''"
definition ValueInt :: ValueType where "ValueInt = ''int''"
definition ValueFloat :: ValueType where "ValueFloat = ''float''"
definition ValueBool :: ValueType where "ValueBool = ''bool''"
definition ValueURL :: ValueType where "ValueURL = ''url''"
definition ValueJSON :: ValueType where "ValueJSON = ''json''"

lemmas value_type_defs = ValueString_def ValueInt_def ValueFloat_def ValueBool_def ValueURL_def ValueJSON_def

definition show_int :: "int \<Rightarrow> string" where
  "show_int i = (if i < 0 then CHR ''-'' # show_nat (nat (- i)) else show_nat (nat i))"

text \<open>\<^verbatim>\<open>fmt.Sprintf("%v", value)\<close>.\<close>

definition show_val :: "'n dom_env \<Rightarrow> val \<Rightarrow> string" where
  "show_val d v =
     (case v of
        VNil \<Rightarrow> ''<nil>''
      | VStr s \<Rightarrow> s
      | VStrs ss \<Rightarrow> ''['' @ concat (map (\<lambda>(i, s). (if i = 0 then [] else '' '') @ s) (enumerate 0 ss)) @ '']''
      | VInt i \<Rightarrow> show_int i
      | VFloat f \<Rightarrow> d_float_show d f
      | VBool b \<Rightarrow> (if b then ''true'' else ''false''))"

definition convertToType :: "'n dom_env \<Rightarrow> val \<Rightarrow> ValueType \<Rightarrow> val res" where
  "convertToType d v ty =
     (if ty = ValueString then
        (case v of VStrs ss \<Rightarrow> Inr (VStrs ss) | _ \<Rightarrow> Inr (VStr (show_val d v)))
      else if ty = ValueInt then
        (case v of VInt i \<Rightarrow> Inr (VInt i) | VFloat f \<Rightarrow> Inr (VInt (int64_of_float64 (d_float_int d) f))
         | VStr s \<Rightarrow> bind_res (ParseInt (TrimSpace s)) (\<lambda>i. Inr (VInt i)) | _ \<Rightarrow> Inr v)
      else if ty = ValueFloat then
        (case v of VFloat f \<Rightarrow> Inr (VFloat f) | VInt i \<Rightarrow> Inr (VFloat (float64_of_int64 i))
         | VStr s \<Rightarrow> bind_res (d_float_parse d (TrimSpace s)) (\<lambda>f. Inr (VFloat f)) | _ \<Rightarrow> Inr v)
      else if ty = ValueBool then
        (case v of VBool b \<Rightarrow> Inr (VBool b) | VStr s \<Rightarrow> bind_res (ParseBool s) (\<lambda>b. Inr (VBool b)) | _ \<Rightarrow> Inr v)
      else if ty = ValueURL then
        (case v of VStr s \<Rightarrow> bind_res (d_url_parse d s) (\<lambda>_. Inr (VStr s)) | _ \<Rightarrow> Inr v)
      else Inr v)"

section \<open>Extractors\<close>

definition extractElementValue :: "'n dom_env \<Rightarrow> 'n \<Rightarrow> string \<Rightarrow> URL option \<Rightarrow> string" where
  "extractElementValue d node attribute baseURL =
     (let attr = ToLower (TrimSpace attribute)
      in if attr \<in> set [[], ''text'', ''innertext''] then TrimSpace (d_text d node)
         else if attr \<in> set [''html'', ''innerhtml''] then
           (case d_html d node of Inl _ \<Rightarrow> [] | Inr h \<Rightarrow> TrimSpace h)
         else (case d_attr d node attr of
                 None \<Rightarrow> []
               | Some v0 \<Rightarrow>
                   let v = TrimSpace v0
                   in case baseURL of
                        Some base \<Rightarrow> if attr = ''href'' \<or> attr = ''src'' then
                            (case d_url_ref d base v of Inr u \<Rightarrow> d_url_string d u | Inl _ \<Rightarrow> v)
                          else v
                      | None \<Rightarrow> v))"

text \<open>The element of a list an index of either sign names, if there is one.\<close>

definition pick_index :: "int \<Rightarrow> string list \<Rightarrow> string option" where
  "pick_index i results =
     (let idx = (if i < 0 then int (length results) + i else i)
      in if 0 \<le> idx \<and> idx < int (length results) then Some (results ! nat idx) else None)"

text \<open>
  \<^verbatim>\<open>extractWithCSS\<close> on the document and \<^verbatim>\<open>extractWithCSSFromSelection\<close> on a container are the
  same code.
\<close>

definition extractWithCSSFromSelection :: "'n dom_env \<Rightarrow> ExtractorSpec \<Rightarrow> 'n \<Rightarrow> URL option \<Rightarrow> val res" where
  "extractWithCSSFromSelection d spec sel baseURL =
     (case d_find d sel (ex_Selector spec) of
        [] \<Rightarrow> Inl (ErrText (''no elements found for selector: '' @ ex_Selector spec))
      | first # others \<Rightarrow>
          if ex_Multiple spec then
            (let results = filter (\<lambda>s. s \<noteq> []) (map (\<lambda>n. extractElementValue d n (ex_Attribute spec) baseURL) (first # others))
             in case Option.bind (ex_Index spec) (\<lambda>i. pick_index i results) of
                  Some x \<Rightarrow> Inr (VStr x)
                | None \<Rightarrow> Inr (VStrs results))
          else Inr (VStr (extractElementValue d first (ex_Attribute spec) baseURL)))"

definition applyExtractor :: "'n dom_env \<Rightarrow> ExtractorSpec \<Rightarrow> 'n \<Rightarrow> URL option \<Rightarrow> val res" where
  "applyExtractor d spec doc baseURL = extractWithCSSFromSelection d spec doc baseURL"

definition extractFieldFromSelection :: "'n dom_env \<Rightarrow> FieldSpec \<Rightarrow> 'n \<Rightarrow> URL option \<Rightarrow> val res" where
  "extractFieldFromSelection d spec sel baseURL =
     bind_res (extractWithCSSFromSelection d (fs_Extractor spec) sel baseURL) (\<lambda>raw.
       if raw = VNil \<or> raw = VStr [] then Inr VNil
       else convertToType d (foldl (\<lambda>v t. applyTransform d t v) raw (fs_Transforms spec)) (fs_Type spec))"

definition extractField :: "'n dom_env \<Rightarrow> FieldSpec \<Rightarrow> 'n \<Rightarrow> URL option \<Rightarrow> val res" where
  "extractField d spec doc baseURL =
     bind_res (applyExtractor d (fs_Extractor spec) doc baseURL) (\<lambda>raw.
       if raw = VNil \<or> raw = VStr [] then Inr VNil
       else convertToType d (foldl (\<lambda>v t. applyTransform d t v) raw (fs_Transforms spec)) (fs_Type spec))"

type_synonym fields = "string \<rightharpoonup> val"

definition extract_item :: "'n dom_env \<Rightarrow> FieldSpec list \<Rightarrow> 'n \<Rightarrow> URL option \<Rightarrow> fields" where
  "extract_item d specs container baseURL =
     foldl (\<lambda>item spec. case extractFieldFromSelection d spec container baseURL of
              Inl _ \<Rightarrow> item
            | Inr v \<Rightarrow> item(fs_Name spec \<mapsto> v)) Map.empty specs"

definition extractItems :: "'n dom_env \<Rightarrow> ItemsSpec \<Rightarrow> 'n \<Rightarrow> URL option \<Rightarrow> fields list" where
  "extractItems d spec doc baseURL =
     (if ContainerSelector spec = [] then []
      else map (\<lambda>c. extract_item d (items_Fields spec) c baseURL) (d_find d doc (ContainerSelector spec)))"

record extractionResult =
  res_Fields :: fields
  res_Items :: "fields list"

text \<open>A field that fails, required or not, is present with a nil value.\<close>

definition extract_fields :: "'n dom_env \<Rightarrow> FieldSpec list \<Rightarrow> 'n \<Rightarrow> URL option \<Rightarrow> fields" where
  "extract_fields d specs doc baseURL =
     foldl (\<lambda>m spec. m(fs_Name spec \<mapsto> (case extractField d spec doc baseURL of Inl _ \<Rightarrow> VNil | Inr v \<Rightarrow> v))) Map.empty specs"

definition base_url_string :: "CrawlTask \<Rightarrow> string" where
  "base_url_string task =
     (case task_FinalURL task of
        Some u \<Rightarrow> if u \<noteq> [] then u else task_URL task
      | None \<Rightarrow> task_URL task)"

definition extractData :: "'n dom_env \<Rightarrow> CrawlTask \<Rightarrow> ExtractionSpec \<Rightarrow> string \<Rightarrow> extractionResult res" where
  "extractData d task spec htmlContent =
     bind_res (wrap_err ''failed to parse HTML'' (d_parse d htmlContent)) (\<lambda>doc.
       let baseURL = (case d_url_parse d (base_url_string task) of Inr u \<Rightarrow> Some u | Inl _ \<Rightarrow> None)
       in Inr \<lparr>res_Fields = extract_fields d (spec_Fields spec) doc baseURL,
               res_Items = (case spec_Items spec of None \<Rightarrow> [] | Some s \<Rightarrow> extractItems d s doc baseURL)\<rparr>)"

section \<open>Lemmas and properties\<close>

lemma unique_set: "set (unique seen xs) = set xs - set seen"
  by (induction seen xs rule: unique.induct) auto

lemma unique_distinct: "distinct (unique seen xs)"
  by (induction seen xs rule: unique.induct) (auto simp: unique_set)

lemma unique_subseq: "subseq (unique seen xs) xs"
  by (induction seen xs rule: unique.induct) auto

text \<open>Two adjacent white-space characters.\<close>

fun double_ws :: "string \<Rightarrow> bool" where
  "double_ws (a # b # cs) = ((is_ws a \<and> is_ws b) \<or> double_ws (b # cs))"
| "double_ws _ = False"

lemma is_ws_space [simp]: "is_ws (CHR '' '')"
  by (simp add: is_ws_def)

lemma replace_ws_single: "\<not> double_ws (replace_ws b s) \<and> (b \<longrightarrow> replace_ws b s = [] \<or> \<not> is_ws (hd (replace_ws b s)))"
proof (induction b s rule: replace_ws.induct)
  case (2 b c cs)
  show ?case
  proof (cases "is_ws c")
    case True
    then show ?thesis using 2 by (cases b; cases "replace_ws True cs") auto
  next
    case False
    then show ?thesis using 2 by (cases "replace_ws False cs") auto
  qed
qed simp

lemma replace_ws_chars: "c \<in> set (replace_ws b s) \<Longrightarrow> is_ws c \<Longrightarrow> c = CHR '' ''"
  by (induction b s rule: replace_ws.induct) (auto split: if_splits)

lemma replace_ws_words: "filter (\<lambda>c. \<not> is_ws c) (replace_ws b s) = filter (\<lambda>c. \<not> is_ws c) s"
  by (induction b s rule: replace_ws.induct) auto

lemma set_tl_dropWhile: "set (tl (dropWhile P xs)) \<subseteq> set xs"
  by (induction xs) auto

lemma strip_tags_no_tag: "\<not> (\<exists>a b c. strip_tags s = a @ ''<'' @ b @ ''>'' @ c)"
proof (induction s rule: strip_tags.induct)
  case (2 c cs)
  have sub: "set (strip_tags xs) \<subseteq> set xs" for xs
  proof (induction xs rule: strip_tags.induct)
    case (2 c cs)
    then show ?case using set_tl_dropWhile [of "\<lambda>x. x \<noteq> CHR ''>''" cs] by auto
  qed simp
  show ?case
  proof (cases "c = CHR ''<'' \<and> CHR ''>'' \<in> set cs")
    case True
    then show ?thesis using 2(1) by simp
  next
    case False
    have "\<not> (\<exists>a b c'. c # strip_tags cs = a @ ''<'' @ b @ ''>'' @ c')"
    proof
      assume "\<exists>a b c'. c # strip_tags cs = a @ ''<'' @ b @ ''>'' @ c'"
      then obtain a b c' where e: "c # strip_tags cs = a @ ''<'' @ b @ ''>'' @ c'" by blast
      show False
      proof (cases a)
        case Nil
        then have "c = CHR ''<''" "strip_tags cs = b @ ''>'' @ c'" using e by simp_all
        then have "CHR ''>'' \<in> set (strip_tags cs)" by simp
        then show False using False \<open>c = _\<close> sub by blast
      next
        case (Cons x a')
        then show False using e 2(2) [OF False] by auto
      qed
    qed
    then show ?thesis unfolding strip_tags.simps(2) if_not_P [OF False] .
  qed
qed simp

text \<open>
  The text transforms do what they are named for: collapsing leaves no two adjacent white-space
  characters and only plain spaces, and keeps all other characters in order; removing tags leaves no
  tag; making a list unique keeps the first occurrence of each element in order; and a limit is a
  prefix no longer than the limit.
\<close>

theorem transforms_correct:
  "\<not> double_ws (collapse_ws s) \<and> (\<forall>c \<in> set (collapse_ws s). is_ws c \<longrightarrow> c = CHR '' '') \<and>
   filter (\<lambda>c. \<not> is_ws c) (collapse_ws s) = filter (\<lambda>c. \<not> is_ws c) (TrimSpace s) \<and>
   \<not> (\<exists>a b c. strip_tags s = a @ ''<'' @ b @ ''>'' @ c) \<and>
   (\<exists>u. applyTransform d \<lparr>tr_Op = OpUnique, tr_Arg = arg\<rparr> (VStrs xs) = VStrs u \<and> distinct u \<and> set u = set xs \<and> subseq u xs) \<and>
   (\<exists>l. applyTransform d \<lparr>tr_Op = OpLimit, tr_Arg = arg\<rparr> (VStrs xs) = VStrs l \<and> prefix l xs \<and>
        (0 \<le> limit_of d arg \<longrightarrow> int (length l) \<le> limit_of d arg))"
proof -
  have "\<not> double_ws (collapse_ws s)" "\<forall>c \<in> set (collapse_ws s). is_ws c \<longrightarrow> c = CHR '' ''"
    "filter (\<lambda>c. \<not> is_ws c) (collapse_ws s) = filter (\<lambda>c. \<not> is_ws c) (TrimSpace s)"
    unfolding collapse_ws_def using replace_ws_single replace_ws_chars replace_ws_words by blast+
  moreover have "\<exists>u. applyTransform d \<lparr>tr_Op = OpUnique, tr_Arg = arg\<rparr> (VStrs xs) = VStrs u \<and>
      distinct u \<and> set u = set xs \<and> subseq u xs"
    using unique_distinct unique_set unique_subseq by (intro exI [of _ "unique [] xs"]) (simp add: applyTransform_def)
  moreover have "\<exists>l. applyTransform d \<lparr>tr_Op = OpLimit, tr_Arg = arg\<rparr> (VStrs xs) = VStrs l \<and> prefix l xs \<and>
        (0 \<le> limit_of d arg \<longrightarrow> int (length l) \<le> limit_of d arg)"
    by (auto simp: applyTransform_def Let_def op_defs take_is_prefix)
  ultimately show ?thesis using strip_tags_no_tag [of s] by blast
qed

text \<open>A document that is one link, its text being the address.\<close>

definition sample_dom :: "string dom_env" where
  "sample_dom = \<lparr>d_parse = Inr, d_find = (\<lambda>n sel. [n]), d_text = id, d_html = Inr, d_attr = (\<lambda>n a. Some n),
     d_url_parse = (\<lambda>s. if s = [] then Inl (ErrText ''empty url'')
        else Inr \<lparr>u_Scheme = ''http'', u_Host = s, u_Hostname = s, u_Fragment = []\<rparr>),
     d_url_ref = (\<lambda>b s. Inr \<lparr>u_Scheme = ''http'', u_Host = s, u_Hostname = s, u_Fragment = []\<rparr>),
     d_url_resolve = (\<lambda>b u. u), d_url_string = u_Host, d_float_parse = (\<lambda>s. Inl (ErrText ''invalid syntax'')),
     d_float_show = (\<lambda>_. []), d_float_int = (\<lambda>_. - (2 ^ 63)), d_sha256 = id\<rparr>"

theorem transforms_correct_witness:
  "strip_tags ''<b>x</b> < y'' = ''x < y'' \<and> \<not> double_ws (collapse_ws ''a  b'') \<and>
   (\<exists>u. applyTransform sample_dom \<lparr>tr_Op = OpUnique, tr_Arg = ArgNone\<rparr> (VStrs [''a'', ''b'', ''a'']) = VStrs u \<and> distinct u)"
  using transforms_correct [of "''a  b''" sample_dom ArgNone "[''a'', ''b'', ''a'']"] by auto

text \<open>Values that are not lists; transforms keep them so.\<close>

definition scalar :: "val \<Rightarrow> bool" where
  "scalar v \<longleftrightarrow> (\<exists>s. v = VStr s) \<or> (\<exists>i. v = VInt i) \<or> (\<exists>f. v = VFloat f)"

lemma transform_string_scalar: "scalar (transform_string d op s)"
  by (auto simp: transform_string_def scalar_def split: sum.splits)

lemma applyTransform_scalar: "scalar v \<Longrightarrow> scalar (applyTransform d t v)"
  using transform_string_scalar [of d "tr_Op t"] by (cases v) (auto simp: applyTransform_def scalar_def)

lemma transforms_scalar: "scalar v \<Longrightarrow> scalar (foldl (\<lambda>v t. applyTransform d t v) v ts)"
  by (induction ts arbitrary: v) (auto intro: applyTransform_scalar)

lemma value_types_distinct [simp]:
  "ValueInt \<noteq> ValueString" "ValueFloat \<noteq> ValueString" "ValueFloat \<noteq> ValueInt" "ValueBool \<noteq> ValueString"
  "ValueBool \<noteq> ValueInt" "ValueBool \<noteq> ValueFloat" "ValueURL \<noteq> ValueString" "ValueURL \<noteq> ValueInt"
  "ValueURL \<noteq> ValueFloat" "ValueURL \<noteq> ValueBool"
  by (simp_all add: value_type_defs)

lemmas value_types_distinct' [simp] = value_types_distinct [symmetric]

text \<open>Integers are printed and read back.\<close>

lemma digit_char: "k < 10 \<Longrightarrow> is_digit (char_of (48 + k)) \<and> digit_val (char_of (48 + k)) = int k"
proof -
  assume "k < 10"
  then have "k \<in> {0, 1, 2, 3, 4, 5, 6, 7, 8, 9}" by auto
  then show ?thesis by (elim insertE emptyE; hypsubst; code_simp)
qed

lemma show_nat_read: "list_all is_digit (show_nat n) \<and> show_nat n \<noteq> [] \<and> read_nat (show_nat n) = int n"
proof (induction n rule: show_nat.induct)
  case (1 n)
  show ?case
  proof (cases "n < 10")
    case True
    then show ?thesis using digit_char [of n] by (subst (1 2 3) show_nat.simps) (simp add: read_nat_def)
  next
    case False
    have "show_nat n = show_nat (n div 10) @ [char_of (48 + n mod 10)]" using False by (subst show_nat.simps) simp
    moreover have "10 * int (n div 10) + int (n mod 10) = int n" by (metis div_mult_mod_eq mult.commute of_nat_add of_nat_mult of_nat_numeral)
    ultimately show ?thesis using 1 [OF False] digit_char [of "n mod 10"] False by (simp add: read_nat_def)
  qed
qed

lemma show_int_read:
  assumes "int64_range i"
  shows "ParseInt (show_int i) = Inr i"
proof (cases "i < 0")
  case True
  then show ?thesis using show_nat_read [of "nat (- i)"] assms
    by (simp add: ParseInt_def show_int_def int64_range_def)
next
  case False
  note n = show_nat_read [of "nat i"]
  then obtain c cs where c: "show_nat (nat i) = c # cs" "is_digit c" by (cases "show_nat (nat i)") auto
  then have "c \<noteq> CHR ''-''" "c \<noteq> CHR ''+''" by (auto simp: is_digit_def)
  then show ?thesis using n c False assms by (simp add: ParseInt_def show_int_def int64_range_def)
qed

lemma ParseInt_range: "ParseInt s = Inr i \<Longrightarrow> int64_range i"
  by (auto simp: ParseInt_def int64_range_def Let_def split: if_splits prod.splits)

text \<open>The integers in a value are 64-bit integers; only three transforms make a number of a string.\<close>

definition int64_val :: "val \<Rightarrow> bool" where
  "int64_val v \<longleftrightarrow> (\<forall>i. v = VInt i \<longrightarrow> int64_range i)"

definition numeric_ops :: "TransformOp set" where
  "numeric_ops = {OpParseInt, OpParseFloat, OpParsePrice}"

definition transformed :: "'n dom_env \<Rightarrow> FieldSpec \<Rightarrow> string \<Rightarrow> val" where
  "transformed d spec s = foldl (\<lambda>v t. applyTransform d t v) (VStr s) (fs_Transforms spec)"

lemma applyTransform_int64: "int64_val v \<Longrightarrow> int64_val (applyTransform d t v)"
  by (cases v) (auto simp: applyTransform_def transform_string_def int64_val_def Let_def ParseInt_range split: sum.splits)

lemma applyTransform_string: "tr_Op t \<notin> numeric_ops \<Longrightarrow> \<exists>s'. applyTransform d t (VStr s) = VStr s'"
  by (auto simp: applyTransform_def transform_string_def numeric_ops_def split: sum.splits)

lemma transforms_int64: "int64_val v \<Longrightarrow> int64_val (foldl (\<lambda>v t. applyTransform d t v) v ts)"
  by (induction ts arbitrary: v) (auto intro: applyTransform_int64)

lemma transforms_string:
  "(\<forall>t \<in> set ts. tr_Op t \<notin> numeric_ops) \<Longrightarrow> \<exists>s'. foldl (\<lambda>v t. applyTransform d t v) (VStr s) ts = VStr s'"
proof (induction ts arbitrary: s)
  case (Cons t ts)
  then show ?case using applyTransform_string [of t d s] by auto
qed simp

text \<open>
  What a field of each type holds, given the transformed value \<open>x\<close> of its element.  The text of a field that is
  not of one of the numeric types, nor a boolean or URL, is the value itself.
\<close>

definition has_type :: "'n dom_env \<Rightarrow> ValueType \<Rightarrow> val \<Rightarrow> val \<Rightarrow> bool" where
  "has_type d ty x v \<longleftrightarrow>
     (ty = ValueString \<longrightarrow> (\<exists>t. v = VStr t \<and>
        (x = VStr t \<or> (\<exists>i. x = VInt i \<and> ParseInt t = Inr i) \<or> (\<exists>f. x = VFloat f \<and> t = d_float_show d f)))) \<and>
     (ty = ValueInt \<longrightarrow> (\<exists>i. v = VInt i \<and> int64_range i \<and>
        (x = VInt i \<or> (\<exists>s. x = VStr s \<and> ParseInt (TrimSpace s) = Inr i) \<or>
         (\<exists>f. x = VFloat f \<and> (\<forall>r. f = Finite r \<and> int64_range (trunc_rat r) \<longrightarrow> i = trunc_rat r))))) \<and>
     (ty = ValueFloat \<longrightarrow> (\<exists>f. v = VFloat f \<and>
        (x = VFloat f \<or> (\<exists>s. x = VStr s \<and> d_float_parse d (TrimSpace s) = Inr f) \<or>
         (\<exists>i. x = VInt i \<and> f = Finite (of_int (float64_of_int i)))))) \<and>
     (ty = ValueBool \<longrightarrow> (\<exists>s b. x = VStr s \<and> v = VBool b \<and> ParseBool s = Inr b) \<or> v = x \<and> (\<forall>s. x \<noteq> VStr s)) \<and>
     (ty = ValueURL \<longrightarrow> v = x \<and> (\<forall>s. x = VStr s \<longrightarrow> (\<exists>u. d_url_parse d s = Inr u))) \<and>
     (ty \<notin> {ValueString, ValueInt, ValueFloat, ValueBool, ValueURL} \<longrightarrow> v = x)"

text \<open>When the text of an element cannot be read as the type.\<close>

definition unreadable :: "'n dom_env \<Rightarrow> ValueType \<Rightarrow> string \<Rightarrow> bool" where
  "unreadable d ty s \<longleftrightarrow>
     ty = ValueInt \<and> isl (ParseInt (TrimSpace s)) \<or> ty = ValueFloat \<and> isl (d_float_parse d (TrimSpace s)) \<or>
     ty = ValueBool \<and> isl (ParseBool s) \<or> ty = ValueURL \<and> isl (d_url_parse d s)"

lemma convertToType_typed: "scalar x \<Longrightarrow> int64_val x \<Longrightarrow> convertToType d x ty = Inr v \<Longrightarrow> has_type d ty x v"
  by (cases x)
    (auto simp: scalar_def int64_val_def convertToType_def has_type_def bind_res_Inr_iff show_val_def show_int_read ParseInt_range
      int64_of_float64_range float64_of_int64_def int64_of_float64_finite split: if_splits)

lemma convertToType_error:
  "scalar x \<Longrightarrow> (\<exists>e. convertToType d x ty = Inl e) \<longleftrightarrow> (\<exists>s. x = VStr s \<and> unreadable d ty s)"
  by (cases x) (auto simp: scalar_def convertToType_def unreadable_def bind_res_def isl_def split: sum.splits)

text \<open>
  C36. A field that takes a single element has the type its specification asks for.  Without an element it is an
  error; an empty text is a nil value; else it is an error exactly when the transformed text cannot be
  read as the type, and otherwise it holds the text itself or the decimal or printed form of a number, the
  64-bit integer or the float the text is read as or the number is converted to, the boolean, or a text
  that is a URL.  Only the numeric transforms make a number of the text, so that without them a boolean or
  URL field holds nothing else.
\<close>

theorem extractField_typed:
  assumes "\<not> ex_Multiple (fs_Extractor spec)"
  shows "case d_find d doc (ex_Selector (fs_Extractor spec)) of
       [] \<Rightarrow> isl (extractField d spec doc baseURL)
     | n # _ \<Rightarrow>
         (let s = extractElementValue d n (ex_Attribute (fs_Extractor spec)) baseURL; x = transformed d spec s
          in if s = [] then extractField d spec doc baseURL = Inr VNil
             else (case extractField d spec doc baseURL of
                     Inl e \<Rightarrow> \<exists>t. x = VStr t \<and> unreadable d (fs_Type spec) t
                   | Inr v \<Rightarrow> has_type d (fs_Type spec) x v \<and> \<not> (\<exists>t. x = VStr t \<and> unreadable d (fs_Type spec) t)) \<and>
                  ((\<forall>t \<in> set (fs_Transforms spec). tr_Op t \<notin> numeric_ops) \<longrightarrow> (\<exists>t. x = VStr t)))"
proof (cases "d_find d doc (ex_Selector (fs_Extractor spec))")
  case Nil
  then show ?thesis by (simp add: extractField_def applyExtractor_def extractWithCSSFromSelection_def bind_res_def)
next
  case (Cons n ns)
  let ?s = "extractElementValue d n (ex_Attribute (fs_Extractor spec)) baseURL"
  let ?x = "transformed d spec ?s"
  have f: "extractField d spec doc baseURL = (if ?s = [] then Inr VNil else convertToType d ?x (fs_Type spec))"
    using Cons assms by (simp add: extractField_def applyExtractor_def extractWithCSSFromSelection_def bind_res_def transformed_def)
  have x: "scalar ?x" "int64_val ?x" unfolding transformed_def
    by (rule transforms_scalar, simp add: scalar_def) (rule transforms_int64, simp add: int64_val_def)
  have "(\<forall>t \<in> set (fs_Transforms spec). tr_Op t \<notin> numeric_ops) \<longrightarrow> (\<exists>t. ?x = VStr t)"
    unfolding transformed_def using transforms_string by blast
  moreover have "case convertToType d ?x (fs_Type spec) of
                     Inl e \<Rightarrow> \<exists>t. ?x = VStr t \<and> unreadable d (fs_Type spec) t
                   | Inr v \<Rightarrow> has_type d (fs_Type spec) ?x v \<and> \<not> (\<exists>t. ?x = VStr t \<and> unreadable d (fs_Type spec) t)"
    using convertToType_typed [OF x] convertToType_error [OF x(1), of d "fs_Type spec"]
    by (cases "convertToType d ?x (fs_Type spec)") auto
  ultimately show ?thesis using Cons f by (auto simp: Let_def)
qed

definition sample_field :: "string \<Rightarrow> FieldSpec" where
  "sample_field ty = \<lparr>fs_Name = ''n'', fs_Type = ty, fs_Required = True,
      fs_Extractor = \<lparr>ex_Selector = ''p'', ex_Attribute = ''text'', ex_Multiple = False, ex_Index = None\<rparr>,
      fs_Transforms = [\<lparr>tr_Op = OpTrim, tr_Arg = ArgNone\<rparr>]\<rparr>"

theorem extractField_typed_witness:
  "extractField sample_dom (sample_field ValueInt) '' 42 '' None = Inr (VInt 42) \<and>
   isl (extractField sample_dom (sample_field ValueBool) '' 42 '' None)"
proof -
  have t: "TrimSpace '' 42 '' = ''42''" "TrimSpace ''42'' = ''42''" "TrimSpace ''text'' = ''text''"
    by (simp_all add: TrimSpace_def is_space_def of_char_def)
  have "ToLower ''text'' = ''text''" by (simp add: ToLower_def lower_char_def)
  then have s: "extractElementValue sample_dom '' 42 '' ''text'' None = ''42''"
    by (simp add: extractElementValue_def sample_dom_def t)
  have x: "transformed sample_dom (sample_field ty) ''42'' = VStr ''42''" for ty
    by (simp add: transformed_def sample_field_def applyTransform_def transform_string_def t)
  have p: "ParseInt ''42'' = Inr 42" by (simp add: ParseInt_def is_digit_def read_nat_def digit_val_def of_char_def)
  have b: "isl (ParseBool ''42'')" by (simp add: ParseBool_def)
  have d: "d_find sample_dom '' 42 '' (ex_Selector (fs_Extractor (sample_field ty))) = ['' 42 '']"
    "ex_Attribute (fs_Extractor (sample_field ty)) = ''text''" "fs_Type (sample_field ty) = ty"
    "\<not> ex_Multiple (fs_Extractor (sample_field ty))" for ty by (simp_all add: sample_dom_def sample_field_def)
  have T: "case extractField sample_dom (sample_field ty) '' 42 '' None of
                     Inl e \<Rightarrow> unreadable sample_dom ty ''42''
                   | Inr v \<Rightarrow> has_type sample_dom ty (VStr ''42'') v \<and> \<not> unreadable sample_dom ty ''42''" for ty
    using extractField_typed [OF d(4) [of ty], of sample_dom "'' 42 ''" None] by (simp add: d s x Let_def split: sum.splits)
  have "unreadable sample_dom ValueBool ''42''" "\<not> unreadable sample_dom ValueInt ''42''" using b p by (simp_all add: unreadable_def t)
  moreover have "v = VInt 42" if "has_type sample_dom ValueInt (VStr ''42'') v" for v
    using that p t by (auto simp: has_type_def)
  ultimately show ?thesis using T [of ValueInt] T [of ValueBool] by (auto split: sum.splits)
qed

end
