(* ===== verification/Queue_Routing.thy ===== *)
theory Queue_Routing
  imports Domain_Models
begin

text \<open>
  Routing of a task to a crawl queue, \<^verbatim>\<open>internal/domain/crawl/models/queue_routing.go\<close>.
  The random source is an argument: \<open>rnd n\<close> is what \<^verbatim>\<open>rand.Intn(n)\<close> returns, a number
  below \<open>n\<close>.  \<^verbatim>\<open>rand.Intn(0)\<close> panics, so the function returns a value of a type with a panic
  branch.  The total weight is a 32-bit sum, which wraps around.
\<close>

section \<open>The model\<close>

datatype 'a outcome = Returns 'a | Panics

fun usable_weights :: "QueueWeight list \<Rightarrow> (string \<times> u32) list" where
  "usable_weights [] = []"
| "usable_weights (w # ws) =
     (if qw_Weight w = 0 then usable_weights ws
      else (qw_Queue w, qw_Weight w) # usable_weights ws)"

fun total_weight :: "(string \<times> u32) list \<Rightarrow> u32 \<Rightarrow> u32" where
  "total_weight [] acc = acc"
| "total_weight ((q, w) # cs) acc = total_weight cs (acc + w)"

text \<open>
  The scan over the candidates: the first whose weight exceeds what is left of the drawn number;
  the last candidate when the scan runs off the end.
\<close>

fun pick :: "(string \<times> u32) list \<Rightarrow> u32 \<Rightarrow> string \<Rightarrow> string" where
  "pick [] r dflt = dflt"
| "pick ((q, w) # cs) r dflt = (if r < w then q else pick cs (r - w) dflt)"

definition uniform_queue :: "(nat \<Rightarrow> nat) \<Rightarrow> string list \<Rightarrow> string outcome" where
  "uniform_queue rnd available =
     (if available = [] then Returns []
      else if length available = 1 then Returns (available ! 0)
      else Returns (available ! rnd (length available)))"

definition SelectCrawlQueue :: "(nat \<Rightarrow> nat) \<Rightarrow> string list \<Rightarrow> QueueWeight list \<Rightarrow> string outcome" where
  "SelectCrawlQueue rnd available weights =
     (let candidates = usable_weights weights;
          total = total_weight candidates 0
      in if weights \<noteq> [] \<and> length candidates = 1 then Returns (fst (candidates ! 0))
         else if weights \<noteq> [] \<and> length candidates > 1 then
           (if unat total = 0 then Panics
            else Returns (pick candidates (of_nat (rnd (unat total))) (fst (last candidates))))
         else uniform_queue rnd available)"

definition weight_sum :: "(string \<times> u32) list \<Rightarrow> nat" where
  "weight_sum cs = (\<Sum>(q, w) \<leftarrow> cs. unat w)"

definition weight_of :: "(string \<times> u32) list \<Rightarrow> string \<Rightarrow> nat" where
  "weight_of cs q = (\<Sum>(q', w) \<leftarrow> cs. if q' = q then unat w else 0)"

section \<open>Lemmas\<close>

lemma usable_weights_iff:
  "(q, w) \<in> set (usable_weights ws) \<longleftrightarrow>
     w \<noteq> 0 \<and> (\<exists>x \<in> set ws. qw_Queue x = q \<and> qw_Weight x = w)"
  by (induction ws) auto

lemma weight_sum_simps [simp]:
  "weight_sum [] = 0"
  "weight_sum ((q, w) # cs) = unat w + weight_sum cs"
  by (simp_all add: weight_sum_def)

lemma weight_of_simps [simp]:
  "weight_of [] q = 0"
  "weight_of ((q', w) # cs) q = (if q' = q then unat w else 0) + weight_of cs q"
  by (simp_all add: weight_of_def)

lemma total_weight_wraps: "total_weight cs acc = acc + of_nat (weight_sum cs)"
  by (induction cs acc rule: total_weight.induct) simp_all

lemma unat_total_weight:
  assumes "weight_sum cs < 2 ^ 32"
  shows "unat (total_weight cs 0) = weight_sum cs"
  using assms by (simp add: total_weight_wraps unat_of_nat)

lemma pick_in_candidates: "cs \<noteq> [] \<Longrightarrow> pick cs r (fst (last cs)) \<in> fst ` set cs"
proof (induction cs r "fst (last cs)" rule: pick.induct)
  case (2 q w cs r)
  then show ?case
    by (cases "cs = []") (auto simp: image_iff)
qed simp

text \<open>
  Drawing every number below the total weight once, each queue is picked as many times as its
  weight says.  The draws are split at the first candidate's weight.
\<close>

lemma pick_count:
  assumes "weight_sum cs < 2 ^ 32"
  shows "card {r. r < weight_sum cs \<and> pick cs (of_nat r) d = q} = weight_of cs q"
  using assms
proof (induction cs)
  case Nil
  then show ?case by simp
next
  case (Cons c cs)
  obtain q' w where c: "c = (q', w)" by (cases c)
  let ?n = "unat w" and ?m = "weight_sum cs"
  have nm: "?n + ?m < 2 ^ 32" using Cons.prems c by simp
  have lt: "of_nat r < w \<longleftrightarrow> r < ?n" if "r < ?n + ?m" for r
    using that nm by (simp add: word_less_nat_alt unat_of_nat)
  let ?S = "{r. r < weight_sum (c # cs) \<and> pick (c # cs) (of_nat r) d = q}"
  have split: "?S = {r. r < ?n \<and> q' = q} \<union> (\<lambda>r. ?n + r) ` {r. r < ?m \<and> pick cs (of_nat r) d = q}"
    (is "_ = ?A \<union> ?B")
  proof (rule set_eqI, rule iffI)
    fix r assume r: "r \<in> ?S"
    then have lim: "r < ?n + ?m" using c by simp
    show "r \<in> ?A \<union> ?B"
    proof (cases "r < ?n")
      case True
      then show ?thesis using r c lt [OF lim] by simp
    next
      case False
      then have "(of_nat r :: u32) - w = of_nat (r - ?n)" by (simp add: of_nat_diff)
      then have "r - ?n < ?m \<and> pick cs (of_nat (r - ?n)) d = q"
        using r c lt [OF lim] lim False by auto
      moreover have "r = ?n + (r - ?n)" using False by simp
      ultimately show ?thesis by blast
    qed
  next
    fix r assume "r \<in> ?A \<union> ?B"
    then show "r \<in> ?S"
    proof
      assume "r \<in> ?A"
      then show ?thesis using c lt [of r] by simp
    next
      assume "r \<in> ?B"
      then obtain x where x: "r = ?n + x" "x < ?m" "pick cs (of_nat x) d = q" by blast
      then have "\<not> of_nat r < w" using lt [of r] by simp
      with x c show ?thesis by simp
    qed
  qed
  have disj: "?A \<inter> ?B = {}" by auto
  have A: "card ?A = (if q' = q then ?n else 0)" by simp
  have B: "card ?B = weight_of cs q"
    using Cons.IH nm by (simp add: card_image)
  have "card ?S = card ?A + card ?B"
    unfolding split by (rule card_Un_disjoint) (use disj in auto)
  then show ?case using A B c by simp
qed

section \<open>Properties\<close>

text \<open>
  Weighted routing is exact: when at least two of the job's queues have a positive weight and
  the weights do not overflow 32 bits, then over all equally likely draws of \<^verbatim>\<open>rand.Intn\<close> each
  queue is selected for exactly as many draws as its weight, so its probability is its share of the
  total weight.
\<close>

theorem SelectCrawlQueue_distribution:
  assumes "1 < length (usable_weights weights)"
    and "weight_sum (usable_weights weights) < 2 ^ 32"
  shows "card {r. r < weight_sum (usable_weights weights) \<and>
                  SelectCrawlQueue (\<lambda>_. r) available weights = Returns q}
         = weight_of (usable_weights weights) q"
proof -
  let ?cs = "usable_weights weights"
  have ne: "weights \<noteq> []" using assms(1) by auto
  have tot: "unat (total_weight ?cs 0) = weight_sum ?cs"
    using assms(2) by (rule unat_total_weight)
  obtain q0 w0 cs where cs: "?cs = (q0, w0) # cs" using assms(1) by (cases ?cs) auto
  then have "w0 \<noteq> 0" using usable_weights_iff [of q0 w0 weights] by simp
  then have pos: "0 < weight_sum ?cs" using cs by (simp add: unat_gt_0)
  have "SelectCrawlQueue (\<lambda>_. r) available weights = Returns q \<longleftrightarrow>
        pick ?cs (of_nat r) (fst (last ?cs)) = q" for r
    using assms(1) ne pos tot by (simp add: SelectCrawlQueue_def Let_def)
  then show ?thesis using pick_count [OF assms(2)] by simp
qed

theorem SelectCrawlQueue_distribution_witness:
  "card {r. r < weight_sum (usable_weights [\<lparr>qw_Queue = ''eu'', qw_Weight = 3\<rparr>,
              \<lparr>qw_Queue = ''off'', qw_Weight = 0\<rparr>, \<lparr>qw_Queue = ''us'', qw_Weight = 1\<rparr>]) \<and>
            SelectCrawlQueue (\<lambda>_. r) [] [\<lparr>qw_Queue = ''eu'', qw_Weight = 3\<rparr>,
              \<lparr>qw_Queue = ''off'', qw_Weight = 0\<rparr>, \<lparr>qw_Queue = ''us'', qw_Weight = 1\<rparr>]
            = Returns ''eu''} = 3"
  by (subst SelectCrawlQueue_distribution) simp_all

text \<open>
  A queue the job excludes is never used: with some positive weight, and a total that fits 32
  bits, the result is a queue listed with a non-zero weight, whatever the random source returns.  But
  the total is a 32-bit sum that nothing bounds: with two or more positive weights the call panics
  exactly when the sum of the weights is a multiple of \<open>2 ^ 32\<close>.
\<close>

theorem SelectCrawlQueue_respects_weights:
  assumes "\<exists>w \<in> set weights. qw_Weight w \<noteq> 0"
  shows "(weight_sum (usable_weights weights) < 2 ^ 32 \<longrightarrow>
            (\<exists>w \<in> set weights. qw_Weight w \<noteq> 0 \<and>
               SelectCrawlQueue rnd available weights = Returns (qw_Queue w))) \<and>
         (SelectCrawlQueue rnd available weights = Panics \<longleftrightarrow>
            1 < length (usable_weights weights) \<and> 2 ^ 32 dvd weight_sum (usable_weights weights))"
proof
  let ?cs = "usable_weights weights"
  obtain w where "w \<in> set weights" "qw_Weight w \<noteq> 0" using assms by blast
  then have in_cs: "(qw_Queue w, qw_Weight w) \<in> set ?cs" by (auto simp: usable_weights_iff)
  then have ne: "?cs \<noteq> []" "weights \<noteq> []" by auto
  have zero: "unat (total_weight ?cs 0) = 0 \<longleftrightarrow> 2 ^ 32 dvd weight_sum ?cs"
    by (simp add: total_weight_wraps unat_of_nat dvd_eq_mod_eq_0)
  show panics: "SelectCrawlQueue rnd available weights = Panics \<longleftrightarrow> 1 < length ?cs \<and> 2 ^ 32 dvd weight_sum ?cs"
    using ne zero by (cases "length ?cs = 1") (auto simp: SelectCrawlQueue_def uniform_queue_def Let_def)
  have sel: "\<exists>q \<in> fst ` set ?cs. SelectCrawlQueue rnd available weights = Returns q"
    if "SelectCrawlQueue rnd available weights \<noteq> Panics"
  proof (cases "1 < length ?cs")
    case True
    then show ?thesis using that ne pick_in_candidates [OF ne(1)] by (auto simp: SelectCrawlQueue_def Let_def split: if_splits)
  next
    case False
    then obtain q w' where "?cs = [(q, w')]" using ne(1) by (cases ?cs) auto
    then show ?thesis using ne by (simp add: SelectCrawlQueue_def)
  qed
  have fits: "\<not> 2 ^ 32 dvd weight_sum ?cs" if "weight_sum ?cs < 2 ^ 32"
  proof -
    obtain q0 w0 cs where cs: "?cs = (q0, w0) # cs" using ne by (cases ?cs) auto
    then have "w0 \<noteq> 0" using usable_weights_iff [of q0 w0 weights] by simp
    then have "0 < weight_sum ?cs" using cs by (simp add: unat_gt_0)
    then show ?thesis using that by (auto dest: dvd_imp_le)
  qed
  show "weight_sum ?cs < 2 ^ 32 \<longrightarrow>
      (\<exists>w \<in> set weights. qw_Weight w \<noteq> 0 \<and> SelectCrawlQueue rnd available weights = Returns (qw_Queue w))"
  proof
    assume "weight_sum ?cs < 2 ^ 32"
    then obtain q w' where q: "(q, w') \<in> set ?cs" "SelectCrawlQueue rnd available weights = Returns q"
      using sel panics fits by auto
    then obtain x where "x \<in> set weights" "qw_Queue x = q" "qw_Weight x \<noteq> 0" by (auto simp: usable_weights_iff)
    then show "\<exists>w \<in> set weights. qw_Weight w \<noteq> 0 \<and> SelectCrawlQueue rnd available weights = Returns (qw_Queue w)"
      using q(2) by blast
  qed
qed

theorem SelectCrawlQueue_respects_weights_witness:
  "SelectCrawlQueue (\<lambda>n. 0) []
     [\<lparr>qw_Queue = ''a'', qw_Weight = 2147483648\<rparr>, \<lparr>qw_Queue = ''b'', qw_Weight = 2147483648\<rparr>] = Panics"
  using SelectCrawlQueue_respects_weights
    [of "[\<lparr>qw_Queue = ''a'', qw_Weight = 2147483648\<rparr>, \<lparr>qw_Queue = ''b'', qw_Weight = 2147483648\<rparr>]" "\<lambda>n. 0" "[]"]
  by simp

text \<open>
  With no usable weight the choice is uniform over the available queues, and empty exactly when
  there is none.
\<close>

lemma SelectCrawlQueue_fallback:
  assumes "\<forall>w \<in> set weights. qw_Weight w = 0" and "\<And>n. 0 < n \<Longrightarrow> rnd n < n"
  shows "SelectCrawlQueue rnd available weights =
           (if available = [] then Returns [] else Returns (available ! (if length available = 1 then 0
              else rnd (length available))))"
proof -
  have "usable_weights weights = []"
    using assms(1) by (induction weights) auto
  then show ?thesis by (simp add: SelectCrawlQueue_def uniform_queue_def)
qed

lemma SelectCrawlQueue_no_weights_available:
  assumes "available \<noteq> []" and "\<And>n. 0 < n \<Longrightarrow> rnd n < n"
  shows "\<exists>q \<in> set available. SelectCrawlQueue rnd available [] = Returns q"
  using assms by (auto simp: SelectCrawlQueue_def uniform_queue_def)

end
