(* ===== verification/Parser_Worker.thy ===== *)
theory Parser_Worker
  imports Fetch_Worker Extraction_DSL Queue_Routing
begin

text \<open>
  The parser worker, \<^verbatim>\<open>worker/parser_worker.go\<close>: the message handler and the discovery of new
  links.  The world is that of the fetch worker.  \<open>parse_env\<close> holds what the services answer during
  one call: failures of the database statements and of the transaction, the content store, JSON
  encoding, the robots check, the random numbers of the queue selection, the broker's answers, the
  clock, the identifiers that are generated, and the order in which the Go map of links is iterated.
\<close>

section \<open>Model\<close>

record 'n parse_env =
  pe_dom :: "'n dom_env"
  pe_decode :: "string \<Rightarrow> ParsingTaskMessage res"
  pe_uuid_ok :: "string \<Rightarrow> bool"
  pe_re_match :: "string \<Rightarrow> string \<Rightarrow> bool res"
  pe_get :: "gerr option"
  pe_job :: "gerr option"
  pe_config :: "gerr option"
  pe_load :: "gerr option"
  pe_update :: "gerr option"
  pe_encode :: "string \<Rightarrow> string \<Rightarrow> extractionResult \<Rightarrow> string res"
  pe_upload :: "gerr option"
  pe_robots :: "string \<Rightarrow> bool res"
  pe_order :: "string list \<Rightarrow> string list"
  pe_fresh :: "nat \<Rightarrow> string"
  pe_begin :: "gerr option"
  pe_tx_update :: "gerr option"
  pe_tx_create :: "gerr option"
  pe_commit :: "gerr option"
  pe_rand :: "string \<Rightarrow> nat \<Rightarrow> nat"
  pe_publish :: "string \<Rightarrow> gerr option"
  pe_queues :: "string list"
  pe_now :: time
  pe_trace :: trace_context

text \<open>The address a raw attribute stands for: resolved, web schemes only, without its fragment.\<close>

definition link_address :: "'n dom_env \<Rightarrow> URL \<Rightarrow> string \<Rightarrow> string option" where
  "link_address d baseURL raw =
     (case d_url_parse d (TrimSpace raw) of
        Inl _ \<Rightarrow> None
      | Inr linkURL \<Rightarrow>
          let absoluteURL = d_url_resolve d baseURL linkURL;
              scheme = ToLower (u_Scheme absoluteURL)
          in if scheme \<noteq> ''http'' \<and> scheme \<noteq> ''https'' then None
             else Some (d_url_string d (absoluteURL\<lparr>u_Fragment := []\<rparr>)))"

text \<open>The keys of the map that collects addresses, in order of insertion.\<close>

definition address_set :: "string option list \<Rightarrow> string list" where
  "address_set xs = foldl (\<lambda>acc x. case x of None \<Rightarrow> acc | Some u \<Rightarrow> set_add u acc) [] xs"

definition pagination_addresses :: "'n dom_env \<Rightarrow> URL \<Rightarrow> PaginationSpec \<Rightarrow> 'n \<Rightarrow> string option list" where
  "pagination_addresses d baseURL spec doc =
     (if pg_Selector spec = [] then []
      else let attribute = (if pg_Attribute spec = [] then ''href'' else pg_Attribute spec);
               selection = d_find d doc (pg_Selector spec);
               address = (\<lambda>n. let raw = extractElementValue d n attribute (Some baseURL)
                              in if raw = [] then None else link_address d baseURL raw)
           in map address (if pg_Multiple spec then selection else take 1 selection))"

text \<open>The filters a link passes to become a task: scope, allowed patterns, robots (errors allow).\<close>

definition link_accepted :: "'n parse_env \<Rightarrow> CrawlJobConfig \<Rightarrow> u64 \<Rightarrow> ptok list list \<Rightarrow> string \<Rightarrow> bool" where
  "link_accepted env config nextDepth patterns link \<longleftrightarrow>
     Validate (d_url_parse (pe_dom env)) (pe_re_match env) link nextDepth (cfg_Scopes config) = Inr () \<and>
     url_pattern_allowed patterns link \<and>
     \<not> (cfg_RespectRobotsTxt config \<and> pe_robots env link = Inr False)"

definition tasks_for :: "'n parse_env \<Rightarrow> CrawlTask \<Rightarrow> u64 \<Rightarrow> nat \<Rightarrow> string list \<Rightarrow> CrawlTask list" where
  "tasks_for env task nextDepth start links =
     map (\<lambda>(k, link). new_task (pe_fresh env k) (task_JobID task) link (pe_now env) nextDepth) (enumerate start links)"

definition task_base_url :: "'n parse_env \<Rightarrow> CrawlTask \<Rightarrow> URL res" where
  "task_base_url env task = wrap_err ''failed to parse base URL'' (d_url_parse (pe_dom env) (base_url_string task))"

definition preparePaginationLinks ::
  "'n parse_env \<Rightarrow> CrawlTask \<Rightarrow> string \<Rightarrow> CrawlJobConfig \<Rightarrow> nat \<Rightarrow> CrawlTask list res" where
  "preparePaginationLinks env task htmlContent config start =
     bind_res (wrap_err ''invalid scopes.allowed_url_patterns'' (CompileAllowedURLPatterns (AllowedURLPatterns (cfg_Scopes config)))) (\<lambda>patterns.
     if spec_Pagination (cfg_ExtractionSpec config) = [] then Inr []
     else if MaxDepth (cfg_Scopes config) \<le> task_Depth task then Inr []
     else
       bind_res (wrap_err ''failed to parse HTML for pagination extraction'' (d_parse (pe_dom env) htmlContent)) (\<lambda>doc.
       bind_res (task_base_url env task) (\<lambda>baseURL.
         let links = address_set (concat (map (\<lambda>s. pagination_addresses (pe_dom env) baseURL s doc)
                       (spec_Pagination (cfg_ExtractionSpec config))));
             nextDepth = task_Depth task + 1
         in Inr (tasks_for env task nextDepth start
                   (filter (link_accepted env config nextDepth patterns) (pe_order env links))))))"

definition anchor_addresses :: "'n dom_env \<Rightarrow> URL \<Rightarrow> 'n \<Rightarrow> string option list" where
  "anchor_addresses d baseURL doc =
     map (\<lambda>n. case d_attr d n ''href'' of
                None \<Rightarrow> None
              | Some href \<Rightarrow> if href = [] then None else link_address d baseURL href) (d_find d doc ''a[href]'')"

definition prepareDiscoveredLinks ::
  "'n parse_env \<Rightarrow> CrawlTask \<Rightarrow> string \<Rightarrow> CrawlJobConfig \<Rightarrow> nat \<Rightarrow> CrawlTask list res" where
  "prepareDiscoveredLinks env task htmlContent config start =
     bind_res (wrap_err ''invalid scopes.allowed_url_patterns'' (CompileAllowedURLPatterns (AllowedURLPatterns (cfg_Scopes config)))) (\<lambda>patterns.
     if MaxDepth (cfg_Scopes config) \<le> task_Depth task then Inr []
     else
       bind_res (wrap_err ''failed to parse HTML for link discovery'' (d_parse (pe_dom env) htmlContent)) (\<lambda>doc.
       bind_res (task_base_url env task) (\<lambda>baseURL.
         let links = address_set (anchor_addresses (pe_dom env) baseURL doc);
             nextDepth = task_Depth task + 1
         in Inr (tasks_for env task nextDepth start
                   (filter (link_accepted env config nextDepth patterns) (pe_order env links))))))"

definition crawl_mode :: "CrawlJobConfig \<Rightarrow> CrawlMode" where
  "crawl_mode config = (if cfg_CrawlMode config = [] then CrawlModePaginationAndLinks else cfg_CrawlMode config)"

text \<open>An error of either preparation is logged and counts as no links.\<close>

definition new_tasks :: "'n parse_env \<Rightarrow> CrawlTask \<Rightarrow> string \<Rightarrow> CrawlJobConfig \<Rightarrow> CrawlTask list" where
  "new_tasks env task htmlContent config =
     (let paginationTasks =
            (if crawl_mode config \<noteq> CrawlModeLinksOnly
             then (case preparePaginationLinks env task htmlContent config 0 of Inl _ \<Rightarrow> [] | Inr ts \<Rightarrow> ts) else []);
          discoveryTasks =
            (if crawl_mode config \<noteq> CrawlModePaginationOnly
             then (case prepareDiscoveredLinks env task htmlContent config (length paginationTasks) of Inl _ \<Rightarrow> [] | Inr ts \<Rightarrow> ts)
             else [])
      in paginationTasks @ discoveryTasks)"

section \<open>The handler\<close>

definition parse_fail :: "'n parse_env \<Rightarrow> CrawlTask \<Rightarrow> string \<Rightarrow> world \<Rightarrow> unit res \<times> world" where
  "parse_fail env task reason w =
     (case db_call (pe_update env) (task_Update (MarkAsFailed task reason)) (w_db w) of
        (Inl e, db') \<Rightarrow> (Inl (ErrWrap ''failed to update task status'' e), w\<lparr>w_db := db'\<rparr>)
      | (Inr _, db') \<Rightarrow> (Inr (), w\<lparr>w_db := db'\<rparr>))"

definition result_key :: "string \<Rightarrow> string" where
  "result_key taskID = ''results/tasks/'' @ taskID @ ''.json''"

definition uploadResultToS3 ::
  "'n parse_env \<Rightarrow> string \<Rightarrow> string \<Rightarrow> extractionResult \<Rightarrow> content_store \<Rightarrow> (string \<times> int) res \<times> content_store" where
  "uploadResultToS3 env taskID url result store =
     (case pe_encode env taskID url result of
        Inl e \<Rightarrow> (Inl (ErrWrap ''failed to marshal output'' e), store)
      | Inr jsonData \<Rightarrow>
          (case pe_upload env of
             Some e \<Rightarrow> (Inl (ErrWrap ''failed to upload result to S3'' e), store)
           | None \<Rightarrow> (Inr (result_key taskID, int (length jsonData)),
                      store(result_key taskID \<mapsto> (jsonData, ''application/json'')))))"

text \<open>The transaction: the parsed task and the new tasks, or nothing.\<close>

definition persist ::
  "'n parse_env \<Rightarrow> CrawlTask \<Rightarrow> CrawlTask list \<Rightarrow> DB \<Rightarrow> CrawlTaskID list res \<times> DB" where
  "persist env parsed allTasks db =
     transaction (pe_begin env) (pe_commit env) (\<lambda>db.
       (case db_call (pe_tx_update env) (task_Update parsed) db of
          (Inl e, db1) \<Rightarrow> (Inl (ErrWrap ''failed to update task status to parsed'' e), db1)
        | (Inr _, db1) \<Rightarrow>
            if allTasks = [] then (Inr [], db1)
            else (case db_call (pe_tx_create env) (task_BulkCreate (pe_uuid_ok env) allTasks) db1 of
                    (Inl e, db2) \<Rightarrow> (Inl (ErrWrap ''failed to bulk create new tasks'' e), db2)
                  | (Inr ids, db2) \<Rightarrow> (Inr ids, db2)))) db"

text \<open>
  The messages for the inserted tasks.  A refused publication is logged; a panic of the queue
  selection ends the call.
\<close>

fun publish_children ::
  "'n parse_env \<Rightarrow> CrawlJobConfig \<Rightarrow> CrawlTask list \<Rightarrow> CrawlTaskID list \<Rightarrow> sent \<Rightarrow> unit res \<times> sent" where
  "publish_children env config allTasks [] sent = (Inr (), sent)"
| "publish_children env config allTasks (i # ids) sent =
     (case List.find (\<lambda>t. task_ID t = i) (rev allTasks) of
        None \<Rightarrow> publish_children env config allTasks ids sent
      | Some t \<Rightarrow>
          (case SelectCrawlQueue (pe_rand env i) (pe_queues env) (cfg_QueueWeights config) of
             Panics \<Rightarrow> (Inl (ErrText ''panic: invalid argument to Intn''), sent)
           | Returns q \<Rightarrow>
               let msg = \<lparr>cm_TaskID = i, cm_JobID = task_JobID t, cm_URL = task_URL t,
                          cm_EnqueuedAt = task_EnqueuedAt t, cm_TraceContext = pe_trace env\<rparr>
               in publish_children env config allTasks ids
                    (if pe_publish env i = None then sent @ [(q, msg)] else sent)))"

definition parse_page ::
  "'n parse_env \<Rightarrow> ParsingTaskMessage \<Rightarrow> CrawlJobConfig \<Rightarrow> CrawlTask \<Rightarrow> string \<Rightarrow> world \<Rightarrow> unit res \<times> world" where
  "parse_page env msg config task htmlContent w =
     (case extractData (pe_dom env) task (cfg_ExtractionSpec config) htmlContent of
        Inl e \<Rightarrow> parse_fail env task (''extraction failed: '' @ err_text e) w
      | Inr result \<Rightarrow>
          (case uploadResultToS3 env (pm_TaskID msg) (task_URL task) result (w_store w) of
             (Inl e, store) \<Rightarrow> parse_fail env task (''failed to persist results: '' @ err_text e) (w\<lparr>w_store := store\<rparr>)
           | (Inr (objectKey, sizeBytes), store) \<Rightarrow>
               let w1 = w\<lparr>w_store := store\<rparr>;
                   allTasks = new_tasks env task htmlContent config;
                   parsed = MarkAsParsed task objectKey ''application/json'' sizeBytes (pe_now env)
               in case persist env parsed allTasks (w_db w1) of
                    (Inl e, db') \<Rightarrow> parse_fail env parsed (''failed to persist results: '' @ err_text e) (w1\<lparr>w_db := db'\<rparr>)
                  | (Inr ids, db') \<Rightarrow>
                      (case publish_children env config allTasks ids (w_crawl w1) of
                         (r, sent) \<Rightarrow> (r, w1\<lparr>w_db := db', w_crawl := sent\<rparr>))))"

definition parse_handleMessage :: "'n parse_env \<Rightarrow> string \<Rightarrow> world \<Rightarrow> unit res \<times> world" where
  "parse_handleMessage env body w =
     (case pe_decode env body of
        Inl e \<Rightarrow> (Inl (ErrWrap ''failed to unmarshal task'' e), w)
      | Inr msg \<Rightarrow>
        (case NewCrawlTaskID (pe_uuid_ok env) (pm_TaskID msg) of
           Inl e \<Rightarrow> (Inl (ErrWrap ''invalid task ID'' e), w)
         | Inr taskID \<Rightarrow>
           (case db_read (pe_get env) (task_Get (pe_uuid_ok env) taskID) (w_db w) of
              Inl e \<Rightarrow> if is_no_rows e then (Inr (), w) else (Inl (ErrWrap ''failed to load crawl task'' e), w)
            | Inr task \<Rightarrow>
              if task_Status task = TaskStatusParsed then (Inr (), w)
              else
              (case db_read (pe_job env) (job_Get (pe_uuid_ok env) (task_JobID task)) (w_db w) of
                 Inl e \<Rightarrow> if is_no_rows e then (Inr (), w) else (Inl (ErrWrap ''failed to load crawl job'' e), w)
               | Inr job \<Rightarrow>
                 (case db_read (pe_config env) (config_Get (pe_uuid_ok env) (job_JobConfigID job)) (w_db w) of
                    Inl e \<Rightarrow> if is_no_rows e then (Inr (), w) else (Inl (ErrWrap ''failed to load job config'' e), w)
                  | Inr config \<Rightarrow>
                    (case (case pe_load env of Some e \<Rightarrow> Inl e
                           | None \<Rightarrow> (case w_store w (task_MinioObjectKey task) of
                                        None \<Rightarrow> Inl (ErrText ''object not found'') | Some c \<Rightarrow> Inr (fst c))) of
                       Inl e \<Rightarrow> (Inl (ErrWrap ''failed to load HTML from MinIO'' e), w)
                     | Inr htmlContent \<Rightarrow> parse_page env msg config task htmlContent w))))))"

section \<open>New tasks\<close>

lemma tasks_for_mem:
  assumes "t \<in> set (tasks_for env task nd start links)"
  shows "task_JobID t = task_JobID task \<and> task_Depth t = nd \<and> task_Status t = TaskStatusInProgress \<and> task_URL t \<in> set links"
  using assms by (auto simp: tasks_for_def in_set_enumerate_eq)

lemma tasks_for_ids: "map task_ID (tasks_for env task nd start links) = map (pe_fresh env) [start ..< start + length links]"
  by (induction links arbitrary: start) (simp_all add: tasks_for_def upt_conv_Cons del: upt_Suc)

lemma tasks_for_length [simp]: "length (tasks_for env task nd start links) = length links"
  by (simp add: tasks_for_def)

text \<open>What the two preparations return: a part of the links on the page, in the order of the map.\<close>

definition prepared :: "'n parse_env \<Rightarrow> CrawlTask \<Rightarrow> CrawlJobConfig \<Rightarrow> nat \<Rightarrow> CrawlTask list \<Rightarrow> bool" where
  "prepared env task config start ts \<longleftrightarrow>
     ts = [] \<or> (\<exists>patterns links. CompileAllowedURLPatterns (AllowedURLPatterns (cfg_Scopes config)) = Inr patterns \<and>
       task_Depth task < MaxDepth (cfg_Scopes config) \<and>
       ts = tasks_for env task (task_Depth task + 1) start
              (filter (link_accepted env config (task_Depth task + 1) patterns) (pe_order env links)))"

lemma prepared_Nil [simp]: "prepared env task config start []"
  by (simp add: prepared_def)

lemma preparePagination_prepared: "preparePaginationLinks env task html config start = Inr ts \<Longrightarrow> prepared env task config start ts"
  unfolding prepared_def preparePaginationLinks_def bind_res_Inr_iff wrap_err_Inr_iff Let_def
  by (auto simp: bind_res_Inr_iff linorder_not_le split: if_splits)

lemma prepareDiscovered_prepared: "prepareDiscoveredLinks env task html config start = Inr ts \<Longrightarrow> prepared env task config start ts"
  unfolding prepared_def prepareDiscoveredLinks_def bind_res_Inr_iff wrap_err_Inr_iff Let_def
  by (auto simp: bind_res_Inr_iff linorder_not_le split: if_splits)

lemma new_tasks_prepared:
  "\<exists>ps ds. new_tasks env task html config = ps @ ds \<and> prepared env task config 0 ps \<and> prepared env task config (length ps) ds"
proof -
  define ps where "ps = (if crawl_mode config \<noteq> CrawlModeLinksOnly
    then (case preparePaginationLinks env task html config 0 of Inl _ \<Rightarrow> [] | Inr ts \<Rightarrow> ts) else [])"
  define ds where "ds = (if crawl_mode config \<noteq> CrawlModePaginationOnly
    then (case prepareDiscoveredLinks env task html config (length ps) of Inl _ \<Rightarrow> [] | Inr ts \<Rightarrow> ts) else [])"
  have "new_tasks env task html config = ps @ ds" by (simp add: new_tasks_def Let_def ps_def ds_def)
  moreover have "prepared env task config 0 ps"
    by (cases "preparePaginationLinks env task html config 0")
       (simp_all add: ps_def preparePagination_prepared)
  moreover have "prepared env task config (length ps) ds"
    by (cases "prepareDiscoveredLinks env task html config (length ps)")
       (simp_all add: ds_def prepareDiscovered_prepared)
  ultimately show ?thesis by blast
qed

lemma depth_Suc:
  fixes d m :: u64
  assumes "d < m"
  shows "unat (d + 1) = unat d + 1" and "d + 1 \<le> m"
proof -
  have "d \<noteq> - 1" using assms by (metis max_word_max linorder_not_le)
  then show "unat (d + 1) = unat d + 1"
    using unatSuc [of d] by (metis Suc_eq_plus1 add.commute add_eq_0_iff)
  show "d + 1 \<le> m" using assms by (rule inc_le)
qed

definition child_of :: "'n parse_env \<Rightarrow> CrawlTask \<Rightarrow> CrawlJobConfig \<Rightarrow> CrawlTask \<Rightarrow> bool" where
  "child_of env task config t \<longleftrightarrow>
     task_JobID t = task_JobID task \<and> unat (task_Depth t) = unat (task_Depth task) + 1 \<and>
     task_Depth t \<le> MaxDepth (cfg_Scopes config) \<and> task_Status t = TaskStatusInProgress \<and>
     Validate (d_url_parse (pe_dom env)) (pe_re_match env) (task_URL t) (task_Depth t) (cfg_Scopes config) = Inr () \<and>
     (\<exists>patterns. CompileAllowedURLPatterns (AllowedURLPatterns (cfg_Scopes config)) = Inr patterns \<and>
        url_pattern_allowed patterns (task_URL t)) \<and>
     \<not> (cfg_RespectRobotsTxt config \<and> pe_robots env (task_URL t) = Inr False)"

lemma prepared_children: "prepared env task config start ts \<Longrightarrow> t \<in> set ts \<Longrightarrow> child_of env task config t"
  unfolding prepared_def child_of_def
  by (auto dest!: tasks_for_mem simp: link_accepted_def depth_Suc)

lemma new_tasks_children: "t \<in> set (new_tasks env task html config) \<Longrightarrow> child_of env task config t"
  using new_tasks_prepared [of env task html config] prepared_children by fastforce

lemma prepared_ids: "prepared env task config start ts \<Longrightarrow> map task_ID ts = map (pe_fresh env) [start ..< start + length ts]"
  by (auto simp: prepared_def tasks_for_ids)

lemma new_tasks_ids: "map task_ID (new_tasks env task html config) = map (pe_fresh env) [0 ..< length (new_tasks env task html config)]"
proof -
  obtain ps ds where n: "new_tasks env task html config = ps @ ds" "prepared env task config 0 ps"
    "prepared env task config (length ps) ds" using new_tasks_prepared by blast
  have "[0 ..< length ps + length ds] = [0 ..< length ps] @ [length ps ..< length ps + length ds]"
    using upt_add_eq_append [of 0 "length ps" "length ds"] by simp
  then show ?thesis using prepared_ids [OF n(2)] prepared_ids [OF n(3)] n(1) by simp
qed

section \<open>Effects of the handler\<close>

lemma BulkCreate_extends:
  assumes "task_BulkCreate ok ts db = (Inr ids, db')"
  shows "\<exists>new. db' = db\<lparr>db_tasks := db_tasks db @ new\<rparr> \<and> ids = map ts_ID new \<and> subseq new (map SaveCrawlTaskToSnapshot ts)"
proof (cases "ts = []")
  case True
  then show ?thesis using assms by (intro exI [of _ "[]"]) (simp add: task_BulkCreate_def)
next
  case False
  obtain tbl' raw where i: "insert_rows (db_tasks db) (map SaveCrawlTaskToSnapshot ts) = Inr (tbl', raw)"
    and m: "map_res (NewCrawlTaskID ok) raw = Inr ids" and d: "db' = db\<lparr>db_tasks := tbl'\<rparr>"
    using assms False by (auto simp: task_BulkCreate_def split: sum.splits if_splits)
  have "ids = raw"
    using map_res_InrD [OF m] by (induction rule: list_all2_induct) (auto simp: NewTypedID_eq dest: NewID_InrD)
  then show ?thesis using insert_rows_extends [OF i] d by auto
qed

definition set_row :: "string \<Rightarrow> CrawlTaskSnapshot \<Rightarrow> CrawlTaskSnapshot list \<Rightarrow> CrawlTaskSnapshot list" where
  "set_row i x rows = map (\<lambda>y. if ts_ID y = i then x else y) rows"

lemma Update_set_row:
  assumes inv: "db_inv db" and l: "loaded db t r" and e: "task_ID t' = task_ID t" "task_URL t' = task_URL t"
  shows "task_Update t' db = (Inr (), db\<lparr>db_tasks := set_row (task_ID t) (updated_row t' r) (db_tasks db)\<rparr>)"
proof -
  have r: "find_task db (task_ID t) = Some r" using l by (simp add: loaded_def)
  obtain db' where u: "task_Update t' db = (Inr (), db')" using Update_loaded [OF inv l e] by blast
  then have "db' = db\<lparr>db_tasks := map (\<lambda>x. if ts_ID x = task_ID t then updated_row t' x else x) (db_tasks db)\<rparr>"
    using r e(1) by (auto simp: task_Update_def split: if_splits)
  moreover have "map (\<lambda>x. if ts_ID x = task_ID t then updated_row t' x else x) (db_tasks db) =
      set_row (task_ID t) (updated_row t' r) (db_tasks db)"
    unfolding set_row_def
  proof (rule map_cong [OF refl])
    fix x assume x: "x \<in> set (db_tasks db)"
    have "x = r" if "ts_ID x = task_ID t"
      using tasks_inv_same_id [OF _ x, of r] inv that find_task_SomeD [OF r] by (simp add: db_inv_def)
    then show "(if ts_ID x = task_ID t then updated_row t' x else x) = (if ts_ID x = task_ID t then updated_row t' r else x)"
      by simp
  qed
  ultimately show ?thesis using u by simp
qed

lemma db_inv_set_row:
  "db_inv db \<Longrightarrow> loaded db t r \<Longrightarrow> task_ID t' = task_ID t \<Longrightarrow> task_URL t' = task_URL t \<Longrightarrow>
   db_inv (db\<lparr>db_tasks := set_row (task_ID t) (updated_row t' r) (db_tasks db)\<rparr>)"
  using Update_set_row task_Update_inv by blast

text \<open>What no handler changes of a row.\<close>

definition same_task :: "CrawlTaskSnapshot \<Rightarrow> CrawlTaskSnapshot \<Rightarrow> bool" where
  "same_task x r \<longleftrightarrow> ts_ID x = ts_ID r \<and> ts_JobID x = ts_JobID r \<and> ts_URL x = ts_URL r \<and> ts_Depth x = ts_Depth r \<and>
     ts_EnqueuedAt x = ts_EnqueuedAt r"

definition parse_refused :: "world \<Rightarrow> unit res \<Rightarrow> world \<Rightarrow> bool" where
  "parse_refused w res w' \<longleftrightarrow> (\<exists>e. res = Inl e) \<and> w_db w' = w_db w \<and> w_crawl w' = w_crawl w"

definition parse_failed :: "CrawlTaskSnapshot \<Rightarrow> world \<Rightarrow> unit res \<Rightarrow> world \<Rightarrow> bool" where
  "parse_failed r w res w' \<longleftrightarrow> res = Inr () \<and> w_crawl w' = w_crawl w \<and> db_inv (w_db w') \<and>
     (\<exists>x. w_db w' = (w_db w)\<lparr>db_tasks := set_row (ts_ID r) x (db_tasks (w_db w))\<rparr> \<and> same_task x r \<and>
        ts_Status x = TaskStatusFailed \<and> ts_ErrorMessage x \<noteq> None \<and> ts_ResultObjectKey x = None)"

text \<open>The message of an inserted row: its own fields, to the queue the job's weights select for it.\<close>

definition child_message :: "'n parse_env \<Rightarrow> CrawlJobConfig \<Rightarrow> CrawlTaskSnapshot \<Rightarrow> string \<times> CrawlTaskMessage \<Rightarrow> bool" where
  "child_message env config n m \<longleftrightarrow>
     SelectCrawlQueue (pe_rand env (ts_ID n)) (pe_queues env) (cfg_QueueWeights config) = Returns (fst m) \<and>
     snd m = \<lparr>cm_TaskID = ts_ID n, cm_JobID = ts_JobID n, cm_URL = ts_URL n, cm_EnqueuedAt = ts_EnqueuedAt n,
              cm_TraceContext = pe_trace env\<rparr>"

definition published :: "'n parse_env \<Rightarrow> CrawlTaskSnapshot list \<Rightarrow> CrawlTaskSnapshot list" where
  "published env rows = filter (\<lambda>n. pe_publish env (ts_ID n) = None) rows"

text \<open>
  The messages of the inserted rows: one for each whose publication was accepted, in their order, up to the
  end or, when the selection of a queue panics, up to the row it panics for.
\<close>

definition children_sent ::
  "'n parse_env \<Rightarrow> CrawlJobConfig \<Rightarrow> CrawlTaskSnapshot list \<Rightarrow> sent \<Rightarrow> unit res \<Rightarrow> bool" where
  "children_sent env config new msgs res \<longleftrightarrow>
     (\<exists>k \<le> length new. list_all2 (child_message env config) (published env (take k new)) msgs \<and>
        (if k = length new then res = Inr ()
         else (\<exists>e. res = Inl e) \<and>
              SelectCrawlQueue (pe_rand env (ts_ID (new ! k))) (pe_queues env) (cfg_QueueWeights config) = Panics))"

definition parse_done ::
  "'n parse_env \<Rightarrow> CrawlTask \<Rightarrow> CrawlJobConfig \<Rightarrow> CrawlTaskSnapshot \<Rightarrow> world \<Rightarrow> unit res \<Rightarrow> world \<Rightarrow> bool" where
  "parse_done env t config r w res w' \<longleftrightarrow>
     db_inv (w_db w') \<and>
     (\<exists>x new msgs. w_db w' = (w_db w)\<lparr>db_tasks := set_row (ts_ID r) x (db_tasks (w_db w)) @ new\<rparr> \<and> same_task x r \<and>
        ts_Status x = TaskStatusParsed \<and> ts_ResultObjectKey x = Some (result_key (ts_ID r)) \<and>
        result_key (ts_ID r) \<in> dom (w_store w') \<and>
        (\<forall>n \<in> set new. \<exists>c. n = SaveCrawlTaskToSnapshot c \<and> child_of env t config c) \<and>
        w_crawl w' = w_crawl w @ msgs \<and>
        (inj (pe_fresh env) \<longrightarrow> children_sent env config new msgs res))"

text \<open>A message that is acknowledged with nothing to do: the task, its job or its configuration is gone, or it is parsed.\<close>

definition nothing_to_parse :: "'n parse_env \<Rightarrow> ParsingTaskMessage \<Rightarrow> world \<Rightarrow> bool" where
  "nothing_to_parse env msg w \<longleftrightarrow>
     (\<exists>e. db_read (pe_get env) (task_Get (pe_uuid_ok env) (pm_TaskID msg)) (w_db w) = Inl e \<and> is_no_rows e) \<or>
     (\<exists>t. task_Get (pe_uuid_ok env) (pm_TaskID msg) (w_db w) = Inr t \<and>
        (task_Status t = TaskStatusParsed \<or>
         (\<exists>e. db_read (pe_job env) (job_Get (pe_uuid_ok env) (task_JobID t)) (w_db w) = Inl e \<and> is_no_rows e) \<or>
         (\<exists>job e. job_Get (pe_uuid_ok env) (task_JobID t) (w_db w) = Inr job \<and>
            db_read (pe_config env) (config_Get (pe_uuid_ok env) (job_JobConfigID job)) (w_db w) = Inl e \<and> is_no_rows e)))"

lemma parse_fail_cases:
  assumes inv: "db_inv (w_db w)" and l: "loaded (w_db w) t r" and e: "task_ID t' = task_ID t" "task_URL t' = task_URL t"
    and d: "task_Depth t' = task_Depth t"
    and p: "parse_fail env t' reason w = (res, w')"
  shows "parse_refused w res w' \<or> parse_failed r w res w'"
proof (cases "pe_update env")
  case None
  have "task_Update (MarkAsFailed t' reason) (w_db w) =
      (Inr (), (w_db w)\<lparr>db_tasks := set_row (task_ID t) (updated_row (MarkAsFailed t' reason) r) (db_tasks (w_db w))\<rparr>)"
    using Update_set_row [OF inv l, of "MarkAsFailed t' reason"] e by (simp add: task_mark_defs)
  moreover have "same_task (updated_row (MarkAsFailed t' reason) r) r"
    using l e d by (auto simp: same_task_def loaded_def task_mark_defs)
  moreover have "db_inv ((w_db w)\<lparr>db_tasks := set_row (task_ID t) (updated_row (MarkAsFailed t' reason) r) (db_tasks (w_db w))\<rparr>)"
    using db_inv_set_row [OF inv l, of "MarkAsFailed t' reason"] e by (simp add: task_mark_defs)
  moreover have "task_ID t = ts_ID r" using l by (auto simp: loaded_def)
  ultimately show ?thesis using p None by (auto simp: parse_fail_def parse_failed_def)
qed (use p in \<open>auto simp: parse_fail_def parse_refused_def\<close>)

lemma find_unique:
  assumes "c \<in> set ts" and "distinct (map task_ID ts)"
  shows "List.find (\<lambda>t. task_ID t = task_ID c) (rev ts) = Some c"
proof -
  have "List.find (\<lambda>t. task_ID t = task_ID c) (rev ts) \<noteq> None" using assms(1) by (auto simp: find_None_iff)
  then obtain t where t: "List.find (\<lambda>t. task_ID t = task_ID c) (rev ts) = Some t" by blast
  then obtain i where "i < length (rev ts)" "t = rev ts ! i" "task_ID t = task_ID c" unfolding find_Some_iff by blast
  then have "t \<in> set (rev ts)" "task_ID t = task_ID c" using nth_mem [of i "rev ts"] by simp_all
  then have "t = c" using assms by (auto simp: distinct_map dest: inj_onD)
  then show ?thesis using t by simp
qed

lemma publish_children_appends: "\<exists>msgs. snd (publish_children env config ts ids sent) = sent @ msgs"
proof (induction ids arbitrary: sent)
  case (Cons i ids)
  show ?case
  proof (cases "List.find (\<lambda>t. task_ID t = i) (rev ts)")
    case None
    then show ?thesis using Cons by simp
  next
    case (Some t)
    have "\<exists>msgs. snd (publish_children env config ts ids (sent @ ms)) = sent @ msgs" for ms using Cons [of "sent @ ms"] by auto
    from this [of "[]"] this Some show ?thesis by (auto simp: Let_def split: outcome.split)
  qed
qed simp

lemma publish_children_spec:
  assumes "publish_children env config ts (map ts_ID new) sent = (res, sent')"
    and "distinct (map task_ID ts)" and "set new \<subseteq> SaveCrawlTaskToSnapshot ` set ts"
  shows "\<exists>msgs. sent' = sent @ msgs \<and> children_sent env config new msgs res"
  using assms(1,3)
proof (induction new arbitrary: sent)
  case (Cons n new)
  obtain c where c: "c \<in> set ts" "n = SaveCrawlTaskToSnapshot c" using Cons.prems(2) by auto
  have t: "List.find (\<lambda>t. task_ID t = ts_ID n) (rev ts) = Some c" using find_unique [OF c(1) assms(2)] c(2) by simp
  show ?case
  proof (cases "SelectCrawlQueue (pe_rand env (ts_ID n)) (pe_queues env) (cfg_QueueWeights config)")
    case Panics
    then have "children_sent env config (n # new) [] res" "sent' = sent"
      using Cons.prems(1) t by (auto simp: children_sent_def published_def intro!: exI [of _ 0])
    then show ?thesis by auto
  next
    case (Returns q)
    define m where "m = (q, \<lparr>cm_TaskID = ts_ID n, cm_JobID = task_JobID c, cm_URL = task_URL c,
                          cm_EnqueuedAt = task_EnqueuedAt c, cm_TraceContext = pe_trace env\<rparr>)"
    define sent1 where "sent1 = (if pe_publish env (ts_ID n) = None then sent @ [m] else sent)"
    have m: "child_message env config n m" using Returns c(2) by (simp add: child_message_def m_def)
    have "publish_children env config ts (map ts_ID new) sent1 = (res, sent')"
      using Cons.prems(1) t Returns unfolding sent1_def m_def by (cases "pe_publish env (ts_ID n)") (simp_all add: Let_def)
    then obtain msgs where msgs: "sent' = sent1 @ msgs" "children_sent env config new msgs res"
      using Cons.IH Cons.prems(2) by auto
    then obtain k where k: "k \<le> length new" "list_all2 (child_message env config) (published env (take k new)) msgs"
      "if k = length new then res = Inr ()
       else (\<exists>e. res = Inl e) \<and> SelectCrawlQueue (pe_rand env (ts_ID (new ! k))) (pe_queues env) (cfg_QueueWeights config) = Panics"
      unfolding children_sent_def by blast
    have "children_sent env config (n # new) ((if pe_publish env (ts_ID n) = None then [m] else []) @ msgs) res"
      unfolding children_sent_def using k m by (intro exI [of _ "Suc k"]) (auto simp: published_def)
    then show ?thesis using msgs(1) by (auto simp: sent1_def)
  qed
qed (auto simp: children_sent_def published_def)

lemma persist_cases:
  assumes inv: "db_inv db" and l: "loaded db t r" and e: "task_ID t' = task_ID t" "task_URL t' = task_URL t"
    and p: "persist env t' ts db = (res, db')"
  shows "(\<exists>err. res = Inl err) \<and> db' = db \<or>
    (\<exists>new. res = Inr (map ts_ID new) \<and> db_inv db' \<and> subseq new (map SaveCrawlTaskToSnapshot ts) \<and>
       db' = db\<lparr>db_tasks := set_row (task_ID t) (updated_row t' r) (db_tasks db) @ new\<rparr>)"
proof (cases res)
  case (Inl err)
  have "db' = db" by (rule transaction_error_unchanged [OF p [unfolded persist_def Inl]])
  then show ?thesis using Inl by simp
next
  case (Inr ids)
  let ?db1 = "db\<lparr>db_tasks := set_row (task_ID t) (updated_row t' r) (db_tasks db)\<rparr>"
  have b: "(case db_call (pe_tx_update env) (task_Update t') db of
          (Inl e, db1) \<Rightarrow> (Inl (ErrWrap ''failed to update task status to parsed'' e), db1)
        | (Inr _, db1) \<Rightarrow>
            if ts = [] then (Inr [], db1)
            else (case db_call (pe_tx_create env) (task_BulkCreate (pe_uuid_ok env) ts) db1 of
                    (Inl e, db2) \<Rightarrow> (Inl (ErrWrap ''failed to bulk create new tasks'' e), db2)
                  | (Inr ids, db2) \<Rightarrow> (Inr ids, db2))) = (Inr ids, db')"
    using p unfolding Inr persist_def transaction_commits by blast
  note u = Update_set_row [OF inv l e] and inv1 = db_inv_set_row [OF inv l e]
  show ?thesis
  proof (cases "ts = []")
    case True
    then have "ids = [] \<and> db' = ?db1" using b u by (cases "pe_tx_update env") auto
    then show ?thesis using Inr inv1 True by (intro disjI2 exI [of _ "[]"]) simp
  next
    case False
    then have c: "task_BulkCreate (pe_uuid_ok env) ts ?db1 = (Inr ids, db')"
      using b u by (cases "pe_tx_update env"; cases "pe_tx_create env") (auto split: prod.splits sum.splits)
    from BulkCreate_extends [OF c] task_BulkCreate_inv [OF inv1 c] show ?thesis using Inr by auto
  qed
qed

lemma uploadResult_cases:
  assumes "uploadResultToS3 env i u result store = (res, store')"
  shows "(\<exists>e. res = Inl e) \<and> store' = store \<or>
         (\<exists>n c. res = Inr (result_key i, n) \<and> store' = store(result_key i \<mapsto> c))"
  using assms by (auto simp: uploadResultToS3_def split: sum.splits option.splits)

lemma MarkAsParsed_fields [simp]:
  "task_ID (MarkAsParsed t k c n p) = task_ID t" "task_URL (MarkAsParsed t k c n p) = task_URL t"
  "task_Depth (MarkAsParsed t k c n p) = task_Depth t"
  "ts_Status (updated_row (MarkAsParsed t k c n p) r) = TaskStatusParsed"
  "task_ResultObjectKey (MarkAsParsed t k c n p) = Some k"
  by (simp_all add: task_mark_defs updated_row_def SaveCrawlTaskToSnapshot_def)

lemma same_task_parsed: "loaded db t r \<Longrightarrow> same_task (updated_row (MarkAsParsed t k c n p) r) r"
  by (auto simp: same_task_def loaded_def)

lemma parse_page_cases:
  assumes inv: "db_inv (w_db w)" and l: "loaded (w_db w) t r" and i: "pm_TaskID msg = task_ID t"
    and p: "parse_page env msg config t html w = (res, w')"
  shows "parse_refused w res w' \<or> parse_failed r w res w' \<or> parse_done env t config r w res w'"
proof (cases "extractData (pe_dom env) t (cfg_ExtractionSpec config) html")
  case (Inl e)
  then show ?thesis using p parse_fail_cases [OF inv l, of t] by (auto simp: parse_page_def)
next
  case (Inr result)
  note X = Inr
  have ir: "task_ID t = ts_ID r" using l by (auto simp: loaded_def)
  obtain up store where U: "uploadResultToS3 env (pm_TaskID msg) (task_URL t) result (w_store w) = (up, store)"
    by (metis surj_pair)
  have w1: "db_inv (w_db (w\<lparr>w_store := store\<rparr>))" "loaded (w_db (w\<lparr>w_store := store\<rparr>)) t r" using inv l by simp_all
  have same: "parse_refused (w\<lparr>w_store := store\<rparr>) res w' \<Longrightarrow> parse_refused w res w'"
    "parse_failed r (w\<lparr>w_store := store\<rparr>) res w' \<Longrightarrow> parse_failed r w res w'"
    by (auto simp: parse_refused_def parse_failed_def)
  show ?thesis
  proof (cases up)
    case (Inl e)
    then have "parse_fail env t (''failed to persist results: '' @ err_text e) (w\<lparr>w_store := store\<rparr>) = (res, w')"
      using p X U by (simp add: parse_page_def)
    then show ?thesis using parse_fail_cases [OF w1, of t] same by blast
  next
    case (Inr ks)
    then obtain n c where ks: "ks = (result_key (task_ID t), n)" and st: "store = (w_store w)(result_key (task_ID t) \<mapsto> c)"
      using uploadResult_cases [OF U] i by auto
    let ?parsed = "MarkAsParsed t (result_key (task_ID t)) ''application/json'' n (pe_now env)"
    let ?ts = "new_tasks env t html config"
    obtain pr db' where P: "persist env ?parsed ?ts (w_db w) = (pr, db')" by (metis surj_pair)
    have tail: "parse_page env msg config t html w =
       (case pr of Inl e \<Rightarrow> parse_fail env ?parsed (''failed to persist results: '' @ err_text e) (w\<lparr>w_store := store, w_db := db'\<rparr>)
        | Inr ids \<Rightarrow> (case publish_children env config ?ts ids (w_crawl w) of
                         (r, sent) \<Rightarrow> (r, w\<lparr>w_store := store, w_db := db', w_crawl := sent\<rparr>)))"
      using X U Inr ks P by (simp add: parse_page_def Let_def split: sum.splits)
    from persist_cases [OF inv l _ _ P] consider
      e where "pr = Inl e" "db' = w_db w"
    | new where "pr = Inr (map ts_ID new)" "db_inv db'" "subseq new (map SaveCrawlTaskToSnapshot ?ts)"
        "db' = (w_db w)\<lparr>db_tasks := set_row (task_ID t) (updated_row ?parsed r) (db_tasks (w_db w)) @ new\<rparr>" by auto
    then show ?thesis
    proof cases
      case 1
      then have "parse_fail env ?parsed (''failed to persist results: '' @ err_text e) (w\<lparr>w_store := store\<rparr>) = (res, w')"
        using p tail by simp
      then show ?thesis using parse_fail_cases [OF w1, of ?parsed] same by auto
    next
      case 2
      obtain sent where pc: "publish_children env config ?ts (map ts_ID new) (w_crawl w) = (res, sent)"
        and w': "w' = w\<lparr>w_store := store, w_db := db', w_crawl := sent\<rparr>"
        using p tail 2(1) by (auto split: prod.splits)
      have sub: "set new \<subseteq> SaveCrawlTaskToSnapshot ` set ?ts" using subseq_mem [OF 2(3)] by auto
      have "distinct (map task_ID ?ts)" if "inj (pe_fresh env)"
        unfolding new_tasks_ids [of env t html config] using that by (simp add: distinct_map inj_on_def)
      then have "\<exists>msgs. sent = w_crawl w @ msgs \<and> (inj (pe_fresh env) \<longrightarrow> children_sent env config new msgs res)"
        using publish_children_spec [OF pc _ sub] publish_children_appends [of env config ?ts "map ts_ID new" "w_crawl w"] pc
        by (cases "inj (pe_fresh env)") auto
      then obtain msgs where "sent = w_crawl w @ msgs" "inj (pe_fresh env) \<longrightarrow> children_sent env config new msgs res" by blast
      moreover have "\<forall>n \<in> set new. \<exists>c. n = SaveCrawlTaskToSnapshot c \<and> child_of env t config c"
      proof
        fix n assume "n \<in> set new"
        from subseq_mem [OF 2(3) this] obtain c where "c \<in> set ?ts" "n = SaveCrawlTaskToSnapshot c" by auto
        then show "\<exists>c. n = SaveCrawlTaskToSnapshot c \<and> child_of env t config c" using new_tasks_children by blast
      qed
      ultimately have "parse_done env t config r w res w'"
        unfolding parse_done_def using 2(2,4) w' st ir same_task_parsed [OF l]
        by (intro conjI exI [of _ "updated_row ?parsed r"] exI [of _ new] exI [of _ msgs]) simp_all
      then show ?thesis by blast
    qed
  qed
qed

lemma parse_reaches:
  assumes h: "parse_handleMessage env body w = (res, w')"
  shows "w' = w \<and> ((\<exists>e. res = Inl e) \<or> (\<exists>msg. pe_decode env body = Inr msg \<and> nothing_to_parse env msg w)) \<or>
    (\<exists>msg t job config html. pe_decode env body = Inr msg \<and> task_Get (pe_uuid_ok env) (pm_TaskID msg) (w_db w) = Inr t \<and>
       task_Status t \<noteq> TaskStatusParsed \<and> job_Get (pe_uuid_ok env) (task_JobID t) (w_db w) = Inr job \<and>
       config_Get (pe_uuid_ok env) (job_JobConfigID job) (w_db w) = Inr config \<and>
       parse_page env msg config t html w = (res, w'))"
proof (cases "w' = w \<and> ((\<exists>e. res = Inl e) \<or> (\<exists>msg. pe_decode env body = Inr msg \<and> nothing_to_parse env msg w))")
  case False
  obtain msg where msg: "pe_decode env body = Inr msg"
    using h False by (cases "pe_decode env body") (auto simp: parse_handleMessage_def)
  have False: "\<not> (w' = w \<and> ((\<exists>e. res = Inl e) \<or> nothing_to_parse env msg w))" using False msg by auto
  obtain i where "NewCrawlTaskID (pe_uuid_ok env) (pm_TaskID msg) = Inr i"
    using h False msg by (cases "NewCrawlTaskID (pe_uuid_ok env) (pm_TaskID msg)") (auto simp: parse_handleMessage_def)
  then have i: "NewCrawlTaskID (pe_uuid_ok env) (pm_TaskID msg) = Inr (pm_TaskID msg)" by (auto simp: NewTypedID_eq dest: NewID_InrD)
  obtain t where g: "db_read (pe_get env) (task_Get (pe_uuid_ok env) (pm_TaskID msg)) (w_db w) = Inr t"
    using h False msg i by (cases "db_read (pe_get env) (task_Get (pe_uuid_ok env) (pm_TaskID msg)) (w_db w)")
      (auto simp: parse_handleMessage_def nothing_to_parse_def split: if_splits)
  then have g': "task_Get (pe_uuid_ok env) (pm_TaskID msg) (w_db w) = Inr t" by (simp add: db_read_def split: option.splits)
  have st: "task_Status t \<noteq> TaskStatusParsed"
    using h False msg i g g' by (auto simp: parse_handleMessage_def nothing_to_parse_def)
  obtain job where j: "db_read (pe_job env) (job_Get (pe_uuid_ok env) (task_JobID t)) (w_db w) = Inr job"
    using h False msg i g g' st by (cases "db_read (pe_job env) (job_Get (pe_uuid_ok env) (task_JobID t)) (w_db w)")
      (auto simp: parse_handleMessage_def nothing_to_parse_def split: if_splits)
  then have j': "job_Get (pe_uuid_ok env) (task_JobID t) (w_db w) = Inr job" by (simp add: db_read_def split: option.splits)
  obtain config where c: "db_read (pe_config env) (config_Get (pe_uuid_ok env) (job_JobConfigID job)) (w_db w) = Inr config"
    using h False msg i g g' st j j' by (cases "db_read (pe_config env) (config_Get (pe_uuid_ok env) (job_JobConfigID job)) (w_db w)")
      (auto simp: parse_handleMessage_def nothing_to_parse_def split: if_splits)
  then have c': "config_Get (pe_uuid_ok env) (job_JobConfigID job) (w_db w) = Inr config" by (simp add: db_read_def split: option.splits)
  obtain html where "parse_page env msg config t html w = (res, w')"
    using h False msg i g st j c by (auto simp: parse_handleMessage_def split: sum.splits)
  then show ?thesis using msg g' st j' c' by blast
qed blast

lemma parse_handle_cases:
  assumes inv: "db_inv (w_db w)" and h: "parse_handleMessage env body w = (res, w')"
  shows "w' = w \<and> ((\<exists>e. res = Inl e) \<or> (\<exists>msg. pe_decode env body = Inr msg \<and> nothing_to_parse env msg w)) \<or>
    (\<exists>msg t r config job. pe_decode env body = Inr msg \<and> task_ID t = pm_TaskID msg \<and> loaded (w_db w) t r \<and>
       task_Get (pe_uuid_ok env) (pm_TaskID msg) (w_db w) = Inr t \<and> ts_Status r \<noteq> TaskStatusParsed \<and>
       job_Get (pe_uuid_ok env) (task_JobID t) (w_db w) = Inr job \<and>
       config_Get (pe_uuid_ok env) (job_JobConfigID job) (w_db w) = Inr config \<and>
       (parse_refused w res w' \<or> parse_failed r w res w' \<or> parse_done env t config r w res w'))"
  using parse_reaches [OF h]
proof (elim disjE exE conjE, goal_cases)
  case (3 msg t job config html)
  then obtain r where r: "loaded (w_db w) t r" "task_ID t = pm_TaskID msg" using task_Get_loaded by blast
  then have "ts_Status r \<noteq> TaskStatusParsed" using 3(3) by (auto simp: loaded_def)
  moreover have "parse_refused w res w' \<or> parse_failed r w res w' \<or> parse_done env t config r w res w'"
    using parse_page_cases [OF inv r(1) _ 3(6)] r(2) by simp
  ultimately show ?case using 3 r by blast
qed blast+

section \<open>Properties\<close>

text \<open>
  C10. The crawl stays inside its scope and its depth.  Every task the parser creates belongs to the
  job of the page, is exactly one level deeper, at most at the maximal depth, starts in progress, and
  its address is accepted by the scope rules, by the allowed patterns and, when the job respects it,
  by the robots check (whose errors allow).
\<close>

theorem discovered_tasks_in_scope:
  assumes "t \<in> set (new_tasks env task html config)"
  shows "task_JobID t = task_JobID task \<and> unat (task_Depth t) = unat (task_Depth task) + 1 \<and>
     task_Depth t \<le> MaxDepth (cfg_Scopes config) \<and> task_Status t = TaskStatusInProgress \<and>
     Validate (d_url_parse (pe_dom env)) (pe_re_match env) (task_URL t) (task_Depth t) (cfg_Scopes config) = Inr () \<and>
     (\<exists>patterns. CompileAllowedURLPatterns (AllowedURLPatterns (cfg_Scopes config)) = Inr patterns \<and>
        url_pattern_allowed patterns (task_URL t)) \<and>
     \<not> (cfg_RespectRobotsTxt config \<and> pe_robots env (task_URL t) = Inr False)"
  using new_tasks_children [OF assms] unfolding child_of_def .

definition sample_parse_env :: "string parse_env" where
  "sample_parse_env = \<lparr>pe_dom = sample_dom,
     pe_decode = (\<lambda>b. Inr \<lparr>pm_TaskID = b, pm_JobID = ''j1'', pm_EnqueuedAt = 9, pm_TraceContext = []\<rparr>),
     pe_uuid_ok = ok2, pe_re_match = (\<lambda>p s. Inr False), pe_get = None, pe_job = None, pe_config = None, pe_load = None,
     pe_update = None, pe_encode = (\<lambda>i u r. Inr ''{}''), pe_upload = None, pe_robots = (\<lambda>_. Inr True), pe_order = id,
     pe_fresh = (\<lambda>k. ''n0'' @ replicate k (CHR ''0'')), pe_begin = None, pe_tx_update = None, pe_tx_create = None, pe_commit = None,
     pe_rand = (\<lambda>_ _. 0), pe_publish = (\<lambda>_. None), pe_queues = [''crawl_queue''], pe_now = 40, pe_trace = []\<rparr>"

lemma TrimSpace_b: "TrimSpace ''http://b'' = ''http://b''"
  by (simp add: TrimSpace_def is_space_def of_char_def)

lemma sample_new_tasks:
  "new_tasks sample_parse_env (new_task ''t1'' ''j1'' ''http://a'' 7 0) ''http://b'' (sample_config ''c1'') =
     [new_task ''n0'' ''j1'' ''http://b'' 40 1]"
  by (simp add: new_tasks_def preparePaginationLinks_def prepareDiscoveredLinks_def sample_config_def crawl_mode_def
      sample_parse_env_def sample_dom_def task_base_url_def base_url_string_def anchor_addresses_def link_address_def
      address_set_def set_add_def link_accepted_def Validate_def url_pattern_allowed_def tasks_for_def status_defs
      TrimSpace_b ToLower_def lower_char_def Let_def new_task_def)

theorem discovered_tasks_in_scope_witness:
  "\<exists>t \<in> set (new_tasks sample_parse_env (new_task ''t1'' ''j1'' ''http://a'' 7 0) ''http://b'' (sample_config ''c1'')).
     unat (task_Depth t) = 1 \<and> task_JobID t = ''j1''"
proof
  let ?t = "new_task ''n0'' ''j1'' ''http://b'' 40 1"
  show m: "?t \<in> set (new_tasks sample_parse_env (new_task ''t1'' ''j1'' ''http://a'' 7 0) ''http://b'' (sample_config ''c1''))"
    by (simp add: sample_new_tasks)
  show "unat (task_Depth ?t) = 1 \<and> task_JobID ?t = ''j1''"
    using discovered_tasks_in_scope [OF m] by simp
qed

text \<open>
  C2. Parsing is atomic and sends what it stores.  Whatever fails during the call, the tables stay
  consistent and one of these holds.  Nothing happened, in the database or to the queues: an error
  is returned, or the message is acknowledged because the task it names, its job or its configuration is gone
  or the task is parsed.  Or the row of the task that the message names is marked as failed without a
  result and nothing is sent.  Or that row is parsed, its result is stored under its key, rows are
  appended which are children of that task under the configuration of its own job, and the queues receive, for
  each appended row whose publication was accepted and in their order, the message with the row's
  fields, in the queue the weights of that configuration select; the sending stops early only where
  that selection panics, and then the call returns an error.
\<close>

theorem parse_atomic:
  assumes inv: "db_inv (w_db w)" and fresh: "inj (pe_fresh env)" and h: "parse_handleMessage env body w = (res, w')"
  shows "db_inv (w_db w') \<and>
     (w_db w' = w_db w \<and> w_crawl w' = w_crawl w \<and>
        ((\<exists>e. res = Inl e) \<or> (\<exists>msg. pe_decode env body = Inr msg \<and> nothing_to_parse env msg w)) \<or>
      (\<exists>msg r t job config. pe_decode env body = Inr msg \<and> find_task (w_db w) (pm_TaskID msg) = Some r \<and>
         ts_Status r \<noteq> TaskStatusParsed \<and> r = SaveCrawlTaskToSnapshot t \<and>
         task_Get (pe_uuid_ok env) (pm_TaskID msg) (w_db w) = Inr t \<and>
         job_Get (pe_uuid_ok env) (ts_JobID r) (w_db w) = Inr job \<and>
         config_Get (pe_uuid_ok env) (job_JobConfigID job) (w_db w) = Inr config \<and>
         (parse_failed r w res w' \<or>
          (\<exists>x new msgs. w_db w' = (w_db w)\<lparr>db_tasks := set_row (pm_TaskID msg) x (db_tasks (w_db w)) @ new\<rparr> \<and>
             same_task x r \<and> ts_Status x = TaskStatusParsed \<and>
             ts_ResultObjectKey x = Some (result_key (pm_TaskID msg)) \<and> result_key (pm_TaskID msg) \<in> dom (w_store w') \<and>
             (\<forall>n \<in> set new. \<exists>c. n = SaveCrawlTaskToSnapshot c \<and> child_of env t config c) \<and>
             w_crawl w' = w_crawl w @ msgs \<and> children_sent env config new msgs res))))"
  using parse_handle_cases [OF inv h]
proof (elim disjE exE conjE, goal_cases)
  case (3 msg t r config job)
  then show ?case using inv by (simp add: parse_refused_def)
next
  case (4 msg t r config job)
  then have "db_inv (w_db w')" "find_task (w_db w) (pm_TaskID msg) = Some r" "r = SaveCrawlTaskToSnapshot t"
    "task_JobID t = ts_JobID r" by (auto simp: parse_failed_def loaded_def)
  then show ?case using 4 by metis
next
  case (5 msg t r config job)
  then have f: "find_task (w_db w) (pm_TaskID msg) = Some r" "r = SaveCrawlTaskToSnapshot t" "task_JobID t = ts_JobID r"
    "ts_ID r = pm_TaskID msg" by (auto simp: loaded_def)
  from 5(8) fresh have "db_inv (w_db w')" "\<exists>x new msgs. w_db w' = (w_db w)\<lparr>db_tasks := set_row (pm_TaskID msg) x (db_tasks (w_db w)) @ new\<rparr> \<and>
             same_task x r \<and> ts_Status x = TaskStatusParsed \<and>
             ts_ResultObjectKey x = Some (result_key (pm_TaskID msg)) \<and> result_key (pm_TaskID msg) \<in> dom (w_store w') \<and>
             (\<forall>n \<in> set new. \<exists>c. n = SaveCrawlTaskToSnapshot c \<and> child_of env t config c) \<and>
             w_crawl w' = w_crawl w @ msgs \<and> children_sent env config new msgs res"
    unfolding parse_done_def f(4) by blast+
  then show ?case using 5 f by metis
qed (use inv in auto)

text \<open>A world in which the page of the task has been fetched: it links to another address.\<close>

definition fetched_row :: CrawlTaskSnapshot where
  "fetched_row = SaveCrawlTaskToSnapshot (MarkAsFetched (new_task ''t1'' ''j1'' ''http://a'' 7 0) ''http://a'' ''pages/j1/t1.html'')"

definition fetched_world :: world where
  "fetched_world = \<lparr>w_db = sample_db\<lparr>db_tasks := [fetched_row]\<rparr>,
     w_store = [''pages/j1/t1.html'' \<mapsto> (''http://b'', ''text/html'')], w_parsing = [], w_crawl = []\<rparr>"

lemma fetched_world_inv: "db_inv (w_db fetched_world)"
  by (simp add: db_inv_def tasks_inv_def fetched_world_def fetched_row_def sample_db_def sample_config_def sample_job_def
      SaveCrawlJobToSnapshot_def ID_IsEmpty_def new_task_def)

lemma fetched_task_get:
  "\<exists>t job. task_Get ok2 ''t1'' (w_db fetched_world) = Inr t \<and> job_Get ok2 ''j1'' (w_db fetched_world) = Inr job \<and>
     t = (MarkAsFetched (new_task ''t1'' ''j1'' ''http://a'' 7 0) ''http://a'' ''pages/j1/t1.html'')\<lparr>task_Job := task_Job t\<rparr> \<and>
     job_JobConfigID job = ''c1''"
  by (simp add: task_Get_def job_Get_def find_task_def find_job_def fetched_world_def fetched_row_def sample_db_def
      MarkAsFetched_def new_task_def SaveCrawlTaskToSnapshot_def SaveCrawlJobToSnapshot_def sample_job_def
      job_columns_of_join_def RestoreCrawlTaskWithJobFromSnapshot_def RestoreCrawlJobFromSnapshot_def task_of_row_def
      NewTypedID_eq NewID_def ok2_def ID_IsEmpty_def scanCrawlJobWithConfig_def find_config_def sample_config_def
      RestoreCrawlJobConfigFromSnapshot_def)

lemma fetched_config_get: "config_Get ok2 ''c1'' (w_db fetched_world) = Inr (sample_config ''c1'')"
  by (simp add: config_Get_def find_config_def fetched_world_def sample_db_def sample_config_def
      RestoreCrawlJobConfigFromSnapshot_def NewTypedID_eq NewID_def ok2_def ID_IsEmpty_def JobTypeOnce_def)

lemma sample_children:
  "new_tasks sample_parse_env ((MarkAsFetched (new_task ''t1'' ''j1'' ''http://a'' 7 0) ''http://a'' k)\<lparr>task_Job := j\<rparr>) ''http://b''
     (sample_config ''c1'') = [new_task ''n0'' ''j1'' ''http://b'' 40 1]"
  by (simp add: new_tasks_def preparePaginationLinks_def prepareDiscoveredLinks_def sample_config_def crawl_mode_def
      sample_parse_env_def sample_dom_def task_base_url_def base_url_string_def anchor_addresses_def link_address_def
      address_set_def set_add_def link_accepted_def Validate_def url_pattern_allowed_def tasks_for_def status_defs
      TrimSpace_b ToLower_def lower_char_def Let_def new_task_def MarkAsFetched_def)

lemma sample_fresh: "inj (pe_fresh sample_parse_env)"
  by (rule injI) (auto simp: sample_parse_env_def dest: arg_cong [where f = length])

theorem parse_atomic_witness:
  "\<exists>w'. parse_handleMessage sample_parse_env ''t1'' fetched_world = (Inr (), w') \<and> db_inv (w_db w') \<and>
     w_crawl w' = [(''crawl_queue'', \<lparr>cm_TaskID = ''n0'', cm_JobID = ''j1'', cm_URL = ''http://b'', cm_EnqueuedAt = 40,
                     cm_TraceContext = []\<rparr>)]"
proof -
  obtain t job where g: "task_Get ok2 ''t1'' (w_db fetched_world) = Inr t" "job_Get ok2 ''j1'' (w_db fetched_world) = Inr job"
    "job_JobConfigID job = ''c1''"
    and t: "t = (MarkAsFetched (new_task ''t1'' ''j1'' ''http://a'' 7 0) ''http://a'' ''pages/j1/t1.html'')\<lparr>task_Job := task_Job t\<rparr>"
    using fetched_task_get by blast
  have f: "task_JobID t = ''j1''" "task_Status t = TaskStatusFetched" "task_MinioObjectKey t = ''pages/j1/t1.html''"
    "task_ID t = ''t1''" "task_URL t = ''http://a''"
    by (subst t, simp add: MarkAsFetched_def)+
  have nt: "new_tasks sample_parse_env t ''http://b'' (sample_config ''c1'') = [new_task ''n0'' ''j1'' ''http://b'' 40 1]"
    by (subst t) (rule sample_children)
  have ex: "\<exists>res. extractData sample_dom t (cfg_ExtractionSpec (sample_config ''c1'')) ''http://b'' = Inr res"
    by (simp add: extractData_def sample_dom_def Let_def)
  then obtain res where ex: "extractData sample_dom t (cfg_ExtractionSpec (sample_config ''c1'')) ''http://b'' = Inr res" ..
  have load: "w_store fetched_world ''pages/j1/t1.html'' = Some (''http://b'', ''text/html'')"
    "w_crawl fetched_world = []" by (simp_all add: fetched_world_def)
  let ?p = "MarkAsParsed t (result_key ''t1'') ''application/json'' 2 40"
  have P: "\<exists>db'. persist sample_parse_env ?p [new_task ''n0'' ''j1'' ''http://b'' 40 1] (w_db fetched_world) = (Inr [''n0''], db')"
    using f by (simp add: persist_def transaction_def sample_parse_env_def fetched_world_def fetched_row_def sample_db_def
        task_Update_def find_task_def task_key_def task_BulkCreate_def find_job_def sample_job_def NewTypedID_eq NewID_def
        ok2_def updated_row_def SaveCrawlTaskToSnapshot_def MarkAsParsed_def MarkAsFetched_def new_task_def SaveCrawlJobToSnapshot_def)
  then obtain db' where P: "persist sample_parse_env ?p [new_task ''n0'' ''j1'' ''http://b'' 40 1] (w_db fetched_world) = (Inr [''n0''], db')" ..
  have env: "pe_dom sample_parse_env = sample_dom" "pe_uuid_ok sample_parse_env = ok2" "pe_now sample_parse_env = 40"
    "pe_encode sample_parse_env = (\<lambda>i u r. Inr ''{}'')" "pe_upload sample_parse_env = None"
    "pe_get sample_parse_env = None" "pe_job sample_parse_env = None" "pe_config sample_parse_env = None"
    "pe_load sample_parse_env = None" "pe_publish sample_parse_env = (\<lambda>_. None)" "pe_trace sample_parse_env = []" "pe_queues sample_parse_env = [''crawl_queue'']"
    "pe_decode sample_parse_env = (\<lambda>b. Inr \<lparr>pm_TaskID = b, pm_JobID = ''j1'', pm_EnqueuedAt = 9, pm_TraceContext = []\<rparr>)"
    by (simp_all add: sample_parse_env_def)
  have new: "task_ID (new_task i j u n d) = i" "task_JobID (new_task i j u n d) = j" "task_URL (new_task i j u n d) = u"
    "task_EnqueuedAt (new_task i j u n d) = n" for i j u n d by (simp_all add: new_task_def)
  have qw: "cfg_QueueWeights (sample_config ''c1'') = []" by (simp add: sample_config_def)
  have "\<exists>w'. parse_handleMessage sample_parse_env ''t1'' fetched_world = (Inr (), w') \<and>
     w_crawl w' = [(''crawl_queue'', \<lparr>cm_TaskID = ''n0'', cm_JobID = ''j1'', cm_URL = ''http://b'', cm_EnqueuedAt = 40,
                     cm_TraceContext = []\<rparr>)]"
    by (simp add: parse_handleMessage_def env NewTypedID_eq NewID_def ok2_def db_read_def g f fetched_config_get load
        parse_page_def ex uploadResultToS3_def nt P Let_def SelectCrawlQueue_def uniform_queue_def qw new)
  then obtain w' where w': "parse_handleMessage sample_parse_env ''t1'' fetched_world = (Inr (), w')"
    "w_crawl w' = [(''crawl_queue'', \<lparr>cm_TaskID = ''n0'', cm_JobID = ''j1'', cm_URL = ''http://b'', cm_EnqueuedAt = 40,
                     cm_TraceContext = []\<rparr>)]" by (elim exE conjE) (rule that)
  have "db_inv (w_db w')" using parse_atomic [OF fetched_world_inv sample_fresh w'(1)] by (rule conjunct1)
  with w' show ?thesis by (intro exI [of _ w'] conjI)
qed

text \<open>
  Parsing is idempotent: a message for a task that is already parsed, delivered again in any
  environment, changes nothing and, when the task can be read, is acknowledged.
\<close>

theorem parse_redelivery:
  assumes "db_inv (w_db w)" and "pe_decode env body = Inr msg"
    and "find_task (w_db w) (pm_TaskID msg) = Some r" and "ts_Status r = TaskStatusParsed"
  shows "snd (parse_handleMessage env body w) = w \<and>
     (\<forall>t. pe_get env = None \<and> task_Get (pe_uuid_ok env) (pm_TaskID msg) (w_db w) = Inr t \<longrightarrow>
        fst (parse_handleMessage env body w) = Inr ())"
proof
  obtain res w' where h: "parse_handleMessage env body w = (res, w')" by (metis surj_pair)
  have "w' = w" using parse_handle_cases [OF assms(1) h] assms(2-4) by (auto simp: loaded_def)
  then show "snd (parse_handleMessage env body w) = w" using h by simp
  show "\<forall>t. pe_get env = None \<and> task_Get (pe_uuid_ok env) (pm_TaskID msg) (w_db w) = Inr t \<longrightarrow>
        fst (parse_handleMessage env body w) = Inr ()"
  proof (intro allI impI, elim conjE)
    fix t assume g: "pe_get env = None" "task_Get (pe_uuid_ok env) (pm_TaskID msg) (w_db w) = Inr t"
    obtain r' where r': "loaded (w_db w) t r'" "task_ID t = pm_TaskID msg" using task_Get_loaded [OF g(2)] by blast
    then have "task_Status t = TaskStatusParsed" using assms(3,4) by (auto simp: loaded_def)
    moreover have "valid_id (pe_uuid_ok env) (pm_TaskID msg)"
      using g(2) assms(3) by (auto simp: task_Get_def split: option.splits dest!: find_task_SomeD RestoreTask_InrD)
    ultimately show "fst (parse_handleMessage env body w) = Inr ()"
      using assms(2) g by (simp add: parse_handleMessage_def NewTypedID_eq db_read_def)
  qed
qed

theorem parse_redelivery_witness:
  "snd (parse_handleMessage sample_parse_env ''t1'' reparsed_world) = reparsed_world"
  using parse_redelivery [of reparsed_world sample_parse_env "''t1''"
      "\<lparr>pm_TaskID = ''t1'', pm_JobID = ''j1'', pm_EnqueuedAt = 9, pm_TraceContext = []\<rparr>"
      "SaveCrawlTaskToSnapshot (MarkAsParsed (new_task ''t1'' ''j1'' ''http://a'' 7 0) ''k'' ''application/json'' 3 12)"]
    reparsed_db_inv
  by (simp add: reparsed_world_def sample_parse_env_def find_task_def reparsed_db_def)

end
