(* ===== verification/Job_Services.thy ===== *)
theory Job_Services
  imports Parser_Worker
begin

text \<open>
  How jobs come into being: \<^verbatim>\<open>CreateCrawlJob\<close> and \<^verbatim>\<open>DeleteCrawlJob\<close> of the application
  service, the schedule worker, and the recovery of tasks whose message was lost
  (\<^verbatim>\<open>worker/scheduler_worker.go\<close>, \<^verbatim>\<open>worker/stuck_task_recovery.go\<close>).  \<open>job_env\<close> holds
  what one call draws from outside: generated identifiers, random numbers and clock readings of the
  \<open>k\<close>-th seed, JSON encoding, the request's trace context, and the failures of the statements.
\<close>

section \<open>Model\<close>

record job_env =
  je_uuid_ok :: "string \<Rightarrow> bool"
  je_configID :: string
  je_jobID :: string
  je_taskID :: "nat \<Rightarrow> string"
  je_eventID :: "nat \<Rightarrow> string"
  je_outboxID :: "nat \<Rightarrow> string"
  je_rand :: "nat \<Rightarrow> nat \<Rightarrow> nat"
  je_encode :: "TaskEnqueuedEvent \<Rightarrow> string res"
  je_trace :: trace_context
  je_queues :: "string list"
  je_created :: time
  je_now :: time
  je_event_now :: "nat \<Rightarrow> time"
  je_outbox_now :: "nat \<Rightarrow> time"
  je_begin :: "gerr option"
  je_commit :: "gerr option"
  je_config :: "gerr option"
  je_job :: "gerr option"
  je_tasks :: "gerr option"
  je_outbox :: "nat \<Rightarrow> gerr option"

text \<open>
  A transaction whose body may panic: the panic is recovered, the transaction is rolled back and the
  panic becomes the error.
\<close>

definition ReadCommitted ::
  "gerr option \<Rightarrow> gerr option \<Rightarrow> ('db \<Rightarrow> 'a res outcome \<times> 'db) \<Rightarrow> 'db \<Rightarrow> 'a res \<times> 'db" where
  "ReadCommitted fail_begin fail_commit body db =
     (if fail_begin = None \<and> fst (body db) = Panics
      then (Inl (ErrText ''panic recovered: invalid argument to Intn''), db)
      else transaction fail_begin fail_commit
             (\<lambda>db. case body db of (Returns r, db') \<Rightarrow> (r, db') | (Panics, db') \<Rightarrow> (Inl (ErrText ''panic''), db')) db)"

definition seed_task :: "'a job_env_scheme \<Rightarrow> CrawlJobID \<Rightarrow> nat \<Rightarrow> string \<Rightarrow> CrawlTask" where
  "seed_task env jid k url = new_task (je_taskID env k) jid url (je_now env) 0"

definition seed_event ::
  "'a job_env_scheme \<Rightarrow> QueueWeight list \<Rightarrow> trace_context \<Rightarrow> nat \<Rightarrow> CrawlTask \<Rightarrow> TaskEnqueuedEvent outcome" where
  "seed_event env weights trace k task =
     (case SelectCrawlQueue (je_rand env k) (je_queues env) weights of
        Panics \<Rightarrow> Panics
      | Returns q \<Rightarrow>
          Returns ((NewTaskEnqueuedEvent (task_ID task) (task_JobID task) (task_URL task) (task_EnqueuedAt task)
                      (je_eventID env k) (je_event_now env k))\<lparr>ev_TargetQueue := q, ev_TraceContext := trace\<rparr>))"

definition outbox_event ::
  "'a job_env_scheme \<Rightarrow> nat \<Rightarrow> CrawlTask \<Rightarrow> TaskEnqueuedEvent \<Rightarrow> string \<Rightarrow> time \<Rightarrow> OutboxEvent" where
  "outbox_event env k task event payload created =
     \<lparr>ob_ID = je_outboxID env k, ob_EventType = ev_Type event, ob_AggregateID = task_ID task,
      ob_Payload = payload, ob_OccurredAt = ev_OccurredAt event, ob_ProcessedAt = None, ob_CreatedAt = created\<rparr>"

subsection \<open>Creating and deleting a job\<close>

definition normalize_patterns :: "string list \<Rightarrow> string list" where
  "normalize_patterns ps = filter (\<lambda>p. p \<noteq> []) (map TrimSpace ps)"

text \<open>The loop over the seeds: the tasks are collected, the outbox events are inserted one by one.\<close>

fun create_seeds ::
  "job_env \<Rightarrow> QueueWeight list \<Rightarrow> CrawlJobID \<Rightarrow> nat \<Rightarrow> string list \<Rightarrow> CrawlTask list \<Rightarrow> DB \<Rightarrow>
     CrawlTask list res outcome \<times> DB" where
  "create_seeds env weights jid k [] tasks db = (Returns (Inr tasks), db)"
| "create_seeds env weights jid k (seed # seeds) tasks db =
     (let task = seed_task env jid k seed
      in case seed_event env weights (je_trace env) k task of
           Panics \<Rightarrow> (Panics, db)
         | Returns event \<Rightarrow>
             (case je_encode env event of
                Inl e \<Rightarrow> (Returns (Inl (ErrWrap ''failed to marshal event'' e)), db)
              | Inr payload \<Rightarrow>
                  (case db_call (je_outbox env k)
                          (outbox_Create (outbox_event env k task event payload (je_outbox_now env k))) db of
                     (Inl e, db') \<Rightarrow> (Returns (Inl (ErrWrap ''failed to create outbox event'' e)), db')
                   | (Inr _, db') \<Rightarrow> create_seeds env weights jid (Suc k) seeds (tasks @ [task]) db')))"

definition new_job :: "job_env \<Rightarrow> ID \<Rightarrow> CrawlJobConfig \<Rightarrow> CrawlJob" where
  "new_job env cid config =
     \<lparr>job_ID = je_jobID env, job_JobConfigID = cid, job_JobConfig = Some config, job_UserID = cfg_UserID config,
      job_Name = None, job_Status = TaskStatusInProgress, job_CreatedAt = je_created env, job_CompletedAt = None,
      job_ExportJSONKey = None, job_ExportCSVKey = None, job_ExportedAt = None,
      job_ExportStatus = ExportStatusNotStarted\<rparr>"

definition create_body :: "job_env \<Rightarrow> CrawlJobConfig \<Rightarrow> DB \<Rightarrow> CrawlJobID res outcome \<times> DB" where
  "create_body env config db =
     (case db_call (je_config env) (config_Create (je_uuid_ok env) config) db of
        (Inl e, db1) \<Rightarrow> (Returns (Inl (ErrWrap ''failed to create job config'' e)), db1)
      | (Inr cid, db1) \<Rightarrow>
          (case db_call (je_job env) (job_Create (je_uuid_ok env) (new_job env cid config)) db1 of
             (Inl e, db2) \<Rightarrow> (Returns (Inl (ErrWrap ''failed to create crawl job'' e)), db2)
           | (Inr jid, db2) \<Rightarrow>
               (case create_seeds env (cfg_QueueWeights config) jid 0 (cfg_Seeds config) [] db2 of
                  (Panics, db3) \<Rightarrow> (Panics, db3)
                | (Returns (Inl e), db3) \<Rightarrow> (Returns (Inl e), db3)
                | (Returns (Inr tasks), db3) \<Rightarrow>
                    (case db_call (je_tasks env) (task_BulkCreate (je_uuid_ok env) tasks) db3 of
                       (Inl e, db4) \<Rightarrow> (Returns (Inl (ErrWrap ''failed to create crawl tasks'' e)), db4)
                     | (Inr _, db4) \<Rightarrow> (Returns (Inr jid), db4)))))"

definition CreateCrawlJob :: "job_env \<Rightarrow> string \<Rightarrow> CrawlJobConfig \<Rightarrow> DB \<Rightarrow> CrawlJobID res \<times> DB" where
  "CreateCrawlJob env user command db =
     (if cfg_Seeds command = [] then (Inl (ErrText ''seeds list cannot be empty''), db)
      else
        let patterns = normalize_patterns (AllowedURLPatterns (cfg_Scopes command))
        in case CompileAllowedURLPatterns patterns of
             Inl e \<Rightarrow> (Inl (ErrWrap ''invalid scopes.allowed_url_patterns'' e), db)
           | Inr _ \<Rightarrow>
               (case NewUserID (je_uuid_ok env) user of
                  Inl e \<Rightarrow> (Inl (ErrWrap ''invalid user_id'' e), db)
                | Inr userID \<Rightarrow>
                    ReadCommitted (je_begin env) (je_commit env)
                      (create_body env (command\<lparr>cfg_ID := je_configID env, cfg_UserID := userID,
                          cfg_Scopes := (cfg_Scopes command)\<lparr>AllowedURLPatterns := patterns\<rparr>\<rparr>)) db))"

definition DeleteCrawlJob :: "(string \<Rightarrow> bool) \<Rightarrow> gerr option \<Rightarrow> gerr option \<Rightarrow> string \<Rightarrow> DB \<Rightarrow> unit res \<times> DB" where
  "DeleteCrawlJob uuid_ok fail_get fail_delete jobID db =
     (case NewCrawlJobID uuid_ok jobID of
        Inl e \<Rightarrow> (Inl (ErrWrap ''invalid job id'' e), db)
      | Inr i \<Rightarrow>
          (case db_read fail_get (job_Get uuid_ok i) db of
             Inl e \<Rightarrow> (Inl (ErrWrap ''get crawl job'' e), db)
           | Inr job \<Rightarrow> db_call fail_delete (config_Delete (job_JobConfigID job)) db))"

subsection \<open>The schedule worker\<close>

text \<open>
  \<open>se_parse\<close> is \<^verbatim>\<open>cron.ParseStandard\<close>, a schedule being its \<^verbatim>\<open>Next\<close> function;
  \<open>se_format\<close> is the RFC 3339 form of a time.  \<open>je_now\<close> is the clock reading of the call.
\<close>

record sched_env = job_env +
  se_parse :: "string \<Rightarrow> (time \<Rightarrow> time) res"
  se_format :: "time \<Rightarrow> string"
  se_sql_no_rows :: "gerr \<Rightarrow> bool"
  se_latest :: "gerr option"
  se_update :: "gerr option"
  se_bulk_outbox :: "gerr option"

definition scheduled_job :: "sched_env \<Rightarrow> CrawlJobConfig \<Rightarrow> CrawlJob" where
  "scheduled_job env config =
     \<lparr>job_ID = je_jobID env, job_JobConfigID = cfg_ID config, job_JobConfig = Some config,
      job_UserID = cfg_UserID config, job_Name = Some (cfg_Name config @ ''_'' @ se_format env (je_now env)),
      job_Status = TaskStatusInProgress, job_CreatedAt = je_now env, job_CompletedAt = None,
      job_ExportJSONKey = None, job_ExportCSVKey = None, job_ExportedAt = None,
      job_ExportStatus = ExportStatusNotStarted\<rparr>"

fun scheduled_seeds ::
  "sched_env \<Rightarrow> QueueWeight list \<Rightarrow> nat \<Rightarrow> string list \<Rightarrow> (CrawlTask list \<times> OutboxEvent list) res outcome" where
  "scheduled_seeds env weights k [] = Returns (Inr ([], []))"
| "scheduled_seeds env weights k (seed # seeds) =
     (let task = seed_task env (je_jobID env) k seed
      in case seed_event env weights [] k task of
           Panics \<Rightarrow> Panics
         | Returns event \<Rightarrow>
             (case je_encode env event of
                Inl e \<Rightarrow> Returns (Inl (ErrWrap ''failed to marshal task enqueue event'' e))
              | Inr payload \<Rightarrow>
                  (case scheduled_seeds env weights (Suc k) seeds of
                     Panics \<Rightarrow> Panics
                   | Returns (Inl e) \<Rightarrow> Returns (Inl e)
                   | Returns (Inr (ts, es)) \<Rightarrow>
                       Returns (Inr (task # ts, outbox_event env k task event payload (je_now env) # es)))))"

definition with_schedule :: "CrawlJobConfig \<Rightarrow> time option \<Rightarrow> time option \<Rightarrow> CrawlJobConfig" where
  "with_schedule config lastRun nextRun =
     config\<lparr>cfg_Schedule := (cfg_Schedule config)\<lparr>LastRunAt := lastRun, NextRunAt := nextRun\<rparr>\<rparr>"

definition scheduled_body :: "sched_env \<Rightarrow> CrawlJobConfig \<Rightarrow> (time \<Rightarrow> time) \<Rightarrow> DB \<Rightarrow> unit res outcome \<times> DB" where
  "scheduled_body env config0 schedule db =
     (let config = with_schedule config0 (Some (je_now env)) (Some (schedule (je_now env)))
      in case db_call (je_config env) (config_Update config) db of
           (Inl e, db1) \<Rightarrow> (Returns (Inl (ErrWrap ''failed to update schedule config'' e)), db1)
         | (Inr _, db1) \<Rightarrow>
             (case db_call (je_job env) (job_Create (je_uuid_ok env) (scheduled_job env config)) db1 of
                (Inl e, db2) \<Rightarrow> (Returns (Inl (ErrWrap ''failed to create scheduled crawl job'' e)), db2)
              | (Inr _, db2) \<Rightarrow>
                  (case scheduled_seeds env (cfg_QueueWeights config) 0 (cfg_Seeds config) of
                     Panics \<Rightarrow> (Panics, db2)
                   | Returns (Inl e) \<Rightarrow> (Returns (Inl e), db2)
                   | Returns (Inr (tasks, outboxEvents)) \<Rightarrow>
                       (case db_call (je_tasks env) (task_BulkCreate (je_uuid_ok env) tasks) db2 of
                          (Inl e, db3) \<Rightarrow> (Returns (Inl (ErrWrap ''failed to create scheduled crawl tasks'' e)), db3)
                        | (Inr _, db3) \<Rightarrow>
                            (case db_call (se_bulk_outbox env) (outbox_BulkCreate outboxEvents) db3 of
                               (Inl e, db4) \<Rightarrow> (Returns (Inl (ErrWrap ''failed to create scheduled outbox events'' e)), db4)
                             | (Inr _, db4) \<Rightarrow> (Returns (Inr ()), db4))))))"

definition createScheduledJob :: "sched_env \<Rightarrow> CrawlJobConfig \<Rightarrow> (time \<Rightarrow> time) \<Rightarrow> DB \<Rightarrow> unit res \<times> DB" where
  "createScheduledJob env config schedule db =
     ReadCommitted (je_begin env) (je_commit env) (scheduled_body env config schedule) db"

definition load_latest :: "sched_env \<Rightarrow> CrawlJobConfig \<Rightarrow> DB \<Rightarrow> CrawlJob option res" where
  "load_latest env config db =
     wrap_err (''failed to load last job for config '' @ cfg_ID config)
       (db_read (se_latest env) (job_GetLatestByConfigID (se_sql_no_rows env) (je_uuid_ok env) (cfg_ID config)) db)"

definition last_run_of :: "CrawlJobConfig \<Rightarrow> CrawlJob option \<Rightarrow> time option" where
  "last_run_of config lastJob =
     (case lastJob of
        None \<Rightarrow> LastRunAt (cfg_Schedule config)
      | Some j \<Rightarrow> if job_CompletedAt j \<noteq> None then Some (job_CreatedAt j) else LastRunAt (cfg_Schedule config))"

definition processConfig :: "sched_env \<Rightarrow> CrawlJobConfig \<Rightarrow> DB \<Rightarrow> unit res \<times> DB" where
  "processConfig env config db =
     (let cronExpr = TrimSpace (Cron (cfg_Schedule config))
      in if cronExpr = [] then (Inr (), db)
         else case se_parse env cronExpr of
           Inl e \<Rightarrow> (Inl (ErrWrap (''invalid cron expression '' @ [CHR 0x22] @ cronExpr @ [CHR 0x22]) e), db)
         | Inr schedule \<Rightarrow>
             (case NextRunAt (cfg_Schedule config) of
                None \<Rightarrow>
                  (case load_latest env config db of
                     Inl e \<Rightarrow> (Inl e, db)
                   | Inr lastJob \<Rightarrow>
                       let lastRun = last_run_of config lastJob;
                           baseTime = (case lastRun of None \<Rightarrow> je_now env | Some t \<Rightarrow> t)
                       in db_call (se_update env)
                            (config_Update (with_schedule config lastRun (Some (schedule baseTime)))) db)
              | Some nextRun \<Rightarrow>
                  if je_now env < nextRun then (Inr (), db)
                  else (case load_latest env config db of
                          Inl e \<Rightarrow> (Inl e, db)
                        | Inr lastJob \<Rightarrow>
                            if (case lastJob of None \<Rightarrow> False | Some j \<Rightarrow> job_CompletedAt j = None) then (Inr (), db)
                            else createScheduledJob env config schedule db)))"

subsection \<open>Recovery of stuck tasks\<close>

definition DefaultStuckTaskThreshold :: duration where "DefaultStuckTaskThreshold = 10 * Minute"
definition DefaultStuckTaskBatchSize :: nat where "DefaultStuckTaskBatchSize = 500"

record recovery_env =
  re_uuid_ok :: "string \<Rightarrow> bool"
  re_now :: time
  re_list :: "gerr option"
  re_rand :: "string \<Rightarrow> nat \<Rightarrow> nat"
  re_queues :: "string list"
  re_trace :: trace_context
  re_publish :: "string \<Rightarrow> gerr option"

definition stuck_message :: "recovery_env \<Rightarrow> CrawlTask \<Rightarrow> CrawlTaskMessage" where
  "stuck_message env task =
     \<lparr>cm_TaskID = task_ID task, cm_JobID = task_JobID task, cm_URL = task_URL task,
      cm_EnqueuedAt = task_EnqueuedAt task, cm_TraceContext = re_trace env\<rparr>"

text \<open>A refused publication is logged and the loop goes on; a panic would end the goroutine.\<close>

fun republish :: "recovery_env \<Rightarrow> CrawlTask list \<Rightarrow> sent \<Rightarrow> sent outcome" where
  "republish env [] sent = Returns sent"
| "republish env (task # tasks) sent =
     (case SelectCrawlQueue (re_rand env (task_ID task)) (re_queues env) [] of
        Panics \<Rightarrow> Panics
      | Returns q \<Rightarrow>
          republish env tasks
            (if re_publish env (task_ID task) = None then sent @ [(q, stuck_message env task)] else sent))"

definition recover :: "recovery_env \<Rightarrow> DB \<Rightarrow> sent \<Rightarrow> sent outcome" where
  "recover env db sent =
     (case db_read (re_list env)
             (task_ListStaleInProgress (re_uuid_ok env) (re_now env - DefaultStuckTaskThreshold) DefaultStuckTaskBatchSize) db of
        Inl _ \<Rightarrow> Returns sent
      | Inr tasks \<Rightarrow> republish env tasks sent)"

section \<open>Transactions that may panic\<close>

lemma ReadCommitted_error: "ReadCommitted fb fc body db = (Inl e, db') \<Longrightarrow> db' = db"
  by (auto simp: ReadCommitted_def split: if_splits dest: transaction_error_unchanged)

lemma ReadCommitted_commits:
  "ReadCommitted fb fc body db = (Inr x, db') \<longleftrightarrow>
     fb = None \<and> fc = None \<and> body db = (Returns (Inr x), db')"
  by (cases "body db") (auto simp: ReadCommitted_def transaction_commits split: outcome.splits)

lemma db_call_Inr: "db_call f op db = (Inr x, db') \<longleftrightarrow> f = None \<and> op db = (Inr x, db')"
  by (cases f) simp_all

section \<open>Runs\<close>

text \<open>The outbox event that announces the task of one seed.\<close>

definition announces :: "(TaskEnqueuedEvent \<Rightarrow> string res) \<Rightarrow> CrawlJobID \<Rightarrow> string \<Rightarrow> OutboxEvent \<Rightarrow> bool" where
  "announces enc jid url e \<longleftrightarrow>
     ob_EventType e = EventTypeTaskEnqueued \<and> ob_ProcessedAt e = None \<and>
     (\<exists>event. enc event = Inr (ob_Payload e) \<and> ev_TaskID event = ob_AggregateID e \<and>
        ev_JobID event = jid \<and> ev_URL event = url)"

text \<open>
  What the start of a run adds: one task per distinct seed, at depth 0 and in progress, one outbox
  event per seed, and for each task the event that announces it.
\<close>

definition started_run ::
  "(TaskEnqueuedEvent \<Rightarrow> string res) \<Rightarrow> CrawlJobID \<Rightarrow> string list \<Rightarrow> DB \<Rightarrow> DB \<Rightarrow> bool" where
  "started_run enc jid seeds db db' \<longleftrightarrow>
     (\<exists>new es. db_tasks db' = db_tasks db @ new \<and> db_outbox db' = db_outbox db @ es \<and>
        (\<forall>r \<in> set new. ts_JobID r = jid \<and> ts_Depth r = 0 \<and> ts_Status r = TaskStatusInProgress \<and> ts_URL r \<in> set seeds) \<and>
        (\<forall>s \<in> set seeds. \<exists>!r. r \<in> set new \<and> ts_URL r = s) \<and>
        list_all2 (announces enc jid) seeds es \<and>
        (\<forall>r \<in> set new. \<exists>e \<in> set es. ob_AggregateID e = ts_ID r \<and> announces enc jid (ts_URL r) e))"

definition seed_tasks :: "'a job_env_scheme \<Rightarrow> CrawlJobID \<Rightarrow> nat \<Rightarrow> string list \<Rightarrow> CrawlTask list" where
  "seed_tasks env jid k seeds = map (\<lambda>(k, s). seed_task env jid k s) (enumerate k seeds)"

lemma seed_tasks_simps [simp]:
  "seed_tasks env jid k [] = []"
  "seed_tasks env jid k (s # seeds) = seed_task env jid k s # seed_tasks env jid (Suc k) seeds"
  by (simp_all add: seed_tasks_def)

lemma seed_tasks_urls: "map task_URL (seed_tasks env jid k seeds) = seeds"
  by (induction seeds arbitrary: k) (simp_all add: seed_task_def)

lemma seed_tasks_ids: "map task_ID (seed_tasks env jid k seeds) = map (je_taskID env) [k ..< k + length seeds]"
  by (induction seeds arbitrary: k) (simp_all add: seed_task_def upt_conv_Cons del: upt_Suc)

lemma seed_tasks_mem:
  assumes "t \<in> set (seed_tasks env jid k seeds)"
  shows "task_JobID t = jid \<and> task_Depth t = 0 \<and> task_Status t = TaskStatusInProgress \<and> task_URL t \<in> set seeds"
proof -
  have "task_URL t \<in> set (map task_URL (seed_tasks env jid k seeds))" using assms by (simp only: set_map imageI)
  then have "task_URL t \<in> set seeds" by (simp only: seed_tasks_urls)
  moreover have "task_JobID t = jid \<and> task_Depth t = 0 \<and> task_Status t = TaskStatusInProgress"
    using assms by (induction seeds arbitrary: k) (auto simp: seed_task_def)
  ultimately show ?thesis by blast
qed

text \<open>The event of a seed belongs to its task.\<close>

definition event_of ::
  "(TaskEnqueuedEvent \<Rightarrow> string res) \<Rightarrow> CrawlTask \<Rightarrow> OutboxEvent \<Rightarrow> bool" where
  "event_of enc t e \<longleftrightarrow> ob_AggregateID e = task_ID t \<and> announces enc (task_JobID t) (task_URL t) e"

lemma seed_event_Returns:
  assumes "seed_event env ws trace k t = Returns event" and "je_encode env event = Inr payload"
  shows "event_of (je_encode env) t (outbox_event env k t event payload created)"
  using assms by (auto simp: seed_event_def event_of_def announces_def outbox_event_def NewTaskEnqueuedEvent_def
      split: outcome.splits)

lemma events_announce:
  assumes "list_all2 (event_of enc) (seed_tasks env jid k seeds) es"
  shows "list_all2 (announces enc jid) seeds es"
  using assms
proof (induction seeds arbitrary: k es)
  case (Cons s seeds)
  then show ?case
    by (auto simp: list_all2_Cons1 event_of_def seed_task_def)
qed simp

lemma run_added:
  assumes inv: "db_inv db" and fresh: "jid \<notin> ts_JobID ` set (db_tasks db)"
    and bc: "task_BulkCreate ok (seed_tasks env jid k seeds) db = (Inr ids, db')"
    and es: "list_all2 (event_of enc) (seed_tasks env jid k seeds) es"
    and ob: "db_outbox db'' = db_outbox db0 @ es" and t0: "db_tasks db = db_tasks db0" and t1: "db_tasks db'' = db_tasks db'"
  shows "started_run enc jid seeds db0 db''"
proof -
  let ?ts = "seed_tasks env jid k seeds"
  obtain new where new: "db_tasks db' = db_tasks db @ new" "subseq new (map SaveCrawlTaskToSnapshot ?ts)"
    using BulkCreate_extends [OF bc] by auto
  have keys: "task_key ` set (db_tasks db') = task_key ` set (db_tasks db) \<union> task_key ` set (map SaveCrawlTaskToSnapshot ?ts)"
  proof (cases "?ts = []")
    case False
    then obtain ids' where "insert_rows (db_tasks db) (map SaveCrawlTaskToSnapshot ?ts) = Inr (db_tasks db', ids')"
      using bc by (auto simp: task_BulkCreate_def split: if_splits sum.splits prod.splits)
    then show ?thesis by (rule insert_rows_keys)
  qed (use bc in \<open>simp add: task_BulkCreate_def\<close>)
  have inv': "tasks_inv (db_tasks db')" using task_BulkCreate_inv [OF inv bc] by (simp add: db_inv_def)
  have mem: "\<exists>t \<in> set ?ts. r = SaveCrawlTaskToSnapshot t" if "r \<in> set new" for r
    using subseq_mem [OF new(2) that] by auto
  have fields: "ts_JobID r = jid \<and> ts_Depth r = 0 \<and> ts_Status r = TaskStatusInProgress \<and> ts_URL r \<in> set seeds"
    if "r \<in> set new" for r using mem [OF that] seed_tasks_mem by fastforce
  have one: "\<exists>!r. r \<in> set new \<and> ts_URL r = s" if s: "s \<in> set seeds" for s
  proof -
    have "s \<in> task_URL ` set ?ts" using s seed_tasks_urls [of env jid k seeds] by (metis set_map)
    then obtain t where t: "t \<in> set ?ts" "task_URL t = s" by blast
    then have "task_key (SaveCrawlTaskToSnapshot t) \<in> task_key ` set (db_tasks db')" using keys by auto
    then obtain r where r: "r \<in> set (db_tasks db')" "task_key r = (jid, s)"
      using t seed_tasks_mem [OF t(1)] by (auto simp: task_key_def image_iff)
    then have "r \<in> set new" using fresh new(1) by (auto simp: task_key_def)
    moreover have "x = r" if "x \<in> set new" "ts_URL x = s" for x
      using tasks_inv_same_key [OF inv', of x r] r that fields [OF that(1)] new(1) by (simp add: task_key_def)
    ultimately show ?thesis using r(2) unfolding task_key_def prod.inject by blast
  qed
  have ev: "\<exists>e \<in> set es. ob_AggregateID e = ts_ID r \<and> announces enc jid (ts_URL r) e" if r: "r \<in> set new" for r
  proof -
    obtain t where t: "t \<in> set ?ts" "r = SaveCrawlTaskToSnapshot t" using mem [OF r] by blast
    obtain e where "e \<in> set es" "event_of enc t e" using es t(1) by (metis in_set_conv_nth list_all2_conv_all_nth)
    then show ?thesis using t seed_tasks_mem [OF t(1)] by (auto simp: event_of_def)
  qed
  show ?thesis unfolding started_run_def
    by (intro exI [of _ new] exI [of _ es] conjI ballI)
      (use new(1) ob t0 t1 fields one ev events_announce [OF es] in auto)
qed

section \<open>Creating a job\<close>

lemma create_seeds_step:
  assumes "create_seeds env ws jid k (s # seeds) tasks db = (Returns (Inr ts), db')"
  shows "\<exists>e db1. event_of (je_encode env) (seed_task env jid k s) e \<and> outbox_Create e db = (Inr (), db1) \<and>
           create_seeds env ws jid (Suc k) seeds (tasks @ [seed_task env jid k s]) db1 = (Returns (Inr ts), db')"
proof -
  let ?t = "seed_task env jid k s"
  obtain event payload where ev: "seed_event env ws (je_trace env) k ?t = Returns event"
    "je_encode env event = Inr payload"
    using assms by (auto simp: Let_def split: outcome.splits sum.splits)
  let ?e = "outbox_event env k ?t event payload (je_outbox_now env k)"
  obtain u db1 where c: "db_call (je_outbox env k) (outbox_Create ?e) db = (Inr u, db1)"
    and rest: "create_seeds env ws jid (Suc k) seeds (tasks @ [?t]) db1 = (Returns (Inr ts), db')"
    using assms ev by (auto simp: Let_def split: sum.splits prod.splits)
  have "outbox_Create ?e db = (Inr (), db1)" using c by (simp add: db_call_Inr)
  then show ?thesis using rest seed_event_Returns [OF ev] by blast
qed

lemma create_seeds_done:
  assumes "create_seeds env ws jid k seeds tasks db = (Returns (Inr ts), db')"
  shows "ts = tasks @ seed_tasks env jid k seeds \<and>
         (\<exists>es. db' = db\<lparr>db_outbox := db_outbox db @ es\<rparr> \<and>
               list_all2 (event_of (je_encode env)) (seed_tasks env jid k seeds) es)"
  using assms
proof (induction seeds arbitrary: k tasks db)
  case (Cons s seeds)
  let ?t = "seed_task env jid k s"
  obtain e db1 where e: "event_of (je_encode env) ?t e" "outbox_Create e db = (Inr (), db1)"
    and rest: "create_seeds env ws jid (Suc k) seeds (tasks @ [?t]) db1 = (Returns (Inr ts), db')"
    using create_seeds_step [OF Cons.prems] by blast
  have db1: "db1 = db\<lparr>db_outbox := db_outbox db @ [e]\<rparr>" using e(2) by (simp add: outbox_Create_def split: if_splits)
  obtain es where es: "ts = (tasks @ [?t]) @ seed_tasks env jid (Suc k) seeds"
    "db' = db1\<lparr>db_outbox := db_outbox db1 @ es\<rparr>" "list_all2 (event_of (je_encode env)) (seed_tasks env jid (Suc k) seeds) es"
    using Cons.IH [OF rest] by blast
  show ?case using es db1 e(1) by (intro conjI exI [of _ "e # es"]) simp_all
qed simp

lemma create_seeds_inv:
  "create_seeds env ws jid k seeds tasks db = (Returns (Inr ts), db') \<Longrightarrow> db_inv db \<Longrightarrow> db_inv db'"
proof (induction seeds arbitrary: k tasks db)
  case (Cons s seeds)
  then show ?case using create_seeds_step [OF Cons.prems(1)] outbox_Create_inv by blast
qed simp

lemma config_Create_done:
  "config_Create ok c db = (Inr cid, db') \<Longrightarrow>
     cid = cfg_ID c \<and> db' = db\<lparr>db_configs := db_configs db @ [SaveCrawlJobConfigToSnapshot c]\<rparr>"
  by (auto simp: config_Create_def Let_def SaveCrawlJobConfigToSnapshot_def split: if_splits dest: NewID_InrD)

lemma job_Create_done:
  "job_Create ok j db = (Inr jid, db') \<Longrightarrow>
     jid = job_ID j \<and> job_ID j \<notin> js_ID ` set (db_jobs db) \<and> db' = db\<lparr>db_jobs := db_jobs db @ [SaveCrawlJobToSnapshot j]\<rparr>"
  by (auto simp: job_Create_def Let_def NewTypedID_eq split: if_splits option.splits dest: NewID_InrD)

lemma fresh_job_tasks:
  assumes "db_inv db" and "jid \<notin> js_ID ` set (db_jobs db)"
  shows "jid \<notin> ts_JobID ` set (db_tasks db)"
  using assms by (auto simp: db_inv_def)

definition submitted_config :: "job_env \<Rightarrow> string \<Rightarrow> CrawlJobConfig \<Rightarrow> CrawlJobConfig" where
  "submitted_config env user command =
     command\<lparr>cfg_ID := je_configID env, cfg_UserID := user,
       cfg_Scopes := (cfg_Scopes command)\<lparr>AllowedURLPatterns := normalize_patterns (AllowedURLPatterns (cfg_Scopes command))\<rparr>\<rparr>"

lemma submitted_fields [simp]:
  "cfg_ID (submitted_config env user c) = je_configID env" "cfg_Seeds (submitted_config env user c) = cfg_Seeds c"
  "cfg_QueueWeights (submitted_config env user c) = cfg_QueueWeights c" "cfg_Name (submitted_config env user c) = cfg_Name c"
  by (simp_all add: submitted_config_def)

lemma CreateCrawlJob_eq:
  "CreateCrawlJob env user command db = (Inr jid, db') \<longleftrightarrow>
     cfg_Seeds command \<noteq> [] \<and> valid_id (je_uuid_ok env) user \<and> je_begin env = None \<and> je_commit env = None \<and>
     create_body env (submitted_config env user command) db = (Returns (Inr jid), db')"
  unfolding CreateCrawlJob_def Let_def CompileAllowedURLPatterns_ok NewTypedID_eq
  by (auto simp: ReadCommitted_commits submitted_config_def NewID_def valid_id_def)

lemma create_body_done:
  assumes inv: "db_inv db" and b: "create_body env config db = (Returns (Inr jid), db')"
  shows "db_inv db' \<and> jid = je_jobID env \<and> db_configs db' = db_configs db @ [SaveCrawlJobConfigToSnapshot config] \<and>
         db_jobs db' = db_jobs db @ [SaveCrawlJobToSnapshot (new_job env (cfg_ID config) config)] \<and>
         started_run (je_encode env) jid (cfg_Seeds config) db db'"
proof -
  obtain cid db1 where c: "config_Create (je_uuid_ok env) config db = (Inr cid, db1)"
    using b by (auto simp: create_body_def db_call_Inr split: prod.splits sum.splits)
  note C = config_Create_done [OF c] config_Create_inv [OF inv c]
  obtain j db2 where j: "job_Create (je_uuid_ok env) (new_job env cid config) db1 = (Inr j, db2)"
    using b c by (auto simp: create_body_def db_call_Inr split: prod.splits sum.splits)
  note J = job_Create_done [OF j] job_Create_inv [OF C(2) j]
  obtain ts db3 where s: "create_seeds env (cfg_QueueWeights config) j 0 (cfg_Seeds config) [] db2 = (Returns (Inr ts), db3)"
    using b c j by (auto simp: create_body_def db_call_Inr split: prod.splits sum.splits outcome.splits)
  obtain es where S: "ts = seed_tasks env j 0 (cfg_Seeds config)" "db_inv db3" "db3 = db2\<lparr>db_outbox := db_outbox db2 @ es\<rparr>"
    "list_all2 (event_of (je_encode env)) (seed_tasks env j 0 (cfg_Seeds config)) es"
    using create_seeds_done [OF s] create_seeds_inv [OF s J(2)] by auto
  obtain ids where t: "task_BulkCreate (je_uuid_ok env) ts db3 = (Inr ids, db')" and jid: "jid = j"
    using b c j s by (auto simp: create_body_def db_call_Inr split: prod.splits sum.splits outcome.splits)
  have id: "j = je_jobID env" using J(1) by (simp add: new_job_def)
  have "je_jobID env \<notin> ts_JobID ` set (db_tasks db)"
    using fresh_job_tasks [OF inv] J(1) C(1) by (simp add: new_job_def)
  then have fresh: "j \<notin> ts_JobID ` set (db_tasks db3)" using S(3) J(1) C(1) by (simp add: id)
  have run: "started_run (je_encode env) j (cfg_Seeds config) db db'"
    by (rule run_added [OF S(2) fresh t [unfolded S(1)] S(4)])
      (use S(3) J(1) C(1) BulkCreate_extends [OF t] in auto)
  show ?thesis using run id jid S(3) J(1) C(1) task_BulkCreate_inv [OF S(2) t] BulkCreate_extends [OF t] by auto
qed

lemma create_body_ids:
  assumes "create_body env config db = (Returns (Inr jid), db')"
  shows "valid_id (je_uuid_ok env) jid \<and> valid_id (je_uuid_ok env) (cfg_ID config)"
proof -
  obtain cid db1 where c: "config_Create (je_uuid_ok env) config db = (Inr cid, db1)"
    using assms by (auto simp: create_body_def db_call_Inr split: prod.splits sum.splits)
  obtain j db2 where j: "job_Create (je_uuid_ok env) (new_job env cid config) db1 = (Inr j, db2)"
    using assms c by (auto simp: create_body_def db_call_Inr split: prod.splits sum.splits)
  have "jid = j" using assms c j by (auto simp: create_body_def db_call_Inr split: prod.splits sum.splits outcome.splits)
  moreover have "NewCrawlJobID (je_uuid_ok env) (job_ID (new_job env cid config)) = Inr j"
    using j by (auto simp: job_Create_def Let_def split: option.splits if_splits)
  moreover have "NewID (je_uuid_ok env) (cfg_ID config) = Inr cid"
    using c by (auto simp: config_Create_def Let_def SaveCrawlJobConfigToSnapshot_def split: if_splits)
  ultimately show ?thesis by (auto simp: NewTypedID_eq dest: NewID_InrD)
qed

text \<open>
  C6. Creating a job is all or nothing.  A refused call, a failing statement, a panic while a queue is
  chosen or a failing commit leave the database as it was; a successful call adds the configuration
  (with its patterns trimmed), the unstarted job, one task per distinct seed at depth 0, and for
  every task the unpublished event that announces it, and keeps the tables consistent.
\<close>

theorem CreateCrawlJob_atomic:
  assumes "db_inv db" and "CreateCrawlJob env user command db = (res, db')"
  shows "case res of
           Inl e \<Rightarrow> db' = db
         | Inr jid \<Rightarrow>
             db_inv db' \<and> jid = je_jobID env \<and> cfg_Seeds command \<noteq> [] \<and>
             db_configs db' = db_configs db @ [SaveCrawlJobConfigToSnapshot (submitted_config env user command)] \<and>
             (\<exists>j. db_jobs db' = db_jobs db @ [j] \<and> js_ID j = jid \<and> js_JobConfigID j = Some (je_configID env) \<and>
                  js_Status j = TaskStatusInProgress \<and> js_CompletedAt j = None \<and>
                  js_ExportStatus j = Some ExportStatusNotStarted) \<and>
             started_run (je_encode env) jid (cfg_Seeds command) db db'"
proof (cases res)
  case (Inl e)
  then show ?thesis using assms(2)
    by (auto simp: CreateCrawlJob_def Let_def split: if_splits sum.splits dest: ReadCommitted_error)
next
  case (Inr jid)
  let ?c = "submitted_config env user command"
  have b: "cfg_Seeds command \<noteq> []" "create_body env ?c db = (Returns (Inr jid), db')"
    using assms(2) Inr by (simp_all add: CreateCrawlJob_eq)
  note B = create_body_done [OF assms(1) b(2)]
  obtain cid db1 where "config_Create (je_uuid_ok env) ?c db = (Inr cid, db1)"
    using b(2) by (auto simp: create_body_def db_call_Inr split: prod.splits sum.splits)
  then have "je_configID env \<noteq> []"
    by (auto simp: config_Create_def Let_def SaveCrawlJobConfigToSnapshot_def valid_id_def split: if_splits dest: NewID_InrD)
  then have "\<exists>j. db_jobs db' = db_jobs db @ [j] \<and> js_ID j = jid \<and> js_JobConfigID j = Some (je_configID env) \<and>
                  js_Status j = TaskStatusInProgress \<and> js_CompletedAt j = None \<and>
                  js_ExportStatus j = Some ExportStatusNotStarted"
    using B by (intro exI [of _ "SaveCrawlJobToSnapshot (new_job env (cfg_ID ?c) ?c)"])
      (simp add: new_job_def SaveCrawlJobToSnapshot_def ID_IsEmpty_def)
  then show ?thesis using B b(1) unfolding Inr sum.case submitted_fields by (elim conjE) (intro conjI; assumption)
qed

lemma SelectCrawlQueue_returns:
  assumes "weight_sum (usable_weights weights) < 2 ^ 32"
  shows "\<exists>q. SelectCrawlQueue rnd available weights = Returns q"
proof (cases "1 < length (usable_weights weights)")
  case True
  then obtain q0 w0 cs where cs: "usable_weights weights = (q0, w0) # cs" by (cases "usable_weights weights") auto
  then have "w0 \<noteq> 0" using usable_weights_iff [of q0 w0 weights] by simp
  then have "unat (total_weight (usable_weights weights) 0) \<noteq> 0"
    using cs unat_total_weight [OF assms] by (simp add: unat_eq_zero)
  then show ?thesis by (simp add: SelectCrawlQueue_def uniform_queue_def Let_def)
qed (simp add: SelectCrawlQueue_def uniform_queue_def Let_def)

lemma create_seeds_total:
  assumes "\<And>k. je_outbox env k = None" and enc: "\<And>ev. \<exists>p. je_encode env ev = Inr p"
    and "weight_sum (usable_weights ws) < 2 ^ 32"
    and "\<forall>i < length seeds. je_outboxID env (k + i) \<notin> ob_ID ` set (db_outbox db)"
    and "\<forall>i j. i \<noteq> j \<longrightarrow> je_outboxID env i \<noteq> je_outboxID env j"
  shows "\<exists>ts db'. create_seeds env ws jid k seeds tasks db = (Returns (Inr ts), db')"
  using assms(4)
proof (induction seeds arbitrary: k tasks db)
  case (Cons s seeds)
  let ?t = "seed_task env jid k s"
  obtain event where ev: "seed_event env ws (je_trace env) k ?t = Returns event"
    using SelectCrawlQueue_returns [OF assms(3), of "je_rand env k" "je_queues env"] by (auto simp: seed_event_def)
  obtain p where p: "je_encode env event = Inr p" using enc by blast
  let ?e = "outbox_event env k ?t event p (je_outbox_now env k)"
  have id: "ob_ID ?e = je_outboxID env k" by (simp add: outbox_event_def)
  have "je_outboxID env (k + 0) \<notin> ob_ID ` set (db_outbox db)" using Cons.prems by blast
  then have o: "outbox_Create ?e db = (Inr (), db\<lparr>db_outbox := db_outbox db @ [?e]\<rparr>)"
    by (simp add: outbox_Create_def id)
  have "je_outboxID env (Suc k + i) \<notin> ob_ID ` set (db_outbox (db\<lparr>db_outbox := db_outbox db @ [?e]\<rparr>))"
    if i: "i < length seeds" for i
  proof -
    have "je_outboxID env (k + Suc i) \<notin> ob_ID ` set (db_outbox db)" using Cons.prems i by (metis length_Cons Suc_mono)
    moreover have "je_outboxID env (Suc k + i) \<noteq> je_outboxID env k" using assms(5) by simp
    ultimately show ?thesis by (simp add: id)
  qed
  then obtain ts db' where "create_seeds env ws jid (Suc k) seeds (tasks @ [?t]) (db\<lparr>db_outbox := db_outbox db @ [?e]\<rparr>)
      = (Returns (Inr ts), db')" using Cons.IH by blast
  then show ?case using ev p o assms(1) by (simp add: Let_def)
qed simp

text \<open>The environment of a call in which nothing fails and every identifier is new and valid.\<close>

definition quiet_env :: "job_env \<Rightarrow> DB \<Rightarrow> bool" where
  "quiet_env env db \<longleftrightarrow>
     je_begin env = None \<and> je_commit env = None \<and> je_config env = None \<and> je_job env = None \<and>
     je_tasks env = None \<and> (\<forall>k. je_outbox env k = None) \<and> (\<forall>ev. \<exists>p. je_encode env ev = Inr p) \<and>
     valid_id (je_uuid_ok env) (je_configID env) \<and> je_configID env \<notin> cfg_ID ` set (db_configs db) \<and>
     valid_id (je_uuid_ok env) (je_jobID env) \<and> je_jobID env \<notin> js_ID ` set (db_jobs db) \<and>
     (\<forall>k. valid_id (je_uuid_ok env) (je_taskID env k) \<and> je_taskID env k \<notin> ts_ID ` set (db_tasks db) \<and>
          je_outboxID env k \<notin> ob_ID ` set (db_outbox db)) \<and>
     (\<forall>i j. i \<noteq> j \<longrightarrow> je_taskID env i \<noteq> je_taskID env j \<and> je_outboxID env i \<noteq> je_outboxID env j)"

lemma BulkCreate_total:
  assumes fresh: "\<forall>t \<in> set ts. task_ID t \<notin> ts_ID ` set (db_tasks db)" "distinct (map task_ID ts)"
    and jobs: "\<forall>t \<in> set ts. find_job db (task_JobID t) \<noteq> None"
    and ids: "\<forall>t \<in> set ts. valid_id ok (task_ID t)"
  shows "\<exists>inserted db'. task_BulkCreate ok ts db = (Inr inserted, db')"
proof -
  let ?rs = "map SaveCrawlTaskToSnapshot ts"
  have "ts_ID ` set ?rs \<inter> ts_ID ` set (db_tasks db) = {}" "distinct (map ts_ID ?rs)"
    using fresh by (auto simp: comp_def)
  then obtain tbl' raw where ins: "insert_rows (db_tasks db) ?rs = Inr (tbl', raw)"
    using insert_rows_total by blast
  obtain new where new: "tbl' = db_tasks db @ new" "map ts_ID new = raw" "subseq new ?rs"
    using insert_rows_extends [OF ins] by blast
  have new_in: "\<exists>t \<in> set ts. r = SaveCrawlTaskToSnapshot t" if "r \<in> set new" for r
    using subseq_mem [OF new(3) that] by auto
  have nofk: "\<not> (\<exists>r \<in> set (drop (length (db_tasks db)) tbl'). find_job db (ts_JobID r) = None)"
    using new new_in jobs by fastforce
  have "map_res (NewCrawlTaskID ok) raw = Inr (map id raw)"
    using new new_in ids by (intro map_res_all) (fastforce simp: NewTypedID_eq)
  then show ?thesis using ins nofk by (cases "ts = []") (auto simp: task_BulkCreate_def)
qed

lemma create_body_total:
  assumes q: "quiet_env env db" and name: "cfg_Name command \<notin> cfg_Name ` set (db_configs db)"
    and weights: "weight_sum (usable_weights (cfg_QueueWeights command)) < 2 ^ 32"
  shows "\<exists>db'. create_body env (submitted_config env user command) db = (Returns (Inr (je_jobID env)), db')"
proof -
  let ?c = "submitted_config env user command" and ?ok = "je_uuid_ok env"
  let ?j = "new_job env (je_configID env) ?c"
  let ?db1 = "db\<lparr>db_configs := db_configs db @ [SaveCrawlJobConfigToSnapshot ?c]\<rparr>"
  let ?db2 = "?db1\<lparr>db_jobs := db_jobs db @ [SaveCrawlJobToSnapshot ?j]\<rparr>"
  have q': "valid_id ?ok (je_configID env)" "je_configID env \<notin> cfg_ID ` set (db_configs db)"
    "valid_id ?ok (je_jobID env)" "je_jobID env \<notin> js_ID ` set (db_jobs db)"
    using q by (simp_all add: quiet_env_def)
  have ne: "je_configID env \<noteq> []" using q'(1) by (simp add: valid_id_def)
  have c: "config_Create ?ok ?c db = (Inr (je_configID env), ?db1)"
    using q' name by (simp add: config_Create_def Let_def SaveCrawlJobConfigToSnapshot_def)
  have "find_config ?db1 (je_configID env) \<noteq> None"
    by (simp add: find_config_None_iff SaveCrawlJobConfigToSnapshot_def)
  then have j: "job_Create ?ok ?j ?db1 = (Inr (je_jobID env), ?db2)"
    using q' ne by (simp add: job_Create_def Let_def new_job_def SaveCrawlJobToSnapshot_def ID_IsEmpty_def NewTypedID_eq)
  have "\<exists>ts db3. create_seeds env (cfg_QueueWeights ?c) (je_jobID env) 0 (cfg_Seeds ?c) [] ?db2 = (Returns (Inr ts), db3)"
    by (rule create_seeds_total) (use q weights in \<open>auto simp: quiet_env_def\<close>)
  then obtain ts db3 where s: "create_seeds env (cfg_QueueWeights ?c) (je_jobID env) 0 (cfg_Seeds ?c) [] ?db2 = (Returns (Inr ts), db3)"
    by blast
  have S: "ts = seed_tasks env (je_jobID env) 0 (cfg_Seeds ?c)" "db_tasks db3 = db_tasks db" "db_jobs db3 = db_jobs ?db2"
    using create_seeds_done [OF s] by auto
  have ids: "task_ID t \<in> range (je_taskID env)" if "t \<in> set ts" for t
    using that by (auto simp: S(1) seed_tasks_def seed_task_def)
  have inj: "inj (je_taskID env)" using q by (auto simp: quiet_env_def inj_on_def)
  have "\<exists>ids db4. task_BulkCreate ?ok ts db3 = (Inr ids, db4)"
  proof (rule BulkCreate_total)
    show "\<forall>t \<in> set ts. task_ID t \<notin> ts_ID ` set (db_tasks db3)" and "\<forall>t \<in> set ts. valid_id ?ok (task_ID t)"
      using q ids S(2) by (fastforce simp: quiet_env_def)+
    show "distinct (map task_ID ts)" unfolding S(1) seed_tasks_ids distinct_map
      using inj by (auto intro: inj_on_subset)
    have "je_jobID env \<in> js_ID ` set (db_jobs db3)" unfolding S(3) by (simp add: new_job_def)
    then show "\<forall>t \<in> set ts. find_job db3 (task_JobID t) \<noteq> None"
      unfolding S(1) find_job_None_iff by (metis seed_tasks_mem)
  qed
  then obtain ids db4 where "task_BulkCreate ?ok ts db3 = (Inr ids, db4)" by blast
  then have "create_body env ?c db = (Returns (Inr (je_jobID env)), db4)"
    using q c j s by (simp add: create_body_def quiet_env_def)
  then show ?thesis by blast
qed

definition sample_job_env :: job_env where
  "sample_job_env =
     \<lparr>je_uuid_ok = (\<lambda>s. s \<noteq> []), je_configID = ''c2'', je_jobID = ''j2'',
      je_taskID = (\<lambda>k. CHR ''s'' # replicate k (CHR ''0'')), je_eventID = (\<lambda>k. ''e''),
      je_outboxID = (\<lambda>k. CHR ''o'' # replicate k (CHR ''0'')), je_rand = (\<lambda>k n. 0),
      je_encode = (\<lambda>ev. Inr (ev_URL ev)), je_trace = [], je_queues = [''crawl''], je_created = 20, je_now = 21,
      je_event_now = (\<lambda>k. 22), je_outbox_now = (\<lambda>k. 23), je_begin = None, je_commit = None, je_config = None,
      je_job = None, je_tasks = None, je_outbox = (\<lambda>k. None)\<rparr>"

definition sample_command :: CrawlJobConfig where
  "sample_command = (sample_config [])\<lparr>cfg_Name := ''other'', cfg_Seeds := [''http://a'', ''http://a'', ''http://b'']\<rparr>"

lemma replicate_inj: "replicate i x = replicate j x \<longleftrightarrow> i = j"
  by (metis length_replicate)

lemma sample_quiet: "quiet_env sample_job_env sample_db"
  by (simp add: quiet_env_def sample_job_env_def sample_db_def valid_id_def sample_config_def sample_job_def replicate_inj)

lemma sample_command_simps [simp]:
  "cfg_Seeds sample_command = [''http://a'', ''http://a'', ''http://b'']" "cfg_QueueWeights sample_command = []"
  "cfg_Name sample_command \<notin> cfg_Name ` set (db_configs sample_db)"
  by (simp_all add: sample_command_def sample_db_def sample_config_def)

lemma sample_create: "\<exists>db'. CreateCrawlJob sample_job_env ''u1'' sample_command sample_db = (Inr ''j2'', db')"
proof -
  have "\<exists>db'. create_body sample_job_env (submitted_config sample_job_env ''u1'' sample_command) sample_db =
      (Returns (Inr (je_jobID sample_job_env)), db')"
    by (rule create_body_total [OF sample_quiet]) simp_all
  then show ?thesis by (auto simp: CreateCrawlJob_eq) (simp_all add: sample_job_env_def valid_id_def)
qed

theorem CreateCrawlJob_atomic_witness:
  "\<exists>db'. CreateCrawlJob sample_job_env ''u1'' sample_command sample_db = (Inr ''j2'', db') \<and> db_inv db' \<and>
     started_run (je_encode sample_job_env) ''j2'' [''http://a'', ''http://a'', ''http://b''] sample_db db'"
proof -
  obtain db' where c: "CreateCrawlJob sample_job_env ''u1'' sample_command sample_db = (Inr ''j2'', db')"
    using sample_create by blast
  then show ?thesis using CreateCrawlJob_atomic [OF sample_db_inv c] by auto
qed

text \<open>
  A well-formed request is accepted: with seeds, a valid user, a configuration name that is not
  taken, weights whose sum fits 32 bits, fresh identifiers and no failing service, the call succeeds
  and returns the new job, whatever the allowed patterns and the random numbers are.
\<close>

theorem CreateCrawlJob_accepts:
  assumes "quiet_env env db" and "cfg_Seeds command \<noteq> []" and "valid_id (je_uuid_ok env) user"
    and "cfg_Name command \<notin> cfg_Name ` set (db_configs db)"
    and "weight_sum (usable_weights (cfg_QueueWeights command)) < 2 ^ 32"
  shows "\<exists>db'. CreateCrawlJob env user command db = (Inr (je_jobID env), db')"
  using create_body_total [OF assms(1,4,5), of user] assms(1-3) by (auto simp: CreateCrawlJob_eq quiet_env_def)

theorem CreateCrawlJob_accepts_witness:
  "\<exists>db'. CreateCrawlJob sample_job_env ''u1'' sample_command sample_db = (Inr (je_jobID sample_job_env), db')"
  by (rule CreateCrawlJob_accepts [OF sample_quiet]) (simp_all, simp add: sample_job_env_def valid_id_def)

section \<open>Deleting a job\<close>

text \<open>
  C37. Deleting a job deletes the whole schedule it belongs to: a successful call leaves no
  configuration, job or task of the deleted job's configuration, touches nothing of the others, keeps
  the tables consistent and leaves the outbox alone.  A refused call changes nothing.
\<close>

theorem DeleteCrawlJob_cascades:
  assumes inv: "db_inv db" and d: "DeleteCrawlJob ok fg fd i db = (res, db')"
  shows "case res of
           Inl e \<Rightarrow> db' = db
         | Inr _ \<Rightarrow> db_inv db' \<and> db_outbox db' = db_outbox db \<and>
             (\<exists>j c. find_job db i = Some j \<and> js_JobConfigID j = Some c \<and>
                set (db_configs db') = {x \<in> set (db_configs db). cfg_ID x \<noteq> c} \<and>
                set (db_jobs db') = {x \<in> set (db_jobs db). js_JobConfigID x \<noteq> Some c} \<and>
                (\<forall>t \<in> set (db_tasks db). t \<in> set (db_tasks db') \<longleftrightarrow>
                   (\<forall>x. find_job db (ts_JobID t) = Some x \<longrightarrow> js_JobConfigID x \<noteq> Some c)))"
proof (cases res)
  case (Inl e)
  then show ?thesis using d
    by (auto simp: DeleteCrawlJob_def db_call_def config_Delete_def Let_def split: sum.splits option.splits)
next
  case (Inr u)
  then obtain job where g: "job_Get ok i db = Inr job" and c: "config_Delete (job_JobConfigID job) db = (Inr u, db')"
    using d by (auto simp: DeleteCrawlJob_def db_call_Inr db_read_def NewTypedID_eq
        split: sum.splits option.splits dest: NewID_InrD)
  obtain j where j: "find_job db i = Some j" using g by (auto simp: job_Get_def split: option.splits)
  obtain cfg :: CrawlJobConfig where cfg: "js_JobConfigID j = Some (cfg_ID cfg)"
    using db_inv_ref [OF inv] find_job_SomeD [OF j] by blast
  have id: "job_JobConfigID job = cfg_ID cfg"
    using g j cfg by (auto simp: job_Get_def bind_res_Inr_iff scanCrawlJobWithConfig_def RestoreCrawlJobFromSnapshot_def
        split: option.splits if_splits dest: NewID_InrD)
  have gone: "ts_JobID t \<in> js_ID ` {x \<in> set (db_jobs db). js_JobConfigID x = Some (cfg_ID cfg)} \<longleftrightarrow>
      (\<exists>x. find_job db (ts_JobID t) = Some x \<and> js_JobConfigID x = Some (cfg_ID cfg))" for t
    using find_job_iff [OF inv, of "ts_JobID t"] by (auto simp: image_iff)
  have "db_inv db'" using config_Delete_inv [OF inv c] .
  moreover have "db' = db\<lparr>db_configs := filter (\<lambda>x. cfg_ID x \<noteq> cfg_ID cfg) (db_configs db),
      db_jobs := filter (\<lambda>x. js_JobConfigID x \<noteq> Some (cfg_ID cfg)) (db_jobs db),
      db_tasks := filter (\<lambda>t. ts_JobID t \<notin> js_ID ` {x \<in> set (db_jobs db). js_JobConfigID x = Some (cfg_ID cfg)}) (db_tasks db)\<rparr>"
    using c by (simp add: config_Delete_def id)
  ultimately show ?thesis using j cfg gone unfolding Inr sum.case
    by (intro conjI exI [of _ j] exI [of _ "cfg_ID cfg"]) auto
qed

theorem DeleteCrawlJob_cascades_witness:
  "\<exists>db'. DeleteCrawlJob ok2 None None ''j1'' sample_db = (Inr (), db') \<and> db_inv db' \<and> db_jobs db' = []"
proof -
  have "job_Get ok2 ''j1'' sample_db = Inr ((sample_job ''j1'' ''c1'')\<lparr>job_JobConfig := Some (sample_config ''c1'')\<rparr>)"
    by (simp add: job_Get_def find_job_def sample_db_def sample_job_def SaveCrawlJobToSnapshot_def ID_IsEmpty_def
        scanCrawlJobWithConfig_def find_config_def sample_config_def RestoreCrawlJobFromSnapshot_def
        RestoreCrawlJobConfigFromSnapshot_def NewTypedID_eq valid_id_def ok2_def JobTypeOnce_def)
  then have "\<exists>db'. DeleteCrawlJob ok2 None None ''j1'' sample_db = (Inr (), db') \<and> db_jobs db' = []"
    by (simp add: DeleteCrawlJob_def NewTypedID_eq valid_id_def ok2_def db_read_def config_Delete_def Let_def sample_job_def
        sample_db_def SaveCrawlJobToSnapshot_def ID_IsEmpty_def)
  then obtain db' where d: "DeleteCrawlJob ok2 None None ''j1'' sample_db = (Inr (), db')" "db_jobs db' = []" by blast
  then show ?thesis using DeleteCrawlJob_cascades [OF sample_db_inv d(1)] by auto
qed

section \<open>The schedule worker\<close>

lemma scheduled_seeds_done:
  "scheduled_seeds env ws k seeds = Returns (Inr (ts, es)) \<Longrightarrow>
     ts = seed_tasks env (je_jobID env) k seeds \<and> list_all2 (event_of (je_encode env)) ts es"
proof (induction seeds arbitrary: k ts es)
  case (Cons s seeds)
  then show ?case
    by (auto simp: Let_def intro: seed_event_Returns split: outcome.splits sum.splits prod.splits)
qed simp

lemma with_schedule_fields [simp]:
  "cfg_ID (with_schedule c l n) = cfg_ID c" "cfg_Seeds (with_schedule c l n) = cfg_Seeds c"
  "cfg_Name (with_schedule c l n) = cfg_Name c" "cfg_JobType (with_schedule c l n) = cfg_JobType c"
  "cfg_UserID (with_schedule c l n) = cfg_UserID c" "cfg_QueueWeights (with_schedule c l n) = cfg_QueueWeights c"
  "cfg_Scopes (with_schedule c l n) = cfg_Scopes c"
  by (simp_all add: with_schedule_def)

lemma SaveConfig_fields [simp]:
  "cfg_ID (SaveCrawlJobConfigToSnapshot c) = cfg_ID c" "cfg_Name (SaveCrawlJobConfigToSnapshot c) = cfg_Name c"
  "cfg_Schedule (SaveCrawlJobConfigToSnapshot c) = cfg_Schedule c" "cfg_Scopes (SaveCrawlJobConfigToSnapshot c) = cfg_Scopes c"
  by (simp_all add: SaveCrawlJobConfigToSnapshot_def)

lemma config_Update_done:
  "config_Update c db = (Inr u, db') \<Longrightarrow>
     db' = db\<lparr>db_configs := map (\<lambda>x. if cfg_ID x = cfg_ID c then SaveCrawlJobConfigToSnapshot c else x) (db_configs db)\<rparr>"
  by (auto simp: config_Update_def Let_def split: if_splits)

lemma config_Update_error: "config_Update c db = (Inl e, db') \<Longrightarrow> db' = db"
  by (auto simp: config_Update_def Let_def split: if_splits)

text \<open>A started run of a schedule: configuration updated, job, tasks and events added.\<close>

definition scheduled_run :: "sched_env \<Rightarrow> CrawlJobConfig \<Rightarrow> (time \<Rightarrow> time) \<Rightarrow> DB \<Rightarrow> DB \<Rightarrow> bool" where
  "scheduled_run env config schedule db db' \<longleftrightarrow>
     (\<exists>c j. cfg_Schedule c = (cfg_Schedule config)\<lparr>LastRunAt := Some (je_now env), NextRunAt := Some (schedule (je_now env))\<rparr> \<and>
        cfg_ID c = cfg_ID config \<and> cfg_Scopes c = cfg_Scopes config \<and>
        db_configs db' = map (\<lambda>x. if cfg_ID x = cfg_ID config then c else x) (db_configs db) \<and>
        db_jobs db' = db_jobs db @ [j] \<and> js_ID j = je_jobID env \<and>
        js_JobConfigID j = Some (cfg_ID config) \<and> js_CreatedAt j = je_now env \<and> js_CompletedAt j = None \<and>
        js_ExportStatus j = Some ExportStatusNotStarted) \<and>
     started_run (je_encode env) (je_jobID env) (cfg_Seeds config) db db'"

lemma scheduled_body_done:
  assumes inv: "db_inv db" and b: "scheduled_body env config schedule db = (Returns (Inr u), db')"
  shows "db_inv db' \<and> scheduled_run env config schedule db db'"
proof -
  let ?c = "with_schedule config (Some (je_now env)) (Some (schedule (je_now env)))"
  let ?j = "scheduled_job env ?c"
  obtain u1 db1 where c: "config_Update ?c db = (Inr u1, db1)"
    using b by (auto simp: scheduled_body_def Let_def db_call_Inr split: prod.splits sum.splits)
  note C = config_Update_done [OF c] config_Update_inv [OF inv c]
  obtain j db2 where j: "job_Create (je_uuid_ok env) ?j db1 = (Inr j, db2)"
    using b c by (auto simp: scheduled_body_def Let_def db_call_Inr split: prod.splits sum.splits)
  note J = job_Create_done [OF j] job_Create_inv [OF C(2) j]
  have cid: "js_JobConfigID (SaveCrawlJobToSnapshot ?j) = Some (cfg_ID config)"
    using j by (auto simp: job_Create_def Let_def SaveCrawlJobToSnapshot_def scheduled_job_def split: option.splits if_splits)
  obtain ts es where s: "scheduled_seeds env (cfg_QueueWeights config) 0 (cfg_Seeds config) = Returns (Inr (ts, es))"
    using b c j by (auto simp: scheduled_body_def Let_def db_call_Inr split: prod.splits sum.splits outcome.splits)
  note S = scheduled_seeds_done [OF s]
  obtain ids db3 where t: "task_BulkCreate (je_uuid_ok env) ts db2 = (Inr ids, db3)"
    using b c j s by (auto simp: scheduled_body_def Let_def db_call_Inr split: prod.splits sum.splits)
  obtain u4 where o: "outbox_BulkCreate es db3 = (Inr u4, db')"
    using b c j s t by (auto simp: scheduled_body_def Let_def db_call_Inr split: prod.splits sum.splits)
  have O: "db' = db3\<lparr>db_outbox := db_outbox db3 @ es\<rparr>" using o by (auto simp: outbox_BulkCreate_def split: if_splits)
  have "je_jobID env \<notin> ts_JobID ` set (db_tasks db1)"
    using fresh_job_tasks [OF C(2)] J(1) by (simp add: scheduled_job_def)
  then have fresh: "je_jobID env \<notin> ts_JobID ` set (db_tasks db2)" using J(1) by simp
  have t': "task_BulkCreate (je_uuid_ok env) (seed_tasks env (je_jobID env) 0 (cfg_Seeds config)) db2 = (Inr ids, db3)"
    using t S by simp
  have es: "list_all2 (event_of (je_encode env)) (seed_tasks env (je_jobID env) 0 (cfg_Seeds config)) es" using S by auto
  have run: "started_run (je_encode env) (je_jobID env) (cfg_Seeds config) db db'"
    by (rule run_added [OF J(2) fresh t' es]) (use O J(1) C(1) BulkCreate_extends [OF t] in auto)
  have "db_inv db'" using outbox_BulkCreate_inv [OF task_BulkCreate_inv [OF J(2) t] o] .
  moreover have "cfg_Schedule (SaveCrawlJobConfigToSnapshot ?c) =
      (cfg_Schedule config)\<lparr>LastRunAt := Some (je_now env), NextRunAt := Some (schedule (je_now env))\<rparr>"
    "cfg_ID (SaveCrawlJobConfigToSnapshot ?c) = cfg_ID config" "cfg_Scopes (SaveCrawlJobConfigToSnapshot ?c) = cfg_Scopes config"
    by (simp_all add: with_schedule_def)
  moreover have "db_configs db' = map (\<lambda>x. if cfg_ID x = cfg_ID config then SaveCrawlJobConfigToSnapshot ?c else x) (db_configs db)"
    "db_jobs db' = db_jobs db @ [SaveCrawlJobToSnapshot ?j]"
    using O J(1) C(1) BulkCreate_extends [OF t] by auto
  moreover have "js_ID (SaveCrawlJobToSnapshot ?j) = je_jobID env" "js_CreatedAt (SaveCrawlJobToSnapshot ?j) = je_now env"
    "js_CompletedAt (SaveCrawlJobToSnapshot ?j) = None" "js_ExportStatus (SaveCrawlJobToSnapshot ?j) = Some ExportStatusNotStarted"
    by (simp_all add: scheduled_job_def)
  ultimately show ?thesis using run cid unfolding scheduled_run_def by blast
qed

text \<open>The outcomes of one visit of a configuration.\<close>

definition visit_initialised :: "CrawlJobConfig \<Rightarrow> DB \<Rightarrow> DB \<Rightarrow> bool" where
  "visit_initialised config db db' \<longleftrightarrow>
     NextRunAt (cfg_Schedule config) = None \<and>
     (\<exists>c. (\<exists>t. NextRunAt (cfg_Schedule c) = Some t) \<and> cfg_ID c = cfg_ID config \<and> cfg_Scopes c = cfg_Scopes config \<and>
        db' = db\<lparr>db_configs := map (\<lambda>x. if cfg_ID x = cfg_ID config then c else x) (db_configs db)\<rparr>)"

definition due :: "sched_env \<Rightarrow> CrawlJobConfig \<Rightarrow> bool" where
  "due env config \<longleftrightarrow> (case NextRunAt (cfg_Schedule config) of None \<Rightarrow> False | Some t \<Rightarrow> t \<le> je_now env)"

lemma processConfig_cases:
  assumes inv: "db_inv db" and p: "processConfig env config db = (r, db')"
  shows "db_inv db' \<and>
    (db' = db \<or> visit_initialised config db db' \<or>
     (\<exists>schedule lastJob. due env config \<and> se_parse env (TrimSpace (Cron (cfg_Schedule config))) = Inr schedule \<and>
        load_latest env config db = Inr lastJob \<and> (\<forall>j. lastJob = Some j \<longrightarrow> job_CompletedAt j \<noteq> None) \<and>
        scheduled_run env config schedule db db'))"
proof (cases "db' = db")
  case False
  then obtain schedule where s: "se_parse env (TrimSpace (Cron (cfg_Schedule config))) = Inr schedule"
    using p by (auto simp: processConfig_def Let_def split: if_splits sum.splits)
  have cr: "TrimSpace (Cron (cfg_Schedule config)) \<noteq> []" using p False by (auto simp: processConfig_def Let_def)
  obtain lastJob where l: "load_latest env config db = Inr lastJob"
    using p False s cr by (cases "load_latest env config db") (auto simp: processConfig_def Let_def split: option.splits if_splits)
  show ?thesis
  proof (cases "NextRunAt (cfg_Schedule config)")
    case None
    let ?c = "with_schedule config (last_run_of config lastJob)
                (Some (schedule (case last_run_of config lastJob of None \<Rightarrow> je_now env | Some t \<Rightarrow> t)))"
    have u: "db_call (se_update env) (config_Update ?c) db = (r, db')"
      using p s cr l None by (simp add: processConfig_def Let_def)
    then obtain x where x: "config_Update ?c db = (Inr x, db')"
      using False config_Update_error by (cases "se_update env"; cases r) fastforce+
    have "visit_initialised config db db'" unfolding visit_initialised_def
      using None config_Update_done [OF x]
      by (intro conjI exI [of _ "SaveCrawlJobConfigToSnapshot ?c"]) (simp_all add: with_schedule_def)
    then show ?thesis using config_Update_inv [OF inv x] by blast
  next
    case (Some t)
    have due: "due env config" using p s cr Some False by (auto simp: processConfig_def due_def Let_def split: if_splits)
    have fin: "\<forall>j. lastJob = Some j \<longrightarrow> job_CompletedAt j \<noteq> None"
      using p s cr l Some False by (auto simp: processConfig_def Let_def split: if_splits)
    have c: "createScheduledJob env config schedule db = (r, db')"
      using p s cr l Some False fin by (auto simp: processConfig_def Let_def split: if_splits option.splits)
    then obtain u where "scheduled_body env config schedule db = (Returns (Inr u), db')"
      using False by (cases r) (auto simp: createScheduledJob_def ReadCommitted_commits dest: ReadCommitted_error)
    from scheduled_body_done [OF inv this] show ?thesis using due fin s l by blast
  qed
qed (use inv in simp)

subsection \<open>Runs of one schedule do not overlap\<close>

definition runs_of :: "DB \<Rightarrow> ID \<Rightarrow> CrawlJobSnapshot list" where
  "runs_of db cid = filter (\<lambda>j. js_JobConfigID j = Some cid) (db_jobs db)"

text \<open>At most one run of the configuration is unfinished, and it is the newest.\<close>

definition no_overlap :: "ID \<Rightarrow> DB \<Rightarrow> bool" where
  "no_overlap cid db \<longleftrightarrow>
     (\<forall>j \<in> set (runs_of db cid). js_CompletedAt j = None \<longrightarrow>
        (\<forall>j' \<in> set (runs_of db cid). j' \<noteq> j \<longrightarrow> js_CreatedAt j' < js_CreatedAt j))"

lemma newest_first:
  assumes "by_created_desc xs = j # js" and "x \<in> set xs"
  shows "js_CreatedAt x \<le> js_CreatedAt j"
proof -
  have "sorted (map (\<lambda>j. - js_CreatedAt j) (j # js))"
    using sorted_sort_key [of "\<lambda>j. - js_CreatedAt j" xs] assms(1) unfolding by_created_desc_def by metis
  moreover have "x \<in> set (j # js)" using assms unfolding by_created_desc_def by (metis set_sort)
  ultimately show ?thesis by auto
qed

lemma latest_none:
  assumes inv: "db_inv db" and l: "load_latest env config db = Inr None"
  shows "runs_of db (cfg_ID config) = []"
proof (cases "by_created_desc (runs_of db (cfg_ID config))")
  case Nil
  then show ?thesis by (metis by_created_desc_def set_empty set_sort)
next
  case (Cons j js)
  then have "j \<in> set (runs_of db (cfg_ID config))" by (metis by_created_desc_def list.set_intros(1) set_sort)
  then have j: "j \<in> set (db_jobs db)" "js_JobConfigID j = Some (cfg_ID config)" by (simp_all add: runs_of_def)
  then have "find_config db (cfg_ID config) \<noteq> None"
    using db_inv_ref [OF inv j(1)] unfolding find_config_None_iff by auto
  then show ?thesis using l Cons j(2)
    by (auto simp: load_latest_def db_read_def job_GetLatestByConfigID_def runs_of_def [symmetric] scanCrawlJobWithConfig_def
        bind_res_Inr_iff split: option.splits if_splits)
qed

lemma latest_some:
  assumes "load_latest env config db = Inr (Some job)"
  shows "\<exists>j \<in> set (runs_of db (cfg_ID config)). job_CompletedAt job = js_CompletedAt j \<and> job_ID job = js_ID j \<and>
           (\<forall>x \<in> set (runs_of db (cfg_ID config)). js_CreatedAt x \<le> js_CreatedAt j)"
proof (cases "by_created_desc (runs_of db (cfg_ID config))")
  case Nil
  then show ?thesis using assms
    by (auto simp: load_latest_def db_read_def job_GetLatestByConfigID_def runs_of_def [symmetric] split: option.splits if_splits)
next
  case (Cons j js)
  then have "j \<in> set (runs_of db (cfg_ID config))" by (metis by_created_desc_def list.set_intros(1) set_sort)
  moreover have "job_CompletedAt job = js_CompletedAt j \<and> job_ID job = js_ID j" using assms Cons
    by (auto simp: load_latest_def db_read_def job_GetLatestByConfigID_def runs_of_def [symmetric] scanCrawlJobWithConfig_def
        bind_res_Inr_iff RestoreCrawlJobFromSnapshot_def NewTypedID_eq split: option.splits if_splits dest: NewID_InrD)
  ultimately show ?thesis using newest_first [OF Cons] by blast
qed

lemma all_runs_completed:
  assumes inv: "db_inv db" and n: "no_overlap (cfg_ID config) db" and l: "load_latest env config db = Inr lastJob"
    and c: "\<forall>j. lastJob = Some j \<longrightarrow> job_CompletedAt j \<noteq> None" and j: "j \<in> set (runs_of db (cfg_ID config))"
  shows "js_CompletedAt j \<noteq> None"
proof (cases lastJob)
  case None
  then show ?thesis using latest_none [OF inv] l j by auto
next
  case (Some job)
  then obtain x where x: "x \<in> set (runs_of db (cfg_ID config))" "js_CompletedAt x \<noteq> None" "js_CreatedAt j \<le> js_CreatedAt x"
    using latest_some [of env config db job] l c j by auto
  show ?thesis
  proof
    assume "js_CompletedAt j = None"
    then have "x \<noteq> j \<longrightarrow> js_CreatedAt x < js_CreatedAt j" using n j x(1) by (simp add: no_overlap_def)
    then show False using x \<open>js_CompletedAt j = None\<close> by auto
  qed
qed

text \<open>
  C11. One visit of the schedule worker.  It keeps the tables consistent and does one of three things:
  nothing; write the first run time of a configuration that has none; or, when the run time has
  come and every earlier run is completed, start a run: one new job with its tasks and events and the
  next run time, all or nothing.  So at most one run of a configuration is unfinished, and it is the
  newest, as long as the clock is past the creation of the earlier runs.
\<close>

theorem schedule_visit:
  assumes "db_inv db" and "processConfig env config db = (res, db')"
    and "no_overlap (cfg_ID config) db" and "\<forall>j \<in> set (runs_of db (cfg_ID config)). js_CreatedAt j < je_now env"
  shows "db_inv db' \<and> no_overlap (cfg_ID config) db' \<and>
    (db' = db \<or> visit_initialised config db db' \<or>
     due env config \<and> (\<forall>j \<in> set (runs_of db (cfg_ID config)). js_CompletedAt j \<noteq> None) \<and>
     (\<exists>schedule. se_parse env (TrimSpace (Cron (cfg_Schedule config))) = Inr schedule \<and>
        scheduled_run env config schedule db db'))"
proof -
  note C = processConfig_cases [OF assms(1,2)]
  then consider "db' = db" | "visit_initialised config db db'"
    | (run) schedule lastJob where "due env config" "se_parse env (TrimSpace (Cron (cfg_Schedule config))) = Inr schedule"
        "load_latest env config db = Inr lastJob" "\<forall>j. lastJob = Some j \<longrightarrow> job_CompletedAt j \<noteq> None"
        "scheduled_run env config schedule db db'" by blast
  then show ?thesis
  proof cases
    case 1
    then show ?thesis using C assms(3) by blast
  next
    case 2
    then have "runs_of db' (cfg_ID config) = runs_of db (cfg_ID config)" by (auto simp: visit_initialised_def runs_of_def)
    then show ?thesis using C 2 assms(3) by (simp add: no_overlap_def)
  next
    case run
    have all: "\<forall>j \<in> set (runs_of db (cfg_ID config)). js_CompletedAt j \<noteq> None"
      using all_runs_completed [OF assms(1,3) run(3,4)] by blast
    obtain j where j: "db_jobs db' = db_jobs db @ [j]" "js_JobConfigID j = Some (cfg_ID config)" "js_CreatedAt j = je_now env"
      using run(5) unfolding scheduled_run_def by (elim exE conjE)
    then have "runs_of db' (cfg_ID config) = runs_of db (cfg_ID config) @ [j]" by (simp add: runs_of_def)
    then have "no_overlap (cfg_ID config) db'" using all assms(4) j(3) by (auto simp: no_overlap_def)
    then show ?thesis using C all run(1,2,5) by blast
  qed
qed

text \<open>A scheduled configuration whose only run is completed and whose next run is due.\<close>

definition daily_config :: CrawlJobConfig where
  "daily_config = (sample_config ''c1'')\<lparr>cfg_JobType := JobTypeScheduled,
     cfg_Schedule := \<lparr>Cron = ''@daily'', LastRunAt = Some 5, NextRunAt = Some 15\<rparr>\<rparr>"

definition daily_env :: sched_env where
  "daily_env = job_env.extend sample_job_env
     \<lparr>se_parse = (\<lambda>s. Inr (\<lambda>t. t + 100)), se_format = (\<lambda>t. ''now''), se_sql_no_rows = (\<lambda>e. False),
      se_latest = None, se_update = None, se_bulk_outbox = None\<rparr>"

lemma TrimSpace_daily: "TrimSpace ''@daily'' = ''@daily''"
  by (simp add: TrimSpace_def is_space_def)

lemma daily_run_starts:
  "case processConfig daily_env daily_config reparsed_db of (r, db') \<Rightarrow> r = Inr () \<and> length (runs_of db' ''c1'') = 2"
  by code_simp

theorem schedule_visit_witness:
  "\<exists>db'. processConfig daily_env daily_config reparsed_db = (Inr (), db') \<and> db_inv db' \<and> no_overlap ''c1'' db' \<and>
     length (runs_of db' ''c1'') = 2"
proof -
  obtain db' where p: "processConfig daily_env daily_config reparsed_db = (Inr (), db')" "length (runs_of db' ''c1'') = 2"
    using daily_run_starts by (auto split: prod.splits)
  have id: "cfg_ID daily_config = ''c1''" by (simp add: daily_config_def sample_config_def)
  have runs: "runs_of reparsed_db ''c1'' =
      [SaveCrawlJobToSnapshot (MarkAsExported (sample_job ''j1'' ''c1'') ''j.json'' ''j.csv'' 10)]"
    by (simp add: runs_of_def reparsed_db_def SaveCrawlJobToSnapshot_def MarkAsExported_def sample_job_def ID_IsEmpty_def)
  have clock: "\<forall>j \<in> set (runs_of reparsed_db (cfg_ID daily_config)). js_CreatedAt j < je_now daily_env"
    by (simp add: id runs MarkAsExported_def sample_job_def daily_env_def job_env.defs sample_job_env_def)
  have "no_overlap (cfg_ID daily_config) reparsed_db" by (simp add: no_overlap_def id runs)
  note V = schedule_visit [OF reparsed_db_inv p(1) this clock]
  then show ?thesis using p id by auto
qed

subsection \<open>A whole poll\<close>

text \<open>
  The loop over the pages of scheduled configurations.  An error of a visit is logged; a page that
  is not full is the last.  The loop ends because no visit adds a configuration.
\<close>

definition visit_configs :: "(string \<Rightarrow> sched_env) \<Rightarrow> CrawlJobConfig list \<Rightarrow> DB \<Rightarrow> DB" where
  "visit_configs envs configs db = foldl (\<lambda>db c. snd (processConfig (envs (cfg_ID c)) c db)) db configs"

lemma config_count [simp]:
  "length (db_configs (snd (config_Update c db))) = length (db_configs db)"
  "length (db_configs (snd (job_Create ok j db))) = length (db_configs db)"
  "length (db_configs (snd (task_BulkCreate ok ts db))) = length (db_configs db)"
  "length (db_configs (snd (outbox_BulkCreate es db))) = length (db_configs db)"
  "length (db_configs (snd (db_call f op db))) = (if f = None then length (db_configs (snd (op db))) else length (db_configs db))"
  by (simp_all add: repo_defs Let_def db_call_def split: option.splits sum.splits prod.splits)

lemma ReadCommitted_configs:
  "length (db_configs (snd (body db))) = length (db_configs db) \<Longrightarrow>
     length (db_configs (snd (ReadCommitted fb fc body db))) = length (db_configs db)"
  by (cases "body db") (auto simp: ReadCommitted_def transaction_def split: outcome.splits option.splits sum.splits)

lemma db_call_configs:
  assumes "db_call f op db = (r, db')" and "\<And>db. length (db_configs (snd (op db))) = length (db_configs db)"
  shows "length (db_configs db') = length (db_configs db)"
  using assms by (cases f) (auto, metis snd_conv)

lemma scheduled_body_configs: "length (db_configs (snd (scheduled_body env config schedule db))) = length (db_configs db)"
  by (auto simp: scheduled_body_def Let_def split: prod.splits sum.splits outcome.splits dest!: db_call_configs)

lemma processConfig_configs: "length (db_configs (snd (processConfig env config db))) = length (db_configs db)"
  by (auto simp: processConfig_def Let_def createScheduledJob_def scheduled_body_configs ReadCommitted_configs
      split: sum.splits option.splits)

lemma visit_configs_length: "length (db_configs (visit_configs envs configs db)) = length (db_configs db)"
  unfolding visit_configs_def by (induction configs arbitrary: db) (simp_all add: processConfig_configs)

lemma page_within:
  assumes "config_ListAllScheduled ok n offset db = Inr configs" and "configs \<noteq> []"
  shows "offset < length (db_configs db)"
proof -
  let ?cs = "sort_key cfg_Name (filter (\<lambda>c. cfg_JobType c = JobTypeScheduled) (db_configs db))"
  have "length configs = length (take n (drop offset ?cs))"
    using assms(1) map_res_length unfolding config_ListAllScheduled_def by blast
  then have "offset < length ?cs" using assms(2) by (cases "offset < length ?cs") auto
  also have "\<dots> \<le> length (db_configs db)" by simp
  finally show ?thesis .
qed

function processSchedules ::
  "(string \<Rightarrow> sched_env) \<Rightarrow> (nat \<Rightarrow> gerr option) \<Rightarrow> (string \<Rightarrow> bool) \<Rightarrow> nat \<Rightarrow> nat \<Rightarrow> DB \<Rightarrow> DB" where
  "processSchedules envs fail_list ok batchSize offset db =
     (case db_read (fail_list offset) (config_ListAllScheduled ok batchSize offset) db of
        Inl _ \<Rightarrow> db
      | Inr configs \<Rightarrow>
          if configs = [] then db
          else if length configs < batchSize then visit_configs envs configs db
          else processSchedules envs fail_list ok batchSize (offset + length configs) (visit_configs envs configs db))"
  by pat_completeness auto

termination
proof (relation "measure (\<lambda>(envs, fail_list, ok, batchSize, offset, db). length (db_configs db) - offset)")
  fix envs :: "string \<Rightarrow> sched_env" and fail_list ok batchSize offset db configs
  assume c: "db_read (fail_list offset) (config_ListAllScheduled ok batchSize offset) db = Inr configs" "configs \<noteq> []"
  then have "config_ListAllScheduled ok batchSize offset db = Inr configs"
    by (auto simp: db_read_def split: option.splits)
  then have "offset < length (db_configs db)" using page_within c(2) by blast
  then show "((envs, fail_list, ok, batchSize, offset + length configs, visit_configs envs configs db),
      (envs, fail_list, ok, batchSize, offset, db)) \<in> measure (\<lambda>(envs, fail_list, ok, batchSize, offset, db). length (db_configs db) - offset)"
    using c(2) by (cases configs) (simp_all add: visit_configs_length)
qed simp

lemma visit_configs_inv: "db_inv db \<Longrightarrow> db_inv (visit_configs envs configs db)"
  unfolding visit_configs_def
  by (induction configs arbitrary: db) (simp_all add: processConfig_cases [OF _ surjective_pairing])

lemma processSchedules_inv: "db_inv db \<Longrightarrow> db_inv (processSchedules envs fail_list ok batchSize offset db)"
proof (induction envs fail_list ok batchSize offset db rule: processSchedules.induct)
  case (1 envs fail_list ok batchSize offset db)
  then show ?case by (subst processSchedules.simps) (auto simp: visit_configs_inv split: sum.splits)
qed

declare processSchedules.simps [simp del]

section \<open>Recovery of stuck tasks\<close>

definition stale :: "recovery_env \<Rightarrow> CrawlTaskSnapshot \<Rightarrow> bool" where
  "stale env r \<longleftrightarrow> ts_Status r = TaskStatusInProgress \<and> ts_EnqueuedAt r < re_now env - DefaultStuckTaskThreshold"

definition message_for :: "CrawlTaskSnapshot \<Rightarrow> CrawlTaskMessage \<Rightarrow> bool" where
  "message_for r m \<longleftrightarrow> cm_TaskID m = ts_ID r \<and> cm_JobID m = ts_JobID r \<and> cm_URL m = ts_URL r \<and> cm_EnqueuedAt m = ts_EnqueuedAt r"

lemma republish_spec:
  assumes "re_queues env \<noteq> []" and "\<And>i n. 0 < n \<Longrightarrow> re_rand env i n < n"
  shows "\<exists>msgs. republish env ts sent = Returns (sent @ msgs) \<and>
           map snd msgs = map (stuck_message env) (filter (\<lambda>t. re_publish env (task_ID t) = None) ts) \<and>
           fst ` set msgs \<subseteq> set (re_queues env)"
proof (induction ts arbitrary: sent)
  case (Cons t ts)
  obtain q where q: "q \<in> set (re_queues env)" "SelectCrawlQueue (re_rand env (task_ID t)) (re_queues env) [] = Returns q"
    using SelectCrawlQueue_no_weights_available [OF assms(1), of "re_rand env (task_ID t)"] assms(2) by blast
  show ?case
  proof (cases "re_publish env (task_ID t) = None")
    case True
    obtain msgs where "republish env ts (sent @ [(q, stuck_message env t)]) = Returns ((sent @ [(q, stuck_message env t)]) @ msgs)"
      "map snd msgs = map (stuck_message env) (filter (\<lambda>t. re_publish env (task_ID t) = None) ts)" "fst ` set msgs \<subseteq> set (re_queues env)"
      using Cons.IH by blast
    then show ?thesis using q True by (intro exI [of _ "(q, stuck_message env t) # msgs"]) simp
  next
    case False
    then obtain e where "re_publish env (task_ID t) = Some e" by blast
    then show ?thesis using Cons.IH [of sent] q by simp
  qed
qed simp

text \<open>
  Lost tasks are sent again.  One pass of the recovery publishes, on the configured queues, a
  message for each of the (at most 500, oldest first) tasks that have been in progress for ten
  minutes, except those whose publication the broker refuses, and for no other task.
\<close>

theorem recover_republishes:
  assumes up: "re_list env = None" and q: "re_queues env \<noteq> []" and rnd: "\<And>i n. 0 < n \<Longrightarrow> re_rand env i n < n"
    and ids: "\<forall>r \<in> set (db_tasks db). valid_id (re_uuid_ok env) (ts_ID r) \<and> valid_id (re_uuid_ok env) (ts_JobID r)"
  shows "\<exists>msgs. recover env db sent = Returns (sent @ msgs) \<and> fst ` set msgs \<subseteq> set (re_queues env) \<and>
           list_all2 message_for
             (filter (\<lambda>r. re_publish env (ts_ID r) = None)
                (take 500 (sort_key ts_EnqueuedAt (filter (stale env) (db_tasks db))))) (map snd msgs)"
proof -
  let ?rows = "take 500 (sort_key ts_EnqueuedAt (filter (stale env) (db_tasks db)))"
  have sub: "set ?rows \<subseteq> set (db_tasks db)" using set_take_subset by fastforce
  have "map_res (RestoreCrawlTaskFromSnapshot (re_uuid_ok env)) ?rows = Inr (map (\<lambda>r. task_of_row r None) ?rows)"
  proof (rule map_res_all)
    fix r assume "r \<in> set ?rows"
    then have "r \<in> set (db_tasks db)" using sub by blast
    then show "RestoreCrawlTaskFromSnapshot (re_uuid_ok env) r = Inr (task_of_row r None)"
      using ids by (simp add: RestoreCrawlTaskFromSnapshot_def NewTypedID_eq)
  qed
  then have rec: "recover env db sent = republish env (map (\<lambda>r. task_of_row r None) ?rows) sent"
    using up by (simp add: recover_def db_read_def task_ListStaleInProgress_def stale_def [abs_def] DefaultStuckTaskBatchSize_def)
  obtain msgs where m: "republish env (map (\<lambda>r. task_of_row r None) ?rows) sent = Returns (sent @ msgs)"
    "map snd msgs = map (stuck_message env) (filter (\<lambda>t. re_publish env (task_ID t) = None) (map (\<lambda>r. task_of_row r None) ?rows))"
    "fst ` set msgs \<subseteq> set (re_queues env)"
    using republish_spec [OF q rnd] by blast
  have "list_all2 message_for xs (map (stuck_message env) (map (\<lambda>r. task_of_row r None) xs))" for xs
    by (induction xs) (simp_all add: message_for_def stuck_message_def)
  then have "list_all2 message_for (filter (\<lambda>r. re_publish env (ts_ID r) = None) ?rows) (map snd msgs)"
    unfolding m(2) filter_map by (simp add: comp_def)
  then show ?thesis using rec m(1,3) by auto
qed

definition sample_recovery_env :: recovery_env where
  "sample_recovery_env =
     \<lparr>re_uuid_ok = ok2, re_now = 11 * Minute, re_list = None, re_rand = (\<lambda>i n. n - 1), re_queues = [''a'', ''b''],
      re_trace = [], re_publish = (\<lambda>i. None)\<rparr>"

theorem recover_republishes_witness:
  "\<exists>q m. recover sample_recovery_env sample_db [] = Returns [(q, m)] \<and> cm_TaskID m = ''t1''"
proof -
  have st: "filter (stale sample_recovery_env) (db_tasks sample_db) = db_tasks sample_db"
    by (simp add: stale_def sample_db_def sample_recovery_env_def DefaultStuckTaskThreshold_def Minute_def Second_def)
  have "\<exists>msgs. recover sample_recovery_env sample_db [] = Returns ([] @ msgs) \<and>
      fst ` set msgs \<subseteq> set (re_queues sample_recovery_env) \<and>
      list_all2 message_for
             (filter (\<lambda>r. re_publish sample_recovery_env (ts_ID r) = None)
                (take 500 (sort_key ts_EnqueuedAt (filter (stale sample_recovery_env) (db_tasks sample_db))))) (map snd msgs)"
    by (rule recover_republishes) (simp_all add: sample_recovery_env_def sample_db_def valid_id_def ok2_def)
  then show ?thesis unfolding st
    by (auto simp: sample_db_def sample_recovery_env_def list_all2_Cons1 message_for_def)
qed

end
