(* ===== verification/Export_Worker.thy ===== *)
theory Export_Worker
  imports Job_Services
begin

text \<open>
  The export worker, \<^verbatim>\<open>worker/export_worker.go\<close>: one poll exports the eligible jobs in one
  transaction, each as a JSON and a CSV report in the content store.  The errors of single jobs are
  only logged, so statements follow a failed one in the same transaction; PostgreSQL then refuses
  them and turns the commit into a rollback, which the state of the transaction (\<open>x_aborted\<close>)
  records.  The writer of \<^verbatim>\<open>encoding/csv\<close> is modelled, with a reader of the format as its
  specification; JSON encoding and decoding, the content store's answers and the clock are an
  environment record.
\<close>

section \<open>CSV\<close>

definition needs_quotes :: "string \<Rightarrow> bool" where
  "needs_quotes field \<longleftrightarrow>
     field \<noteq> [] \<and>
     (field = [CHR 0x5C, CHR ''.''] \<or>
      list_ex (\<lambda>c. c \<in> {CHR 0x0A, CHR 0x0D, CHR 0x22, CHR '',''}) field \<or>
      is_space (hd field))"

definition csv_field :: "string \<Rightarrow> string" where
  "csv_field field =
     (if needs_quotes field
      then [CHR 0x22] @ concat (map (\<lambda>c. if c = CHR 0x22 then [c, c] else [c]) field) @ [CHR 0x22]
      else field)"

fun csv_record :: "string list \<Rightarrow> string" where
  "csv_record [] = [CHR 0x0A]"
| "csv_record [f] = csv_field f @ [CHR 0x0A]"
| "csv_record (f # fs) = csv_field f @ [CHR '',''] @ csv_record fs"

definition csv_write :: "string list list \<Rightarrow> string" where
  "csv_write rows = concat (map csv_record rows)"

text \<open>The format: quoted fields with doubled quotes, bare fields, one record per line.\<close>

datatype csv_state = FieldStart | Bare | Quoted | QuoteEnd

fun csv_read :: "csv_state \<Rightarrow> string \<Rightarrow> string list \<Rightarrow> string \<Rightarrow> string list list option" where
  "csv_read st cur row [] = (if st = FieldStart \<and> row = [] then Some [] else None)"
| "csv_read st cur row (c # cs) =
     (if st = FieldStart \<and> c = CHR 0x22 then csv_read Quoted [] row cs
      else if st = Quoted then (if c = CHR 0x22 then csv_read QuoteEnd cur row cs else csv_read Quoted (cur @ [c]) row cs)
      else if st = QuoteEnd \<and> c = CHR 0x22 then csv_read Quoted (cur @ [c]) row cs
      else if c = CHR '','' then csv_read FieldStart [] (row @ [if st = FieldStart then [] else cur]) cs
      else if c = CHR 0x0A then map_option (\<lambda>rows. (row @ [if st = FieldStart then [] else cur]) # rows) (csv_read FieldStart [] [] cs)
      else if st = QuoteEnd \<or> c = CHR 0x22 then None
      else csv_read Bare (if st = FieldStart then [c] else cur @ [c]) row cs)"

lemma csv_read_quoted:
  "csv_read Quoted cur row (concat (map (\<lambda>c. if c = CHR 0x22 then [c, c] else [c]) f) @ CHR 0x22 # rest) =
     csv_read QuoteEnd (cur @ f) row rest"
  by (induction f arbitrary: cur) simp_all

lemma csv_read_bare:
  "\<forall>c \<in> set f. c \<notin> {CHR 0x0A, CHR 0x0D, CHR 0x22, CHR '',''} \<Longrightarrow>
     csv_read Bare cur row (f @ rest) = csv_read Bare (cur @ f) row rest"
  by (induction f arbitrary: cur) simp_all

text \<open>After a written field the reader has the field, and a separator ends it.\<close>

lemma csv_read_field:
  assumes "c \<in> {CHR '','', CHR 0x0A}"
  shows "csv_read FieldStart x row (csv_field f @ c # rest) =
     (if c = CHR '','' then csv_read FieldStart [] (row @ [f]) rest
      else map_option (\<lambda>rows. (row @ [f]) # rows) (csv_read FieldStart [] [] rest))"
proof (cases "needs_quotes f")
  case True
  then show ?thesis using assms by (auto simp: csv_field_def csv_read_quoted)
next
  case False
  show ?thesis
  proof (cases f)
    case Nil
    then show ?thesis using assms by (auto simp: csv_field_def needs_quotes_def)
  next
    case (Cons d ds)
    then have "\<forall>e \<in> set (d # ds). e \<notin> {CHR 0x0A, CHR 0x0D, CHR 0x22, CHR '',''}"
      using False by (auto simp: needs_quotes_def list_ex_iff)
    moreover from this have "\<forall>e \<in> set ds. e \<notin> {CHR 0x0A, CHR 0x0D, CHR 0x22, CHR '',''}" by simp
    ultimately show ?thesis using False Cons assms csv_read_bare [of ds "[d]" row "c # rest"] by (auto simp: csv_field_def)
  qed
qed

lemma csv_read_record:
  "fs \<noteq> [] \<Longrightarrow> csv_read FieldStart x row (csv_record fs @ rest) =
     map_option (\<lambda>rows. (row @ fs) # rows) (csv_read FieldStart [] [] rest)"
proof (induction fs arbitrary: x row rule: csv_record.induct)
  case (2 f)
  then show ?case by (simp add: csv_read_field)
next
  case (3 f g gs)
  have "csv_read FieldStart x row (csv_record (f # g # gs) @ rest) =
      csv_read FieldStart x row (csv_field f @ CHR '','' # (csv_record (g # gs) @ rest))" by simp
  also have "\<dots> = csv_read FieldStart [] (row @ [f]) (csv_record (g # gs) @ rest)" by (simp add: csv_read_field)
  finally show ?case using 3 by simp
qed simp

lemma csv_write_read: "\<forall>r \<in> set rows. r \<noteq> [] \<Longrightarrow> csv_read FieldStart [] [] (csv_write rows) = Some rows"
  by (induction rows) (simp_all add: csv_write_def csv_read_record)

section \<open>Results and reports\<close>

text \<open>The values of \<^verbatim>\<open>map[string]any\<close> after decoding; an object is a map with its keys once.\<close>

datatype json = JNull | JBool bool | JString string | JNumber string | JArray "json list" | JObject "(string \<times> json) list"

type_synonym json_map = "(string \<times> json) list"

record TaskResult =
  res_TaskID :: string
  res_URL :: string
  res_Status :: string
  res_Fields :: "json_map option"
  res_Items :: "json_map list"
  res_Error :: string

record export_env =
  xe_uuid_ok :: "string \<Rightarrow> bool"
  xe_batchSize :: nat
  xe_locked :: "string list"
  xe_begin :: "gerr option"
  xe_commit :: "gerr option"
  xe_list_jobs :: "gerr option"
  xe_list_tasks :: "string \<Rightarrow> gerr option"
  xe_get :: "string \<Rightarrow> gerr option"
  xe_store :: "string \<Rightarrow> gerr option"
  xe_fail :: "string \<Rightarrow> gerr option"
  xe_update :: "string \<Rightarrow> gerr option"
  xe_decode :: "string \<Rightarrow> json_map res"
  xe_marshal :: "json \<Rightarrow> string res"
  xe_sprint :: "json \<Rightarrow> string"
  xe_report :: "string \<Rightarrow> time \<Rightarrow> TaskResult list \<Rightarrow> string res"
  xe_now :: "string \<Rightarrow> time"
  xe_exported :: "string \<Rightarrow> time"

fun parseResultItems :: "json option \<Rightarrow> json_map list" where
  "parseResultItems (Some (JArray elems)) = List.map_filter (\<lambda>e. case e of JObject m \<Rightarrow> Some m | _ \<Rightarrow> None) elems"
| "parseResultItems _ = []"

fun toCSVValue :: "export_env \<Rightarrow> json \<Rightarrow> string" where
  "toCSVValue env JNull = []"
| "toCSVValue env (JString s) = s"
| "toCSVValue env (JBool b) = (if b then ''true'' else ''false'')"
| "toCSVValue env v = (case xe_marshal env v of Inr encoded \<Rightarrow> encoded | Inl _ \<Rightarrow> xe_sprint env v)"

definition load_result :: "export_env \<Rightarrow> content_store \<Rightarrow> CrawlTask \<Rightarrow> TaskResult" where
  "load_result env store task =
     (let result = \<lparr>res_TaskID = task_ID task, res_URL = task_URL task, res_Status = task_Status task,
                    res_Fields = None, res_Items = [], res_Error = []\<rparr>;
          key = (case task_ResultObjectKey task of None \<Rightarrow> [] | Some k \<Rightarrow> k)
      in if (task_Status task = TaskStatusCompleted \<or> task_Status task = TaskStatusParsed) \<and> key \<noteq> [] then
           (case (case xe_get env key of Some e \<Rightarrow> Inl e
                  | None \<Rightarrow> (case store key of None \<Rightarrow> Inl (ErrText ''object not found'') | Some c \<Rightarrow> Inr (fst c))) of
              Inl e \<Rightarrow> result\<lparr>res_Error := ''failed to load result: '' @ err_text e\<rparr>
            | Inr jsonData \<Rightarrow>
                (case xe_decode env jsonData of
                   Inl e \<Rightarrow> result\<lparr>res_Error := ''failed to parse JSON: '' @ err_text e\<rparr>
                 | Inr taskOutput \<Rightarrow>
                     result\<lparr>res_Fields := (case map_of taskOutput ''fields'' of Some (JObject m) \<Rightarrow> Some m | _ \<Rightarrow> None),
                            res_Items := parseResultItems (map_of taskOutput ''items'')\<rparr>))
         else if task_Status task = TaskStatusFailed then result\<lparr>res_Error := ''task failed during crawl/parse''\<rparr>
         else result)"

definition loadTaskResults :: "export_env \<Rightarrow> content_store \<Rightarrow> CrawlTask list \<Rightarrow> TaskResult list" where
  "loadTaskResults env store tasks = map (load_result env store) tasks"

definition collectFieldNames :: "TaskResult list \<Rightarrow> string list" where
  "collectFieldNames results =
     sort (remdups (concat (map (\<lambda>r. case res_Fields r of None \<Rightarrow> [] | Some m \<Rightarrow> map fst m) results)))"

definition collectItemFieldNames :: "TaskResult list \<Rightarrow> string list" where
  "collectItemFieldNames results = sort (remdups (concat (map (\<lambda>r. concat (map (map fst) (res_Items r))) results)))"

definition cell :: "export_env \<Rightarrow> json_map \<Rightarrow> string \<Rightarrow> string" where
  "cell env m name = (case map_of m name of Some v \<Rightarrow> toCSVValue env v | None \<Rightarrow> [])"

definition csv_header :: "string list \<Rightarrow> string list \<Rightarrow> string list" where
  "csv_header fieldNames itemFieldNames =
     [''task_id'', ''url'', ''status''] @ fieldNames @ [''item_index''] @ map (\<lambda>n. ''item.'' @ n) itemFieldNames @ [''error'']"

definition base_row :: "export_env \<Rightarrow> string list \<Rightarrow> TaskResult \<Rightarrow> string list" where
  "base_row env fieldNames r =
     [res_TaskID r, res_URL r, res_Status r] @
     map (\<lambda>n. case res_Fields r of None \<Rightarrow> [] | Some m \<Rightarrow> cell env m n) fieldNames"

definition csv_rows :: "export_env \<Rightarrow> string list \<Rightarrow> string list \<Rightarrow> TaskResult \<Rightarrow> string list list" where
  "csv_rows env fieldNames itemFieldNames r =
     (if res_Items r \<noteq> [] then
        map (\<lambda>(idx, item). base_row env fieldNames r @ [show_nat idx] @ map (cell env item) itemFieldNames @ [res_Error r])
          (enumerate 0 (res_Items r))
      else [base_row env fieldNames r @ [[]] @ map (\<lambda>_. []) itemFieldNames @ [res_Error r]])"

definition report_rows :: "export_env \<Rightarrow> TaskResult list \<Rightarrow> string list list" where
  "report_rows env results =
     (let fieldNames = collectFieldNames results; itemFieldNames = collectItemFieldNames results
      in csv_header fieldNames itemFieldNames # concat (map (csv_rows env fieldNames itemFieldNames) results))"

definition csv_data :: "export_env \<Rightarrow> TaskResult list \<Rightarrow> string" where
  "csv_data env results =
     (if results = [] then ''task_id,url,status'' @ [CHR 0x0A] else csv_write (report_rows env results))"

definition json_report_key :: "string \<Rightarrow> string" where
  "json_report_key jobID = ''exports/jobs/'' @ jobID @ ''/report.json''"

definition csv_report_key :: "string \<Rightarrow> string" where
  "csv_report_key jobID = ''exports/jobs/'' @ jobID @ ''/report.csv''"

definition generateJSONReport ::
  "export_env \<Rightarrow> string \<Rightarrow> TaskResult list \<Rightarrow> content_store \<Rightarrow> string res \<times> content_store" where
  "generateJSONReport env jobID results store =
     (case xe_report env jobID (xe_now env jobID) results of
        Inl e \<Rightarrow> (Inl (ErrWrap ''failed to marshal JSON report'' e), store)
      | Inr jsonData \<Rightarrow>
          (case xe_store env (json_report_key jobID) of
             Some e \<Rightarrow> (Inl (ErrWrap ''failed to upload JSON report to S3'' e), store)
           | None \<Rightarrow> (Inr (json_report_key jobID), store(json_report_key jobID \<mapsto> (jsonData, ''application/json'')))))"

definition generateCSVReport ::
  "export_env \<Rightarrow> string \<Rightarrow> TaskResult list \<Rightarrow> content_store \<Rightarrow> string res \<times> content_store" where
  "generateCSVReport env jobID results store =
     (case xe_store env (csv_report_key jobID) of
        Some e \<Rightarrow> (Inl (ErrWrap (if results = [] then ''failed to upload empty CSV'' else ''failed to upload CSV report to S3'') e), store)
      | None \<Rightarrow> (Inr (csv_report_key jobID), store(csv_report_key jobID \<mapsto> (csv_data env results, ''text/csv''))))"

section \<open>The transaction of a poll\<close>

record export_state =
  x_aborted :: bool
  x_db :: DB
  x_store :: content_store

definition tx_aborted :: gerr where
  "tx_aborted = ErrText ''current transaction is aborted, commands ignored until end of transaction block''"

text \<open>A statement that fails aborts the transaction; an aborted transaction refuses every statement.\<close>

definition tx_stmt :: "gerr option \<Rightarrow> (DB \<Rightarrow> 'a res \<times> DB) \<Rightarrow> export_state \<Rightarrow> 'a res \<times> export_state" where
  "tx_stmt fail op s =
     (if x_aborted s then (Inl tx_aborted, s)
      else case db_call fail op (x_db s) of
             (Inl e, _) \<Rightarrow> (Inl e, s\<lparr>x_aborted := True\<rparr>)
           | (Inr x, db') \<Rightarrow> (Inr x, s\<lparr>x_db := db'\<rparr>))"

text \<open>A query whose rows the client then converts: an error of the conversion does not abort.\<close>

definition tx_query :: "gerr option \<Rightarrow> (DB \<Rightarrow> 'a res) \<Rightarrow> export_state \<Rightarrow> 'a res \<times> export_state" where
  "tx_query fail q s =
     (if x_aborted s then (Inl tx_aborted, s)
      else case fail of Some e \<Rightarrow> (Inl e, s\<lparr>x_aborted := True\<rparr>) | None \<Rightarrow> (q (x_db s), s))"

definition failExport :: "export_env \<Rightarrow> string \<Rightarrow> export_state \<Rightarrow> export_state" where
  "failExport env jobID s = snd (tx_stmt (xe_fail env jobID) (job_FailExport jobID) s)"

definition processJob :: "export_env \<Rightarrow> CrawlJob \<Rightarrow> export_state \<Rightarrow> unit res \<times> export_state" where
  "processJob env job s =
     (let jobID = job_ID job
      in case tx_query (xe_list_tasks env jobID) (task_ListByJob (xe_uuid_ok env) jobID) s of
           (Inl e, s1) \<Rightarrow> (Inl (ErrWrap ''failed to load tasks'' e), failExport env jobID s1)
         | (Inr tasks, s1) \<Rightarrow>
             let results = loadTaskResults env (x_store s1) tasks
             in case generateJSONReport env jobID results (x_store s1) of
                  (Inl e, store) \<Rightarrow>
                    (Inl (ErrWrap ''failed to generate JSON report'' e), failExport env jobID (s1\<lparr>x_store := store\<rparr>))
                | (Inr jsonKey, store) \<Rightarrow>
                    (case generateCSVReport env jobID results store of
                       (Inl e, store2) \<Rightarrow>
                         (Inl (ErrWrap ''failed to generate CSV report'' e), failExport env jobID (s1\<lparr>x_store := store2\<rparr>))
                     | (Inr csvKey, store2) \<Rightarrow>
                         (case tx_stmt (xe_update env jobID) (job_Update (MarkAsExported job jsonKey csvKey (xe_exported env jobID)))
                                 (s1\<lparr>x_store := store2\<rparr>) of
                            (Inl e, s2) \<Rightarrow> (Inl (ErrWrap ''failed to mark export as completed'' e), s2)
                          | (Inr _, s2) \<Rightarrow> (Inr (), s2))))"

definition processJobs :: "export_env \<Rightarrow> CrawlJob list \<Rightarrow> export_state \<Rightarrow> export_state" where
  "processJobs env jobs s = foldl (\<lambda>s job. snd (processJob env job s)) s jobs"

text \<open>One poll: the database is rolled back with the transaction, the stored reports stay.\<close>

definition processEligibleJobs :: "export_env \<Rightarrow> DB \<times> content_store \<Rightarrow> unit res \<times> DB \<times> content_store" where
  "processEligibleJobs env st =
     (case st of (db, store) \<Rightarrow>
      case xe_begin env of
        Some e \<Rightarrow> (Inl (ErrWrap ''cant begin transaction'' e), db, store)
      | None \<Rightarrow>
          (case db_read (xe_list_jobs env) (job_ListEligibleForExport (xe_uuid_ok env) (xe_locked env) (xe_batchSize env)) db of
             Inl e \<Rightarrow> (Inl (ErrWrap ''failed executing code inside transaction''
                            (ErrWrap ''failed to list eligible jobs for export'' e)), db, store)
           | Inr jobs \<Rightarrow>
               let s = processJobs env jobs \<lparr>x_aborted = False, x_db = db, x_store = store\<rparr>
               in if x_aborted s
                  then (Inl (ErrWrap ''tx commit failed'' (ErrText ''commit unexpectedly resulted in rollback'')), db, x_store s)
                  else (case xe_commit env of
                          Some e \<Rightarrow> (Inl (ErrWrap ''tx commit failed'' e), db, x_store s)
                        | None \<Rightarrow> (Inr (), x_db s, x_store s))))"

section \<open>The CSV report\<close>

lemma csv_rows_length:
  "row \<in> set (csv_rows env fs is r) \<Longrightarrow> length row = 5 + length fs + length is"
  by (auto simp: csv_rows_def base_row_def in_set_enumerate_eq split: if_splits)

lemma csv_rows_count: "length (csv_rows env fs is r) = max 1 (length (res_Items r))"
  by (cases "res_Items r") (simp_all add: csv_rows_def)

lemma report_rows_ne: "row \<in> set (report_rows env results) \<Longrightarrow> row \<noteq> []"
  by (auto simp: report_rows_def csv_header_def csv_rows_def base_row_def Let_def split: if_splits)

text \<open>
  C35. The CSV report can be read back whatever the pages contained: quotes, separators and line breaks
  in the crawled values never shift a column or a row.  Every row has the columns of the header; each
  result has one row per item, or one row when it has none; the columns are the sorted union of
  the field names, so no extracted field is lost.
\<close>

theorem csv_report_roundtrip:
  "csv_read FieldStart [] [] (csv_data env results) =
     Some (if results = [] then [[''task_id'', ''url'', ''status'']] else report_rows env results) \<and>
   (\<forall>row \<in> set (report_rows env results).
      length row = 5 + length (collectFieldNames results) + length (collectItemFieldNames results)) \<and>
   length (report_rows env results) = 1 + (\<Sum>r \<leftarrow> results. max 1 (length (res_Items r))) \<and>
   sorted (collectFieldNames results) \<and> distinct (collectFieldNames results) \<and>
   (\<forall>r \<in> set results. \<forall>m. res_Fields r = Some m \<longrightarrow> fst ` set m \<subseteq> set (collectFieldNames results))"
proof (intro conjI ballI allI impI)
  show "csv_read FieldStart [] [] (csv_data env results) =
     Some (if results = [] then [[''task_id'', ''url'', ''status'']] else report_rows env results)"
    using csv_write_read [of "report_rows env results"] report_rows_ne [of _ env results]
    by (cases "results = []") (simp_all add: csv_data_def)
  show "length row = 5 + length (collectFieldNames results) + length (collectItemFieldNames results)"
    if "row \<in> set (report_rows env results)" for row
    using that by (auto simp: report_rows_def csv_header_def Let_def dest: csv_rows_length)
  show "length (report_rows env results) = 1 + (\<Sum>r \<leftarrow> results. max 1 (length (res_Items r)))"
    by (simp add: report_rows_def Let_def length_concat comp_def csv_rows_count)
  show "fst ` set m \<subseteq> set (collectFieldNames results)" if "r \<in> set results" "res_Fields r = Some m" for r m
    using that by (force simp: collectFieldNames_def)
qed (simp_all add: collectFieldNames_def)

definition sample_export_env :: export_env where
  "sample_export_env =
     \<lparr>xe_uuid_ok = ok2, xe_batchSize = 10, xe_locked = [], xe_begin = None, xe_commit = None, xe_list_jobs = None,
      xe_list_tasks = (\<lambda>i. None), xe_get = (\<lambda>k. None), xe_store = (\<lambda>k. None), xe_fail = (\<lambda>i. None),
      xe_update = (\<lambda>i. None), xe_decode = (\<lambda>s. Inr [(''fields'', JObject [(''title'', JString s)])]),
      xe_marshal = (\<lambda>v. Inr ''{}''), xe_sprint = (\<lambda>v. []), xe_report = (\<lambda>i t rs. Inr ''{}''),
      xe_now = (\<lambda>i. 30), xe_exported = (\<lambda>i. 31)\<rparr>"

text \<open>A result whose title holds a separator, a quote and a line break.\<close>

definition nasty_result :: TaskResult where
  "nasty_result = \<lparr>res_TaskID = ''t1'', res_URL = ''http://a'', res_Status = ''Parsed'',
     res_Fields = Some [(''title'', JString [CHR '','', CHR 0x22, CHR 0x0A])], res_Items = [], res_Error = []\<rparr>"

theorem csv_report_roundtrip_witness:
  "csv_read FieldStart [] [] (csv_data sample_export_env [nasty_result]) =
     Some [[''task_id'', ''url'', ''status'', ''title'', ''item_index'', ''error''],
           [''t1'', ''http://a'', ''Parsed'', [CHR '','', CHR 0x22, CHR 0x0A], [], []]]"
proof -
  have "csv_read FieldStart [] [] (csv_data sample_export_env [nasty_result]) = Some (report_rows sample_export_env [nasty_result])"
    using csv_report_roundtrip [of sample_export_env "[nasty_result]"] by simp
  then show ?thesis
    by (simp add: report_rows_def nasty_result_def collectFieldNames_def collectItemFieldNames_def csv_header_def csv_rows_def
        base_row_def cell_def)
qed

section \<open>Eligibility\<close>

lemma find_job_map:
  assumes "\<And>x. js_ID (f x) = js_ID x"
  shows "find_job (db\<lparr>db_jobs := map f (db_jobs db)\<rparr>) i = map_option f (find_job db i)"
proof -
  have "List.find (\<lambda>r. js_ID r = i) (map f xs) = map_option f (List.find (\<lambda>r. js_ID r = i) xs)" for xs
    using assms by (induction xs) simp_all
  then show ?thesis by (simp add: find_job_def)
qed

lemma FailExport_find:
  "find_job (snd (job_FailExport i db)) k =
     (if k = i then map_option (\<lambda>j. j\<lparr>js_ExportStatus := Some ExportStatusFailed\<rparr>) (find_job db k) else find_job db k)"
proof -
  let ?f = "\<lambda>j. if js_ID j = i then j\<lparr>js_ExportStatus := Some ExportStatusFailed\<rparr> else j"
  have "find_job (snd (job_FailExport i db)) k = map_option ?f (find_job db k)"
    unfolding job_FailExport_def snd_conv by (rule find_job_map) simp
  then show ?thesis by (cases "find_job db k") (auto dest: find_job_SomeD)
qed

lemma Update_find:
  assumes "job_Update job db = (Inr u, db')"
  shows "find_job db' k = (if k = job_ID job
           then map_option (\<lambda>x. (SaveCrawlJobToSnapshot job)\<lparr>js_CreatedAt := js_CreatedAt x\<rparr>) (find_job db k) else find_job db k)"
proof (cases "find_job db (job_ID job)")
  case None
  then show ?thesis using assms by (auto simp: job_Update_def Let_def)
next
  case (Some old)
  let ?f = "\<lambda>x. if js_ID x = job_ID job then (SaveCrawlJobToSnapshot job)\<lparr>js_CreatedAt := js_CreatedAt x\<rparr> else x"
  have "db' = db\<lparr>db_jobs := map ?f (db_jobs db)\<rparr>"
    using assms Some by (auto simp: job_Update_def Let_def split: option.splits if_splits)
  moreover have "find_job (db\<lparr>db_jobs := map ?f (db_jobs db)\<rparr>) k = map_option ?f (find_job db k)"
    by (rule find_job_map) simp
  ultimately show ?thesis by (cases "find_job db k") (auto dest: find_job_SomeD)
qed

lemma export_frame [simp]:
  "db_tasks (snd (job_FailExport i db)) = db_tasks db" "db_outbox (snd (job_FailExport i db)) = db_outbox db"
  "db_configs (snd (job_FailExport i db)) = db_configs db" "db_tasks (snd (job_Update j db)) = db_tasks db"
  "db_outbox (snd (job_Update j db)) = db_outbox db" "db_configs (snd (job_Update j db)) = db_configs db"
  by (simp_all add: job_FailExport_def job_Update_def Let_def split: option.splits)

text \<open>The conditions of the query that do not look at the columns an export writes.\<close>

definition crawl_finished :: "DB \<Rightarrow> string \<Rightarrow> bool" where
  "crawl_finished db i \<longleftrightarrow>
     \<not> list_ex (\<lambda>t. ts_JobID t = i \<and> \<not> terminal_task t) (db_tasks db) \<and>
     \<not> list_ex (\<lambda>t. ts_JobID t = i \<and> parsed_or_completed t \<and>
           (case ts_ResultObjectKey t of None \<Rightarrow> True | Some k \<Rightarrow> k = [])) (db_tasks db) \<and>
     \<not> list_ex (\<lambda>e. ob_ProcessedAt e = None \<and> ob_EventType e = EventTypeTaskEnqueued \<and>
          list_ex (\<lambda>t. ts_ID t = ob_AggregateID e \<and> ts_JobID t = i) (db_tasks db)) (db_outbox db)"

lemma eligible_split:
  "eligible db j \<longleftrightarrow> export_not_running j \<and> crawl_finished db (js_ID j) \<and> export_outdated db j"
  by (auto simp: eligible_def crawl_finished_def no_pending_events_def)

text \<open>
  C38. Exports are retried and renewed.  A job whose export failed stays eligible, so the next poll
  tries again; a job whose export completed is eligible again exactly when one of its parsed tasks
  got a result after the export.
\<close>

theorem export_cycle:
  assumes "find_job db i = Some j" and "eligible db j"
  shows "(\<exists>j'. find_job (snd (job_FailExport i db)) i = Some j' \<and> eligible (snd (job_FailExport i db)) j') \<and>
         (job_ID job = i \<and> job_Update (MarkAsExported job jsonKey csvKey t) db = (Inr u, db') \<longrightarrow>
           (\<exists>j'. find_job db' i = Some j' \<and>
              (eligible db' j' \<longleftrightarrow> (\<exists>r \<in> set (db_tasks db). ts_JobID r = i \<and> parsed_or_completed r \<and>
                 (\<exists>c. ts_ResultCreatedAt r = Some c \<and> t < c)))))"
proof (intro conjI impI)
  have id: "js_ID j = i" using find_job_SomeD [OF assms(1)] by simp
  let ?j = "j\<lparr>js_ExportStatus := Some ExportStatusFailed\<rparr>"
  have "eligible (snd (job_FailExport i db)) ?j"
    using assms(2) by (cases "js_ExportedAt j") (auto simp: eligible_split crawl_finished_def export_not_running_def export_outdated_def)
  then show "\<exists>j'. find_job (snd (job_FailExport i db)) i = Some j' \<and> eligible (snd (job_FailExport i db)) j'"
    using assms(1) by (simp add: FailExport_find)
next
  assume u: "job_ID job = i \<and> job_Update (MarkAsExported job jsonKey csvKey t) db = (Inr u, db')"
  let ?e = "MarkAsExported job jsonKey csvKey t"
  let ?j = "(SaveCrawlJobToSnapshot ?e)\<lparr>js_CreatedAt := js_CreatedAt j\<rparr>"
  have upd: "job_Update ?e db = (Inr u, db')" using u by simp
  have e: "job_ID ?e = i" using u by (simp add: MarkAsExported_def)
  have f: "find_job db' i = Some ?j" using Update_find [OF upd, of i] assms(1) e by simp
  have same: "db_tasks db' = db_tasks db" "db_outbox db' = db_outbox db"
    using export_frame(4,5) [of ?e db] upd by simp_all
  have fin: "crawl_finished db' i"
    using assms(2) find_job_SomeD [OF assms(1)] by (simp add: eligible_split crawl_finished_def same)
  have "eligible db' ?j \<longleftrightarrow> export_outdated db' ?j"
    using fin e by (simp add: eligible_split export_not_running_def MarkAsExported_def)
  also have "\<dots> \<longleftrightarrow> (\<exists>r \<in> set (db_tasks db). ts_JobID r = i \<and> parsed_or_completed r \<and>
                 (\<exists>c. ts_ResultCreatedAt r = Some c \<and> t < c))"
    using e by (auto simp: export_outdated_def MarkAsExported_def same list_ex_iff split: option.splits)
  finally show "\<exists>j'. find_job db' i = Some j' \<and>
              (eligible db' j' \<longleftrightarrow> (\<exists>r \<in> set (db_tasks db). ts_JobID r = i \<and> parsed_or_completed r \<and>
                 (\<exists>c. ts_ResultCreatedAt r = Some c \<and> t < c)))" using f by blast
qed

lemma reparsed_job:
  "find_job reparsed_db ''j1'' =
     Some (SaveCrawlJobToSnapshot (MarkAsExported (sample_job ''j1'' ''c1'') ''j.json'' ''j.csv'' 10))"
  "eligible reparsed_db (SaveCrawlJobToSnapshot (MarkAsExported (sample_job ''j1'' ''c1'') ''j.json'' ''j.csv'' 10))"
  by (simp add: find_job_def reparsed_db_def MarkAsExported_def sample_job_def,
      simp add: eligible_def reparsed_db_def sample_db_def no_pending_events_def export_outdated_def
        export_not_running_def terminal_task_def parsed_or_completed_def MarkAsExported_def sample_job_def
        MarkAsParsed_def new_task_def SaveCrawlTaskToSnapshot_def)

theorem export_cycle_witness:
  "\<exists>j'. find_job (snd (job_FailExport ''j1'' reparsed_db)) ''j1'' = Some j' \<and>
        eligible (snd (job_FailExport ''j1'' reparsed_db)) j'"
  using export_cycle [OF reparsed_job] by blast

section \<open>A batch of exports\<close>

definition job_rows :: "DB \<Rightarrow> string \<Rightarrow> CrawlTaskSnapshot list" where
  "job_rows db i = sort_key ts_EnqueuedAt (filter (\<lambda>r. ts_JobID r = i) (db_tasks db))"

definition exported_job :: "export_env \<Rightarrow> DB \<Rightarrow> content_store \<Rightarrow> string \<Rightarrow> CrawlJobSnapshot \<Rightarrow> bool" where
  "exported_job env db store i j \<longleftrightarrow>
     js_Status j = TaskStatusCompleted \<and> js_ExportStatus j = Some ExportStatusCompleted \<and>
     js_ExportedAt j = Some (xe_exported env i) \<and> js_CompletedAt j = Some (xe_exported env i) \<and>
     js_ExportJSONKey j = Some (json_report_key i) \<and> js_ExportCSVKey j = Some (csv_report_key i) \<and>
     (\<exists>results jsonData. map res_TaskID results = map ts_ID (job_rows db i) \<and>
        xe_report env i (xe_now env i) results = Inr jsonData \<and>
        store (json_report_key i) = Some (jsonData, ''application/json'') \<and>
        store (csv_report_key i) = Some (csv_data env results, ''text/csv''))"

lemma report_keys:
  "json_report_key i \<noteq> csv_report_key k"
  "json_report_key i = json_report_key k \<longleftrightarrow> i = k" "csv_report_key i = csv_report_key k \<longleftrightarrow> i = k"
proof -
  show "json_report_key i \<noteq> csv_report_key k"
  proof
    assume "json_report_key i = csv_report_key k"
    then have "hd (rev (json_report_key i)) = hd (rev (csv_report_key k))" by simp
    then show False by (simp add: json_report_key_def csv_report_key_def)
  qed
qed (simp_all add: json_report_key_def csv_report_key_def)

definition other_keys :: "string \<Rightarrow> content_store \<Rightarrow> content_store \<Rightarrow> bool" where
  "other_keys i store store' \<longleftrightarrow> (\<forall>k. k \<noteq> json_report_key i \<longrightarrow> k \<noteq> csv_report_key i \<longrightarrow> store' k = store k)"

lemma exported_job_frame:
  "exported_job env db store i j \<Longrightarrow> other_keys k store store' \<Longrightarrow> k \<noteq> i \<Longrightarrow> exported_job env db store' i j"
  by (auto simp: exported_job_def other_keys_def report_keys report_keys(1) [symmetric])

lemma load_result_id [simp]: "res_TaskID (load_result env store t) = task_ID t"
  by (auto simp: load_result_def Let_def split: sum.splits)

lemma ListByJob_ids: "task_ListByJob ok i db = Inr tasks \<Longrightarrow> map task_ID tasks = map ts_ID (job_rows db i)"
proof -
  have id: "RestoreCrawlTaskFromSnapshot ok r = Inr t \<Longrightarrow> task_ID t = ts_ID r" for r t
    by (auto simp: RestoreCrawlTaskFromSnapshot_def bind_res_Inr_iff)
  assume "task_ListByJob ok i db = Inr tasks"
  then have "list_all2 (\<lambda>r t. RestoreCrawlTaskFromSnapshot ok r = Inr t) (job_rows db i) tasks"
    by (auto simp: task_ListByJob_def job_rows_def dest: map_res_InrD)
  then show ?thesis by (induction rule: list_all2_induct) (auto dest: id)
qed

text \<open>What the export of one job does to the state of the transaction.\<close>

definition job_step :: "export_env \<Rightarrow> string \<Rightarrow> export_state \<Rightarrow> export_state \<Rightarrow> bool" where
  "job_step env i s s' \<longleftrightarrow>
     db_tasks (x_db s') = db_tasks (x_db s) \<and> db_outbox (x_db s') = db_outbox (x_db s) \<and>
     db_configs (x_db s') = db_configs (x_db s) \<and>
     (db_inv (x_db s) \<longrightarrow> db_inv (x_db s')) \<and> other_keys i (x_store s) (x_store s') \<and>
     (\<forall>k. find_job (x_db s') k = find_job (x_db s) k \<or>
        k = i \<and> (\<exists>j. find_job (x_db s') k = Some j \<and>
          (js_ExportStatus j = Some ExportStatusFailed \<or> exported_job env (x_db s) (x_store s') k j)))"

lemma job_step_refl: "job_step env i s s" "job_step env i s (s\<lparr>x_aborted := a\<rparr>)"
  by (simp_all add: job_step_def other_keys_def)

lemma failExport_step:
  assumes "x_db s1 = x_db s" and "other_keys i (x_store s) (x_store s1)"
  shows "job_step env i s (failExport env i s1)"
proof -
  have f: "job_FailExport i (x_db s1) = (Inr (), snd (job_FailExport i (x_db s1)))" by (simp add: job_FailExport_def)
  have store: "x_store (failExport env i s1) = x_store s1"
    by (auto simp: failExport_def tx_stmt_def split: prod.splits sum.splits)
  have "x_db (failExport env i s1) = x_db s \<or> x_db (failExport env i s1) = snd (job_FailExport i (x_db s))"
    using f assms(1) by (cases "xe_fail env i") (auto simp: failExport_def tx_stmt_def split: prod.splits sum.splits)
  moreover have "find_job (snd (job_FailExport i (x_db s))) k = find_job (x_db s) k \<or>
      k = i \<and> (\<exists>j. find_job (snd (job_FailExport i (x_db s))) k = Some j \<and> js_ExportStatus j = Some ExportStatusFailed)" for k
    by (cases "find_job (x_db s) k") (auto simp: FailExport_find)
  moreover have "db_inv (x_db s) \<Longrightarrow> db_inv (snd (job_FailExport i (x_db s)))"
    using FailExport_inv [OF _ surjective_pairing] by blast
  ultimately show ?thesis using assms(2) store unfolding job_step_def by (metis export_frame(1-3))
qed

lemma exported_step:
  assumes u: "job_Update (MarkAsExported job (json_report_key i) (csv_report_key i) (xe_exported env i)) (x_db s) = (Inr u, db')"
    and i: "job_ID job = i"
    and res: "map res_TaskID results = map ts_ID (job_rows (x_db s) i)" "xe_report env i (xe_now env i) results = Inr d"
    and st: "store' = (x_store s)(json_report_key i \<mapsto> (d, ''application/json''), csv_report_key i \<mapsto> (csv_data env results, ''text/csv''))"
  shows "job_step env i s (s\<lparr>x_store := store', x_db := db'\<rparr>)"
proof -
  let ?e = "MarkAsExported job (json_report_key i) (csv_report_key i) (xe_exported env i)"
  have e: "job_ID ?e = i" using i by (simp add: MarkAsExported_def)
  have same: "db_tasks db' = db_tasks (x_db s)" "db_outbox db' = db_outbox (x_db s)" "db_configs db' = db_configs (x_db s)"
    using export_frame(4-6) [of ?e "x_db s"] u by simp_all
  have ex: "exported_job env (x_db s) store' i ((SaveCrawlJobToSnapshot ?e)\<lparr>js_CreatedAt := c\<rparr>)" for c
    unfolding exported_job_def using res st report_keys(1)
    by (intro conjI exI [of _ results] exI [of _ d]) (simp_all add: MarkAsExported_def SaveCrawlJobToSnapshot_def)
  have "find_job db' k = find_job (x_db s) k \<or>
        k = i \<and> (\<exists>j. find_job db' k = Some j \<and> exported_job env (x_db s) store' k j)" for k
    using Update_find [OF u, of k] e ex by (cases "find_job (x_db s) k") auto
  moreover have "db_inv (x_db s) \<Longrightarrow> db_inv db'" using job_Update_inv [OF _ u] by blast
  ultimately show ?thesis using same st by (auto simp: job_step_def other_keys_def)
qed

lemma processJob_step: "job_step env (job_ID job) s (snd (processJob env job s))"
proof -
  let ?i = "job_ID job"
  obtain r1 s1 where q: "tx_query (xe_list_tasks env ?i) (task_ListByJob (xe_uuid_ok env) ?i) s = (r1, s1)" by (metis surj_pair)
  have s1: "x_db s1 = x_db s" "x_store s1 = x_store s" using q by (auto simp: tx_query_def split: if_splits option.splits)
  have other: "other_keys ?i (x_store s) (x_store s1)" by (simp add: s1 other_keys_def)
  show ?thesis
  proof (cases r1)
    case (Inl e)
    then show ?thesis using q failExport_step [OF s1(1) other] by (simp add: processJob_def Let_def)
  next
    case (Inr tasks)
    let ?res = "loadTaskResults env (x_store s1) tasks"
    have t: "s1 = s" "task_ListByJob (xe_uuid_ok env) ?i (x_db s) = Inr tasks"
      using q Inr by (auto simp: tx_query_def split: if_splits option.splits)
    have ids: "map res_TaskID ?res = map ts_ID (job_rows (x_db s) ?i)"
      using ListByJob_ids [OF t(2)] by (simp add: loadTaskResults_def comp_def)
    obtain rj store where j: "generateJSONReport env ?i ?res (x_store s) = (rj, store)" by (metis surj_pair)
    obtain rc store2 where c: "generateCSVReport env ?i ?res store = (rc, store2)" by (metis surj_pair)
    have o1: "other_keys ?i (x_store s) store" and o2: "other_keys ?i (x_store s) store2"
      using j c by (auto simp: generateJSONReport_def generateCSVReport_def other_keys_def split: sum.splits option.splits)
    note F1 = failExport_step [of "s\<lparr>x_store := store\<rparr>" s ?i env] and F2 = failExport_step [of "s\<lparr>x_store := store2\<rparr>" s ?i env]
    show ?thesis
    proof (cases rj)
      case (Inl e)
      then show ?thesis using q Inr t(1) j F1 o1 by (simp add: processJob_def Let_def)
    next
      case rj: (Inr jk)
      then obtain d where d: "xe_report env ?i (xe_now env ?i) ?res = Inr d" "jk = json_report_key ?i"
        "store = (x_store s)(json_report_key ?i \<mapsto> (d, ''application/json''))"
        using j by (auto simp: generateJSONReport_def split: sum.splits option.splits)
      show ?thesis
      proof (cases rc)
        case (Inl e)
        then show ?thesis using q Inr t(1) j rj c F2 o2 by (simp add: processJob_def Let_def)
      next
        case rc: (Inr ck)
        then have ck: "ck = csv_report_key ?i" "store2 = store(csv_report_key ?i \<mapsto> (csv_data env ?res, ''text/csv''))"
          using c by (auto simp: generateCSVReport_def split: option.splits)
        let ?e = "MarkAsExported job jk ck (xe_exported env ?i)"
        have p: "snd (processJob env job s) = snd (tx_stmt (xe_update env ?i) (job_Update ?e) (s\<lparr>x_store := store2\<rparr>))"
          using q Inr t(1) j rj c rc by (auto simp: processJob_def Let_def split: prod.splits sum.splits)
        have stay: "job_step env ?i s (s\<lparr>x_store := store2, x_aborted := a\<rparr>)" "job_step env ?i s (s\<lparr>x_store := store2\<rparr>)" for a
          using o2 by (simp_all add: job_step_def)
        show ?thesis
        proof (cases "tx_stmt (xe_update env ?i) (job_Update ?e) (s\<lparr>x_store := store2\<rparr>)")
          case (Pair ru s2)
          show ?thesis
          proof (cases ru)
            case (Inl e)
            then have "s2 = s\<lparr>x_store := store2\<rparr> \<or> s2 = s\<lparr>x_store := store2, x_aborted := True\<rparr>"
              using Pair by (auto simp: tx_stmt_def split: if_splits prod.splits sum.splits)
            then show ?thesis using p Pair stay by auto
          next
            case (Inr u)
            then obtain db' where "job_Update ?e (x_db s) = (Inr u, db')" "s2 = s\<lparr>x_store := store2, x_db := db'\<rparr>"
              using Pair by (auto simp: tx_stmt_def db_call_Inr split: if_splits prod.splits sum.splits)
            then show ?thesis
              using p Pair exported_step [of job ?i env s u db' ?res d store2] ids d ck by simp
          qed
        qed
      qed
    qed
  qed
qed

lemma processJobs_step:
  assumes "distinct (map job_ID jobs)"
  shows "let s' = processJobs env jobs s in
     db_tasks (x_db s') = db_tasks (x_db s) \<and> db_outbox (x_db s') = db_outbox (x_db s) \<and>
     db_configs (x_db s') = db_configs (x_db s) \<and> (db_inv (x_db s) \<longrightarrow> db_inv (x_db s')) \<and>
     (\<forall>k. (\<forall>i \<in> job_ID ` set jobs. k \<noteq> json_report_key i \<and> k \<noteq> csv_report_key i) \<longrightarrow> x_store s' k = x_store s k) \<and>
     (\<forall>k. find_job (x_db s') k = find_job (x_db s) k \<or>
        k \<in> job_ID ` set jobs \<and> (\<exists>j. find_job (x_db s') k = Some j \<and>
          (js_ExportStatus j = Some ExportStatusFailed \<or> exported_job env (x_db s) (x_store s') k j)))"
  using assms
proof (induction jobs arbitrary: s)
  case Nil
  then show ?case by (simp add: processJobs_def)
next
  case (Cons job jobs)
  let ?s1 = "snd (processJob env job s)" and ?i = "job_ID job"
  let ?s' = "processJobs env jobs ?s1"
  have s': "processJobs env (job # jobs) s = ?s'" by (simp add: processJobs_def)
  have ni: "?i \<notin> job_ID ` set jobs" and d: "distinct (map job_ID jobs)" using Cons.prems by simp_all
  have S: "job_step env ?i s ?s1" by (rule processJob_step)
  have IH: "db_tasks (x_db ?s') = db_tasks (x_db ?s1)" "db_outbox (x_db ?s') = db_outbox (x_db ?s1)"
    "db_configs (x_db ?s') = db_configs (x_db ?s1)" "db_inv (x_db ?s1) \<longrightarrow> db_inv (x_db ?s')"
    "\<And>k. \<forall>i \<in> job_ID ` set jobs. k \<noteq> json_report_key i \<and> k \<noteq> csv_report_key i \<Longrightarrow> x_store ?s' k = x_store ?s1 k"
    "\<And>k. find_job (x_db ?s') k = find_job (x_db ?s1) k \<or>
        k \<in> job_ID ` set jobs \<and> (\<exists>j. find_job (x_db ?s') k = Some j \<and>
          (js_ExportStatus j = Some ExportStatusFailed \<or> exported_job env (x_db ?s1) (x_store ?s') k j))"
    using Cons.IH [OF d, of ?s1] unfolding Let_def by blast+
  have rows: "exported_job env (x_db ?s1) st k j = exported_job env (x_db s) st k j" for st k j
    using S by (simp add: exported_job_def job_rows_def job_step_def)
  have keep: "x_store ?s' (json_report_key ?i) = x_store ?s1 (json_report_key ?i)"
    "x_store ?s' (csv_report_key ?i) = x_store ?s1 (csv_report_key ?i)"
    by (intro IH(5) ballI conjI; use ni report_keys in \<open>metis\<close>)+
  have ex: "exported_job env (x_db s) (x_store ?s') ?i j" if "exported_job env (x_db s) (x_store ?s1) ?i j" for j
    using that keep by (simp add: exported_job_def)
  have jobs': "find_job (x_db ?s') k = find_job (x_db s) k \<or>
        k \<in> job_ID ` set (job # jobs) \<and> (\<exists>j. find_job (x_db ?s') k = Some j \<and>
          (js_ExportStatus j = Some ExportStatusFailed \<or> exported_job env (x_db s) (x_store ?s') k j))" for k
  proof (cases "k = ?i")
    case True
    then have "find_job (x_db ?s') k = find_job (x_db ?s1) k" using IH(6) [of k] ni by blast
    moreover have "find_job (x_db ?s1) k = find_job (x_db s) k \<or> (\<exists>j. find_job (x_db ?s1) k = Some j \<and>
          (js_ExportStatus j = Some ExportStatusFailed \<or> exported_job env (x_db s) (x_store ?s1) k j))"
      using S unfolding job_step_def by blast
    ultimately show ?thesis using True ex by auto
  next
    case False
    then have "find_job (x_db ?s1) k = find_job (x_db s) k" using S unfolding job_step_def by blast
    then show ?thesis using IH(6) [of k] rows by auto
  qed
  have store: "x_store ?s' k = x_store s k"
    if k: "\<forall>i \<in> job_ID ` set (job # jobs). k \<noteq> json_report_key i \<and> k \<noteq> csv_report_key i" for k
    using IH(5) [of k] k S by (simp add: job_step_def other_keys_def)
  have "db_inv (x_db s) \<longrightarrow> db_inv (x_db ?s')" "db_tasks (x_db ?s') = db_tasks (x_db s)"
    "db_outbox (x_db ?s') = db_outbox (x_db s)" "db_configs (x_db ?s') = db_configs (x_db s)"
    using IH(1-4) S by (simp_all add: job_step_def)
  then show ?case unfolding s' Let_def using store jobs' by blast
qed

lemma processJobs_store:
  assumes "distinct (map job_ID jobs)" and "x_store (processJobs env jobs s) k \<noteq> x_store s k"
  shows "\<exists>i \<in> job_ID ` set jobs. k = json_report_key i \<or> k = csv_report_key i"
proof (rule ccontr)
  assume "\<not> ?thesis"
  then have "\<forall>i \<in> job_ID ` set jobs. k \<noteq> json_report_key i \<and> k \<noteq> csv_report_key i" by blast
  then have "x_store (processJobs env jobs s) k = x_store s k"
    using processJobs_step [OF assms(1), of env s] unfolding Let_def by blast
  then show False using assms(2) by contradiction
qed

lemma RestoreJob_id: "RestoreCrawlJobFromSnapshot ok j c = Inr job \<Longrightarrow> job_ID job = js_ID j"
  using NewID_InrD by (fastforce simp: RestoreCrawlJobFromSnapshot_def bind_res_Inr_iff NewTypedID_eq)

lemma scanJobs_ids:
  assumes "scanJobsWithQueueEndpoints ok db rows = Inr jobs"
  shows "map job_ID jobs = map js_ID rows"
proof -
  obtain ps where p: "map_res (scanCrawlJobWithConfig db) rows = Inr ps"
    "map_res (\<lambda>(j, c). RestoreCrawlJobFromSnapshot ok j c) ps = Inr jobs"
    using assms by (auto simp: scanJobsWithQueueEndpoints_def bind_res_Inr_iff)
  have "map fst ps = rows" using map_res_InrD [OF p(1)]
    by (induction rule: list_all2_induct) (auto simp: scanCrawlJobWithConfig_def split: option.splits)
  moreover have "map job_ID jobs = map (js_ID \<circ> fst) ps" using map_res_InrD [OF p(2)]
    by (induction rule: list_all2_induct) (auto dest: RestoreJob_id)
  ultimately show ?thesis by (metis map_map)
qed

lemma eligible_list:
  assumes inv: "db_inv db" and l: "job_ListEligibleForExport ok locked limit db = Inr jobs"
  shows "distinct (map job_ID jobs) \<and>
         (\<forall>i \<in> job_ID ` set jobs. i \<notin> set locked \<and> (\<exists>j. find_job db i = Some j \<and> eligible db j))"
proof -
  let ?el = "nulls_last js_CompletedAt (filter (\<lambda>j. eligible db j \<and> js_ID j \<notin> set locked) (db_jobs db))"
  have ids: "map job_ID jobs = map js_ID (take limit ?el)"
    using l unfolding job_ListEligibleForExport_def by (rule scanJobs_ids)
  have "distinct (map job_ID jobs)"
    unfolding ids take_map [symmetric]
    using inv by (intro distinct_take distinct_nulls_last) (simp add: db_inv_def distinct_map_filter)
  moreover have "i \<notin> set locked \<and> (\<exists>j. find_job db i = Some j \<and> eligible db j)" if i: "i \<in> job_ID ` set jobs" for i
  proof -
    have "i \<in> set (map job_ID jobs)" using i by simp
    then obtain j where j: "j \<in> set (take limit ?el)" "js_ID j = i" unfolding ids by auto
    then have "j \<in> set ?el" using set_take_subset by fastforce
    then have "j \<in> set (db_jobs db)" "eligible db j" "js_ID j \<notin> set locked" by simp_all
    then show ?thesis using find_job_iff [OF inv] j(2) by blast
  qed
  ultimately show ?thesis by blast
qed

text \<open>No export moves a job to another configuration.\<close>

definition job_refs :: "DB \<Rightarrow> (string \<times> string option) list" where
  "job_refs db = map (\<lambda>j. (js_ID j, js_JobConfigID j)) (db_jobs db)"

definition refs_of :: "DB \<Rightarrow> CrawlJob \<Rightarrow> bool" where
  "refs_of db job \<longleftrightarrow> (\<forall>(i, c) \<in> set (job_refs db). i = job_ID job \<longrightarrow> c = Some (job_JobConfigID job))"

lemma job_refs_FailExport: "job_refs (snd (job_FailExport i db)) = job_refs db"
  by (simp add: job_FailExport_def job_refs_def)

lemma job_refs_Update:
  assumes "refs_of db job"
  shows "job_refs (snd (job_Update (MarkAsExported job a b t) db)) = job_refs db"
  using assms
  by (auto simp: job_Update_def Let_def job_refs_def refs_of_def SaveCrawlJobToSnapshot_def MarkAsExported_def split: option.splits)

lemma tx_stmt_db: "x_db (snd (tx_stmt f op s)) = x_db s \<or> x_db (snd (tx_stmt f op s)) = snd (op (x_db s))"
  by (cases f; cases "op (x_db s)") (auto simp: tx_stmt_def split: sum.splits)

lemma tx_query_db [simp]: "x_db (snd (tx_query f q s)) = x_db s"
  by (simp add: tx_query_def split: option.splits)

lemma failExport_db: "x_db s1 = db \<Longrightarrow> x_db (failExport env i s1) = db \<or> x_db (failExport env i s1) = snd (job_FailExport i db)"
  using tx_stmt_db [of "xe_fail env i" "job_FailExport i" s1] by (simp add: failExport_def)

lemma processJob_refs:
  assumes "refs_of (x_db s) job"
  shows "job_refs (x_db (snd (processJob env job s))) = job_refs (x_db s)"
proof -
  have fail: "job_refs (x_db (failExport env i s1)) = job_refs (x_db s)" if "x_db s1 = x_db s" for i s1
    using failExport_db [OF that] job_refs_FailExport by metis
  have upd: "job_refs (x_db s2) = job_refs (x_db s)"
    if "tx_stmt f (job_Update (MarkAsExported job a b t)) s1 = (r, s2)" "x_db s1 = x_db s" for f a b t s1 s2 and r :: "unit res"
    using tx_stmt_db [of f "job_Update (MarkAsExported job a b t)" s1] that job_refs_Update [OF assms] by auto
  have q: "x_db s1 = x_db s" if "tx_query f g s = (r, s1)" for f s1 and r :: "CrawlTask list res" and g
    using tx_query_db [of f g s] that by simp
  show ?thesis
    by (auto simp: processJob_def Let_def fail dest!: q upd split: prod.splits sum.splits)
qed

lemma processJobs_refs:
  "\<forall>job \<in> set jobs. refs_of (x_db s) job \<Longrightarrow> job_refs (x_db (processJobs env jobs s)) = job_refs (x_db s)"
proof (induction jobs arbitrary: s)
  case (Cons job jobs)
  let ?s1 = "snd (processJob env job s)"
  have refs: "job_refs (x_db ?s1) = job_refs (x_db s)" using Cons.prems by (simp add: processJob_refs)
  then have "\<forall>job \<in> set jobs. refs_of (x_db ?s1) job" using Cons.prems by (simp add: refs_of_def)
  from Cons.IH [OF this] show ?case using refs by (simp add: processJobs_def)
qed (simp add: processJobs_def)

lemma eligible_refs:
  assumes inv: "db_inv db" and l: "job_ListEligibleForExport ok locked limit db = Inr jobs" and job: "job \<in> set jobs"
  shows "refs_of db job"
proof -
  let ?rows = "take limit (nulls_last js_CompletedAt (filter (\<lambda>j. eligible db j \<and> js_ID j \<notin> set locked) (db_jobs db)))"
  obtain ps where p: "map_res (scanCrawlJobWithConfig db) ?rows = Inr ps"
    "map_res (\<lambda>(j, c). RestoreCrawlJobFromSnapshot ok j c) ps = Inr jobs"
    using l by (auto simp: job_ListEligibleForExport_def scanJobsWithQueueEndpoints_def bind_res_Inr_iff)
  obtain j c where jc: "(j, c) \<in> set ps" "RestoreCrawlJobFromSnapshot ok j c = Inr job"
    using map_res_mem [OF p(2) job] by auto
  have "j \<in> set ?rows"
    using map_res_mem [OF p(1) jc(1)] by (auto simp: scanCrawlJobWithConfig_def split: option.splits)
  then have j: "j \<in> set (db_jobs db)" using set_take_subset by fastforce
  obtain cfg :: CrawlJobConfig where "js_JobConfigID j = Some (cfg_ID cfg)" using db_inv_ref [OF inv j] by blast
  then have "js_JobConfigID j = Some (job_JobConfigID job)" "js_ID j = job_ID job"
    using jc(2) by (auto simp: RestoreCrawlJobFromSnapshot_def bind_res_Inr_iff NewTypedID_eq dest: NewID_InrD)
  moreover have "x = j" if "x \<in> set (db_jobs db)" "js_ID x = job_ID job" for x
    using find_job_iff [OF inv, of "job_ID job"] that j calculation(2) by (metis option.inject)
  ultimately show ?thesis unfolding refs_of_def job_refs_def by auto
qed

lemma poll_refs:
  assumes inv: "db_inv db" and p: "processEligibleJobs env (db, store) = (r, db', store')"
  shows "job_refs db' = job_refs db"
proof -
  have "job_refs (x_db (processJobs env jobs \<lparr>x_aborted = False, x_db = db, x_store = store\<rparr>)) = job_refs db"
    if "db_read f (job_ListEligibleForExport ok locked limit) db = Inr jobs" for f ok locked limit jobs
    using that eligible_refs [OF inv] processJobs_refs
    by (auto simp: db_read_def split: option.splits)
  then show ?thesis using p by (auto simp: processEligibleJobs_def Let_def split: option.splits sum.splits if_splits)
qed

lemma report_store:
  "generateJSONReport env i results store = (r, store') \<Longrightarrow> dom store \<subseteq> dom store'"
  "generateCSVReport env i results store = (r, store') \<Longrightarrow> dom store \<subseteq> dom store'"
  by (auto simp: generateJSONReport_def generateCSVReport_def split: sum.splits option.splits)

lemma tx_store [simp]:
  "x_store (snd (tx_stmt f op s)) = x_store s" "x_store (snd (tx_query f q s)) = x_store s" "x_store (failExport env i s) = x_store s"
  by (simp_all add: tx_stmt_def tx_query_def failExport_def split: option.splits prod.splits sum.splits)

text \<open>No stored object is ever removed.\<close>

lemma processJob_store_mono: "dom (x_store s) \<subseteq> dom (x_store (snd (processJob env job s)))"
proof -
  let ?i = "job_ID job"
  obtain q s1 where Q: "tx_query (xe_list_tasks env ?i) (task_ListByJob (xe_uuid_ok env) ?i) s = (q, s1)" by (rule prod.exhaust)
  then have s1: "x_store s1 = x_store s" using tx_store(2) [of "xe_list_tasks env ?i" _ s] by (metis snd_conv)
  show ?thesis
  proof (cases q)
    case (Inr tasks)
    let ?res = "loadTaskResults env (x_store s1) tasks"
    obtain jr st where J: "generateJSONReport env ?i ?res (x_store s1) = (jr, st)" by (rule prod.exhaust)
    obtain cr st2 where C: "generateCSVReport env ?i ?res st = (cr, st2)" by (rule prod.exhaust)
    have d: "dom (x_store s) \<subseteq> dom st" "dom (x_store s) \<subseteq> dom st2"
      using report_store(1) [OF J] report_store(2) [OF C] s1 by auto
    obtain u s2 where U: "tx_stmt (xe_update env ?i) (job_Update (MarkAsExported job (projr jr) (projr cr) (xe_exported env ?i)))
        (s1\<lparr>x_store := st2\<rparr>) = (u, s2)" by (rule prod.exhaust)
    then have "x_store s2 = st2" using tx_store(1) [of "xe_update env ?i" _ "s1\<lparr>x_store := st2\<rparr>"]
      by (metis snd_conv export_state.select_convs(3) export_state.surjective export_state.update_convs(3))
    then have "x_store (snd (processJob env job s)) \<in> {st, st2}"
      using Q Inr J C U by (cases jr; cases cr; cases u) (simp_all add: processJob_def Let_def)
    then show ?thesis using d by (elim insertE emptyE) simp_all
  qed (simp add: processJob_def Let_def Q s1)
qed

lemma processJobs_store_mono: "dom (x_store s) \<subseteq> dom (x_store (processJobs env jobs s))"
proof (induction jobs arbitrary: s)
  case (Cons job jobs)
  have "dom (x_store s) \<subseteq> dom (x_store (processJobs env jobs (snd (processJob env job s))))"
    using processJob_store_mono Cons.IH by (rule subset_trans)
  then show ?case by (simp add: processJobs_def)
qed (simp add: processJobs_def)

lemma poll_store:
  assumes "processEligibleJobs env (db, store) = (r, db', store')"
  shows "dom store \<subseteq> dom store'"
proof -
  have "store' = store \<or> (\<exists>jobs. store' = x_store (processJobs env jobs \<lparr>x_aborted = False, x_db = db, x_store = store\<rparr>))"
    using assms by (auto simp: processEligibleJobs_def Let_def split: option.splits sum.splits if_splits)
  then show ?thesis
  proof
    assume "\<exists>jobs. store' = x_store (processJobs env jobs \<lparr>x_aborted = False, x_db = db, x_store = store\<rparr>)"
    then obtain jobs where s: "store' = x_store (processJobs env jobs \<lparr>x_aborted = False, x_db = db, x_store = store\<rparr>)" ..
    show ?thesis using processJobs_store_mono [of "\<lparr>x_aborted = False, x_db = db, x_store = store\<rparr>" env jobs] unfolding s by simp
  qed simp
qed

lemma poll_facts:
  assumes inv: "db_inv db" and p: "processEligibleJobs env (db, store) = (r, db', store')"
  shows "db_inv db' \<and> db_tasks db' = db_tasks db \<and> db_configs db' = db_configs db \<and> db_outbox db' = db_outbox db \<and>
    (\<forall>i. find_job db' i = find_job db i \<or>
       i \<notin> set (xe_locked env) \<and> (\<exists>j j'. find_job db i = Some j \<and> eligible db j \<and> find_job db' i = Some j' \<and>
         (js_ExportStatus j' = Some ExportStatusFailed \<or> exported_job env db store' i j'))) \<and>
    (\<forall>k. store' k \<noteq> store k \<longrightarrow>
       (\<exists>i j. find_job db i = Some j \<and> eligible db j \<and> (k = json_report_key i \<or> k = csv_report_key i))) \<and>
    (r \<noteq> Inr () \<longrightarrow> db' = db)"
proof (cases "xe_begin env = None \<and> (\<exists>jobs. db_read (xe_list_jobs env)
    (job_ListEligibleForExport (xe_uuid_ok env) (xe_locked env) (xe_batchSize env)) db = Inr jobs)")
  case False
  then have "db' = db \<and> store' = store"
    using p by (auto simp: processEligibleJobs_def split: option.splits sum.splits)
  then show ?thesis using inv by simp
next
  case True
  then obtain jobs where b: "xe_begin env = None" and l: "db_read (xe_list_jobs env)
    (job_ListEligibleForExport (xe_uuid_ok env) (xe_locked env) (xe_batchSize env)) db = Inr jobs" by blast
  have "job_ListEligibleForExport (xe_uuid_ok env) (xe_locked env) (xe_batchSize env) db = Inr jobs"
    using l by (auto simp: db_read_def split: option.splits)
  note E = eligible_list [OF inv this]
  let ?init = "\<lparr>x_aborted = False, x_db = db, x_store = store\<rparr>"
  let ?s = "processJobs env jobs ?init"
  note J = processJobs_step [OF conjunct1 [OF E], where env = env and s = ?init, unfolded Let_def export_state.simps]
  have store: "store' = x_store ?s" and cases: "db' = db \<or> r = Inr () \<and> db' = x_db ?s"
    using p b l by (auto simp: processEligibleJobs_def Let_def split: if_splits option.splits)
  have keys: "\<exists>i j. find_job db i = Some j \<and> eligible db j \<and> (k = json_report_key i \<or> k = csv_report_key i)"
    if ch: "store' k \<noteq> store k" for k
  proof -
    obtain i where "i \<in> job_ID ` set jobs" "k = json_report_key i \<or> k = csv_report_key i"
      using processJobs_store [OF conjunct1 [OF E], of env ?init k] ch unfolding store by auto
    then show ?thesis using conjunct2 [OF E] by blast
  qed
  have rows: "find_job (x_db ?s) i = find_job db i \<or>
       i \<notin> set (xe_locked env) \<and> (\<exists>j j'. find_job db i = Some j \<and> eligible db j \<and> find_job (x_db ?s) i = Some j' \<and>
         (js_ExportStatus j' = Some ExportStatusFailed \<or> exported_job env db store' i j'))" for i
    using J conjunct2 [OF E] unfolding store by auto
  show ?thesis using cases
  proof
    assume "db' = db"
    then show ?thesis using inv keys by simp
  next
    assume "r = Inr () \<and> db' = x_db ?s"
    then show ?thesis using inv J keys rows by auto
  qed
qed

text \<open>
  C12. A poll of the exporter touches only eligible jobs that no other exporter has locked.  Each of
  them is left as it was, marked as failed, or completed: then both reports are in the content store
  under the keys of the row, and the CSV report covers exactly the tasks of the job.  Tasks,
  configurations and outbox are untouched, the tables stay consistent, no stored object but the
  reports of eligible jobs changes, and an error of the poll leaves the database as it was.
\<close>

theorem export_poll:
  assumes "db_inv db" and "processEligibleJobs env (db, store) = (r, db', store')"
  shows "db_inv db' \<and> db_tasks db' = db_tasks db \<and> db_configs db' = db_configs db \<and> db_outbox db' = db_outbox db \<and>
    (\<forall>i. find_job db' i = find_job db i \<or>
       i \<notin> set (xe_locked env) \<and> (\<exists>j j'. find_job db i = Some j \<and> eligible db j \<and> find_job db' i = Some j' \<and>
         (js_ExportStatus j' = Some ExportStatusFailed \<or> exported_job env db store' i j'))) \<and>
    (\<forall>k. store' k \<noteq> store k \<longrightarrow>
       (\<exists>i j. find_job db i = Some j \<and> eligible db j \<and> (k = json_report_key i \<or> k = csv_report_key i))) \<and>
    (r \<noteq> Inr () \<longrightarrow> db' = db)"
  using assms by (rule poll_facts)

text \<open>
  The errors of single jobs are meant to be skipped, but a failing statement discards the work of the
  whole poll: the other jobs' rows, and the failure mark of the job itself.
\<close>

lemma failExport_aborted [simp]: "x_aborted s \<Longrightarrow> x_aborted (failExport env i s)"
  by (simp add: failExport_def tx_stmt_def)

lemma processJob_aborted: "x_aborted s \<Longrightarrow> x_aborted (snd (processJob env job s))"
  by (simp add: processJob_def Let_def tx_query_def)

lemma processJobs_aborted: "x_aborted s \<Longrightarrow> x_aborted (processJobs env jobs s)"
  unfolding processJobs_def by (induction jobs arbitrary: s) (simp_all add: processJob_aborted)

lemma processJob_aborts: "xe_list_tasks env (job_ID job) = Some e \<Longrightarrow> x_aborted (snd (processJob env job s))"
  by (cases "x_aborted s") (simp_all add: processJob_def Let_def tx_query_def)

lemma processJobs_append: "processJobs env (xs @ ys) s = processJobs env ys (processJobs env xs s)"
  by (simp add: processJobs_def)

lemma failed_statement_discards_batch:
  assumes "db_read (xe_list_jobs env) (job_ListEligibleForExport (xe_uuid_ok env) (xe_locked env) (xe_batchSize env)) db = Inr jobs"
    and "job \<in> set jobs" and "xe_list_tasks env (job_ID job) = Some e"
    and "processEligibleJobs env (db, store) = (r, db', store')"
  shows "db' = db"
proof -
  obtain xs ys where "jobs = xs @ job # ys" using assms(2) by (auto simp: in_set_conv_decomp)
  moreover have "processJobs env (job # ys) s = processJobs env ys (snd (processJob env job s))" for s
    by (simp add: processJobs_def)
  ultimately have "x_aborted (processJobs env jobs s)" for s
    using processJob_aborts [OF assms(3)] by (simp add: processJobs_append processJobs_aborted)
  then show ?thesis using assms(1,4) by (auto simp: processEligibleJobs_def split: option.splits)
qed

definition parsed_world :: "DB \<times> content_store" where
  "parsed_world = (sample_db\<lparr>db_tasks := [SaveCrawlTaskToSnapshot
     (MarkAsParsed (new_task ''t1'' ''j1'' ''http://a'' 7 0) ''k'' ''application/json'' 3 12)]\<rparr>, [''k'' \<mapsto> (''page'', ''application/json'')])"

lemma parsed_world_inv: "db_inv (fst parsed_world)"
  by (simp add: db_inv_def tasks_inv_def parsed_world_def sample_db_def sample_config_def sample_job_def
      SaveCrawlJobToSnapshot_def ID_IsEmpty_def new_task_def)

lemma parsed_world_exports:
  "case processEligibleJobs sample_export_env parsed_world of
     (r, db', store') \<Rightarrow> r = Inr () \<and> map js_ExportStatus (db_jobs db') = [Some ExportStatusCompleted]"
  by code_simp

theorem export_poll_witness:
  "\<exists>db' store' j'. processEligibleJobs sample_export_env parsed_world = (Inr (), db', store') \<and>
     find_job db' ''j1'' = Some j' \<and> exported_job sample_export_env (fst parsed_world) store' ''j1'' j'"
proof -
  obtain db' store' where p: "processEligibleJobs sample_export_env parsed_world = (Inr (), db', store')"
    and st: "map js_ExportStatus (db_jobs db') = [Some ExportStatusCompleted]"
    using parsed_world_exports by (auto split: prod.splits)
  have p': "processEligibleJobs sample_export_env (fst parsed_world, snd parsed_world) = (Inr (), db', store')" using p by simp
  have j: "find_job (fst parsed_world) ''j1'' = Some (SaveCrawlJobToSnapshot (sample_job ''j1'' ''c1''))"
    by (simp add: find_job_def parsed_world_def sample_db_def sample_job_def)
  have status: "js_ExportStatus x = Some ExportStatusCompleted" if "find_job db' ''j1'' = Some x" for x
    using find_job_SomeD [OF that] st by (cases "db_jobs db'") auto
  note P = export_poll [OF parsed_world_inv p']
  then have "find_job db' ''j1'' = find_job (fst parsed_world) ''j1'' \<or>
     (\<exists>j'. find_job db' ''j1'' = Some j' \<and> (js_ExportStatus j' = Some ExportStatusFailed \<or>
        exported_job sample_export_env (fst parsed_world) store' ''j1'' j'))" by blast
  then have "\<exists>j'. find_job db' ''j1'' = Some j' \<and> exported_job sample_export_env (fst parsed_world) store' ''j1'' j'"
  proof
    assume "find_job db' ''j1'' = find_job (fst parsed_world) ''j1''"
    then show ?thesis using j status by (auto simp: sample_job_def)
  next
    assume "\<exists>j'. find_job db' ''j1'' = Some j' \<and> (js_ExportStatus j' = Some ExportStatusFailed \<or>
        exported_job sample_export_env (fst parsed_world) store' ''j1'' j')"
    then show ?thesis using status by fastforce
  qed
  then show ?thesis using p by blast
qed

end
