(* ===== verification/Crawl_System.thy ===== *)
theory Crawl_System
  imports Export_Worker
begin

text \<open>
  The crawler as a whole: the services and workers of the other theories as steps on one world (tables,
  content store, parsing queue, crawl queues), in any order and with any failures.  A worker may be
  handed any message body at any time, so lost, reordered and repeated deliveries are included.  The
  invariant ties the components together: what the rows promise is in the content store, and no task is
  deeper than its configuration allows.
\<close>

section \<open>Steps\<close>

datatype 'n system_op =
    CreateJob job_env string CrawlJobConfig
  | DeleteJob "string \<Rightarrow> bool" "gerr option" "gerr option" string
  | RunSchedules "string \<Rightarrow> sched_env" "nat \<Rightarrow> gerr option" "string \<Rightarrow> bool" nat
  | PublishOutbox outbox_env
  | HandleCrawl fetch_env string
  | HandleParsing "'n parse_env" string
  | ExportJobs export_env
  | RecoverStuck recovery_env

fun system_step :: "world \<Rightarrow> 'n system_op \<Rightarrow> world" where
  "system_step w (CreateJob env user command) = w\<lparr>w_db := snd (CreateCrawlJob env user command (w_db w))\<rparr>"
| "system_step w (DeleteJob ok fail_get fail_delete i) = w\<lparr>w_db := snd (DeleteCrawlJob ok fail_get fail_delete i (w_db w))\<rparr>"
| "system_step w (RunSchedules envs fail_list ok batchSize) =
     w\<lparr>w_db := processSchedules envs fail_list ok batchSize 0 (w_db w)\<rparr>"
| "system_step w (PublishOutbox env) =
     (case processOutboxEvents env (w_db w, w_crawl w) of (r, db', sent') \<Rightarrow> w\<lparr>w_db := db', w_crawl := sent'\<rparr>)"
| "system_step w (HandleCrawl env body) = snd (fetch_handleMessage env body w)"
| "system_step w (HandleParsing env body) = snd (parse_handleMessage env body w)"
| "system_step w (ExportJobs env) =
     (case processEligibleJobs env (w_db w, w_store w) of (r, db', store') \<Rightarrow> w\<lparr>w_db := db', w_store := store'\<rparr>)"
| "system_step w (RecoverStuck env) =
     (case recover env (w_db w) (w_crawl w) of Returns sent' \<Rightarrow> w\<lparr>w_crawl := sent'\<rparr> | Panics \<Rightarrow> w)"

definition empty_world :: world where
  "empty_world = \<lparr>w_db = empty_db, w_store = Map.empty, w_parsing = [], w_crawl = []\<rparr>"

section \<open>The invariant\<close>

definition task_backed :: "content_store \<Rightarrow> CrawlTaskSnapshot \<Rightarrow> bool" where
  "task_backed store r \<longleftrightarrow>
     (ts_Status r = TaskStatusFetched \<longrightarrow> ts_MinioObjectKey r \<in> dom store) \<and>
     (ts_Status r = TaskStatusParsed \<longrightarrow> (\<exists>k. ts_ResultObjectKey r = Some k \<and> k \<in> dom store))"

definition job_backed :: "content_store \<Rightarrow> CrawlJobSnapshot \<Rightarrow> bool" where
  "job_backed store j \<longleftrightarrow> (js_ExportStatus j = Some ExportStatusCompleted \<longrightarrow>
     (\<exists>k k'. js_ExportJSONKey j = Some k \<and> js_ExportCSVKey j = Some k' \<and> {k, k'} \<subseteq> dom store))"

text \<open>The maximal depth of each job.\<close>

definition depth_limit :: "DB \<Rightarrow> string \<Rightarrow> u64 \<Rightarrow> bool" where
  "depth_limit db i m \<longleftrightarrow>
     (\<exists>c \<in> set (db_configs db). (i, Some (cfg_ID c)) \<in> set (job_refs db) \<and> m = MaxDepth (cfg_Scopes c))"

definition within_depth :: "DB \<Rightarrow> CrawlTaskSnapshot \<Rightarrow> bool" where
  "within_depth db r \<longleftrightarrow> (\<forall>m. depth_limit db (ts_JobID r) m \<longrightarrow> ts_Depth r \<le> m)"

definition consistent :: "content_store \<Rightarrow> DB \<Rightarrow> bool" where
  "consistent store db \<longleftrightarrow> db_inv db \<and>
     (\<forall>r \<in> set (db_tasks db). task_backed store r \<and> within_depth db r) \<and>
     (\<forall>j \<in> set (db_jobs db). job_backed store j)"

lemma empty_consistent: "consistent store empty_db"
  using empty_db_inv by (simp add: consistent_def) (simp add: empty_db_def)

lemma depth_limitD:
  assumes "depth_limit db i m"
  obtains j c where "j \<in> set (db_jobs db)" "js_ID j = i" "c \<in> set (db_configs db)" "js_JobConfigID j = Some (cfg_ID c)"
    "m = MaxDepth (cfg_Scopes c)"
  using assms by (auto simp: depth_limit_def job_refs_def)

lemma depth_limitI:
  assumes "j \<in> set (db_jobs db)" and "c \<in> set (db_configs db)" and "js_JobConfigID j = Some (cfg_ID c)"
  shows "depth_limit db (js_ID j) (MaxDepth (cfg_Scopes c))"
proof -
  have "(js_ID j, js_JobConfigID j) \<in> set (job_refs db)" using assms(1) by (simp add: job_refs_def)
  then show ?thesis using assms(2,3) by (auto simp: depth_limit_def)
qed

lemma backed_mono:
  "task_backed store r \<Longrightarrow> dom store \<subseteq> dom store' \<Longrightarrow> task_backed store' r"
  "job_backed store j \<Longrightarrow> dom store \<subseteq> dom store' \<Longrightarrow> job_backed store' j"
  unfolding task_backed_def job_backed_def by (meson subsetD, meson subset_trans)

text \<open>What a step has to show: the new rows are backed, and the old jobs keep their limits.\<close>

lemma consistent_step:
  assumes c: "consistent store db" and inv: "db_inv db'" and d: "dom store \<subseteq> dom store'"
    and tasks: "\<And>r. r \<in> set (db_tasks db') \<Longrightarrow> r \<in> set (db_tasks db) \<or> task_backed store' r \<and> within_depth db' r"
    and jobs: "\<And>j. j \<in> set (db_jobs db') \<Longrightarrow> j \<in> set (db_jobs db) \<or> job_backed store' j"
    and limits: "\<And>i m. depth_limit db' i m \<Longrightarrow> i \<in> js_ID ` set (db_jobs db) \<Longrightarrow> depth_limit db i m"
  shows "consistent store' db'"
proof -
  have "task_backed store' r \<and> within_depth db' r" if r: "r \<in> set (db_tasks db')" for r
    using tasks [OF r]
  proof
    assume old: "r \<in> set (db_tasks db)"
    then have "ts_JobID r \<in> js_ID ` set (db_jobs db)" using c by (simp add: consistent_def db_inv_def)
    moreover have "task_backed store r" "within_depth db r" using c old by (simp_all add: consistent_def)
    ultimately show ?thesis using limits backed_mono(1) [OF _ d] by (simp add: within_depth_def)
  qed
  moreover have "job_backed store' j" if "j \<in> set (db_jobs db')" for j
    using jobs [OF that] c backed_mono(2) [OF _ d] by (auto simp: consistent_def)
  ultimately show ?thesis using inv by (simp add: consistent_def)
qed

lemma consistent_db_inv: "consistent store db \<Longrightarrow> db_inv db"
  by (simp add: consistent_def)

text \<open>Rows of a started run: in progress and at depth 0, so nothing has to be stored for them.\<close>

lemma started_rows:
  assumes "started_run enc jid seeds db db'" and "r \<in> set (db_tasks db')"
  shows "r \<in> set (db_tasks db) \<or> task_backed store r \<and> within_depth db' r"
  using assms by (auto simp: started_run_def task_backed_def within_depth_def TaskStatusInProgress_def
      TaskStatusFetched_def TaskStatusParsed_def)

lemma new_job_backed: "js_ExportStatus j = Some ExportStatusNotStarted \<Longrightarrow> job_backed store j"
  by (simp add: job_backed_def ExportStatusNotStarted_def ExportStatusCompleted_def)

section \<open>Creating and deleting jobs\<close>

lemma create_consistent:
  assumes c: "consistent store db"
  shows "consistent store (snd (CreateCrawlJob env user command db))"
proof (cases "CreateCrawlJob env user command db")
  case (Pair res db')
  show ?thesis
  proof (cases res)
    case (Inl e)
    then have "db' = db" using Pair
      by (auto simp: CreateCrawlJob_def Let_def split: if_splits sum.splits dest: ReadCommitted_error)
    then show ?thesis using c Pair by simp
  next
    case (Inr jid)
    let ?c = "submitted_config env user command"
    have "create_body env ?c db = (Returns (Inr jid), db')" using Pair Inr by (simp add: CreateCrawlJob_eq)
    note B = create_body_done [OF consistent_db_inv [OF c] this]
    then have run: "started_run (je_encode env) jid (cfg_Seeds ?c) db db'" and inv: "db_inv db'" by blast+
    have jobs: "j \<in> set (db_jobs db) \<or> job_backed store j" if "j \<in> set (db_jobs db')" for j
      using that B by (auto intro: new_job_backed simp: new_job_def)
    have "depth_limit db i m" if l: "depth_limit db' i m" "i \<in> js_ID ` set (db_jobs db)" for i m
    proof -
      obtain j x where j: "j \<in> set (db_jobs db')" "js_ID j = i" "x \<in> set (db_configs db')"
        "js_JobConfigID j = Some (cfg_ID x)" "m = MaxDepth (cfg_Scopes x)" using l(1) by (rule depth_limitD)
      have "distinct (map js_ID (db_jobs db'))" "distinct (map cfg_ID (db_configs db'))" using inv by (simp_all add: db_inv_def)
      then have old: "j \<in> set (db_jobs db)" using B j(1,2) l(2) by (auto simp: image_iff)
      obtain x0 where "x0 \<in> set (db_configs db)" "js_JobConfigID j = Some (cfg_ID x0)"
        using db_inv_ref [OF consistent_db_inv [OF c] old] by blast
      then have "x \<in> set (db_configs db)"
        using B j(3,4) \<open>distinct (map cfg_ID (db_configs db'))\<close> by (auto simp: image_iff)
      then show ?thesis using depth_limitI [OF old _ j(4)] j(2,5) by simp
    qed
    then show ?thesis using consistent_step [OF c inv subset_refl started_rows [OF run] jobs] Pair by simp
  qed
qed

lemma delete_db: "snd (DeleteCrawlJob ok fg fd i db) = db \<or> (\<exists>c. snd (DeleteCrawlJob ok fg fd i db) = snd (config_Delete c db))"
  by (auto simp: DeleteCrawlJob_def db_call_def split: sum.splits option.splits)

lemma delete_consistent:
  assumes c: "consistent store db"
  shows "consistent store (snd (DeleteCrawlJob ok fg fd i db))"
proof -
  have "consistent store (snd (config_Delete x db))" for x
  proof (rule consistent_step [OF c _ subset_refl])
    show "db_inv (snd (config_Delete x db))"
      using config_Delete_inv [OF consistent_db_inv [OF c] surjective_pairing] .
    show "depth_limit db i m" if "depth_limit (snd (config_Delete x db)) i m" for i m
      using that by (rule depth_limitD) (auto simp: config_Delete_def Let_def intro: depth_limitI)
  qed (auto simp: config_Delete_def Let_def)
  then show ?thesis using delete_db [of ok fg fd i db] c by auto
qed

section \<open>The schedule worker\<close>

text \<open>A visit rewrites a configuration with the scopes it was loaded with.\<close>

definition scopes_known :: "DB \<Rightarrow> CrawlJobConfig \<Rightarrow> bool" where
  "scopes_known db config \<longleftrightarrow> (\<forall>x \<in> set (db_configs db). cfg_ID x = cfg_ID config \<longrightarrow> cfg_Scopes x = cfg_Scopes config)"

definition scopes_kept :: "DB \<Rightarrow> DB \<Rightarrow> bool" where
  "scopes_kept db db' \<longleftrightarrow>
     (\<forall>x' \<in> set (db_configs db'). \<exists>x \<in> set (db_configs db). cfg_ID x = cfg_ID x' \<and> cfg_Scopes x = cfg_Scopes x')"

lemma scopes_known_kept: "scopes_known db c \<Longrightarrow> scopes_kept db db' \<Longrightarrow> scopes_known db' c"
  unfolding scopes_known_def scopes_kept_def by metis

lemma scopes_kept_refl: "scopes_kept db db"
  by (auto simp: scopes_kept_def)

lemma scopes_kept_map:
  assumes "scopes_known db config" and "cfg_ID c = cfg_ID config" and "cfg_Scopes c = cfg_Scopes config"
    and "db_configs db' = map (\<lambda>x. if cfg_ID x = cfg_ID config then c else x) (db_configs db)"
  shows "scopes_kept db db'"
  unfolding scopes_kept_def assms(4)
proof
  fix x' assume "x' \<in> set (map (\<lambda>x. if cfg_ID x = cfg_ID config then c else x) (db_configs db))"
  then obtain x where x: "x \<in> set (db_configs db)" "x' = (if cfg_ID x = cfg_ID config then c else x)" by auto
  then have "cfg_ID x = cfg_ID x' \<and> cfg_Scopes x = cfg_Scopes x'" using assms(1-3) by (auto simp: scopes_known_def)
  then show "\<exists>x \<in> set (db_configs db). cfg_ID x = cfg_ID x' \<and> cfg_Scopes x = cfg_Scopes x'" using x(1) by blast
qed

lemma visit_consistent:
  assumes c: "consistent store db" and k: "scopes_known db config"
  shows "consistent store (snd (processConfig env config db)) \<and> scopes_kept db (snd (processConfig env config db))"
proof -
  obtain r db' where p: "processConfig env config db = (r, db')" by (rule prod.exhaust)
  note P = processConfig_cases [OF consistent_db_inv [OF c] p]
  then have inv: "db_inv db'" by blast
  have ?thesis if kept: "scopes_kept db db'" and jobs: "db_jobs db' = db_jobs db @ js"
    and new: "\<forall>j \<in> set js. js_ExportStatus j = Some ExportStatusNotStarted"
    and tasks: "\<And>r. r \<in> set (db_tasks db') \<Longrightarrow> r \<in> set (db_tasks db) \<or> task_backed store r \<and> within_depth db' r" for js
  proof -
    have "depth_limit db i m" if l: "depth_limit db' i m" "i \<in> js_ID ` set (db_jobs db)" for i m
    proof -
      obtain j x' where j: "j \<in> set (db_jobs db')" "js_ID j = i" "x' \<in> set (db_configs db')"
        "js_JobConfigID j = Some (cfg_ID x')" "m = MaxDepth (cfg_Scopes x')" using l(1) by (rule depth_limitD)
      have "distinct (map js_ID (db_jobs db'))" using inv by (simp add: db_inv_def)
      then have old: "j \<in> set (db_jobs db)" using j(1,2) l(2) unfolding jobs by auto
      obtain x where "x \<in> set (db_configs db)" "cfg_ID x = cfg_ID x'" "cfg_Scopes x = cfg_Scopes x'"
        using kept j(3) by (auto simp: scopes_kept_def)
      then show ?thesis using depth_limitI [OF old, of x] j(2,4,5) by simp
    qed
    moreover have "j \<in> set (db_jobs db) \<or> job_backed store j" if "j \<in> set (db_jobs db')" for j
      using that new new_job_backed unfolding jobs by auto
    ultimately have "consistent store db'" using tasks by (rule_tac consistent_step [OF c inv subset_refl]) blast+
    then show ?thesis using kept p by simp
  qed note step = this
  from P consider "db' = db" | "visit_initialised config db db'" | schedule where "scheduled_run env config schedule db db'"
    by blast
  then show ?thesis
  proof cases
    case 1
    then show ?thesis using c p scopes_kept_refl by simp
  next
    case 2
    then show ?thesis using step [of "[]"] scopes_kept_map [OF k] by (auto simp: visit_initialised_def)
  next
    case 3
    then obtain x j where x: "cfg_ID x = cfg_ID config" "cfg_Scopes x = cfg_Scopes config"
      "db_configs db' = map (\<lambda>y. if cfg_ID y = cfg_ID config then x else y) (db_configs db)"
      and j: "db_jobs db' = db_jobs db @ [j]" "js_ExportStatus j = Some ExportStatusNotStarted"
      and run: "started_run (je_encode env) (je_jobID env) (cfg_Seeds config) db db'"
      unfolding scheduled_run_def by (elim exE conjE)
    show ?thesis using step [OF scopes_kept_map [OF k x] j(1) _ started_rows [OF run]] j(2) by simp
  qed
qed

lemma visits_consistent:
  "consistent store db \<Longrightarrow> \<forall>c \<in> set configs. scopes_known db c \<Longrightarrow> consistent store (visit_configs envs configs db)"
proof (induction configs arbitrary: db)
  case (Cons c configs)
  let ?db1 = "snd (processConfig (envs (cfg_ID c)) c db)"
  have "consistent store ?db1" "scopes_kept db ?db1"
    using visit_consistent [OF Cons.prems(1), of c "envs (cfg_ID c)"] Cons.prems(2) by simp_all
  moreover from this(2) have "\<forall>x \<in> set configs. scopes_known ?db1 x"
    using Cons.prems(2) scopes_known_kept [of db _ ?db1] by simp
  ultimately show ?case using Cons.IH [of ?db1] by (simp add: visit_configs_def)
qed (simp add: visit_configs_def)

lemma listed_scopes_known:
  assumes inv: "db_inv db" and l: "config_ListAllScheduled ok n offset db = Inr configs" and c: "c \<in> set configs"
  shows "scopes_known db c"
proof -
  obtain x where "x \<in> set (take n (drop offset (sort_key cfg_Name (filter (\<lambda>c. cfg_JobType c = JobTypeScheduled) (db_configs db)))))"
    and r: "RestoreCrawlJobConfigFromSnapshot ok x = Inr c"
    using map_res_mem [OF l [unfolded config_ListAllScheduled_def] c] by blast
  then have x: "x \<in> set (db_configs db)" by (auto dest!: in_set_takeD in_set_dropD)
  have "cfg_ID c = cfg_ID x" "cfg_Scopes c = cfg_Scopes x"
    using r by (auto simp: RestoreCrawlJobConfigFromSnapshot_def bind_res_Inr_iff dest: NewID_InrD)
  moreover have "inj_on cfg_ID (set (db_configs db))" using inv by (simp add: db_inv_def distinct_map)
  ultimately show ?thesis using x by (auto simp: scopes_known_def dest: inj_onD)
qed

lemma schedules_consistent:
  "consistent store db \<Longrightarrow> consistent store (processSchedules envs fail_list ok batchSize offset db)"
proof (induction envs fail_list ok batchSize offset db rule: processSchedules.induct)
  case (1 envs fail_list ok batchSize offset db)
  have "consistent store (visit_configs envs configs db)"
    if "db_read (fail_list offset) (config_ListAllScheduled ok batchSize offset) db = Inr configs" for configs
    using that visits_consistent [OF 1(2)] listed_scopes_known [OF consistent_db_inv [OF 1(2)]]
    by (auto simp: db_read_def split: option.splits)
  then show ?case using 1 by (subst processSchedules.simps) (auto split: sum.splits)
qed

section \<open>The outbox\<close>

lemma outbox_consistent:
  assumes "consistent store db" and "processOutboxEvents env (db, sent) = (r, db', sent')"
  shows "consistent store db'"
proof -
  have "consistent store (mark_all now ids db)" for now ids
  proof -
    have "map ob_ID (map (\<lambda>e. if ob_ID e \<in> ids then e\<lparr>ob_ProcessedAt := Some now\<rparr> else e) es) = map ob_ID es" for es :: "OutboxEvent list"
      by simp
    then have "db_inv (mark_all now ids db)"
      using consistent_db_inv [OF assms(1)] unfolding db_inv_def mark_all_def by (simp del: map_map)
    then show ?thesis
      using assms(1) by (simp add: consistent_def within_depth_def depth_limit_def job_refs_def mark_all_def)
  qed
  then show ?thesis using poll_cases [OF assms(2)] assms(1) by blast
qed

section \<open>The workers\<close>

text \<open>A handler replaces the row of its task, keeping job and depth, and may append rows.\<close>

lemma replaced_consistent:
  assumes c: "consistent store db" and inv: "db_inv db'" and d: "dom store \<subseteq> dom store'"
    and frame: "db_jobs db' = db_jobs db" "db_configs db' = db_configs db"
    and r: "r \<in> set (db_tasks db)" and x: "ts_JobID x = ts_JobID r" "ts_Depth x = ts_Depth r" "task_backed store' x"
    and rows: "\<And>y. y \<in> set (db_tasks db') \<Longrightarrow> y \<in> set (db_tasks db) \<or> y = x \<or> task_backed store' y \<and> within_depth db y"
  shows "consistent store' db'"
proof -
  have l: "depth_limit db' = depth_limit db" by (intro ext) (simp add: depth_limit_def job_refs_def frame)
  then have w: "within_depth db' = within_depth db" by (intro ext) (simp add: within_depth_def)
  have "within_depth db x" using c r x(1,2) by (auto simp: consistent_def within_depth_def)
  then have "y \<in> set (db_tasks db) \<or> task_backed store' y \<and> within_depth db' y" if "y \<in> set (db_tasks db')" for y
    using rows [OF that] x(3) w by auto
  then show ?thesis using consistent_step [OF c inv d] frame(1) l by simp
qed

lemma grown_consistent: "consistent store db \<Longrightarrow> dom store \<subseteq> dom store' \<Longrightarrow> consistent store' db"
  using consistent_step [OF _ consistent_db_inv] by blast

lemma Update_frame [simp]: "db_configs (snd (task_Update t db)) = db_configs db"
  by (simp add: task_Update_def split: option.splits)

lemma fail_task_frame:
  "db_jobs (w_db (snd (fail_task env t reason w))) = db_jobs (w_db w)"
  "db_configs (w_db (snd (fail_task env t reason w))) = db_configs (w_db w)"
  using tasks_only(3) [of "MarkAsFailed t reason" "w_db w"] Update_frame [of "MarkAsFailed t reason" "w_db w"]
  by (cases "fe_update env"; cases "task_Update (MarkAsFailed t reason) (w_db w)"; simp add: fail_task_def split: sum.splits)+

lemma save_page_frame:
  "db_jobs (w_db (snd (save_page env msg t page w))) = db_jobs (w_db w)"
  "db_configs (w_db (snd (save_page env msg t page w))) = db_configs (w_db w)"
  using tasks_only(3) [of "MarkAsFetched t (fr_FinalURL page) (minioKey t)" "w_db w"]
    Update_frame [of "MarkAsFetched t (fr_FinalURL page) (minioKey t)" "w_db w"]
  by (cases "fe_update env"; cases "task_Update (MarkAsFetched t (fr_FinalURL page) (minioKey t)) (w_db w)";
      simp add: save_page_def Let_def split: sum.splits option.splits)+

lemma process_task_frame:
  "db_jobs (w_db (snd (process_task env msg config t w))) = db_jobs (w_db w)"
  "db_configs (w_db (snd (process_task env msg config t w))) = db_configs (w_db w)"
  by (simp_all add: process_task_def fetch_page_def fail_task_frame save_page_frame split: sum.splits)

lemma fetch_frame:
  "db_jobs (w_db (snd (fetch_handleMessage env body w))) = db_jobs (w_db w)"
  "db_configs (w_db (snd (fetch_handleMessage env body w))) = db_configs (w_db w)"
  by (simp_all add: fetch_handleMessage_def process_task_frame split: sum.splits option.splits)

lemma fetch_consistent:
  assumes c: "consistent (w_store w) (w_db w)" and h: "fetch_handleMessage env body w = (res, w')"
  shows "consistent (w_store w') (w_db w')"
proof -
  note inv = consistent_db_inv [OF c]
  have frame: "db_jobs (w_db w') = db_jobs (w_db w)" "db_configs (w_db w') = db_configs (w_db w)"
    using fetch_frame [of env body w] h by simp_all
  have upd: "consistent (w_store w') (w_db w')"
    if l: "loaded (w_db w) t r" and inv': "db_inv (w_db w')" and d: "dom (w_store w) \<subseteq> dom (w_store w')"
      and ft: "find_task (w_db w') = (find_task (w_db w))(task_ID t \<mapsto> updated_row t' r)"
      and t': "task_Depth t' = task_Depth t" and b: "task_backed (w_store w') (updated_row t' r)" for t r t'
  proof (rule replaced_consistent [OF c inv' d frame])
    show "r \<in> set (db_tasks (w_db w))" using l by (auto simp: loaded_def dest: find_task_SomeD)
    show "ts_Depth (updated_row t' r) = ts_Depth r" using l t' by (auto simp: loaded_def)
    show "y \<in> set (db_tasks (w_db w)) \<or> y = updated_row t' r \<or> task_backed (w_store w') y \<and> within_depth (w_db w) y"
      if y: "y \<in> set (db_tasks (w_db w'))" for y
    proof -
      have "find_task (w_db w') (ts_ID y) = Some y" using inv' y find_task_iff by (auto simp: db_inv_def)
      then show ?thesis unfolding ft by (auto split: if_splits dest: find_task_SomeD)
    qed
  qed (use b in simp_all)
  from handle_cases [OF inv h] consider "w' = w"
    | t r where "loaded (w_db w) t r" "put_back t w res w'"
    | t r where "loaded (w_db w) t r" "gave_up t r w res w'"
    | msg t r where "loaded (w_db w) t r" "fetched env msg t r w res w'" by blast
  then show ?thesis
  proof cases
    case 1
    then show ?thesis using c by simp
  next
    case 2
    then have "w_db w' = w_db w" "dom (w_store w) \<subseteq> dom (w_store w')" by (auto simp: put_back_def)
    then show ?thesis using grown_consistent [OF c] by simp
  next
    case 3
    then obtain reason where "db_inv (w_db w')" "w_store w' = w_store w"
      "find_task (w_db w') = (find_task (w_db w))(task_ID t \<mapsto> updated_row (MarkAsFailed t reason) r)"
      by (auto simp: gave_up_def)
    moreover have "task_backed s (updated_row (MarkAsFailed t reason) r)" for s
      unfolding task_backed_def updated_MarkAs by (simp add: status_defs)
    ultimately show ?thesis using upd [OF 3(1)] by (simp add: task_mark_defs)
  next
    case 4
    then obtain page :: FetchResult where "db_inv (w_db w')"
      "find_task (w_db w') = (find_task (w_db w))(task_ID t \<mapsto> updated_row (MarkAsFetched t (fr_FinalURL page) (minioKey t)) r)"
      and st: "w_store w' = (w_store w)(minioKey t \<mapsto> (fr_Body page, fr_ContentType page))"
      by (auto simp: fetched_def)
    moreover have "dom (w_store w) \<subseteq> dom (w_store w')" unfolding st by auto
    moreover have "task_backed (w_store w') (updated_row (MarkAsFetched t (fr_FinalURL page) (minioKey t)) r)"
      unfolding st task_backed_def updated_MarkAs by (simp add: status_defs)
    ultimately show ?thesis using upd [OF 4(1)] by (simp add: task_mark_defs)
  qed
qed

lemma parse_fail_store [simp]: "w_store (snd (parse_fail env t reason w)) = w_store w"
  by (simp add: parse_fail_def split: prod.splits sum.splits)

lemma parse_page_store: "dom (w_store w) \<subseteq> dom (w_store (snd (parse_page env msg config t html w)))"
proof (cases "extractData (pe_dom env) t (cfg_ExtractionSpec config) html")
  case (Inr result)
  obtain up store where U: "uploadResultToS3 env (pm_TaskID msg) (task_URL t) result (w_store w) = (up, store)"
    by (rule prod.exhaust)
  then have "dom (w_store w) \<subseteq> dom store" using uploadResult_cases [OF U] by auto
  then show ?thesis using Inr U by (auto simp: parse_page_def Let_def split: sum.splits prod.splits)
qed (simp add: parse_page_def)

lemma parse_store: "dom (w_store w) \<subseteq> dom (w_store (snd (parse_handleMessage env body w)))"
  using parse_page_store [of w env]
  by (simp add: parse_handleMessage_def split: sum.splits option.splits)

text \<open>The configuration the parser loads is the one the limits of its task come from.\<close>

lemma loaded_limit:
  assumes inv: "db_inv db" and j: "job_Get ok i db = Inr job" and c: "config_Get ok (job_JobConfigID job) db = Inr config"
    and l: "depth_limit db i m"
  shows "m = MaxDepth (cfg_Scopes config)"
proof -
  obtain row x where row: "row \<in> set (db_jobs db)" "js_ID row = i" "x \<in> set (db_configs db)"
    "js_JobConfigID row = Some (cfg_ID x)" "m = MaxDepth (cfg_Scopes x)" using l by (rule depth_limitD)
  then have "find_job db i = Some row" using find_job_iff [OF inv] by blast
  then have "job_JobConfigID job = cfg_ID x"
    using j row(4) by (auto simp: job_Get_def bind_res_Inr_iff scanCrawlJobWithConfig_def RestoreCrawlJobFromSnapshot_def
        split: option.splits if_splits dest: NewID_InrD)
  moreover obtain y where y: "find_config db (job_JobConfigID job) = Some y" "RestoreCrawlJobConfigFromSnapshot ok y = Inr config"
    using c by (auto simp: config_Get_def split: option.splits)
  ultimately have "y = x" using find_config_Some [OF y(1)] row(3) inv
    by (auto simp: db_inv_def distinct_map dest: inj_onD)
  then show ?thesis
    using y(2) row(5) by (auto simp: RestoreCrawlJobConfigFromSnapshot_def bind_res_Inr_iff)
qed

lemma set_row_mem: "y \<in> set (set_row i x rows) \<Longrightarrow> y \<in> set rows \<or> y = x"
  by (auto simp: set_row_def split: if_splits)

lemma parse_consistent:
  assumes c: "consistent (w_store w) (w_db w)" and h: "parse_handleMessage env body w = (res, w')"
  shows "consistent (w_store w') (w_db w')"
proof -
  note inv = consistent_db_inv [OF c]
  have d: "dom (w_store w) \<subseteq> dom (w_store w')" using parse_store [of w env body] h by simp
  from parse_handle_cases [OF inv h] consider "w' = w" | "parse_refused w res w'"
    | t r where "loaded (w_db w) t r" "parse_failed r w res w'"
    | t r config job where "loaded (w_db w) t r" "parse_done env t config r w res w'"
        "job_Get (pe_uuid_ok env) (task_JobID t) (w_db w) = Inr job"
        "config_Get (pe_uuid_ok env) (job_JobConfigID job) (w_db w) = Inr config" by blast
  then show ?thesis
  proof cases
    case 1
    then show ?thesis using c by simp
  next
    case 2
    then show ?thesis using grown_consistent [OF c d] by (simp add: parse_refused_def)
  next
    case 3
    then obtain x where x: "w_db w' = (w_db w)\<lparr>db_tasks := set_row (ts_ID r) x (db_tasks (w_db w))\<rparr>" "same_task x r"
      "ts_Status x = TaskStatusFailed" and inv': "db_inv (w_db w')" by (auto simp: parse_failed_def)
    have "r \<in> set (db_tasks (w_db w))" using 3(1) by (auto simp: loaded_def dest: find_task_SomeD)
    from replaced_consistent [OF c inv' d _ _ this, of x] show ?thesis
      using x set_row_mem [of _ "ts_ID r" x "db_tasks (w_db w)"] by (auto simp: same_task_def task_backed_def status_defs)
  next
    case 4
    then obtain x new where x: "w_db w' = (w_db w)\<lparr>db_tasks := set_row (ts_ID r) x (db_tasks (w_db w)) @ new\<rparr>" "same_task x r"
      "ts_Status x = TaskStatusParsed" "ts_ResultObjectKey x = Some (result_key (ts_ID r))" "result_key (ts_ID r) \<in> dom (w_store w')"
      and ch: "\<forall>n \<in> set new. \<exists>c. n = SaveCrawlTaskToSnapshot c \<and> child_of env t config c" and inv': "db_inv (w_db w')"
      unfolding parse_done_def by (elim conjE exE)
    have r: "r \<in> set (db_tasks (w_db w))" using 4(1) by (auto simp: loaded_def dest: find_task_SomeD)
    have b: "task_backed (w_store w') x" using x(3-5) by (simp add: task_backed_def status_defs)
    have new: "task_backed (w_store w') n \<and> within_depth (w_db w) n" if n: "n \<in> set new" for n
    proof -
      obtain k where "n = SaveCrawlTaskToSnapshot k" "task_JobID k = task_JobID t" "task_Status k = TaskStatusInProgress"
        "task_Depth k \<le> MaxDepth (cfg_Scopes config)" using ch n unfolding child_of_def by blast
      then show ?thesis using loaded_limit [OF inv 4(3,4)] by (auto simp: task_backed_def within_depth_def status_defs)
    qed
    from replaced_consistent [OF c inv' d _ _ r, of x] show ?thesis
      using x(1,2) b new set_row_mem [of _ "ts_ID r" x "db_tasks (w_db w)"] by (auto simp: same_task_def)
  qed
qed

lemma export_consistent:
  assumes c: "consistent store db" and p: "processEligibleJobs env (db, store) = (r, db', store')"
  shows "consistent store' db'"
proof -
  note inv = consistent_db_inv [OF c]
  note P = poll_facts [OF inv p]
  then have inv': "db_inv db'" and same: "db_tasks db' = db_tasks db" "db_configs db' = db_configs db"
    and rows: "\<And>i. find_job db' i = find_job db i \<or> (\<exists>j'. find_job db' i = Some j' \<and>
      (js_ExportStatus j' = Some ExportStatusFailed \<or> exported_job env db store' i j'))" by blast+
  have d: "dom store \<subseteq> dom store'" using poll_store [OF p] .
  have jobs: "j \<in> set (db_jobs db) \<or> job_backed store' j" if j: "j \<in> set (db_jobs db')" for j
  proof -
    have f: "find_job db' (js_ID j) = Some j" using find_job_iff [OF inv'] j by blast
    from rows [of "js_ID j"] show ?thesis
    proof
      assume "find_job db' (js_ID j) = find_job db (js_ID j)"
      then show ?thesis using f find_job_SomeD [of db "js_ID j" j] by simp
    next
      assume "\<exists>j'. find_job db' (js_ID j) = Some j' \<and>
        (js_ExportStatus j' = Some ExportStatusFailed \<or> exported_job env db store' (js_ID j) j')"
      then have "js_ExportStatus j = Some ExportStatusFailed \<or> exported_job env db store' (js_ID j) j" using f by auto
      then show ?thesis by (auto simp: job_backed_def exported_job_def status_defs)
    qed
  qed
  have "depth_limit db' = depth_limit db"
    using poll_refs [OF inv p] same(2) by (intro ext) (simp add: depth_limit_def)
  then show ?thesis using consistent_step [OF c inv' d _ jobs] same(1) by simp
qed

section \<open>Runs of the crawler\<close>

abbreviation world_consistent :: "world \<Rightarrow> bool" where
  "world_consistent w \<equiv> consistent (w_store w) (w_db w)"

lemma system_step_consistent:
  assumes c: "world_consistent w"
  shows "world_consistent (system_step w s)"
proof (cases s)
  case (PublishOutbox env)
  then show ?thesis using outbox_consistent [OF c] by (auto split: prod.splits)
next
  case (HandleCrawl env body)
  then show ?thesis using fetch_consistent [OF c surjective_pairing] by simp
next
  case (HandleParsing env body)
  then show ?thesis using parse_consistent [OF c surjective_pairing] by simp
next
  case (ExportJobs env)
  then show ?thesis using export_consistent [OF c] by (auto split: prod.splits)
next
  case (RecoverStuck env)
  then show ?thesis using c by (simp split: outcome.splits)
qed (use c create_consistent delete_consistent schedules_consistent in simp_all)

interpretation crawler: inv_machine "system_step :: world \<Rightarrow> 'n system_op \<Rightarrow> world" world_consistent
  by unfold_locales (rule system_step_consistent)

text \<open>
  C1. The components together keep their promises.  In every state the crawler can reach from empty
  tables, whatever jobs are created and deleted, whatever schedules start, whatever messages are
  delivered in whatever order, repeated or lost, and whichever calls fail: the tables are consistent,
  every fetched task has its page and every parsed task its result in the content store, every
  completed export has both reports there, and no task is deeper than the configuration of its job
  allows.
\<close>

theorem crawl_consistent:
  "world_consistent (foldl system_step empty_world ops)"
  by (rule crawler.run_inv) (simp add: empty_world_def empty_consistent)

text \<open>A whole run: two distinct seeds are created, published, fetched, parsed and exported.\<close>

definition whole_run :: "string system_op list" where
  "whole_run = (let ok = (\<lambda>s. s \<noteq> []) in
     [CreateJob sample_job_env ''u1'' (sample_command\<lparr>cfg_Scopes := (cfg_Scopes sample_command)\<lparr>MaxDepth := 0\<rparr>\<rparr>),
      PublishOutbox (sample_env 10),
      HandleCrawl (sample_fetch_env\<lparr>fe_uuid_ok := ok\<rparr>) ''s'',
      HandleCrawl (sample_fetch_env\<lparr>fe_uuid_ok := ok\<rparr>) ''s00'',
      HandleParsing (sample_parse_env\<lparr>pe_uuid_ok := ok\<rparr>) ''s'',
      HandleCrawl (sample_fetch_env\<lparr>fe_uuid_ok := ok, fe_get := Some (ErrText ''timeout'')\<rparr>) ''s'',
      HandleParsing (sample_parse_env\<lparr>pe_uuid_ok := ok\<rparr>) ''s00'',
      ExportJobs (sample_export_env\<lparr>xe_uuid_ok := ok\<rparr>)])"

lemma whole_run_exports:
  "let w = foldl system_step empty_world whole_run in
     map (\<lambda>r. (ts_ID r, ts_Status r)) (db_tasks (w_db w)) = [(''s'', TaskStatusParsed), (''s00'', TaskStatusParsed)] \<and>
     map js_ExportStatus (db_jobs (w_db w)) = [Some ExportStatusCompleted] \<and>
     length (w_crawl w) = 3 \<and> length (w_parsing w) = 2"
  by code_simp

theorem crawl_consistent_witness:
  "let w = foldl system_step empty_world whole_run in
     world_consistent w \<and> map js_ExportStatus (db_jobs (w_db w)) = [Some ExportStatusCompleted]"
  using whole_run_exports crawl_consistent [of whole_run] unfolding Let_def by blast

end
