(* ===== verification/Rate_Limiter.thy ===== *)
theory Rate_Limiter
  imports Domain_Models
begin

text \<open>
  The rate limiters of \<^verbatim>\<open>infra/cache\<close>: token buckets kept in the process
  (\<^verbatim>\<open>InMemoryRateLimiter\<close>) or in Redis by a script (\<^verbatim>\<open>RedisRateLimiter\<close>).  The
  floating-point quantities are rationals, as elsewhere in the model; times are nanoseconds in the first
  and milliseconds in the second.  What both promise is stated once, for an abstract token bucket.
\<close>

section \<open>Model\<close>

subsection \<open>The limiter in the process\<close>

record rateLimitBucket =
  rb_tokens :: rat
  rb_lastRefillAt :: time
  rb_lastSeenAt :: time

record InMemoryRateLimiter =
  rl_buckets :: "string \<Rightarrow> rateLimitBucket option"
  rl_ttl :: duration

definition NewInMemoryRateLimiter :: "duration \<Rightarrow> InMemoryRateLimiter" where
  "NewInMemoryRateLimiter ttl = \<lparr>rl_buckets = Map.empty, rl_ttl = (if ttl = 0 then 5 * Minute else ttl)\<rparr>"

definition rate_key :: "string \<Rightarrow> string \<Rightarrow> string \<Rightarrow> string" where
  "rate_key jobID scope i = ''rl:rps:'' @ jobID @ '':'' @ scope @ '':'' @ i"

definition capacity :: "rat \<Rightarrow> rat" where
  "capacity rps = max 1 (of_int \<lceil>rps\<rceil>)"

definition cleanupExpiredLocked :: "time \<Rightarrow> InMemoryRateLimiter \<Rightarrow> InMemoryRateLimiter" where
  "cleanupExpiredLocked now r =
     (if rl_ttl r \<le> 0 then r
      else r\<lparr>rl_buckets := \<lambda>key. case rl_buckets r key of
               None \<Rightarrow> None
             | Some b \<Rightarrow> if rl_ttl r < time_Sub now (rb_lastSeenAt b) then None else Some b\<rparr>)"

definition refill :: "rat \<Rightarrow> time \<Rightarrow> rateLimitBucket \<Rightarrow> rateLimitBucket" where
  "refill rps now b =
     (let elapsedSec = of_int (time_Sub now (rb_lastRefillAt b)) / 10 ^ 9
      in if 0 < elapsedSec
         then b\<lparr>rb_tokens := min (capacity rps) (rb_tokens b + elapsedSec * rps), rb_lastRefillAt := now\<rparr>
         else b)"

text \<open>
  One call: the state of the context, the clock, the rate of the job and the key; the answer is whether
  the call is allowed and after how long to retry.
\<close>

definition Allow ::
  "gerr option \<Rightarrow> time \<Rightarrow> rat \<Rightarrow> string \<Rightarrow> InMemoryRateLimiter \<Rightarrow> (bool \<times> duration) res \<times> InMemoryRateLimiter" where
  "Allow ctx_err now rps key r0 =
     (case ctx_err of
        Some e \<Rightarrow> (Inl e, r0)
      | None \<Rightarrow>
          if rps \<le> 0 then (Inr (True, 0), r0)
          else
            let r = cleanupExpiredLocked now r0;
                bucket0 = (case rl_buckets r key of
                             Some b \<Rightarrow> b
                           | None \<Rightarrow> \<lparr>rb_tokens = capacity rps, rb_lastRefillAt = now, rb_lastSeenAt = now\<rparr>);
                bucket = refill rps now bucket0
            in if 1 \<le> rb_tokens bucket
               then (Inr (True, 0),
                     r\<lparr>rl_buckets := (rl_buckets r)(key \<mapsto> bucket\<lparr>rb_tokens := rb_tokens bucket - 1, rb_lastSeenAt := now\<rparr>)\<rparr>)
               else let retryAfterMs = max 1 \<lceil>(1 - rb_tokens bucket) / rps * 1000\<rceil>
                    in (Inr (False, retryAfterMs * Millisecond),
                        r\<lparr>rl_buckets := (rl_buckets r)(key \<mapsto> bucket\<lparr>rb_lastSeenAt := now\<rparr>)\<rparr>))"

subsection \<open>The limiter in Redis\<close>

text \<open>
  The script on the hash of one key: the tokens and the time of the last call, which Redis forgets
  \<open>ttl\<close> milliseconds after the last call.
\<close>

record redis_hash =
  rh_tokens :: rat
  rh_ts :: int
  rh_expires :: int

type_synonym redis_limits = "string \<Rightarrow> redis_hash option"

definition hget :: "int \<Rightarrow> string \<Rightarrow> redis_limits \<Rightarrow> redis_hash option" where
  "hget now_ms key st = (case st key of None \<Rightarrow> None | Some h \<Rightarrow> if rh_expires h \<le> now_ms then None else Some h)"

definition rateLimitScript :: "int \<Rightarrow> rat \<Rightarrow> int \<Rightarrow> string \<Rightarrow> redis_limits \<Rightarrow> (bool \<times> rat \<times> int) \<times> redis_limits" where
  "rateLimitScript now_ms refill_per_sec ttl_ms key st =
     (let h = (case hget now_ms key st of
                 Some h \<Rightarrow> h
               | None \<Rightarrow> \<lparr>rh_tokens = capacity refill_per_sec, rh_ts = now_ms, rh_expires = now_ms\<rparr>);
          elapsed_sec = of_int (now_ms - rh_ts h) / 1000;
          new_tokens = min (capacity refill_per_sec) (rh_tokens h + elapsed_sec * refill_per_sec);
          allowed = (1 \<le> new_tokens);
          left = (if allowed then new_tokens - 1 else new_tokens);
          retry_after_ms = (if allowed then 0 else \<lceil>(1 - new_tokens) / refill_per_sec * 1000\<rceil>)
      in ((allowed, left, retry_after_ms), st(key \<mapsto> \<lparr>rh_tokens = left, rh_ts = now_ms, rh_expires = now_ms + ttl_ms\<rparr>)))"

definition redis_Allow ::
  "gerr option \<Rightarrow> int \<Rightarrow> duration \<Rightarrow> rat \<Rightarrow> string \<Rightarrow> redis_limits \<Rightarrow> (bool \<times> duration) res \<times> redis_limits" where
  "redis_Allow fail now_ms ttl rps key st =
     (if rps \<le> 0 then (Inr (True, 0), st)
      else case fail of
             Some e \<Rightarrow> (Inl (ErrWrap ''failed to execute rate limit script'' e), st)
           | None \<Rightarrow>
               (case rateLimitScript now_ms rps (ttl div Millisecond) key st of
                  ((allowed, _, retryAfterMs), st') \<Rightarrow> (Inr (allowed, retryAfterMs * Millisecond), st')))"

section \<open>Token buckets\<close>

fun granted :: "('s \<Rightarrow> 'e \<Rightarrow> bool \<times> 's) \<Rightarrow> 's \<Rightarrow> 'e list \<Rightarrow> nat" where
  "granted step s [] = 0"
| "granted step s (e # es) = (case step s e of (a, s') \<Rightarrow> of_bool a + granted step s' es)"

text \<open>
  A token bucket as seen by one key: \<open>credit s t\<close> is what is available at time \<open>t\<close>; it is between
  nothing and the capacity, and a step spends one for each granted call and gains at most the rate.
\<close>

fun after :: "('s \<Rightarrow> 'e \<Rightarrow> bool \<times> 's) \<Rightarrow> 's \<Rightarrow> 'e list \<Rightarrow> 's" where
  "after step s [] = s"
| "after step s (e # es) = after step (snd (step s e)) es"

locale token_bucket =
  fixes step :: "'s \<Rightarrow> 'e \<Rightarrow> bool \<times> 's"
    and clock :: "'e \<Rightarrow> int"
    and admissible :: "'e \<Rightarrow> bool"
    and ok :: "'s \<Rightarrow> int \<Rightarrow> bool"
    and credit :: "'s \<Rightarrow> int \<Rightarrow> rat"
    and cap :: rat
    and rate :: rat
  assumes credit_range: "ok s t \<Longrightarrow> 0 \<le> credit s t \<and> credit s t \<le> cap"
    and ok_mono: "ok s t \<Longrightarrow> t \<le> t' \<Longrightarrow> ok s t'"
    and step_credit: "ok s t \<Longrightarrow> t \<le> clock e \<Longrightarrow> admissible e \<Longrightarrow> step s e = (a, s') \<Longrightarrow>
      ok s' (clock e) \<and> credit s' (clock e) + of_bool a \<le> credit s t + rate * of_int (clock e - t)"
begin

lemma granted_credit:
  assumes "ok s t" and "sorted (t # map clock es)" and "list_all admissible es"
  shows "of_nat (granted step s es) \<le> credit s t + rate * of_int (last (t # map clock es) - t)"
  using assms
proof (induction es arbitrary: s t)
  case Nil
  then show ?case using credit_range by simp
next
  case (Cons e es)
  obtain a s' where st: "step s e = (a, s')" by (rule prod.exhaust)
  have *: "ok s' (clock e)" "credit s' (clock e) + of_bool a \<le> credit s t + rate * of_int (clock e - t)"
    using step_credit [OF Cons.prems(1) _ _ st] Cons.prems by simp_all
  have "of_nat (granted step s' es) \<le> credit s' (clock e) + rate * of_int (last (clock e # map clock es) - clock e)"
    using Cons.IH [OF *(1)] Cons.prems by simp
  moreover have "rate * of_int (last (clock e # map clock es) - clock e) + rate * of_int (clock e - t) =
      rate * of_int (last (t # clock e # map clock es) - t)"
    by (simp add: algebra_simps)
  ultimately show ?case using *(2) st by simp
qed

lemma after_ok:
  assumes "ok s t" and "sorted (t # map clock es)" and "list_all admissible es"
  shows "ok (after step s es) (last (t # map clock es))"
  using assms
proof (induction es arbitrary: s t)
  case (Cons e es)
  have "ok (snd (step s e)) (clock e)"
    using step_credit [OF Cons.prems(1) _ _ surjective_pairing] Cons.prems by simp
  then show ?case using Cons.IH [of "snd (step s e)" "clock e"] Cons.prems by simp
qed simp

text \<open>The bound over any window of a history.\<close>

lemma window_bound:
  assumes "ok s t" and "sorted (t # map clock (pre @ e # es))" and "list_all admissible (pre @ e # es)"
  shows "of_nat (granted step (after step s pre) (e # es)) \<le> cap + rate * of_int (last (map clock (e # es)) - clock e)"
proof -
  have "last (t # map clock pre) \<le> clock e" using assms(2) by (cases pre rule: rev_cases) (auto simp: sorted_append)
  moreover have "ok (after step s pre) (last (t # map clock pre))"
    by (rule after_ok) (use assms in \<open>auto simp: sorted_append\<close>)
  ultimately have o: "ok (after step s pre) (clock e)" by (rule ok_mono [rotated])
  have "of_nat (granted step (after step s pre) (e # es)) \<le>
      credit (after step s pre) (clock e) + rate * of_int (last (clock e # map clock (e # es)) - clock e)"
    by (rule granted_credit [OF o]) (use assms in \<open>auto simp: sorted_append\<close>)
  then show ?thesis using credit_range [OF o] by simp
qed

end

section \<open>The two limiters are token buckets\<close>

type_synonym rate_call = "int \<times> rat \<times> string"

definition mem_step :: "string \<Rightarrow> InMemoryRateLimiter \<Rightarrow> rate_call \<Rightarrow> bool \<times> InMemoryRateLimiter" where
  "mem_step k r call = (case call of (now, rps, key) \<Rightarrow>
     (case Allow None now rps key r of (res, r') \<Rightarrow> (key = k \<and> (case res of Inr (allowed, _) \<Rightarrow> allowed | Inl _ \<Rightarrow> False), r')))"

definition redis_step :: "duration \<Rightarrow> string \<Rightarrow> redis_limits \<Rightarrow> rate_call \<Rightarrow> bool \<times> redis_limits" where
  "redis_step ttl k st call = (case call of (now_ms, rps, key) \<Rightarrow>
     (case redis_Allow None now_ms ttl rps key st of
        (res, st') \<Rightarrow> (key = k \<and> (case res of Inr (allowed, _) \<Rightarrow> allowed | Inl _ \<Rightarrow> False), st')))"

definition call_ok :: "string \<Rightarrow> rat \<Rightarrow> rate_call \<Rightarrow> bool" where
  "call_ok k r call \<longleftrightarrow> (case call of (now, rps, key) \<Rightarrow> key = k \<longrightarrow> rps = r)"

definition mem_ok :: "string \<Rightarrow> rat \<Rightarrow> duration \<Rightarrow> InMemoryRateLimiter \<Rightarrow> int \<Rightarrow> bool" where
  "mem_ok k r ttl s t \<longleftrightarrow> 0 < r \<and> rl_ttl s = ttl \<and> (ttl \<le> 0 \<or> capacity r * 10 ^ 9 \<le> r * of_int ttl) \<and>
     (case rl_buckets s k of None \<Rightarrow> True
      | Some b \<Rightarrow> 0 \<le> rb_tokens b \<and> rb_tokens b \<le> capacity r \<and> rb_lastRefillAt b = rb_lastSeenAt b \<and> rb_lastSeenAt b \<le> t)"

definition mem_credit :: "string \<Rightarrow> rat \<Rightarrow> InMemoryRateLimiter \<Rightarrow> int \<Rightarrow> rat" where
  "mem_credit k r s t =
     (case rl_buckets s k of None \<Rightarrow> capacity r
      | Some b \<Rightarrow> min (capacity r) (rb_tokens b + r / 10 ^ 9 * of_int (t - rb_lastRefillAt b)))"

lemma capacity_ge_1: "1 \<le> capacity r"
  by (simp add: capacity_def)

lemma min_grows:
  fixes c x y d :: rat
  assumes "0 \<le> d" and "y \<le> x + d"
  shows "min c y \<le> min c x + d"
  using assms by (auto simp: min_def)

lemma mem_credit_mono:
  assumes "0 < r" and "t \<le> now"
  shows "mem_credit k r s now \<le> mem_credit k r s t + r / 10 ^ 9 * of_int (now - t)"
proof (cases "rl_buckets s k")
  case None
  then show ?thesis using assms by (simp add: mem_credit_def)
next
  case (Some b)
  have "rb_tokens b + r / 10 ^ 9 * of_int (now - rb_lastRefillAt b) \<le>
      rb_tokens b + r / 10 ^ 9 * of_int (t - rb_lastRefillAt b) + r / 10 ^ 9 * of_int (now - t)"
    by (rule eq_refl) (simp only: of_int_diff right_diff_distrib)
  then show ?thesis using Some assms min_grows [of "r / 10 ^ 9 * of_int (now - t)"] by (simp add: mem_credit_def)
qed

lemma mem_cleanup:
  assumes ok: "mem_ok k r ttl s now"
  shows "mem_ok k r ttl (cleanupExpiredLocked now s) now \<and> mem_credit k r (cleanupExpiredLocked now s) now = mem_credit k r s now"
proof (cases "0 < ttl \<and> (\<exists>b. rl_buckets s k = Some b \<and> ttl < time_Sub now (rb_lastSeenAt b))")
  case True
  then obtain b where b: "rl_buckets s k = Some b" "ttl < time_Sub now (rb_lastSeenAt b)" by blast
  have m: "rb_lastRefillAt b = rb_lastSeenAt b" "rb_lastSeenAt b \<le> now" "0 \<le> rb_tokens b" "0 < r"
    "capacity r * 10 ^ 9 \<le> r * of_int ttl" using ok b(1) True by (simp_all add: mem_ok_def)
  have "ttl \<le> now - rb_lastRefillAt b" using b(2) time_Sub_le [OF m(2)] m(1) by simp
  then have "r * of_int ttl \<le> r * of_int (now - rb_lastRefillAt b)" using m(4) by (intro mult_left_mono) (simp_all only: of_int_le_iff less_imp_le)
  then have "capacity r \<le> r / 10 ^ 9 * of_int (now - rb_lastRefillAt b)" using m(5) by (simp add: field_simps)
  then have "mem_credit k r s now = capacity r" using b(1) m(3) by (simp add: mem_credit_def)
  moreover have "rl_buckets (cleanupExpiredLocked now s) k = None" "rl_ttl (cleanupExpiredLocked now s) = rl_ttl s"
    using b True ok by (simp_all add: cleanupExpiredLocked_def mem_ok_def)
  ultimately show ?thesis using ok by (simp add: mem_ok_def mem_credit_def)
next
  case False
  then have "rl_buckets (cleanupExpiredLocked now s) k = rl_buckets s k" "rl_ttl (cleanupExpiredLocked now s) = rl_ttl s"
    using ok by (auto simp: cleanupExpiredLocked_def mem_ok_def split: option.split)
  then show ?thesis using ok by (simp add: mem_ok_def mem_credit_def)
qed

lemma refill_spec:
  assumes "0 < r" and "rb_lastRefillAt b \<le> now" and "0 \<le> rb_tokens b" and "rb_tokens b \<le> capacity r"
  shows "0 \<le> rb_tokens (refill r now b) \<and> rb_lastRefillAt (refill r now b) = now \<and>
         rb_tokens (refill r now b) \<le> min (capacity r) (rb_tokens b + r / 10 ^ 9 * of_int (now - rb_lastRefillAt b))"
proof (cases "rb_lastRefillAt b < now")
  case True
  have pos: "0 < time_Sub now (rb_lastRefillAt b)" using True by (simp add: time_Sub_pos_iff)
  have "(of_int (time_Sub now (rb_lastRefillAt b)) :: rat) \<le> of_int (now - rb_lastRefillAt b)"
    using time_Sub_le [OF assms(2)] by (simp only: of_int_le_iff)
  then have "of_int (time_Sub now (rb_lastRefillAt b)) / 10 ^ 9 * r \<le> r / 10 ^ 9 * of_int (now - rb_lastRefillAt b)"
    using mult_left_mono [of _ _ "r / 10 ^ 9"] assms(1) by (simp only: times_divide_eq_left mult.commute) simp
  moreover have "0 \<le> of_int (time_Sub now (rb_lastRefillAt b)) / 10 ^ 9 * r" using pos assms(1) by simp
  ultimately show ?thesis using pos assms(3) capacity_ge_1 [of r] by (auto simp: refill_def Let_def min_def)
next
  case False
  then have "rb_lastRefillAt b = now" using assms(2) by simp
  then show ?thesis using assms by (simp add: refill_def time_Sub_def)
qed

lemma mem_ok_mono: "mem_ok k r ttl s t \<Longrightarrow> t \<le> t' \<Longrightarrow> mem_ok k r ttl s t'"
  by (auto simp: mem_ok_def split: option.splits)

lemma mem_credit_range: "mem_ok k r ttl s t \<Longrightarrow> 0 \<le> mem_credit k r s t \<and> mem_credit k r s t \<le> capacity r"
  using capacity_ge_1 [of r] by (auto simp: mem_ok_def mem_credit_def split: option.splits)

text \<open>What a call for the key itself does, once expired buckets are gone.\<close>

lemma Allow_key:
  fixes s :: InMemoryRateLimiter
  assumes ok: "mem_ok k r ttl s now"
  shows "\<exists>b a d. Allow None now r k s = (Inr (a, d), (cleanupExpiredLocked now s)\<lparr>rl_buckets :=
           (rl_buckets (cleanupExpiredLocked now s))(k \<mapsto> b\<lparr>rb_tokens := rb_tokens b - of_bool a, rb_lastSeenAt := now\<rparr>)\<rparr>) \<and>
         (a \<longleftrightarrow> 1 \<le> rb_tokens b) \<and> 0 \<le> rb_tokens b \<and> rb_lastRefillAt b = now \<and> rb_tokens b \<le> mem_credit k r s now \<and>
         (a \<or> d = max 1 \<lceil>(1 - rb_tokens b) / r * 1000\<rceil> * Millisecond)"
proof -
  define c where "c = cleanupExpiredLocked now s"
  note c = mem_cleanup [OF ok, folded c_def]
  define b0 where "b0 = (case rl_buckets c k of Some b \<Rightarrow> b | None \<Rightarrow> \<lparr>rb_tokens = capacity r, rb_lastRefillAt = now, rb_lastSeenAt = now\<rparr>)"
  have r: "0 < r" using ok by (simp add: mem_ok_def)
  have b0: "rb_lastRefillAt b0 \<le> now" "0 \<le> rb_tokens b0" "rb_tokens b0 \<le> capacity r"
    "min (capacity r) (rb_tokens b0 + r / 10 ^ 9 * of_int (now - rb_lastRefillAt b0)) = mem_credit k r c now"
    using c capacity_ge_1 [of r] by (auto simp: b0_def mem_ok_def mem_credit_def split: option.splits)
  note b = refill_spec [OF r b0(1,2,3)]
  have "Allow None now r k s =
      (if 1 \<le> rb_tokens (refill r now b0)
       then (Inr (True, 0), c\<lparr>rl_buckets := (rl_buckets c)(k \<mapsto> (refill r now b0)\<lparr>rb_tokens := rb_tokens (refill r now b0) - 1, rb_lastSeenAt := now\<rparr>)\<rparr>)
       else (Inr (False, max 1 \<lceil>(1 - rb_tokens (refill r now b0)) / r * 1000\<rceil> * Millisecond),
             c\<lparr>rl_buckets := (rl_buckets c)(k \<mapsto> (refill r now b0)\<lparr>rb_lastSeenAt := now\<rparr>)\<rparr>))"
    using r by (simp add: Allow_def c_def b0_def Let_def)
  then show ?thesis unfolding c_def [symmetric] using b b0(4) c
    by (intro exI [of _ "refill r now b0"] exI [of _ "1 \<le> rb_tokens (refill r now b0)"]) auto
qed

lemma mem_step_credit:
  assumes ok: "mem_ok k r ttl s t" and t: "t \<le> now" and adm: "call_ok k r (now, rps, key)"
    and st: "mem_step k s (now, rps, key) = (a, s')"
  shows "mem_ok k r ttl s' now \<and> mem_credit k r s' now + of_bool a \<le> mem_credit k r s t + r / 10 ^ 9 * of_int (now - t)"
proof -
  have r: "0 < r" using ok by (simp add: mem_ok_def)
  note ok' = mem_ok_mono [OF ok t]
  note c = mem_cleanup [OF ok']
  note g = mem_credit_mono [OF r t, of k s]
  show ?thesis
  proof (cases "key = k")
    case True
    then have "rps = r" using adm by (simp add: call_ok_def)
    then obtain b d x where b: "Allow None now rps key s = (Inr (x, d), (cleanupExpiredLocked now s)\<lparr>rl_buckets :=
           (rl_buckets (cleanupExpiredLocked now s))(k \<mapsto> b\<lparr>rb_tokens := rb_tokens b - of_bool x, rb_lastSeenAt := now\<rparr>)\<rparr>)"
      "x \<longleftrightarrow> 1 \<le> rb_tokens b" "0 \<le> rb_tokens b" "rb_lastRefillAt b = now" "rb_tokens b \<le> mem_credit k r s now"
      using Allow_key [OF ok'] True by blast
    have "a = x" "s' = (cleanupExpiredLocked now s)\<lparr>rl_buckets :=
           (rl_buckets (cleanupExpiredLocked now s))(k \<mapsto> b\<lparr>rb_tokens := rb_tokens b - of_bool x, rb_lastSeenAt := now\<rparr>)\<rparr>"
      using st b(1) True by (auto simp: mem_step_def)
    moreover have "mem_credit k r s now \<le> capacity r" using mem_credit_range [OF ok'] by simp
    ultimately show ?thesis using b c g capacity_ge_1 [of r] by (auto simp: mem_ok_def mem_credit_def)
  next
    case False
    have keep: "(x, y) = Allow None now rps key s \<Longrightarrow> rl_ttl y = ttl \<and>
        (rl_buckets y k = rl_buckets s k \<or> rl_buckets y k = rl_buckets (cleanupExpiredLocked now s) k)" for x y
      using False ok c by (auto simp: Allow_def Let_def mem_ok_def split: if_splits)
    have "\<not> a" using st False by (auto simp: mem_step_def split: prod.splits)
    have "rl_ttl s' = ttl" "rl_buckets s' k = rl_buckets s k \<or> rl_buckets s' k = rl_buckets (cleanupExpiredLocked now s) k"
      using st keep [of _ s'] by (auto simp: mem_step_def split: prod.splits)
    then show ?thesis using ok' c g \<open>\<not> a\<close> by (auto simp: mem_ok_def mem_credit_def)
  qed
qed

interpretation mem: token_bucket "mem_step k" fst "call_ok k r" "mem_ok k r ttl" "mem_credit k r" "capacity r" "r / 10 ^ 9"
  for k r ttl
proof unfold_locales
  fix s t e a s'
  assume "mem_ok k r ttl s t" "t \<le> fst e" "call_ok k r e" "mem_step k s e = (a, s')"
  then show "mem_ok k r ttl s' (fst e) \<and> mem_credit k r s' (fst e) + of_bool a \<le> mem_credit k r s t + r / 10 ^ 9 * of_int (fst e - t)"
    by (cases e) (use mem_step_credit in auto)
qed (auto intro: mem_ok_mono dest: mem_credit_range)

definition redis_ok :: "string \<Rightarrow> rat \<Rightarrow> duration \<Rightarrow> redis_limits \<Rightarrow> int \<Rightarrow> bool" where
  "redis_ok k r ttl st t \<longleftrightarrow> 0 < r \<and> capacity r * 1000 \<le> r * of_int (ttl div Millisecond) \<and>
     (case st k of None \<Rightarrow> True
      | Some h \<Rightarrow> 0 \<le> rh_tokens h \<and> rh_tokens h \<le> capacity r \<and> rh_ts h \<le> t \<and> rh_expires h = rh_ts h + ttl div Millisecond)"

definition redis_credit :: "string \<Rightarrow> rat \<Rightarrow> redis_limits \<Rightarrow> int \<Rightarrow> rat" where
  "redis_credit k r st t =
     (case st k of None \<Rightarrow> capacity r
      | Some h \<Rightarrow> min (capacity r) (rh_tokens h + r / 1000 * of_int (t - rh_ts h)))"

lemma redis_credit_mono:
  assumes "0 < r" and "t \<le> now"
  shows "redis_credit k r st now \<le> redis_credit k r st t + r / 1000 * of_int (now - t)"
proof (cases "st k")
  case None
  then show ?thesis using assms by (simp add: redis_credit_def)
next
  case (Some h)
  have "rh_tokens h + r / 1000 * of_int (now - rh_ts h) \<le>
      rh_tokens h + r / 1000 * of_int (t - rh_ts h) + r / 1000 * of_int (now - t)"
    by (rule eq_refl) (simp only: of_int_diff right_diff_distrib)
  then show ?thesis using Some assms min_grows [of "r / 1000 * of_int (now - t)"] by (simp add: redis_credit_def)
qed

lemma redis_range: "redis_ok k r ttl st t \<Longrightarrow> 0 \<le> redis_credit k r st t \<and> redis_credit k r st t \<le> capacity r"
  using capacity_ge_1 [of r] by (auto simp: redis_ok_def redis_credit_def split: option.splits)

lemma redis_ok_mono: "redis_ok k r ttl st t \<Longrightarrow> t \<le> t' \<Longrightarrow> redis_ok k r ttl st t'"
  by (auto simp: redis_ok_def split: option.splits)

text \<open>The tokens the script works with are the credit of the key.\<close>

lemma script_tokens:
  assumes ok: "redis_ok k r ttl st now"
  shows "rateLimitScript now r (ttl div Millisecond) k st =
     (let n = redis_credit k r st now; a = (1 \<le> n); left = (if a then n - 1 else n)
      in ((a, left, if a then 0 else \<lceil>(1 - n) / r * 1000\<rceil>),
          st(k \<mapsto> \<lparr>rh_tokens = left, rh_ts = now, rh_expires = now + ttl div Millisecond\<rparr>)))"
proof -
  define h where "h = (case hget now k st of Some h \<Rightarrow> h
               | None \<Rightarrow> \<lparr>rh_tokens = capacity r, rh_ts = now, rh_expires = now\<rparr>)"
  have "min (capacity r) (rh_tokens h + of_int (now - rh_ts h) / 1000 * r) = redis_credit k r st now"
  proof (cases "\<exists>g. st k = Some g \<and> rh_expires g \<le> now")
    case True
    then obtain g where g: "st k = Some g" "rh_expires g \<le> now" by blast
    have m: "0 < r" "capacity r * 1000 \<le> r * of_int (ttl div Millisecond)" "0 \<le> rh_tokens g" "ttl div Millisecond \<le> now - rh_ts g"
      using ok g by (simp_all add: redis_ok_def)
    have "r * of_int (ttl div Millisecond) \<le> r * of_int (now - rh_ts g)"
      using m(1,4) by (intro mult_left_mono) (simp_all only: of_int_le_iff less_imp_le)
    then have "capacity r \<le> r / 1000 * of_int (now - rh_ts g)" using m(2) by (simp add: field_simps)
    then show ?thesis using g m(3) by (simp add: h_def hget_def redis_credit_def)
  next
    case False
    then show ?thesis by (auto simp: h_def hget_def redis_credit_def mult.commute split: option.split)
  qed
  then show ?thesis unfolding rateLimitScript_def h_def [symmetric] Let_def by (simp only:)
qed

lemma redis_step_credit:
  assumes ok: "redis_ok k r ttl st t" and t: "t \<le> now" and adm: "call_ok k r (now, rps, key)"
    and step: "redis_step ttl k st (now, rps, key) = (a, st')"
  shows "redis_ok k r ttl st' now \<and> redis_credit k r st' now + of_bool a \<le> redis_credit k r st t + r / 1000 * of_int (now - t)"
proof -
  have r: "0 < r" using ok by (simp add: redis_ok_def)
  note ok' = redis_ok_mono [OF ok t]
  note g = redis_credit_mono [OF r t, of k st]
  show ?thesis
  proof (cases "key = k")
    case True
    then have "rps = r" using adm by (simp add: call_ok_def)
    then have "a = (1 \<le> redis_credit k r st now)"
      "st' = st(k \<mapsto> \<lparr>rh_tokens = redis_credit k r st now - of_bool a, rh_ts = now, rh_expires = now + ttl div Millisecond\<rparr>)"
      using step True r script_tokens [OF ok'] by (auto simp: redis_step_def redis_Allow_def Let_def)
    then show ?thesis using g redis_range [OF ok'] ok' by (auto simp: redis_ok_def redis_credit_def)
  next
    case False
    then have "\<not> a" "st' k = st k"
      using step by (auto simp: redis_step_def redis_Allow_def rateLimitScript_def Let_def split: prod.splits if_splits)
    then show ?thesis using ok' g by (simp add: redis_ok_def redis_credit_def)
  qed
qed

interpretation redis: token_bucket "redis_step ttl k" fst "call_ok k r" "redis_ok k r ttl" "redis_credit k r" "capacity r" "r / 1000"
  for ttl k r
proof unfold_locales
  fix s t e a s'
  assume "redis_ok k r ttl s t" "t \<le> fst e" "call_ok k r e" "redis_step ttl k s e = (a, s')"
  then show "redis_ok k r ttl s' (fst e) \<and> redis_credit k r s' (fst e) + of_bool a \<le> redis_credit k r s t + r / 1000 * of_int (fst e - t)"
    by (cases e) (use redis_step_credit in auto)
qed (auto intro: redis_ok_mono dest: redis_range)

text \<open>
  C15. The rate limit holds.  In every window of every history of calls, on a clock that does not run
  backwards, the calls allowed for a key number at most the capacity plus the rate times the length of
  the window; for the limiter in the process (in nanoseconds) as for the one in Redis (in milliseconds),
  calls for other keys and the removal of idle buckets included, provided that a bucket that is removed
  for idleness would have been full, that is, that the time to live refills the capacity.
\<close>

theorem rate_limit_holds:
  assumes r: "0 < r"
    and ttl: "capacity r * 10 ^ 9 \<le> r * of_int ttl" "capacity r * 1000 \<le> r * of_int (ttl div Millisecond)"
    and mono: "sorted (map fst (pre @ c # calls))"
    and key: "list_all (call_ok k r) (pre @ c # calls)"
  shows "of_nat (granted (mem_step k) (after (mem_step k) (NewInMemoryRateLimiter ttl) pre) (c # calls))
           \<le> capacity r + r / 10 ^ 9 * of_int (last (map fst (c # calls)) - fst c) \<and>
         of_nat (granted (redis_step ttl k) (after (redis_step ttl k) Map.empty pre) (c # calls))
           \<le> capacity r + r / 1000 * of_int (last (map fst (c # calls)) - fst c)"
proof -
  define t where "t = fst (hd (pre @ c # calls))"
  have sorted: "sorted (t # map fst (pre @ c # calls))" using mono by (cases pre) (auto simp: t_def)
  have "ttl \<noteq> 0" using ttl(1) capacity_ge_1 [of r] by auto
  then have "mem_ok k r ttl (NewInMemoryRateLimiter ttl) t" "redis_ok k r ttl Map.empty t"
    using r ttl by (simp_all add: mem_ok_def redis_ok_def NewInMemoryRateLimiter_def)
  then show ?thesis using mem.window_bound [OF _ sorted key] redis.window_bound [OF _ sorted key] by blast
qed

theorem rate_limit_holds_witness:
  "of_nat (granted (mem_step ''k'') (after (mem_step ''k'') (NewInMemoryRateLimiter (5 * Minute)) [(0, 2, ''k'')])
      [(0, 2, ''k''), (0, 2, ''k''), (10 ^ 9, 2, ''k'')]) \<le> (4 :: rat)"
proof -
  have c: "capacity 2 = 2" by (simp add: capacity_def)
  have "of_nat (granted (mem_step ''k'') (after (mem_step ''k'') (NewInMemoryRateLimiter (5 * Minute)) [(0, 2, ''k'')])
      [(0, 2, ''k''), (0, 2, ''k''), (10 ^ 9, 2, ''k'')])
     \<le> capacity 2 + 2 / 10 ^ 9 * of_int (last (map fst [(0 :: int, 2 :: rat, ''k''), (0, 2, ''k''), (10 ^ 9, 2, ''k'')]) - 0)"
    using rate_limit_holds [of 2 "5 * Minute" "[(0, 2, ''k'')]" "(0, 2, ''k'')" "[(0, 2, ''k''), (10 ^ 9, 2, ''k'')]" "''k''"]
    by (simp add: c call_ok_def Minute_def Second_def Millisecond_def)
  then show ?thesis by (simp add: c)
qed

text \<open>
  A rate below one call per time to live is not enforced: a caller who waits a little longer than the
  time to live after each call finds a new, full bucket.
\<close>

lemma slow_rate_not_enforced:
  "granted (mem_step ''k'') (NewInMemoryRateLimiter 0)
     [(0, 1 / 1000, ''k''), (301 * 10 ^ 9, 1 / 1000, ''k''), (602 * 10 ^ 9, 1 / 1000, ''k'')] = 3"
  by code_simp

end
