(* ===== verification/Messaging.thy ===== *)
theory Messaging
  imports Fetch_Worker
begin

text \<open>
  The message brokers of \<^verbatim>\<open>infra/messaging\<close>: the contract of the consumers (\<^verbatim>\<open>client.go\<close>), the
  in-memory broker with its gRPC server and client (\<^verbatim>\<open>memory/broker\<close>), and the RabbitMQ and Kafka
  clients.  A queue of the in-memory broker is a buffered channel, here the list of its payloads; the
  server's loop and the client's loop are split where they leave the shared state, so that a history
  interleaves several subscribers.  For the two external brokers the model is the client: what it
  asks the library to do for given answers of the library.
\<close>

section \<open>Errors of handlers\<close>

datatype herr = HErr gerr | HWrap string herr | NonRetryableError herr

fun IsNonRetryable :: "herr \<Rightarrow> bool" where
  "IsNonRetryable (HErr e) = False"
| "IsNonRetryable (HWrap p e) = IsNonRetryable e"
| "IsNonRetryable (NonRetryableError e) = True"

text \<open>What the contract asks for: a handled or a hopeless message is settled, any other comes back.\<close>

datatype verdict = Handled | Discarded | Redelivered

definition verdict_of :: "herr option \<Rightarrow> verdict" where
  "verdict_of outcome =
     (case outcome of None \<Rightarrow> Handled | Some e \<Rightarrow> if IsNonRetryable e then Discarded else Redelivered)"

section \<open>The in-memory broker\<close>

record BrokerServer =
  bs_queues :: "string \<Rightarrow> string list option"
  bs_queueCap :: nat

definition defaultCapacity :: nat where "defaultCapacity = 1000"

definition NewBrokerServer :: "int \<Rightarrow> BrokerServer" where
  "NewBrokerServer capacity =
     \<lparr>bs_queues = Map.empty, bs_queueCap = (if capacity \<le> 0 then defaultCapacity else nat capacity)\<rparr>"

definition broker_queue :: "string \<Rightarrow> BrokerServer \<Rightarrow> string list \<times> BrokerServer" where
  "broker_queue name s =
     (case bs_queues s name of
        Some q \<Rightarrow> (q, s)
      | None \<Rightarrow> ([], s\<lparr>bs_queues := (bs_queues s)(name \<mapsto> [])\<rparr>))"

text \<open>The non-blocking send on the channel.\<close>

definition enqueue_now :: "string \<Rightarrow> string \<Rightarrow> BrokerServer \<Rightarrow> bool \<times> BrokerServer" where
  "enqueue_now name payload s =
     (case broker_queue name s of (q, s1) \<Rightarrow>
        if length q < bs_queueCap s1 then (True, s1\<lparr>bs_queues := (bs_queues s1)(name \<mapsto> q @ [payload])\<rparr>)
        else (False, s1))"

definition Push :: "string \<Rightarrow> string \<Rightarrow> BrokerServer \<Rightarrow> unit res \<times> BrokerServer" where
  "Push name payload s =
     (if name = [] then (Inl (ErrText ''queue name is required''), s)
      else case enqueue_now name payload s of
             (True, s') \<Rightarrow> (Inr (), s')
           | (False, s') \<Rightarrow> (Inl (ErrText (''queue '' @ [CHR 0x22] @ name @ [CHR 0x22] @ '' is full (capacity '' @
                 show_nat (bs_queueCap s) @ '')'')), s'))"

text \<open>
  The loop of \<^verbatim>\<open>Subscribe\<close>: a payload is received from the channel; when sending it on the
  stream fails it goes back to the end of the queue, or is dropped when the queue is full.
\<close>

definition Subscribe_take :: "string \<Rightarrow> BrokerServer \<Rightarrow> string option \<times> BrokerServer" where
  "Subscribe_take name s =
     (if name = [] then (None, s)
      else case broker_queue name s of
             ([], s1) \<Rightarrow> (None, s1)
           | (p # ps, s1) \<Rightarrow> (Some p, s1\<lparr>bs_queues := (bs_queues s1)(name \<mapsto> ps)\<rparr>))"

definition Subscribe_send_failed :: "string \<Rightarrow> string \<Rightarrow> BrokerServer \<Rightarrow> bool \<times> BrokerServer" where
  "Subscribe_send_failed name payload s = enqueue_now name payload s"

text \<open>
  The client: \<open>fail_push\<close> is the failure of the call itself (connection, timeout).
\<close>

definition memory_Publish ::
  "(string \<Rightarrow> string res) \<Rightarrow> gerr option \<Rightarrow> string \<Rightarrow> string \<Rightarrow> BrokerServer \<Rightarrow> unit res \<times> BrokerServer" where
  "memory_Publish marshal fail_push name message s =
     (case marshal message of
        Inl e \<Rightarrow> (Inl (ErrWrap ''failed to marshal message'' e), s)
      | Inr payload \<Rightarrow>
          (case (case fail_push of Some e \<Rightarrow> (Inl e, s) | None \<Rightarrow> Push name payload s) of
             (Inl e, s') \<Rightarrow> (Inl (ErrWrap (''failed to push to queue '' @ name) e), s')
           | (Inr u, s') \<Rightarrow> (Inr (), s')))"

text \<open>After the handler returned: the message is settled, discarded, or pushed again.\<close>

datatype fate = Settled | Thrown | Requeued | Lost

definition memory_settle :: "herr option \<Rightarrow> gerr option \<Rightarrow> string \<Rightarrow> string \<Rightarrow> BrokerServer \<Rightarrow> fate \<times> BrokerServer" where
  "memory_settle outcome fail_push name payload s =
     (case outcome of
        None \<Rightarrow> (Settled, s)
      | Some e \<Rightarrow>
          if IsNonRetryable e then (Thrown, s)
          else (case (case fail_push of Some e \<Rightarrow> (Inl e, s) | None \<Rightarrow> Push name payload s) of
                  (Inl e, s') \<Rightarrow> (Lost, s')
                | (Inr u, s') \<Rightarrow> (Requeued, s')))"

text \<open>The waits between reconnections, in nanoseconds.\<close>

definition doubled_backoff :: "duration \<Rightarrow> duration \<Rightarrow> duration" where
  "doubled_backoff maxBackoff backoff = min (backoff * 2) maxBackoff"

section \<open>Histories of the in-memory broker\<close>

text \<open>
  Besides the server's queues: the messages a subscriber's loop holds, those on their way to a
  client, those a handler works on, and what became of the others.
\<close>

type_synonym bus_msg = "string \<times> string"

record bus =
  bus_server :: BrokerServer
  bus_sending :: "bus_msg list"
  bus_transit :: "bus_msg list"
  bus_handling :: "bus_msg list"
  bus_accepted :: "bus_msg list"
  bus_settled :: "bus_msg list"
  bus_thrown :: "bus_msg list"
  bus_lost :: "bus_msg list"

definition new_bus :: "int \<Rightarrow> bus" where
  "new_bus capacity =
     \<lparr>bus_server = NewBrokerServer capacity, bus_sending = [], bus_transit = [], bus_handling = [],
      bus_accepted = [], bus_settled = [], bus_thrown = [], bus_lost = []\<rparr>"

datatype bus_event =
    EvPush string string
  | EvTake string
  | EvSend nat bool
  | EvReceive nat
  | EvDisconnect nat
  | EvHandled nat "herr option" "gerr option"
  | EvCrash nat

definition remove_nth :: "nat \<Rightarrow> 'a list \<Rightarrow> 'a list" where
  "remove_nth i xs = take i xs @ drop (Suc i) xs"

definition bus_handle :: "bus_msg \<Rightarrow> herr option \<Rightarrow> gerr option \<Rightarrow> bus \<Rightarrow> bus" where
  "bus_handle m outcome fail_push b =
     (case memory_settle outcome fail_push (fst m) (snd m) (bus_server b) of (fate, s') \<Rightarrow>
        let b1 = b\<lparr>bus_server := s'\<rparr>
        in case fate of
             Settled \<Rightarrow> b1\<lparr>bus_settled := bus_settled b @ [m]\<rparr>
           | Thrown \<Rightarrow> b1\<lparr>bus_thrown := bus_thrown b @ [m]\<rparr>
           | Requeued \<Rightarrow> b1
           | Lost \<Rightarrow> b1\<lparr>bus_lost := bus_lost b @ [m]\<rparr>)"

fun bus_step :: "bus \<Rightarrow> bus_event \<Rightarrow> bus" where
  "bus_step b (EvPush q p) =
     (case Push q p (bus_server b) of
        (Inl e, s') \<Rightarrow> b\<lparr>bus_server := s'\<rparr>
      | (Inr u, s') \<Rightarrow> b\<lparr>bus_server := s', bus_accepted := bus_accepted b @ [(q, p)]\<rparr>)"
| "bus_step b (EvTake q) =
     (case Subscribe_take q (bus_server b) of
        (None, s') \<Rightarrow> b\<lparr>bus_server := s'\<rparr>
      | (Some p, s') \<Rightarrow> b\<lparr>bus_server := s', bus_sending := bus_sending b @ [(q, p)]\<rparr>)"
| "bus_step b (EvSend i ok) =
     (if length (bus_sending b) \<le> i then b
      else let m = bus_sending b ! i; b1 = b\<lparr>bus_sending := remove_nth i (bus_sending b)\<rparr>
           in if ok then b1\<lparr>bus_transit := bus_transit b @ [m]\<rparr>
              else (case Subscribe_send_failed (fst m) (snd m) (bus_server b) of
                      (True, s') \<Rightarrow> b1\<lparr>bus_server := s'\<rparr>
                    | (False, s') \<Rightarrow> b1\<lparr>bus_server := s', bus_lost := bus_lost b @ [m]\<rparr>))"
| "bus_step b (EvReceive i) =
     (if length (bus_transit b) \<le> i then b
      else b\<lparr>bus_transit := remove_nth i (bus_transit b), bus_handling := bus_handling b @ [bus_transit b ! i]\<rparr>)"
| "bus_step b (EvDisconnect i) =
     (if length (bus_transit b) \<le> i then b
      else b\<lparr>bus_transit := remove_nth i (bus_transit b), bus_lost := bus_lost b @ [bus_transit b ! i]\<rparr>)"
| "bus_step b (EvHandled i outcome fail_push) =
     (if length (bus_handling b) \<le> i then b
      else bus_handle (bus_handling b ! i) outcome fail_push (b\<lparr>bus_handling := remove_nth i (bus_handling b)\<rparr>))"
| "bus_step b (EvCrash i) =
     (if length (bus_handling b) \<le> i then b
      else b\<lparr>bus_handling := remove_nth i (bus_handling b), bus_lost := bus_lost b @ [bus_handling b ! i]\<rparr>)"

definition queued :: "BrokerServer \<Rightarrow> string \<Rightarrow> string list" where
  "queued s name = (case bs_queues s name of Some q \<Rightarrow> q | None \<Rightarrow> [])"

text \<open>The messages of one queue among a list of messages.\<close>

definition of_queue :: "string \<Rightarrow> bus_msg list \<Rightarrow> string multiset" where
  "of_queue q ms = image_mset snd (filter_mset (\<lambda>m. fst m = q) (mset ms))"

definition bus_inv :: "bus \<Rightarrow> bool" where
  "bus_inv b \<longleftrightarrow>
     (\<forall>q. length (queued (bus_server b) q) \<le> bs_queueCap (bus_server b) \<and>
        of_queue q (bus_accepted b) =
          mset (queued (bus_server b) q) + of_queue q (bus_sending b) + of_queue q (bus_transit b) + of_queue q (bus_handling b) +
          of_queue q (bus_settled b) + of_queue q (bus_thrown b) + of_queue q (bus_lost b))"

lemma of_queue_simps [simp]:
  "of_queue q [] = {#}"
  "of_queue q (ms @ ns) = of_queue q ms + of_queue q ns"
  "of_queue q [m] = (if fst m = q then {#snd m#} else {#})"
  by (simp_all add: of_queue_def)

lemma mset_remove_nth: "i < length xs \<Longrightarrow> mset xs = add_mset (xs ! i) (mset (remove_nth i xs))"
proof -
  assume "i < length xs"
  then have "xs = take i xs @ xs ! i # drop (Suc i) xs" by (rule id_take_nth_drop)
  then have "mset xs = mset (take i xs @ xs ! i # drop (Suc i) xs)" by simp
  then show ?thesis by (simp add: remove_nth_def)
qed

lemma of_queue_remove:
  "i < length ms \<Longrightarrow> of_queue q ms = of_queue q (remove_nth i ms) + (if fst (ms ! i) = q then {#snd (ms ! i)#} else {#})"
  by (simp add: of_queue_def mset_remove_nth [of i ms])

lemma queue_cap [simp]: "bs_queueCap (snd (broker_queue n s)) = bs_queueCap s"
  by (simp add: broker_queue_def split: option.splits)

lemma enqueue_now_spec:
  assumes "enqueue_now n p s = (acc, s')"
  shows "bs_queueCap s' = bs_queueCap s \<and> (acc \<longleftrightarrow> length (queued s n) < bs_queueCap s) \<and>
     (\<forall>q. queued s' q = queued s q @ (if acc \<and> q = n then [p] else []))"
  using assms by (auto simp: enqueue_now_def broker_queue_def queued_def split: option.splits if_splits)

lemma take_spec:
  assumes "Subscribe_take n s = (r, s')"
  shows "bs_queueCap s' = bs_queueCap s \<and>
     (case r of None \<Rightarrow> (\<forall>q. queued s' q = queued s q)
      | Some p \<Rightarrow> \<forall>q. queued s q = (if q = n then p # queued s' q else queued s' q))"
  using assms by (auto simp: Subscribe_take_def broker_queue_def queued_def split: option.splits if_splits list.splits)

lemma Push_spec:
  assumes "Push n p s = (r, s')"
  shows "bs_queueCap s' = bs_queueCap s \<and>
     (r = Inr () \<longleftrightarrow> n \<noteq> [] \<and> length (queued s n) < bs_queueCap s) \<and>
     (\<forall>q. queued s' q = queued s q @ (if r = Inr () \<and> q = n then [p] else []))"
proof (cases "n = []")
  case False
  obtain d s1 where t: "enqueue_now n p s = (d, s1)" by (rule prod.exhaust)
  show ?thesis using assms False t enqueue_now_spec [OF t] by (cases d) (auto simp: Push_def)
qed (use assms in \<open>auto simp: Push_def\<close>)

lemma settle_spec:
  assumes "memory_settle r f n p s = (fate, s')"
  shows "bs_queueCap s' = bs_queueCap s \<and>
     (\<forall>q. queued s' q = queued s q @ (if fate = Requeued \<and> q = n then [p] else [])) \<and>
     (fate = Requeued \<longrightarrow> length (queued s n) < bs_queueCap s) \<and>
     (fate = Settled \<longleftrightarrow> verdict_of r = Handled) \<and> (fate = Thrown \<longleftrightarrow> verdict_of r = Discarded) \<and>
     (fate = Lost \<longleftrightarrow> verdict_of r = Redelivered \<and> (f \<noteq> None \<or> fst (Push n p s) \<noteq> Inr ()))"
proof (cases "verdict_of r = Redelivered \<and> f = None")
  case True
  then obtain e where r: "r = Some e" "\<not> IsNonRetryable e" by (auto simp: verdict_of_def split: option.splits if_splits)
  obtain x s1 where P: "Push n p s = (x, s1)" by (rule prod.exhaust)
  then show ?thesis using assms True r Push_spec [OF P] by (cases x) (auto simp: memory_settle_def verdict_of_def)
next
  case False
  then show ?thesis using assms by (auto simp: memory_settle_def verdict_of_def split: option.splits if_splits)
qed

lemmas bus_specs = Push_spec take_spec enqueue_now_spec settle_spec

text \<open>A step with a message that leaves one place for another.\<close>

lemma bus_handle_inv:
  assumes "\<And>q. length (queued (bus_server b) q) \<le> bs_queueCap (bus_server b)"
    and "\<And>q. of_queue q (bus_accepted b) = mset (queued (bus_server b) q) + of_queue q (bus_sending b) + of_queue q (bus_transit b) +
      of_queue q (bus_handling b) + of_queue q (bus_settled b) + of_queue q (bus_thrown b) + of_queue q (bus_lost b) +
      (if fst m = q then {#snd m#} else {#})"
  shows "bus_inv (bus_handle m r f b)"
proof -
  obtain fate s' where S: "memory_settle r f (fst m) (snd m) (bus_server b) = (fate, s')" by (rule prod.exhaust)
  note spec = settle_spec [OF S]
  have len: "length (queued s' q) \<le> bs_queueCap s'" for q
    using spec assms(1) [of q] by (cases "q = fst m") auto
  show ?thesis using len spec assms(2) by (cases fate) (auto simp: bus_handle_def S bus_inv_def)
qed

lemma bus_inv_step: "bus_inv b \<Longrightarrow> bus_inv (bus_step b e)"
proof (induction b e rule: bus_step.induct)
  case (1 b n p)
  obtain r s' where P: "Push n p (bus_server b) = (r, s')" by (rule prod.exhaust)
  have "length (queued s' q) \<le> bs_queueCap s'" for q
    using Push_spec [OF P] 1 by (cases "q = n") (auto simp: bus_inv_def Suc_le_eq)
  then show ?case using Push_spec [OF P] 1 P by (cases r) (auto simp: bus_inv_def)
next
  case (2 b n)
  obtain r s' where T: "Subscribe_take n (bus_server b) = (r, s')" by (rule prod.exhaust)
  show ?case
  proof (cases r)
    case None
    then show ?thesis using take_spec [OF T] 2 T by (auto simp: bus_inv_def)
  next
    case (Some p)
    have q: "queued (bus_server b) q = (if q = n then p # queued s' q else queued s' q)" for q
      using take_spec [OF T] Some by simp
    have "length (queued s' q) \<le> bs_queueCap s'" for q
      using take_spec [OF T] 2 q [of q] unfolding bus_inv_def by (cases "q = n") (auto dest: spec [of _ q])
    then show ?thesis using 2 T Some q by (auto simp: bus_inv_def)
  qed
next
  case (3 b i ok)
  show ?case
  proof (cases "i < length (bus_sending b) \<and> \<not> ok")
    case True
    let ?m = "bus_sending b ! i"
    obtain acc s' where T: "enqueue_now (fst ?m) (snd ?m) (bus_server b) = (acc, s')" by (rule prod.exhaust)
    have "length (queued s' q) \<le> bs_queueCap s'" for q
      using enqueue_now_spec [OF T] 3 by (cases "q = fst ?m") (auto simp: bus_inv_def Suc_le_eq)
    then show ?thesis using True enqueue_now_spec [OF T] 3 T of_queue_remove [of i "bus_sending b"]
      by (cases acc) (auto simp: bus_inv_def Let_def Subscribe_send_failed_def)
  next
    case False
    then show ?thesis using 3 of_queue_remove [of i "bus_sending b"] by (cases "i < length (bus_sending b)") (auto simp: bus_inv_def Let_def)
  qed
next
  case (4 b i)
  then show ?case using of_queue_remove [of i "bus_transit b"] by (cases "i < length (bus_transit b)") (auto simp: bus_inv_def)
next
  case (5 b i)
  then show ?case using of_queue_remove [of i "bus_transit b"] by (cases "i < length (bus_transit b)") (auto simp: bus_inv_def)
next
  case (6 b i r f)
  show ?case
  proof (cases "i < length (bus_handling b)")
    case True
    then have "bus_inv (bus_handle (bus_handling b ! i) r f (b\<lparr>bus_handling := remove_nth i (bus_handling b)\<rparr>))"
      using 6 of_queue_remove [OF True] by (intro bus_handle_inv) (auto simp: bus_inv_def)
    then show ?thesis using True by simp
  qed (use 6 in simp)
next
  case (7 b i)
  then show ?case using of_queue_remove [of i "bus_handling b"] by (cases "i < length (bus_handling b)") (auto simp: bus_inv_def)
qed

interpretation broker: inv_machine bus_step bus_inv
  by unfold_locales (rule bus_inv_step)

lemma new_bus_inv: "bus_inv (new_bus c)"
  by (simp add: bus_inv_def new_bus_def NewBrokerServer_def queued_def)

text \<open>The events that lose a message.\<close>

definition full :: "string \<Rightarrow> bus \<Rightarrow> bool" where
  "full q b \<longleftrightarrow> bs_queueCap (bus_server b) \<le> length (queued (bus_server b) q)"

fun losing :: "bus \<Rightarrow> bus_event \<Rightarrow> bool" where
  "losing b (EvPush q p) = False"
| "losing b (EvTake q) = False"
| "losing b (EvSend i ok) = (i < length (bus_sending b) \<and> \<not> ok \<and> full (fst (bus_sending b ! i)) b)"
| "losing b (EvReceive i) = False"
| "losing b (EvDisconnect i) = (i < length (bus_transit b))"
| "losing b (EvHandled i r f) =
     (i < length (bus_handling b) \<and> verdict_of r = Redelivered \<and>
      (f \<noteq> None \<or> fst (bus_handling b ! i) = [] \<or> full (fst (bus_handling b ! i)) b))"
| "losing b (EvCrash i) = (i < length (bus_handling b))"

fun losses :: "bus \<Rightarrow> bus_event list \<Rightarrow> nat" where
  "losses b [] = 0"
| "losses b (e # es) = (if losing b e then 1 else 0) + losses (bus_step b e) es"

lemma bus_handle_lost:
  "bus_lost (bus_handle m r f b) =
     bus_lost b @ (if fst (memory_settle r f (fst m) (snd m) (bus_server b)) = Lost then [m] else [])"
  by (cases "memory_settle r f (fst m) (snd m) (bus_server b)"; cases "fst (memory_settle r f (fst m) (snd m) (bus_server b))")
     (simp_all add: bus_handle_def)

lemma step_losses: "length (bus_lost (bus_step b e)) = length (bus_lost b) + (if losing b e then 1 else 0)"
proof (induction b e rule: bus_step.induct)
  case (3 b i ok)
  let ?m = "bus_sending b ! i"
  obtain acc s' where T: "enqueue_now (fst ?m) (snd ?m) (bus_server b) = (acc, s')" by (rule prod.exhaust)
  show ?case using enqueue_now_spec [OF T] T by (cases acc) (auto simp: Let_def Subscribe_send_failed_def full_def)
next
  case (6 b i r f)
  let ?m = "bus_handling b ! i"
  obtain fate s' where S: "memory_settle r f (fst ?m) (snd ?m) (bus_server b) = (fate, s')" by (rule prod.exhaust)
  obtain x s1 where P: "Push (fst ?m) (snd ?m) (bus_server b) = (x, s1)" by (rule prod.exhaust)
  have "fate = Lost \<longleftrightarrow> verdict_of r = Redelivered \<and> (f \<noteq> None \<or> fst ?m = [] \<or> full (fst ?m) b)"
    using settle_spec [OF S] Push_spec [OF P] P by (auto simp: full_def)
  then show ?case by (simp add: bus_handle_lost S)
qed (auto split: prod.splits sum.splits option.splits)

lemma run_losses: "length (bus_lost (foldl bus_step b es)) = length (bus_lost b) + losses b es"
  by (induction es arbitrary: b) (simp_all add: step_losses)

lemma bus_handle_cap: "bs_queueCap (bus_server (bus_handle m r f b)) = bs_queueCap (bus_server b)"
proof -
  obtain fate s' where S: "memory_settle r f (fst m) (snd m) (bus_server b) = (fate, s')" by (rule prod.exhaust)
  then show ?thesis using settle_spec [OF S] by (cases fate) (simp_all add: bus_handle_def S)
qed

lemma step_cap: "bs_queueCap (bus_server (bus_step b e)) = bs_queueCap (bus_server b)"
proof (induction b e rule: bus_step.induct)
  case (3 b i ok)
  show ?case by (auto simp: Let_def Subscribe_send_failed_def split: prod.splits bool.splits dest: enqueue_now_spec)
qed (auto simp: bus_handle_cap split: prod.splits sum.splits option.splits dest: Push_spec take_spec)

lemma run_cap: "bs_queueCap (bus_server (foldl bus_step b es)) = bs_queueCap (bus_server b)"
  by (induction es arbitrary: b) (simp_all add: step_cap)

text \<open>
  C19. The in-memory broker neither invents, duplicates nor silently loses messages.  However pushes,
  subscribers, failing sends, disconnections, crashes and failing handlers interleave, every accepted
  message is in exactly one place: queued, held by a subscriber's loop, on the wire, being handled,
  settled, discarded as hopeless, or lost; no queue exceeds the capacity; and the number of lost
  messages is the number of disconnections and crashes that hit a message and of requeues that were
  refused.
\<close>

theorem broker_conserves:
  "bus_inv (foldl bus_step (new_bus capacity) events) \<and>
   bs_queueCap (bus_server (foldl bus_step (new_bus capacity) events)) = (if capacity \<le> 0 then 1000 else nat capacity) \<and>
   length (bus_lost (foldl bus_step (new_bus capacity) events)) = losses (new_bus capacity) events"
proof (intro conjI)
  show "bus_inv (foldl bus_step (new_bus capacity) events)" by (rule broker.run_inv) (rule new_bus_inv)
  show "bs_queueCap (bus_server (foldl bus_step (new_bus capacity) events)) = (if capacity \<le> 0 then 1000 else nat capacity)"
    by (simp add: run_cap) (simp add: new_bus_def NewBrokerServer_def defaultCapacity_def)
  show "length (bus_lost (foldl bus_step (new_bus capacity) events)) = losses (new_bus capacity) events"
    by (simp add: run_losses) (simp add: new_bus_def)
qed

text \<open>A history that uses the queue's only slot: the message that comes back finds it taken.\<close>

definition crowded :: "bus_event list" where
  "crowded = [EvPush ''q'' ''a'', EvTake ''q'', EvSend 0 True, EvReceive 0, EvPush ''q'' ''b'',
     EvHandled 0 (Some (HErr (ErrText ''timeout''))) None]"

theorem broker_conserves_witness:
  "bus_inv (foldl bus_step (new_bus 1) crowded) \<and> length (bus_lost (foldl bus_step (new_bus 1) crowded)) = 1"
proof -
  have L: "losses (new_bus 1) crowded = 1" by code_simp
  show ?thesis using broker_conserves [of 1 crowded] unfolding L by blast
qed

section \<open>RabbitMQ\<close>

text \<open>
  One attempt of \<^verbatim>\<open>Publish\<close>: what the library answers at each stage, and the context's error when it
  ends during the wait that follows a failed attempt.
\<close>

record amqp_attempt =
  at_ensure :: "gerr option"
  at_channel :: "gerr option"
  at_declare :: "gerr option"
  at_publish :: "gerr option"
  at_ctx :: "gerr option"

definition attempt_error :: "amqp_attempt \<Rightarrow> (string \<times> gerr) option" where
  "attempt_error a =
     (case at_ensure a of Some e \<Rightarrow> Some (''failed to ensure connection'', e)
      | None \<Rightarrow> (case at_channel a of Some e \<Rightarrow> Some (''failed to open channel'', e)
      | None \<Rightarrow> (case at_declare a of Some e \<Rightarrow> Some (''failed to declare queue'', e)
      | None \<Rightarrow> (case at_publish a of Some e \<Rightarrow> Some (''failed to publish message'', e)
      | None \<Rightarrow> None))))"

definition maxRetries :: nat where "maxRetries = 3"

text \<open>The attempts that are left, counting from \<open>k\<close>, and the waits between them.\<close>

fun publish_attempts :: "(nat \<Rightarrow> amqp_attempt) \<Rightarrow> nat \<Rightarrow> nat \<Rightarrow> duration \<Rightarrow> unit res \<times> duration list" where
  "publish_attempts env k 0 backoff = (Inl (ErrText (''failed to publish after '' @ show_nat maxRetries @ '' attempts'')), [])"
| "publish_attempts env k (Suc left) backoff =
     (case attempt_error (env k) of
        None \<Rightarrow> (Inr (), [])
      | Some (what, e) \<Rightarrow>
          if left = 0 then (Inl (ErrWrap (what @ '' after '' @ show_nat maxRetries @ '' attempts'') e), [])
          else (case at_ctx (env k) of
                  Some c \<Rightarrow> (Inl c, [])
                | None \<Rightarrow> (case publish_attempts env (Suc k) left (backoff * 2) of (r, ws) \<Rightarrow> (r, backoff # ws))))"

definition rabbit_Publish :: "(string \<Rightarrow> string res) \<Rightarrow> (nat \<Rightarrow> amqp_attempt) \<Rightarrow> string \<Rightarrow> unit res \<times> duration list" where
  "rabbit_Publish marshal env message =
     (case marshal message of
        Inl e \<Rightarrow> (Inl (ErrWrap ''failed to marshal message'' e), [])
      | Inr body \<Rightarrow> publish_attempts env 0 maxRetries (500 * Millisecond))"

text \<open>
  The rounds of \<^verbatim>\<open>Consume\<close>: the connection or the set-up of the channel fails, or a session handles
  deliveries until it is closed.  A delivery is its body and what the handler returned.
\<close>

datatype settlement = Ack | Nack bool

definition rabbit_settle :: "herr option \<Rightarrow> settlement" where
  "rabbit_settle outcome =
     (case outcome of None \<Rightarrow> Ack | Some e \<Rightarrow> if IsNonRetryable e then Nack False else Nack True)"

datatype amqp_round = EnsureFails | SetupFails | Session "(string \<times> herr option) list"

fun rabbit_Consume :: "duration \<Rightarrow> amqp_round list \<Rightarrow> (string \<times> settlement) list \<times> duration list" where
  "rabbit_Consume backoff [] = ([], [])"
| "rabbit_Consume backoff (EnsureFails # rounds) =
     (case rabbit_Consume (doubled_backoff (30 * Second) backoff) rounds of (ss, ws) \<Rightarrow> (ss, backoff # ws))"
| "rabbit_Consume backoff (SetupFails # rounds) =
     (case rabbit_Consume (doubled_backoff (30 * Second) Second) rounds of (ss, ws) \<Rightarrow> (ss, Second # ws))"
| "rabbit_Consume backoff (Session deliveries # rounds) =
     (case rabbit_Consume Second rounds of
        (ss, ws) \<Rightarrow> (map (\<lambda>(body, r). (body, rabbit_settle r)) deliveries @ ss, Second # ws))"

fun round_deliveries :: "amqp_round \<Rightarrow> (string \<times> herr option) list" where
  "round_deliveries (Session ds) = ds"
| "round_deliveries _ = []"

lemma publish_attempts_spec:
  "fst (publish_attempts env k n b) = Inr () \<longleftrightarrow>
     (\<exists>i < n. attempt_error (env (k + i)) = None \<and> (\<forall>j < i. attempt_error (env (k + j)) \<noteq> None \<and> at_ctx (env (k + j)) = None))"
proof (induction n arbitrary: k b)
  case (Suc n)
  show ?case
  proof (cases "attempt_error (env k)")
    case None
    then show ?thesis by (auto intro!: exI [of _ 0])
  next
    case (Some we)
    obtain what e where we: "we = (what, e)" by (rule prod.exhaust)
    have shift: "(\<exists>i < Suc n. attempt_error (env (k + i)) = None \<and>
          (\<forall>j < i. attempt_error (env (k + j)) \<noteq> None \<and> at_ctx (env (k + j)) = None)) \<longleftrightarrow>
        at_ctx (env k) = None \<and> (\<exists>i < n. attempt_error (env (Suc k + i)) = None \<and>
          (\<forall>j < i. attempt_error (env (Suc k + j)) \<noteq> None \<and> at_ctx (env (Suc k + j)) = None))"
      (is "?L \<longleftrightarrow> ?R")
    proof
      assume ?L
      then obtain i where i: "i < Suc n" "attempt_error (env (k + i)) = None"
        "\<forall>j < i. attempt_error (env (k + j)) \<noteq> None \<and> at_ctx (env (k + j)) = None" by blast
      then obtain i' where i': "i = Suc i'" using Some by (cases i) auto
      have "attempt_error (env (Suc k + j)) \<noteq> None \<and> at_ctx (env (Suc k + j)) = None" if "j < i'" for j
        using i(3) [rule_format, of "Suc j"] that i' by simp
      moreover have "at_ctx (env k) = None" using i(3) i' by force
      ultimately show ?R using i(1,2) i' by (intro conjI exI [of _ i']) auto
    next
      assume ?R
      then obtain i where i: "i < n" "attempt_error (env (Suc k + i)) = None" "at_ctx (env k) = None"
        "\<forall>j < i. attempt_error (env (Suc k + j)) \<noteq> None \<and> at_ctx (env (Suc k + j)) = None" by blast
      have "attempt_error (env (k + j)) \<noteq> None \<and> at_ctx (env (k + j)) = None" if "j < Suc i" for j
        using i(3,4) Some that by (cases j) auto
      then show ?L using i(1,2) by (intro exI [of _ "Suc i"]) auto
    qed
    have "fst (publish_attempts env k (Suc n) b) = Inr () \<longleftrightarrow>
        at_ctx (env k) = None \<and> fst (publish_attempts env (Suc k) n (b * 2)) = Inr ()"
      unfolding publish_attempts.simps(2) [of env k n b] Some we
      by (cases "publish_attempts env (Suc k) n (b * 2)"; cases "at_ctx (env k)"; cases n) auto
    then show ?thesis unfolding shift using Suc.IH [of "Suc k" "b * 2"] by blast
  qed
qed simp

lemma publish_waits: "prefix (snd (publish_attempts env k n b)) (map (\<lambda>i. b * 2 ^ i) [0 ..< n - 1])"
proof (induction n arbitrary: k b)
  case (Suc n)
  have up: "map (\<lambda>i. b * 2 ^ i) [0 ..< n] = b # map (\<lambda>i. b * 2 * 2 ^ i) [0 ..< n - 1]" if "n > 0"
    using that by (cases n) (simp_all add: upt_conv_Cons map_Suc_upt [symmetric] del: upt_Suc)
  show ?case using Suc.IH [of "Suc k" "b * 2"] up by (cases n) (auto split: option.splits prod.splits)
qed simp

lemma waits_bounded:
  "0 < b \<Longrightarrow> b \<le> 30 * Second \<Longrightarrow> w \<in> set (snd (rabbit_Consume b rounds)) \<Longrightarrow> 0 < w \<and> w \<le> 30 * Second"
proof (induction b rounds rule: rabbit_Consume.induct)
  case (2 b rounds)
  then show ?case by (auto simp: doubled_backoff_def Second_def split: prod.splits)
next
  case (3 b rounds)
  then show ?case by (auto simp: doubled_backoff_def Second_def split: prod.splits)
next
  case (4 b ds rounds)
  then show ?case by (auto simp: Second_def split: prod.splits)
qed simp

lemma rabbit_settles:
  "fst (rabbit_Consume b rounds) = map (\<lambda>(body, r). (body, rabbit_settle r)) (concat (map round_deliveries rounds))"
  by (induction b rounds rule: rabbit_Consume.induct) (auto split: prod.splits)

lemma rabbit_settle_verdict:
  "rabbit_settle r = (case verdict_of r of Handled \<Rightarrow> Ack | Discarded \<Rightarrow> Nack False | Redelivered \<Rightarrow> Nack True)"
  by (simp add: rabbit_settle_def verdict_of_def split: option.splits)

text \<open>
  C25. The RabbitMQ client keeps the contract of the consumers and retries boundedly.  Whatever
  connections and channels fail, every delivery is settled exactly once, in order: acknowledged when
  handled, rejected for good when hopeless, put back otherwise; the waits between rounds are positive
  and at most thirty seconds.  A publication succeeds exactly when one of at most three attempts does
  before the context ends, after waits of half a second and one second.
\<close>

theorem rabbit_client:
  "fst (rabbit_Consume Second rounds) =
     map (\<lambda>(body, r). (body, case verdict_of r of Handled \<Rightarrow> Ack | Discarded \<Rightarrow> Nack False | Redelivered \<Rightarrow> Nack True))
       (concat (map round_deliveries rounds)) \<and>
   set (snd (rabbit_Consume Second rounds)) \<subseteq> {1 .. 30 * Second} \<and>
   (fst (rabbit_Publish marshal env message) = Inr () \<longleftrightarrow>
      (\<exists>body. marshal message = Inr body) \<and>
      (\<exists>k < 3. attempt_error (env k) = None \<and> (\<forall>i \<in> {..<k}. attempt_error (env i) \<noteq> None \<and> at_ctx (env i) = None))) \<and>
   prefix (snd (rabbit_Publish marshal env message)) [500 * Millisecond, 1000 * Millisecond]"
proof (intro conjI)
  show "fst (rabbit_Consume Second rounds) =
     map (\<lambda>(body, r). (body, case verdict_of r of Handled \<Rightarrow> Ack | Discarded \<Rightarrow> Nack False | Redelivered \<Rightarrow> Nack True))
       (concat (map round_deliveries rounds))"
    by (simp add: rabbit_settles rabbit_settle_verdict)
  have "0 < w \<and> w \<le> 30 * Second" if "w \<in> set (snd (rabbit_Consume Second rounds))" for w
    using waits_bounded [OF _ _ that] by (simp add: Second_def)
  then show "set (snd (rabbit_Consume Second rounds)) \<subseteq> {1 .. 30 * Second}" by fastforce
  show "fst (rabbit_Publish marshal env message) = Inr () \<longleftrightarrow>
      (\<exists>body. marshal message = Inr body) \<and>
      (\<exists>k < 3. attempt_error (env k) = None \<and> (\<forall>i \<in> {..<k}. attempt_error (env i) \<noteq> None \<and> at_ctx (env i) = None))"
    using publish_attempts_spec [of env 0 maxRetries "500 * Millisecond"]
    by (cases "marshal message") (simp_all add: rabbit_Publish_def maxRetries_def Ball_def)
  have "map (\<lambda>i. 500 * Millisecond * 2 ^ i) [0 ..< maxRetries - 1] = [500 * Millisecond, 1000 * Millisecond]"
    by (simp add: maxRetries_def upt_rec)
  then show "prefix (snd (rabbit_Publish marshal env message)) [500 * Millisecond, 1000 * Millisecond]"
    using publish_waits [of env 0 maxRetries "500 * Millisecond"]
    by (cases "marshal message") (simp_all add: rabbit_Publish_def)
qed

definition flaky :: "nat \<Rightarrow> amqp_attempt" where
  "flaky k = \<lparr>at_ensure = (if k = 0 then Some (ErrText ''refused'') else None), at_channel = None, at_declare = None,
     at_publish = None, at_ctx = None\<rparr>"

theorem rabbit_client_witness:
  "fst (rabbit_Publish Inr flaky ''m'') = Inr () \<and>
   fst (rabbit_Consume Second [EnsureFails, Session [(''a'', None), (''b'', Some (HErr (ErrText ''timeout'')))]]) =
     [(''a'', Ack), (''b'', Nack True)]"
  using rabbit_client [of "[EnsureFails, Session [(''a'', None), (''b'', Some (HErr (ErrText ''timeout'')))]]" Inr flaky "''m''"]
  by (auto simp: verdict_of_def flaky_def attempt_error_def intro!: exI [of _ 1])

section \<open>Kafka\<close>

text \<open>
  One partition: the reader fetches its messages in order of their offsets, and a commit of a message
  sets the position of the consumer group behind it (\<open>k_position\<close>), where the next consumer starts.
  \<open>k_fetched\<close> is the offset of the next message of this session, \<open>k_retryBackoff\<close> the variable of the
  loop and \<open>k_waits\<close> the pauses it made.
\<close>

record kafka_loop =
  k_fetched :: nat
  k_position :: nat
  k_retryBackoff :: duration
  k_waits :: "duration list"

definition kafka_start :: "nat \<Rightarrow> kafka_loop" where
  "kafka_start position = \<lparr>k_fetched = position, k_position = position, k_retryBackoff = Second, k_waits = []\<rparr>"

definition kafka_commit :: "gerr option \<Rightarrow> nat \<Rightarrow> kafka_loop \<Rightarrow> kafka_loop" where
  "kafka_commit fail offset s = (case fail of Some e \<Rightarrow> s | None \<Rightarrow> s\<lparr>k_position := Suc offset\<rparr>)"

definition kafka_consume :: "kafka_loop \<Rightarrow> herr option \<times> gerr option \<Rightarrow> kafka_loop" where
  "kafka_consume s d =
     (case d of (outcome, fail_commit) \<Rightarrow>
      let offset = k_fetched s; s1 = s\<lparr>k_fetched := Suc offset, k_retryBackoff := Second\<rparr>
      in case outcome of
           None \<Rightarrow> kafka_commit fail_commit offset s1
         | Some e \<Rightarrow>
             if IsNonRetryable e then kafka_commit fail_commit offset s1
             else s1\<lparr>k_waits := k_waits s1 @ [k_retryBackoff s1],
                     k_retryBackoff := doubled_backoff (30 * Second) (k_retryBackoff s1)\<rparr>)"

definition kafka_session :: "nat \<Rightarrow> (herr option \<times> gerr option) list \<Rightarrow> kafka_loop" where
  "kafka_session position ds = foldl kafka_consume (kafka_start position) ds"

text \<open>The deliveries whose commit reached the broker.\<close>

definition committed :: "herr option \<times> gerr option \<Rightarrow> bool" where
  "committed d \<longleftrightarrow> verdict_of (fst d) \<noteq> Redelivered \<and> snd d = None"

lemma kafka_consume_fields:
  "k_fetched (kafka_consume s d) = Suc (k_fetched s)"
  "k_position (kafka_consume s d) = (if committed d then Suc (k_fetched s) else k_position s)"
  "k_waits (kafka_consume s d) = k_waits s @ (if verdict_of (fst d) = Redelivered then [Second] else [])"
  by (cases d, auto simp: kafka_consume_def kafka_commit_def committed_def verdict_of_def Let_def split: option.splits)+

lemma kafka_session_snoc: "kafka_session p (ds @ [d]) = kafka_consume (kafka_session p ds) d"
  by (simp add: kafka_session_def)

lemma kafka_fetched: "k_fetched (kafka_session p ds) = p + length ds"
  by (induction ds rule: rev_induct) (simp_all add: kafka_session_snoc kafka_consume_fields, simp add: kafka_session_def kafka_start_def)

lemma kafka_position:
  "j < length ds \<Longrightarrow> k_position (kafka_session p ds) \<le> p + j \<longleftrightarrow> (\<forall>i. j \<le> i \<and> i < length ds \<longrightarrow> \<not> committed (ds ! i))"
proof (induction ds arbitrary: j rule: rev_induct)
  case (snoc d ds)
  show ?case
  proof (cases "committed d")
    case True
    then have "k_position (kafka_session p (ds @ [d])) = Suc (p + length ds)"
      by (simp add: kafka_session_snoc kafka_consume_fields kafka_fetched)
    moreover have "committed ((ds @ [d]) ! length ds)" using True by simp
    ultimately show ?thesis using snoc.prems by (auto intro!: exI [of _ "length ds"])
  next
    case False
    then have pos: "k_position (kafka_session p (ds @ [d])) = k_position (kafka_session p ds)"
      by (simp add: kafka_session_snoc kafka_consume_fields)
    have le: "k_position (kafka_session p ds) \<le> p + length ds" for ds
      by (induction ds rule: rev_induct)
         (simp_all add: kafka_session_snoc kafka_consume_fields kafka_fetched, simp add: kafka_session_def kafka_start_def)
    show ?thesis
    proof (cases "j < length ds")
      case True
      then show ?thesis using snoc.IH [OF True] False pos by (auto simp: nth_append less_Suc_eq)
    next
      case j: False
      then have "j = length ds" using snoc.prems by simp
      then show ?thesis using pos le [of ds] False by (auto simp: nth_append less_Suc_eq)
    qed
  qed
qed simp

text \<open>
  C39. The Kafka client loses messages whose handling failed.  After a restart the group gets a
  message of the session again exactly when neither it nor any later message of the partition was
  committed; so a message that failed for a passing reason is gone as soon as a later one succeeds,
  although the loop left it uncommitted to have it delivered again.
\<close>

theorem kafka_redelivery:
  assumes "j < length ds"
  shows "k_position (kafka_session p ds) \<le> p + j \<longleftrightarrow>
    (\<forall>i. j \<le> i \<and> i < length ds \<longrightarrow> verdict_of (fst (ds ! i)) = Redelivered \<or> snd (ds ! i) \<noteq> None)"
  using kafka_position [OF assms] by (auto simp: committed_def)

theorem kafka_redelivery_witness:
  "\<not> k_position (kafka_session 7 [(Some (HErr (ErrText ''timeout'')), None), (None, None)]) \<le> 7 + 0"
  using kafka_redelivery [of 0 "[(Some (HErr (ErrText ''timeout'')), None), (None, None)]" 7]
  by (auto simp: verdict_of_def intro!: exI [of _ 1])

text \<open>The doubling of the pause has no effect: the variable is reset before every use.\<close>

lemma kafka_waits_constant: "set (k_waits (kafka_session p ds)) \<subseteq> {Second}"
  by (induction ds rule: rev_induct) (auto simp: kafka_session_snoc kafka_consume_fields, simp add: kafka_session_def kafka_start_def)

text \<open>
  The handlers of the workers return plain errors, never \<^verbatim>\<open>NonRetryableError\<close>: a message that
  cannot be decoded is delivered again without end.
\<close>

lemma undecodable_message_returns:
  assumes "fe_decode env body = Inl e"
  shows "\<exists>err. fst (fetch_handleMessage env body w) = Inl err \<and> rabbit_settle (Some (HErr err)) = Nack True"
  using assms by (simp add: fetch_handleMessage_def rabbit_settle_def)

section \<open>Reconnection\<close>

text \<open>
  The outer loops of the in-memory and the Kafka client: each round gives the error of its inner loop,
  and the result is the list of pauses.  The inner loop of the in-memory client ends only with an error
  (of the subscription or of the stream).
\<close>

definition memory_consumeLoop :: "gerr option \<Rightarrow> gerr \<Rightarrow> gerr option" where
  "memory_consumeLoop fail_subscribe stream_error =
     (case fail_subscribe of Some e \<Rightarrow> Some (ErrWrap ''subscribe failed'' e) | None \<Rightarrow> Some (ErrWrap ''stream error'' stream_error))"

fun memory_Consume :: "duration \<Rightarrow> gerr option list \<Rightarrow> duration list" where
  "memory_Consume backoff [] = []"
| "memory_Consume backoff (Some e # rounds) = backoff # memory_Consume (doubled_backoff (30 * Second) backoff) rounds"
| "memory_Consume backoff (None # rounds) = memory_Consume Second rounds"

fun kafka_Consume :: "duration \<Rightarrow> gerr option list \<Rightarrow> duration list" where
  "kafka_Consume backoff [] = []"
| "kafka_Consume backoff (Some e # rounds) = backoff # kafka_Consume (doubled_backoff (30 * Second) backoff) rounds"
| "kafka_Consume backoff (None # rounds) = kafka_Consume backoff rounds"

definition kafka_Publish :: "(string \<Rightarrow> string res) \<Rightarrow> (string \<Rightarrow> gerr option) \<Rightarrow> string \<Rightarrow> string \<Rightarrow> unit res" where
  "kafka_Publish marshal write topic message =
     (case marshal message of
        Inl e \<Rightarrow> Inl (ErrWrap ''failed to marshal message'' e)
      | Inr body \<Rightarrow> (case write body of
           Some e \<Rightarrow> Inl (ErrWrap (''failed to publish to kafka topic '' @ topic) e)
         | None \<Rightarrow> Inr ()))"

text \<open>
  The pauses grow to thirty seconds and stay there for the life of the process, however long the
  sessions in between lasted.
\<close>

lemma pauses_never_shrink:
  assumes "Second \<le> b" and "b \<le> 30 * Second"
  shows "sorted (kafka_Consume b rounds) \<and> set (kafka_Consume b rounds) \<subseteq> {b .. 30 * Second}"
  using assms
proof (induction b rounds rule: kafka_Consume.induct)
  case (2 b e rounds)
  have n: "b \<le> doubled_backoff (30 * Second) b" "doubled_backoff (30 * Second) b \<le> 30 * Second"
    using 2 by (auto simp: doubled_backoff_def Second_def)
  then have "sorted (kafka_Consume (doubled_backoff (30 * Second) b) rounds)"
    "set (kafka_Consume (doubled_backoff (30 * Second) b) rounds) \<subseteq> {doubled_backoff (30 * Second) b .. 30 * Second}"
    using 2 by simp_all
  then show ?case using n 2(3) by fastforce
qed simp_all

lemma memory_rounds_fail: "memory_Consume b (map (\<lambda>(f, e). memory_consumeLoop f e) rs) =
    kafka_Consume b (map (\<lambda>(f, e). memory_consumeLoop f e) rs)"
proof (induction rs arbitrary: b)
  case (Cons r rs)
  obtain f e where "r = (f, e)" by (rule prod.exhaust)
  moreover obtain x where "memory_consumeLoop f e = Some x" by (cases f) (simp_all add: memory_consumeLoop_def)
  ultimately show ?case using Cons.IH by simp
qed simp

end
