(* ===== verification/Sharding.thy ===== *)
theory Sharding
  imports Job_Services
begin

text \<open>
  Sharding of the database: the shard index (\<^verbatim>\<open>infra/persistence/shard.go\<close>), the interceptor that
  puts a job identifier into the context (\<^verbatim>\<open>interceptor/shard_key.go\<close>), the client that routes
  statements to shards (\<^verbatim>\<open>pg/sharded_client.go\<close>, \<^verbatim>\<open>pg/pgdb.go\<close>), the merged rows of a query sent
  to every shard (\<^verbatim>\<open>pg/merged_rows.go\<close>) and the transaction managers.  A shard is a database of any
  type; a context holds the shard key and, inside a transaction, the shard the transaction runs on.
\<close>

unbundle bit_operations_syntax

section \<open>Keys\<close>

text \<open>FNV-1a on 32 bits, \<^verbatim>\<open>hash/fnv\<close>.\<close>

definition fnv_step :: "u32 \<Rightarrow> char \<Rightarrow> u32" where
  "fnv_step h c = (h XOR of_char c) * 16777619"

definition fnv32a :: "string \<Rightarrow> u32" where
  "fnv32a s = foldl fnv_step 2166136261 s"

definition ShardIndex :: "string \<Rightarrow> nat \<Rightarrow> nat" where
  "ShardIndex key numShards = (if numShards \<le> 1 then 0 else unat (fnv32a key mod of_nat numShards))"

record db_ctx =
  ctx_shardKey :: "string option"
  ctx_tx :: "nat option"

definition background :: db_ctx where
  "background = \<lparr>ctx_shardKey = None, ctx_tx = None\<rparr>"

definition WithShardKey :: "db_ctx \<Rightarrow> string \<Rightarrow> db_ctx" where
  "WithShardKey ctx key = ctx\<lparr>ctx_shardKey := Some key\<rparr>"

definition ShardKeyFromContext :: "db_ctx \<Rightarrow> string option" where
  "ShardKeyFromContext ctx =
     (case ctx_shardKey ctx of None \<Rightarrow> None | Some v \<Rightarrow> if v \<noteq> [] then Some v else None)"

text \<open>
  A request: the values of \<^verbatim>\<open>GetJobId\<close> and \<^verbatim>\<open>GetId\<close> when its type has the method.
\<close>

record shard_request =
  req_GetJobId :: "string option"
  req_GetId :: "string option"

definition isJobEndpoint :: "string \<Rightarrow> bool" where
  "isJobEndpoint m \<longleftrightarrow> m \<in> {''/crawler.v1.CrawlerService/GetJob'', ''/crawler.v1.CrawlerService/DeleteJob''}"

definition ShardKeyInterceptor :: "bool \<Rightarrow> string \<Rightarrow> shard_request \<Rightarrow> db_ctx \<Rightarrow> db_ctx" where
  "ShardKeyInterceptor shardingEnabled fullMethod req ctx =
     (if \<not> shardingEnabled then ctx
      else
        let jobID0 = (case req_GetJobId req of Some j \<Rightarrow> j | None \<Rightarrow> []);
            jobID = (if jobID0 = []
                     then (case req_GetId req of
                             Some i \<Rightarrow> if isJobEndpoint fullMethod then i else jobID0
                           | None \<Rightarrow> jobID0)
                     else jobID0)
        in if jobID \<noteq> [] then WithShardKey ctx jobID else ctx)"

section \<open>Routing\<close>

definition resolve :: "db_ctx \<Rightarrow> nat \<Rightarrow> nat" where
  "resolve ctx n = (case ShardKeyFromContext ctx of None \<Rightarrow> 0 | Some key \<Rightarrow> ShardIndex key n)"

text \<open>
  The pool of shard \<open>i\<close> runs a statement in the transaction of the context if there is one,
  whichever shard that transaction belongs to.
\<close>

definition pg_target :: "db_ctx \<Rightarrow> nat \<Rightarrow> nat" where
  "pg_target ctx i = (case ctx_tx ctx of Some j \<Rightarrow> j | None \<Rightarrow> i)"

definition sharded_ExecContext :: "('db \<Rightarrow> 'a res \<times> 'db) \<Rightarrow> db_ctx \<Rightarrow> 'db list \<Rightarrow> 'a res \<times> 'db list" where
  "sharded_ExecContext op ctx shards =
     (let i = pg_target ctx (resolve ctx (length shards))
      in case op (shards ! i) of (r, db') \<Rightarrow> (r, shards[i := db']))"

definition sharded_QueryRowContext :: "('db \<Rightarrow> 'a res) \<Rightarrow> db_ctx \<Rightarrow> 'db list \<Rightarrow> 'a res" where
  "sharded_QueryRowContext q ctx shards = q (shards ! pg_target ctx (resolve ctx (length shards)))"

text \<open>
  A query without a key goes to every shard; the first error in the order of the shards is returned,
  otherwise the rows are merged.
\<close>

fun first_error :: "'a res list \<Rightarrow> 'a list res" where
  "first_error [] = Inr []"
| "first_error (Inl e # rs) = Inl e"
| "first_error (Inr x # rs) = (case first_error rs of Inl e \<Rightarrow> Inl e | Inr xs \<Rightarrow> Inr (x # xs))"

definition fanoutQuery :: "('db \<Rightarrow> 'r list res) \<Rightarrow> db_ctx \<Rightarrow> 'db list \<Rightarrow> 'r list list res" where
  "fanoutQuery q ctx shards = first_error (map (\<lambda>i. q (shards ! pg_target ctx i)) [0 ..< length shards])"

text \<open>
  A set of rows under iteration: the rows to come and the current one.  \<^verbatim>\<open>mergedRows\<close> goes through
  the sets one after the other.
\<close>

type_synonym 'r rows = "'r list \<times> 'r option"

fun rows_Next :: "'r rows \<Rightarrow> bool \<times> 'r rows" where
  "rows_Next ([], c) = (False, ([], None))"
| "rows_Next (r # rs, c) = (True, (rs, Some r))"

record 'r mergedRows =
  mr_sets :: "'r rows list"
  mr_current :: nat

function merged_Next :: "'r mergedRows \<Rightarrow> bool \<times> 'r mergedRows" where
  "merged_Next m =
     (if mr_current m < length (mr_sets m) then
        (case rows_Next (mr_sets m ! mr_current m) of
           (True, s) \<Rightarrow> (True, m\<lparr>mr_sets := (mr_sets m)[mr_current m := s]\<rparr>)
         | (False, s) \<Rightarrow> merged_Next (m\<lparr>mr_sets := (mr_sets m)[mr_current m := s], mr_current := Suc (mr_current m)\<rparr>))
      else (False, m))"
  by pat_completeness auto

termination
  by (relation "measure (\<lambda>m. length (mr_sets m) - mr_current m)") auto

declare merged_Next.simps [simp del]

definition merged_Scan :: "'r mergedRows \<Rightarrow> 'r option" where
  "merged_Scan m = snd (mr_sets m ! mr_current m)"

text \<open>\<^verbatim>\<open>for rows.Next() { rows.Scan(...) }\<close>; the fuel bounds the number of rows.\<close>

fun read_rows :: "nat \<Rightarrow> 'r mergedRows \<Rightarrow> 'r option list option" where
  "read_rows 0 m = None"
| "read_rows (Suc n) m =
     (case merged_Next m of
        (False, m') \<Rightarrow> Some []
      | (True, m') \<Rightarrow> map_option (\<lambda>rs. merged_Scan m' # rs) (read_rows n m'))"

definition merge_rows :: "'r list list \<Rightarrow> 'r mergedRows" where
  "merge_rows sets = \<lparr>mr_sets = map (\<lambda>s. (s, None)) sets, mr_current = 0\<rparr>"

definition sharded_QueryContext :: "('db \<Rightarrow> 'r list res) \<Rightarrow> db_ctx \<Rightarrow> 'db list \<Rightarrow> 'r mergedRows res" where
  "sharded_QueryContext q ctx shards =
     (if ShardKeyFromContext ctx \<noteq> None \<or> length shards = 1
      then bind_res (sharded_QueryRowContext q ctx shards) (\<lambda>rs. Inr (merge_rows [rs]))
      else bind_res (fanoutQuery q ctx shards) (\<lambda>sets. Inr (merge_rows sets)))"

text \<open>The transaction runs on the shard of its context; every statement of its body runs there.\<close>

definition sharded_transaction ::
  "gerr option \<Rightarrow> gerr option \<Rightarrow> (db_ctx \<Rightarrow> 'db list \<Rightarrow> 'a res \<times> 'db list) \<Rightarrow> db_ctx \<Rightarrow> 'db list \<Rightarrow> 'a res \<times> 'db list" where
  "sharded_transaction fail_begin fail_commit body ctx shards =
     (case ctx_tx ctx of
        Some j \<Rightarrow> body ctx shards
      | None \<Rightarrow> transaction fail_begin fail_commit (body (ctx\<lparr>ctx_tx := Some (resolve ctx (length shards))\<rparr>)) shards)"

definition shardedManager_ReadCommitted ::
  "gerr option \<Rightarrow> gerr option \<Rightarrow> (db_ctx \<Rightarrow> 'db list \<Rightarrow> 'a res \<times> 'db list) \<Rightarrow> db_ctx \<Rightarrow> 'db list \<Rightarrow> 'a res \<times> 'db list" where
  "shardedManager_ReadCommitted fail_begin fail_commit body ctx shards =
     (case ShardKeyFromContext ctx of
        None \<Rightarrow> sharded_transaction fail_begin fail_commit body ctx shards
      | Some key \<Rightarrow>
          let idx = ShardIndex key (length shards)
          in if length shards \<le> idx then (Inl (ErrText ''shard index out of range''), shards)
             else sharded_transaction fail_begin fail_commit body ctx shards)"

fun shards_Ping :: "nat \<Rightarrow> gerr option list \<Rightarrow> unit res" where
  "shards_Ping i [] = Inr ()"
| "shards_Ping i (None # ps) = shards_Ping (Suc i) ps"
| "shards_Ping i (Some e # ps) = Inl (ErrWrap (''shard '' @ show_nat i @ '' ping failed'') e)"

section \<open>Statements that write through a query\<close>

text \<open>
  \<^verbatim>\<open>INSERT ... RETURNING\<close> of several rows goes through \<^verbatim>\<open>QueryContext\<close>, so without a key it is sent to
  every shard as well.  The goroutines run in some order; goroutine \<open>i\<close> stores its answer at position
  \<open>i\<close>.  A connection serves one open query at a time: \<open>busy i\<close> is what the driver answers to goroutine
  \<open>i\<close> when its connection is taken.
\<close>

fun fanout_run ::
  "(nat \<Rightarrow> gerr option) \<Rightarrow> ('db \<Rightarrow> 'a res \<times> 'db) \<Rightarrow> db_ctx \<Rightarrow> nat list \<Rightarrow> (nat \<Rightarrow> 'a res) \<Rightarrow> 'db list \<Rightarrow>
     (nat \<Rightarrow> 'a res) \<times> 'db list" where
  "fanout_run busy op ctx [] results shards = (results, shards)"
| "fanout_run busy op ctx (i # is) results shards =
     (let j = pg_target ctx i
      in case db_call (busy i) op (shards ! j) of
           (r, db') \<Rightarrow> fanout_run busy op ctx is (results(i := r)) (shards[j := db']))"

text \<open>One connection serves at most one of the goroutines.\<close>

definition one_served :: "(nat \<Rightarrow> gerr option) \<Rightarrow> bool" where
  "one_served busy \<longleftrightarrow> (\<forall>i k. busy i = None \<longrightarrow> busy k = None \<longrightarrow> i = k)"

definition sharded_QueryContext_write ::
  "nat list \<Rightarrow> (nat \<Rightarrow> gerr option) \<Rightarrow> ('db \<Rightarrow> 'r list res \<times> 'db) \<Rightarrow> db_ctx \<Rightarrow> 'db list \<Rightarrow> 'r list res \<times> 'db list" where
  "sharded_QueryContext_write order busy op ctx shards =
     (if ShardKeyFromContext ctx \<noteq> None \<or> length shards = 1
      then sharded_ExecContext op ctx shards
      else (case fanout_run busy op ctx order (\<lambda>_. Inr []) shards of
              (results, shards') \<Rightarrow>
                (bind_res (first_error (map results [0 ..< length shards])) (\<lambda>sets. Inr (concat sets)), shards')))"

subsection \<open>Creating a job on shards\<close>

text \<open>The statement of \<^verbatim>\<open>BulkCreate\<close>: the identifiers it returns, as text.\<close>

definition bulk_insert :: "CrawlTask list \<Rightarrow> DB \<Rightarrow> string list res \<times> DB" where
  "bulk_insert ts db =
     (case insert_rows (db_tasks db) (map SaveCrawlTaskToSnapshot ts) of
        Inl e \<Rightarrow> (Inl e, db)
      | Inr (tbl', ids) \<Rightarrow>
          if \<exists>r \<in> set (drop (length (db_tasks db)) tbl'). find_job db (ts_JobID r) = None
          then (Inl fk_violation, db)
          else (Inr ids, db\<lparr>db_tasks := tbl'\<rparr>))"

definition sharded_BulkCreate ::
  "nat list \<Rightarrow> (nat \<Rightarrow> gerr option) \<Rightarrow> (string \<Rightarrow> bool) \<Rightarrow> CrawlTask list \<Rightarrow> db_ctx \<Rightarrow> DB list \<Rightarrow> CrawlTaskID list res \<times> DB list" where
  "sharded_BulkCreate order busy uuid_ok ts ctx shards =
     (if ts = [] then (Inr [], shards)
      else (case sharded_QueryContext_write order busy (bulk_insert ts) ctx shards of
              (Inl e, shards') \<Rightarrow> (Inl e, shards')
            | (Inr ids, shards') \<Rightarrow> (map_res (NewCrawlTaskID uuid_ok) ids, shards')))"

text \<open>
  The statements of \<^verbatim>\<open>CreateCrawlJob\<close> on shards: the configuration, the job and the outbox events are
  row statements, the tasks are one query.
\<close>

fun sharded_create_seeds ::
  "job_env \<Rightarrow> QueueWeight list \<Rightarrow> CrawlJobID \<Rightarrow> nat \<Rightarrow> string list \<Rightarrow> CrawlTask list \<Rightarrow> db_ctx \<Rightarrow> DB list \<Rightarrow>
     CrawlTask list res outcome \<times> DB list" where
  "sharded_create_seeds env weights jid k [] tasks ctx shards = (Returns (Inr tasks), shards)"
| "sharded_create_seeds env weights jid k (seed # seeds) tasks ctx shards =
     (let task = seed_task env jid k seed
      in case seed_event env weights (je_trace env) k task of
           Panics \<Rightarrow> (Panics, shards)
         | Returns event \<Rightarrow>
             (case je_encode env event of
                Inl e \<Rightarrow> (Returns (Inl (ErrWrap ''failed to marshal event'' e)), shards)
              | Inr payload \<Rightarrow>
                  (case db_call (je_outbox env k) (sharded_ExecContext
                          (outbox_Create (outbox_event env k task event payload (je_outbox_now env k))) ctx) shards of
                     (Inl e, shards') \<Rightarrow> (Returns (Inl (ErrWrap ''failed to create outbox event'' e)), shards')
                   | (Inr _, shards') \<Rightarrow>
                       sharded_create_seeds env weights jid (Suc k) seeds (tasks @ [task]) ctx shards')))"

definition sharded_create_body ::
  "nat list \<Rightarrow> (nat \<Rightarrow> gerr option) \<Rightarrow> job_env \<Rightarrow> CrawlJobConfig \<Rightarrow> db_ctx \<Rightarrow> DB list \<Rightarrow> CrawlJobID res outcome \<times> DB list" where
  "sharded_create_body order busy env config ctx ss =
     (case db_call (je_config env) (sharded_ExecContext (config_Create (je_uuid_ok env) config) ctx) ss of
        (Inl e, ss1) \<Rightarrow> (Returns (Inl (ErrWrap ''failed to create job config'' e)), ss1)
      | (Inr cid, ss1) \<Rightarrow>
          (case db_call (je_job env) (sharded_ExecContext (job_Create (je_uuid_ok env) (new_job env cid config)) ctx) ss1 of
             (Inl e, ss2) \<Rightarrow> (Returns (Inl (ErrWrap ''failed to create crawl job'' e)), ss2)
           | (Inr jid, ss2) \<Rightarrow>
               (case sharded_create_seeds env (cfg_QueueWeights config) jid 0 (cfg_Seeds config) [] ctx ss2 of
                  (Panics, ss3) \<Rightarrow> (Panics, ss3)
                | (Returns (Inl e), ss3) \<Rightarrow> (Returns (Inl e), ss3)
                | (Returns (Inr tasks), ss3) \<Rightarrow>
                    (case db_call (je_tasks env) (sharded_BulkCreate order busy (je_uuid_ok env) tasks ctx) ss3 of
                       (Inl e, ss4) \<Rightarrow> (Returns (Inl (ErrWrap ''failed to create crawl tasks'' e)), ss4)
                     | (Inr _, ss4) \<Rightarrow> (Returns (Inr jid), ss4)))))"

text \<open>The service, called with the context of a request, which carries no transaction yet.\<close>

definition sharded_CreateCrawlJob ::
  "nat list \<Rightarrow> (nat \<Rightarrow> gerr option) \<Rightarrow> job_env \<Rightarrow> string \<Rightarrow> CrawlJobConfig \<Rightarrow> db_ctx \<Rightarrow> DB list \<Rightarrow> CrawlJobID res \<times> DB list" where
  "sharded_CreateCrawlJob order busy env user command ctx shards =
     (if cfg_Seeds command = [] then (Inl (ErrText ''seeds list cannot be empty''), shards)
      else
        let patterns = normalize_patterns (AllowedURLPatterns (cfg_Scopes command))
        in case CompileAllowedURLPatterns patterns of
             Inl e \<Rightarrow> (Inl (ErrWrap ''invalid scopes.allowed_url_patterns'' e), shards)
           | Inr _ \<Rightarrow>
               (case NewUserID (je_uuid_ok env) user of
                  Inl e \<Rightarrow> (Inl (ErrWrap ''invalid user_id'' e), shards)
                | Inr userID \<Rightarrow>
                    ReadCommitted (je_begin env) (je_commit env)
                      (sharded_create_body order busy env (command\<lparr>cfg_ID := je_configID env, cfg_UserID := userID,
                          cfg_Scopes := (cfg_Scopes command)\<lparr>AllowedURLPatterns := patterns\<rparr>\<rparr>)
                        (ctx\<lparr>ctx_tx := Some (resolve ctx (length shards))\<rparr>)) shards))"

section \<open>Lemmas\<close>

lemma ShardIndex_less:
  assumes "0 < n" and "n < 2 ^ 32"
  shows "ShardIndex key n < n"
proof (cases "n \<le> 1")
  case False
  have n: "unat (of_nat n :: u32) = n" using assms(2) by (simp add: unat_of_nat)
  have "unat (fnv32a key mod of_nat n) = unat (fnv32a key) mod n" by (simp add: unat_mod n)
  then show ?thesis using False by (simp add: ShardIndex_def)
qed (use assms in \<open>simp add: ShardIndex_def\<close>)

lemma first_error_all: "first_error (map Inr xs) = Inr xs"
  by (induction xs) simp_all

lemma first_error_map: "\<forall>i \<in> set is. f i = Inr (g i) \<Longrightarrow> first_error (map f is) = Inr (map g is)"
  by (induction "is") simp_all

text \<open>What is left to read: the rest of the current set and the sets after it.\<close>

definition unread :: "'r mergedRows \<Rightarrow> 'r list" where
  "unread m = concat (map fst (drop (mr_current m) (mr_sets m)))"

lemma merged_Next_spec:
  "case merged_Next m of (b, m') \<Rightarrow>
     (case unread m of [] \<Rightarrow> \<not> b | r # rs \<Rightarrow> b \<and> merged_Scan m' = Some r \<and> unread m' = rs)"
proof (induction m rule: merged_Next.induct)
  case (1 m)
  show ?case
  proof (cases "mr_current m < length (mr_sets m)")
    case True
    obtain rs c where s: "mr_sets m ! mr_current m = (rs, c)" by (rule prod.exhaust)
    have d: "drop (mr_current m) (mr_sets m) = (rs, c) # drop (Suc (mr_current m)) (mr_sets m)"
      using True s Cons_nth_drop_Suc by metis
    show ?thesis
    proof (cases rs)
      case Nil
      let ?m = "m\<lparr>mr_sets := (mr_sets m)[mr_current m := ([], None)], mr_current := Suc (mr_current m)\<rparr>"
      have u: "unread ?m = unread m" using d Nil by (simp add: unread_def)
      have n: "merged_Next m = merged_Next ?m" using True s Nil by (subst merged_Next.simps) simp
      have "rows_Next (mr_sets m ! mr_current m) = (False, ([], None))" using s Nil by simp
      from 1 [OF True this [symmetric] refl] show ?thesis unfolding n u by simp
    next
      case (Cons r rs')
      have "merged_Next m = (True, m\<lparr>mr_sets := (mr_sets m)[mr_current m := (rs', Some r)]\<rparr>)"
        using True s Cons by (subst merged_Next.simps) simp
      moreover have "unread m = r # unread (m\<lparr>mr_sets := (mr_sets m)[mr_current m := (rs', Some r)]\<rparr>)"
        using d Cons True by (simp add: unread_def drop_update_swap)
      ultimately show ?thesis using True by (simp add: merged_Scan_def)
    qed
  next
    case False
    then have "merged_Next m = (False, m)" "unread m = []" by (subst merged_Next.simps, simp, simp add: unread_def)
    then show ?thesis by simp
  qed
qed

lemma read_rows_unread: "length (unread m) < n \<Longrightarrow> read_rows n m = Some (map Some (unread m))"
proof (induction n arbitrary: m)
  case (Suc n)
  obtain b m' where N: "merged_Next m = (b, m')" by (rule prod.exhaust)
  show ?case
  proof (cases "unread m")
    case Nil
    then show ?thesis using merged_Next_spec [of m] N by simp
  next
    case (Cons r rs)
    then have "b" "merged_Scan m' = Some r" "unread m' = rs" using merged_Next_spec [of m] N by simp_all
    then show ?thesis using Suc Cons N by simp
  qed
qed simp

lemma unread_merge [simp]: "unread (merge_rows sets) = concat sets"
  by (simp add: unread_def merge_rows_def comp_def)

section \<open>Each shard is a database of its own\<close>

text \<open>The shard a context is routed to.\<close>

definition route :: "db_ctx \<Rightarrow> nat \<Rightarrow> nat" where
  "route ctx n = pg_target ctx (resolve ctx n)"

definition shard_step :: "'db list \<Rightarrow> db_ctx \<times> ('db \<Rightarrow> 'a res \<times> 'db) \<Rightarrow> 'db list" where
  "shard_step shards c = snd (sharded_ExecContext (snd c) (fst c) shards)"

definition single_step :: "'db \<Rightarrow> db_ctx \<times> ('db \<Rightarrow> 'a res \<times> 'db) \<Rightarrow> 'db" where
  "single_step db c = snd (snd c db)"

lemma shard_step_eq: "shard_step shards c = shards[route (fst c) (length shards) := single_step (shards ! route (fst c) (length shards)) c]"
  by (simp add: shard_step_def single_step_def sharded_ExecContext_def route_def Let_def split: prod.splits)

lemma shard_run_length: "length (foldl shard_step shards cs) = length shards"
  by (induction cs arbitrary: shards) (simp_all add: shard_step_eq)

lemma shard_run_projection:
  "i < length shards \<Longrightarrow>
     foldl shard_step shards cs ! i =
       foldl single_step (shards ! i) (filter (\<lambda>c. route (fst c) (length shards) = i) cs)"
  by (induction cs arbitrary: shards) (auto simp: shard_step_eq nth_list_update)

lemma fanout_merges:
  assumes "\<forall>db \<in> set shards. q db = Inr (f db)" and "ctx_tx ctx = None"
  shows "fanoutQuery q ctx shards = Inr (map f shards)"
proof -
  have "\<forall>i \<in> set [0 ..< length shards]. q (shards ! pg_target ctx i) = Inr (f (shards ! i))"
    using assms by (simp add: pg_target_def)
  then have "fanoutQuery q ctx shards = Inr (map (\<lambda>i. f (shards ! i)) [0 ..< length shards])"
    unfolding fanoutQuery_def by (rule first_error_map)
  also have "map (\<lambda>i. f (shards ! i)) [0 ..< length shards] = map f shards"
    by (metis (no_types, lifting) map_nth map_map comp_apply map_cong)
  finally show ?thesis .
qed

text \<open>
  C20. Statements with a key see one database per shard.  Every context is routed to an existing
  shard; after any interleaving of statements, each shard is what its own statements alone make of it;
  a row query with a key answers from that shard; and a query without a key, outside a transaction,
  reads exactly the rows of all shards, shard after shard, in as many steps as there are rows and one.
\<close>

theorem shard_isolation:
  assumes n: "shards \<noteq> []" "length shards < 2 ^ 32" and t: "ctx_tx ctx = None"
    and i: "i < length shards"
    and q: "\<forall>db \<in> set (foldl shard_step shards cs). q db = Inr (f db)"
  shows "resolve ctx (length shards) < length shards \<and>
    foldl shard_step shards cs ! i = foldl single_step (shards ! i) (filter (\<lambda>c. route (fst c) (length shards) = i) cs) \<and>
    sharded_QueryRowContext q ctx (foldl shard_step shards cs) =
      q (foldl single_step (shards ! resolve ctx (length shards))
           (filter (\<lambda>c. route (fst c) (length shards) = resolve ctx (length shards)) cs)) \<and>
    (ShardKeyFromContext ctx = None \<longrightarrow>
      (\<exists>m. sharded_QueryContext q ctx (foldl shard_step shards cs) = Inr m \<and>
         (let rows = concat (map f (foldl shard_step shards cs)) in read_rows (Suc (length rows)) m = Some (map Some rows))))"
proof (intro conjI impI)
  show r: "resolve ctx (length shards) < length shards"
    using n ShardIndex_less [of "length shards"] by (auto simp: resolve_def split: option.splits)
  show "foldl shard_step shards cs ! i = foldl single_step (shards ! i) (filter (\<lambda>c. route (fst c) (length shards) = i) cs)"
    by (rule shard_run_projection [OF i])
  show "sharded_QueryRowContext q ctx (foldl shard_step shards cs) =
      q (foldl single_step (shards ! resolve ctx (length shards))
           (filter (\<lambda>c. route (fst c) (length shards) = resolve ctx (length shards)) cs))"
    using shard_run_projection [OF r, of cs] t
    by (simp add: sharded_QueryRowContext_def shard_run_length pg_target_def)
  assume k: "ShardKeyFromContext ctx = None"
  let ?ss = "foldl shard_step shards cs"
  have "\<exists>m. sharded_QueryContext q ctx ?ss = Inr m \<and> unread m = concat (map f ?ss)"
  proof (cases "length ?ss = 1")
    case True
    then obtain db where db: "?ss = [db]" by (auto simp: length_Suc_conv)
    then have "q db = Inr (f db)" using q by simp
    then show ?thesis using k t db
      by (simp add: sharded_QueryContext_def sharded_QueryRowContext_def pg_target_def resolve_def)
  next
    case False
    then show ?thesis using k fanout_merges [OF q t] by (simp add: sharded_QueryContext_def)
  qed
  then obtain m where m: "sharded_QueryContext q ctx ?ss = Inr m" "unread m = concat (map f ?ss)" by blast
  show "\<exists>m. sharded_QueryContext q ctx ?ss = Inr m \<and>
      (let rows = concat (map f ?ss) in read_rows (Suc (length rows)) m = Some (map Some rows))"
    using m read_rows_unread [of m] by (intro exI [of _ m]) (simp add: Let_def del: read_rows.simps)
qed

theorem shard_isolation_witness:
  "\<exists>m. sharded_QueryContext (\<lambda>db. Inr [db]) background (foldl shard_step [1, 2 :: nat]
        [(WithShardKey background ''a'', \<lambda>db. (Inr (), db + 10)), (background, \<lambda>db. (Inr (), db + 20))]) = Inr m"
  using shard_isolation [of "[1, 2 :: nat]" background 0
      "[(WithShardKey background ''a'', \<lambda>db. (Inr (), db + 10)), (background, \<lambda>db. (Inr (), db + 20))]"
      "\<lambda>db. Inr [db]" "\<lambda>db. [db]"]
  by (auto simp: background_def ShardKeyFromContext_def)

section \<open>What the routing breaks\<close>

text \<open>A transaction whose statements are row statements is a transaction on its shard.\<close>

lemma sharded_transaction_local:
  assumes "ctx_tx ctx = None" and "resolve ctx (length shards) < length shards"
  shows "sharded_transaction fb fc (sharded_ExecContext op) ctx shards =
    (case transaction fb fc op (shards ! resolve ctx (length shards)) of
       (r, db') \<Rightarrow> (r, shards[resolve ctx (length shards) := db']))"
  using assms
  by (auto simp: sharded_transaction_def transaction_def sharded_ExecContext_def pg_target_def Let_def
      split: option.splits prod.splits sum.splits)

subsection \<open>Queries to every shard that write\<close>

text \<open>Without writes and with free connections this is the query of \<open>fanoutQuery\<close>.\<close>

lemma fanout_run_reads:
  "fanout_run (\<lambda>_. None) (\<lambda>db. (q db, db)) ctx is results shards =
     (\<lambda>i. if i \<in> set is then q (shards ! pg_target ctx i) else results i, shards)"
  by (induction "is" arbitrary: results) (auto simp: Let_def)

lemma fanout_write_reads:
  assumes "set order = {..< length shards}" and "ShardKeyFromContext ctx = None" and "length shards \<noteq> 1"
  shows "sharded_QueryContext_write order (\<lambda>_. None) (\<lambda>db. (q db, db)) ctx shards =
    (bind_res (fanoutQuery q ctx shards) (\<lambda>sets. Inr (concat sets)), shards)"
proof -
  have "map (\<lambda>i. if i \<in> set order then q (shards ! pg_target ctx i) else Inr []) [0 ..< length shards] =
      map (\<lambda>i. q (shards ! pg_target ctx i)) [0 ..< length shards]"
    using assms(1) by (intro map_cong) auto
  then show ?thesis using assms(2,3)
    by (simp only: sharded_QueryContext_write_def fanout_run_reads fanoutQuery_def prod.case simp_thms if_False)
qed

lemma first_error_Inl: "Inl e \<in> set rs \<Longrightarrow> \<exists>e'. first_error rs = Inl e'"
  by (induction rs rule: first_error.induct) (auto split: sum.splits)

lemma fanout_run_keeps: "i \<notin> set is \<Longrightarrow> fst (fanout_run busy op ctx is results shards) i = results i"
  by (induction "is" arbitrary: results shards) (auto simp: Let_def split: prod.splits)

lemma fanout_run_busy:
  assumes "busy i = Some e"
  shows "i \<in> set is \<Longrightarrow> fst (fanout_run busy op ctx is results shards) i = Inl e"
proof (induction "is" arbitrary: results shards)
  case (Cons j js)
  then show ?case using assms by (cases "i \<in> set js") (auto simp: Let_def fanout_run_keeps split: prod.splits)
qed simp

text \<open>
  Two goroutines on one connection: at most one of them is served, so the query fails as a whole.  A
  transaction has one connection, which is where all goroutines of a query inside it go: every query
  without a key inside a transaction fails as soon as there are two shards.
\<close>

lemma fanout_in_transaction:
  assumes "ShardKeyFromContext ctx = None" and "1 < length shards" and "set order = {..< length shards}"
    and busy: "one_served busy"
  shows "\<exists>e. fst (sharded_QueryContext_write order busy op ctx shards) = Inl e"
proof -
  obtain i e where i: "i < 2" "busy i = Some e"
  proof (cases "busy 0")
    case None
    then have "busy 1 \<noteq> None" using busy by (auto simp: one_served_def)
    then show ?thesis using that [of 1] by auto
  qed (use that [of 0] in auto)
  let ?answers = "fst (fanout_run busy op ctx order (\<lambda>_. Inr []) shards)"
  have "?answers i = Inl e" by (rule fanout_run_busy) (use i assms(2,3) in auto)
  moreover have "?answers i \<in> ?answers ` set [0 ..< length shards]" using i(1) assms(2) by auto
  ultimately have "Inl e \<in> set (map ?answers [0 ..< length shards])" by simp
  from first_error_Inl [OF this] show ?thesis
    using assms(1,2) by (auto simp: sharded_QueryContext_write_def split: prod.splits)
qed

subsection \<open>Row statements inside a transaction\<close>

lemma exec_in_transaction:
  "ctx_tx ctx = Some r \<Longrightarrow> sharded_ExecContext op ctx shards = (case op (shards ! r) of (x, db') \<Rightarrow> (x, shards[r := db']))"
  by (simp add: sharded_ExecContext_def pg_target_def)

lemma call_in_transaction:
  "ctx_tx ctx = Some r \<Longrightarrow>
     db_call f (sharded_ExecContext op ctx) shards = (case db_call f op (shards ! r) of (x, db') \<Rightarrow> (x, shards[r := db']))"
  by (cases f) (simp_all add: exec_in_transaction)

lemma task_BulkCreate_insert:
  "ts \<noteq> [] \<Longrightarrow> task_BulkCreate uuid_ok ts db =
     (case bulk_insert ts db of (Inl e, db') \<Rightarrow> (Inl e, db') | (Inr ids, db') \<Rightarrow> (map_res (NewCrawlTaskID uuid_ok) ids, db'))"
  by (auto simp: task_BulkCreate_def bulk_insert_def split: sum.splits prod.splits)

lemma sharded_BulkCreate_routed:
  assumes "ctx_tx ctx = Some r" and "ShardKeyFromContext ctx \<noteq> None \<or> length shards = 1"
  shows "sharded_BulkCreate order busy uuid_ok ts ctx shards =
    (case task_BulkCreate uuid_ok ts (shards ! r) of (x, db') \<Rightarrow> (x, shards[r := db']))"
proof (cases "ts = []")
  case True
  then show ?thesis by (simp add: sharded_BulkCreate_def task_BulkCreate_def)
next
  case False
  then show ?thesis using assms
    by (auto simp: sharded_BulkCreate_def task_BulkCreate_insert sharded_QueryContext_write_def exec_in_transaction
        split: prod.splits sum.splits)
qed

lemma sharded_create_seeds_routed:
  assumes "ctx_tx ctx = Some r"
  shows "r < length shards \<Longrightarrow> sharded_create_seeds env weights jid k seeds tasks ctx shards =
    (case create_seeds env weights jid k seeds tasks (shards ! r) of (x, db') \<Rightarrow> (x, shards[r := db']))"
proof (induction seeds arbitrary: k tasks shards)
  case (Cons seed seeds)
  then show ?case
    by (auto simp: Let_def call_in_transaction [OF assms] split: outcome.splits sum.splits prod.splits)
qed simp

lemma sharded_create_seeds_length:
  "sharded_create_seeds env weights jid k seeds tasks ctx shards = (Returns (Inr ts), shards') \<Longrightarrow>
     length ts = length tasks + length seeds \<and> length shards' = length shards"
proof (induction seeds arbitrary: k tasks shards)
  case (Cons seed seeds)
  show ?case
    using Cons.prems
    by (auto simp: Let_def db_call_Inr sharded_ExecContext_def dest!: Cons.IH split: outcome.splits sum.splits prod.splits)
qed simp

lemma sharded_create_body_routed:
  assumes r: "ctx_tx ctx = Some r" "r < length shards" and k: "ShardKeyFromContext ctx \<noteq> None \<or> length shards = 1"
  shows "sharded_create_body order busy env config ctx shards =
    (case create_body env config (shards ! r) of (x, db') \<Rightarrow> (x, shards[r := db']))"
proof -
  have b: "db_call f (sharded_BulkCreate order busy uuid_ok ts ctx) ss =
      (case db_call f (task_BulkCreate uuid_ok ts) (ss ! r) of (x, db') \<Rightarrow> (x, ss[r := db']))"
    if l: "length ss = length shards" for f uuid_ok ts ss
    using k l sharded_BulkCreate_routed [OF r(1), of ss] by (cases f) simp_all
  show ?thesis
    using r(2)
    by (auto simp: sharded_create_body_def create_body_def call_in_transaction [OF r(1)] sharded_create_seeds_routed [OF r(1)] b
        split: prod.splits sum.splits outcome.splits)
qed

lemma sharded_create_body_fails:
  assumes k: "ShardKeyFromContext ctx = None" and n: "1 < length shards" and o: "set order = {..< length shards}"
    and busy: "one_served busy" and s: "cfg_Seeds config \<noteq> []"
  shows "sharded_create_body order busy env config ctx shards \<noteq> (Returns (Inr jid), shards')"
proof
  assume a: "sharded_create_body order busy env config ctx shards = (Returns (Inr jid), shards')"
  obtain cid ss1 where 1: "sharded_ExecContext (config_Create (je_uuid_ok env) config) ctx shards = (Inr cid, ss1)"
    using a by (auto simp: sharded_create_body_def db_call_Inr split: prod.splits sum.splits)
  obtain j ss2 where 2: "sharded_ExecContext (job_Create (je_uuid_ok env) (new_job env cid config)) ctx ss1 = (Inr j, ss2)"
    using a 1 by (auto simp: sharded_create_body_def db_call_Inr split: prod.splits sum.splits)
  obtain ts ss3 where 3: "sharded_create_seeds env (cfg_QueueWeights config) j 0 (cfg_Seeds config) [] ctx ss2 = (Returns (Inr ts), ss3)"
    using a 1 2 by (auto simp: sharded_create_body_def db_call_Inr split: prod.splits sum.splits outcome.splits)
  obtain ids where 4: "fst (sharded_BulkCreate order busy (je_uuid_ok env) ts ctx ss3) = Inr ids"
    using a 1 2 3 by (auto simp: sharded_create_body_def db_call_Inr split: prod.splits sum.splits outcome.splits)
  have "length ss1 = length shards" using 1 by (auto simp: sharded_ExecContext_def Let_def split: prod.splits)
  moreover have "length ss2 = length ss1" using 2 by (auto simp: sharded_ExecContext_def Let_def split: prod.splits)
  moreover have "length ss3 = length ss2" and ts: "length ts = length (cfg_Seeds config)"
    using sharded_create_seeds_length [OF 3] by simp_all
  ultimately have l: "length ss3 = length shards" by simp
  have "\<exists>e. fst (sharded_QueryContext_write order busy (bulk_insert ts) ctx ss3) = Inl e"
    by (rule fanout_in_transaction) (use n in \<open>simp_all add: k o busy l\<close>)
  moreover have "ts \<noteq> []" using ts s by auto
  ultimately show False using 4 by (auto simp: sharded_BulkCreate_def split: prod.splits sum.splits)
qed

text \<open>The page of a query with a limit grows with the number of shards and is not sorted.\<close>

lemma fanout_ignores_limit:
  "fanoutQuery (\<lambda>db. Inr (take 1 (sort db))) background [[3, 4], [1, 2 :: nat]] = Inr [[3], [1]]"
  by (simp add: fanoutQuery_def background_def pg_target_def upt_rec)

definition create_ctx :: db_ctx where
  "create_ctx = ShardKeyInterceptor True ''/crawler.v1.CrawlerService/CreateJob'' \<lparr>req_GetJobId = None, req_GetId = None\<rparr> background"

definition get_ctx :: "string \<Rightarrow> db_ctx" where
  "get_ctx i = ShardKeyInterceptor True ''/crawler.v1.CrawlerService/GetJob'' \<lparr>req_GetJobId = None, req_GetId = Some i\<rparr> background"

lemma request_routes:
  "resolve create_ctx n = 0" "ctx_tx create_ctx = None"
  "i \<noteq> [] \<Longrightarrow> resolve (get_ctx i) n = ShardIndex i n" "ctx_tx (get_ctx i) = None"
  by (simp_all add: create_ctx_def get_ctx_def ShardKeyInterceptor_def resolve_def ShardKeyFromContext_def background_def
      WithShardKey_def isJobEndpoint_def)

lemma one_served_only: "one_served (\<lambda>i. if i = n then None else Some e)"
  by (simp add: one_served_def)

lemma ReadCommitted_routed:
  assumes "body shards = (case body1 (shards ! r) of (x, db') \<Rightarrow> (x, shards[r := db']))"
  shows "ReadCommitted fb fc body shards =
    (case ReadCommitted fb fc body1 (shards ! r) of (x, db') \<Rightarrow> (x, shards[r := db']))"
  using assms
  by (auto simp: ReadCommitted_def transaction_def split: prod.splits option.splits outcome.splits sum.splits)

text \<open>
  C40. Creating a job through the sharded client.  With a shard key, or with a single shard, it is
  creating the job on the shard of the context and nothing else.  Without a key and with several
  shards it never succeeds: the tasks are inserted by one query, which is sent once per shard to the
  single connection of the transaction, where at most one query can be open; the transaction is
  rolled back and every shard is as before.  The request to create a job carries no job identifier, so
  it has no shard key (the witness): with sharding, no job can be created.
\<close>

theorem sharded_creation:
  assumes n: "shards \<noteq> []" "length shards < 2 ^ 32" and t: "ctx_tx ctx = None"
    and o: "set order = {..< length shards}"
    and busy: "one_served busy"
  shows "if ShardKeyFromContext ctx \<noteq> None \<or> length shards = 1
    then (let r = resolve ctx (length shards) in
            sharded_CreateCrawlJob order busy env user command ctx shards =
              (case CreateCrawlJob env user command (shards ! r) of (x, db') \<Rightarrow> (x, shards[r := db'])))
    else \<exists>e. sharded_CreateCrawlJob order busy env user command ctx shards = (Inl e, shards)"
proof -
  let ?r = "resolve ctx (length shards)"
  let ?ctx = "ctx\<lparr>ctx_tx := Some ?r\<rparr>"
  have k: "ShardKeyFromContext ?ctx = ShardKeyFromContext ctx" by (simp add: ShardKeyFromContext_def)
  have r: "?r < length shards"
    using n ShardIndex_less [of "length shards"] by (auto simp: resolve_def split: option.splits)
  show ?thesis
  proof (cases "ShardKeyFromContext ctx \<noteq> None \<or> length shards = 1")
    case True
    have "ReadCommitted fb fc (sharded_create_body order busy env config ?ctx) shards =
        (case ReadCommitted fb fc (create_body env config) (shards ! ?r) of (x, db') \<Rightarrow> (x, shards[?r := db']))" for fb fc config
      by (rule ReadCommitted_routed, rule sharded_create_body_routed) (use True k r in auto)
    then show ?thesis using True
      by (simp add: sharded_CreateCrawlJob_def CreateCrawlJob_def Let_def split: sum.splits)
  next
    case False
    then have l: "1 < length shards" using n(1) by (cases shards) auto
    have "\<exists>e. ReadCommitted fb fc (sharded_create_body order busy env config ?ctx) shards = (Inl e, shards)"
      if s: "cfg_Seeds config \<noteq> []" for fb fc config
    proof -
      obtain x ss where x: "ReadCommitted fb fc (sharded_create_body order busy env config ?ctx) shards = (x, ss)"
        by (rule prod.exhaust)
      have kn: "ShardKeyFromContext ?ctx = None" using False k by simp
      have "x \<noteq> Inr j" for j
      proof
        assume "x = Inr j"
        with x have "sharded_create_body order busy env config ?ctx shards = (Returns (Inr j), ss)"
          by (simp add: ReadCommitted_commits)
        with sharded_create_body_fails [OF kn l o busy s] show False by blast
      qed
      then obtain e where "x = Inl e" by (cases x) auto
      then show ?thesis using x ReadCommitted_error [of fb fc "sharded_create_body order busy env config ?ctx" shards e ss] by simp
    qed
    then show ?thesis using False
      by (auto simp: sharded_CreateCrawlJob_def Let_def split: sum.splits)
  qed
qed

theorem sharded_creation_witness:
  "(\<exists>e. sharded_CreateCrawlJob [1, 0] (\<lambda>i. if i = 1 then None else Some (ErrText ''conn busy'')) sample_job_env ''u1'' sample_command
          create_ctx [sample_db, empty_db] = (Inl e, [sample_db, empty_db])) \<and>
   (\<exists>db'. sharded_CreateCrawlJob [0] (\<lambda>i. if i = 0 then None else Some (ErrText ''conn busy'')) sample_job_env ''u1'' sample_command
          create_ctx [sample_db] = (Inr ''j2'', [db']))"
proof
  have k: "ShardKeyFromContext create_ctx = None"
    by (simp add: create_ctx_def ShardKeyInterceptor_def ShardKeyFromContext_def background_def)
  show "\<exists>e. sharded_CreateCrawlJob [1, 0] (\<lambda>i. if i = 1 then None else Some (ErrText ''conn busy'')) sample_job_env ''u1'' sample_command
          create_ctx [sample_db, empty_db] = (Inl e, [sample_db, empty_db])"
    using sharded_creation [of "[sample_db, empty_db]" create_ctx "[1, 0]", OF _ _ _ _ one_served_only] k
    by (simp add: request_routes insert_commute lessThan_Suc)
  obtain db' where c: "CreateCrawlJob sample_job_env ''u1'' sample_command sample_db = (Inr ''j2'', db')" using sample_create by blast
  show "\<exists>db'. sharded_CreateCrawlJob [0] (\<lambda>i. if i = 0 then None else Some (ErrText ''conn busy'')) sample_job_env ''u1'' sample_command
          create_ctx [sample_db] = (Inr ''j2'', [db'])"
    using sharded_creation [of "[sample_db]" create_ctx "[0]", OF _ _ _ _ one_served_only] c
    by (simp add: request_routes Let_def lessThan_Suc)
qed

end
