(* ===== verification/API_Converters.thy ===== *)
theory API_Converters
  imports Database_Model
begin

text \<open>
  The converters between protobuf messages and the domain, \<^verbatim>\<open>api/crawl_job/converter.go\<close>.  A message
  is a record, a pointer to a message an option; the elements of repeated fields are pointers as well.
  Enumerations are open: a number without a name is the last constructor.  An \<^verbatim>\<open>int32\<close> is a word read
  with its sign.  A timestamp is the time it denotes.
\<close>

section \<open>Messages\<close>

record pb_AuthOptions =
  pba_Cookie :: string
  pba_BasicUser :: string
  pba_BasicPassword :: string
  pba_BearerToken :: string

record pb_RateLimitPolicy =
  pbl_Rps :: rat

record pb_RetryPolicy =
  pbr_MaxAttempts :: u64
  pbr_BackoffInitialMs :: u64
  pbr_BackoffMultiplier :: rat

record pb_ScheduleOptions =
  pbs_Cron :: string

record pb_ScopeRules =
  pbs_MaxDepth :: u64
  pbs_AllowedDomains :: "string list"
  pbs_DenyUrlPatterns :: "string list"
  pbs_AllowedUrlPatterns :: "string list"

record pb_Seed =
  pbs_Url :: string

record pb_ExtractorSpec =
  pbe_Selector :: string
  pbe_Attribute :: string
  pbe_Multiple :: bool
  pbe_Index :: "32 word option"

record pb_TransformSpec =
  pbt_Op :: string
  pbt_Arg :: string

record pb_FieldSpec =
  pbf_Name :: string
  pbf_Type :: string
  pbf_Required :: bool
  pbf_Extractor :: "pb_ExtractorSpec option"
  pbf_Transforms :: "pb_TransformSpec option list"

record pb_PaginationSpec =
  pbp_Name :: string
  pbp_Selector :: string
  pbp_Attribute :: string
  pbp_Multiple :: bool

record pb_ItemsSpec =
  pbi_ContainerSelector :: string
  pbi_Fields :: "pb_FieldSpec option list"

record pb_ExtractionSpec =
  pbx_Fields :: "pb_FieldSpec option list"
  pbx_Pagination :: "pb_PaginationSpec option list"
  pbx_Items :: "pb_ItemsSpec option"

datatype pb_CrawlMode =
  CRAWL_MODE_UNSPECIFIED | CRAWL_MODE_PAGINATION_AND_LINKS | CRAWL_MODE_PAGINATION_ONLY | CRAWL_MODE_LINKS_ONLY
| CRAWL_MODE_UNNAMED int

datatype pb_JobType = JOB_TYPE_UNSPECIFIED | JOB_TYPE_ONCE | JOB_TYPE_SCHEDULED | JOB_TYPE_UNNAMED int

record pb_CrawlJobConfig =
  pbc_Id :: string
  pbc_UserId :: "string option"
  pbc_Name :: string
  pbc_ExtractionSpec :: "pb_ExtractionSpec option"
  pbc_Scopes :: "pb_ScopeRules option"
  pbc_Seeds :: "pb_Seed option list"
  pbc_RateLimit :: "pb_RateLimitPolicy option"
  pbc_Retries :: "pb_RetryPolicy option"
  pbc_Auth :: "pb_AuthOptions option"
  pbc_Schedule :: "pb_ScheduleOptions option"
  pbc_JobType :: pb_JobType
  pbc_RespectRobotsTxt :: bool
  pbc_CrawlMode :: pb_CrawlMode

record pb_CrawlJob =
  pbj_Id :: string
  pbj_JobConfigId :: string
  pbj_JobConfig :: "pb_CrawlJobConfig option"
  pbj_UserId :: "string option"
  pbj_Name :: "string option"
  pbj_Status :: string
  pbj_CreatedAt :: time
  pbj_CompletedAt :: "time option"
  pbj_ExportJsonKey :: "string option"
  pbj_ExportCsvKey :: "string option"
  pbj_ExportedAt :: "time option"
  pbj_ExportStatus :: string

record pb_CrawlTask =
  pbk_Id :: string
  pbk_JobId :: string
  pbk_Job :: "pb_CrawlJob option"
  pbk_Url :: string
  pbk_FinalUrl :: "string option"
  pbk_Status :: string
  pbk_EnqueuedAt :: time
  pbk_Depth :: u64
  pbk_MinioObjectKey :: string
  pbk_ResultObjectKey :: "string option"
  pbk_ErrorMessage :: "string option"

section \<open>From the domain\<close>

text \<open>
  \<open>jl_marshal\<close> and \<open>jl_unmarshal\<close> are \<^verbatim>\<open>json.Marshal\<close> and \<^verbatim>\<open>json.Unmarshal\<close> on the argument of a transform.
\<close>

record json_lib =
  jl_marshal :: "transform_arg \<Rightarrow> string res"
  jl_unmarshal :: "string \<Rightarrow> transform_arg res"

definition ToProtoAuthOptions :: "AuthOptions \<Rightarrow> pb_AuthOptions" where
  "ToProtoAuthOptions auth =
     \<lparr>pba_Cookie = Cookie auth, pba_BasicUser = BasicUser auth, pba_BasicPassword = BasicPassword auth,
      pba_BearerToken = BearerToken auth\<rparr>"

definition ToProtoRateLimitPolicy :: "rat \<Rightarrow> pb_RateLimitPolicy" where
  "ToProtoRateLimitPolicy rps = \<lparr>pbl_Rps = rps\<rparr>"

definition ToProtoRetryPolicy :: "RetryPolicy \<Rightarrow> pb_RetryPolicy" where
  "ToProtoRetryPolicy retry =
     \<lparr>pbr_MaxAttempts = MaxAttempts retry, pbr_BackoffInitialMs = BackoffInitialMs retry,
      pbr_BackoffMultiplier = BackoffMultiplier retry\<rparr>"

definition ToProtoScheduleOptions :: "ScheduleOptions \<Rightarrow> pb_ScheduleOptions" where
  "ToProtoScheduleOptions schedule = \<lparr>pbs_Cron = Cron schedule\<rparr>"

definition ToProtoScopeRules :: "ScopeRules \<Rightarrow> pb_ScopeRules" where
  "ToProtoScopeRules scope =
     \<lparr>pbs_MaxDepth = MaxDepth scope, pbs_AllowedDomains = AllowedDomains scope,
      pbs_DenyUrlPatterns = DenyUrlPatterns scope, pbs_AllowedUrlPatterns = AllowedURLPatterns scope\<rparr>"

definition ToProtoSeed :: "string \<Rightarrow> pb_Seed" where
  "ToProtoSeed seed = \<lparr>pbs_Url = seed\<rparr>"

definition ToProtoExtractorSpec :: "ExtractorSpec \<Rightarrow> pb_ExtractorSpec" where
  "ToProtoExtractorSpec spec =
     \<lparr>pbe_Selector = ex_Selector spec, pbe_Attribute = ex_Attribute spec, pbe_Multiple = ex_Multiple spec,
      pbe_Index = (case ex_Index spec of None \<Rightarrow> None | Some i \<Rightarrow> Some (word_of_int i))\<rparr>"

definition ToProtoTransformSpec :: "json_lib \<Rightarrow> TransformSpec \<Rightarrow> pb_TransformSpec" where
  "ToProtoTransformSpec lib spec =
     \<lparr>pbt_Op = tr_Op spec,
      pbt_Arg = (if tr_Arg spec \<noteq> ArgNone then (case jl_marshal lib (tr_Arg spec) of Inl _ \<Rightarrow> [] | Inr s \<Rightarrow> s) else [])\<rparr>"

definition ToProtoFieldSpec :: "json_lib \<Rightarrow> FieldSpec \<Rightarrow> pb_FieldSpec" where
  "ToProtoFieldSpec lib field =
     \<lparr>pbf_Name = fs_Name field, pbf_Type = fs_Type field, pbf_Required = fs_Required field,
      pbf_Extractor = Some (ToProtoExtractorSpec (fs_Extractor field)),
      pbf_Transforms = map (\<lambda>t. Some (ToProtoTransformSpec lib t)) (fs_Transforms field)\<rparr>"

definition ToProtoItemsSpec :: "json_lib \<Rightarrow> ItemsSpec option \<Rightarrow> pb_ItemsSpec option" where
  "ToProtoItemsSpec lib spec =
     (case spec of None \<Rightarrow> None
      | Some i \<Rightarrow> Some \<lparr>pbi_ContainerSelector = ContainerSelector i,
                       pbi_Fields = map (\<lambda>f. Some (ToProtoFieldSpec lib f)) (items_Fields i)\<rparr>)"

definition ToProtoPaginationSpec :: "PaginationSpec \<Rightarrow> pb_PaginationSpec" where
  "ToProtoPaginationSpec spec =
     \<lparr>pbp_Name = pg_Name spec, pbp_Selector = pg_Selector spec, pbp_Attribute = pg_Attribute spec,
      pbp_Multiple = pg_Multiple spec\<rparr>"

definition ToProtoExtractionSpec :: "json_lib \<Rightarrow> ExtractionSpec \<Rightarrow> pb_ExtractionSpec" where
  "ToProtoExtractionSpec lib spec =
     \<lparr>pbx_Fields = map (\<lambda>f. Some (ToProtoFieldSpec lib f)) (spec_Fields spec),
      pbx_Pagination = map (\<lambda>p. Some (ToProtoPaginationSpec p)) (spec_Pagination spec),
      pbx_Items = ToProtoItemsSpec lib (spec_Items spec)\<rparr>"

definition ToProtoCrawlMode :: "CrawlMode \<Rightarrow> pb_CrawlMode" where
  "ToProtoCrawlMode mode =
     (if mode = CrawlModePaginationAndLinks then CRAWL_MODE_PAGINATION_AND_LINKS
      else if mode = CrawlModePaginationOnly then CRAWL_MODE_PAGINATION_ONLY
      else if mode = CrawlModeLinksOnly then CRAWL_MODE_LINKS_ONLY
      else CRAWL_MODE_UNSPECIFIED)"

definition ToProtoJobType :: "JobType \<Rightarrow> pb_JobType" where
  "ToProtoJobType jobType = (if jobType = JobTypeScheduled then JOB_TYPE_SCHEDULED else JOB_TYPE_ONCE)"

definition userIDPtr :: "string \<Rightarrow> string option" where
  "userIDPtr value = (if value = [] then None else Some value)"

definition ToProtoCrawlJobConfig :: "json_lib \<Rightarrow> CrawlJobConfig option \<Rightarrow> pb_CrawlJobConfig option" where
  "ToProtoCrawlJobConfig lib config =
     (case config of None \<Rightarrow> None
      | Some c \<Rightarrow> Some
          \<lparr>pbc_Id = cfg_ID c, pbc_UserId = userIDPtr (cfg_UserID c), pbc_Name = cfg_Name c,
           pbc_ExtractionSpec = Some (ToProtoExtractionSpec lib (cfg_ExtractionSpec c)),
           pbc_Scopes = Some (ToProtoScopeRules (cfg_Scopes c)),
           pbc_Seeds = map (\<lambda>s. Some (ToProtoSeed s)) (cfg_Seeds c),
           pbc_RateLimit = Some (ToProtoRateLimitPolicy (cfg_Rps c)),
           pbc_Retries = Some (ToProtoRetryPolicy (cfg_Retries c)),
           pbc_Auth = Some (ToProtoAuthOptions (cfg_Auth c)),
           pbc_Schedule = Some (ToProtoScheduleOptions (cfg_Schedule c)),
           pbc_JobType = ToProtoJobType (cfg_JobType c), pbc_RespectRobotsTxt = cfg_RespectRobotsTxt c,
           pbc_CrawlMode = ToProtoCrawlMode (cfg_CrawlMode c)\<rparr>)"

definition ToProtoCrawlJob :: "json_lib \<Rightarrow> CrawlJob option \<Rightarrow> pb_CrawlJob option" where
  "ToProtoCrawlJob lib job =
     (case job of None \<Rightarrow> None
      | Some j \<Rightarrow> Some
          \<lparr>pbj_Id = job_ID j, pbj_JobConfigId = job_JobConfigID j,
           pbj_JobConfig = ToProtoCrawlJobConfig lib (job_JobConfig j),
           pbj_UserId = userIDPtr (job_UserID j), pbj_Name = job_Name j, pbj_Status = job_Status j,
           pbj_CreatedAt = job_CreatedAt j, pbj_CompletedAt = job_CompletedAt j,
           pbj_ExportJsonKey = job_ExportJSONKey j, pbj_ExportCsvKey = job_ExportCSVKey j,
           pbj_ExportedAt = job_ExportedAt j, pbj_ExportStatus = job_ExportStatus j\<rparr>)"

definition ToProtoCrawlTask :: "json_lib \<Rightarrow> CrawlTask option \<Rightarrow> pb_CrawlTask option" where
  "ToProtoCrawlTask lib task =
     (case task of None \<Rightarrow> None
      | Some t \<Rightarrow> Some
          \<lparr>pbk_Id = task_ID t, pbk_JobId = task_JobID t, pbk_Job = ToProtoCrawlJob lib (task_Job t),
           pbk_Url = task_URL t, pbk_FinalUrl = task_FinalURL t, pbk_Status = task_Status t,
           pbk_EnqueuedAt = task_EnqueuedAt t, pbk_Depth = task_Depth t,
           pbk_MinioObjectKey = task_MinioObjectKey t, pbk_ResultObjectKey = task_ResultObjectKey t,
           pbk_ErrorMessage = task_ErrorMessage t\<rparr>)"

section \<open>To the domain\<close>

text \<open>A nil message is the zero value of the domain's struct.\<close>

definition zero_auth :: AuthOptions where
  "zero_auth = \<lparr>Cookie = [], BasicUser = [], BasicPassword = [], BearerToken = []\<rparr>"

definition zero_retry :: RetryPolicy where
  "zero_retry = \<lparr>MaxAttempts = 0, BackoffInitialMs = 0, BackoffMultiplier = 0\<rparr>"

definition zero_schedule :: ScheduleOptions where
  "zero_schedule = \<lparr>Cron = [], LastRunAt = None, NextRunAt = None\<rparr>"

definition zero_scopes :: ScopeRules where
  "zero_scopes = \<lparr>MaxDepth = 0, AllowedDomains = [], DenyUrlPatterns = [], AllowedURLPatterns = []\<rparr>"

definition zero_extractor :: ExtractorSpec where
  "zero_extractor = \<lparr>ex_Selector = [], ex_Attribute = [], ex_Multiple = False, ex_Index = None\<rparr>"

definition zero_transform :: TransformSpec where
  "zero_transform = \<lparr>tr_Op = [], tr_Arg = ArgNone\<rparr>"

definition zero_field :: FieldSpec where
  "zero_field = \<lparr>fs_Name = [], fs_Type = [], fs_Required = False, fs_Extractor = zero_extractor, fs_Transforms = []\<rparr>"

definition zero_page :: PaginationSpec where
  "zero_page = \<lparr>pg_Name = [], pg_Selector = [], pg_Attribute = [], pg_Multiple = False\<rparr>"

definition zero_spec :: ExtractionSpec where
  "zero_spec = \<lparr>spec_Fields = [], spec_Pagination = [], spec_Items = None\<rparr>"

definition zero_config :: CrawlJobConfig where
  "zero_config =
     \<lparr>cfg_ID = [], cfg_UserID = [], cfg_Name = [], cfg_ExtractionSpec = zero_spec, cfg_Scopes = zero_scopes,
      cfg_Seeds = [], cfg_Rps = 0, cfg_Retries = zero_retry, cfg_Auth = zero_auth, cfg_Schedule = zero_schedule,
      cfg_JobType = [], cfg_RespectRobotsTxt = False, cfg_CrawlMode = [], cfg_QueueWeights = []\<rparr>"

lemmas zero_defs = zero_auth_def zero_retry_def zero_schedule_def zero_scopes_def zero_extractor_def
  zero_transform_def zero_field_def zero_page_def zero_spec_def zero_config_def

definition FromProtoAuthOptions :: "pb_AuthOptions option \<Rightarrow> AuthOptions" where
  "FromProtoAuthOptions proto =
     (case proto of None \<Rightarrow> zero_auth
      | Some p \<Rightarrow> \<lparr>Cookie = pba_Cookie p, BasicUser = pba_BasicUser p, BasicPassword = pba_BasicPassword p,
                   BearerToken = pba_BearerToken p\<rparr>)"

definition FromProtoRateLimitPolicy :: "pb_RateLimitPolicy option \<Rightarrow> rat" where
  "FromProtoRateLimitPolicy proto = (case proto of None \<Rightarrow> 0 | Some p \<Rightarrow> pbl_Rps p)"

definition FromProtoRetryPolicy :: "pb_RetryPolicy option \<Rightarrow> RetryPolicy" where
  "FromProtoRetryPolicy proto =
     (case proto of None \<Rightarrow> zero_retry
      | Some p \<Rightarrow> \<lparr>MaxAttempts = pbr_MaxAttempts p, BackoffInitialMs = pbr_BackoffInitialMs p,
                   BackoffMultiplier = pbr_BackoffMultiplier p\<rparr>)"

definition FromProtoScheduleOptions :: "pb_ScheduleOptions option \<Rightarrow> ScheduleOptions" where
  "FromProtoScheduleOptions proto =
     (case proto of None \<Rightarrow> zero_schedule | Some p \<Rightarrow> zero_schedule\<lparr>Cron := pbs_Cron p\<rparr>)"

definition FromProtoScopeRules :: "pb_ScopeRules option \<Rightarrow> ScopeRules" where
  "FromProtoScopeRules proto =
     (case proto of None \<Rightarrow> zero_scopes
      | Some p \<Rightarrow> \<lparr>MaxDepth = pbs_MaxDepth p, AllowedDomains = pbs_AllowedDomains p,
                   DenyUrlPatterns = pbs_DenyUrlPatterns p, AllowedURLPatterns = pbs_AllowedUrlPatterns p\<rparr>)"

definition FromProtoSeed :: "pb_Seed option \<Rightarrow> string" where
  "FromProtoSeed proto = (case proto of None \<Rightarrow> [] | Some p \<Rightarrow> pbs_Url p)"

definition FromProtoExtractorSpec :: "pb_ExtractorSpec option \<Rightarrow> ExtractorSpec" where
  "FromProtoExtractorSpec proto =
     (case proto of None \<Rightarrow> zero_extractor
      | Some p \<Rightarrow> \<lparr>ex_Selector = pbe_Selector p, ex_Attribute = pbe_Attribute p, ex_Multiple = pbe_Multiple p,
                   ex_Index = (case pbe_Index p of None \<Rightarrow> None | Some w \<Rightarrow> Some (sint w))\<rparr>)"

definition FromProtoTransformSpec :: "json_lib \<Rightarrow> pb_TransformSpec option \<Rightarrow> TransformSpec" where
  "FromProtoTransformSpec lib proto =
     (case proto of None \<Rightarrow> zero_transform
      | Some p \<Rightarrow> \<lparr>tr_Op = pbt_Op p,
                   tr_Arg = (if pbt_Arg p \<noteq> [] then (case jl_unmarshal lib (pbt_Arg p) of Inl _ \<Rightarrow> ArgNone | Inr a \<Rightarrow> a)
                             else ArgNone)\<rparr>)"

definition FromProtoFieldSpec :: "json_lib \<Rightarrow> pb_FieldSpec option \<Rightarrow> FieldSpec" where
  "FromProtoFieldSpec lib proto =
     (case proto of None \<Rightarrow> zero_field
      | Some p \<Rightarrow> \<lparr>fs_Name = pbf_Name p, fs_Type = pbf_Type p, fs_Required = pbf_Required p,
                   fs_Extractor = FromProtoExtractorSpec (pbf_Extractor p),
                   fs_Transforms = map (FromProtoTransformSpec lib) (pbf_Transforms p)\<rparr>)"

definition FromProtoItemsSpec :: "json_lib \<Rightarrow> pb_ItemsSpec option \<Rightarrow> ItemsSpec option" where
  "FromProtoItemsSpec lib proto =
     (case proto of None \<Rightarrow> None
      | Some p \<Rightarrow> Some \<lparr>ContainerSelector = pbi_ContainerSelector p, items_Fields = map (FromProtoFieldSpec lib) (pbi_Fields p)\<rparr>)"

definition FromProtoPaginationSpec :: "pb_PaginationSpec option \<Rightarrow> PaginationSpec" where
  "FromProtoPaginationSpec proto =
     (case proto of None \<Rightarrow> zero_page
      | Some p \<Rightarrow> \<lparr>pg_Name = pbp_Name p, pg_Selector = pbp_Selector p, pg_Attribute = pbp_Attribute p,
                   pg_Multiple = pbp_Multiple p\<rparr>)"

definition FromProtoExtractionSpec :: "json_lib \<Rightarrow> pb_ExtractionSpec option \<Rightarrow> ExtractionSpec" where
  "FromProtoExtractionSpec lib proto =
     (case proto of None \<Rightarrow> zero_spec
      | Some p \<Rightarrow> \<lparr>spec_Fields = map (FromProtoFieldSpec lib) (pbx_Fields p),
                   spec_Pagination = map FromProtoPaginationSpec (pbx_Pagination p),
                   spec_Items = FromProtoItemsSpec lib (pbx_Items p)\<rparr>)"

definition FromProtoCrawlMode :: "pb_CrawlMode \<Rightarrow> CrawlMode" where
  "FromProtoCrawlMode mode =
     (case mode of
        CRAWL_MODE_PAGINATION_AND_LINKS \<Rightarrow> CrawlModePaginationAndLinks
      | CRAWL_MODE_PAGINATION_ONLY \<Rightarrow> CrawlModePaginationOnly
      | CRAWL_MODE_LINKS_ONLY \<Rightarrow> CrawlModeLinksOnly
      | _ \<Rightarrow> [])"

definition FromProtoJobType :: "pb_JobType \<Rightarrow> JobType" where
  "FromProtoJobType jobType = (case jobType of JOB_TYPE_SCHEDULED \<Rightarrow> JobTypeScheduled | _ \<Rightarrow> JobTypeOnce)"

definition FromProtoCrawlJobConfig :: "json_lib \<Rightarrow> pb_CrawlJobConfig option \<Rightarrow> CrawlJobConfig" where
  "FromProtoCrawlJobConfig lib proto =
     (case proto of None \<Rightarrow> zero_config
      | Some p \<Rightarrow> zero_config
          \<lparr>cfg_Name := pbc_Name p, cfg_ExtractionSpec := FromProtoExtractionSpec lib (pbc_ExtractionSpec p),
           cfg_Scopes := FromProtoScopeRules (pbc_Scopes p), cfg_Seeds := map FromProtoSeed (pbc_Seeds p),
           cfg_Rps := FromProtoRateLimitPolicy (pbc_RateLimit p), cfg_Retries := FromProtoRetryPolicy (pbc_Retries p),
           cfg_Auth := FromProtoAuthOptions (pbc_Auth p), cfg_Schedule := FromProtoScheduleOptions (pbc_Schedule p),
           cfg_JobType := FromProtoJobType (pbc_JobType p), cfg_RespectRobotsTxt := pbc_RespectRobotsTxt p,
           cfg_CrawlMode := FromProtoCrawlMode (pbc_CrawlMode p)\<rparr>)"

section \<open>Round trip\<close>

text \<open>A pair of converters that keep the values of a set; they keep lists of them as well.\<close>

locale message =
  fixes to_pb :: "'a \<Rightarrow> 'b" and from_pb :: "'b option \<Rightarrow> 'a" and keeps :: "'a \<Rightarrow> bool"
  assumes kept: "keeps x \<Longrightarrow> from_pb (Some (to_pb x)) = x"
begin

lemma list_kept: "\<forall>x \<in> set xs. keeps x \<Longrightarrow> map (from_pb \<circ> (\<lambda>x. Some (to_pb x))) xs = xs"
  by (induction xs) (auto simp: kept)

end

definition index_keeps :: "ExtractorSpec \<Rightarrow> bool" where
  "index_keeps e \<longleftrightarrow> (case ex_Index e of None \<Rightarrow> True | Some i \<Rightarrow> - (2 ^ 31) \<le> i \<and> i < 2 ^ 31)"

definition arg_keeps :: "json_lib \<Rightarrow> transform_arg \<Rightarrow> bool" where
  "arg_keeps lib a \<longleftrightarrow> a = ArgNone \<or>
     (case jl_marshal lib a of Inl _ \<Rightarrow> False | Inr s \<Rightarrow> s \<noteq> [] \<and> jl_unmarshal lib s = Inr a)"

definition field_keeps :: "json_lib \<Rightarrow> FieldSpec \<Rightarrow> bool" where
  "field_keeps lib f \<longleftrightarrow> index_keeps (fs_Extractor f) \<and> (\<forall>t \<in> set (fs_Transforms f). arg_keeps lib (tr_Arg t))"

definition spec_keeps :: "json_lib \<Rightarrow> ExtractionSpec \<Rightarrow> bool" where
  "spec_keeps lib s \<longleftrightarrow> (\<forall>f \<in> set (spec_Fields s). field_keeps lib f) \<and>
     (case spec_Items s of None \<Rightarrow> True | Some i \<Rightarrow> \<forall>f \<in> set (items_Fields i). field_keeps lib f)"

interpretation pb_seed: message ToProtoSeed FromProtoSeed "\<lambda>_. True"
  by unfold_locales (simp add: ToProtoSeed_def FromProtoSeed_def)

interpretation pb_page: message ToProtoPaginationSpec FromProtoPaginationSpec "\<lambda>_. True"
  by unfold_locales (simp add: ToProtoPaginationSpec_def FromProtoPaginationSpec_def)

lemma int32_kept: "- (2 ^ 31) \<le> i \<Longrightarrow> i < 2 ^ 31 \<Longrightarrow> sint (word_of_int i :: 32 word) = i"
  by (simp add: signed_take_bit_int_eq_self sint_sbintrunc')

interpretation pb_extractor: message ToProtoExtractorSpec FromProtoExtractorSpec index_keeps
  by unfold_locales
    (auto simp: ToProtoExtractorSpec_def FromProtoExtractorSpec_def index_keeps_def int32_kept split: option.splits)

interpretation pb_transform: message "ToProtoTransformSpec lib" "FromProtoTransformSpec lib" "\<lambda>t. arg_keeps lib (tr_Arg t)" for lib
  by unfold_locales
    (auto simp: ToProtoTransformSpec_def FromProtoTransformSpec_def arg_keeps_def split: sum.splits)

interpretation pb_field: message "ToProtoFieldSpec lib" "FromProtoFieldSpec lib" "field_keeps lib" for lib
  by unfold_locales
    (simp add: ToProtoFieldSpec_def FromProtoFieldSpec_def field_keeps_def pb_extractor.kept pb_transform.list_kept)

interpretation pb_spec: message "ToProtoExtractionSpec lib" "FromProtoExtractionSpec lib" "spec_keeps lib" for lib
  by unfold_locales
    (auto simp: ToProtoExtractionSpec_def FromProtoExtractionSpec_def spec_keeps_def ToProtoItemsSpec_def
      FromProtoItemsSpec_def pb_field.list_kept pb_page.list_kept split: option.splits)

text \<open>
  What a client reads is what it may send.  The configuration of a job, converted to the message
  of a response and sent back as the message of a request, is the same configuration, without what
  the service assigns (identifier, owner, the times of runs) and without its queue weights, which the
  message has no field for.
\<close>

theorem config_message_roundtrip:
  assumes "spec_keeps lib (cfg_ExtractionSpec config)"
    and "cfg_JobType config \<in> {JobTypeOnce, JobTypeScheduled}"
    and "cfg_CrawlMode config \<in> {CrawlModePaginationAndLinks, CrawlModePaginationOnly, CrawlModeLinksOnly, []}"
  shows "FromProtoCrawlJobConfig lib (ToProtoCrawlJobConfig lib (Some config)) =
     config\<lparr>cfg_ID := [], cfg_UserID := [], cfg_QueueWeights := [],
            cfg_Schedule := (cfg_Schedule config)\<lparr>LastRunAt := None, NextRunAt := None\<rparr>\<rparr>"
  using assms pb_seed.list_kept [of "cfg_Seeds config"]
  by (cases config)
    (auto simp: FromProtoCrawlJobConfig_def ToProtoCrawlJobConfig_def zero_defs pb_spec.kept
      ToProtoScopeRules_def FromProtoScopeRules_def ToProtoRateLimitPolicy_def FromProtoRateLimitPolicy_def
      ToProtoRetryPolicy_def FromProtoRetryPolicy_def ToProtoAuthOptions_def FromProtoAuthOptions_def
      ToProtoScheduleOptions_def FromProtoScheduleOptions_def ToProtoJobType_def FromProtoJobType_def
      ToProtoCrawlMode_def FromProtoCrawlMode_def status_defs)

end
