(* ===== verification/Auth_Service.thy ===== *)
theory Auth_Service
  imports Fetch_Worker
begin

text \<open>
  Users and sessions: \<^verbatim>\<open>internal/domain/auth/models\<close>, the repositories of users and refresh
  tokens under \<^verbatim>\<open>postgres/repos\<close>, \<^verbatim>\<open>application/service/auth\<close> and
  \<^verbatim>\<open>application/service/user\<close>.  The tables are lists of rows, as for the crawl tables; a
  user's row is the user.  \<open>sha\<close> is the hash of a refresh token and \<open>auth_env\<close> what one call draws
  from outside: the address parser, bcrypt, the JWT signer, random tokens, fresh identifiers, the
  clock and the failures of the statements.
\<close>

section \<open>Model\<close>

type_synonym Role = string
type_synonym RefreshTokenID = string

definition RoleRead :: Role where [status_defs]: "RoleRead = ''READ''"
definition RoleReadWrite :: Role where [status_defs]: "RoleReadWrite = ''READ_WRITE''"
definition RoleAdministrator :: Role where [status_defs]: "RoleAdministrator = ''ADMINISTRATOR''"

definition Role_IsValid :: "Role \<Rightarrow> bool" where
  "Role_IsValid r \<longleftrightarrow> r \<in> {RoleRead, RoleReadWrite, RoleAdministrator}"

definition ParseRole :: "string \<Rightarrow> Role res" where
  "ParseRole value = (if Role_IsValid value then Inr value else Inl (ErrText (''invalid role: '' @ value)))"

definition Role_Level :: "Role \<Rightarrow> nat" where
  "Role_Level r = (if r = RoleRead then 1 else if r = RoleReadWrite then 2 else if r = RoleAdministrator then 3 else 0)"

record User =
  usr_ID :: UserID
  usr_Email :: string
  usr_PasswordHash :: string
  usr_Role :: Role
  usr_CreatedAt :: time
  usr_UpdatedAt :: time

record RefreshToken =
  rt_ID :: RefreshTokenID
  rt_UserID :: UserID
  rt_TokenHash :: string
  rt_ExpiresAt :: time
  rt_RevokedAt :: "time option"
  rt_CreatedAt :: time
  rt_ReplacedBy :: "RefreshTokenID option"

definition NewUser :: "UserID \<Rightarrow> time \<Rightarrow> string \<Rightarrow> string \<Rightarrow> User" where
  "NewUser fresh now email passwordHash =
     \<lparr>usr_ID = fresh, usr_Email = email, usr_PasswordHash = passwordHash, usr_Role = RoleRead,
      usr_CreatedAt = now, usr_UpdatedAt = now\<rparr>"

definition NewRefreshToken :: "RefreshTokenID \<Rightarrow> time \<Rightarrow> UserID \<Rightarrow> string \<Rightarrow> time \<Rightarrow> RefreshToken" where
  "NewRefreshToken fresh now userID tokenHash expiresAt =
     \<lparr>rt_ID = fresh, rt_UserID = userID, rt_TokenHash = tokenHash, rt_ExpiresAt = expiresAt,
      rt_RevokedAt = None, rt_CreatedAt = now, rt_ReplacedBy = None\<rparr>"

definition IsRevoked :: "RefreshToken \<Rightarrow> bool" where
  "IsRevoked rt \<longleftrightarrow> rt_RevokedAt rt \<noteq> None"

definition IsExpired :: "time \<Rightarrow> RefreshToken \<Rightarrow> bool" where
  "IsExpired now rt \<longleftrightarrow> rt_ExpiresAt rt < now"

definition token_IsValid :: "time \<Rightarrow> RefreshToken \<Rightarrow> bool" where
  "token_IsValid now rt \<longleftrightarrow> \<not> IsRevoked rt \<and> \<not> IsExpired now rt"

definition Revoke :: "time \<Rightarrow> RefreshToken \<Rightarrow> RefreshToken" where
  "Revoke now rt = rt\<lparr>rt_RevokedAt := Some now\<rparr>"

record auth_db =
  a_users :: "User list"
  a_tokens :: "RefreshToken list"

subsection \<open>Repositories\<close>

definition UserSnapshotToModel :: "(string \<Rightarrow> bool) \<Rightarrow> User \<Rightarrow> User res" where
  "UserSnapshotToModel ok s =
     bind_res (NewUserID ok (usr_ID s)) (\<lambda>i. bind_res (ParseRole (usr_Role s)) (\<lambda>r. Inr (s\<lparr>usr_ID := i, usr_Role := r\<rparr>)))"

definition check_violation :: gerr where
  "check_violation = ErrText ''new row violates check constraint''"

definition user_Create :: "(string \<Rightarrow> bool) \<Rightarrow> User \<Rightarrow> auth_db \<Rightarrow> UserID res \<times> auth_db" where
  "user_Create ok u db =
     (if usr_ID u \<in> usr_ID ` set (a_users db) \<or> usr_Email u \<in> usr_Email ` set (a_users db) then (Inl unique_violation, db)
      else if \<not> Role_IsValid (usr_Role u) then (Inl check_violation, db)
      else (NewUserID ok (usr_ID u), db\<lparr>a_users := a_users db @ [u]\<rparr>))"

definition user_GetByID :: "(string \<Rightarrow> bool) \<Rightarrow> UserID \<Rightarrow> auth_db \<Rightarrow> User option res" where
  "user_GetByID ok i db =
     (case List.find (\<lambda>u. usr_ID u = i) (a_users db) of
        None \<Rightarrow> Inr None
      | Some u \<Rightarrow> bind_res (UserSnapshotToModel ok u) (\<lambda>u. Inr (Some u)))"

definition user_GetByEmail :: "(string \<Rightarrow> bool) \<Rightarrow> string \<Rightarrow> auth_db \<Rightarrow> User option res" where
  "user_GetByEmail ok email db =
     (case List.find (\<lambda>u. usr_Email u = email) (a_users db) of
        None \<Rightarrow> Inr None
      | Some u \<Rightarrow> bind_res (UserSnapshotToModel ok u) (\<lambda>u. Inr (Some u)))"

definition user_Update :: "User \<Rightarrow> auth_db \<Rightarrow> unit res \<times> auth_db" where
  "user_Update u db =
     (if usr_ID u \<notin> usr_ID ` set (a_users db) then (Inr (), db)
      else if \<exists>x \<in> set (a_users db). usr_ID x \<noteq> usr_ID u \<and> usr_Email x = usr_Email u then (Inl unique_violation, db)
      else if \<not> Role_IsValid (usr_Role u) then (Inl check_violation, db)
      else (Inr (), db\<lparr>a_users := map (\<lambda>x. if usr_ID x = usr_ID u then u\<lparr>usr_CreatedAt := usr_CreatedAt x\<rparr> else x) (a_users db)\<rparr>))"

definition user_List :: "(string \<Rightarrow> bool) \<Rightarrow> auth_db \<Rightarrow> User list res" where
  "user_List ok db = map_res (UserSnapshotToModel ok) (sort_key (\<lambda>u. - usr_CreatedAt u) (a_users db))"

definition user_UpdateRole :: "time \<Rightarrow> UserID \<Rightarrow> Role \<Rightarrow> auth_db \<Rightarrow> unit res \<times> auth_db" where
  "user_UpdateRole now i role db =
     (if \<not> Role_IsValid role \<and> i \<in> usr_ID ` set (a_users db) then (Inl check_violation, db)
      else (Inr (), db\<lparr>a_users := map (\<lambda>u. if usr_ID u = i then u\<lparr>usr_Role := role, usr_UpdatedAt := now\<rparr> else u) (a_users db)\<rparr>))"

definition RefreshTokenSnapshotToModel :: "(string \<Rightarrow> bool) \<Rightarrow> RefreshToken \<Rightarrow> RefreshToken res" where
  "RefreshTokenSnapshotToModel ok s =
     bind_res (NewID ok (rt_ID s)) (\<lambda>i. bind_res (NewUserID ok (rt_UserID s)) (\<lambda>u.
     bind_res (case rt_ReplacedBy s of None \<Rightarrow> Inr None | Some r \<Rightarrow> bind_res (NewID ok r) (\<lambda>x. Inr (Some x))) (\<lambda>r.
       Inr (s\<lparr>rt_ID := i, rt_UserID := u, rt_ReplacedBy := r\<rparr>))))"

definition token_Create :: "(string \<Rightarrow> bool) \<Rightarrow> RefreshToken \<Rightarrow> auth_db \<Rightarrow> RefreshTokenID res \<times> auth_db" where
  "token_Create ok t db =
     (if rt_ID t \<in> rt_ID ` set (a_tokens db) \<or> rt_TokenHash t \<in> rt_TokenHash ` set (a_tokens db) then (Inl unique_violation, db)
      else if rt_UserID t \<notin> usr_ID ` set (a_users db) then (Inl fk_violation, db)
      else (NewID ok (rt_ID t), db\<lparr>a_tokens := a_tokens db @ [t]\<rparr>))"

definition find_token :: "auth_db \<Rightarrow> string \<Rightarrow> RefreshToken option" where
  "find_token db h = List.find (\<lambda>t. rt_TokenHash t = h) (a_tokens db)"

definition token_GetByTokenHash :: "(string \<Rightarrow> bool) \<Rightarrow> string \<Rightarrow> auth_db \<Rightarrow> RefreshToken option res" where
  "token_GetByTokenHash ok h db =
     (case find_token db h of
        None \<Rightarrow> Inr None
      | Some t \<Rightarrow> bind_res (RefreshTokenSnapshotToModel ok t) (\<lambda>t. Inr (Some t)))"

definition token_GetByID :: "(string \<Rightarrow> bool) \<Rightarrow> RefreshTokenID \<Rightarrow> auth_db \<Rightarrow> RefreshToken option res" where
  "token_GetByID ok i db =
     (case List.find (\<lambda>t. rt_ID t = i) (a_tokens db) of
        None \<Rightarrow> Inr None
      | Some t \<Rightarrow> bind_res (RefreshTokenSnapshotToModel ok t) (\<lambda>t. Inr (Some t)))"

definition token_Update :: "RefreshToken \<Rightarrow> auth_db \<Rightarrow> unit res \<times> auth_db" where
  "token_Update t db =
     (Inr (), db\<lparr>a_tokens := map (\<lambda>x. if rt_ID x = rt_ID t
        then x\<lparr>rt_RevokedAt := rt_RevokedAt t, rt_ReplacedBy := rt_ReplacedBy t\<rparr> else x) (a_tokens db)\<rparr>)"

definition token_RevokeByTokenHash :: "time \<Rightarrow> string \<Rightarrow> auth_db \<Rightarrow> unit res \<times> auth_db" where
  "token_RevokeByTokenHash now h db =
     (Inr (), db\<lparr>a_tokens := map (\<lambda>x. if rt_TokenHash x = h then x\<lparr>rt_RevokedAt := Some now\<rparr> else x) (a_tokens db)\<rparr>)"

definition token_RevokeAllByUserID :: "time \<Rightarrow> UserID \<Rightarrow> auth_db \<Rightarrow> unit res \<times> auth_db" where
  "token_RevokeAllByUserID now u db =
     (Inr (), db\<lparr>a_tokens := map (\<lambda>x. if rt_UserID x = u \<and> rt_RevokedAt x = None then x\<lparr>rt_RevokedAt := Some now\<rparr> else x)
                               (a_tokens db)\<rparr>)"

subsection \<open>The services\<close>

record Claims =
  cl_UserID :: string
  cl_Role :: string
  cl_ExpiresAt :: time
  cl_IssuedAt :: time
  cl_Issuer :: string
  cl_Audience :: string

record AuthTokens =
  AccessToken :: string
  RefreshTokenStr :: string
  ExpiresIn :: int

record auth_env =
  ae_uuid_ok :: "string \<Rightarrow> bool"
  ae_email_ok :: "string \<Rightarrow> bool"
  ae_bcrypt :: "string \<Rightarrow> string res"
  ae_compare :: "string \<Rightarrow> string \<Rightarrow> bool"
  ae_sign :: "Claims \<Rightarrow> string res"
  ae_random :: "string res"
  ae_userID :: string
  ae_tokenID :: string
  ae_now :: time
  ae_issuer :: string
  ae_audience :: string
  ae_accessTTL :: duration
  ae_refreshTTL :: duration
  ae_begin :: "gerr option"
  ae_commit :: "gerr option"
  ae_read :: "gerr option"
  ae_read_tx :: "gerr option"
  ae_write :: "gerr option"
  ae_store :: "gerr option"

definition ErrUserExists :: gerr where "ErrUserExists = ErrText ''user already exists''"
definition ErrInvalidCredentials :: gerr where "ErrInvalidCredentials = ErrText ''invalid credentials''"
definition ErrInvalidRefreshToken :: gerr where "ErrInvalidRefreshToken = ErrText ''invalid refresh token''"
definition ErrPasswordTooShort :: gerr where "ErrPasswordTooShort = ErrText ''password must be at least 8 characters''"
definition ErrInvalidEmail :: gerr where "ErrInvalidEmail = ErrText ''invalid email format''"

definition HashPassword :: "auth_env \<Rightarrow> string \<Rightarrow> string res" where
  "HashPassword env password = (if password = [] then Inl (ErrText ''invalid password'') else ae_bcrypt env password)"

definition SignAccessToken :: "auth_env \<Rightarrow> string \<Rightarrow> Role \<Rightarrow> string res" where
  "SignAccessToken env userID role =
     ae_sign env \<lparr>cl_UserID = userID, cl_Role = role, cl_ExpiresAt = ae_now env + ae_accessTTL env,
                  cl_IssuedAt = ae_now env, cl_Issuer = ae_issuer env, cl_Audience = ae_audience env\<rparr>"

definition generateTokens :: "(string \<Rightarrow> string) \<Rightarrow> auth_env \<Rightarrow> User \<Rightarrow> auth_db \<Rightarrow> AuthTokens res \<times> auth_db" where
  "generateTokens sha env user db =
     (case SignAccessToken env (usr_ID user) (usr_Role user) of
        Inl e \<Rightarrow> (Inl (ErrWrap ''failed to sign access token'' e), db)
      | Inr accessToken \<Rightarrow>
          (case ae_random env of
             Inl e \<Rightarrow> (Inl (ErrWrap ''failed to generate refresh token'' e), db)
           | Inr refreshToken \<Rightarrow>
               (case db_call (ae_store env) (token_Create (ae_uuid_ok env)
                       (NewRefreshToken (ae_tokenID env) (ae_now env) (usr_ID user) (sha refreshToken)
                          (ae_now env + ae_refreshTTL env))) db of
                  (Inl e, db') \<Rightarrow> (Inl (ErrWrap ''failed to store refresh token'' e), db')
                | (Inr _, db') \<Rightarrow>
                    (Inr \<lparr>AccessToken = accessToken, RefreshTokenStr = refreshToken,
                          ExpiresIn = ae_accessTTL env div Second\<rparr>, db'))))"

definition Register :: "(string \<Rightarrow> string) \<Rightarrow> auth_env \<Rightarrow> string \<Rightarrow> string \<Rightarrow> auth_db \<Rightarrow> AuthTokens res \<times> auth_db" where
  "Register sha env email password db =
     (if \<not> ae_email_ok env email then (Inl ErrInvalidEmail, db)
      else if length password < 8 then (Inl ErrPasswordTooShort, db)
      else case db_read (ae_read env) (user_GetByEmail (ae_uuid_ok env) email) db of
             Inl e \<Rightarrow> (Inl (ErrWrap ''failed to check existing user'' e), db)
           | Inr (Some _) \<Rightarrow> (Inl ErrUserExists, db)
           | Inr None \<Rightarrow>
               (case HashPassword env password of
                  Inl e \<Rightarrow> (Inl (ErrWrap ''failed to hash password'' e), db)
                | Inr passwordHash \<Rightarrow>
                    let user = NewUser (ae_userID env) (ae_now env) email passwordHash
                    in transaction (ae_begin env) (ae_commit env) (\<lambda>db.
                         case db_call (ae_write env) (user_Create (ae_uuid_ok env) user) db of
                           (Inl e, db1) \<Rightarrow> (Inl (ErrWrap ''failed to create user'' e), db1)
                         | (Inr _, db1) \<Rightarrow>
                             (case generateTokens sha env user db1 of
                                (Inl e, db2) \<Rightarrow> (Inl (ErrWrap ''failed to generate tokens'' e), db2)
                              | (Inr tokens, db2) \<Rightarrow> (Inr tokens, db2))) db))"

definition Login :: "(string \<Rightarrow> string) \<Rightarrow> auth_env \<Rightarrow> string \<Rightarrow> string \<Rightarrow> auth_db \<Rightarrow> AuthTokens res \<times> auth_db" where
  "Login sha env email password db =
     (case db_read (ae_read env) (user_GetByEmail (ae_uuid_ok env) email) db of
        Inl e \<Rightarrow> (Inl (ErrWrap ''failed to get user'' e), db)
      | Inr None \<Rightarrow> (Inl ErrInvalidCredentials, db)
      | Inr (Some user) \<Rightarrow>
          if \<not> ae_compare env (usr_PasswordHash user) password then (Inl ErrInvalidCredentials, db)
          else transaction (ae_begin env) (ae_commit env) (\<lambda>db.
                 case db_call (ae_write env) (token_RevokeAllByUserID (ae_now env) (usr_ID user)) db of
                   (Inl e, db1) \<Rightarrow> (Inl (ErrWrap ''failed to revoke existing tokens'' e), db1)
                 | (Inr _, db1) \<Rightarrow>
                     (case generateTokens sha env user db1 of
                        (Inl e, db2) \<Rightarrow> (Inl (ErrWrap ''failed to generate tokens'' e), db2)
                      | (Inr tokens, db2) \<Rightarrow> (Inr tokens, db2))) db)"

text \<open>
  \<^verbatim>\<open>Refresh\<close> in its two parts: the token is looked up and checked before the transaction in which
  it is replaced.
\<close>

definition refresh_lookup :: "(string \<Rightarrow> string) \<Rightarrow> auth_env \<Rightarrow> string \<Rightarrow> auth_db \<Rightarrow> RefreshToken res" where
  "refresh_lookup sha env token db =
     (case db_read (ae_read env) (token_GetByTokenHash (ae_uuid_ok env) (sha token)) db of
        Inl e \<Rightarrow> Inl (ErrWrap ''failed to get refresh token'' e)
      | Inr None \<Rightarrow> Inl ErrInvalidRefreshToken
      | Inr (Some rt) \<Rightarrow> if \<not> token_IsValid (ae_now env) rt then Inl ErrInvalidRefreshToken else Inr rt)"

definition refresh_rotate :: "(string \<Rightarrow> string) \<Rightarrow> auth_env \<Rightarrow> RefreshToken \<Rightarrow> auth_db \<Rightarrow> AuthTokens res \<times> auth_db" where
  "refresh_rotate sha env rt db =
     transaction (ae_begin env) (ae_commit env) (\<lambda>db.
       case db_call (ae_write env) (token_Update (Revoke (ae_now env) rt)) db of
         (Inl e, db1) \<Rightarrow> (Inl (ErrWrap ''failed to revoke old token'' e), db1)
       | (Inr _, db1) \<Rightarrow>
           (case db_read (ae_read_tx env) (user_GetByID (ae_uuid_ok env) (rt_UserID rt)) db1 of
              Inl e \<Rightarrow> (Inl (ErrWrap ''failed to get user'' e), db1)
            | Inr None \<Rightarrow> (Inl ErrInvalidRefreshToken, db1)
            | Inr (Some user) \<Rightarrow>
                (case generateTokens sha env user db1 of
                   (Inl e, db2) \<Rightarrow> (Inl (ErrWrap ''failed to generate new tokens'' e), db2)
                 | (Inr tokens, db2) \<Rightarrow> (Inr tokens, db2)))) db"

definition Refresh :: "(string \<Rightarrow> string) \<Rightarrow> auth_env \<Rightarrow> string \<Rightarrow> auth_db \<Rightarrow> AuthTokens res \<times> auth_db" where
  "Refresh sha env token db =
     (case refresh_lookup sha env token db of
        Inl e \<Rightarrow> (Inl e, db)
      | Inr rt \<Rightarrow> refresh_rotate sha env rt db)"

definition Logout :: "(string \<Rightarrow> string) \<Rightarrow> auth_env \<Rightarrow> string \<Rightarrow> auth_db \<Rightarrow> unit res \<times> auth_db" where
  "Logout sha env token db =
     (case db_call (ae_write env) (token_RevokeByTokenHash (ae_now env) (sha token)) db of
        (Inl e, db') \<Rightarrow> (Inl (ErrWrap ''failed to revoke token'' e), db')
      | (Inr _, db') \<Rightarrow> (Inr (), db'))"

definition ErrInvalidRole :: gerr where "ErrInvalidRole = ErrText ''invalid role''"
definition ErrRoleNotAllowed :: gerr where "ErrRoleNotAllowed = ErrText ''role is not allowed''"
definition ErrInvalidUserID :: gerr where "ErrInvalidUserID = ErrText ''invalid user id''"
definition ErrUserNotFound :: gerr where "ErrUserNotFound = ErrText ''user not found''"
definition ErrRoleUnchanged :: gerr where "ErrRoleUnchanged = ErrText ''role is already assigned''"

definition UpdateUserRole :: "auth_env \<Rightarrow> string \<Rightarrow> Role \<Rightarrow> auth_db \<Rightarrow> unit res \<times> auth_db" where
  "UpdateUserRole env user role db =
     (if \<not> Role_IsValid role then (Inl ErrInvalidRole, db)
      else if role = RoleAdministrator then (Inl ErrRoleNotAllowed, db)
      else case NewUserID (ae_uuid_ok env) user of
             Inl _ \<Rightarrow> (Inl ErrInvalidUserID, db)
           | Inr userID \<Rightarrow>
               transaction (ae_begin env) (ae_commit env) (\<lambda>db.
                 case db_read (ae_read_tx env) (user_GetByID (ae_uuid_ok env) userID) db of
                   Inl e \<Rightarrow> (Inl e, db)
                 | Inr None \<Rightarrow> (Inl ErrUserNotFound, db)
                 | Inr (Some u) \<Rightarrow>
                     if usr_Role u = role then (Inl ErrRoleUnchanged, db)
                     else db_call (ae_write env) (user_UpdateRole (ae_now env) userID role) db) db)"

section \<open>Consistency and sessions\<close>

definition auth_inv :: "auth_db \<Rightarrow> bool" where
  "auth_inv db \<longleftrightarrow>
     distinct (map usr_ID (a_users db)) \<and> distinct (map usr_Email (a_users db)) \<and>
     (\<forall>u \<in> set (a_users db). Role_IsValid (usr_Role u)) \<and>
     distinct (map rt_ID (a_tokens db)) \<and> distinct (map rt_TokenHash (a_tokens db)) \<and>
     (\<forall>t \<in> set (a_tokens db). rt_UserID t \<in> usr_ID ` set (a_users db))"

definition sessions :: "auth_db \<Rightarrow> UserID \<Rightarrow> RefreshToken list" where
  "sessions db u = filter (\<lambda>t. rt_UserID t = u \<and> \<not> IsRevoked t) (a_tokens db)"

definition auth_ok :: "auth_db \<Rightarrow> bool" where
  "auth_ok db \<longleftrightarrow> auth_inv db \<and> (\<forall>u. length (sessions db u) \<le> 1)"

text \<open>The same with a larger bound for each user, for the histories in which refreshes overlap.\<close>

definition auth_within :: "(UserID \<Rightarrow> nat) \<Rightarrow> auth_db \<Rightarrow> bool" where
  "auth_within k db \<longleftrightarrow> auth_inv db \<and> (\<forall>u. length (sessions db u) \<le> Suc (k u))"

lemma auth_ok_within: "auth_ok db \<longleftrightarrow> auth_within (\<lambda>_. 0) db"
  by (simp add: auth_ok_def auth_within_def)

lemma auth_within_inv: "auth_within k db \<Longrightarrow> auth_inv db"
  by (simp add: auth_within_def)

text \<open>Changes of the token table that keep identities and never undo a revocation.\<close>

definition keeps :: "(RefreshToken \<Rightarrow> RefreshToken) \<Rightarrow> bool" where
  "keeps f \<longleftrightarrow> (\<forall>x. rt_ID (f x) = rt_ID x \<and> rt_UserID (f x) = rt_UserID x \<and> rt_TokenHash (f x) = rt_TokenHash x \<and>
                (IsRevoked x \<longrightarrow> IsRevoked (f x)))"

lemma auth_inv_map: "auth_inv db \<Longrightarrow> keeps f \<Longrightarrow> auth_inv (db\<lparr>a_tokens := map f (a_tokens db)\<rparr>)"
  by (auto simp: auth_inv_def keeps_def comp_def)

lemma sessions_map_sub:
  assumes "keeps f"
  shows "length (sessions (db\<lparr>a_tokens := map f (a_tokens db)\<rparr>) u) \<le> length (sessions db u)"
proof -
  have "length (filter (\<lambda>t. rt_UserID t = u \<and> \<not> IsRevoked t) (map f xs)) \<le> length (filter (\<lambda>t. rt_UserID t = u \<and> \<not> IsRevoked t) xs)" for xs
    using assms by (induction xs) (auto simp: keeps_def)
  then show ?thesis by (simp add: sessions_def)
qed

lemma auth_within_map: "auth_within k db \<Longrightarrow> keeps f \<Longrightarrow> auth_within k (db\<lparr>a_tokens := map f (a_tokens db)\<rparr>)"
  unfolding auth_within_def using auth_inv_map sessions_map_sub le_trans by metis

lemma sessions_map_less:
  assumes f: "keeps f" and x: "x \<in> set (a_tokens db)" "rt_UserID x = u" "\<not> IsRevoked x" "IsRevoked (f x)"
  shows "length (sessions (db\<lparr>a_tokens := map f (a_tokens db)\<rparr>) u) < length (sessions db u)"
proof -
  let ?P = "\<lambda>t. rt_UserID t = u \<and> \<not> IsRevoked t"
  have le: "length (filter ?P (map f ys)) \<le> length (filter ?P ys)" for ys
    using f by (induction ys) (auto simp: keeps_def)
  have "x \<in> set ys \<Longrightarrow> length (filter ?P (map f ys)) < length (filter ?P ys)" for ys
  proof (induction ys)
    case (Cons y ys)
    show ?case
    proof (cases "x = y")
      case True
      then show ?thesis using le [of ys] x by (auto simp: le_imp_less_Suc)
    next
      case False
      then show ?thesis using Cons f by (auto simp: keeps_def)
    qed
  qed simp
  then show ?thesis using x(1) by (simp add: sessions_def)
qed

lemma keeps_revocations:
  "keeps (\<lambda>x. if P x then x\<lparr>rt_RevokedAt := Some now\<rparr> else x)"
  "keeps (\<lambda>x. if P x then x\<lparr>rt_RevokedAt := Some now, rt_ReplacedBy := r\<rparr> else x)"
  by (simp_all add: keeps_def IsRevoked_def)

lemma token_Update_map:
  "token_Update (Revoke now rt) db =
     (Inr (), db\<lparr>a_tokens := map (\<lambda>x. if rt_ID x = rt_ID rt then x\<lparr>rt_RevokedAt := Some now, rt_ReplacedBy := rt_ReplacedBy rt\<rparr> else x)
                               (a_tokens db)\<rparr>)"
  by (simp add: token_Update_def Revoke_def)

lemma generateTokens_done:
  assumes "generateTokens sha env u db = (Inr toks, db')"
  shows "\<exists>t. rt_UserID t = usr_ID u \<and> \<not> IsRevoked t \<and> rt_TokenHash t = sha (RefreshTokenStr toks) \<and>
             rt_ID t \<notin> rt_ID ` set (a_tokens db) \<and> rt_TokenHash t \<notin> rt_TokenHash ` set (a_tokens db) \<and>
             rt_UserID t \<in> usr_ID ` set (a_users db) \<and> db' = db\<lparr>a_tokens := a_tokens db @ [t]\<rparr>"
proof -
  obtain a s x where s: "ae_random env = Inr s" "toks = \<lparr>AccessToken = a, RefreshTokenStr = s, ExpiresIn = ae_accessTTL env div Second\<rparr>"
    and c: "token_Create (ae_uuid_ok env) (NewRefreshToken (ae_tokenID env) (ae_now env) (usr_ID u) (sha s)
                          (ae_now env + ae_refreshTTL env)) db = (Inr x, db')"
    using assms by (cases "ae_store env") (auto simp: generateTokens_def split: sum.splits prod.splits)
  show ?thesis using s c
    by (intro exI [of _ "NewRefreshToken (ae_tokenID env) (ae_now env) (usr_ID u) (sha s) (ae_now env + ae_refreshTTL env)"])
      (auto simp: token_Create_def NewRefreshToken_def IsRevoked_def split: if_splits)
qed

lemma generateTokens_within:
  assumes ok: "auth_within k db" and e: "length (sessions db (usr_ID u)) \<le> k (usr_ID u)" and g: "generateTokens sha env u db = (Inr toks, db')"
  shows "auth_within k db'"
proof -
  obtain t where t: "rt_UserID t = usr_ID u" "rt_ID t \<notin> rt_ID ` set (a_tokens db)" "\<not> IsRevoked t"
    "rt_TokenHash t \<notin> rt_TokenHash ` set (a_tokens db)" "rt_UserID t \<in> usr_ID ` set (a_users db)"
    "db' = db\<lparr>a_tokens := a_tokens db @ [t]\<rparr>"
    using generateTokens_done [OF g] by blast
  have "sessions db' v = sessions db v @ (if v = usr_ID u then [t] else [])" for v
    using t by (simp add: sessions_def)
  then have "length (sessions db' v) \<le> Suc (k v)" for v using ok e by (simp add: auth_within_def)
  moreover have "auth_inv db'" using ok t by (auto simp: auth_within_def auth_inv_def)
  ultimately show ?thesis by (simp add: auth_within_def)
qed

lemma UserSnapshot_id: "UserSnapshotToModel ok s = Inr u \<Longrightarrow> u = s \<and> usr_ID u \<noteq> [] \<and> Role_IsValid (usr_Role u)"
  by (auto simp: UserSnapshotToModel_def bind_res_Inr_iff NewTypedID_eq NewID_def ParseRole_def split: if_splits)

lemma user_GetByID_Some:
  assumes "db_read f (user_GetByID ok i) db = Inr (Some u)"
  shows "u \<in> set (a_users db) \<and> usr_ID u = i \<and> i \<noteq> [] \<and> Role_IsValid (usr_Role u)"
  using assms by (auto simp: db_read_def user_GetByID_def bind_res_Inr_iff find_Some_iff split: option.splits
      dest!: UserSnapshot_id)

lemma user_GetByEmail_Some:
  assumes "db_read f (user_GetByEmail ok email) db = Inr (Some u)"
  shows "u \<in> set (a_users db) \<and> usr_Email u = email \<and> usr_ID u \<noteq> [] \<and> Role_IsValid (usr_Role u)"
  using assms by (auto simp: db_read_def user_GetByEmail_def bind_res_Inr_iff find_Some_iff split: option.splits
      dest!: UserSnapshot_id)

lemma TokenSnapshot_id: "RefreshTokenSnapshotToModel ok s = Inr t \<Longrightarrow> t = s"
proof -
  assume "RefreshTokenSnapshotToModel ok s = Inr t"
  then obtain i u r where i: "NewID ok (rt_ID s) = Inr i" "NewID ok (rt_UserID s) = Inr u"
    "(case rt_ReplacedBy s of None \<Rightarrow> Inr None | Some r \<Rightarrow> bind_res (NewID ok r) (\<lambda>x. Inr (Some x))) = (Inr r :: string option res)"
    "t = s\<lparr>rt_ID := i, rt_UserID := u, rt_ReplacedBy := r\<rparr>"
    by (auto simp: RefreshTokenSnapshotToModel_def bind_res_Inr_iff NewTypedID_eq)
  have "r = rt_ReplacedBy s" using i(3) by (cases "rt_ReplacedBy s") (auto simp: bind_res_Inr_iff dest: NewID_InrD)
  then show "t = s" using i NewID_InrD by fastforce
qed

lemma refresh_lookup_Inr:
  assumes "refresh_lookup sha env token db = Inr rt"
  shows "find_token db (sha token) = Some rt \<and> \<not> IsRevoked rt"
  using assms TokenSnapshot_id
  by (auto simp: refresh_lookup_def db_read_def token_GetByTokenHash_def token_IsValid_def bind_res_Inr_iff
      split: sum.splits option.splits if_splits)

lemma find_token_Some: "find_token db h = Some t \<Longrightarrow> t \<in> set (a_tokens db) \<and> rt_TokenHash t = h"
  by (auto simp: find_token_def find_Some_iff)

lemma find_token_iff:
  assumes "auth_inv db"
  shows "find_token db h = Some t \<longleftrightarrow> t \<in> set (a_tokens db) \<and> rt_TokenHash t = h"
proof
  assume t: "t \<in> set (a_tokens db) \<and> rt_TokenHash t = h"
  then obtain t' where t': "find_token db h = Some t'"
    unfolding find_token_def by (metis (mono_tags, lifting) find_Some_ex)
  have "inj_on rt_TokenHash (set (a_tokens db))" using assms by (simp add: auth_inv_def distinct_map)
  then have "t' = t" using t find_token_Some [OF t'] by (metis inj_onD)
  with t' show "find_token db h = Some t" by simp
qed (rule find_token_Some)

text \<open>What a refresh that succeeds has done: the presented token is revoked and a fresh one added.\<close>

lemma Refresh_done:
  assumes "Refresh sha env token db = (Inr toks, db')"
  shows "\<exists>rt u. find_token db (sha token) = Some rt \<and> \<not> IsRevoked rt \<and> usr_ID u = rt_UserID rt \<and>
     u \<in> set (a_users db) \<and> usr_ID u \<noteq> [] \<and> Role_IsValid (usr_Role u) \<and>
     generateTokens sha env u (db\<lparr>a_tokens := map (\<lambda>x. if rt_ID x = rt_ID rt
        then x\<lparr>rt_RevokedAt := Some (ae_now env), rt_ReplacedBy := rt_ReplacedBy rt\<rparr> else x) (a_tokens db)\<rparr>) = (Inr toks, db')"
proof -
  obtain rt where l: "refresh_lookup sha env token db = Inr rt" and r: "refresh_rotate sha env rt db = (Inr toks, db')"
    using assms by (auto simp: Refresh_def split: sum.splits)
  let ?db1 = "db\<lparr>a_tokens := map (\<lambda>x. if rt_ID x = rt_ID rt
        then x\<lparr>rt_RevokedAt := Some (ae_now env), rt_ReplacedBy := rt_ReplacedBy rt\<rparr> else x) (a_tokens db)\<rparr>"
  have w: "ae_write env = None"
    using r by (cases "ae_write env") (auto simp: refresh_rotate_def transaction_commits)
  then obtain u where u: "db_read (ae_read_tx env) (user_GetByID (ae_uuid_ok env) (rt_UserID rt)) ?db1 = Inr (Some u)"
    and g: "generateTokens sha env u ?db1 = (Inr toks, db')"
    using r by (auto simp: refresh_rotate_def transaction_commits token_Update_map split: sum.splits option.splits prod.splits)
  show ?thesis using g refresh_lookup_Inr [OF l] user_GetByID_Some [OF u]
    by (intro exI [of _ rt] exI [of _ u]) simp
qed

lemma Refresh_error: "Refresh sha env token db = (Inl e, db') \<Longrightarrow> db' = db"
  by (auto simp: Refresh_def refresh_rotate_def split: sum.splits dest: transaction_error_unchanged)

text \<open>Whether the token a refresh has looked up is still live.\<close>

definition live_id :: "auth_db \<Rightarrow> RefreshToken \<Rightarrow> bool" where
  "live_id db rt \<longleftrightarrow> (\<exists>x \<in> set (a_tokens db). rt_ID x = rt_ID rt \<and> rt_UserID x = rt_UserID rt \<and> \<not> IsRevoked x)"

lemma rotate_done:
  assumes "refresh_rotate sha env rt db = (Inr toks, db')"
  shows "\<exists>u. usr_ID u = rt_UserID rt \<and>
     generateTokens sha env u (db\<lparr>a_tokens := map (\<lambda>x. if rt_ID x = rt_ID rt
        then x\<lparr>rt_RevokedAt := Some (ae_now env), rt_ReplacedBy := rt_ReplacedBy rt\<rparr> else x) (a_tokens db)\<rparr>) = (Inr toks, db')"
proof -
  let ?db1 = "db\<lparr>a_tokens := map (\<lambda>x. if rt_ID x = rt_ID rt
        then x\<lparr>rt_RevokedAt := Some (ae_now env), rt_ReplacedBy := rt_ReplacedBy rt\<rparr> else x) (a_tokens db)\<rparr>"
  have "ae_write env = None"
    using assms by (cases "ae_write env") (auto simp: refresh_rotate_def transaction_commits)
  then obtain u where "db_read (ae_read_tx env) (user_GetByID (ae_uuid_ok env) (rt_UserID rt)) ?db1 = Inr (Some u)"
    "generateTokens sha env u ?db1 = (Inr toks, db')"
    using assms by (auto simp: refresh_rotate_def transaction_commits token_Update_map split: sum.splits option.splits prod.splits)
  then show ?thesis using user_GetByID_Some by blast
qed

text \<open>A rotation replaces a live token; of a token that was revoked since it was looked up it makes one more session.\<close>

lemma rotate_within:
  assumes ok: "auth_within k db" and r: "refresh_rotate sha env rt db = (Inr toks, db')"
  shows "auth_within (if live_id db rt then k else k(rt_UserID rt := Suc (k (rt_UserID rt)))) db'"
proof -
  let ?f = "\<lambda>x. if rt_ID x = rt_ID rt then x\<lparr>rt_RevokedAt := Some (ae_now env), rt_ReplacedBy := rt_ReplacedBy rt\<rparr> else x"
  let ?db1 = "db\<lparr>a_tokens := map ?f (a_tokens db)\<rparr>" and ?v = "rt_UserID rt"
  obtain u where u: "usr_ID u = ?v" and g: "generateTokens sha env u ?db1 = (Inr toks, db')"
    using rotate_done [OF r] by blast
  note w = auth_within_map [OF ok keeps_revocations(2) [where P = "\<lambda>x. rt_ID x = rt_ID rt" and now = "ae_now env" and r = "rt_ReplacedBy rt"]]
  show ?thesis
  proof (cases "live_id db rt")
    case True
    then obtain x where "x \<in> set (a_tokens db)" "rt_ID x = rt_ID rt" "rt_UserID x = ?v" "\<not> IsRevoked x"
      by (auto simp: live_id_def)
    then have "length (sessions ?db1 ?v) < length (sessions db ?v)"
      using sessions_map_less [OF keeps_revocations(2), of x db ?v] by (simp add: IsRevoked_def)
    also have "\<dots> \<le> Suc (k ?v)" using ok by (simp add: auth_within_def)
    finally have "length (sessions ?db1 (usr_ID u)) \<le> k (usr_ID u)" by (simp add: u)
    from generateTokens_within [OF w this g] show ?thesis using True by simp
  next
    case False
    let ?k = "k(?v := Suc (k ?v))"
    have "auth_within ?k ?db1" using w by (auto simp: auth_within_def intro: le_SucI)
    moreover have "length (sessions ?db1 (usr_ID u)) \<le> ?k (usr_ID u)" using w by (simp add: auth_within_def u)
    ultimately show ?thesis using generateTokens_within [OF _ _ g] False by simp
  qed
qed

lemma rotate_error: "refresh_rotate sha env rt db = (Inl e, db') \<Longrightarrow> db' = db"
  by (auto simp: refresh_rotate_def dest: transaction_error_unchanged)

lemma Refresh_within:
  assumes ok: "auth_within k db" and r: "Refresh sha env token db = (res, db')"
  shows "auth_within k db'"
proof (cases res)
  case (Inl e)
  then show ?thesis using ok r Refresh_error by blast
next
  case (Inr toks)
  then obtain rt where l: "refresh_lookup sha env token db = Inr rt" and r: "refresh_rotate sha env rt db = (Inr toks, db')"
    using r by (auto simp: Refresh_def split: sum.splits)
  have "live_id db rt" using refresh_lookup_Inr [OF l] find_token_Some by (auto simp: live_id_def)
  then show ?thesis using rotate_within [OF ok r] by simp
qed

lemma Login_done:
  assumes "Login sha env email password db = (Inr toks, db')"
  shows "\<exists>u. u \<in> set (a_users db) \<and> usr_Email u = email \<and> ae_compare env (usr_PasswordHash u) password \<and>
     usr_ID u \<noteq> [] \<and> Role_IsValid (usr_Role u) \<and>
     generateTokens sha env u (db\<lparr>a_tokens := map (\<lambda>x. if rt_UserID x = usr_ID u \<and> rt_RevokedAt x = None
        then x\<lparr>rt_RevokedAt := Some (ae_now env)\<rparr> else x) (a_tokens db)\<rparr>) = (Inr toks, db')"
proof -
  obtain u where u: "db_read (ae_read env) (user_GetByEmail (ae_uuid_ok env) email) db = Inr (Some u)"
    "ae_compare env (usr_PasswordHash u) password"
    using assms by (auto simp: Login_def split: sum.splits option.splits if_splits)
  note mem = user_GetByEmail_Some [OF u(1)]
  have "ae_write env = None" using assms u by (cases "ae_write env") (auto simp: Login_def transaction_commits)
  then show ?thesis using assms u mem
    by (auto simp: Login_def transaction_commits token_RevokeAllByUserID_def split: prod.splits sum.splits)
qed

text \<open>A login that succeeds leaves its user with one session, whatever there was.\<close>

lemma Login_session:
  assumes "Login sha env email password db = (Inr toks, db')"
  shows "\<exists>u \<in> set (a_users db). usr_Email u = email \<and> length (sessions db' (usr_ID u)) = 1"
proof -
  obtain u where u: "u \<in> set (a_users db)" "usr_Email u = email" and
    g: "generateTokens sha env u (db\<lparr>a_tokens := map (\<lambda>x. if rt_UserID x = usr_ID u \<and> rt_RevokedAt x = None
        then x\<lparr>rt_RevokedAt := Some (ae_now env)\<rparr> else x) (a_tokens db)\<rparr>) = (Inr toks, db')"
    using Login_done [OF assms] by blast
  obtain t where "rt_UserID t = usr_ID u" "\<not> IsRevoked t" "a_tokens db' = map (\<lambda>x. if rt_UserID x = usr_ID u \<and> rt_RevokedAt x = None
        then x\<lparr>rt_RevokedAt := Some (ae_now env)\<rparr> else x) (a_tokens db) @ [t]"
    using generateTokens_done [OF g] by auto
  then have "sessions db' (usr_ID u) = [t]" by (auto simp: sessions_def filter_empty_conv IsRevoked_def)
  then show ?thesis using u by auto
qed

lemma Login_within:
  assumes ok: "auth_within k db" and l: "Login sha env email password db = (res, db')"
  shows "auth_within k db'"
proof (cases res)
  case (Inl e)
  then show ?thesis using ok l
    by (auto simp: Login_def split: sum.splits option.splits if_splits dest: transaction_error_unchanged)
next
  case (Inr toks)
  obtain u where g: "generateTokens sha env u (db\<lparr>a_tokens := map (\<lambda>x. if rt_UserID x = usr_ID u \<and> rt_RevokedAt x = None
        then x\<lparr>rt_RevokedAt := Some (ae_now env)\<rparr> else x) (a_tokens db)\<rparr>) = (Inr toks, db')"
    using Login_done l Inr by blast
  have "sessions (db\<lparr>a_tokens := map (\<lambda>x. if rt_UserID x = usr_ID u \<and> rt_RevokedAt x = None
        then x\<lparr>rt_RevokedAt := Some (ae_now env)\<rparr> else x) (a_tokens db)\<rparr>) (usr_ID u) = []"
    by (auto simp: sessions_def filter_empty_conv IsRevoked_def)
  then show ?thesis using generateTokens_within [OF auth_within_map [OF ok keeps_revocations(1)] _ g] by simp
qed

lemma Register_done:
  assumes "Register sha env email password db = (Inr toks, db')"
  shows "\<exists>h x. user_Create (ae_uuid_ok env) (NewUser (ae_userID env) (ae_now env) email h) db =
             (Inr x, db\<lparr>a_users := a_users db @ [NewUser (ae_userID env) (ae_now env) email h]\<rparr>) \<and>
           generateTokens sha env (NewUser (ae_userID env) (ae_now env) email h)
             (db\<lparr>a_users := a_users db @ [NewUser (ae_userID env) (ae_now env) email h]\<rparr>) = (Inr toks, db')"
proof -
  obtain h where h: "HashPassword env password = Inr h"
    "transaction (ae_begin env) (ae_commit env) (\<lambda>db.
       case db_call (ae_write env) (user_Create (ae_uuid_ok env) (NewUser (ae_userID env) (ae_now env) email h)) db of
         (Inl e, db1) \<Rightarrow> (Inl (ErrWrap ''failed to create user'' e), db1)
       | (Inr _, db1) \<Rightarrow>
           (case generateTokens sha env (NewUser (ae_userID env) (ae_now env) email h) db1 of
              (Inl e, db2) \<Rightarrow> (Inl (ErrWrap ''failed to generate tokens'' e), db2)
            | (Inr tokens, db2) \<Rightarrow> (Inr tokens, db2))) db = (Inr toks, db')"
    using assms by (auto simp: Register_def Let_def split: sum.splits option.splits if_splits)
  let ?u = "NewUser (ae_userID env) (ae_now env) email h"
  obtain x db1 where c: "user_Create (ae_uuid_ok env) ?u db = (Inr x, db1)" and g: "generateTokens sha env ?u db1 = (Inr toks, db')"
    using h(2) by (cases "ae_write env") (auto simp: transaction_commits split: prod.splits sum.splits)
  have "db1 = db\<lparr>a_users := a_users db @ [?u]\<rparr>" using c by (auto simp: user_Create_def split: if_splits)
  then show ?thesis using c g by blast
qed

lemma Register_within:
  assumes ok: "auth_within k db" and r: "Register sha env email password db = (res, db')"
  shows "auth_within k db'"
proof (cases res)
  case (Inl e)
  then show ?thesis using ok r
    by (auto simp: Register_def Let_def split: sum.splits option.splits if_splits dest: transaction_error_unchanged)
next
  case (Inr toks)
  obtain h x where c: "user_Create (ae_uuid_ok env) (NewUser (ae_userID env) (ae_now env) email h) db =
             (Inr x, db\<lparr>a_users := a_users db @ [NewUser (ae_userID env) (ae_now env) email h]\<rparr>)"
    and g: "generateTokens sha env (NewUser (ae_userID env) (ae_now env) email h)
             (db\<lparr>a_users := a_users db @ [NewUser (ae_userID env) (ae_now env) email h]\<rparr>) = (Inr toks, db')"
    using Register_done r Inr by blast
  let ?u = "NewUser (ae_userID env) (ae_now env) email h"
  let ?db1 = "db\<lparr>a_users := a_users db @ [?u]\<rparr>"
  have new: "usr_ID ?u \<notin> usr_ID ` set (a_users db)" "usr_Email ?u \<notin> usr_Email ` set (a_users db)" "Role_IsValid (usr_Role ?u)"
    using c by (auto simp: user_Create_def split: if_splits)
  have ss: "sessions ?db1 v = sessions db v" for v by (simp add: sessions_def)
  have "rt_UserID x \<noteq> usr_ID ?u" if "x \<in> set (a_tokens db)" for x
    using ok new(1) that unfolding auth_within_def auth_inv_def by metis
  then have "sessions db (usr_ID ?u) = []" by (auto simp: sessions_def filter_empty_conv)
  moreover have "auth_within k ?db1" using ok new by (auto simp: auth_within_def auth_inv_def ss)
  ultimately show ?thesis using generateTokens_within [OF _ _ g] ss by simp
qed

lemma Logout_within: "auth_within k db \<Longrightarrow> Logout sha env token db = (res, db') \<Longrightarrow> auth_within k db'"
  by (cases "ae_write env")
    (auto simp: Logout_def token_RevokeByTokenHash_def intro: auth_within_map [OF _ keeps_revocations(1)])

lemma UpdateRole_users:
  assumes "UpdateUserRole env user role db = (res, db')"
  shows "db' = db \<or> Role_IsValid role \<and> role \<noteq> RoleAdministrator \<and>
     db' = db\<lparr>a_users := map (\<lambda>u. if usr_ID u = user then u\<lparr>usr_Role := role, usr_UpdatedAt := ae_now env\<rparr> else u) (a_users db)\<rparr>"
proof (cases "Role_IsValid role \<and> role \<noteq> RoleAdministrator \<and> valid_id (ae_uuid_ok env) user")
  case True
  let ?body = "\<lambda>db. case db_read (ae_read_tx env) (user_GetByID (ae_uuid_ok env) user) db of
                   Inl e \<Rightarrow> (Inl e, db)
                 | Inr None \<Rightarrow> (Inl ErrUserNotFound, db)
                 | Inr (Some u) \<Rightarrow>
                     if usr_Role u = role then (Inl ErrRoleUnchanged, db)
                     else db_call (ae_write env) (user_UpdateRole (ae_now env) user role) db"
  have t: "transaction (ae_begin env) (ae_commit env) ?body db = (res, db')"
    using assms True by (simp add: UpdateUserRole_def NewTypedID_eq)
  show ?thesis
  proof (cases res)
    case (Inl e)
    then show ?thesis using transaction_error_unchanged [OF t [unfolded Inl]] by simp
  next
    case (Inr u)
    then have "?body db = (Inr u, db')" using t by (simp add: transaction_commits)
    then show ?thesis using True by (cases "ae_write env")
      (auto simp: user_UpdateRole_def split: sum.splits option.splits if_splits)
  qed
next
  case False
  then show ?thesis using assms
    by (auto simp: UpdateUserRole_def NewTypedID_eq NewID_def valid_id_def split: if_splits)
qed

lemma auth_within_users:
  assumes ok: "auth_within k db" and f: "\<And>u. usr_ID (f u) = usr_ID u" "\<And>u. usr_Email (f u) = usr_Email u"
    and r: "\<And>u. Role_IsValid (usr_Role u) \<Longrightarrow> Role_IsValid (usr_Role (f u))"
  shows "auth_within k (db\<lparr>a_users := map f (a_users db)\<rparr>)"
proof -
  have "map usr_ID (map f (a_users db)) = map usr_ID (a_users db)" "map usr_Email (map f (a_users db)) = map usr_Email (a_users db)"
    "usr_ID ` f ` set (a_users db) = usr_ID ` set (a_users db)"
    by (simp_all add: f image_image)
  moreover have "sessions (db\<lparr>a_users := map f (a_users db)\<rparr>) v = sessions db v" for v by (simp add: sessions_def)
  ultimately show ?thesis using ok r by (simp add: auth_within_def auth_inv_def del: map_map image_image)
qed

lemma UpdateRole_within:
  assumes ok: "auth_within k db" and r: "UpdateUserRole env user role db = (res, db')"
  shows "auth_within k db'"
  using UpdateRole_users [OF r] ok by (elim disjE conjE) (simp, simp, intro auth_within_users, simp_all)

lemmas Register_ok = Register_within [where k = "\<lambda>_. 0", folded auth_ok_within]
  and Login_ok = Login_within [where k = "\<lambda>_. 0", folded auth_ok_within]
  and Refresh_ok = Refresh_within [where k = "\<lambda>_. 0", folded auth_ok_within]
  and Logout_ok = Logout_within [where k = "\<lambda>_. 0", folded auth_ok_within]
  and UpdateRole_ok = UpdateRole_within [where k = "\<lambda>_. 0", folded auth_ok_within]

section \<open>Runs of the service\<close>

datatype auth_op =
    RegisterOp auth_env string string | LoginOp auth_env string string
  | RefreshOp auth_env string | LogoutOp auth_env string | UpdateRoleOp auth_env string Role

fun auth_step :: "(string \<Rightarrow> string) \<Rightarrow> auth_db \<Rightarrow> auth_op \<Rightarrow> auth_db" where
  "auth_step sha db (RegisterOp env email password) = snd (Register sha env email password db)"
| "auth_step sha db (LoginOp env email password) = snd (Login sha env email password db)"
| "auth_step sha db (RefreshOp env token) = snd (Refresh sha env token db)"
| "auth_step sha db (LogoutOp env token) = snd (Logout sha env token db)"
| "auth_step sha db (UpdateRoleOp env user role) = snd (UpdateUserRole env user role db)"

lemmas auth_steps_ok =
  Register_ok [OF _ surjective_pairing] Login_ok [OF _ surjective_pairing] Refresh_ok [OF _ surjective_pairing]
  Logout_ok [OF _ surjective_pairing] UpdateRole_ok [OF _ surjective_pairing]

interpretation auth: inv_machine "auth_step sha" auth_ok for sha
  by unfold_locales (case_tac e; simp add: auth_steps_ok)

subsection \<open>Overlapping refreshes\<close>

text \<open>
  Requests whose transactions are served one after another, but whose lookups are not: \<^verbatim>\<open>Refresh\<close> checks the token
  before its transaction, so that other requests come between.  The state keeps the tokens looked up and not
  rotated yet, and for each user the number of rotations of a token that had been revoked in the meantime,
  since the last login.
\<close>

record auth_world =
  aw_db :: auth_db
  aw_pending :: "RefreshToken list"
  aw_stale :: "UserID \<Rightarrow> nat"

datatype auth_event = Request auth_op | Lookup auth_env string | Rotate auth_env nat

fun logged_in :: "(string \<Rightarrow> string) \<Rightarrow> auth_db \<Rightarrow> auth_op \<Rightarrow> UserID \<Rightarrow> bool" where
  "logged_in sha db (LoginOp env email password) i \<longleftrightarrow>
     \<not> isl (fst (Login sha env email password db)) \<and> (\<exists>u \<in> set (a_users db). usr_Email u = email \<and> usr_ID u = i)"
| "logged_in sha db _ i \<longleftrightarrow> False"

fun overlap_step :: "(string \<Rightarrow> string) \<Rightarrow> auth_world \<Rightarrow> auth_event \<Rightarrow> auth_world" where
  "overlap_step sha w (Request op) =
     w\<lparr>aw_db := auth_step sha (aw_db w) op, aw_stale := (\<lambda>i. if logged_in sha (aw_db w) op i then 0 else aw_stale w i)\<rparr>"
| "overlap_step sha w (Lookup env token) =
     (case refresh_lookup sha env token (aw_db w) of Inl e \<Rightarrow> w | Inr rt \<Rightarrow> w\<lparr>aw_pending := aw_pending w @ [rt]\<rparr>)"
| "overlap_step sha w (Rotate env n) =
     (if length (aw_pending w) \<le> n then w
      else let rt = aw_pending w ! n;
               rest = take n (aw_pending w) @ drop (Suc n) (aw_pending w)
           in case refresh_rotate sha env rt (aw_db w) of
                (Inl e, db') \<Rightarrow> w\<lparr>aw_db := db', aw_pending := rest\<rparr>
              | (Inr toks, db') \<Rightarrow> w\<lparr>aw_db := db', aw_pending := rest,
                   aw_stale := (if live_id (aw_db w) rt then aw_stale w
                                else (aw_stale w)(rt_UserID rt := Suc (aw_stale w (rt_UserID rt))))\<rparr>)"

lemma auth_step_within: "auth_within k db \<Longrightarrow> auth_within k (auth_step sha db op)"
  by (cases op)
    (simp_all add: Register_within [OF _ surjective_pairing] Login_within [OF _ surjective_pairing]
      Refresh_within [OF _ surjective_pairing] Logout_within [OF _ surjective_pairing] UpdateRole_within [OF _ surjective_pairing])

lemma logged_in_session:
  assumes "auth_inv db" and "logged_in sha db op i"
  shows "length (sessions (auth_step sha db op) i) = 1"
proof (cases op)
  case (LoginOp env email password)
  then obtain toks db' u where l: "Login sha env email password db = (Inr toks, db')"
    and u: "u \<in> set (a_users db)" "usr_Email u = email" "usr_ID u = i" using assms(2)
    by (cases "fst (Login sha env email password db)"; cases "Login sha env email password db") auto
  obtain v where v: "v \<in> set (a_users db)" "usr_Email v = email" "length (sessions db' (usr_ID v)) = 1"
    using Login_session [OF l] by blast
  have "v = u" using assms(1) u v by (auto simp: auth_inv_def distinct_map dest: inj_onD)
  then show ?thesis using l v u LoginOp by simp
qed (use assms(2) in simp_all)

definition auth_world_ok :: "auth_world \<Rightarrow> bool" where
  "auth_world_ok w \<longleftrightarrow> auth_within (aw_stale w) (aw_db w)"

lemma overlap_step_ok:
  assumes "auth_world_ok w"
  shows "auth_world_ok (overlap_step sha w ev)"
proof (cases ev)
  case (Request op)
  have "auth_within (aw_stale w) (auth_step sha (aw_db w) op)" using auth_step_within assms by (simp add: auth_world_ok_def)
  moreover have "length (sessions (auth_step sha (aw_db w) op) i) = 1" if "logged_in sha (aw_db w) op i" for i
    using logged_in_session [OF _ that] assms by (simp add: auth_world_ok_def auth_within_def)
  ultimately show ?thesis using Request by (simp add: auth_world_ok_def auth_within_def)
next
  case (Lookup env token)
  then show ?thesis using assms by (simp add: auth_world_ok_def split: sum.split)
next
  case (Rotate env n)
  show ?thesis
  proof (cases "length (aw_pending w) \<le> n")
    case False
    obtain res db' where r: "refresh_rotate sha env (aw_pending w ! n) (aw_db w) = (res, db')" by (metis surj_pair)
    show ?thesis using rotate_within [of "aw_stale w" "aw_db w" sha env "aw_pending w ! n" _ db'] rotate_error [of sha env _ "aw_db w"]
        Rotate False assms r by (cases res) (auto simp: auth_world_ok_def Let_def)
  qed (use Rotate assms in simp)
qed

interpretation auth_overlap: inv_machine "overlap_step sha" auth_world_ok for sha
  by unfold_locales (rule overlap_step_ok)

text \<open>
  C31. How many sessions a user has.  From tables in which each user has at most one refresh token that is not revoked:
  when requests are served one after another, whatever they are and whichever fail, this stays so.  When the
  lookups of refreshes overlap with other requests, a user has at most one more than the number of rotations, since the
  last login, whose token had been revoked after it was looked up.  And a login that succeeds leaves its user
  with exactly one, however many there were.  The transactions are served one after another; two logins whose
  transactions overlap inside the database are outside the model.
\<close>

theorem single_session:
  assumes "auth_ok db"
  shows "length (sessions (foldl (auth_step sha) db ops) u) \<le> 1 \<and>
     (let w = foldl (overlap_step sha) \<lparr>aw_db = db, aw_pending = [], aw_stale = (\<lambda>_. 0)\<rparr> evs
      in length (sessions (aw_db w) u) \<le> 1 + aw_stale w u \<and>
         (\<forall>env email password toks db'. Login sha env email password (aw_db w) = (Inr toks, db') \<longrightarrow>
            (\<exists>v \<in> set (a_users (aw_db w)). usr_Email v = email \<and> length (sessions db' (usr_ID v)) = 1)))"
proof -
  have "auth_world_ok \<lparr>aw_db = db, aw_pending = [], aw_stale = (\<lambda>_. 0)\<rparr>"
    using assms by (simp add: auth_world_ok_def auth_ok_within)
  from auth_overlap.run_inv [OF this, of sha evs]
  have "length (sessions (aw_db (foldl (overlap_step sha) \<lparr>aw_db = db, aw_pending = [], aw_stale = (\<lambda>_. 0)\<rparr> evs)) u) \<le>
      1 + aw_stale (foldl (overlap_step sha) \<lparr>aw_db = db, aw_pending = [], aw_stale = (\<lambda>_. 0)\<rparr> evs) u"
    by (simp add: auth_world_ok_def auth_within_def)
  moreover have "length (sessions (foldl (auth_step sha) db ops) u) \<le> 1"
    using auth.run_inv [OF assms] by (simp add: auth_ok_def)
  ultimately show ?thesis unfolding Let_def using Login_session by blast
qed

definition sample_auth_env :: auth_env where
  "sample_auth_env =
     \<lparr>ae_uuid_ok = (\<lambda>s. True), ae_email_ok = (\<lambda>e. True), ae_bcrypt = (\<lambda>p. Inr (rev p)), ae_compare = (\<lambda>h p. h = rev p),
      ae_sign = (\<lambda>c. Inr (cl_UserID c)), ae_random = Inr ''r1'', ae_userID = ''u1'', ae_tokenID = ''k1'', ae_now = 10,
      ae_issuer = [], ae_audience = [], ae_accessTTL = 60 * Second, ae_refreshTTL = 1000, ae_begin = None, ae_commit = None,
      ae_read = None, ae_read_tx = None, ae_write = None, ae_store = None\<rparr>"

definition empty_auth :: auth_db where
  "empty_auth = \<lparr>a_users = [], a_tokens = []\<rparr>"

lemma empty_auth_ok: "auth_ok empty_auth"
  by (simp add: auth_ok_def auth_inv_def empty_auth_def sessions_def)

subsection \<open>Tokens are used once\<close>

definition dead_token :: "string \<Rightarrow> auth_db \<Rightarrow> bool" where
  "dead_token h db \<longleftrightarrow> (\<exists>t \<in> set (a_tokens db). rt_TokenHash t = h \<and> IsRevoked t)"

lemma dead_token_map: "dead_token h db \<Longrightarrow> keeps f \<Longrightarrow> dead_token h (db\<lparr>a_tokens := map f (a_tokens db)\<rparr>)"
  by (auto simp: dead_token_def keeps_def)

lemma dead_token_killed:
  "t \<in> set (a_tokens db) \<Longrightarrow> rt_TokenHash t = h \<Longrightarrow> keeps f \<Longrightarrow> IsRevoked (f t) \<Longrightarrow>
     dead_token h (db\<lparr>a_tokens := map f (a_tokens db)\<rparr>)"
  by (auto simp: dead_token_def keeps_def)

lemma dead_token_generate: "generateTokens sha env u db = (Inr toks, db') \<Longrightarrow> dead_token h db \<Longrightarrow> dead_token h db'"
  using generateTokens_done by (fastforce simp: dead_token_def)

lemma dead_token_step:
  assumes d: "dead_token h db"
  shows "dead_token h (auth_step sha db op)"
proof (cases op)
  case (RegisterOp env email password)
  obtain r db' where e: "Register sha env email password db = (r, db')" by (metis surj_pair)
  show ?thesis
  proof (cases r)
    case (Inl x)
    then have "db' = db" using e
      by (auto simp: Register_def Let_def split: sum.splits option.splits if_splits dest: transaction_error_unchanged)
    then show ?thesis using RegisterOp e d by simp
  next
    case (Inr toks)
    obtain u where "generateTokens sha env u (db\<lparr>a_users := a_users db @ [u]\<rparr>) = (Inr toks, db')"
      using Register_done [OF e [unfolded Inr]] by blast
    then show ?thesis using RegisterOp e d dead_token_generate by (simp add: dead_token_def)
  qed
next
  case (LoginOp env email password)
  obtain r db' where e: "Login sha env email password db = (r, db')" by (metis surj_pair)
  show ?thesis
  proof (cases r)
    case (Inl x)
    then have "db' = db" using e
      by (auto simp: Login_def split: sum.splits option.splits if_splits dest: transaction_error_unchanged)
    then show ?thesis using LoginOp e d by simp
  next
    case (Inr toks)
    then show ?thesis using Login_done [OF e [unfolded Inr]] dead_token_generate dead_token_map [OF d keeps_revocations(1)] LoginOp e
      by auto
  qed
next
  case (RefreshOp env token)
  obtain r db' where e: "Refresh sha env token db = (r, db')" by (metis surj_pair)
  show ?thesis
  proof (cases r)
    case (Inl x)
    have "db' = db" by (rule Refresh_error [OF e [unfolded Inl]])
    then show ?thesis using RefreshOp e d by simp
  next
    case (Inr toks)
    then show ?thesis using Refresh_done [OF e [unfolded Inr]] dead_token_generate dead_token_map [OF d keeps_revocations(2)] RefreshOp e
      by auto
  qed
next
  case (LogoutOp env token)
  then show ?thesis using d dead_token_map [OF d keeps_revocations(1)]
    by (cases "ae_write env") (auto simp: Logout_def token_RevokeByTokenHash_def)
next
  case (UpdateRoleOp env user role)
  then show ?thesis using d UpdateRole_users [of env user role db] by (cases "UpdateUserRole env user role db") (auto simp: dead_token_def)
qed

lemma dead_token_run: "dead_token h db \<Longrightarrow> dead_token h (foldl (auth_step sha) db ops)"
  by (induction ops arbitrary: db) (auto intro: dead_token_step)

lemma dead_token_refused:
  assumes "auth_inv db" and "dead_token (sha token) db"
  shows "\<exists>e. Refresh sha env token db = (Inl e, db)"
proof (cases "refresh_lookup sha env token db")
  case (Inl e)
  then show ?thesis by (simp add: Refresh_def)
next
  case (Inr rt)
  obtain t where "find_token db (sha token) = Some t" "IsRevoked t"
    using assms find_token_iff [OF assms(1)] unfolding dead_token_def by blast
  then show ?thesis using refresh_lookup_Inr [OF Inr] by simp
qed

text \<open>
  C13. A refresh token is good for one refresh.  After a successful refresh, or a logout of a token that
  exists, presenting the same token again is refused and changes nothing, whatever was served in
  between; and the token handed out is a new one that the table knows and has not revoked.
\<close>

theorem token_single_use:
  assumes ok: "auth_ok db"
    and used: "Refresh sha env token db = (Inr toks, db1) \<or>
               Logout sha env token db = (Inr (), db1) \<and> find_token db (sha token) \<noteq> None"
  shows "(\<forall>env' ops. \<exists>e. Refresh sha env' token (foldl (auth_step sha) db1 ops) = (Inl e, foldl (auth_step sha) db1 ops)) \<and>
         (Refresh sha env token db = (Inr toks, db1) \<longrightarrow>
            (\<exists>t. find_token db1 (sha (RefreshTokenStr toks)) = Some t \<and> \<not> IsRevoked t \<and> find_token db (sha (RefreshTokenStr toks)) = None))"
proof -
  have ok1: "auth_ok db1" using used ok Refresh_ok Logout_ok by blast
  have "dead_token (sha token) db1" using used
  proof
    assume "Refresh sha env token db = (Inr toks, db1)"
    then obtain rt u where rt: "find_token db (sha token) = Some rt"
      and g: "generateTokens sha env u (db\<lparr>a_tokens := map (\<lambda>x. if rt_ID x = rt_ID rt
        then x\<lparr>rt_RevokedAt := Some (ae_now env), rt_ReplacedBy := rt_ReplacedBy rt\<rparr> else x) (a_tokens db)\<rparr>) = (Inr toks, db1)"
      using Refresh_done by blast
    show ?thesis by (rule dead_token_generate [OF g], rule dead_token_killed [OF _ _ keeps_revocations(2), of rt])
      (use find_token_Some [OF rt] in \<open>simp_all add: IsRevoked_def\<close>)
  next
    assume l: "Logout sha env token db = (Inr (), db1) \<and> find_token db (sha token) \<noteq> None"
    then obtain t where ft: "find_token db (sha token) = Some t" by blast
    have t: "t \<in> set (a_tokens db)" "rt_TokenHash t = sha token" using find_token_Some [OF ft] by simp_all
    have "db1 = db\<lparr>a_tokens := map (\<lambda>x. if rt_TokenHash x = sha token then x\<lparr>rt_RevokedAt := Some (ae_now env)\<rparr> else x) (a_tokens db)\<rparr>"
      using l by (cases "ae_write env") (auto simp: Logout_def token_RevokeByTokenHash_def)
    moreover have "IsRevoked (if rt_TokenHash t = sha token then t\<lparr>rt_RevokedAt := Some (ae_now env)\<rparr> else t)"
      using t(2) by (simp add: IsRevoked_def)
    ultimately show ?thesis
      using dead_token_killed [OF t keeps_revocations(1) [where P = "\<lambda>x. rt_TokenHash x = sha token"]] by blast
  qed
  then have "\<exists>e. Refresh sha env' token (foldl (auth_step sha) db1 ops) = (Inl e, foldl (auth_step sha) db1 ops)" for env' ops
    using auth.run_inv [OF ok1] dead_token_run dead_token_refused by (simp add: auth_ok_def)
  moreover have "\<exists>t. find_token db1 (sha (RefreshTokenStr toks)) = Some t \<and> \<not> IsRevoked t \<and> find_token db (sha (RefreshTokenStr toks)) = None"
    if r: "Refresh sha env token db = (Inr toks, db1)"
  proof -
    obtain rt :: RefreshToken and u :: User where g: "generateTokens sha env u (db\<lparr>a_tokens := map (\<lambda>x. if rt_ID x = rt_ID rt
        then x\<lparr>rt_RevokedAt := Some (ae_now env), rt_ReplacedBy := rt_ReplacedBy rt\<rparr> else x) (a_tokens db)\<rparr>) = (Inr toks, db1)"
      using Refresh_done [OF r] by blast
    define f where "f = (\<lambda>x :: RefreshToken. if rt_ID x = rt_ID rt
        then x\<lparr>rt_RevokedAt := Some (ae_now env), rt_ReplacedBy := rt_ReplacedBy rt\<rparr> else x)"
    have k: "keeps f" unfolding f_def by (rule keeps_revocations(2))
    have "generateTokens sha env u (db\<lparr>a_tokens := map f (a_tokens db)\<rparr>) = (Inr toks, db1)" using g by (simp only: f_def)
    then obtain t where t: "\<not> IsRevoked t" "rt_TokenHash t = sha (RefreshTokenStr toks)"
      "rt_TokenHash t \<notin> rt_TokenHash ` set (map f (a_tokens db))" "db1 = db\<lparr>a_tokens := map f (a_tokens db) @ [t]\<rparr>"
      using generateTokens_done [of sha env u "db\<lparr>a_tokens := map f (a_tokens db)\<rparr>" toks db1] by auto
    then have "find_token db1 (sha (RefreshTokenStr toks)) = Some t"
      using find_token_iff ok1 by (simp add: auth_ok_def)
    moreover have "find_token db (sha (RefreshTokenStr toks)) = None"
      using t(2,3) k by (auto simp: find_token_def find_None_iff keeps_def image_image) (metis image_eqI)
    ultimately show ?thesis using t(1) by blast
  qed
  ultimately show ?thesis by blast
qed


definition auth_a :: auth_db where
  "auth_a = snd (Register id sample_auth_env ''a@b'' ''password'' empty_auth)"

definition sample_rotation :: auth_env where
  "sample_rotation = sample_auth_env\<lparr>ae_random := Inr ''r2'', ae_tokenID := ''k2'', ae_now := 20\<rparr>"

lemma auth_a_eq:
  "auth_a = \<lparr>a_users = [NewUser ''u1'' 10 ''a@b'' ''drowssap''], a_tokens = [NewRefreshToken ''k1'' 10 ''u1'' ''r1'' 1010]\<rparr>"
  by code_simp

lemma auth_a_ok: "auth_ok auth_a"
  unfolding auth_a_def by (rule Register_ok [OF empty_auth_ok surjective_pairing])

theorem token_single_use_witness:
  "\<exists>e. Refresh id sample_auth_env ''r1'' (auth_step id (snd (Refresh id sample_rotation ''r1'' auth_a)) (LoginOp sample_auth_env ''a@b'' ''x''))
     = (Inl e, auth_step id (snd (Refresh id sample_rotation ''r1'' auth_a)) (LoginOp sample_auth_env ''a@b'' ''x''))"
proof -
  have r: "Refresh id sample_rotation ''r1'' auth_a =
      (Inr \<lparr>AccessToken = ''u1'', RefreshTokenStr = ''r2'', ExpiresIn = 60\<rparr>, snd (Refresh id sample_rotation ''r1'' auth_a))"
    unfolding auth_a_eq by code_simp
  show ?thesis
    using conjunct1 [OF token_single_use [OF auth_a_ok disjI1 [OF r]], rule_format,
        of sample_auth_env "[LoginOp sample_auth_env ''a@b'' ''x'']"] by simp
qed

text \<open>
  The witness: two requests with the same token whose lookups both precede the rotations are both served, and the
  user has two live sessions until the next login.
\<close>

definition overlap :: "auth_event list" where
  "overlap = [Lookup sample_auth_env ''r1'', Lookup sample_auth_env ''r1'', Rotate sample_rotation 0,
     Rotate (sample_rotation\<lparr>ae_random := Inr ''r3'', ae_tokenID := ''k3''\<rparr>) 0]"

definition overlapped :: auth_world where
  "overlapped = foldl (overlap_step id) \<lparr>aw_db = auth_a, aw_pending = [], aw_stale = (\<lambda>_. 0)\<rparr> overlap"

lemma concurrent_refresh_two_sessions:
  "map rt_TokenHash (sessions (aw_db overlapped) ''u1'') = [''r2'', ''r3''] \<and> aw_stale overlapped ''u1'' = 1"
  unfolding overlapped_def auth_a_eq by code_simp

theorem single_session_witness:
  "length (sessions (aw_db overlapped) ''u1'') \<le> 1 + aw_stale overlapped ''u1'' \<and> aw_stale overlapped ''u1'' = 1 \<and>
   map rt_TokenHash (sessions (aw_db overlapped) ''u1'') = [''r2'', ''r3''] \<and>
   length (sessions (foldl (auth_step id) auth_a [RefreshOp sample_rotation ''r1'']) ''u1'') \<le> 1"
  using single_session [OF auth_a_ok, of id "[RefreshOp sample_rotation ''r1'']" "''u1''" overlap] concurrent_refresh_two_sessions
  unfolding overlapped_def Let_def by blast

end
