(* ===== verification/Access_Control.thy ===== *)
theory Access_Control
  imports Auth_Service Job_Services
begin

text \<open>
  Who may call what: \<^verbatim>\<open>internal/auth\<close> (token verification, the two gRPC interceptors and the
  role table), the authorisation of the hand-written HTTP routes under \<^verbatim>\<open>internal/app\<close>, the
  user handlers of \<^verbatim>\<open>api/user\<close> and the creation of the default administrator.  The JWT library
  is the parameter \<open>parse\<close>: it is given the key function of the source, which sees whether the signing
  method is HMAC, the clock and the token, and answers a failure or the claims with its validity flag.
\<close>

section \<open>Model\<close>

datatype grpc_code = InvalidArgument | NotFound | PermissionDenied | Unauthenticated | Internal | Unknown

type_synonym 'a rpc = "(grpc_code \<times> string) + 'a"

datatype jwt_failure = TokenExpired | TokenRejected gerr

type_synonym jwt_parse = "(bool \<Rightarrow> string res) \<Rightarrow> time \<Rightarrow> string \<Rightarrow> jwt_failure + Claims \<times> bool"

definition ErrInvalidToken :: gerr where "ErrInvalidToken = ErrText ''invalid token''"
definition ErrExpiredToken :: gerr where "ErrExpiredToken = ErrText ''token expired''"
definition ErrMissingClaims :: gerr where "ErrMissingClaims = ErrText ''missing claims''"

definition key_func :: "string \<Rightarrow> bool \<Rightarrow> string res" where
  "key_func secret is_hmac = (if \<not> is_hmac then Inl ErrInvalidToken else Inr secret)"

definition VerifyToken :: "string \<Rightarrow> jwt_parse \<Rightarrow> time \<Rightarrow> string \<Rightarrow> Claims res" where
  "VerifyToken secret parse now tokenString =
     (case parse (key_func secret) now tokenString of
        Inl TokenExpired \<Rightarrow> Inl ErrExpiredToken
      | Inl (TokenRejected _) \<Rightarrow> Inl ErrInvalidToken
      | Inr (claims, valid) \<Rightarrow>
          if \<not> valid then Inl ErrInvalidToken
          else if cl_UserID claims = [] then Inl ErrMissingClaims
          else case ParseRole (cl_Role claims) of
                 Inl _ \<Rightarrow> Inl ErrMissingClaims
               | Inr _ \<Rightarrow> Inr claims)"

subsection \<open>The interceptors\<close>

text \<open>
  The part of a request's context the interceptors use: the values of the \<^verbatim>\<open>authorization\<close>
  metadata (\<open>None\<close> without metadata) and the two keys they set.
\<close>

record rpc_ctx =
  rc_authorization :: "string list option"
  rc_user_id :: "string option"
  rc_user_role :: "string option"

definition SplitN2 :: "char \<Rightarrow> string \<Rightarrow> string list" where
  "SplitN2 c s = (if c \<in> set s then [takeWhile (\<lambda>x. x \<noteq> c) s, tl (dropWhile (\<lambda>x. x \<noteq> c) s)] else [s])"

definition bearer_token :: "string \<Rightarrow> string option" where
  "bearer_token authHeader =
     (case SplitN2 CHR '' '' authHeader of
        [scheme, token] \<Rightarrow> if ToLower scheme \<noteq> ''bearer'' then None else Some token
      | _ \<Rightarrow> None)"

definition isPublicEndpoint :: "string \<Rightarrow> bool" where
  "isPublicEndpoint method \<longleftrightarrow> method \<in> set
     [''/crawler.v1.AuthService/Register'', ''/crawler.v1.AuthService/Login'', ''/crawler.v1.AuthService/Refresh'',
      ''/crawler.v1.AuthService/Logout'', ''/grpc.health.v1.Health/Check'']"

definition extractTokenFromMetadata :: "rpc_ctx \<Rightarrow> string rpc" where
  "extractTokenFromMetadata ctx =
     (case rc_authorization ctx of
        None \<Rightarrow> Inl (Unauthenticated, ''missing metadata'')
      | Some [] \<Rightarrow> Inl (Unauthenticated, ''missing authorization header'')
      | Some (authHeader # _) \<Rightarrow>
          (case bearer_token authHeader of
             None \<Rightarrow> Inl (Unauthenticated, ''invalid authorization header format'')
           | Some token \<Rightarrow> Inr token))"

definition JWTAuthInterceptor ::
  "(string \<Rightarrow> Claims res) \<Rightarrow> string \<Rightarrow> (rpc_ctx \<Rightarrow> 'a rpc) \<Rightarrow> rpc_ctx \<Rightarrow> 'a rpc" where
  "JWTAuthInterceptor verify method handler ctx =
     (if isPublicEndpoint method then handler ctx
      else case extractTokenFromMetadata ctx of
             Inl _ \<Rightarrow> Inl (Unauthenticated, ''missing or invalid authorization header'')
           | Inr token \<Rightarrow>
               (case verify token of
                  Inl _ \<Rightarrow> Inl (Unauthenticated, ''invalid or expired token'')
                | Inr claims \<Rightarrow>
                    handler (ctx\<lparr>rc_user_id := Some (cl_UserID claims), rc_user_role := Some (cl_Role claims)\<rparr>)))"

definition read_methods :: "string list" where
  "read_methods =
     [''/crawler.v1.CrawlerService/ListJobs'', ''/crawler.v1.CrawlerService/GetJob'',
      ''/crawler.v1.CrawlerService/ListTasksByJob'', ''/crawler.v1.CrawlerService/GetTask'',
      ''/crawler.v1.CrawlerService/GetTaskFileURL'', ''/crawler.v1.CrawlerService/GetTaskAnalytics'',
      ''/crawler.v1.CrawlerService/GetJobExportFileURL'']"

definition write_methods :: "string list" where
  "write_methods =
     [''/crawler.v1.CrawlerService/CreateJob'', ''/crawler.v1.PreviewService/CreatePreview'',
      ''/crawler.v1.PreviewService/GetPreview'']"

definition admin_methods :: "string list" where
  "admin_methods =
     [''/crawler.v1.WorkerService/ListWorkers'', ''/crawler.v1.WorkerService/DrainWorker'',
      ''/crawler.v1.WorkerService/ForceKillWorker'', ''/crawler.v1.UserService/ListUsers'',
      ''/crawler.v1.UserService/UpdateUserRole'', ''/crawler.v1.QueueAdminService/ListQueueEndpoints'',
      ''/crawler.v1.QueueAdminService/CreateQueueEndpoint'', ''/crawler.v1.QueueAdminService/UpdateQueueEndpoint'',
      ''/crawler.v1.QueueAdminService/DeleteQueueEndpoint'', ''/crawler.v1.QueueAdminService/ListQueueRoutingRules'',
      ''/crawler.v1.QueueAdminService/UpsertQueueRoutingRules'']"

definition requiredRoleForMethod :: "string \<Rightarrow> Role option" where
  "requiredRoleForMethod method =
     (if method \<in> set read_methods then Some RoleRead
      else if method \<in> set write_methods then Some RoleReadWrite
      else if method \<in> set admin_methods then Some RoleAdministrator
      else None)"

definition RBACInterceptor :: "string \<Rightarrow> (rpc_ctx \<Rightarrow> 'a rpc) \<Rightarrow> rpc_ctx \<Rightarrow> 'a rpc" where
  "RBACInterceptor method handler ctx =
     (if isPublicEndpoint method then handler ctx
      else case rc_user_role ctx of
             None \<Rightarrow> Inl (PermissionDenied, ''missing role'')
           | Some roleValue \<Rightarrow>
               (case ParseRole roleValue of
                  Inl _ \<Rightarrow> Inl (PermissionDenied, ''invalid role'')
                | Inr role \<Rightarrow>
                    (case requiredRoleForMethod method of
                       None \<Rightarrow> Inl (PermissionDenied, ''access denied'')
                     | Some requiredRole \<Rightarrow>
                         if Role_Level role < Role_Level requiredRole then Inl (PermissionDenied, ''access denied'')
                         else handler ctx)))"

text \<open>
  The chain of the API server; the logging interceptor passes everything on and the shard key only
  matters with a sharded database.  \<open>validated\<close> is what the request's \<^verbatim>\<open>Validate\<close> answers.
\<close>

definition ValidateInterceptor :: "(grpc_code \<times> string) option \<Rightarrow> (rpc_ctx \<Rightarrow> 'a rpc) \<Rightarrow> rpc_ctx \<Rightarrow> 'a rpc" where
  "ValidateInterceptor validated handler ctx = (case validated of Some e \<Rightarrow> Inl e | None \<Rightarrow> handler ctx)"

definition grpc_chain ::
  "(grpc_code \<times> string) option \<Rightarrow> (string \<Rightarrow> Claims res) \<Rightarrow> string \<Rightarrow> (rpc_ctx \<Rightarrow> 'a rpc) \<Rightarrow> rpc_ctx \<Rightarrow> 'a rpc" where
  "grpc_chain validated verify method handler =
     ValidateInterceptor validated (JWTAuthInterceptor verify method (RBACInterceptor method handler))"

subsection \<open>The hand-written HTTP routes\<close>

definition verifyAuth :: "(string \<Rightarrow> Claims res) \<Rightarrow> Role \<Rightarrow> string \<Rightarrow> (nat \<times> string) + Claims" where
  "verifyAuth verify minRole authHeader =
     (case bearer_token authHeader of
        None \<Rightarrow> Inl (401, ''missing or invalid authorization header'')
      | Some token \<Rightarrow>
          (case verify token of
             Inl _ \<Rightarrow> Inl (401, ''invalid or expired token'')
           | Inr claims \<Rightarrow>
               (case ParseRole (cl_Role claims) of
                  Inl _ \<Rightarrow> Inl (403, ''access denied'')
                | Inr role \<Rightarrow> if Role_Level role < Role_Level minRole then Inl (403, ''access denied'') else Inr claims)))"

text \<open>
  \<^verbatim>\<open>deleteJobHandlerFunc\<close>, down to the tables.  \<open>id_param\<close> is the path parameter, the two failures
  are those of the statements of \<^verbatim>\<open>DeleteCrawlJob\<close>; the answer is the status and the error text.
\<close>

definition deleteJobHandler ::
  "(string \<Rightarrow> Claims res) \<Rightarrow> (string \<Rightarrow> bool) \<Rightarrow> gerr option \<Rightarrow> gerr option \<Rightarrow> string \<Rightarrow> string \<Rightarrow> DB \<Rightarrow> (nat \<times> string) \<times> DB" where
  "deleteJobHandler verify uuid_ok fail_get fail_delete authHeader id_param db =
     (case bearer_token authHeader of
        None \<Rightarrow> ((401, ''missing or invalid authorization header''), db)
      | Some token \<Rightarrow>
          (case verify token of
             Inl _ \<Rightarrow> ((401, ''invalid or expired token''), db)
           | Inr claims \<Rightarrow>
               (case ParseRole (cl_Role claims) of
                  Inl _ \<Rightarrow> ((403, ''access denied''), db)
                | Inr role \<Rightarrow>
                    if Role_Level role < Role_Level RoleReadWrite then ((403, ''access denied''), db)
                    else if id_param = [] then ((400, ''missing job id''), db)
                    else (case DeleteCrawlJob uuid_ok fail_get fail_delete id_param db of
                            (Inl e, db') \<Rightarrow> ((500, err_text e), db')
                          | (Inr _, db') \<Rightarrow> ((200, []), db')))))"

text \<open>
  \<^verbatim>\<open>createJobHandlerFunc\<close>.  \<open>body\<close> is what decoding the request gives: the error of one of the
  decoders, or the configuration of the protobuf part together with the weights of the raw part.
  Weights are dropped unless several queues are configured; the service gets the user of the token.
\<close>

definition createJobHandler ::
  "(string \<Rightarrow> Claims res) \<Rightarrow> job_env \<Rightarrow> string + (CrawlJobConfig \<times> QueueWeight list) \<Rightarrow> string \<Rightarrow> DB \<Rightarrow> ((nat \<times> string) + CrawlJobID) \<times> DB" where
  "createJobHandler verify env body authHeader db =
     (case verifyAuth verify RoleReadWrite authHeader of
        Inl e \<Rightarrow> (Inl e, db)
      | Inr claims \<Rightarrow>
          (case body of
             Inl e \<Rightarrow> (Inl (400, e), db)
           | Inr (config, weights) \<Rightarrow>
               (case CreateCrawlJob env (cl_UserID claims)
                       (if 1 < length (je_queues env) then config\<lparr>cfg_QueueWeights := weights\<rparr> else config) db of
                  (Inl e, db') \<Rightarrow> (Inl (500, err_text e), db')
                | (Inr i, db') \<Rightarrow> (Inr i, db'))))"

subsection \<open>User administration\<close>

datatype ProtoRole = ROLE_UNSPECIFIED | ROLE_READ | ROLE_READ_WRITE | ROLE_ADMINISTRATOR

definition toProtoRole :: "Role \<Rightarrow> ProtoRole" where
  "toProtoRole role =
     (if role = RoleRead then ROLE_READ else if role = RoleReadWrite then ROLE_READ_WRITE
      else if role = RoleAdministrator then ROLE_ADMINISTRATOR else ROLE_UNSPECIFIED)"

fun fromProtoRole :: "ProtoRole \<Rightarrow> Role res" where
  "fromProtoRole ROLE_READ = Inr RoleRead"
| "fromProtoRole ROLE_READ_WRITE = Inr RoleReadWrite"
| "fromProtoRole ROLE_ADMINISTRATOR = Inr RoleAdministrator"
| "fromProtoRole ROLE_UNSPECIFIED = ParseRole []"

record ProtoUser =
  pu_Id :: string
  pu_Email :: string
  pu_Role :: ProtoRole
  pu_CreatedAt :: time
  pu_UpdatedAt :: time

definition toProtoUser :: "User \<Rightarrow> ProtoUser" where
  "toProtoUser u =
     \<lparr>pu_Id = usr_ID u, pu_Email = usr_Email u, pu_Role = toProtoRole (usr_Role u),
      pu_CreatedAt = usr_CreatedAt u, pu_UpdatedAt = usr_UpdatedAt u\<rparr>"

definition api_ListUsers :: "auth_env \<Rightarrow> auth_db \<Rightarrow> ProtoUser list rpc" where
  "api_ListUsers env db =
     (case db_read (ae_read env) (user_List (ae_uuid_ok env)) db of
        Inl _ \<Rightarrow> Inl (Internal, ''failed to list users'')
      | Inr users \<Rightarrow> Inr (map toProtoUser users))"

text \<open>The \<^verbatim>\<open>switch err\<close> of the handler compares the error itself, not what it wraps.\<close>

definition api_UpdateUserRole :: "auth_env \<Rightarrow> string \<Rightarrow> ProtoRole \<Rightarrow> auth_db \<Rightarrow> bool rpc \<times> auth_db" where
  "api_UpdateUserRole env i prole db =
     (if i = [] then (Inl (InvalidArgument, ''id is required''), db)
      else case fromProtoRole prole of
             Inl _ \<Rightarrow> (Inl (InvalidArgument, ''invalid role''), db)
           | Inr role \<Rightarrow>
               (case UpdateUserRole env i role db of
                  (Inl e, db') \<Rightarrow>
                    (if e = ErrInvalidRole \<or> e = ErrInvalidUserID then Inl (InvalidArgument, err_text e)
                     else if e = ErrUserNotFound then Inl (NotFound, err_text e)
                     else if e = ErrRoleNotAllowed then Inl (PermissionDenied, err_text e)
                     else if e = ErrRoleUnchanged then Inr False
                     else Inl (Internal, ''failed to update user role''), db')
                | (Inr _, db') \<Rightarrow> (Inr True, db')))"

definition NewUserWithRole :: "UserID \<Rightarrow> time \<Rightarrow> string \<Rightarrow> string \<Rightarrow> Role \<Rightarrow> User" where
  "NewUserWithRole fresh now email passwordHash role =
     \<lparr>usr_ID = fresh, usr_Email = email, usr_PasswordHash = passwordHash, usr_Role = role,
      usr_CreatedAt = now, usr_UpdatedAt = now\<rparr>"

definition EnsureDefaultAdmin :: "auth_env \<Rightarrow> string \<Rightarrow> string \<Rightarrow> auth_db \<Rightarrow> unit res \<times> auth_db" where
  "EnsureDefaultAdmin env email password db =
     (case db_read (ae_read env) (user_GetByEmail (ae_uuid_ok env) email) db of
        Inl e \<Rightarrow> (Inl e, db)
      | Inr (Some user) \<Rightarrow>
          if usr_Role user \<noteq> RoleAdministrator
          then db_call (ae_write env) (user_UpdateRole (ae_now env) (usr_ID user) RoleAdministrator) db
          else (Inr (), db)
      | Inr None \<Rightarrow>
          (case HashPassword env password of
             Inl e \<Rightarrow> (Inl e, db)
           | Inr passwordHash \<Rightarrow>
               (case db_call (ae_write env) (user_Create (ae_uuid_ok env)
                        (NewUserWithRole (ae_userID env) (ae_now env) email passwordHash RoleAdministrator)) db of
                  (Inl e, db') \<Rightarrow> (Inl e, db')
                | (Inr _, db') \<Rightarrow> (Inr (), db'))))"

section \<open>Who is let in\<close>

lemma ParseRole_Inr: "ParseRole v = Inr r \<longleftrightarrow> r = v \<and> Role_IsValid v"
  by (auto simp: ParseRole_def)

lemma VerifyToken_role: "VerifyToken secret parse now tok = Inr c \<Longrightarrow> Role_IsValid (cl_Role c) \<and> cl_UserID c \<noteq> []"
  by (auto simp: VerifyToken_def ParseRole_Inr split: sum.splits prod.splits jwt_failure.splits if_splits)

lemma grpc_chain_decides:
  "grpc_chain v verify m h ctx = (case grpc_chain v verify m Inr ctx of Inl e \<Rightarrow> Inl e | Inr ctx' \<Rightarrow> h ctx')"
  by (simp add: grpc_chain_def ValidateInterceptor_def JWTAuthInterceptor_def RBACInterceptor_def
      split: option.split sum.split)

lemma split_at:
  assumes "c \<in> set xs"
  shows "xs = takeWhile (\<lambda>x. x \<noteq> c) xs @ c # tl (dropWhile (\<lambda>x. x \<noteq> c) xs)"
  using assms by (induction xs) auto

lemma bearer_token_iff:
  "bearer_token hdr = Some tok \<longleftrightarrow> (\<exists>scheme. hdr = scheme @ '' '' @ tok \<and> ToLower scheme = ''bearer'')"
proof
  assume "bearer_token hdr = Some tok"
  then have *: "CHR '' '' \<in> set hdr" "ToLower (takeWhile (\<lambda>x. x \<noteq> CHR '' '') hdr) = ''bearer''"
    "tok = tl (dropWhile (\<lambda>x. x \<noteq> CHR '' '') hdr)"
    by (auto simp: bearer_token_def SplitN2_def split: if_splits)
  then show "\<exists>scheme. hdr = scheme @ '' '' @ tok \<and> ToLower scheme = ''bearer''"
    using split_at [OF *(1)] by (intro exI [of _ "takeWhile (\<lambda>x. x \<noteq> CHR '' '') hdr"]) simp
next
  assume "\<exists>scheme. hdr = scheme @ '' '' @ tok \<and> ToLower scheme = ''bearer''"
  then obtain scheme where s: "hdr = scheme @ '' '' @ tok" "ToLower scheme = ''bearer''" by blast
  have "lower_char CHR '' '' \<notin> set (ToLower scheme)" using s(2) by (simp add: lower_char_def)
  then have "CHR '' '' \<notin> set scheme" by (auto simp: ToLower_def)
  then have "\<And>x. x \<in> set scheme \<Longrightarrow> x \<noteq> CHR '' ''" by blast
  then have "takeWhile (\<lambda>x. x \<noteq> CHR '' '') (scheme @ '' '' @ tok) = scheme"
    "dropWhile (\<lambda>x. x \<noteq> CHR '' '') (scheme @ '' '' @ tok) = '' '' @ tok"
    by (simp_all add: takeWhile_append2 dropWhile_append2)
  then show "bearer_token hdr = Some tok" using s by (simp add: bearer_token_def SplitN2_def)
qed

text \<open>
  C5. Access control.  A call reaches its handler exactly when it is valid and either the method is one
  of the five public ones, and then with the context untouched, or the first authorization value is a
  bearer token that verifies, the method is in the role table and the role of the token is at least the
  required one, and then with the user and role of the token in the context.  In every other case the
  handler is not run, and the answer is the validation error, Unauthenticated or PermissionDenied.  The
  HTTP routes outside the chain let in exactly the bearers of a sufficient role too.  A header carries a
  bearer token when it is the word bearer in any case, a space and the token.
\<close>

theorem access_control:
  fixes h :: "rpc_ctx \<Rightarrow> 'a rpc"
  shows "grpc_chain v verify m h ctx = (case grpc_chain v verify m Inr ctx of Inl e \<Rightarrow> Inl e | Inr ctx' \<Rightarrow> h ctx') \<and>
    (case grpc_chain v verify m Inr ctx of
       Inl e \<Rightarrow> v = Some e \<or> fst e \<in> {Unauthenticated, PermissionDenied}
     | Inr _ \<Rightarrow> v = None) \<and>
    (\<forall>ctx'. grpc_chain v verify m Inr ctx = Inr ctx' \<longleftrightarrow>
       v = None \<and>
       (if isPublicEndpoint m then ctx' = ctx
        else \<exists>hdr rest tok c r. rc_authorization ctx = Some (hdr # rest) \<and> bearer_token hdr = Some tok \<and>
          verify tok = Inr c \<and> Role_IsValid (cl_Role c) \<and>
          requiredRoleForMethod m = Some r \<and> Role_Level r \<le> Role_Level (cl_Role c) \<and>
          ctx' = ctx\<lparr>rc_user_id := Some (cl_UserID c), rc_user_role := Some (cl_Role c)\<rparr>)) \<and>
    (\<forall>hdr minRole c. verifyAuth verify minRole hdr = Inr c \<longleftrightarrow>
       (\<exists>tok. bearer_token hdr = Some tok \<and> verify tok = Inr c \<and>
          Role_IsValid (cl_Role c) \<and> Role_Level minRole \<le> Role_Level (cl_Role c))) \<and>
    (\<forall>hdr tok. bearer_token hdr = Some tok \<longleftrightarrow> (\<exists>scheme. hdr = scheme @ '' '' @ tok \<and> ToLower scheme = ''bearer''))"
proof (intro conjI allI)
  fix ctx'
  show "grpc_chain v verify m Inr ctx = Inr ctx' \<longleftrightarrow> v = None \<and>
      (if isPublicEndpoint m then ctx' = ctx
       else \<exists>hdr rest tok c r. rc_authorization ctx = Some (hdr # rest) \<and> bearer_token hdr = Some tok \<and> verify tok = Inr c \<and>
          Role_IsValid (cl_Role c) \<and> requiredRoleForMethod m = Some r \<and> Role_Level r \<le> Role_Level (cl_Role c) \<and>
          ctx' = ctx\<lparr>rc_user_id := Some (cl_UserID c), rc_user_role := Some (cl_Role c)\<rparr>)"
    by (auto simp: grpc_chain_def ValidateInterceptor_def JWTAuthInterceptor_def RBACInterceptor_def extractTokenFromMetadata_def
        ParseRole_def split: option.splits sum.splits list.splits if_splits)
next
  show "case grpc_chain v verify m Inr ctx of
       Inl e \<Rightarrow> v = Some e \<or> fst e \<in> {Unauthenticated, PermissionDenied} | Inr _ \<Rightarrow> v = None"
    by (auto simp: grpc_chain_def ValidateInterceptor_def JWTAuthInterceptor_def RBACInterceptor_def
        split: option.splits sum.splits if_splits)
next
  fix hdr minRole c
  show "verifyAuth verify minRole hdr = Inr c \<longleftrightarrow> (\<exists>tok. bearer_token hdr = Some tok \<and> verify tok = Inr c \<and>
          Role_IsValid (cl_Role c) \<and> Role_Level minRole \<le> Role_Level (cl_Role c))"
    by (auto simp: verifyAuth_def ParseRole_def split: option.splits sum.splits if_splits)
qed (rule grpc_chain_decides bearer_token_iff)+

section \<open>What an issued token is worth\<close>

lemma bearer_word: "ToLower ''Bearer'' = ''bearer''" by code_simp

definition administrators :: "auth_db \<Rightarrow> UserID set" where
  "administrators db = usr_ID ` {u \<in> set (a_users db). usr_Role u = RoleAdministrator}"

lemma generateTokens_users: "generateTokens sha env u db = (Inr toks, db') \<Longrightarrow>
    a_users db' = a_users db \<and> SignAccessToken env (usr_ID u) (usr_Role u) = Inr (AccessToken toks)"
  by (cases "ae_store env") (auto simp: generateTokens_def token_Create_def split: sum.splits prod.splits if_splits)

text \<open>Every token comes from a stored, well-formed user and names that user and role.\<close>

definition issued :: "auth_env \<Rightarrow> AuthTokens \<Rightarrow> User \<Rightarrow> auth_db \<Rightarrow> bool" where
  "issued env toks u db \<longleftrightarrow> u \<in> set (a_users db) \<and> usr_ID u \<noteq> [] \<and> Role_IsValid (usr_Role u) \<and>
     SignAccessToken env (usr_ID u) (usr_Role u) = Inr (AccessToken toks)"

lemma Register_issued: "Register sha env email password db = (Inr toks, db') \<Longrightarrow>
    \<exists>u. issued env toks u db' \<and> a_users db' = a_users db @ [u] \<and> usr_Role u = RoleRead"
proof -
  assume "Register sha env email password db = (Inr toks, db')"
  then obtain h x where c: "user_Create (ae_uuid_ok env) (NewUser (ae_userID env) (ae_now env) email h) db =
             (Inr x, db\<lparr>a_users := a_users db @ [NewUser (ae_userID env) (ae_now env) email h]\<rparr>)"
    and g: "generateTokens sha env (NewUser (ae_userID env) (ae_now env) email h)
             (db\<lparr>a_users := a_users db @ [NewUser (ae_userID env) (ae_now env) email h]\<rparr>) = (Inr toks, db')"
    using Register_done by blast
  show ?thesis using generateTokens_users [OF g] c
    by (intro exI [of _ "NewUser (ae_userID env) (ae_now env) email h"])
      (auto simp: issued_def user_Create_def NewTypedID_eq NewUser_def NewID_def split: if_splits)
qed

lemma Login_issued: "Login sha env email password db = (Inr toks, db') \<Longrightarrow>
    \<exists>u. issued env toks u db' \<and> a_users db' = a_users db \<and> usr_Email u = email"
proof -
  assume "Login sha env email password db = (Inr toks, db')"
  note d = Login_done [OF this]
  from d obtain u where u: "u \<in> set (a_users db)" "usr_Email u = email" "usr_ID u \<noteq> []" "Role_IsValid (usr_Role u)"
    and g: "generateTokens sha env u (db\<lparr>a_tokens := map (\<lambda>x. if rt_UserID x = usr_ID u \<and> rt_RevokedAt x = None
        then x\<lparr>rt_RevokedAt := Some (ae_now env)\<rparr> else x) (a_tokens db)\<rparr>) = (Inr toks, db')"
    by blast
  show ?thesis using generateTokens_users [OF g] u by (intro exI [of _ u]) (simp add: issued_def)
qed

lemma Refresh_issued: "Refresh sha env token db = (Inr toks, db') \<Longrightarrow>
    \<exists>u. issued env toks u db' \<and> a_users db' = a_users db"
proof -
  assume "Refresh sha env token db = (Inr toks, db')"
  note d = Refresh_done [OF this]
  from d obtain rt :: RefreshToken and u where u: "u \<in> set (a_users db)" "usr_ID u \<noteq> []" "Role_IsValid (usr_Role u)"
    and g: "generateTokens sha env u (db\<lparr>a_tokens := map (\<lambda>x. if rt_ID x = rt_ID rt
        then x\<lparr>rt_RevokedAt := Some (ae_now env), rt_ReplacedBy := rt_ReplacedBy rt\<rparr> else x) (a_tokens db)\<rparr>) = (Inr toks, db')"
    by blast
  show ?thesis using generateTokens_users [OF g] u by (intro exI [of _ u]) (simp add: issued_def)
qed

lemma Register_error: "Register sha env email password db = (Inl e, db') \<Longrightarrow> db' = db"
  by (auto simp: Register_def Let_def split: sum.splits option.splits if_splits dest: transaction_error_unchanged)

lemma Login_error: "Login sha env email password db = (Inl e, db') \<Longrightarrow> db' = db"
  by (auto simp: Login_def split: sum.splits option.splits if_splits dest: transaction_error_unchanged)

lemma administrators_step: "administrators (auth_step sha db op) \<subseteq> administrators db"
proof (cases op)
  case (RegisterOp env email password)
  obtain r db' where e: "Register sha env email password db = (r, db')" by (metis surj_pair)
  have "administrators db' \<subseteq> administrators db"
  proof (cases r)
    case (Inl x)
    show ?thesis using Register_error [OF e [unfolded Inl]] by simp
  next
    case (Inr toks)
    show ?thesis using Register_issued [OF e [unfolded Inr]]
      by (auto simp: administrators_def RoleRead_def RoleAdministrator_def)
  qed
  then show ?thesis using RegisterOp e by simp
next
  case (LoginOp env email password)
  obtain r db' where e: "Login sha env email password db = (r, db')" by (metis surj_pair)
  have "a_users db' = a_users db"
  proof (cases r)
    case (Inl x)
    show ?thesis using Login_error [OF e [unfolded Inl]] by simp
  next
    case (Inr toks)
    show ?thesis using Login_issued [OF e [unfolded Inr]] by blast
  qed
  then show ?thesis using LoginOp e by (simp add: administrators_def)
next
  case (RefreshOp env token)
  obtain r db' where e: "Refresh sha env token db = (r, db')" by (metis surj_pair)
  have "a_users db' = a_users db"
  proof (cases r)
    case (Inl x)
    show ?thesis using Refresh_error [OF e [unfolded Inl]] by simp
  next
    case (Inr toks)
    show ?thesis using Refresh_issued [OF e [unfolded Inr]] by blast
  qed
  then show ?thesis using RefreshOp e by (simp add: administrators_def)
next
  case (LogoutOp env token)
  then show ?thesis
    by (cases "ae_write env") (auto simp: Logout_def token_RevokeByTokenHash_def administrators_def)
next
  case (UpdateRoleOp env user role)
  obtain r db' where e: "UpdateUserRole env user role db = (r, db')" by (metis surj_pair)
  have "administrators db' \<subseteq> administrators db"
    using UpdateRole_users [OF e] by (auto simp: administrators_def split: if_splits)
  then show ?thesis using UpdateRoleOp e by simp
qed

lemma administrators_run: "administrators (foldl (auth_step sha) db ops) \<subseteq> administrators db"
proof (induction ops arbitrary: db)
  case (Cons op ops)
  then show ?case using administrators_step [of sha db op] by fastforce
qed simp

text \<open>
  The documented behaviour of the JWT library the service relies on: a token signed with the secret
  parses back to its user and role, and as valid, until the second its expiry falls in, and as expired
  from then on.
\<close>

definition jwt_honest :: "string \<Rightarrow> (Claims \<Rightarrow> string res) \<Rightarrow> jwt_parse \<Rightarrow> bool" where
  "jwt_honest secret sign parse \<longleftrightarrow>
     (\<forall>c s now. sign c = Inr s \<longrightarrow>
        (if now < cl_ExpiresAt c div Second * Second
         then \<exists>c'. parse (key_func secret) now s = Inr (c', True) \<and> cl_UserID c' = cl_UserID c \<and> cl_Role c' = cl_Role c
         else parse (key_func secret) now s = Inl TokenExpired))"

lemma issued_verifies:
  assumes lib: "jwt_honest secret (ae_sign env) parse" and i: "issued env toks u db"
  shows "if now < (ae_now env + ae_accessTTL env) div Second * Second
         then \<exists>c. VerifyToken secret parse now (AccessToken toks) = Inr c \<and> cl_UserID c = usr_ID u \<and> cl_Role c = usr_Role u
         else VerifyToken secret parse now (AccessToken toks) = Inl ErrExpiredToken"
proof -
  define c where "c = \<lparr>cl_UserID = usr_ID u, cl_Role = usr_Role u, cl_ExpiresAt = ae_now env + ae_accessTTL env,
                  cl_IssuedAt = ae_now env, cl_Issuer = ae_issuer env, cl_Audience = ae_audience env\<rparr>"
  have s: "ae_sign env c = Inr (AccessToken toks)" using i by (simp add: c_def issued_def SignAccessToken_def)
  have c: "cl_UserID c = usr_ID u" "cl_Role c = usr_Role u" "cl_ExpiresAt c = ae_now env + ae_accessTTL env" by (simp_all add: c_def)
  have p: "if now < (ae_now env + ae_accessTTL env) div Second * Second
     then \<exists>c'. parse (key_func secret) now (AccessToken toks) = Inr (c', True) \<and> cl_UserID c' = usr_ID u \<and> cl_Role c' = usr_Role u
     else parse (key_func secret) now (AccessToken toks) = Inl TokenExpired"
    using lib s unfolding jwt_honest_def c [symmetric] by blast
  have "usr_ID u \<noteq> []" "ParseRole (usr_Role u) = Inr (usr_Role u)" using i by (simp_all add: issued_def ParseRole_def)
  then show ?thesis using p by (cases "now < (ae_now env + ae_accessTTL env) div Second * Second")
      (auto simp: VerifyToken_def)
qed

text \<open>
  C30. An issued token is worth the role of its user, until it expires.  After any history of the
  service, the access token of a successful registration, login or refresh belongs to a stored user;
  sent as a bearer token before its expiry it opens exactly the public methods and those of the role
  table up to the role of that user, with the user's identity in the context, and after its expiry only
  the public ones.  No history creates an administrator: the token opens the administrator's methods
  only for a user who was one at the beginning.
\<close>

theorem issued_token_access:
  fixes h :: "rpc_ctx \<Rightarrow> 'a rpc"
  assumes lib: "jwt_honest secret (ae_sign env) parse"
    and run: "db = foldl (auth_step sha) db0 ops"
    and got: "Register sha env email password db = (Inr toks, db') \<or> Login sha env email password db = (Inr toks, db') \<or>
               Refresh sha env token db = (Inr toks, db')"
    and ctx: "rc_authorization ctx = Some [''Bearer '' @ AccessToken toks]"
  shows "\<exists>u. u \<in> set (a_users db') \<and>
     (usr_Role u \<noteq> RoleAdministrator \<or> usr_ID u \<in> administrators db0) \<and>
     (\<forall>now m. grpc_chain None (VerifyToken secret parse now) m h ctx =
        (if isPublicEndpoint m then h ctx
         else if (ae_now env + ae_accessTTL env) div Second * Second \<le> now then Inl (Unauthenticated, ''invalid or expired token'')
         else case requiredRoleForMethod m of
                None \<Rightarrow> Inl (PermissionDenied, ''access denied'')
              | Some r \<Rightarrow>
                  if Role_Level (usr_Role u) < Role_Level r then Inl (PermissionDenied, ''access denied'')
                  else h (ctx\<lparr>rc_user_id := Some (usr_ID u), rc_user_role := Some (usr_Role u)\<rparr>)))"
proof -
  have "\<exists>u. issued env toks u db' \<and> (usr_Role u \<noteq> RoleAdministrator \<or> u \<in> set (a_users db))"
    using got
  proof (elim disjE)
    assume "Register sha env email password db = (Inr toks, db')"
    from Register_issued [OF this] show ?thesis by (auto simp: RoleRead_def RoleAdministrator_def)
  next
    assume "Login sha env email password db = (Inr toks, db')"
    from Login_issued [OF this] show ?thesis by (auto simp: issued_def)
  next
    assume "Refresh sha env token db = (Inr toks, db')"
    from Refresh_issued [OF this] show ?thesis by (auto simp: issued_def)
  qed
  then obtain u where i: "issued env toks u db'" and a: "usr_Role u \<noteq> RoleAdministrator \<or> u \<in> set (a_users db)" by blast
  have adm: "usr_Role u \<noteq> RoleAdministrator \<or> usr_ID u \<in> administrators db0"
    using a administrators_run [of sha db0 ops] unfolding run by (auto simp: administrators_def)
  have b: "bearer_token (''Bearer '' @ AccessToken toks) = Some (AccessToken toks)"
    unfolding bearer_token_iff by (intro exI [of _ "''Bearer''"]) (simp add: bearer_word)
  have r: "ParseRole (usr_Role u) = Inr (usr_Role u)" using i by (simp add: issued_def ParseRole_def)
  have "grpc_chain None (VerifyToken secret parse now) m h ctx =
        (if isPublicEndpoint m then h ctx
         else if (ae_now env + ae_accessTTL env) div Second * Second \<le> now then Inl (Unauthenticated, ''invalid or expired token'')
         else case requiredRoleForMethod m of
                None \<Rightarrow> Inl (PermissionDenied, ''access denied'')
              | Some r \<Rightarrow>
                  if Role_Level (usr_Role u) < Role_Level r then Inl (PermissionDenied, ''access denied'')
                  else h (ctx\<lparr>rc_user_id := Some (usr_ID u), rc_user_role := Some (usr_Role u)\<rparr>))" for now m
    using issued_verifies [OF lib i, of now] b r ctx
    by (auto simp: grpc_chain_def ValidateInterceptor_def JWTAuthInterceptor_def RBACInterceptor_def extractTokenFromMetadata_def
        split: option.splits if_splits)
  then show ?thesis using i adm by (auto simp: issued_def)
qed

text \<open>A library that keeps its promise: the expiry in unary, the length of the role, the role and the user.\<close>

definition unary :: "int \<Rightarrow> string" where
  "unary i = (if i < 0 then CHR ''-'' else CHR ''+'') # replicate (nat \<bar>i\<bar>) CHR ''1''"

definition unary_value :: "string \<Rightarrow> int" where
  "unary_value s = (if hd s = CHR ''-'' then - int (length (tl s)) else int (length (tl s)))"

definition sample_sign :: "Claims \<Rightarrow> string res" where
  "sample_sign c = Inr (unary (cl_ExpiresAt c div Second) @ '' '' @ replicate (length (cl_Role c)) CHR ''1'' @ '' '' @
     cl_Role c @ cl_UserID c)"

definition sample_parse :: jwt_parse where
  "sample_parse keyf now s =
     (let e = unary_value (takeWhile (\<lambda>x. x \<noteq> CHR '' '') s) * Second;
          r = tl (dropWhile (\<lambda>x. x \<noteq> CHR '' '') s);
          n = length (takeWhile (\<lambda>x. x \<noteq> CHR '' '') r);
          b = tl (dropWhile (\<lambda>x. x \<noteq> CHR '' '') r)
      in if e \<le> now then Inl TokenExpired
         else Inr (\<lparr>cl_UserID = drop n b, cl_Role = take n b, cl_ExpiresAt = e, cl_IssuedAt = 0, cl_Issuer = [], cl_Audience = []\<rparr>, True))"

lemma takeWhile_until: "c \<notin> set a \<Longrightarrow> takeWhile (\<lambda>x. x \<noteq> c) (a @ c # b) = a \<and> dropWhile (\<lambda>x. x \<noteq> c) (a @ c # b) = c # b"
  by (induction a) auto

lemma sample_jwt_honest: "jwt_honest secret sample_sign sample_parse"
proof -
  have "unary_value (unary i) = i" "CHR '' '' \<notin> set (unary i)" for i by (auto simp: unary_def unary_value_def)
  moreover have "CHR '' '' \<notin> set (replicate n CHR ''1'')" for n by (cases n) auto
  ultimately show ?thesis
    by (auto simp: jwt_honest_def sample_sign_def sample_parse_def Let_def takeWhile_until)
qed

definition jwt_env :: auth_env where
  "jwt_env = sample_auth_env\<lparr>ae_sign := sample_sign\<rparr>"

theorem issued_token_access_witness:
  "\<exists>u (toks :: AuthTokens). grpc_chain None (VerifyToken ''s'' sample_parse 20) ''/crawler.v1.CrawlerService/ListJobs'' Inr
       \<lparr>rc_authorization = Some [''Bearer '' @ AccessToken toks], rc_user_id = None, rc_user_role = None\<rparr>
     = Inr \<lparr>rc_authorization = Some [''Bearer '' @ AccessToken toks], rc_user_id = Some u, rc_user_role = Some ''READ''\<rparr>"
proof -
  have "case Register id jwt_env ''a@b'' ''password'' empty_auth of
          (Inr _, db') \<Rightarrow> map usr_Role (a_users db') = [''READ''] | _ \<Rightarrow> False"
    by code_simp
  then obtain toks db' where r: "Register id jwt_env ''a@b'' ''password'' empty_auth = (Inr toks, db')"
    and role: "map usr_Role (a_users db') = [''READ'']" by (auto split: prod.splits sum.splits)
  have lib: "jwt_honest ''s'' (ae_sign jwt_env) sample_parse" by (simp add: jwt_env_def sample_jwt_honest)
  define ctx where "ctx = \<lparr>rc_authorization = Some [''Bearer '' @ AccessToken toks], rc_user_id = None, rc_user_role = None\<rparr>"
  have auth: "rc_authorization ctx = Some [''Bearer '' @ AccessToken toks]" by (simp add: ctx_def)
  obtain u where u: "u \<in> set (a_users db')" and
    c: "\<forall>now m. grpc_chain None (VerifyToken ''s'' sample_parse now) m Inr ctx =
        (if isPublicEndpoint m then Inr ctx
         else if (ae_now jwt_env + ae_accessTTL jwt_env) div Second * Second \<le> now then Inl (Unauthenticated, ''invalid or expired token'')
         else case requiredRoleForMethod m of
                None \<Rightarrow> Inl (PermissionDenied, ''access denied'')
              | Some r \<Rightarrow>
                  if Role_Level (usr_Role u) < Role_Level r then Inl (PermissionDenied, ''access denied'')
                  else Inr (ctx\<lparr>rc_user_id := Some (usr_ID u), rc_user_role := Some (usr_Role u)\<rparr>))"
    using issued_token_access [OF lib _ disjI1 [OF r] auth, of empty_auth "[]" Inr] by auto
  have "usr_Role u = ''READ''" using u role by (cases "a_users db'") auto
  moreover have "\<not> isPublicEndpoint ''/crawler.v1.CrawlerService/ListJobs''" by (simp add: isPublicEndpoint_def)
  moreover have "requiredRoleForMethod ''/crawler.v1.CrawlerService/ListJobs'' = Some RoleRead"
    by (simp add: requiredRoleForMethod_def read_methods_def)
  moreover have "\<not> (ae_now jwt_env + ae_accessTTL jwt_env) div Second * Second \<le> 20"
    by (simp add: jwt_env_def sample_auth_env_def Second_def)
  ultimately have "grpc_chain None (VerifyToken ''s'' sample_parse 20) ''/crawler.v1.CrawlerService/ListJobs'' Inr ctx =
      Inr (ctx\<lparr>rc_user_id := Some (usr_ID u), rc_user_role := Some ''READ''\<rparr>)"
    using c [rule_format, of 20 "''/crawler.v1.CrawlerService/ListJobs''"] by (simp add: Role_Level_def RoleRead_def)
  then show ?thesis unfolding ctx_def by (simp only: rpc_ctx.simps) blast
qed

section \<open>The answers of the role update\<close>

lemma role_cases: "Role_IsValid RoleRead" "Role_IsValid RoleReadWrite" "Role_IsValid RoleAdministrator" "\<not> Role_IsValid []"
    "RoleRead \<noteq> RoleAdministrator" "RoleReadWrite \<noteq> RoleAdministrator"
  by (simp_all add: Role_IsValid_def status_defs)

lemma transaction_error_wraps: "transaction fb fc body db = (Inl e, db') \<Longrightarrow> \<exists>p e'. e = ErrWrap p e'"
  by (auto simp: transaction_def split: option.splits prod.splits sum.splits)

lemmas auth_errors = ErrInvalidRole_def ErrInvalidUserID_def ErrUserNotFound_def ErrRoleNotAllowed_def ErrRoleUnchanged_def

text \<open>
  What changing a role answers.  The handler changes the role of exactly the named user and says
  so, or changes nothing.  A missing or malformed identifier and an unspecified role are
  InvalidArgument, asking for the administrator role is PermissionDenied, and everything else is
  Internal: the answers NotFound and not updated that the handler has for an unknown user and for an
  unchanged role are never given, because the transaction wraps those errors before the handler
  compares them.
\<close>

theorem UpdateUserRole_status:
  "case api_UpdateUserRole env i prole db of
     (Inr updated, db') \<Rightarrow>
       updated \<and> (\<exists>u role. fromProtoRole prole = Inr role \<and> u \<in> set (a_users db) \<and> usr_ID u = i \<and> usr_Role u \<noteq> role \<and>
         a_tokens db' = a_tokens db \<and>
         a_users db' = map (\<lambda>u. if usr_ID u = i then u\<lparr>usr_Role := role, usr_UpdatedAt := ae_now env\<rparr> else u) (a_users db))
   | (Inl (code, _), db') \<Rightarrow> db' = db \<and>
       (code = InvalidArgument \<longleftrightarrow> i = [] \<or> prole = ROLE_UNSPECIFIED \<or> prole \<noteq> ROLE_ADMINISTRATOR \<and> \<not> valid_id (ae_uuid_ok env) i) \<and>
       (code = PermissionDenied \<longleftrightarrow> i \<noteq> [] \<and> prole = ROLE_ADMINISTRATOR) \<and>
       code \<in> {InvalidArgument, PermissionDenied, Internal}"
proof (cases "i = [] \<or> prole = ROLE_UNSPECIFIED \<or> prole = ROLE_ADMINISTRATOR \<or> \<not> valid_id (ae_uuid_ok env) i")
  case True
  then show ?thesis
    by (cases prole) (auto simp: api_UpdateUserRole_def UpdateUserRole_def NewTypedID_eq NewID_def valid_id_def ParseRole_def
        role_cases auth_errors split: if_splits)
next
  case False
  then obtain role where r: "fromProtoRole prole = Inr role" "Role_IsValid role" "role \<noteq> RoleAdministrator"
    by (cases prole) (auto simp: role_cases)
  let ?body = "\<lambda>db. case db_read (ae_read_tx env) (user_GetByID (ae_uuid_ok env) i) db of
                   Inl e \<Rightarrow> (Inl e, db)
                 | Inr None \<Rightarrow> (Inl ErrUserNotFound, db)
                 | Inr (Some u) \<Rightarrow>
                     if usr_Role u = role then (Inl ErrRoleUnchanged, db)
                     else db_call (ae_write env) (user_UpdateRole (ae_now env) i role) db"
  have u: "UpdateUserRole env i role db = transaction (ae_begin env) (ae_commit env) ?body db"
    using False r by (simp add: UpdateUserRole_def NewTypedID_eq)
  obtain res db' where t: "transaction (ae_begin env) (ae_commit env) ?body db = (res, db')" by (rule prod.exhaust)
  show ?thesis
  proof (cases res)
    case (Inl e)
    obtain p e' where e: "e = ErrWrap p e'" using transaction_error_wraps [OF t [unfolded Inl]] by blast
    have "UpdateUserRole env i role db = (Inl (ErrWrap p e'), db)"
      unfolding u t Inl e transaction_error_unchanged [OF t [unfolded Inl]] ..
    then have "api_UpdateUserRole env i prole db = (Inl (Internal, ''failed to update user role''), db)"
      using False r(1) by (simp add: api_UpdateUserRole_def auth_errors)
    then show ?thesis using False by auto
  next
    case (Inr x)
    then have b: "?body db = (Inr x, db')" using t by (simp add: transaction_commits)
    then obtain u0 where u0: "db_read (ae_read_tx env) (user_GetByID (ae_uuid_ok env) i) db = Inr (Some u0)" "usr_Role u0 \<noteq> role"
      by (auto split: sum.splits option.splits if_splits)
    then have "db' = db\<lparr>a_users := map (\<lambda>u. if usr_ID u = i then u\<lparr>usr_Role := role, usr_UpdatedAt := ae_now env\<rparr> else u) (a_users db)\<rparr>"
      using b r(2) by (cases "ae_write env") (auto simp: user_UpdateRole_def)
    then have "api_UpdateUserRole env i prole db = (Inr True,
        db\<lparr>a_users := map (\<lambda>u. if usr_ID u = i then u\<lparr>usr_Role := role, usr_UpdatedAt := ae_now env\<rparr> else u) (a_users db)\<rparr>)"
      using False r(1) u t Inr by (simp add: api_UpdateUserRole_def)
    then show ?thesis using user_GetByID_Some [OF u0(1)] u0(2) r(1) by auto
  qed
qed

end
