(* ===== verification/Listing.thy ===== *)
theory Listing
  imports Access_Control "HOL-Library.Product_Lexorder" "HOL-Library.List_Lexorder" "HOL-Library.Char_ord"
begin

text \<open>
  Listing with cursors: \<^verbatim>\<open>ListWithCursor\<close> of the task and job repositories, the services and the
  gRPC handlers above them.  \<open>tk\<close> is the order of the database on texts (a collation, as the key it sorts
  by), \<open>ilike\<close> its case-insensitive match, and \<open>enc\<close> and \<open>dec\<close> stand for the JSON and base64 coding of
  cursors.
\<close>

section \<open>Model\<close>

subsection \<open>Keyset queries\<close>

text \<open>
  \<^verbatim>\<open>ORDER BY key, id\<close> in either direction, after the cursor, with a limit.  The keys end with the
  identifier, so no two rows have the same.
\<close>

definition order_rows :: "('r \<Rightarrow> 'k :: linorder) \<Rightarrow> bool \<Rightarrow> 'r list \<Rightarrow> 'r list" where
  "order_rows key asc rows = (if asc then sort_key key rows else rev (sort_key key rows))"

definition beyond :: "bool \<Rightarrow> 'k :: linorder \<Rightarrow> 'k \<Rightarrow> bool" where
  "beyond asc c k \<longleftrightarrow> (if asc then c < k else k < c)"

subsection \<open>Tasks\<close>

definition TaskSortByEnqueuedAt :: string where [status_defs]: "TaskSortByEnqueuedAt = ''enqueued_at''"
definition TaskSortByURL :: string where [status_defs]: "TaskSortByURL = ''url''"
definition TaskSortByStatus :: string where [status_defs]: "TaskSortByStatus = ''status''"
definition TaskSortByDepth :: string where [status_defs]: "TaskSortByDepth = ''depth''"

record ListTasksFilter =
  ltf_Status :: "string option"
  ltf_URL :: "string option"
  ltf_MinDepth :: "u64 option"
  ltf_MaxDepth :: "u64 option"
  ltf_EnqueuedFrom :: "time option"
  ltf_EnqueuedTo :: "time option"

record ListTasksCursor =
  ltc_SortField :: string
  ltc_SortAsc :: bool
  ltc_EnqueuedAt :: time
  ltc_URL :: string
  ltc_Status :: string
  ltc_Depth :: "u64 option"
  ltc_ID :: string

record ListTasksByJobQuery =
  ltq_JobID :: string
  ltq_Cursor :: "ListTasksCursor option"
  ltq_Limit :: int
  ltq_Filter :: ListTasksFilter
  ltq_SortField :: string
  ltq_SortAsc :: bool

record ListTasksResult =
  ltr_Tasks :: "CrawlTask list"
  ltr_NextCursor :: "ListTasksCursor option"
  ltr_HasMore :: bool

definition task_matches :: "(string \<Rightarrow> string \<Rightarrow> bool) \<Rightarrow> string \<Rightarrow> ListTasksFilter \<Rightarrow> CrawlTaskSnapshot \<Rightarrow> bool" where
  "task_matches ilike jobID f r \<longleftrightarrow>
     ts_JobID r = jobID \<and>
     (case ltf_Status f of None \<Rightarrow> True | Some s \<Rightarrow> s = [] \<or> ts_Status r = s) \<and>
     (case ltf_URL f of None \<Rightarrow> True | Some u \<Rightarrow> u = [] \<or> ilike (ts_URL r) (''%'' @ u @ ''%'')) \<and>
     (case ltf_MinDepth f of None \<Rightarrow> True | Some d \<Rightarrow> d \<le> ts_Depth r) \<and>
     (case ltf_MaxDepth f of None \<Rightarrow> True | Some d \<Rightarrow> ts_Depth r \<le> d) \<and>
     (case ltf_EnqueuedFrom f of None \<Rightarrow> True | Some t \<Rightarrow> t \<le> ts_EnqueuedAt r) \<and>
     (case ltf_EnqueuedTo f of None \<Rightarrow> True | Some t \<Rightarrow> ts_EnqueuedAt r \<le> t)"

definition task_sort_key :: "(string \<Rightarrow> 'k :: linorder) \<Rightarrow> string \<Rightarrow> CrawlTaskSnapshot \<Rightarrow> 'k \<times> int \<times> 'k" where
  "task_sort_key tk field r =
     (if field = TaskSortByURL then (tk (ts_URL r), 0, tk (ts_ID r))
      else if field = TaskSortByStatus then (tk (ts_Status r), 0, tk (ts_ID r))
      else if field = TaskSortByDepth then (tk [], uint (ts_Depth r), tk (ts_ID r))
      else (tk [], ts_EnqueuedAt r, tk (ts_ID r)))"

text \<open>The cursor's row value; a missing depth is NULL, and no row compares with it.\<close>

definition task_cursor_key :: "(string \<Rightarrow> 'k :: linorder) \<Rightarrow> string \<Rightarrow> ListTasksCursor \<Rightarrow> ('k \<times> int \<times> 'k) option" where
  "task_cursor_key tk field c =
     (if field = TaskSortByURL then Some (tk (ltc_URL c), 0, tk (ltc_ID c))
      else if field = TaskSortByStatus then Some (tk (ltc_Status c), 0, tk (ltc_ID c))
      else if field = TaskSortByDepth then
        (case ltc_Depth c of None \<Rightarrow> None | Some d \<Rightarrow> Some (tk [], uint d, tk (ltc_ID c)))
      else Some (tk [], ltc_EnqueuedAt c, tk (ltc_ID c)))"

definition after_task_cursor ::
  "(string \<Rightarrow> 'k :: linorder) \<Rightarrow> string \<Rightarrow> bool \<Rightarrow> ListTasksCursor option \<Rightarrow> CrawlTaskSnapshot \<Rightarrow> bool" where
  "after_task_cursor tk field asc cursor r \<longleftrightarrow>
     (case cursor of None \<Rightarrow> True
      | Some c \<Rightarrow> (case task_cursor_key tk field c of None \<Rightarrow> False | Some k \<Rightarrow> beyond asc k (task_sort_key tk field r)))"

definition task_cursor_of :: "string \<Rightarrow> bool \<Rightarrow> CrawlTask \<Rightarrow> ListTasksCursor" where
  "task_cursor_of field asc t =
     \<lparr>ltc_SortField = field, ltc_SortAsc = asc, ltc_EnqueuedAt = task_EnqueuedAt t, ltc_URL = task_URL t,
      ltc_Status = task_Status t, ltc_Depth = Some (task_Depth t), ltc_ID = task_ID t\<rparr>"

definition limit_error :: gerr where
  "limit_error = ErrText ''bigint out of range''"

text \<open>
  The limit is an \<^verbatim>\<open>int\<close> of any sign.  Below minus one the fetch limit becomes an unsigned number
  the database refuses; at minus one the query succeeds with no rows and \<^verbatim>\<open>make\<close> panics on the
  negative capacity.
\<close>

definition task_ListWithCursor ::
  "(string \<Rightarrow> 'k :: linorder) \<Rightarrow> (string \<Rightarrow> string \<Rightarrow> bool) \<Rightarrow> (string \<Rightarrow> bool) \<Rightarrow> gerr option \<Rightarrow>
   ListTasksByJobQuery \<Rightarrow> DB \<Rightarrow> ListTasksResult res outcome" where
  "task_ListWithCursor tk ilike uuid_ok fail query db =
     (let limit0 = (if ltq_Limit query = 0 then 20 else ltq_Limit query);
          effectiveLimit = (if 100 < limit0 then 100 else limit0);
          fetchLimit = effectiveLimit + 1;
          sortField = (if ltq_SortField query = [] then TaskSortByEnqueuedAt else ltq_SortField query);
          sortAsc = ltq_SortAsc query
      in if fetchLimit < 0 then Returns (Inl limit_error)
         else case db_read fail (\<lambda>db. Inr (take (nat fetchLimit) (order_rows (task_sort_key tk sortField) sortAsc
                     (filter (\<lambda>r. task_matches ilike (ltq_JobID query) (ltq_Filter query) r \<and>
                                   after_task_cursor tk sortField sortAsc (ltq_Cursor query) r) (db_tasks db))))) db of
                Inl e \<Rightarrow> Returns (Inl e)
              | Inr rows \<Rightarrow>
                  if effectiveLimit < 0 then Panics
                  else case map_res (RestoreCrawlTaskFromSnapshot uuid_ok) (take (nat effectiveLimit) rows) of
                         Inl e \<Rightarrow> Returns (Inl e)
                       | Inr tasks \<Rightarrow>
                           let hasMore = (effectiveLimit < int (length rows))
                           in Returns (Inr \<lparr>ltr_Tasks = tasks,
                                 ltr_NextCursor = (if hasMore \<and> tasks \<noteq> [] then Some (task_cursor_of sortField sortAsc (last tasks)) else None),
                                 ltr_HasMore = hasMore\<rparr>))"

definition ListTasksByJob ::
  "(string \<Rightarrow> 'k :: linorder) \<Rightarrow> (string \<Rightarrow> string \<Rightarrow> bool) \<Rightarrow> (string \<Rightarrow> bool) \<Rightarrow> gerr option \<Rightarrow>
   ListTasksByJobQuery \<Rightarrow> DB \<Rightarrow> ListTasksResult res outcome" where
  "ListTasksByJob tk ilike uuid_ok fail query0 db =
     (let limit0 = (if ltq_Limit query0 = 0 then 20 else ltq_Limit query0);
          query = query0\<lparr>ltq_Limit := (if 100 < limit0 then 100 else limit0)\<rparr>;
          f = ltq_Filter query
      in if (case ltf_Status f of None \<Rightarrow> False | Some s \<Rightarrow> s \<noteq> [] \<and> \<not> TaskStatus_IsValid s)
         then Returns (Inl (ErrText (''invalid status: '' @ the (ltf_Status f))))
         else if (case (ltf_MinDepth f, ltf_MaxDepth f) of (Some a, Some b) \<Rightarrow> b < a | _ \<Rightarrow> False)
         then Returns (Inl (ErrText ''min_depth cannot be greater than max_depth''))
         else if (case (ltf_EnqueuedFrom f, ltf_EnqueuedTo f) of (Some a, Some b) \<Rightarrow> b < a | _ \<Rightarrow> False)
         then Returns (Inl (ErrText ''enqueued_from cannot be after enqueued_to''))
         else case task_ListWithCursor tk ilike uuid_ok fail query db of
                Panics \<Rightarrow> Panics
              | Returns r \<Rightarrow> Returns (wrap_err ''failed to list tasks'' r))"

datatype ProtoTaskSort =
  TASK_SORT_FIELD_UNSPECIFIED | TASK_SORT_FIELD_ENQUEUED_AT | TASK_SORT_FIELD_URL | TASK_SORT_FIELD_STATUS | TASK_SORT_FIELD_DEPTH

datatype ProtoSortOrder = SORT_ORDER_UNSPECIFIED | SORT_ORDER_ASC | SORT_ORDER_DESC

record ListTasksByJobRequest =
  ltreq_JobId :: string
  ltreq_Cursor :: "string option"
  ltreq_Limit :: int
  ltreq_Filter :: "ListTasksFilter option"
  ltreq_SortField :: ProtoTaskSort
  ltreq_SortOrder :: ProtoSortOrder

text \<open>A handler fails with a status or passes the error of the service on.\<close>

datatype api_error = StatusError grpc_code string | PlainError gerr

fun task_sort_field :: "ProtoTaskSort \<Rightarrow> string" where
  "task_sort_field TASK_SORT_FIELD_URL = TaskSortByURL"
| "task_sort_field TASK_SORT_FIELD_STATUS = TaskSortByStatus"
| "task_sort_field TASK_SORT_FIELD_DEPTH = TaskSortByDepth"
| "task_sort_field TASK_SORT_FIELD_ENQUEUED_AT = TaskSortByEnqueuedAt"
| "task_sort_field TASK_SORT_FIELD_UNSPECIFIED = TaskSortByEnqueuedAt"

definition empty_task_filter :: ListTasksFilter where
  "empty_task_filter = \<lparr>ltf_Status = None, ltf_URL = None, ltf_MinDepth = None, ltf_MaxDepth = None,
     ltf_EnqueuedFrom = None, ltf_EnqueuedTo = None\<rparr>"

definition task_query_of :: "(string \<Rightarrow> ListTasksCursor res) \<Rightarrow> ListTasksByJobRequest \<Rightarrow> api_error + ListTasksByJobQuery" where
  "task_query_of dec req =
     (let query = \<lparr>ltq_JobID = ltreq_JobId req, ltq_Cursor = None, ltq_Limit = ltreq_Limit req,
                   ltq_Filter = (case ltreq_Filter req of None \<Rightarrow> empty_task_filter | Some f \<Rightarrow> f),
                   ltq_SortField = task_sort_field (ltreq_SortField req),
                   ltq_SortAsc = (ltreq_SortOrder req \<noteq> SORT_ORDER_DESC)\<rparr>
      in case ltreq_Cursor req of
           None \<Rightarrow> Inr query
         | Some s \<Rightarrow>
             if s = [] then Inr query
             else case dec s of
                    Inl e \<Rightarrow> Inl (StatusError InvalidArgument (''invalid cursor: '' @ err_text e))
                  | Inr c \<Rightarrow> Inr (query\<lparr>ltq_Cursor := Some c, ltq_SortField := ltc_SortField c, ltq_SortAsc := ltc_SortAsc c\<rparr>))"

record ListTasksByJobResponse =
  ltresp_Tasks :: "CrawlTask list"
  ltresp_NextCursor :: string
  ltresp_HasMore :: bool

definition api_ListTasksByJob ::
  "(string \<Rightarrow> 'k :: linorder) \<Rightarrow> (string \<Rightarrow> string \<Rightarrow> bool) \<Rightarrow> (string \<Rightarrow> bool) \<Rightarrow> gerr option \<Rightarrow>
   (ListTasksCursor \<Rightarrow> string res) \<Rightarrow> (string \<Rightarrow> ListTasksCursor res) \<Rightarrow> ListTasksByJobRequest \<Rightarrow> DB \<Rightarrow>
   (api_error + ListTasksByJobResponse) outcome" where
  "api_ListTasksByJob tk ilike uuid_ok fail enc dec req db =
     (case task_query_of dec req of
        Inl e \<Rightarrow> Returns (Inl e)
      | Inr query \<Rightarrow>
          (case ListTasksByJob tk ilike uuid_ok fail query db of
             Panics \<Rightarrow> Panics
           | Returns (Inl e) \<Rightarrow> Returns (Inl (PlainError e))
           | Returns (Inr result) \<Rightarrow>
               (case ltr_NextCursor result of
                  None \<Rightarrow> Returns (Inr \<lparr>ltresp_Tasks = ltr_Tasks result, ltresp_NextCursor = [], ltresp_HasMore = ltr_HasMore result\<rparr>)
                | Some c \<Rightarrow>
                    (case enc c of
                       Inl e \<Rightarrow> Returns (Inl (StatusError Internal (''failed to encode cursor: '' @ err_text e)))
                     | Inr s \<Rightarrow> Returns (Inr \<lparr>ltresp_Tasks = ltr_Tasks result, ltresp_NextCursor = s,
                                              ltresp_HasMore = ltr_HasMore result\<rparr>)))))"

section \<open>Walking the pages\<close>

text \<open>A client that asks for the first page and follows the cursors; \<open>None\<close> when a request fails or the fuel is spent.\<close>

fun walk :: "nat \<Rightarrow> (string \<Rightarrow> ('a list \<times> string) option) \<Rightarrow> string \<Rightarrow> 'a list option" where
  "walk 0 fetch cursor = None"
| "walk (Suc n) fetch cursor =
     (case fetch cursor of
        None \<Rightarrow> None
      | Some (xs, next) \<Rightarrow> if next = [] then Some xs else map_option ((@) xs) (walk n fetch next))"

lemma filter_after:
  assumes "sorted_wrt R (A @ x # B)" and "\<And>a. \<not> R a a" and "\<And>a b c. R a b \<Longrightarrow> R b c \<Longrightarrow> R a c"
  shows "filter (R x) (A @ x # B) = B"
proof -
  have "R a x" if "a \<in> set A" for a using assms(1) that by (simp add: sorted_wrt_append)
  then have "\<not> R x a" if "a \<in> set A" for a using that assms(2,3) by blast
  then have "filter (R x) A = []" by (simp add: filter_empty_conv)
  moreover have "filter (R x) B = B" using assms(1) by (simp add: sorted_wrt_append filter_id_conv)
  ultimately show ?thesis using assms(2) by simp
qed

lemma order_rows_strict:
  assumes "inj_on key (set rows)" and "distinct rows"
  shows "sorted_wrt (\<lambda>x y. beyond asc (key x) (key y)) (order_rows key asc rows)"
proof -
  have "distinct (map key (sort_key key rows))" using assms by (simp add: distinct_map)
  then have "sorted_wrt (<) (map key (sort_key key rows))" by (simp add: strict_sorted_iff)
  then have s: "sorted_wrt (\<lambda>x y. key x < key y) (sort_key key rows)" by (simp add: sorted_wrt_map)
  show ?thesis using s by (cases asc) (simp_all add: order_rows_def beyond_def sorted_wrt_rev)
qed

lemma order_rows_filter: "order_rows key asc (filter P rows) = filter P (order_rows key asc rows)"
  by (simp add: order_rows_def filter_sort rev_filter [symmetric])

text \<open>
  The pages of a strictly ordered list: \<open>after\<close> says which rows come after a cursor, and every page is
  the first \<open>n\<close> rows after its cursor, with a cursor of its last row when more follow.
\<close>

lemma walk_pages:
  fixes L :: "'r list"
  assumes n: "0 < n"
    and cut: "\<And>A x B. L = A @ x # B \<Longrightarrow> filter (follows (Some x)) L = B" and first: "filter (follows None) L = L"
    and code: "\<And>x. x \<in> set L \<Longrightarrow> code x \<noteq> []"
    and fetch: "\<And>q. case q of None \<Rightarrow> True | Some x \<Rightarrow> x \<in> set L \<Longrightarrow>
        fetch (case q of None \<Rightarrow> [] | Some x \<Rightarrow> code x) =
          Some (map conv (take n (filter (follows q) L)),
                if n < length (filter (follows q) L) then code (last (take n (filter (follows q) L))) else [])"
  shows "walk (Suc (length L)) fetch [] = Some (map conv L)"
proof -
  have "walk (Suc m) fetch (case q of None \<Rightarrow> [] | Some x \<Rightarrow> code x) = Some (map conv B)"
    if "L = A @ B" "q = (if A = [] then None else Some (last A))" "length B \<le> m" for m A B q
    using that
  proof (induction m arbitrary: A B q)
    case (Suc m)
    have B: "filter (follows q) L = B"
    proof (cases "A = []")
      case True
      then show ?thesis using Suc.prems first by simp
    next
      case False
      then show ?thesis using Suc.prems cut [of "butlast A" "last A" B] by simp
    qed
    have q: "case q of None \<Rightarrow> True | Some x \<Rightarrow> x \<in> set L" using Suc.prems(1,2) by simp
    note f = fetch [OF q, unfolded B]
    show ?case
    proof (cases "n < length B")
      case True
      let ?A = "A @ take n B"
      have ne: "take n B \<noteq> []" using True n by auto
      have "last (take n B) \<in> set B" using last_in_set [OF ne] in_set_takeD by metis
      then have mem: "last (take n B) \<in> set L" using Suc.prems(1) by simp
      have "walk (Suc m) fetch (case Some (last (take n B)) of None \<Rightarrow> [] | Some x \<Rightarrow> code x) = Some (map conv (drop n B))"
        by (rule Suc.IH [of ?A]) (use Suc.prems ne n True in auto)
      then show ?thesis using f True code [OF mem] n
        by (simp only: walk.simps option.case prod.case if_True if_False) (simp flip: map_append)
    next
      case False
      then show ?thesis using f by simp
    qed
  next
    case 0
    then have "filter (follows q) L = []"
      using first cut [of "butlast A" "last A" "[]"] by (cases "A = []") auto
    then show ?case using fetch [of q] 0 by (simp split: option.split)
  qed
  from this [of "[]" L None "length L"] show ?thesis by simp
qed

text \<open>
  The same for a keyset query: rows with different keys, in the order of the keys, and pages of the first
  \<open>n\<close> rows beyond the key of the cursor.
\<close>

lemma keyset_pages:
  fixes key :: "'r \<Rightarrow> 'k :: linorder" and asc :: bool
  assumes n: "0 < n" and inj: "inj_on key (set rows)" and d: "distinct rows"
  defines "L \<equiv> order_rows key asc rows"
  assumes code: "\<And>x. x \<in> set rows \<Longrightarrow> code x \<noteq> []"
    and fetch: "\<And>q X. case q of None \<Rightarrow> True | Some x \<Rightarrow> x \<in> set rows \<Longrightarrow>
        X = filter (\<lambda>y. case q of None \<Rightarrow> True | Some x \<Rightarrow> beyond asc (key x) (key y)) L \<Longrightarrow>
        fetch (case q of None \<Rightarrow> [] | Some x \<Rightarrow> code x) =
          Some (map conv (take n X), if n < length X then code (last (take n X)) else [])"
  shows "walk (Suc (length L)) fetch [] = Some (map conv L) \<and> distinct L"
proof
  have sorted: "sorted_wrt (\<lambda>x y. beyond asc (key x) (key y)) L" unfolding L_def by (rule order_rows_strict [OF inj d])
  have ord: "\<not> beyond asc a a" "beyond asc a b \<Longrightarrow> beyond asc b c \<Longrightarrow> beyond asc a c" for a b c :: 'k
    unfolding beyond_def by (auto split: if_splits)
  let ?follows = "\<lambda>q y. case q of None \<Rightarrow> True | Some x \<Rightarrow> beyond asc (key x) (key y)"
  have set: "set L = set rows" by (simp add: L_def order_rows_def)
  show "walk (Suc (length L)) fetch [] = Some (map conv L)"
  proof (rule walk_pages [where follows = ?follows and code = code and n = n])
    show "filter (?follows (Some x)) L = B" if "L = A @ x # B" for A x B
      unfolding option.case that by (rule filter_after) (use sorted that ord in auto)
    show "fetch (case q of None \<Rightarrow> [] | Some x \<Rightarrow> code x) =
        Some (map conv (take n (filter (?follows q) L)),
          if n < length (filter (?follows q) L) then code (last (take n (filter (?follows q) L))) else [])"
      if "case q of None \<Rightarrow> True | Some x \<Rightarrow> x \<in> set L" for q
      using that unfolding set by (rule fetch) (rule refl)
  qed (use n code set in auto)
  show "distinct L" using d by (simp add: L_def order_rows_def)
qed

definition task_page ::
  "(string \<Rightarrow> 'k :: linorder) \<Rightarrow> (string \<Rightarrow> string \<Rightarrow> bool) \<Rightarrow> (string \<Rightarrow> bool) \<Rightarrow> (ListTasksCursor \<Rightarrow> string res) \<Rightarrow>
   (string \<Rightarrow> ListTasksCursor res) \<Rightarrow> ListTasksByJobRequest \<Rightarrow> DB \<Rightarrow> string \<Rightarrow> (CrawlTask list \<times> string) option" where
  "task_page tk ilike uuid_ok enc dec req db cursor =
     (case api_ListTasksByJob tk ilike uuid_ok None enc dec (req\<lparr>ltreq_Cursor := Some cursor\<rparr>) db of
        Returns (Inr resp) \<Rightarrow> Some (ltresp_Tasks resp, ltresp_NextCursor resp)
      | _ \<Rightarrow> None)"

definition cursor_codec :: "('c \<Rightarrow> string res) \<Rightarrow> (string \<Rightarrow> 'c res) \<Rightarrow> bool" where
  "cursor_codec enc dec \<longleftrightarrow> (\<forall>c. \<exists>s. enc c = Inr s \<and> s \<noteq> [] \<and> dec s = Inr c)"

definition task_filter_ok :: "ListTasksFilter \<Rightarrow> bool" where
  "task_filter_ok f \<longleftrightarrow>
     (case ltf_Status f of None \<Rightarrow> True | Some s \<Rightarrow> s = [] \<or> TaskStatus_IsValid s) \<and>
     (case (ltf_MinDepth f, ltf_MaxDepth f) of (Some a, Some b) \<Rightarrow> a \<le> b | _ \<Rightarrow> True) \<and>
     (case (ltf_EnqueuedFrom f, ltf_EnqueuedTo f) of (Some a, Some b) \<Rightarrow> a \<le> b | _ \<Rightarrow> True)"

definition page_size :: "int \<Rightarrow> nat" where
  "page_size limit = (if limit = 0 then 20 else if 100 < limit then 100 else nat limit)"

text \<open>What a request selects, in the order it asks for.\<close>

definition selected_tasks ::
  "(string \<Rightarrow> 'k :: linorder) \<Rightarrow> (string \<Rightarrow> string \<Rightarrow> bool) \<Rightarrow> ListTasksByJobRequest \<Rightarrow> DB \<Rightarrow> CrawlTaskSnapshot list" where
  "selected_tasks tk ilike req db =
     order_rows (task_sort_key tk (task_sort_field (ltreq_SortField req))) (ltreq_SortOrder req \<noteq> SORT_ORDER_DESC)
       (filter (task_matches ilike (ltreq_JobId req) (case ltreq_Filter req of None \<Rightarrow> empty_task_filter | Some f \<Rightarrow> f)) (db_tasks db))"

abbreviation plain_task :: "CrawlTaskSnapshot \<Rightarrow> CrawlTask" where
  "plain_task r \<equiv> task_of_row r None"

lemma task_sort_field_ne [simp]: "task_sort_field f \<noteq> []"
  by (cases f) (simp_all add: status_defs)

lemma task_cursor_key_of [simp]:
  "task_cursor_key tk field (task_cursor_of field asc (plain_task r)) = Some (task_sort_key tk field r)"
  by (simp add: task_cursor_key_def task_cursor_of_def task_sort_key_def task_of_row_def)

lemma restore_rows:
  "list_all (\<lambda>r. valid_id ok (ts_ID r) \<and> valid_id ok (ts_JobID r)) rows \<Longrightarrow>
     map_res (RestoreCrawlTaskFromSnapshot ok) rows = Inr (map plain_task rows)"
  by (induction rows) (simp_all add: RestoreCrawlTaskFromSnapshot_def NewTypedID_eq)

lemma set_order_rows [simp]: "set (order_rows key asc rows) = set rows"
  by (simp add: order_rows_def)

lemma ListWithCursor_page:
  fixes tk :: "string \<Rightarrow> 'k :: linorder" and f :: ListTasksFilter and job :: string and asc :: bool
    and c :: "ListTasksCursor option" and ilike :: "string \<Rightarrow> string \<Rightarrow> bool"
  assumes ids: "list_all (\<lambda>r. valid_id ok (ts_ID r) \<and> valid_id ok (ts_JobID r)) (db_tasks db)"
    and lim: "0 \<le> limit" and field: "field \<noteq> []"
  defines "n \<equiv> page_size limit"
  defines "X \<equiv> filter (after_task_cursor tk field asc c) (order_rows (task_sort_key tk field) asc (filter (task_matches ilike job f) (db_tasks db)))"
  assumes fok: "task_filter_ok f"
  shows "ListTasksByJob tk ilike ok None \<lparr>ltq_JobID = job, ltq_Cursor = c, ltq_Limit = limit, ltq_Filter = f, ltq_SortField = field, ltq_SortAsc = asc\<rparr> db =
     Returns (Inr \<lparr>ltr_Tasks = map plain_task (take n X),
        ltr_NextCursor = (if n < length X then Some (task_cursor_of field asc (plain_task (last (take n X)))) else None),
        ltr_HasMore = n < length X\<rparr>)"
proof -
  define e where "e = (if 100 < (if limit = 0 then 20 else limit) then 100 else (if limit = 0 then 20 else limit))"
  have e: "e = int n" "0 < n" "n \<le> 100" using lim by (auto simp: e_def n_def page_size_def)
  have X: "order_rows (task_sort_key tk field) asc (filter (\<lambda>r. task_matches ilike job f r \<and> after_task_cursor tk field asc c r) (db_tasks db)) = X"
    unfolding X_def order_rows_filter [symmetric] by (simp add: conj_commute)
  have "list_all (\<lambda>r. valid_id ok (ts_ID r) \<and> valid_id ok (ts_JobID r)) (take n X)"
    using ids by (auto simp: list_all_iff X_def dest!: in_set_takeD)
  then have m: "map_res (RestoreCrawlTaskFromSnapshot ok) (take n X) = Inr (map plain_task (take n X))" by (rule restore_rows)
  have t: "take n (take (Suc n) X) = take n X" "n < length (take (Suc n) X) \<longleftrightarrow> n < length X" by (simp_all add: min_def)
  have ne: "n < length X \<Longrightarrow> take n X \<noteq> []" using e(2) by auto
  define query where "query = \<lparr>ltq_JobID = job, ltq_Cursor = c, ltq_Limit = e, ltq_Filter = f, ltq_SortField = field, ltq_SortAsc = asc\<rparr>"
  have q: "(if 100 < (if ltq_Limit query = 0 then 20 else ltq_Limit query) then 100 else (if ltq_Limit query = 0 then 20 else ltq_Limit query)) = int n"
    "(if ltq_SortField query = [] then TaskSortByEnqueuedAt else ltq_SortField query) = field"
    "ltq_SortAsc query = asc" "ltq_JobID query = job" "ltq_Filter query = f" "ltq_Cursor query = c"
    using e field by (simp_all add: query_def)
  have l: "nat (int n + 1) = Suc n" "(int n + 1 < 0) = False" "(int n < 0) = False" "nat (int n) = n"
    "(int n < int (length (take (Suc n) X))) = (n < length X)"
    by (simp_all add: t(2) [simplified])
  have "task_ListWithCursor tk ilike ok None query db =
     Returns (Inr \<lparr>ltr_Tasks = map plain_task (take n X),
        ltr_NextCursor = (if n < length X then Some (task_cursor_of field asc (plain_task (last (take n X)))) else None),
        ltr_HasMore = n < length X\<rparr>)"
    unfolding task_ListWithCursor_def Let_def q X db_read_def option.case sum.case l if_False t(1) m
    using ne by (simp add: last_map)
  moreover have "ListTasksByJob tk ilike ok None \<lparr>ltq_JobID = job, ltq_Cursor = c, ltq_Limit = limit, ltq_Filter = f, ltq_SortField = field, ltq_SortAsc = asc\<rparr> db =
      (case task_ListWithCursor tk ilike ok None query db of
                Panics \<Rightarrow> Panics | Returns r \<Rightarrow> Returns (wrap_err ''failed to list tasks'' r))"
  proof -
    have v: "(case ltf_Status f of None \<Rightarrow> False | Some s \<Rightarrow> s \<noteq> [] \<and> \<not> TaskStatus_IsValid s) = False"
      "(case (ltf_MinDepth f, ltf_MaxDepth f) of (Some a, Some b) \<Rightarrow> b < a | _ \<Rightarrow> False) = False"
      "(case (ltf_EnqueuedFrom f, ltf_EnqueuedTo f) of (Some a, Some b) \<Rightarrow> b < a | _ \<Rightarrow> False) = False"
      using fok by (auto simp: task_filter_ok_def split: option.splits)
    show ?thesis unfolding ListTasksByJob_def Let_def ListTasksByJobQuery.simps v if_False query_def e_def ..
  qed
  ultimately show ?thesis by simp
qed

text \<open>
  C33. Paging through the tasks of a job is complete and ends.  On a table that does not change, a client
  that follows the cursors from the first page gets, after at most one request per selected task and
  one, every task that the filter selects exactly once and in the requested order, whatever the sort
  field, direction and page size.
\<close>

theorem task_pages_complete:
  fixes tk :: "string \<Rightarrow> 'k :: linorder"
  assumes inv: "db_inv db" and ids: "list_all (\<lambda>r. valid_id ok (ts_ID r) \<and> valid_id ok (ts_JobID r)) (db_tasks db)"
    and coll: "inj tk" and codec: "cursor_codec enc dec" and lim: "0 \<le> ltreq_Limit req"
    and fok: "task_filter_ok (case ltreq_Filter req of None \<Rightarrow> empty_task_filter | Some f \<Rightarrow> f)"
  shows "walk (Suc (length (selected_tasks tk ilike req db))) (task_page tk ilike ok enc dec req db) [] =
           Some (map plain_task (selected_tasks tk ilike req db)) \<and>
         distinct (selected_tasks tk ilike req db)"
proof -
  define field where "field = task_sort_field (ltreq_SortField req)"
  define asc where "asc = (ltreq_SortOrder req \<noteq> SORT_ORDER_DESC)"
  define f where "f = (case ltreq_Filter req of None \<Rightarrow> empty_task_filter | Some f \<Rightarrow> f)"
  define n where "n = page_size (ltreq_Limit req)"
  define cur where "cur = (\<lambda>r. task_cursor_of field asc (plain_task r))"
  define code where "code = (\<lambda>r. projr (enc (cur r)))"
  define rows where "rows = filter (task_matches ilike (ltreq_JobId req) f) (db_tasks db)"
  have L: "selected_tasks tk ilike req db = order_rows (task_sort_key tk field) asc rows"
    by (simp add: selected_tasks_def rows_def field_def asc_def f_def)
  have dist: "distinct (map ts_ID (db_tasks db))" using inv by (simp add: db_inv_def tasks_inv_def)
  have inj: "inj_on (task_sort_key tk field) (set rows)"
  proof (rule inj_onI)
    fix x y
    assume xy: "x \<in> set rows" "y \<in> set rows" "task_sort_key tk field x = task_sort_key tk field y"
    then have "ts_ID x = ts_ID y" using coll by (simp add: task_sort_key_def inj_eq split: if_splits)
    then show "x = y" using xy(1,2) dist by (auto simp: rows_def distinct_map dest: inj_onD)
  qed
  have enc: "enc (cur r) = Inr (code r)" "code r \<noteq> []" "dec (code r) = Inr (cur r)" for r
    using codec by (auto simp: cursor_codec_def code_def) (metis sum.sel(2))+
  have after: "after_task_cursor tk field asc (map_option cur q) =
      (\<lambda>y. case q of None \<Rightarrow> True | Some x \<Rightarrow> beyond asc (task_sort_key tk field x) (task_sort_key tk field y))" for q
    by (auto simp: after_task_cursor_def cur_def split: option.splits)
  show ?thesis unfolding L
  proof (rule keyset_pages [where code = code and n = n])
    show "0 < n" using lim by (simp add: n_def page_size_def)
    show "distinct rows" using dist by (simp add: rows_def distinct_map)
    fix q X
    assume X: "X = filter (\<lambda>y. case q of None \<Rightarrow> True | Some x \<Rightarrow> beyond asc (task_sort_key tk field x) (task_sort_key tk field y))
       (order_rows (task_sort_key tk field) asc rows)"
    have query: "task_query_of dec (req\<lparr>ltreq_Cursor := Some (case q of None \<Rightarrow> [] | Some x \<Rightarrow> code x)\<rparr>) =
        Inr \<lparr>ltq_JobID = ltreq_JobId req, ltq_Cursor = map_option cur q, ltq_Limit = ltreq_Limit req, ltq_Filter = f, ltq_SortField = field, ltq_SortAsc = asc\<rparr>"
      using enc by (cases q) (simp_all add: task_query_of_def f_def field_def asc_def cur_def task_cursor_of_def Let_def)
    show "task_page tk ilike ok enc dec req db (case q of None \<Rightarrow> [] | Some x \<Rightarrow> code x) =
        Some (map plain_task (take n X), if n < length X then code (last (take n X)) else [])"
      using ListWithCursor_page [OF ids lim _ fok, where tk = tk and field = field and asc = asc and c = "map_option cur q"
          and ilike = ilike and job = "ltreq_JobId req"] enc(1)
      unfolding task_page_def api_ListTasksByJob_def query X after [symmetric] n_def rows_def f_def [symmetric]
      by (simp add: field_def cur_def)
  qed (use inj enc in auto)
qed

text \<open>A coding of cursors: their fields as strings, each with its length before it.\<close>

definition put_str :: "string \<Rightarrow> string" where
  "put_str s = replicate (length s) CHR ''1'' @ '' '' @ s"

fun get_strs :: "nat \<Rightarrow> string \<Rightarrow> string list" where
  "get_strs 0 s = []"
| "get_strs (Suc k) s =
     (let n = length (takeWhile (\<lambda>x. x \<noteq> CHR '' '') s); r = tl (dropWhile (\<lambda>x. x \<noteq> CHR '' '') s)
      in take n r # get_strs k (drop n r))"

lemma get_put: "get_strs (length ss) (concat (map put_str ss)) = ss"
proof (induction ss)
  case (Cons s ss)
  have "CHR '' '' \<notin> set (replicate (length s) CHR ''1'')" by (cases "length s") auto
  then show ?case using Cons by (simp add: put_str_def Let_def takeWhile_until)
qed simp

definition sample_enc :: "ListTasksCursor \<Rightarrow> string res" where
  "sample_enc c = Inr (concat (map put_str
     [ltc_SortField c, if ltc_SortAsc c then ''t'' else [], unary (ltc_EnqueuedAt c), ltc_URL c, ltc_Status c,
      case ltc_Depth c of None \<Rightarrow> [] | Some d \<Rightarrow> unary (uint d), ltc_ID c]))"

definition sample_dec :: "string \<Rightarrow> ListTasksCursor res" where
  "sample_dec s = (let f = get_strs 7 s in
     Inr \<lparr>ltc_SortField = f ! 0, ltc_SortAsc = (f ! 1 \<noteq> []), ltc_EnqueuedAt = unary_value (f ! 2), ltc_URL = f ! 3,
          ltc_Status = f ! 4, ltc_Depth = (if f ! 5 = [] then None else Some (word_of_int (unary_value (f ! 5)))), ltc_ID = f ! 6\<rparr>)"

lemma sample_codec: "cursor_codec sample_enc sample_dec"
  unfolding cursor_codec_def
proof
  fix c :: ListTasksCursor
  define ss where "ss = [ltc_SortField c, if ltc_SortAsc c then ''t'' else [], unary (ltc_EnqueuedAt c), ltc_URL c, ltc_Status c,
      case ltc_Depth c of None \<Rightarrow> [] | Some d \<Rightarrow> unary (uint d), ltc_ID c]"
  have u: "unary_value (unary i) = i" "unary i \<noteq> []" for i by (auto simp: unary_def unary_value_def)
  have l: "length ss = 7" by (simp add: ss_def)
  have "get_strs 7 (concat (map put_str ss)) = ss" using get_put [of ss] unfolding l .
  then have "sample_dec (concat (map put_str ss)) = Inr \<lparr>ltc_SortField = ss ! 0, ltc_SortAsc = (ss ! 1 \<noteq> []),
      ltc_EnqueuedAt = unary_value (ss ! 2), ltc_URL = ss ! 3, ltc_Status = ss ! 4,
      ltc_Depth = (if ss ! 5 = [] then None else Some (word_of_int (unary_value (ss ! 5)))), ltc_ID = ss ! 6\<rparr>"
    by (simp only: sample_dec_def Let_def)
  also have "\<dots> = Inr c" by (cases c) (simp add: ss_def u split: option.split)
  finally have "sample_dec (concat (map put_str ss)) = Inr c" .
  moreover have "concat (map put_str ss) \<noteq> []" by (simp add: ss_def put_str_def)
  moreover have "sample_enc c = Inr (concat (map put_str ss))" by (simp only: sample_enc_def ss_def)
  ultimately show "\<exists>s. sample_enc c = Inr s \<and> s \<noteq> [] \<and> sample_dec s = Inr c" by blast
qed

definition paged_db :: DB where
  "paged_db = reparsed_db\<lparr>db_tasks := map SaveCrawlTaskToSnapshot
     [new_task ''t1'' ''j1'' ''http://a'' 7 0, new_task ''t2'' ''j1'' ''http://c'' 6 1, new_task ''t3'' ''j1'' ''http://b'' 9 1]\<rparr>"

definition paged_req :: ListTasksByJobRequest where
  "paged_req = \<lparr>ltreq_JobId = ''j1'', ltreq_Cursor = None, ltreq_Limit = 1, ltreq_Filter = None,
     ltreq_SortField = TASK_SORT_FIELD_URL, ltreq_SortOrder = SORT_ORDER_DESC\<rparr>"

theorem task_pages_complete_witness:
  "map_option (map task_ID) (walk 4 (task_page (id :: string \<Rightarrow> string) (\<lambda>_ _. True) ok2 sample_enc sample_dec paged_req paged_db) []) =
     Some [''t2'', ''t3'', ''t1'']"
proof -
  have inv: "db_inv paged_db" using reparsed_db_inv
    by (simp add: paged_db_def db_inv_def tasks_inv_def task_key_def SaveCrawlTaskToSnapshot_def new_task_def
        reparsed_db_def MarkAsExported_def sample_job_def SaveCrawlJobToSnapshot_def)
  have ids: "list_all (\<lambda>r. valid_id ok2 (ts_ID r) \<and> valid_id ok2 (ts_JobID r)) (db_tasks paged_db)"
    by (simp add: paged_db_def SaveCrawlTaskToSnapshot_def new_task_def valid_id_def ok2_def)
  have "map ts_ID (selected_tasks (id :: string \<Rightarrow> string) (\<lambda>_ _. True) paged_req paged_db) = [''t2'', ''t3'', ''t1'']"
    by code_simp
  moreover from this have "length (selected_tasks (id :: string \<Rightarrow> string) (\<lambda>_ _. True) paged_req paged_db) = 3"
    by (metis One_nat_def Suc_1 eval_nat_numeral(3) length_map list.size(3) list.size(4) add.commute plus_1_eq_Suc)
  moreover have "walk (Suc (length (selected_tasks (id :: string \<Rightarrow> string) (\<lambda>_ _. True) paged_req paged_db)))
      (task_page id (\<lambda>_ _. True) ok2 sample_enc sample_dec paged_req paged_db) [] =
      Some (map plain_task (selected_tasks (id :: string \<Rightarrow> string) (\<lambda>_ _. True) paged_req paged_db))"
    by (rule task_pages_complete [OF inv ids _ sample_codec, THEN conjunct1])
      (simp_all add: paged_req_def task_filter_ok_def empty_task_filter_def)
  ultimately show ?thesis by (simp add: comp_def task_of_row_def)
qed

text \<open>
  A limit of minus one is neither defaulted nor refused, and the repository panics on it, which ends the
  server: nothing in the interceptor chain recovers from panics.
\<close>

lemma negative_limit_panics:
  assumes "ltreq_Limit req = -1" and "ltreq_Cursor req = None"
    and "task_filter_ok (case ltreq_Filter req of None \<Rightarrow> empty_task_filter | Some f \<Rightarrow> f)"
  shows "api_ListTasksByJob tk ilike ok None enc dec req db = Panics"
proof -
  define f where "f = (case ltreq_Filter req of None \<Rightarrow> empty_task_filter | Some f \<Rightarrow> f)"
  have v: "(case ltf_Status f of None \<Rightarrow> False | Some s \<Rightarrow> s \<noteq> [] \<and> \<not> TaskStatus_IsValid s) = False"
    "(case (ltf_MinDepth f, ltf_MaxDepth f) of (Some a, Some b) \<Rightarrow> b < a | _ \<Rightarrow> False) = False"
    "(case (ltf_EnqueuedFrom f, ltf_EnqueuedTo f) of (Some a, Some b) \<Rightarrow> b < a | _ \<Rightarrow> False) = False"
    using assms(3) unfolding f_def [symmetric] by (auto simp: task_filter_ok_def split: option.splits)
  have "task_query_of dec req = Inr \<lparr>ltq_JobID = ltreq_JobId req, ltq_Cursor = None, ltq_Limit = -1, ltq_Filter = f,
      ltq_SortField = task_sort_field (ltreq_SortField req), ltq_SortAsc = (ltreq_SortOrder req \<noteq> SORT_ORDER_DESC)\<rparr>"
    using assms(1,2) by (simp add: task_query_of_def f_def)
  moreover have "ListTasksByJob tk ilike ok None \<lparr>ltq_JobID = ltreq_JobId req, ltq_Cursor = None, ltq_Limit = -1, ltq_Filter = f,
      ltq_SortField = task_sort_field (ltreq_SortField req), ltq_SortAsc = (ltreq_SortOrder req \<noteq> SORT_ORDER_DESC)\<rparr> db = Panics"
    unfolding ListTasksByJob_def Let_def ListTasksByJobQuery.simps v if_False
    by (simp add: task_ListWithCursor_def db_read_def Let_def)
  ultimately show ?thesis by (simp add: api_ListTasksByJob_def)
qed

end
