(* ===== verification/Job_API.thy ===== *)
theory Job_API
  imports API_Converters Job_Services Listing
begin

text \<open>
  The job and task endpoints: the handlers under \<^verbatim>\<open>api/crawl_job\<close> (create, get, list, analytics and file
  URLs), the queries of the services behind them and the read routes of \<^verbatim>\<open>app/crawl_queues_handler.go\<close>.
  \<open>is_sql\<close> is \<^verbatim>\<open>errors.Is\<close> with \<^verbatim>\<open>sql.ErrNoRows\<close>; \<open>presign\<close> is the content store's signing of a URL for an
  object key and a number of minutes.
\<close>

section \<open>Model\<close>

subsection \<open>Creating and reading a job\<close>

definition api_CreateJob ::
  "json_lib \<Rightarrow> job_env \<Rightarrow> rpc_ctx \<Rightarrow> pb_CrawlJobConfig option \<Rightarrow> DB \<Rightarrow> (api_error + string) \<times> DB" where
  "api_CreateJob lib env ctx config db =
     (case rc_user_id ctx of
        None \<Rightarrow> (Inl (StatusError Unauthenticated ''missing user id in context''), db)
      | Some userID \<Rightarrow>
          if userID = [] then (Inl (StatusError Unauthenticated ''missing user id in context''), db)
          else case CreateCrawlJob env userID (FromProtoCrawlJobConfig lib config) db of
                 (Inl e, db') \<Rightarrow> (Inl (PlainError e), db')
               | (Inr i, db') \<Rightarrow> (Inr i, db'))"

definition GetCrawlJob :: "(string \<Rightarrow> bool) \<Rightarrow> gerr option \<Rightarrow> string \<Rightarrow> DB \<Rightarrow> CrawlJob res" where
  "GetCrawlJob uuid_ok fail jobID db =
     bind_res (NewCrawlJobID uuid_ok jobID) (\<lambda>i. db_read fail (job_Get uuid_ok i) db)"

definition api_GetJob ::
  "json_lib \<Rightarrow> (gerr \<Rightarrow> bool) \<Rightarrow> (string \<Rightarrow> bool) \<Rightarrow> gerr option \<Rightarrow> string \<Rightarrow> DB \<Rightarrow> api_error + pb_CrawlJob option" where
  "api_GetJob lib is_sql uuid_ok fail jobID db =
     (case GetCrawlJob uuid_ok fail jobID db of
        Inl e \<Rightarrow> Inl (if is_sql e then StatusError NotFound ''job not found'' else PlainError e)
      | Inr job \<Rightarrow> Inr (ToProtoCrawlJob lib (Some job)))"

text \<open>
  \<^verbatim>\<open>GET /api/v1/jobs/{id}\<close>: the message of the job together with the weights that are put into its JSON
  form.  \<open>fail_marshal\<close> and \<open>fail_process\<close> are failures of the JSON coding of the response.
\<close>

definition getJobHandler ::
  "json_lib \<Rightarrow> (string \<Rightarrow> Claims res) \<Rightarrow> (string \<Rightarrow> bool) \<Rightarrow> gerr option \<Rightarrow> gerr option \<Rightarrow> bool \<Rightarrow> string \<Rightarrow> string \<Rightarrow> DB \<Rightarrow>
   (nat \<times> string) + (pb_CrawlJob option \<times> QueueWeight list)" where
  "getJobHandler lib verify uuid_ok fail fail_marshal fail_process authHeader id_param db =
     (case verifyAuth verify RoleRead authHeader of
        Inl e \<Rightarrow> Inl e
      | Inr _ \<Rightarrow>
          if id_param = [] then Inl (400, ''missing job id'')
          else case GetCrawlJob uuid_ok fail id_param db of
                 Inl e \<Rightarrow> Inl (404, err_text e)
               | Inr job \<Rightarrow>
                   (case fail_marshal of
                      Some e \<Rightarrow> Inl (500, ''failed to marshal response: '' @ err_text e)
                    | None \<Rightarrow>
                        if fail_process then Inl (500, ''failed to process response'')
                        else Inr (ToProtoCrawlJob lib (Some job),
                                  case job_JobConfig job of None \<Rightarrow> [] | Some c \<Rightarrow> cfg_QueueWeights c)))"

definition crawlQueuesHandler :: "(string \<Rightarrow> Claims res) \<Rightarrow> string list \<Rightarrow> string \<Rightarrow> (nat \<times> string) + string list" where
  "crawlQueuesHandler verify queues authHeader =
     (case verifyAuth verify RoleRead authHeader of Inl e \<Rightarrow> Inl e | Inr _ \<Rightarrow> Inr queues)"

subsection \<open>Reading a task\<close>

definition GetTask :: "(string \<Rightarrow> bool) \<Rightarrow> gerr option \<Rightarrow> string \<Rightarrow> DB \<Rightarrow> CrawlTask res" where
  "GetTask uuid_ok fail taskID db =
     bind_res (wrap_err ''invalid task ID'' (NewCrawlTaskID uuid_ok taskID)) (\<lambda>i.
       wrap_err ''failed to get crawl task'' (db_read fail (task_Get uuid_ok i) db))"

definition api_GetTask ::
  "json_lib \<Rightarrow> (string \<Rightarrow> bool) \<Rightarrow> gerr option \<Rightarrow> string \<Rightarrow> DB \<Rightarrow> api_error + pb_CrawlTask option" where
  "api_GetTask lib uuid_ok fail taskID db =
     (case GetTask uuid_ok fail taskID db of Inl e \<Rightarrow> Inl (PlainError e) | Inr t \<Rightarrow> Inr (ToProtoCrawlTask lib (Some t)))"

definition GetTaskAnalytics :: "(string \<Rightarrow> bool) \<Rightarrow> gerr option \<Rightarrow> string \<Rightarrow> DB \<Rightarrow> TaskAnalytics res" where
  "GetTaskAnalytics uuid_ok fail jobID db =
     bind_res (wrap_err ''invalid job ID'' (NewCrawlJobID uuid_ok jobID)) (\<lambda>i.
       wrap_err ''failed to get task analytics'' (db_read fail (task_GetAnalyticsByJob i) db))"

definition api_GetTaskAnalytics ::
  "(string \<Rightarrow> bool) \<Rightarrow> gerr option \<Rightarrow> string \<Rightarrow> DB \<Rightarrow> api_error + TaskAnalytics" where
  "api_GetTaskAnalytics uuid_ok fail jobID db =
     (case GetTaskAnalytics uuid_ok fail jobID db of
        Inl e \<Rightarrow> Inl (PlainError e)
      | Inr a \<Rightarrow> Inr \<lparr>StatusCounts = StatusCounts a, DepthCounts = DepthCounts a, TotalCount = TotalCount a\<rparr>)"

definition URLExpirationMinutes :: int where "URLExpirationMinutes = 10"
definition FileTypePages :: string where [status_defs]: "FileTypePages = ''pages''"
definition FileTypeResult :: string where [status_defs]: "FileTypeResult = ''result''"
definition FileTypeExportJSON :: string where [status_defs]: "FileTypeExportJSON = ''json''"
definition FileTypeExportCSV :: string where [status_defs]: "FileTypeExportCSV = ''csv''"

definition presigned :: "(string \<Rightarrow> int \<Rightarrow> string res) \<Rightarrow> string \<Rightarrow> api_error + string \<times> int" where
  "presigned presign objectKey =
     (case presign objectKey URLExpirationMinutes of
        Inl e \<Rightarrow> Inl (StatusError Internal (''failed to generate presigned URL: '' @ err_text e))
      | Inr url \<Rightarrow> Inr (url, URLExpirationMinutes * 60))"

definition api_GetTaskFileURL ::
  "(string \<Rightarrow> int \<Rightarrow> string res) \<Rightarrow> (string \<Rightarrow> bool) \<Rightarrow> gerr option \<Rightarrow> string \<Rightarrow> string \<Rightarrow> DB \<Rightarrow> api_error + string \<times> int" where
  "api_GetTaskFileURL presign uuid_ok fail taskID fileType db =
     (case GetTask uuid_ok fail taskID db of
        Inl e \<Rightarrow> Inl (StatusError NotFound (''task not found: '' @ err_text e))
      | Inr task \<Rightarrow>
          if fileType = FileTypePages then
            (if task_MinioObjectKey task = [] then Inl (StatusError NotFound ''HTML page file not available for this task'')
             else presigned presign (task_MinioObjectKey task))
          else if fileType = FileTypeResult then
            (case task_ResultObjectKey task of
               None \<Rightarrow> Inl (StatusError NotFound ''result file not available for this task'')
             | Some k \<Rightarrow> if k = [] then Inl (StatusError NotFound ''result file not available for this task'')
                         else presigned presign k)
          else Inl (StatusError InvalidArgument (''invalid file_type: '' @ fileType @ '' (must be 'pages' or 'result')'')))"

definition GetTaskFileURLByJobID ::
  "(string \<Rightarrow> int \<Rightarrow> string res) \<Rightarrow> (string \<Rightarrow> bool) \<Rightarrow> gerr option \<Rightarrow> CrawlJobID \<Rightarrow> string \<Rightarrow> string \<Rightarrow> DB \<Rightarrow> string res" where
  "GetTaskFileURLByJobID presign uuid_ok fail jobID taskID fileType db =
     (case GetTask uuid_ok fail taskID db of
        Inl e \<Rightarrow> Inl (ErrWrap ''task not found'' e)
      | Inr task \<Rightarrow>
          if task_JobID task \<noteq> jobID then Inl (ErrText (''task '' @ taskID @ '' does not belong to job '' @ jobID))
          else if fileType = FileTypePages then
            (if task_MinioObjectKey task = [] then Inl (ErrText ''HTML page file not available for this task'')
             else presign (task_MinioObjectKey task) URLExpirationMinutes)
          else if fileType = FileTypeResult then
            (case task_ResultObjectKey task of
               None \<Rightarrow> Inl (ErrText ''result file not available for this task'')
             | Some k \<Rightarrow> if k = [] then Inl (ErrText ''result file not available for this task'')
                         else presign k URLExpirationMinutes)
          else Inl (ErrText (''invalid file_type: '' @ fileType)))"

definition api_GetJobExportFileURL ::
  "(string \<Rightarrow> int \<Rightarrow> string res) \<Rightarrow> (string \<Rightarrow> bool) \<Rightarrow> gerr option \<Rightarrow> string \<Rightarrow> string \<Rightarrow> DB \<Rightarrow> api_error + string \<times> int" where
  "api_GetJobExportFileURL presign uuid_ok fail jobID fileType db =
     (case GetCrawlJob uuid_ok fail jobID db of
        Inl e \<Rightarrow> Inl (StatusError NotFound (''job not found: '' @ err_text e))
      | Inr job \<Rightarrow>
          if fileType = FileTypeExportJSON then
            (case job_ExportJSONKey job of
               None \<Rightarrow> Inl (StatusError NotFound ''JSON export not available for this job'')
             | Some k \<Rightarrow> if k = [] then Inl (StatusError NotFound ''JSON export not available for this job'')
                         else presigned presign k)
          else if fileType = FileTypeExportCSV then
            (case job_ExportCSVKey job of
               None \<Rightarrow> Inl (StatusError NotFound ''CSV export not available for this job'')
             | Some k \<Rightarrow> if k = [] then Inl (StatusError NotFound ''CSV export not available for this job'')
                         else presigned presign k)
          else Inl (StatusError InvalidArgument (''invalid file_type: '' @ fileType @ '' (must be 'json' or 'csv')'')))"

subsection \<open>Listing jobs\<close>

definition JobSortByCreatedAt :: string where [status_defs]: "JobSortByCreatedAt = ''created_at''"
definition JobSortByName :: string where [status_defs]: "JobSortByName = ''name''"
definition JobSortByStatus :: string where [status_defs]: "JobSortByStatus = ''status''"

record ListCrawlJobsFilter =
  ljf_Name :: "string option"
  ljf_UserEmail :: "string option"
  ljf_Status :: "string option"
  ljf_CreatedFrom :: "time option"
  ljf_CreatedTo :: "time option"

record ListCrawlJobsCursor =
  ljc_SortField :: string
  ljc_SortAsc :: bool
  ljc_CreatedAt :: time
  ljc_Name :: string
  ljc_Status :: string
  ljc_ID :: string

record ListCrawlJobsQuery =
  ljq_Cursor :: "ListCrawlJobsCursor option"
  ljq_Limit :: int
  ljq_Filter :: ListCrawlJobsFilter
  ljq_SortField :: string
  ljq_SortAsc :: bool

record ListCrawlJobsResult =
  ljr_Jobs :: "CrawlJob list"
  ljr_NextCursor :: "ListCrawlJobsCursor option"
  ljr_HasMore :: bool

text \<open>
  The columns of the joins.  A job without configuration or user has NULL there, which no condition
  accepts; the foreign key excludes the first.  \<open>email_of\<close> is the table of users.
\<close>

definition job_config_name :: "DB \<Rightarrow> CrawlJobSnapshot \<Rightarrow> string option" where
  "job_config_name db j = map_option cfg_Name (Option.bind (js_JobConfigID j) (find_config db))"

definition job_matches ::
  "(string \<Rightarrow> string \<Rightarrow> bool) \<Rightarrow> (string \<Rightarrow> string option) \<Rightarrow> DB \<Rightarrow> ListCrawlJobsFilter \<Rightarrow> CrawlJobSnapshot \<Rightarrow> bool" where
  "job_matches ilike email_of db f j \<longleftrightarrow>
     (case ljf_Status f of None \<Rightarrow> True | Some s \<Rightarrow> s = [] \<or> js_Status j = s) \<and>
     (case ljf_UserEmail f of None \<Rightarrow> True
      | Some e \<Rightarrow> e = [] \<or> (case Option.bind (js_UserID j) email_of of None \<Rightarrow> False | Some m \<Rightarrow> ilike m (''%'' @ e @ ''%''))) \<and>
     (case ljf_Name f of None \<Rightarrow> True
      | Some n \<Rightarrow> n = [] \<or> (case job_config_name db j of None \<Rightarrow> False | Some m \<Rightarrow> ilike m (''%'' @ n @ ''%''))) \<and>
     (case ljf_CreatedFrom f of None \<Rightarrow> True | Some t \<Rightarrow> t \<le> js_CreatedAt j) \<and>
     (case ljf_CreatedTo f of None \<Rightarrow> True | Some t \<Rightarrow> js_CreatedAt j \<le> t)"

definition job_sort_key ::
  "(string \<Rightarrow> 'k :: linorder) \<Rightarrow> DB \<Rightarrow> string \<Rightarrow> CrawlJobSnapshot \<Rightarrow> 'k \<times> int \<times> 'k" where
  "job_sort_key tk db field j =
     (if field = JobSortByName then (tk (case job_config_name db j of None \<Rightarrow> [] | Some n \<Rightarrow> n), 0, tk (js_ID j))
      else if field = JobSortByStatus then (tk (js_Status j), 0, tk (js_ID j))
      else (tk [], js_CreatedAt j, tk (js_ID j)))"

definition job_cursor_key :: "(string \<Rightarrow> 'k :: linorder) \<Rightarrow> string \<Rightarrow> ListCrawlJobsCursor \<Rightarrow> 'k \<times> int \<times> 'k" where
  "job_cursor_key tk field c =
     (if field = JobSortByName then (tk (ljc_Name c), 0, tk (ljc_ID c))
      else if field = JobSortByStatus then (tk (ljc_Status c), 0, tk (ljc_ID c))
      else (tk [], ljc_CreatedAt c, tk (ljc_ID c)))"

definition after_job_cursor ::
  "(string \<Rightarrow> 'k :: linorder) \<Rightarrow> DB \<Rightarrow> string \<Rightarrow> bool \<Rightarrow> ListCrawlJobsCursor option \<Rightarrow> CrawlJobSnapshot \<Rightarrow> bool" where
  "after_job_cursor tk db field asc cursor j \<longleftrightarrow>
     (case cursor of None \<Rightarrow> True | Some c \<Rightarrow> beyond asc (job_cursor_key tk field c) (job_sort_key tk db field j))"

definition job_cursor_of :: "string \<Rightarrow> bool \<Rightarrow> CrawlJob \<Rightarrow> ListCrawlJobsCursor" where
  "job_cursor_of field asc job =
     \<lparr>ljc_SortField = field, ljc_SortAsc = asc, ljc_CreatedAt = job_CreatedAt job,
      ljc_Name = (case job_JobConfig job of None \<Rightarrow> [] | Some c \<Rightarrow> cfg_Name c),
      ljc_Status = job_Status job, ljc_ID = job_ID job\<rparr>"

text \<open>
  As for tasks, a negative limit is neither defaulted nor refused: below minus one the database refuses
  the unsigned limit; at minus one no row is more than the limit, and the slice expression panics.
\<close>

definition job_ListWithCursor ::
  "(string \<Rightarrow> 'k :: linorder) \<Rightarrow> (string \<Rightarrow> string \<Rightarrow> bool) \<Rightarrow> (string \<Rightarrow> string option) \<Rightarrow> (string \<Rightarrow> bool) \<Rightarrow> gerr option \<Rightarrow>
   ListCrawlJobsQuery \<Rightarrow> DB \<Rightarrow> ListCrawlJobsResult res outcome" where
  "job_ListWithCursor tk ilike email_of uuid_ok fail query db =
     (let fetchLimit = ljq_Limit query + 1;
          sortField = (if ljq_SortField query = [] then JobSortByCreatedAt else ljq_SortField query);
          sortAsc = ljq_SortAsc query
      in if fetchLimit < 0 then Returns (Inl limit_error)
         else case db_read fail (\<lambda>db. Inr (take (nat fetchLimit) (order_rows (job_sort_key tk db sortField) sortAsc
                     (filter (\<lambda>j. job_matches ilike email_of db (ljq_Filter query) j \<and>
                                   after_job_cursor tk db sortField sortAsc (ljq_Cursor query) j) (db_jobs db))))) db of
                Inl e \<Rightarrow> Returns (Inl e)
              | Inr rows \<Rightarrow>
                  (case scanJobsWithQueueEndpoints uuid_ok db rows of
                     Inl e \<Rightarrow> Returns (Inl e)
                   | Inr jobs \<Rightarrow>
                       let hasMore = (ljq_Limit query < int (length jobs))
                       in if hasMore \<and> ljq_Limit query < 0 then Panics
                          else let page = (if hasMore then take (nat (ljq_Limit query)) jobs else jobs)
                               in Returns (Inr \<lparr>ljr_Jobs = page,
                                     ljr_NextCursor = (if hasMore \<and> page \<noteq> [] then Some (job_cursor_of sortField sortAsc (last page)) else None),
                                     ljr_HasMore = hasMore\<rparr>)))"

definition ListCrawlJobs ::
  "(string \<Rightarrow> 'k :: linorder) \<Rightarrow> (string \<Rightarrow> string \<Rightarrow> bool) \<Rightarrow> (string \<Rightarrow> string option) \<Rightarrow> (string \<Rightarrow> bool) \<Rightarrow> gerr option \<Rightarrow>
   ListCrawlJobsQuery \<Rightarrow> DB \<Rightarrow> ListCrawlJobsResult res outcome" where
  "ListCrawlJobs tk ilike email_of uuid_ok fail query0 db =
     (let limit0 = (if ljq_Limit query0 = 0 then 20 else ljq_Limit query0);
          query = query0\<lparr>ljq_Limit := (if 100 < limit0 then 100 else limit0)\<rparr>;
          f = ljq_Filter query
      in if (case ljf_Status f of None \<Rightarrow> False | Some s \<Rightarrow> s \<noteq> [] \<and> \<not> TaskStatus_IsValid s)
         then Returns (Inl (ErrText (''invalid status: '' @ the (ljf_Status f))))
         else if (case (ljf_CreatedFrom f, ljf_CreatedTo f) of (Some a, Some b) \<Rightarrow> b < a | _ \<Rightarrow> False)
         then Returns (Inl (ErrText ''created_from cannot be after created_to''))
         else case job_ListWithCursor tk ilike email_of uuid_ok fail query db of
                Panics \<Rightarrow> Panics
              | Returns r \<Rightarrow> Returns (wrap_err ''failed to list crawl jobs'' r))"

datatype ProtoJobSort =
  JOB_SORT_FIELD_UNSPECIFIED | JOB_SORT_FIELD_CREATED_AT | JOB_SORT_FIELD_NAME | JOB_SORT_FIELD_STATUS

record ListJobsRequest =
  ljreq_Cursor :: "string option"
  ljreq_Limit :: int
  ljreq_Filter :: "ListCrawlJobsFilter option"
  ljreq_SortField :: ProtoJobSort
  ljreq_SortOrder :: ProtoSortOrder

record ListJobsResponse =
  ljresp_Jobs :: "pb_CrawlJob option list"
  ljresp_NextCursor :: string
  ljresp_HasMore :: bool

text \<open>The default field is the time of creation, newest first; the other fields ascend by default.\<close>

fun job_sort :: "ProtoJobSort \<Rightarrow> ProtoSortOrder \<Rightarrow> string \<times> bool" where
  "job_sort JOB_SORT_FIELD_NAME order = (JobSortByName, order \<noteq> SORT_ORDER_DESC)"
| "job_sort JOB_SORT_FIELD_STATUS order = (JobSortByStatus, order \<noteq> SORT_ORDER_DESC)"
| "job_sort JOB_SORT_FIELD_CREATED_AT order = (JobSortByCreatedAt, order = SORT_ORDER_ASC)"
| "job_sort JOB_SORT_FIELD_UNSPECIFIED order = (JobSortByCreatedAt, order = SORT_ORDER_ASC)"

definition empty_job_filter :: ListCrawlJobsFilter where
  "empty_job_filter = \<lparr>ljf_Name = None, ljf_UserEmail = None, ljf_Status = None, ljf_CreatedFrom = None, ljf_CreatedTo = None\<rparr>"

definition job_query_of :: "(string \<Rightarrow> ListCrawlJobsCursor res) \<Rightarrow> ListJobsRequest \<Rightarrow> api_error + ListCrawlJobsQuery" where
  "job_query_of dec req =
     (let query = \<lparr>ljq_Cursor = None, ljq_Limit = ljreq_Limit req,
                   ljq_Filter = (case ljreq_Filter req of None \<Rightarrow> empty_job_filter | Some f \<Rightarrow> f),
                   ljq_SortField = fst (job_sort (ljreq_SortField req) (ljreq_SortOrder req)),
                   ljq_SortAsc = snd (job_sort (ljreq_SortField req) (ljreq_SortOrder req))\<rparr>
      in case ljreq_Cursor req of
           None \<Rightarrow> Inr query
         | Some s \<Rightarrow>
             if s = [] then Inr query
             else case dec s of
                    Inl e \<Rightarrow> Inl (StatusError InvalidArgument (''invalid cursor: '' @ err_text e))
                  | Inr c \<Rightarrow> Inr (query\<lparr>ljq_Cursor := Some c, ljq_SortField := ljc_SortField c, ljq_SortAsc := ljc_SortAsc c\<rparr>))"

definition api_ListJobs ::
  "json_lib \<Rightarrow> (string \<Rightarrow> 'k :: linorder) \<Rightarrow> (string \<Rightarrow> string \<Rightarrow> bool) \<Rightarrow> (string \<Rightarrow> string option) \<Rightarrow> (string \<Rightarrow> bool) \<Rightarrow> gerr option \<Rightarrow>
   (ListCrawlJobsCursor \<Rightarrow> string res) \<Rightarrow> (string \<Rightarrow> ListCrawlJobsCursor res) \<Rightarrow> ListJobsRequest \<Rightarrow> DB \<Rightarrow>
   (api_error + ListJobsResponse) outcome" where
  "api_ListJobs lib tk ilike email_of uuid_ok fail enc dec req db =
     (case job_query_of dec req of
        Inl e \<Rightarrow> Returns (Inl e)
      | Inr query \<Rightarrow>
          (case ListCrawlJobs tk ilike email_of uuid_ok fail query db of
             Panics \<Rightarrow> Panics
           | Returns (Inl e) \<Rightarrow> Returns (Inl (PlainError e))
           | Returns (Inr result) \<Rightarrow>
               (let jobs = map (\<lambda>job. ToProtoCrawlJob lib (Some job)) (ljr_Jobs result)
                in case ljr_NextCursor result of
                     None \<Rightarrow> Returns (Inr \<lparr>ljresp_Jobs = jobs, ljresp_NextCursor = [], ljresp_HasMore = ljr_HasMore result\<rparr>)
                   | Some c \<Rightarrow>
                       (case enc c of
                          Inl e \<Rightarrow> Returns (Inl (StatusError Internal (''failed to encode cursor: '' @ err_text e)))
                        | Inr s \<Rightarrow> Returns (Inr \<lparr>ljresp_Jobs = jobs, ljresp_NextCursor = s,
                                                 ljresp_HasMore = ljr_HasMore result\<rparr>)))))"

section \<open>What is submitted is what is read\<close>

text \<open>
  The law of \<^verbatim>\<open>encoding/json\<close> the converters rely on: a value that was decoded is encoded as a non-empty
  text that decodes to it.
\<close>

definition json_law :: "json_lib \<Rightarrow> bool" where
  "json_law lib \<longleftrightarrow> (\<forall>s a. jl_unmarshal lib s = Inr a \<longrightarrow> arg_keeps lib a)"

lemma received_spec_keeps:
  assumes "json_law lib"
  shows "spec_keeps lib (FromProtoExtractionSpec lib proto)"
proof -
  have arg: "arg_keeps lib (tr_Arg (FromProtoTransformSpec lib t))" for t
    using assms by (auto simp: FromProtoTransformSpec_def json_law_def zero_defs arg_keeps_def split: option.splits sum.splits)
  have "- (2 ^ 31) \<le> sint w \<and> sint w < 2 ^ 31" for w :: "32 word"
    using sint_greater_eq [of w] sint_less [of w] by simp
  then have "index_keeps (FromProtoExtractorSpec e)" for e
    by (auto simp: FromProtoExtractorSpec_def index_keeps_def zero_defs split: option.splits)
  moreover have "index_keeps zero_extractor" by (simp add: index_keeps_def zero_extractor_def)
  ultimately have "field_keeps lib (FromProtoFieldSpec lib f)" for f
    using arg by (auto simp: FromProtoFieldSpec_def field_keeps_def zero_field_def split: option.splits)
  then show ?thesis
    by (auto simp: FromProtoExtractionSpec_def spec_keeps_def FromProtoItemsSpec_def zero_defs split: option.splits)
qed

lemma received_types:
  "cfg_JobType (FromProtoCrawlJobConfig lib (Some p)) \<in> {JobTypeOnce, JobTypeScheduled}"
  "cfg_CrawlMode (FromProtoCrawlJobConfig lib (Some p)) \<in>
     {CrawlModePaginationAndLinks, CrawlModePaginationOnly, CrawlModeLinksOnly, []}"
  by (auto simp: FromProtoCrawlJobConfig_def FromProtoJobType_def FromProtoCrawlMode_def
      split: pb_JobType.splits pb_CrawlMode.splits)

text \<open>The job a successful creation leaves in the tables.\<close>

lemma created_rows:
  assumes inv: "db_inv db" and create: "CreateCrawlJob env user command db = (Inr jid, db')"
  shows "find_config db' (je_configID env) = Some (SaveCrawlJobConfigToSnapshot (submitted_config env user command)) \<and>
     find_job db' jid = Some (SaveCrawlJobToSnapshot (new_job env (je_configID env) (submitted_config env user command)))"
proof -
  have "create_body env (submitted_config env user command) db = (Returns (Inr jid), db')"
    using create by (simp add: CreateCrawlJob_eq)
  note B = create_body_done [OF inv this]
  then have "db_inv db'" by blast
  then show ?thesis using B
    by (simp add: find_config_iff find_job_iff) (simp add: SaveCrawlJobConfigToSnapshot_def SaveCrawlJobToSnapshot_def new_job_def)
qed

lemma created_job_get:
  assumes inv: "db_inv db" and create: "CreateCrawlJob env user command db = (Inr jid, db')"
    and ty: "cfg_JobType command \<noteq> []"
  shows "GetCrawlJob (je_uuid_ok env) None jid db' =
     Inr (new_job env (je_configID env) (submitted_config env user command))"
proof -
  let ?c = "submitted_config env user command" and ?ok = "je_uuid_ok env"
  let ?j = "new_job env (je_configID env) ?c"
  have user: "valid_id ?ok user" and b: "create_body env ?c db = (Returns (Inr jid), db')"
    using create by (simp_all add: CreateCrawlJob_eq)
  note B = create_body_done [OF inv b] and ids = create_body_ids [OF b]
  have "find_config db' (je_configID env) = Some (SaveCrawlJobConfigToSnapshot ?c)" "find_job db' jid = Some (SaveCrawlJobToSnapshot ?j)"
    using created_rows [OF inv create] by simp_all
  moreover have "RestoreCrawlJobConfigFromSnapshot ?ok (SaveCrawlJobConfigToSnapshot ?c) = Inr ?c"
    by (rule config_roundtrip) (use ids user ty in \<open>simp add: config_restorable_def submitted_config_def\<close>)
  moreover have "je_configID env \<noteq> []" "user \<noteq> []" using ids user by (simp_all add: valid_id_def)
  moreover have "cfg_ID (SaveCrawlJobConfigToSnapshot ?c) = je_configID env" by (simp add: SaveCrawlJobConfigToSnapshot_def)
  moreover have "jid = je_jobID env" "valid_id ?ok (je_jobID env)" using B ids by simp_all
  ultimately show ?thesis using ids user
    by (simp add: GetCrawlJob_def NewTypedID_eq db_read_def job_Get_def scanCrawlJobWithConfig_def
        SaveCrawlJobToSnapshot_def new_job_def RestoreCrawlJobFromSnapshot_def ID_IsEmpty_def)
      (simp add: submitted_config_def ID_IsEmpty_def)
qed

definition trimmed :: "CrawlJobConfig \<Rightarrow> CrawlJobConfig" where
  "trimmed c = c\<lparr>cfg_Scopes := (cfg_Scopes c)\<lparr>AllowedURLPatterns := normalize_patterns (AllowedURLPatterns (cfg_Scopes c))\<rparr>\<rparr>"

text \<open>
  A created job can be read, and reads as it was submitted, when the columns of the configuration keep
  the values; \<open>Job_Reading\<close> has the statement for the JSON columns themselves.
\<close>

lemma created_job_values:
  assumes inv: "db_inv db" and law: "json_law lib"
    and create: "api_CreateJob lib env ctx (Some config) db = (Inr jid, db')"
  shows "\<exists>job c. api_GetJob lib is_sql (je_uuid_ok env) None jid db' = Inr (Some job) \<and>
     pbj_Id job = jid \<and> pbj_UserId job = rc_user_id ctx \<and> pbj_Status job = TaskStatusInProgress \<and>
     pbj_CompletedAt job = None \<and> pbj_ExportStatus job = ExportStatusNotStarted \<and>
     pbj_JobConfig job = Some c \<and> pbc_Id c = pbj_JobConfigId job \<and> pbc_Name c = pbc_Name config \<and>
     FromProtoCrawlJobConfig lib (Some c) = trimmed (FromProtoCrawlJobConfig lib (Some config))"
proof -
  let ?r = "FromProtoCrawlJobConfig lib (Some config)"
  obtain user where user: "rc_user_id ctx = Some user" "user \<noteq> []" and c: "CreateCrawlJob env user ?r db = (Inr jid, db')"
    using create by (auto simp: api_CreateJob_def split: option.splits if_splits prod.splits sum.splits)
  let ?c = "submitted_config env user ?r"
  have "cfg_JobType ?r \<noteq> []" using received_types(1) [of lib config] by (auto simp: status_defs)
  note g = created_job_get [OF inv c this]
  have id: "jid = je_jobID env" using c create_body_done [OF inv] by (auto simp: CreateCrawlJob_eq)
  have "spec_keeps lib (cfg_ExtractionSpec ?c)" "cfg_JobType ?c \<in> {JobTypeOnce, JobTypeScheduled}"
    "cfg_CrawlMode ?c \<in> {CrawlModePaginationAndLinks, CrawlModePaginationOnly, CrawlModeLinksOnly, []}"
    using received_types [of lib config] received_spec_keeps [OF law, of "pbc_ExtractionSpec config"]
    by (simp_all add: submitted_config_def FromProtoCrawlJobConfig_def)
  note r = config_message_roundtrip [OF this]
  have fields: "cfg_ID ?r = []" "cfg_UserID ?r = []" "cfg_QueueWeights ?r = []" "LastRunAt (cfg_Schedule ?r) = None"
    "NextRunAt (cfg_Schedule ?r) = None" "cfg_Name ?r = pbc_Name config"
    by (simp_all add: FromProtoCrawlJobConfig_def zero_config_def FromProtoScheduleOptions_def zero_schedule_def split: option.splits)
  obtain m where m: "ToProtoCrawlJobConfig lib (Some ?c) = Some m" by (simp add: ToProtoCrawlJobConfig_def)
  have "FromProtoCrawlJobConfig lib (Some m) = trimmed ?r"
    using r fields unfolding m by (simp add: submitted_config_def trimmed_def)
  moreover have "pbc_Id m = je_configID env" "pbc_Name m = pbc_Name config"
    using m fields by (auto simp: ToProtoCrawlJobConfig_def submitted_config_def)
  moreover have "cfg_UserID ?c = user" by (simp add: submitted_config_def)
  ultimately show ?thesis using user m id
    by (auto simp: api_GetJob_def g [unfolded id] ToProtoCrawlJob_def new_job_def userIDPtr_def)
qed

text \<open>
  A sample library: an argument that is a string is its text after a quote, no other text decodes.
\<close>

definition sample_lib :: json_lib where
  "sample_lib = \<lparr>jl_marshal = (\<lambda>a. case a of ArgString s \<Rightarrow> Inr (CHR 0x22 # s) | _ \<Rightarrow> Inl (ErrText ''unsupported'')),
     jl_unmarshal = (\<lambda>s. if s \<noteq> [] \<and> hd s = CHR 0x22 then Inr (ArgString (tl s)) else Inl (ErrText ''syntax''))\<rparr>"

lemma sample_lib_law: "json_law sample_lib"
  by (auto simp: json_law_def arg_keeps_def sample_lib_def split: if_splits)

definition sample_message :: pb_CrawlJobConfig where
  "sample_message =
     \<lparr>pbc_Id = [], pbc_UserId = None, pbc_Name = ''books'',
      pbc_ExtractionSpec = Some
        \<lparr>pbx_Fields = [Some \<lparr>pbf_Name = ''title'', pbf_Type = ''string'', pbf_Required = True,
           pbf_Extractor = Some \<lparr>pbe_Selector = ''h1'', pbe_Attribute = [], pbe_Multiple = True, pbe_Index = Some (- 1)\<rparr>,
           pbf_Transforms = [Some \<lparr>pbt_Op = ''trim'', pbt_Arg = []\<rparr>]\<rparr>],
         pbx_Pagination = [], pbx_Items = None\<rparr>,
      pbc_Scopes = Some \<lparr>pbs_MaxDepth = 2, pbs_AllowedDomains = [], pbs_DenyUrlPatterns = [], pbs_AllowedUrlPatterns = []\<rparr>,
      pbc_Seeds = [Some \<lparr>pbs_Url = ''http://a''\<rparr>, Some \<lparr>pbs_Url = ''http://b''\<rparr>], pbc_RateLimit = None, pbc_Retries = None,
      pbc_Auth = None, pbc_Schedule = None, pbc_JobType = JOB_TYPE_ONCE, pbc_RespectRobotsTxt = True,
      pbc_CrawlMode = CRAWL_MODE_LINKS_ONLY\<rparr>"

definition sample_ctx :: rpc_ctx where
  "sample_ctx = \<lparr>rc_authorization = None, rc_user_id = Some ''u1'', rc_user_role = None\<rparr>"

lemma sample_message_created:
  "\<exists>db'. api_CreateJob sample_lib sample_job_env sample_ctx (Some sample_message) sample_db = (Inr ''j2'', db')"
proof -
  have "fst (api_CreateJob sample_lib sample_job_env sample_ctx (Some sample_message) sample_db) = Inr ''j2''"
    by code_simp
  then show ?thesis by (metis prod.collapse)
qed

text \<open>
  With the driver of this repository the missing row is not \<^verbatim>\<open>sql.ErrNoRows\<close>, and the answer of \<^verbatim>\<open>GetJob\<close> to
  an unknown identifier is the plain error instead of NotFound.
\<close>

lemma missing_job_not_translated:
  assumes "valid_id ok i" and "find_job db i = None" and "\<not> is_sql ErrNoRows"
  shows "api_GetJob lib is_sql ok None i db = Inl (PlainError ErrNoRows)"
  using assms by (simp add: api_GetJob_def GetCrawlJob_def NewTypedID_eq db_read_def job_Get_def)

section \<open>Paging through the jobs\<close>

definition job_page ::
  "json_lib \<Rightarrow> (string \<Rightarrow> 'k :: linorder) \<Rightarrow> (string \<Rightarrow> string \<Rightarrow> bool) \<Rightarrow> (string \<Rightarrow> string option) \<Rightarrow> (string \<Rightarrow> bool) \<Rightarrow>
   (ListCrawlJobsCursor \<Rightarrow> string res) \<Rightarrow> (string \<Rightarrow> ListCrawlJobsCursor res) \<Rightarrow> ListJobsRequest \<Rightarrow> DB \<Rightarrow> string \<Rightarrow>
   (pb_CrawlJob option list \<times> string) option" where
  "job_page lib tk ilike email_of uuid_ok enc dec req db cursor =
     (case api_ListJobs lib tk ilike email_of uuid_ok None enc dec (req\<lparr>ljreq_Cursor := Some cursor\<rparr>) db of
        Returns (Inr resp) \<Rightarrow> Some (ljresp_Jobs resp, ljresp_NextCursor resp)
      | _ \<Rightarrow> None)"

abbreviation request_filter :: "ListJobsRequest \<Rightarrow> ListCrawlJobsFilter" where
  "request_filter req \<equiv> (case ljreq_Filter req of None \<Rightarrow> empty_job_filter | Some f \<Rightarrow> f)"

definition job_filter_ok :: "ListCrawlJobsFilter \<Rightarrow> bool" where
  "job_filter_ok f \<longleftrightarrow>
     (case ljf_Status f of None \<Rightarrow> True | Some s \<Rightarrow> s = [] \<or> TaskStatus_IsValid s) \<and>
     (case (ljf_CreatedFrom f, ljf_CreatedTo f) of (Some a, Some b) \<Rightarrow> a \<le> b | _ \<Rightarrow> True)"

definition selected_jobs ::
  "(string \<Rightarrow> 'k :: linorder) \<Rightarrow> (string \<Rightarrow> string \<Rightarrow> bool) \<Rightarrow> (string \<Rightarrow> string option) \<Rightarrow> ListJobsRequest \<Rightarrow> DB \<Rightarrow> CrawlJobSnapshot list" where
  "selected_jobs tk ilike email_of req db =
     order_rows (job_sort_key tk db (fst (job_sort (ljreq_SortField req) (ljreq_SortOrder req))))
       (snd (job_sort (ljreq_SortField req) (ljreq_SortOrder req)))
       (filter (job_matches ilike email_of db (request_filter req)) (db_jobs db))"

text \<open>The job of a row, as every read of it returns it.\<close>

definition job_of_row :: "(string \<Rightarrow> bool) \<Rightarrow> DB \<Rightarrow> CrawlJobSnapshot \<Rightarrow> CrawlJob" where
  "job_of_row ok db j = projr (bind_res (scanCrawlJobWithConfig db j) (\<lambda>(j, c). RestoreCrawlJobFromSnapshot ok j c))"

lemma job_of_row:
  assumes inv: "db_inv db" and ids: "ids_valid ok db" and j: "j \<in> set (db_jobs db)"
  shows "bind_res (scanCrawlJobWithConfig db j) (\<lambda>(j, c). RestoreCrawlJobFromSnapshot ok j c) = Inr (job_of_row ok db j)"
    and "job_ID (job_of_row ok db j) = js_ID j" and "job_CreatedAt (job_of_row ok db j) = js_CreatedAt j"
    and "job_Status (job_of_row ok db j) = js_Status j"
    and "map_option cfg_Name (job_JobConfig (job_of_row ok db j)) = job_config_name db j"
proof -
  obtain c job where sc: "scanCrawlJobWithConfig db j = Inr (j, Some c)" and r: "RestoreCrawlJobFromSnapshot ok j (Some c) = Inr job"
    using scan_restores [OF inv ids j] by blast
  have n: "job_config_name db j = Some (cfg_Name c)"
    using sc by (auto simp: scanCrawlJobWithConfig_def job_config_name_def split: option.splits if_splits)
  have J: "job_of_row ok db j = job" by (simp add: job_of_row_def sc r)
  show "bind_res (scanCrawlJobWithConfig db j) (\<lambda>(j, c). RestoreCrawlJobFromSnapshot ok j c) = Inr (job_of_row ok db j)"
    by (simp add: J sc r)
  show "job_ID (job_of_row ok db j) = js_ID j" "job_CreatedAt (job_of_row ok db j) = js_CreatedAt j"
    "job_Status (job_of_row ok db j) = js_Status j" "map_option cfg_Name (job_JobConfig (job_of_row ok db j)) = job_config_name db j"
    using r n unfolding J
    by (auto simp: RestoreCrawlJobFromSnapshot_def bind_res_Inr_iff NewTypedID_eq dest!: NewID_InrD RestoreConfig_id)
qed

lemma scan_rows:
  assumes inv: "db_inv db" and ids: "ids_valid ok db" and sub: "set rows \<subseteq> set (db_jobs db)"
  shows "scanJobsWithQueueEndpoints ok db rows = Inr (map (job_of_row ok db) rows)"
  using sub
proof (induction rows)
  case (Cons j rows)
  then show ?case using job_of_row(1) [OF inv ids, of j]
    by (auto simp: scanJobsWithQueueEndpoints_def bind_res_def split: sum.splits)
qed (simp add: scanJobsWithQueueEndpoints_def)

lemma job_cursor_key_of:
  assumes inv: "db_inv db" and ids: "ids_valid ok db" and j: "j \<in> set (db_jobs db)"
  shows "job_cursor_key tk field (job_cursor_of field asc (job_of_row ok db j)) = job_sort_key tk db field j"
proof -
  have "(case job_JobConfig (job_of_row ok db j) of None \<Rightarrow> [] | Some c \<Rightarrow> cfg_Name c) =
      (case job_config_name db j of None \<Rightarrow> [] | Some n \<Rightarrow> n)"
    unfolding job_of_row(5) [OF inv ids j, symmetric] by (simp split: option.splits)
  then show ?thesis using job_of_row(2-4) [OF inv ids j]
    by (simp add: job_cursor_key_def job_cursor_of_def job_sort_key_def)
qed

lemma ListCrawlJobs_page:
  fixes tk :: "string \<Rightarrow> 'k :: linorder" and f :: ListCrawlJobsFilter and asc :: bool
    and c :: "ListCrawlJobsCursor option" and ilike :: "string \<Rightarrow> string \<Rightarrow> bool" and email_of :: "string \<Rightarrow> string option"
  assumes inv: "db_inv db" and ids: "ids_valid ok db"
    and lim: "0 \<le> limit" and field: "field \<noteq> []" and fok: "job_filter_ok f"
  defines "n \<equiv> page_size limit"
  defines "X \<equiv> filter (after_job_cursor tk db field asc c) (order_rows (job_sort_key tk db field) asc (filter (job_matches ilike email_of db f) (db_jobs db)))"
  shows "ListCrawlJobs tk ilike email_of ok None \<lparr>ljq_Cursor = c, ljq_Limit = limit, ljq_Filter = f, ljq_SortField = field, ljq_SortAsc = asc\<rparr> db =
     Returns (Inr \<lparr>ljr_Jobs = map (job_of_row ok db) (take n X),
        ljr_NextCursor = (if n < length X then Some (job_cursor_of field asc (job_of_row ok db (last (take n X)))) else None),
        ljr_HasMore = n < length X\<rparr>)"
proof -
  define e where "e = (if 100 < (if limit = 0 then 20 else limit) then 100 else (if limit = 0 then 20 else limit))"
  have e: "e = int n" "0 < n" using lim by (auto simp: e_def n_def page_size_def)
  have X: "order_rows (job_sort_key tk db field) asc (filter (\<lambda>j. job_matches ilike email_of db f j \<and> after_job_cursor tk db field asc c j) (db_jobs db)) = X"
    unfolding X_def order_rows_filter [symmetric] by (simp add: conj_commute)
  have sub: "set (take (Suc n) X) \<subseteq> set (db_jobs db)" by (auto simp: X_def dest!: in_set_takeD)
  have m: "scanJobsWithQueueEndpoints ok db (take (Suc n) X) = Inr (map (job_of_row ok db) (take (Suc n) X))"
    by (rule scan_rows [OF inv ids sub])
  define query where "query = \<lparr>ljq_Cursor = c, ljq_Limit = e, ljq_Filter = f, ljq_SortField = field, ljq_SortAsc = asc\<rparr>"
  have l: "nat (int n + 1) = Suc n" "(int n + 1 < 0) = False" "(int n < 0) = False" "nat (int n) = n"
    "(int n < int (length (map (job_of_row ok db) (take (Suc n) X)))) = (n < length X)"
    by auto
  have q: "ljq_Limit query = int n" "(if ljq_SortField query = [] then JobSortByCreatedAt else ljq_SortField query) = field"
    "ljq_SortAsc query = asc" "ljq_Filter query = f" "ljq_Cursor query = c"
    using e field by (simp_all add: query_def)
  have ne: "n < length X \<Longrightarrow> take n X \<noteq> []" using e(2) by auto
  have t: "take n (map (job_of_row ok db) (take (Suc n) X)) = map (job_of_row ok db) (take n X)"
    by (simp add: take_map min_def)
  have "job_ListWithCursor tk ilike email_of ok None query db =
     Returns (Inr \<lparr>ljr_Jobs = map (job_of_row ok db) (take n X),
        ljr_NextCursor = (if n < length X then Some (job_cursor_of field asc (job_of_row ok db (last (take n X)))) else None),
        ljr_HasMore = n < length X\<rparr>)"
    unfolding job_ListWithCursor_def Let_def q X db_read_def option.case sum.case l if_False m t simp_thms
    using ne by (simp add: last_map)
  moreover have "ListCrawlJobs tk ilike email_of ok None \<lparr>ljq_Cursor = c, ljq_Limit = limit, ljq_Filter = f, ljq_SortField = field, ljq_SortAsc = asc\<rparr> db =
      (case job_ListWithCursor tk ilike email_of ok None query db of
                Panics \<Rightarrow> Panics | Returns r \<Rightarrow> Returns (wrap_err ''failed to list crawl jobs'' r))"
  proof -
    have v: "(case ljf_Status f of None \<Rightarrow> False | Some s \<Rightarrow> s \<noteq> [] \<and> \<not> TaskStatus_IsValid s) = False"
      "(case (ljf_CreatedFrom f, ljf_CreatedTo f) of (Some a, Some b) \<Rightarrow> b < a | _ \<Rightarrow> False) = False"
      using fok by (auto simp: job_filter_ok_def split: option.splits)
    show ?thesis unfolding ListCrawlJobs_def Let_def ListCrawlJobsQuery.simps v if_False query_def e_def ..
  qed
  ultimately show ?thesis by simp
qed

text \<open>
  Paging through the jobs is complete and ends.  On tables that do not change, a client that follows
  the cursors of \<^verbatim>\<open>ListJobs\<close> gets, after at most one request per selected job and one, every job the
  filter selects exactly once, in the requested order, and each as \<^verbatim>\<open>GetJob\<close> shows it.
\<close>

theorem job_pages_complete:
  fixes tk :: "string \<Rightarrow> 'k :: linorder"
  assumes inv: "db_inv db" and ids: "ids_valid ok db"
    and coll: "inj tk" and codec: "cursor_codec enc dec" and lim: "0 \<le> ljreq_Limit req"
    and fok: "job_filter_ok (request_filter req)"
  shows "\<exists>jobs. walk (Suc (length (selected_jobs tk ilike email_of req db))) (job_page lib tk ilike email_of ok enc dec req db) [] = Some jobs \<and>
     list_all2 (\<lambda>r job. api_GetJob lib is_sql ok None (js_ID r) db = Inr job) (selected_jobs tk ilike email_of req db) jobs \<and>
     distinct (selected_jobs tk ilike email_of req db)"
proof -
  define field where "field = fst (job_sort (ljreq_SortField req) (ljreq_SortOrder req))"
  define asc where "asc = snd (job_sort (ljreq_SortField req) (ljreq_SortOrder req))"
  define n where "n = page_size (ljreq_Limit req)"
  define cur where "cur = (\<lambda>r. job_cursor_of field asc (job_of_row ok db r))"
  define code where "code = (\<lambda>r. projr (enc (cur r)))"
  define conv where "conv = (\<lambda>r. ToProtoCrawlJob lib (Some (job_of_row ok db r)))"
  define rows where "rows = filter (job_matches ilike email_of db (request_filter req)) (db_jobs db)"
  have L: "selected_jobs tk ilike email_of req db = order_rows (job_sort_key tk db field) asc rows"
    by (simp add: selected_jobs_def rows_def field_def asc_def)
  have field: "field \<noteq> []" by (cases "ljreq_SortField req") (simp_all add: field_def status_defs)
  have dist: "distinct (map js_ID (db_jobs db))" using inv by (simp add: db_inv_def)
  have inj: "inj_on (job_sort_key tk db field) (set rows)"
  proof (rule inj_onI)
    fix x y
    assume xy: "x \<in> set rows" "y \<in> set rows" "job_sort_key tk db field x = job_sort_key tk db field y"
    then have "js_ID x = js_ID y" using coll by (simp add: job_sort_key_def inj_eq split: if_splits)
    then show "x = y" using xy(1,2) dist by (auto simp: rows_def distinct_map dest: inj_onD)
  qed
  have enc: "enc (cur r) = Inr (code r)" "code r \<noteq> []" "dec (code r) = Inr (cur r)" for r
    using codec by (auto simp: cursor_codec_def code_def) (metis sum.sel(2))+
  have after: "after_job_cursor tk db field asc (map_option cur q) =
      (\<lambda>y. case q of None \<Rightarrow> True | Some x \<Rightarrow> beyond asc (job_sort_key tk db field x) (job_sort_key tk db field y))"
    if "case q of None \<Rightarrow> True | Some x \<Rightarrow> x \<in> set rows" for q
    using that by (intro ext)
      (auto simp: after_job_cursor_def cur_def rows_def job_cursor_key_of [OF inv ids] split: option.splits)
  have W: "walk (Suc (length (order_rows (job_sort_key tk db field) asc rows))) (job_page lib tk ilike email_of ok enc dec req db) [] =
      Some (map conv (order_rows (job_sort_key tk db field) asc rows)) \<and> distinct (order_rows (job_sort_key tk db field) asc rows)"
  proof (rule keyset_pages [where code = code and n = n])
    show "0 < n" using lim by (simp add: n_def page_size_def)
    show "distinct rows" using dist by (simp add: rows_def distinct_map)
    fix q X
    assume mem: "case q of None \<Rightarrow> True | Some x \<Rightarrow> x \<in> set rows"
      and X: "X = filter (\<lambda>y. case q of None \<Rightarrow> True | Some x \<Rightarrow> beyond asc (job_sort_key tk db field x) (job_sort_key tk db field y))
       (order_rows (job_sort_key tk db field) asc rows)"
    have query: "job_query_of dec (req\<lparr>ljreq_Cursor := Some (case q of None \<Rightarrow> [] | Some x \<Rightarrow> code x)\<rparr>) =
        Inr \<lparr>ljq_Cursor = map_option cur q, ljq_Limit = ljreq_Limit req, ljq_Filter = request_filter req, ljq_SortField = field, ljq_SortAsc = asc\<rparr>"
      using enc by (cases q) (simp_all add: job_query_of_def field_def asc_def cur_def job_cursor_of_def Let_def)
    show "job_page lib tk ilike email_of ok enc dec req db (case q of None \<Rightarrow> [] | Some x \<Rightarrow> code x) =
        Some (map conv (take n X), if n < length X then code (last (take n X)) else [])"
      using ListCrawlJobs_page [OF inv ids lim field fok, where tk = tk and asc = asc and c = "map_option cur q"
          and ilike = ilike and email_of = email_of] enc(1)
      unfolding job_page_def api_ListJobs_def query X after [OF mem, symmetric] n_def rows_def conv_def
      by (simp add: cur_def comp_def)
  qed (use inj enc in auto)
  have get: "api_GetJob lib is_sql ok None (js_ID r) db = Inr (conv r)" if "r \<in> set rows" for r
  proof -
    have r: "r \<in> set (db_jobs db)" using that by (simp add: rows_def)
    then have "find_job db (js_ID r) = Some r" using find_job_iff [OF inv] by blast
    moreover have "valid_id ok (js_ID r)" using ids r by (simp add: ids_valid_def)
    ultimately show ?thesis using job_of_row(1) [OF inv ids r]
      by (simp add: api_GetJob_def GetCrawlJob_def NewTypedID_eq db_read_def job_Get_def conv_def)
  qed
  have "list_all2 (\<lambda>r job. api_GetJob lib is_sql ok None (js_ID r) db = Inr job) L (map conv L)"
    if "set L \<subseteq> set rows" for L using that get by (induction L) auto
  then show ?thesis unfolding L using W by (intro exI conjI) auto
qed

definition job_enc :: "ListCrawlJobsCursor \<Rightarrow> string res" where
  "job_enc c = Inr (concat (map put_str
     [ljc_SortField c, if ljc_SortAsc c then ''t'' else [], unary (ljc_CreatedAt c), ljc_Name c, ljc_Status c, ljc_ID c]))"

definition job_dec :: "string \<Rightarrow> ListCrawlJobsCursor res" where
  "job_dec s = (let f = get_strs 6 s in
     Inr \<lparr>ljc_SortField = f ! 0, ljc_SortAsc = (f ! 1 \<noteq> []), ljc_CreatedAt = unary_value (f ! 2), ljc_Name = f ! 3,
          ljc_Status = f ! 4, ljc_ID = f ! 5\<rparr>)"

lemma job_codec: "cursor_codec job_enc job_dec"
  unfolding cursor_codec_def
proof
  fix c :: ListCrawlJobsCursor
  define ss where "ss = [ljc_SortField c, if ljc_SortAsc c then ''t'' else [], unary (ljc_CreatedAt c), ljc_Name c, ljc_Status c, ljc_ID c]"
  have u: "unary_value (unary i) = i" for i by (auto simp: unary_def unary_value_def)
  have l: "length ss = 6" by (simp add: ss_def)
  have "get_strs 6 (concat (map put_str ss)) = ss" using get_put [of ss] unfolding l .
  then have "job_dec (concat (map put_str ss)) = Inr c"
    by (cases c) (simp only: job_dec_def Let_def, simp add: ss_def u)
  moreover have "concat (map put_str ss) \<noteq> []" by (simp add: ss_def put_str_def)
  moreover have "job_enc c = Inr (concat (map put_str ss))" by (simp only: job_enc_def ss_def)
  ultimately show "\<exists>s. job_enc c = Inr s \<and> s \<noteq> [] \<and> job_dec s = Inr c" by blast
qed

definition jobs_db :: DB where
  "jobs_db = sample_db\<lparr>db_jobs := map SaveCrawlJobToSnapshot
     [sample_job ''j1'' ''c1'', (sample_job ''j2'' ''c1'')\<lparr>job_CreatedAt := 9\<rparr>, (sample_job ''j3'' ''c1'')\<lparr>job_CreatedAt := 8\<rparr>]\<rparr>"

definition jobs_req :: ListJobsRequest where
  "jobs_req = \<lparr>ljreq_Cursor = None, ljreq_Limit = 2, ljreq_Filter = None, ljreq_SortField = JOB_SORT_FIELD_UNSPECIFIED,
     ljreq_SortOrder = SORT_ORDER_UNSPECIFIED\<rparr>"

theorem job_pages_complete_witness:
  "\<exists>jobs. walk 4 (job_page sample_lib (id :: string \<Rightarrow> string) (\<lambda>_ _. True) (\<lambda>_. None) (\<lambda>s. s \<noteq> []) job_enc job_dec jobs_req jobs_db) [] = Some jobs \<and>
     list_all2 (\<lambda>i job. api_GetJob sample_lib (\<lambda>_. False) (\<lambda>s. s \<noteq> []) None i jobs_db = Inr job) [''j2'', ''j3'', ''j1''] jobs"
proof -
  have inv: "db_inv jobs_db" by code_simp
  have ids: "ids_valid (\<lambda>s. s \<noteq> []) jobs_db"
    by (simp add: ids_valid_def jobs_db_def sample_db_def sample_job_def SaveCrawlJobToSnapshot_def valid_id_def ID_IsEmpty_def)
  have s: "map js_ID (selected_jobs (id :: string \<Rightarrow> string) (\<lambda>_ _. True) (\<lambda>_. None) jobs_req jobs_db) = [''j2'', ''j3'', ''j1'']"
    by code_simp
  then have l: "length (selected_jobs (id :: string \<Rightarrow> string) (\<lambda>_ _. True) (\<lambda>_. None) jobs_req jobs_db) = 3"
    by (metis length_map length_Cons list.size(3) numeral_3_eq_3)
  have "0 \<le> ljreq_Limit jobs_req" "job_filter_ok (request_filter jobs_req)"
    by (simp_all add: jobs_req_def job_filter_ok_def empty_job_filter_def)
  from job_pages_complete [OF inv ids _ job_codec this, where tk = "id :: string \<Rightarrow> string" and ilike = "\<lambda>_ _. True"
      and email_of = "\<lambda>_. None" and lib = sample_lib and is_sql = "\<lambda>_. False"] l
  obtain jobs where "walk 4 (job_page sample_lib (id :: string \<Rightarrow> string) (\<lambda>_ _. True) (\<lambda>_. None) (\<lambda>s. s \<noteq> []) job_enc job_dec jobs_req jobs_db) [] = Some jobs"
    "list_all2 (\<lambda>r job. api_GetJob sample_lib (\<lambda>_. False) (\<lambda>s. s \<noteq> []) None (js_ID r) jobs_db = Inr job)
       (selected_jobs (id :: string \<Rightarrow> string) (\<lambda>_ _. True) (\<lambda>_. None) jobs_req jobs_db) jobs"
    by auto
  then show ?thesis by (simp only: s [symmetric] list_all2_map1) blast
qed

text \<open>The limit minus one reaches the slice expression of the repository, and nothing recovers the panic.\<close>

lemma negative_job_limit_panics:
  assumes "ljreq_Limit req = -1" and "ljreq_Cursor req = None" and "job_filter_ok (request_filter req)"
  shows "api_ListJobs lib tk ilike email_of ok None enc dec req db = Panics"
proof -
  let ?f = "request_filter req"
  have v: "(case ljf_Status ?f of None \<Rightarrow> False | Some s \<Rightarrow> s \<noteq> [] \<and> \<not> TaskStatus_IsValid s) = False"
    "(case (ljf_CreatedFrom ?f, ljf_CreatedTo ?f) of (Some a, Some b) \<Rightarrow> b < a | _ \<Rightarrow> False) = False"
    using assms(3) unfolding job_filter_ok_def by (auto split: option.splits)
  obtain fld asc where q: "job_query_of dec req =
      Inr \<lparr>ljq_Cursor = None, ljq_Limit = -1, ljq_Filter = ?f, ljq_SortField = fld, ljq_SortAsc = asc\<rparr>"
    using assms(1,2) by (simp add: job_query_of_def)
  have "ListCrawlJobs tk ilike email_of ok None \<lparr>ljq_Cursor = None, ljq_Limit = -1, ljq_Filter = ?f, ljq_SortField = fld, ljq_SortAsc = asc\<rparr> db = Panics"
    unfolding ListCrawlJobs_def Let_def ListCrawlJobsQuery.simps v if_False
    by (simp add: job_ListWithCursor_def db_read_def Let_def scanJobsWithQueueEndpoints_def)
  then show ?thesis by (simp add: api_ListJobs_def q)
qed

end
