(* ===== verification/Config_JSON.thy ===== *)
theory Config_JSON
  imports Database_Model Go_Floats
begin

text \<open>
  The JSON columns of a job configuration: \<^verbatim>\<open>postgres/converters/crawl_job_config.go\<close> with the column
  types \<^verbatim>\<open>JSONB\<close> and \<^verbatim>\<open>JSONBArray\<close> of \<^verbatim>\<open>postgres/snapshots\<close>.  Every column is encoded, decoded into
  an untyped Go value, encoded again for the database, and takes the same way back.  Untyped numbers are
  \<^verbatim>\<open>float64\<close>, so that integers are rounded to 53 bits and printed with the shortest digits.  The
  converters of \<open>Database_Model\<close> keep the values themselves; here it is shown that the columns
  implement them as long as the integers have at most 53 bits, and what happens to longer ones.
\<close>

section \<open>Numbers\<close>

text \<open>
  The shortest digits that are read back as the same float: the nearer of the two decimals of \<open>k\<close>
  digits around the value, for the smallest \<open>k\<close> where one of them is rounded to the value.
\<close>

fun dec_len :: "nat \<Rightarrow> nat" where
  "dec_len n = (if n < 10 then 1 else Suc (dec_len (n div 10)))"

declare dec_len.simps [simp del]

definition decimals_around :: "nat \<Rightarrow> nat \<Rightarrow> nat list" where
  "decimals_around v k =
     (let p = 10 ^ (dec_len v - k); lo = v div p * p; hi = lo + p
      in if 2 * (v - lo) \<le> p then [lo, hi] else [hi, lo])"

definition shortest_digits :: "nat \<Rightarrow> nat" where
  "shortest_digits v =
     (case find (\<lambda>c. round_float64 c = v) (concat (map (decimals_around v) [1..<dec_len v])) of
        Some c \<Rightarrow> c
      | None \<Rightarrow> v)"

section \<open>JSON values\<close>

text \<open>
  \<open>JInt\<close> is a number written without fraction and exponent, \<open>JFloat x\<close> any other number, the text
  being the one Go prints for the float \<open>x\<close>.  \<open>JTime\<close> is the RFC 3339 text of a time.  \<open>JOther\<close> is
  a value of a transform's argument that is neither null, a number nor a string.  Texts are valid
  UTF-8, which the protobuf decoder guarantees.
\<close>

datatype json =
  JNull | JBool bool | JInt int | JFloat rat | JString string | JTime time | JOther
| JArr "json list" | JObj "(string \<times> json) list"

text \<open>\<^verbatim>\<open>json.Marshal\<close> of a float: without exponent below \<open>10 ^ 21\<close>.\<close>

definition print_float :: "rat \<Rightarrow> json" where
  "print_float x =
     (if of_int \<lfloor>x\<rfloor> = x \<and> \<bar>x\<bar> < 10 ^ 21
      then JInt (sgn \<lfloor>x\<rfloor> * int (shortest_digits (nat \<bar>\<lfloor>x\<rfloor>\<bar>)))
      else JFloat x)"

text \<open>
  \<^verbatim>\<open>json.Unmarshal\<close> into an untyped value followed by \<^verbatim>\<open>json.Marshal\<close> of that value.  The order of
  an object's keys changes on the way; they are looked up by name.
\<close>

primrec through_any :: "json \<Rightarrow> json" where
  "through_any JNull = JNull"
| "through_any (JBool b) = JBool b"
| "through_any (JInt z) = print_float (of_int (float64_of_int z))"
| "through_any (JFloat x) = print_float x"
| "through_any (JString s) = JString s"
| "through_any (JTime t) = JTime t"
| "through_any JOther = JOther"
| "through_any (JArr xs) = JArr (map through_any xs)"
| "through_any (JObj kvs) = JObj (map (map_prod id through_any) kvs)"

text \<open>
  The way of a column: untyped value of the snapshot, text of \<^verbatim>\<open>Value\<close>, untyped value of \<^verbatim>\<open>Scan\<close>,
  text the converter decodes.
\<close>

definition stored :: "json \<Rightarrow> json" where
  "stored j = through_any (through_any j)"

text \<open>
  \<^verbatim>\<open>json.Unmarshal\<close> into the fields of a struct; \<^verbatim>\<open>None\<close> is a key that is missing.  A missing key
  and null leave the zero value.
\<close>

definition unmarshal_error :: "string \<Rightarrow> gerr" where
  "unmarshal_error ty = ErrText (''json: cannot unmarshal value into Go value of type '' @ ty)"

definition read_string :: "json option \<Rightarrow> string res" where
  "read_string j =
     (case j of None \<Rightarrow> Inr [] | Some JNull \<Rightarrow> Inr [] | Some (JString s) \<Rightarrow> Inr s
      | _ \<Rightarrow> Inl (unmarshal_error ''string''))"

definition read_bool :: "json option \<Rightarrow> bool res" where
  "read_bool j =
     (case j of None \<Rightarrow> Inr False | Some JNull \<Rightarrow> Inr False | Some (JBool b) \<Rightarrow> Inr b
      | _ \<Rightarrow> Inl (unmarshal_error ''bool''))"

definition read_uint :: "nat \<Rightarrow> json option \<Rightarrow> 'a::len word res" where
  "read_uint bits j =
     (case j of None \<Rightarrow> Inr 0 | Some JNull \<Rightarrow> Inr 0
      | Some (JInt z) \<Rightarrow> if 0 \<le> z \<and> z < 2 ^ bits then Inr (word_of_int z) else Inl (unmarshal_error ''uint'')
      | _ \<Rightarrow> Inl (unmarshal_error ''uint''))"

definition read_float :: "json option \<Rightarrow> rat res" where
  "read_float j =
     (case j of None \<Rightarrow> Inr 0 | Some JNull \<Rightarrow> Inr 0 | Some (JInt z) \<Rightarrow> Inr (of_int (float64_of_int z))
      | Some (JFloat x) \<Rightarrow> Inr x | _ \<Rightarrow> Inl (unmarshal_error ''float64''))"

definition read_index :: "json option \<Rightarrow> int option res" where
  "read_index j =
     (case j of None \<Rightarrow> Inr None | Some JNull \<Rightarrow> Inr None
      | Some (JInt z) \<Rightarrow> if - (2 ^ 63) \<le> z \<and> z < 2 ^ 63 then Inr (Some z) else Inl (unmarshal_error ''int'')
      | _ \<Rightarrow> Inl (unmarshal_error ''int''))"

definition read_time :: "json option \<Rightarrow> time option res" where
  "read_time j =
     (case j of None \<Rightarrow> Inr None | Some JNull \<Rightarrow> Inr None | Some (JTime t) \<Rightarrow> Inr (Some t)
      | _ \<Rightarrow> Inl (unmarshal_error ''time.Time''))"

definition read_any :: "json option \<Rightarrow> transform_arg" where
  "read_any j =
     (case j of None \<Rightarrow> ArgNone | Some JNull \<Rightarrow> ArgNone | Some (JInt z) \<Rightarrow> ArgFloat (of_int (float64_of_int z))
      | Some (JFloat x) \<Rightarrow> ArgFloat x | Some (JString s) \<Rightarrow> ArgString s | _ \<Rightarrow> ArgOther)"

definition read_list :: "(json option \<Rightarrow> 'a res) \<Rightarrow> json option \<Rightarrow> 'a list res" where
  "read_list elem j =
     (case j of None \<Rightarrow> Inr [] | Some JNull \<Rightarrow> Inr [] | Some (JArr xs) \<Rightarrow> map_res (\<lambda>x. elem (Some x)) xs
      | _ \<Rightarrow> Inl (unmarshal_error ''slice''))"

text \<open>A struct: the fields are read from the keys; on null every field keeps its zero value.\<close>

definition read_struct :: "((string \<Rightarrow> json option) \<Rightarrow> 'a res) \<Rightarrow> json option \<Rightarrow> 'a res" where
  "read_struct members j =
     (case j of None \<Rightarrow> members (\<lambda>_. None) | Some JNull \<Rightarrow> members (\<lambda>_. None)
      | Some (JObj kvs) \<Rightarrow> members (map_of kvs) | _ \<Rightarrow> Inl (unmarshal_error ''struct''))"

section \<open>The structs of a configuration\<close>

text \<open>
  An absent member of a literal list below is a key left out by \<^verbatim>\<open>omitempty\<close>.  A list is written as
  an array (Go writes null for a nil slice, which is read back as no elements too).
\<close>

definition unless :: "bool \<Rightarrow> string \<Rightarrow> json \<Rightarrow> (string \<times> json) list" where
  "unless omit k v = (if omit then [] else [(k, v)])"

abbreviation json_strings :: "string list \<Rightarrow> json" where
  "json_strings ss \<equiv> JArr (map JString ss)"

definition json_uint :: "'a::len word \<Rightarrow> json" where
  "json_uint w = JInt (uint w)"

definition json_time :: "time option \<Rightarrow> json" where
  "json_time t = (case t of None \<Rightarrow> JNull | Some t \<Rightarrow> JTime t)"

text \<open>
  The argument of a transform.  A \<^verbatim>\<open>json.Number\<close> is written as it is, a literal that is read as the
  float \<open>parse\<close> gives.
\<close>

definition json_arg :: "(string \<Rightarrow> rat) \<Rightarrow> transform_arg \<Rightarrow> json" where
  "json_arg parse a =
     (case a of
        ArgNone \<Rightarrow> JNull
      | ArgInt z \<Rightarrow> JInt z
      | ArgInt64 z \<Rightarrow> JInt z
      | ArgFloat x \<Rightarrow> print_float x
      | ArgNumber s \<Rightarrow> print_float (parse s)
      | ArgString s \<Rightarrow> JString s
      | ArgOther \<Rightarrow> JOther)"

definition json_extractor :: "ExtractorSpec \<Rightarrow> json" where
  "json_extractor e = JObj
     (unless (ex_Selector e = []) ''selector'' (JString (ex_Selector e)) @
      unless (ex_Attribute e = []) ''attribute'' (JString (ex_Attribute e)) @
      unless (\<not> ex_Multiple e) ''multiple'' (JBool (ex_Multiple e)) @
      (case ex_Index e of None \<Rightarrow> [] | Some i \<Rightarrow> [(''index'', JInt i)]))"

definition read_extractor :: "json option \<Rightarrow> ExtractorSpec res" where
  "read_extractor = read_struct (\<lambda>m.
     bind_res (read_string (m ''selector'')) (\<lambda>sel.
     bind_res (read_string (m ''attribute'')) (\<lambda>attr.
     bind_res (read_bool (m ''multiple'')) (\<lambda>mult.
     bind_res (read_index (m ''index'')) (\<lambda>idx.
       Inr \<lparr>ex_Selector = sel, ex_Attribute = attr, ex_Multiple = mult, ex_Index = idx\<rparr>)))))"

definition json_transform :: "(string \<Rightarrow> rat) \<Rightarrow> TransformSpec \<Rightarrow> json" where
  "json_transform parse t = JObj [(''Op'', JString (tr_Op t)), (''Arg'', json_arg parse (tr_Arg t))]"

definition read_transform :: "json option \<Rightarrow> TransformSpec res" where
  "read_transform = read_struct (\<lambda>m.
     bind_res (read_string (m ''Op'')) (\<lambda>op. Inr \<lparr>tr_Op = op, tr_Arg = read_any (m ''Arg'')\<rparr>))"

definition json_field :: "(string \<Rightarrow> rat) \<Rightarrow> FieldSpec \<Rightarrow> json" where
  "json_field parse f = JObj
     [(''Name'', JString (fs_Name f)), (''Type'', JString (fs_Type f)), (''Required'', JBool (fs_Required f)),
      (''Extractor'', json_extractor (fs_Extractor f)),
      (''Transforms'', JArr (map (json_transform parse) (fs_Transforms f)))]"

definition read_field :: "json option \<Rightarrow> FieldSpec res" where
  "read_field = read_struct (\<lambda>m.
     bind_res (read_string (m ''Name'')) (\<lambda>name.
     bind_res (read_string (m ''Type'')) (\<lambda>ty.
     bind_res (read_bool (m ''Required'')) (\<lambda>req.
     bind_res (read_extractor (m ''Extractor'')) (\<lambda>ex.
     bind_res (read_list read_transform (m ''Transforms'')) (\<lambda>ts.
       Inr \<lparr>fs_Name = name, fs_Type = ty, fs_Required = req, fs_Extractor = ex, fs_Transforms = ts\<rparr>))))))"

definition json_page :: "PaginationSpec \<Rightarrow> json" where
  "json_page p = JObj
     (unless (pg_Name p = []) ''name'' (JString (pg_Name p)) @
      unless (pg_Selector p = []) ''selector'' (JString (pg_Selector p)) @
      unless (pg_Attribute p = []) ''attribute'' (JString (pg_Attribute p)) @
      unless (\<not> pg_Multiple p) ''multiple'' (JBool (pg_Multiple p)))"

definition read_page :: "json option \<Rightarrow> PaginationSpec res" where
  "read_page = read_struct (\<lambda>m.
     bind_res (read_string (m ''name'')) (\<lambda>name.
     bind_res (read_string (m ''selector'')) (\<lambda>sel.
     bind_res (read_string (m ''attribute'')) (\<lambda>attr.
     bind_res (read_bool (m ''multiple'')) (\<lambda>mult.
       Inr \<lparr>pg_Name = name, pg_Selector = sel, pg_Attribute = attr, pg_Multiple = mult\<rparr>)))))"

definition json_items :: "(string \<Rightarrow> rat) \<Rightarrow> ItemsSpec \<Rightarrow> json" where
  "json_items parse i = JObj
     [(''container_selector'', JString (ContainerSelector i)), (''fields'', JArr (map (json_field parse) (items_Fields i)))]"

definition read_items :: "json option \<Rightarrow> ItemsSpec option res" where
  "read_items j =
     (case j of None \<Rightarrow> Inr None | Some JNull \<Rightarrow> Inr None
      | _ \<Rightarrow> read_struct (\<lambda>m.
          bind_res (read_string (m ''container_selector'')) (\<lambda>sel.
          bind_res (read_list read_field (m ''fields'')) (\<lambda>fs.
            Inr (Some \<lparr>ContainerSelector = sel, items_Fields = fs\<rparr>)))) j)"

definition json_spec :: "(string \<Rightarrow> rat) \<Rightarrow> ExtractionSpec \<Rightarrow> json" where
  "json_spec parse s = JObj
     ([(''Fields'', JArr (map (json_field parse) (spec_Fields s))),
       (''Pagination'', JArr (map json_page (spec_Pagination s)))] @
      (case spec_Items s of None \<Rightarrow> [] | Some i \<Rightarrow> [(''items'', json_items parse i)]))"

definition read_spec :: "json option \<Rightarrow> ExtractionSpec res" where
  "read_spec = read_struct (\<lambda>m.
     bind_res (read_list read_field (m ''Fields'')) (\<lambda>fs.
     bind_res (read_list read_page (m ''Pagination'')) (\<lambda>ps.
     bind_res (read_items (m ''items'')) (\<lambda>is.
       Inr \<lparr>spec_Fields = fs, spec_Pagination = ps, spec_Items = is\<rparr>))))"

definition json_scopes :: "ScopeRules \<Rightarrow> json" where
  "json_scopes s = JObj
     [(''MaxDepth'', json_uint (MaxDepth s)), (''AllowedDomains'', json_strings (AllowedDomains s)),
      (''DenyUrlPatterns'', json_strings (DenyUrlPatterns s)),
      (''AllowedURLPatterns'', json_strings (AllowedURLPatterns s))]"

definition read_scopes :: "json option \<Rightarrow> ScopeRules res" where
  "read_scopes = read_struct (\<lambda>m.
     bind_res (read_uint 64 (m ''MaxDepth'')) (\<lambda>depth.
     bind_res (read_list read_string (m ''AllowedDomains'')) (\<lambda>domains.
     bind_res (read_list read_string (m ''DenyUrlPatterns'')) (\<lambda>deny.
     bind_res (read_list read_string (m ''AllowedURLPatterns'')) (\<lambda>allow.
       Inr \<lparr>MaxDepth = depth, AllowedDomains = domains, DenyUrlPatterns = deny, AllowedURLPatterns = allow\<rparr>)))))"

definition json_seed :: "string \<Rightarrow> json" where
  "json_seed url = JObj [(''Url'', JString url)]"

definition read_seed :: "json option \<Rightarrow> string res" where
  "read_seed = read_struct (\<lambda>m. read_string (m ''Url''))"

definition json_rate :: "rat \<Rightarrow> json" where
  "json_rate rps = JObj [(''Rps'', print_float rps)]"

definition read_rate :: "json option \<Rightarrow> rat res" where
  "read_rate = read_struct (\<lambda>m. read_float (m ''Rps''))"

definition json_retries :: "RetryPolicy \<Rightarrow> json" where
  "json_retries r = JObj
     [(''MaxAttempts'', json_uint (MaxAttempts r)), (''BackoffInitialMs'', json_uint (BackoffInitialMs r)),
      (''BackoffMultiplier'', print_float (BackoffMultiplier r))]"

definition read_retries :: "json option \<Rightarrow> RetryPolicy res" where
  "read_retries = read_struct (\<lambda>m.
     bind_res (read_uint 64 (m ''MaxAttempts'')) (\<lambda>attempts.
     bind_res (read_uint 64 (m ''BackoffInitialMs'')) (\<lambda>backoff.
     bind_res (read_float (m ''BackoffMultiplier'')) (\<lambda>mult.
       Inr \<lparr>MaxAttempts = attempts, BackoffInitialMs = backoff, BackoffMultiplier = mult\<rparr>))))"

definition json_auth :: "AuthOptions \<Rightarrow> json" where
  "json_auth a = JObj
     [(''Cookie'', JString (Cookie a)), (''BasicUser'', JString (BasicUser a)),
      (''BasicPassword'', JString (BasicPassword a)), (''BearerToken'', JString (BearerToken a))]"

definition read_auth :: "json option \<Rightarrow> AuthOptions res" where
  "read_auth = read_struct (\<lambda>m.
     bind_res (read_string (m ''Cookie'')) (\<lambda>cookie.
     bind_res (read_string (m ''BasicUser'')) (\<lambda>user.
     bind_res (read_string (m ''BasicPassword'')) (\<lambda>pass.
     bind_res (read_string (m ''BearerToken'')) (\<lambda>bearer.
       Inr \<lparr>Cookie = cookie, BasicUser = user, BasicPassword = pass, BearerToken = bearer\<rparr>)))))"

definition json_schedule :: "ScheduleOptions \<Rightarrow> json" where
  "json_schedule s = JObj
     [(''Cron'', JString (Cron s)), (''LastRunAt'', json_time (LastRunAt s)), (''NextRunAt'', json_time (NextRunAt s))]"

definition read_schedule :: "json option \<Rightarrow> ScheduleOptions res" where
  "read_schedule = read_struct (\<lambda>m.
     bind_res (read_string (m ''Cron'')) (\<lambda>cron.
     bind_res (read_time (m ''LastRunAt'')) (\<lambda>last.
     bind_res (read_time (m ''NextRunAt'')) (\<lambda>next.
       Inr \<lparr>Cron = cron, LastRunAt = last, NextRunAt = next\<rparr>))))"

definition json_weight :: "QueueWeight \<Rightarrow> json" where
  "json_weight w = JObj [(''queue'', JString (qw_Queue w)), (''weight'', json_uint (qw_Weight w))]"

definition read_weight :: "json option \<Rightarrow> QueueWeight res" where
  "read_weight = read_struct (\<lambda>m.
     bind_res (read_string (m ''queue'')) (\<lambda>queue.
     bind_res (read_uint 32 (m ''weight'')) (\<lambda>weight. Inr \<lparr>qw_Queue = queue, qw_Weight = weight\<rparr>)))"

section \<open>The row of a configuration\<close>

record CrawlJobConfigSnapshot =
  cs_ID :: string
  cs_UserID :: "string option"
  cs_Name :: string
  cs_ExtractionSpec :: json
  cs_Scopes :: json
  cs_Seeds :: json
  cs_RateLimit :: json
  cs_Retries :: json
  cs_Auth :: json
  cs_Schedule :: json
  cs_JobType :: string
  cs_RespectRobotsTxt :: bool
  cs_CrawlMode :: string
  cs_QueueWeights :: json

text \<open>The row as it is written: the JSON columns hold the text of the snapshot's untyped values.\<close>

definition save_config_row :: "(string \<Rightarrow> rat) \<Rightarrow> CrawlJobConfig \<Rightarrow> CrawlJobConfigSnapshot" where
  "save_config_row parse config =
     \<lparr>cs_ID = cfg_ID config,
      cs_UserID = (if ID_IsEmpty (cfg_UserID config) then None else Some (cfg_UserID config)),
      cs_Name = cfg_Name config,
      cs_ExtractionSpec = through_any (json_spec parse (cfg_ExtractionSpec config)),
      cs_Scopes = through_any (json_scopes (cfg_Scopes config)),
      cs_Seeds = through_any (JArr (map json_seed (cfg_Seeds config))),
      cs_RateLimit = through_any (json_rate (cfg_Rps config)),
      cs_Retries = through_any (json_retries (cfg_Retries config)),
      cs_Auth = through_any (json_auth (cfg_Auth config)),
      cs_Schedule = through_any (json_schedule (cfg_Schedule config)),
      cs_JobType = (if cfg_JobType config = [] then JobTypeOnce else cfg_JobType config),
      cs_RespectRobotsTxt = cfg_RespectRobotsTxt config,
      cs_CrawlMode = cfg_CrawlMode config,
      cs_QueueWeights =
        (if 0 < length (cfg_QueueWeights config)
         then through_any (JArr (map json_weight (cfg_QueueWeights config))) else JArr [])\<rparr>"

text \<open>A column as the converter sees it after \<^verbatim>\<open>Scan\<close> and \<^verbatim>\<open>json.Marshal\<close>.\<close>

definition column :: "json \<Rightarrow> json option" where
  "column j = Some (through_any j)"

definition restore_config_row ::
  "(string \<Rightarrow> bool) \<Rightarrow> CrawlJobConfigSnapshot \<Rightarrow> CrawlJobConfig res" where
  "restore_config_row uuid_ok s =
     bind_res (wrap_err ''failed to parse ID'' (NewID uuid_ok (cs_ID s))) (\<lambda>i.
     bind_res (case cs_UserID s of None \<Rightarrow> Inr []
               | Some u \<Rightarrow> wrap_err ''failed to parse user id'' (NewUserID uuid_ok u)) (\<lambda>u.
     bind_res (wrap_err ''failed to unmarshal ExtractionSpec'' (read_spec (column (cs_ExtractionSpec s)))) (\<lambda>spec.
     bind_res (wrap_err ''failed to unmarshal Scopes'' (read_scopes (column (cs_Scopes s)))) (\<lambda>scopes.
     bind_res (wrap_err ''failed to unmarshal Seeds'' (read_list read_seed (column (cs_Seeds s)))) (\<lambda>seeds.
     bind_res (wrap_err ''failed to unmarshal RateLimit'' (read_rate (column (cs_RateLimit s)))) (\<lambda>rate.
     bind_res (wrap_err ''failed to unmarshal Retries'' (read_retries (column (cs_Retries s)))) (\<lambda>retries.
     bind_res (wrap_err ''failed to unmarshal Auth'' (read_auth (column (cs_Auth s)))) (\<lambda>auth.
     bind_res (wrap_err ''failed to unmarshal Schedule'' (read_schedule (column (cs_Schedule s)))) (\<lambda>schedule.
     bind_res (if cs_QueueWeights s \<noteq> JArr []
               then wrap_err ''failed to unmarshal QueueWeights'' (read_list read_weight (column (cs_QueueWeights s)))
               else Inr []) (\<lambda>weights.
       Inr \<lparr>cfg_ID = i, cfg_UserID = u, cfg_Name = cs_Name s, cfg_ExtractionSpec = spec, cfg_Scopes = scopes,
            cfg_Seeds = seeds, cfg_Rps = rate, cfg_Retries = retries, cfg_Auth = auth, cfg_Schedule = schedule,
            cfg_JobType = (if cs_JobType s \<noteq> [] then cs_JobType s else JobTypeOnce),
            cfg_RespectRobotsTxt = cs_RespectRobotsTxt s, cfg_CrawlMode = cs_CrawlMode s,
            cfg_QueueWeights = weights\<rparr>))))))))))"

section \<open>Numbers of 53 bits are kept\<close>

lemma bit_len_le: "n < 2 ^ k \<Longrightarrow> bit_len n \<le> k"
proof (induction k arbitrary: n)
  case 0
  then show ?case by (simp add: bit_len.simps)
next
  case (Suc k)
  then have "n div 2 < 2 ^ k" by auto
  then show ?case using Suc.IH [of "n div 2"] by (subst bit_len.simps) auto
qed

lemma bit_len_ge: "0 < n \<Longrightarrow> 2 ^ (bit_len n - 1) \<le> n"
proof (induction n rule: bit_len.induct)
  case (1 n)
  show ?case
  proof (cases "n div 2 = 0")
    case True
    then show ?thesis using 1(2) by (simp add: bit_len.simps [of n] bit_len.simps [of 0])
  next
    case False
    then have "2 ^ (bit_len (n div 2) - 1) \<le> n div 2" "bit_len (n div 2) \<noteq> 0"
      using 1 by (auto simp: bit_len.simps [of "n div 2"])
    then have "2 * 2 ^ (bit_len (n div 2) - 1) \<le> n" by auto
    then show ?thesis using \<open>bit_len (n div 2) \<noteq> 0\<close> 1(2)
      by (subst bit_len.simps) (auto simp flip: power_Suc)
  qed
qed

lemma bit_len_less: "n < 2 ^ bit_len n"
proof (induction n rule: bit_len.induct)
  case (1 n)
  then show ?case by (subst bit_len.simps) auto
qed

lemma round_small [simp]: "n < 2 ^ 53 \<Longrightarrow> round_float64 n = n"
  using bit_len_le [of n 53] by (simp add: round_float64_def)

text \<open>A number beyond 53 bits is not rounded below them.\<close>

lemma round_large:
  assumes "2 ^ 53 \<le> n"
  shows "2 ^ 53 \<le> round_float64 n"
proof -
  let ?p = "2 ^ (bit_len n - 53) :: nat"
  have n: "2 ^ (bit_len n - 1) \<le> n" using assms bit_len_ge by fastforce
  have "53 < bit_len n"
  proof (rule ccontr)
    assume "\<not> 53 < bit_len n"
    then have "n < 2 ^ 53" using bit_len_less [of n]
      by (meson not_less order_less_le_trans one_le_numeral power_increasing)
    then show False using assms by simp
  qed
  then have "bit_len n - 1 = bit_len n - 53 + 52" by simp
  then have p: "?p * 2 ^ 52 = 2 ^ (bit_len n - 1)" by (simp only: power_add)
  then have "2 ^ 52 * ?p \<le> n" using n by (simp only: mult.commute)
  then have "2 ^ 52 \<le> n div ?p" by (simp only: less_eq_div_iff_mult_less_eq zero_less_power zero_less_numeral)
  then have "2 ^ 52 * ?p \<le> round_float64 n" unfolding round_float64_def Let_def
    by (intro mult_right_mono) auto
  moreover have "(2::nat) ^ 53 \<le> 2 ^ (bit_len n - 1)" using \<open>53 < bit_len n\<close> by (intro power_increasing) auto
  ultimately show ?thesis using p by (simp only: mult.commute)
qed

lemma shortest_cases: "shortest_digits v = v \<or> round_float64 (shortest_digits v) = v"
proof -
  have "(case find P xs of Some c \<Rightarrow> c | None \<Rightarrow> v) = v \<or> P (case find P xs of Some c \<Rightarrow> c | None \<Rightarrow> v)"
    for P and xs :: "nat list"
    by (induction xs) auto
  then show ?thesis unfolding shortest_digits_def by fast
qed

lemma shortest_small [simp]:
  assumes "v < 2 ^ 53"
  shows "shortest_digits v = v"
proof -
  have "c = v" if "round_float64 c = v" for c
  proof (cases "c < 2 ^ 53")
    case True
    then show ?thesis using that by (simp only: round_small)
  next
    case False
    then have "2 ^ 53 \<le> round_float64 c" using round_large by (simp only: not_less)
    then show ?thesis using that assms by linarith
  qed
  then show ?thesis using shortest_cases by blast
qed

lemma round_shortest: "round_float64 v = v \<Longrightarrow> round_float64 (shortest_digits v) = v"
  using shortest_cases [of v] by auto

lemma float64_of_int_small [simp]: "\<bar>z\<bar> < 2 ^ 53 \<Longrightarrow> float64_of_int z = z"
proof -
  assume "\<bar>z\<bar> < 2 ^ 53"
  then have "nat \<bar>z\<bar> < 2 ^ 53" by (simp add: nat_less_iff)
  then show ?thesis unfolding float64_of_int_def by (simp only: round_small) (simp add: sgn_mult_abs)
qed

text \<open>An integral float has 53 significant bits.\<close>

definition float64_value :: "rat \<Rightarrow> bool" where
  "float64_value x \<longleftrightarrow> (of_int \<lfloor>x\<rfloor> = x \<longrightarrow> float64_of_int \<lfloor>x\<rfloor> = \<lfloor>x\<rfloor>)"

lemma printed_digits:
  assumes "float64_of_int z = z"
  shows "float64_of_int (sgn z * int (shortest_digits (nat \<bar>z\<bar>))) = z"
proof (cases "z = 0")
  case False
  let ?v = "nat \<bar>z\<bar>"
  have "round_float64 ?v = ?v" using assms False by (auto simp: float64_of_int_def sgn_if abs_if split: if_splits)
  then have r: "round_float64 (shortest_digits ?v) = ?v" by (rule round_shortest)
  have "shortest_digits ?v \<noteq> 0"
  proof
    assume "shortest_digits ?v = 0"
    then show False using r False round_small [of 0] by simp
  qed
  then show ?thesis using r False by (auto simp: float64_of_int_def sgn_if)
qed (simp add: float64_of_int_def)

lemma read_printed: "float64_value x \<Longrightarrow> read_float (Some (print_float x)) = Inr x"
  using printed_digits [of "\<lfloor>x\<rfloor>"] by (auto simp: read_float_def print_float_def float64_value_def)

lemma print_stable: "float64_value x \<Longrightarrow> through_any (print_float x) = print_float x"
  using printed_digits [of "\<lfloor>x\<rfloor>"] by (auto simp: print_float_def float64_value_def)

lemma through_int: "\<bar>z\<bar> < 2 ^ 53 \<Longrightarrow> through_any (JInt z) = JInt z"
proof -
  assume z: "\<bar>z\<bar> < 2 ^ 53"
  then have "\<bar>rat_of_int z\<bar> < 10 ^ 21" "nat \<bar>z\<bar> < 2 ^ 53"
    by (simp_all flip: of_int_abs add: nat_less_iff)
  then show ?thesis using z by (simp add: print_float_def sgn_mult_abs)
qed

section \<open>The columns implement the converters\<close>

lemma stored_simps [simp]:
  "stored JNull = JNull" "stored (JBool b) = JBool b" "stored (JString t) = JString t" "stored (JTime d) = JTime d"
  "stored JOther = JOther" "stored (JArr xs) = JArr (map stored xs)"
  "stored (JObj kvs) = JObj (map (map_prod id stored) kvs)"
  by (auto simp: stored_def)

lemma stored_int [simp]: "\<bar>z\<bar> < 2 ^ 53 \<Longrightarrow> stored (JInt z) = JInt z"
  by (simp only: stored_def through_int)

lemma stored_float [simp]: "float64_value x \<Longrightarrow> stored (print_float x) = print_float x"
  by (simp add: stored_def print_stable)

text \<open>
  What a column promises: a value that fits is read back as it was written.  Lists of such values are
  columns again.
\<close>

locale json_column =
  fixes enc :: "'a \<Rightarrow> json" and dec :: "json option \<Rightarrow> 'a res" and fits :: "'a \<Rightarrow> bool"
  assumes restored: "fits x \<Longrightarrow> dec (Some (stored (enc x))) = Inr x"
begin

lemma list_restored: "\<forall>x \<in> set xs. fits x \<Longrightarrow> read_list dec (Some (stored (JArr (map enc xs)))) = Inr xs"
  by (induction xs) (auto simp: read_list_def restored)

lemma list_restored_map:
  "\<forall>x \<in> set xs. fits x \<Longrightarrow> read_list dec (Some (JArr (map (stored \<circ> enc) xs))) = Inr xs"
  using list_restored by simp

end

interpretation str: json_column JString read_string "\<lambda>_. True"
  by unfold_locales (simp add: read_string_def)

interpretation uint64: json_column json_uint "read_uint 64 :: _ \<Rightarrow> u64 res" "\<lambda>w. uint w < 2 ^ 53"
  by unfold_locales (simp add: json_uint_def read_uint_def)

interpretation float: json_column print_float read_float float64_value
  by unfold_locales (simp add: read_printed)

interpretation seed: json_column json_seed read_seed "\<lambda>_. True"
  by unfold_locales (simp add: json_seed_def read_seed_def read_struct_def read_string_def)

interpretation page: json_column json_page read_page "\<lambda>_. True"
  by unfold_locales (simp add: json_page_def read_page_def read_struct_def read_string_def read_bool_def unless_def)

definition extractor_fits :: "ExtractorSpec \<Rightarrow> bool" where
  "extractor_fits e \<longleftrightarrow> (case ex_Index e of None \<Rightarrow> True | Some i \<Rightarrow> \<bar>i\<bar> < 2 ^ 53)"

interpretation extractor: json_column json_extractor read_extractor extractor_fits
  by unfold_locales
    (auto simp: extractor_fits_def json_extractor_def read_extractor_def read_struct_def read_string_def
      read_bool_def read_index_def unless_def split: option.splits)

interpretation weight: json_column json_weight read_weight "\<lambda>_. True"
proof (unfold_locales)
  fix w :: QueueWeight
  have "uint (qw_Weight w) < 2 ^ 32" using uint_lt2p [of "qw_Weight w"] by simp
  then show "read_weight (Some (stored (json_weight w))) = Inr w"
    by (simp add: json_weight_def read_weight_def read_struct_def read_string_def read_uint_def json_uint_def)
qed

text \<open>Arguments of transforms that come from JSON, as those of a request do.\<close>

definition arg_fits :: "transform_arg \<Rightarrow> bool" where
  "arg_fits a = (case a of ArgFloat x \<Rightarrow> float64_value x | ArgNone \<Rightarrow> True | ArgString _ \<Rightarrow> True | ArgOther \<Rightarrow> True
     | _ \<Rightarrow> False)"

lemma read_any_printed: "float64_value x \<Longrightarrow> read_any (Some (print_float x)) = ArgFloat x"
  using printed_digits [of "\<lfloor>x\<rfloor>"] by (auto simp: read_any_def print_float_def float64_value_def)

lemma arg_restored: "arg_fits a \<Longrightarrow> read_any (Some (stored (json_arg parse a))) = a"
  by (auto simp: arg_fits_def json_arg_def read_any_printed split: transform_arg.splits) (auto simp: read_any_def)

interpretation transform: json_column "json_transform parse" read_transform "\<lambda>t. arg_fits (tr_Arg t)" for parse
  by unfold_locales (simp add: json_transform_def read_transform_def read_struct_def read_string_def arg_restored)

definition field_fits :: "FieldSpec \<Rightarrow> bool" where
  "field_fits f \<longleftrightarrow> extractor_fits (fs_Extractor f) \<and> (\<forall>t \<in> set (fs_Transforms f). arg_fits (tr_Arg t))"

interpretation field: json_column "json_field parse" read_field field_fits for parse
  by unfold_locales
    (simp add: json_field_def read_field_def read_struct_def read_string_def read_bool_def field_fits_def
      extractor.restored transform.list_restored_map)

definition spec_fits :: "ExtractionSpec \<Rightarrow> bool" where
  "spec_fits s \<longleftrightarrow> (\<forall>f \<in> set (spec_Fields s). field_fits f) \<and>
     (case spec_Items s of None \<Rightarrow> True | Some i \<Rightarrow> \<forall>f \<in> set (items_Fields i). field_fits f)"

interpretation spec: json_column "json_spec parse" read_spec spec_fits for parse
  by unfold_locales
    (auto simp: json_spec_def read_spec_def read_struct_def read_string_def spec_fits_def json_items_def
      read_items_def field.list_restored_map page.list_restored_map split: option.splits)

interpretation scopes: json_column json_scopes read_scopes "\<lambda>s. uint (MaxDepth s) < 2 ^ 53"
  by unfold_locales
    (simp add: json_scopes_def read_scopes_def read_struct_def uint64.restored str.list_restored_map [simplified])

interpretation rate: json_column json_rate read_rate float64_value
  by unfold_locales (simp add: json_rate_def read_rate_def read_struct_def read_printed)

definition retries_fit :: "RetryPolicy \<Rightarrow> bool" where
  "retries_fit r \<longleftrightarrow> uint (MaxAttempts r) < 2 ^ 53 \<and> uint (BackoffInitialMs r) < 2 ^ 53 \<and>
     float64_value (BackoffMultiplier r)"

interpretation retries: json_column json_retries read_retries retries_fit
  by unfold_locales
    (simp add: json_retries_def read_retries_def read_struct_def retries_fit_def uint64.restored read_printed)

interpretation auth: json_column json_auth read_auth "\<lambda>_. True"
  by unfold_locales (simp add: json_auth_def read_auth_def read_struct_def read_string_def)

interpretation schedule: json_column json_schedule read_schedule "\<lambda>_. True"
  by unfold_locales
    (auto simp: json_schedule_def read_schedule_def read_struct_def read_string_def read_time_def json_time_def
      split: option.splits)

text \<open>A configuration whose numbers are kept by the columns.\<close>

definition config_fits :: "CrawlJobConfig \<Rightarrow> bool" where
  "config_fits c \<longleftrightarrow> spec_fits (cfg_ExtractionSpec c) \<and> uint (MaxDepth (cfg_Scopes c)) < 2 ^ 53 \<and>
     float64_value (cfg_Rps c) \<and> retries_fit (cfg_Retries c)"

lemma column_through [simp]: "column (through_any j) = Some (stored j)"
  by (simp add: column_def stored_def)

lemma weights_column:
  "(if (if 0 < length ws then through_any (JArr (map json_weight ws)) else JArr []) \<noteq> JArr []
    then wrap_err e (read_list read_weight (column (if 0 < length ws then through_any (JArr (map json_weight ws)) else JArr [])))
    else Inr []) = Inr ws"
  using weight.list_restored [of ws] by (cases ws) (auto simp: column_def stored_def comp_def)

lemma saved_row_restored:
  assumes "config_fits config"
  shows "restore_config_row uuid_ok (save_config_row parse config) =
     RestoreCrawlJobConfigFromSnapshot uuid_ok (SaveCrawlJobConfigToSnapshot config)"
proof -
  note fits = assms [unfolded config_fits_def]
  note restored = spec.restored scopes.restored rate.restored retries.restored auth.restored schedule.restored
    seed.list_restored_map [simplified]
  show ?thesis
    unfolding restore_config_row_def save_config_row_def CrawlJobConfigSnapshot.simps weights_column column_through
    using fits
    by (cases config) (auto simp: restored RestoreCrawlJobConfigFromSnapshot_def SaveCrawlJobConfigToSnapshot_def ID_IsEmpty_def
        bind_res_def wrap_err_def split: sum.splits)
qed

text \<open>
  C22. The JSON columns lose nothing.  A configuration written to its row and read back through the
  untyped values of the snapshot, the text in the database and the typed structs is what the
  converters that keep the values give, errors of the identifiers included, as long as its integers
  have at most 53 bits.
\<close>

theorem columns_implement_converters:
  assumes "config_fits config"
  shows "restore_config_row uuid_ok (save_config_row parse config) =
     RestoreCrawlJobConfigFromSnapshot uuid_ok (SaveCrawlJobConfigToSnapshot config)"
  using assms by (rule saved_row_restored)

definition sample_fits :: CrawlJobConfig where
  "sample_fits = (sample_config ''c1'')\<lparr>cfg_ExtractionSpec :=
     \<lparr>spec_Fields =
        [\<lparr>fs_Name = ''title'', fs_Type = ''string'', fs_Required = True,
          fs_Extractor = \<lparr>ex_Selector = ''h1'', ex_Attribute = [], ex_Multiple = True, ex_Index = Some (- 1)\<rparr>,
          fs_Transforms = [\<lparr>tr_Op = ''limit'', tr_Arg = ArgFloat 3\<rparr>, \<lparr>tr_Op = ''trim'', tr_Arg = ArgNone\<rparr>]\<rparr>],
      spec_Pagination = [\<lparr>pg_Name = [], pg_Selector = ''a.next'', pg_Attribute = [], pg_Multiple = False\<rparr>],
      spec_Items = None\<rparr>, cfg_Rps := 1 / 2\<rparr>"

theorem columns_implement_converters_witness:
  "restore_config_row (\<lambda>_. True) (save_config_row (\<lambda>_. 0) sample_fits) = Inr sample_fits"
proof -
  have "config_fits sample_fits" by code_simp
  from columns_implement_converters [OF this]
  have "restore_config_row (\<lambda>_. True) (save_config_row (\<lambda>_. 0) sample_fits) =
     RestoreCrawlJobConfigFromSnapshot (\<lambda>_. True) (SaveCrawlJobConfigToSnapshot sample_fits)" .
  also have "\<dots> = Inr sample_fits" by code_simp
  finally show ?thesis .
qed

lemma round_top:
  assumes "2 ^ 64 - 1024 \<le> n" and "n < 2 ^ 64"
  shows "round_float64 n = 2 ^ 64"
proof -
  have "\<not> bit_len n \<le> 63"
  proof
    assume "bit_len n \<le> 63"
    then have "(2::nat) ^ bit_len n \<le> 2 ^ 63" by (intro power_increasing) auto
    then show False using bit_len_less [of n] assms(1) by simp
  qed
  then have "bit_len n = 64" using bit_len_le [OF assms(2)] by linarith
  moreover have q: "n div 2 ^ 11 = 2 ^ 53 - 1" by (rule div_nat_eqI) (use assms in simp_all)
  moreover have "1024 \<le> n mod 2 ^ 11" using assms(1) div_mult_mod_eq [of n "2 ^ 11"] unfolding q by simp
  ultimately show ?thesis by (auto simp: round_float64_def Let_def)
qed

lemma len_numeral:
  "bit_len (numeral k) = Suc (bit_len (numeral k div 2))" "bit_len 0 = 0" "bit_len (Suc 0) = 1"
  "dec_len (numeral k) = (if numeral k < (10 :: nat) then 1 else Suc (dec_len (numeral k div 10)))"
  "dec_len (Suc 0) = 1"
  by (simp_all add: bit_len.simps [of "numeral k"] dec_len.simps [of "numeral k"] bit_len.simps [of 0]
      bit_len.simps [of "Suc 0"] dec_len.simps [of "Suc 0"])

lemma shortest_top: "shortest_digits 18446744073709551616 = 18446744073709552000"
proof -
  have d: "dec_len 18446744073709551616 = 20" by (simp add: len_numeral)
  have u: "[1..<20] = [1, 2, 3, 4, 5, 6, 7, 8, 9, 10, 11, 12, 13, 14, 15, 16, 17, 18, 19]" by code_simp
  show ?thesis unfolding shortest_digits_def decimals_around_def d u
    by (simp add: round_float64_def len_numeral)
qed

lemma round_shortest_top: "round_float64 18446744073709552000 = 18446744073709551616"
  by (simp add: round_float64_def len_numeral)

text \<open>
  A configuration that can be written and not read.  Whatever else it says, a configuration with
  a maximal depth within 1024 of the largest \<^verbatim>\<open>uint64\<close> is written to its row, but every attempt to read
  the row fails: the number is rounded up to \<open>2 ^ 64\<close>, which does not fit the field.
\<close>

theorem unlimited_depth_unreadable:
  assumes "2 ^ 64 - 1024 \<le> unat (MaxDepth (cfg_Scopes config))"
  shows "\<exists>e. restore_config_row uuid_ok (save_config_row parse config) = Inl e"
proof -
  let ?n = "unat (MaxDepth (cfg_Scopes config))"
  have "?n < 2 ^ 64" using unsigned_less [of "MaxDepth (cfg_Scopes config)"] by simp
  from round_top [OF assms this] have r1: "round_float64 ?n = 2 ^ 64" .
  have pos: "0 < uint (MaxDepth (cfg_Scopes config))" using assms by (simp flip: nat_uint_eq)
  from r1 have r: "float64_of_int (uint (MaxDepth (cfg_Scopes config))) = 2 ^ 64"
    using pos by (auto simp: float64_of_int_def sgn_if split: if_splits)
  have "through_any (json_uint (MaxDepth (cfg_Scopes config))) = JInt 18446744073709552000"
    using shortest_top by (simp add: json_uint_def r print_float_def)
  moreover have "through_any (JInt 18446744073709552000) = JInt 18446744073709552000"
    by (simp add: float64_of_int_def print_float_def shortest_top round_shortest_top)
  ultimately have "stored (json_uint (MaxDepth (cfg_Scopes config))) = JInt 18446744073709552000"
    by (simp add: stored_def)
  then have "\<exists>e. read_scopes (Some (stored (json_scopes (cfg_Scopes config)))) = Inl e"
    by (simp add: json_scopes_def read_scopes_def read_struct_def read_uint_def)
  then show ?thesis
    by (auto simp: restore_config_row_def save_config_row_def bind_res_def wrap_err_def split: sum.splits)
qed

theorem unlimited_depth_unreadable_witness:
  "\<exists>e. restore_config_row (\<lambda>_. True) (save_config_row (\<lambda>_. 0)
     (sample_fits\<lparr>cfg_Scopes := (cfg_Scopes sample_fits)\<lparr>MaxDepth := - 1\<rparr>\<rparr>)) = Inl e"
  by (rule unlimited_depth_unreadable) (simp add: unsigned_minus_1_eq_mask mask_eq_exp_minus_1)

text \<open>Beyond 53 bits a number is changed without notice: a depth limit of \<open>2 ^ 53 + 1\<close> is read back as \<open>2 ^ 53\<close>.\<close>

lemma long_depth_changes:
  "read_uint 64 (Some (stored (json_uint (9007199254740993 :: u64)))) = Inr (9007199254740992 :: u64)"
proof -
  have d: "dec_len 9007199254740992 = 16" by (simp add: len_numeral)
  have u: "[1..<16] = [1, 2, 3, 4, 5, 6, 7, 8, 9, 10, 11, 12, 13, 14, 15]" by code_simp
  have v: "shortest_digits 9007199254740992 = 9007199254740992"
    unfolding shortest_digits_def decimals_around_def d u by (simp add: round_float64_def len_numeral)
  have "round_float64 9007199254740993 = 9007199254740992" "round_float64 9007199254740992 = 9007199254740992"
    by (simp_all add: round_float64_def len_numeral)
  then show ?thesis using v
    by (simp add: stored_def json_uint_def float64_of_int_def print_float_def read_uint_def)
qed

end
