(* ===== verification/Job_Reading.thy ===== *)
theory Job_Reading
  imports Job_API Config_JSON
begin

text \<open>
  Reading a job through the JSON columns of its configuration: \<open>Job_API\<close> over \<open>Config_JSON\<close>.  The tables of
  \<open>Database_Model\<close> hold the values of a configuration; here a row of them is read as the repository
  reads it, from the columns that \<^verbatim>\<open>SaveCrawlJobConfigToSnapshot\<close> wrote, with the rounding of their numbers.
  \<open>parse\<close> is the value of a number in the text of a transform's argument.
\<close>

section \<open>Model\<close>

definition RestoreCrawlJobFromColumns ::
  "(string \<Rightarrow> rat) \<Rightarrow> (string \<Rightarrow> bool) \<Rightarrow> CrawlJobSnapshot \<Rightarrow> CrawlJobConfig option \<Rightarrow> CrawlJob res" where
  "RestoreCrawlJobFromColumns parse uuid_ok s cfg =
     bind_res (NewCrawlJobID uuid_ok (js_ID s)) (\<lambda>i.
     bind_res (case js_JobConfigID s of None \<Rightarrow> Inr [] | Some c \<Rightarrow> NewID uuid_ok c) (\<lambda>c.
     bind_res (case js_UserID s of None \<Rightarrow> Inr [] | Some u \<Rightarrow> NewUserID uuid_ok u) (\<lambda>u.
     bind_res (case cfg of None \<Rightarrow> Inr None
               | Some row \<Rightarrow> bind_res (restore_config_row uuid_ok (save_config_row parse row)) (\<lambda>r. Inr (Some r))) (\<lambda>jc.
       Inr \<lparr>job_ID = i, job_JobConfigID = c, job_JobConfig = jc, job_UserID = u, job_Name = js_Name s,
            job_Status = js_Status s, job_CreatedAt = js_CreatedAt s, job_CompletedAt = js_CompletedAt s,
            job_ExportJSONKey = js_ExportJSONKey s, job_ExportCSVKey = js_ExportCSVKey s,
            job_ExportedAt = js_ExportedAt s,
            job_ExportStatus = (case js_ExportStatus s of None \<Rightarrow> ExportStatusNotStarted | Some e \<Rightarrow> e)\<rparr>))))"

definition job_Get_columns :: "(string \<Rightarrow> rat) \<Rightarrow> (string \<Rightarrow> bool) \<Rightarrow> CrawlJobID \<Rightarrow> DB \<Rightarrow> CrawlJob res" where
  "job_Get_columns parse uuid_ok i db =
     (case find_job db i of
        None \<Rightarrow> Inl ErrNoRows
      | Some j \<Rightarrow> bind_res (scanCrawlJobWithConfig db j) (\<lambda>(j, c). RestoreCrawlJobFromColumns parse uuid_ok j c))"

definition GetCrawlJob_columns :: "(string \<Rightarrow> rat) \<Rightarrow> (string \<Rightarrow> bool) \<Rightarrow> gerr option \<Rightarrow> string \<Rightarrow> DB \<Rightarrow> CrawlJob res" where
  "GetCrawlJob_columns parse uuid_ok fail jobID db =
     bind_res (NewCrawlJobID uuid_ok jobID) (\<lambda>i. db_read fail (job_Get_columns parse uuid_ok i) db)"

definition api_GetJob_columns ::
  "json_lib \<Rightarrow> (string \<Rightarrow> rat) \<Rightarrow> (gerr \<Rightarrow> bool) \<Rightarrow> (string \<Rightarrow> bool) \<Rightarrow> gerr option \<Rightarrow> string \<Rightarrow> DB \<Rightarrow>
   api_error + pb_CrawlJob option" where
  "api_GetJob_columns lib parse is_sql uuid_ok fail jobID db =
     (case GetCrawlJob_columns parse uuid_ok fail jobID db of
        Inl e \<Rightarrow> Inl (if is_sql e then StatusError NotFound ''job not found'' else PlainError e)
      | Inr job \<Rightarrow> Inr (ToProtoCrawlJob lib (Some job)))"

section \<open>Reading what was created\<close>

text \<open>A row whose numbers fit its columns is restored with the values it was saved from.\<close>

lemma row_restored:
  assumes "config_fits c" and "cfg_JobType c \<noteq> []"
  shows "restore_config_row uuid_ok (save_config_row parse c) = RestoreCrawlJobConfigFromSnapshot uuid_ok c"
  using saved_row_restored [OF assms(1)] assms(2) by (simp add: SaveCrawlJobConfigToSnapshot_def)

lemma GetJob_columns_eq:
  assumes j: "find_job db i = Some j" and c: "js_JobConfigID j = Some k" "find_config db k = Some c"
    and fits: "config_fits c" "cfg_JobType c \<noteq> []"
  shows "api_GetJob_columns lib parse is_sql uuid_ok fail i db = api_GetJob lib is_sql uuid_ok fail i db"
proof -
  have "job_Get_columns parse uuid_ok i db = job_Get uuid_ok i db"
    using j c row_restored [OF fits]
    by (simp add: job_Get_columns_def job_Get_def scanCrawlJobWithConfig_def RestoreCrawlJobFromColumns_def RestoreCrawlJobFromSnapshot_def)
  then show ?thesis
    by (auto simp: api_GetJob_columns_def api_GetJob_def GetCrawlJob_columns_def GetCrawlJob_def bind_res_def db_read_def
        NewTypedID_eq split: sum.splits option.splits dest: NewID_InrD)
qed

text \<open>The row of a created job's configuration has the numbers of the request.\<close>

lemma created_config:
  assumes inv: "db_inv db" and create: "api_CreateJob lib env ctx (Some config) db = (Inr jid, db')"
  shows "\<exists>j c. find_job db' jid = Some j \<and> js_JobConfigID j = Some (je_configID env) \<and>
     find_config db' (je_configID env) = Some c \<and> cfg_JobType c \<noteq> [] \<and>
     cfg_ExtractionSpec c = cfg_ExtractionSpec (FromProtoCrawlJobConfig lib (Some config)) \<and>
     MaxDepth (cfg_Scopes c) = MaxDepth (cfg_Scopes (FromProtoCrawlJobConfig lib (Some config))) \<and>
     cfg_Rps c = cfg_Rps (FromProtoCrawlJobConfig lib (Some config)) \<and>
     cfg_Retries c = cfg_Retries (FromProtoCrawlJobConfig lib (Some config)) \<and>
     valid_id (je_uuid_ok env) jid \<and> cfg_ID c = je_configID env \<and> je_configID env \<noteq> []"
proof -
  obtain user where c: "CreateCrawlJob env user (FromProtoCrawlJobConfig lib (Some config)) db = (Inr jid, db')"
    using create by (auto simp: api_CreateJob_def split: option.splits if_splits prod.splits sum.splits)
  then have b: "create_body env (submitted_config env user (FromProtoCrawlJobConfig lib (Some config))) db = (Returns (Inr jid), db')"
    by (simp add: CreateCrawlJob_eq)
  have "je_configID env \<noteq> []" "valid_id (je_uuid_ok env) jid"
    using create_body_ids [OF b] create_body_done [OF inv b] by (simp_all add: valid_id_def)
  then show ?thesis using created_rows [OF inv c]
    by (simp add: SaveCrawlJobToSnapshot_def new_job_def SaveCrawlJobConfigToSnapshot_def submitted_config_def status_defs ID_IsEmpty_def)
qed

text \<open>
  C7. A created job can be read, and reads as it was submitted.  After a successful \<^verbatim>\<open>CreateJob\<close> of a
  configuration whose numbers the JSON columns keep (integers below \<open>2 ^ 53\<close>, fractions that are \<^verbatim>\<open>float64\<close> values)
  the call \<^verbatim>\<open>GetJob\<close> with the returned identifier reads the columns and answers with the job, in progress, not
  exported and owned by the caller; its configuration, read as the configuration of a request, is the
  submitted one with the allowed patterns trimmed.
\<close>

theorem created_job_reads_back:
  assumes inv: "db_inv db" and law: "json_law lib" and fits: "config_fits (FromProtoCrawlJobConfig lib (Some config))"
    and create: "api_CreateJob lib env ctx (Some config) db = (Inr jid, db')"
  shows "\<exists>job c. api_GetJob_columns lib parse is_sql (je_uuid_ok env) None jid db' = Inr (Some job) \<and>
     pbj_Id job = jid \<and> pbj_UserId job = rc_user_id ctx \<and> pbj_Status job = TaskStatusInProgress \<and>
     pbj_CompletedAt job = None \<and> pbj_ExportStatus job = ExportStatusNotStarted \<and>
     pbj_JobConfig job = Some c \<and> pbc_Id c = pbj_JobConfigId job \<and> pbc_Name c = pbc_Name config \<and>
     FromProtoCrawlJobConfig lib (Some c) = trimmed (FromProtoCrawlJobConfig lib (Some config))"
proof -
  obtain j c where r: "find_job db' jid = Some j" "js_JobConfigID j = Some (je_configID env)" "find_config db' (je_configID env) = Some c"
    "cfg_JobType c \<noteq> []" and same: "cfg_ExtractionSpec c = cfg_ExtractionSpec (FromProtoCrawlJobConfig lib (Some config))"
    "MaxDepth (cfg_Scopes c) = MaxDepth (cfg_Scopes (FromProtoCrawlJobConfig lib (Some config)))"
    "cfg_Rps c = cfg_Rps (FromProtoCrawlJobConfig lib (Some config))"
    "cfg_Retries c = cfg_Retries (FromProtoCrawlJobConfig lib (Some config))"
    using created_config [OF inv create] by blast
  have "config_fits c" using fits unfolding config_fits_def same .
  from GetJob_columns_eq [OF r(1-3) this r(4)] show ?thesis using created_job_values [OF inv law create] by simp
qed

lemma sample_message_fits: "config_fits (FromProtoCrawlJobConfig sample_lib (Some sample_message))"
  by code_simp

theorem created_job_reads_back_witness:
  "\<exists>db' job. api_CreateJob sample_lib sample_job_env sample_ctx (Some sample_message) sample_db = (Inr ''j2'', db') \<and>
     api_GetJob_columns sample_lib (\<lambda>_. 0) (\<lambda>_. False) (je_uuid_ok sample_job_env) None ''j2'' db' = Inr (Some job) \<and>
     FromProtoCrawlJobConfig sample_lib (pbj_JobConfig job) = trimmed (FromProtoCrawlJobConfig sample_lib (Some sample_message))"
proof -
  obtain db' where c: "api_CreateJob sample_lib sample_job_env sample_ctx (Some sample_message) sample_db = (Inr ''j2'', db')"
    using sample_message_created by blast
  show ?thesis
    using created_job_reads_back [OF sample_db_inv sample_lib_law sample_message_fits c, of "\<lambda>_. 0" "\<lambda>_. False"] c by auto
qed

text \<open>
  C8. An accepted job that cannot be read.  When the maximal depth of the configuration is within 1024 of the
  largest \<^verbatim>\<open>uint64\<close>, the way a client may say that the depth is not limited, \<^verbatim>\<open>CreateJob\<close> succeeds as for any other
  depth, and every later \<^verbatim>\<open>GetJob\<close> of the job answers with an error, whatever the rest of the configuration is.
\<close>

theorem created_job_unreadable:
  assumes inv: "db_inv db" and deep: "2 ^ 64 - 1024 \<le> unat (MaxDepth (cfg_Scopes (FromProtoCrawlJobConfig lib (Some config))))"
    and create: "api_CreateJob lib env ctx (Some config) db = (Inr jid, db')"
  shows "\<exists>e. api_GetJob_columns lib parse is_sql (je_uuid_ok env) None jid db' = Inl e"
proof -
  obtain j c where r: "find_job db' jid = Some j" "js_JobConfigID j = Some (je_configID env)" "find_config db' (je_configID env) = Some c"
    and c: "MaxDepth (cfg_Scopes c) = MaxDepth (cfg_Scopes (FromProtoCrawlJobConfig lib (Some config)))"
    and ids: "valid_id (je_uuid_ok env) jid" "cfg_ID c = je_configID env" "je_configID env \<noteq> []"
    using created_config [OF inv create] by blast
  obtain e where "restore_config_row (je_uuid_ok env) (save_config_row parse c) = Inl e"
    using unlimited_depth_unreadable [of c] deep c by auto
  then have "\<exists>e. job_Get_columns parse (je_uuid_ok env) jid db' = Inl e"
    using r ids by (auto simp: job_Get_columns_def scanCrawlJobWithConfig_def RestoreCrawlJobFromColumns_def bind_res_def split: sum.splits)
  then show ?thesis using ids by (auto simp: api_GetJob_columns_def GetCrawlJob_columns_def NewTypedID_eq db_read_def)
qed

definition deep_message :: pb_CrawlJobConfig where
  "deep_message = sample_message\<lparr>pbc_Scopes := Some \<lparr>pbs_MaxDepth = - 1, pbs_AllowedDomains = [], pbs_DenyUrlPatterns = [],
     pbs_AllowedUrlPatterns = []\<rparr>\<rparr>"

theorem created_job_unreadable_witness:
  "\<exists>db' e. api_CreateJob sample_lib sample_job_env sample_ctx (Some deep_message) sample_db = (Inr ''j2'', db') \<and>
     api_GetJob_columns sample_lib (\<lambda>_. 0) (\<lambda>_. False) (je_uuid_ok sample_job_env) None ''j2'' db' = Inl e"
proof -
  have "fst (api_CreateJob sample_lib sample_job_env sample_ctx (Some deep_message) sample_db) = Inr ''j2''" by code_simp
  then obtain db' where c: "api_CreateJob sample_lib sample_job_env sample_ctx (Some deep_message) sample_db = (Inr ''j2'', db')"
    by (metis prod.collapse)
  have "2 ^ 64 - 1024 \<le> unat (MaxDepth (cfg_Scopes (FromProtoCrawlJobConfig sample_lib (Some deep_message))))"
    by (simp add: deep_message_def FromProtoCrawlJobConfig_def FromProtoScopeRules_def unsigned_minus_1_eq_mask mask_eq_exp_minus_1)
  from created_job_unreadable [OF sample_db_inv this c, of "\<lambda>_. 0" "\<lambda>_. False"] show ?thesis using c by blast
qed

end
