(* ===== verification/Worker_Registry.thy ===== *)
theory Worker_Registry
  imports Access_Control "HOL-Library.Multiset"
begin

text \<open>
  The registry of workers of \<^verbatim>\<open>internal/workerhealth\<close> and the handlers of \<^verbatim>\<open>api/worker\<close>.
  The three maps of the registry are maps; channels are objects that the registry and the streams
  share, so they live in a heap: a channel is its index there, its buffer and whether it is closed.
  Sending on a closed channel and closing one twice panic, as in Go.  Every operation holds the
  registry's mutex, so a history of the registry is a sequence of operations.
\<close>

section \<open>Model\<close>

type_synonym WorkerStatus = string
type_synonym CommandType = string

definition StatusUnknown :: WorkerStatus where [status_defs]: "StatusUnknown = ''UNKNOWN''"
definition StatusActive :: WorkerStatus where [status_defs]: "StatusActive = ''ACTIVE''"
definition StatusInactive :: WorkerStatus where [status_defs]: "StatusInactive = ''INACTIVE''"
definition StatusDraining :: WorkerStatus where [status_defs]: "StatusDraining = ''DRAINING''"
definition StatusDead :: WorkerStatus where [status_defs]: "StatusDead = ''DEAD''"

definition CommandDrain :: CommandType where [status_defs]: "CommandDrain = ''DRAIN''"
definition CommandForceKill :: CommandType where [status_defs]: "CommandForceKill = ''FORCE_KILL''"

record HeartbeatInfo =
  hb_WorkerID :: string
  hb_WorkerType :: string
  hb_Status :: WorkerStatus
  hb_Timestamp :: time
  hb_StartedAt :: time

record WorkerRecord =
  wr_WorkerID :: string
  wr_WorkerType :: string
  wr_Status :: WorkerStatus
  wr_LastHeartbeatAt :: time
  wr_StartedAt :: time
  wr_LastStatusAt :: time

record Command =
  cmd_Type :: CommandType
  cmd_Reason :: string
  cmd_IssuedAt :: time

record command_chan =
  ch_worker :: string
  ch_buffer :: "Command list"
  ch_closed :: bool

record Registry =
  rg_workers :: "string \<Rightarrow> WorkerRecord option"
  rg_streams :: "string \<Rightarrow> nat option"
  rg_pending :: "string \<Rightarrow> Command list option"
  rg_chans :: "command_chan list"
  rg_inactiveThreshold :: duration
  rg_cleanupDelay :: duration

definition NewRegistry :: "duration \<Rightarrow> duration \<Rightarrow> Registry" where
  "NewRegistry inactiveThreshold cleanupDelay =
     \<lparr>rg_workers = Map.empty, rg_streams = Map.empty, rg_pending = Map.empty, rg_chans = [],
      rg_inactiveThreshold = inactiveThreshold, rg_cleanupDelay = cleanupDelay\<rparr>"

definition normalizeStatus :: "WorkerStatus \<Rightarrow> WorkerStatus" where
  "normalizeStatus status =
     (if status \<in> {StatusActive, StatusInactive, StatusDraining, StatusDead} then status else StatusUnknown)"

definition safeTime :: "time \<Rightarrow> time \<Rightarrow> time" where
  "safeTime t fallback = (if \<not> IsZero t then t else fallback)"

definition firstNonEmpty :: "string \<Rightarrow> string \<Rightarrow> string" where
  "firstNonEmpty value fallback = (if value \<noteq> [] then value else fallback)"

definition uptimeFor :: "WorkerRecord \<Rightarrow> time \<Rightarrow> duration" where
  "uptimeFor worker now =
     (if IsZero (wr_StartedAt worker) then 0
      else if now < wr_StartedAt worker then 0
      else if (wr_Status worker = StatusInactive \<or> wr_Status worker = StatusDead) \<and>
              \<not> IsZero (wr_LastHeartbeatAt worker) \<and> wr_StartedAt worker < wr_LastHeartbeatAt worker
      then time_Sub (wr_LastHeartbeatAt worker) (wr_StartedAt worker)
      else time_Sub now (wr_StartedAt worker))"

subsection \<open>Channels\<close>

definition make_chan :: "string \<Rightarrow> Registry \<Rightarrow> nat \<times> Registry" where
  "make_chan w r = (length (rg_chans r), r\<lparr>rg_chans := rg_chans r @ [\<lparr>ch_worker = w, ch_buffer = [], ch_closed = False\<rparr>]\<rparr>)"

definition close_chan :: "nat \<Rightarrow> Registry \<Rightarrow> Registry outcome" where
  "close_chan c r =
     (if ch_closed (rg_chans r ! c) then Panics
      else Returns (r\<lparr>rg_chans := (rg_chans r)[c := (rg_chans r ! c)\<lparr>ch_closed := True\<rparr>]\<rparr>))"

text \<open>\<^verbatim>\<open>select { case ch <- cmd: ... default: ... }\<close> on a channel of capacity eight.\<close>

definition try_send :: "nat \<Rightarrow> Command \<Rightarrow> Registry \<Rightarrow> (bool \<times> Registry) outcome" where
  "try_send c cmd r =
     (let ch = rg_chans r ! c
      in if ch_closed ch then Panics
         else if length (ch_buffer ch) < 8
         then Returns (True, r\<lparr>rg_chans := (rg_chans r)[c := ch\<lparr>ch_buffer := ch_buffer ch @ [cmd]\<rparr>]\<rparr>)
         else Returns (False, r))"

subsection \<open>Operations\<close>

definition mark_inactive :: "duration \<Rightarrow> time \<Rightarrow> WorkerRecord \<Rightarrow> WorkerRecord" where
  "mark_inactive threshold now worker =
     (if wr_Status worker = StatusDead then worker
      else if IsZero (wr_LastHeartbeatAt worker) then worker
      else if threshold < time_Sub now (wr_LastHeartbeatAt worker) \<and> wr_Status worker \<noteq> StatusInactive
      then worker\<lparr>wr_Status := StatusInactive, wr_LastStatusAt := now\<rparr>
      else worker)"

definition markInactiveLocked :: "time \<Rightarrow> Registry \<Rightarrow> Registry" where
  "markInactiveLocked now r =
     (if rg_inactiveThreshold r = 0 then r
      else r\<lparr>rg_workers := map_option (mark_inactive (rg_inactiveThreshold r) now) \<circ> rg_workers r\<rparr>)"

definition beat :: "HeartbeatInfo \<Rightarrow> time \<Rightarrow> WorkerRecord \<Rightarrow> WorkerRecord" where
  "beat info now worker =
     (let worker1 = worker\<lparr>wr_WorkerType := firstNonEmpty (hb_WorkerType info) (wr_WorkerType worker),
                           wr_LastHeartbeatAt := now,
                           wr_StartedAt := (if \<not> IsZero (hb_StartedAt info) then hb_StartedAt info else wr_StartedAt worker)\<rparr>;
          reported = normalizeStatus (hb_Status info);
          status1 = (if wr_Status worker = StatusDead then StatusDead else reported);
          newStatus = (if wr_Status worker = StatusDraining \<and> status1 = StatusActive then StatusDraining else status1)
      in if newStatus \<noteq> wr_Status worker
         then worker1\<lparr>wr_Status := newStatus, wr_LastStatusAt := now\<rparr>
         else worker1)"

definition new_record :: "HeartbeatInfo \<Rightarrow> time \<Rightarrow> WorkerRecord" where
  "new_record info now =
     \<lparr>wr_WorkerID = hb_WorkerID info, wr_WorkerType = hb_WorkerType info, wr_Status = normalizeStatus (hb_Status info),
      wr_LastHeartbeatAt = now, wr_StartedAt = safeTime (hb_StartedAt info) now, wr_LastStatusAt = now\<rparr>"

text \<open>\<open>clock\<close> is what \<^verbatim>\<open>time.Now\<close> answers in the call.\<close>

definition UpdateHeartbeat :: "time \<Rightarrow> HeartbeatInfo \<Rightarrow> Registry \<Rightarrow> Registry" where
  "UpdateHeartbeat clock info r0 =
     (let now = (if IsZero (hb_Timestamp info) then clock else hb_Timestamp info);
          r = markInactiveLocked now r0
      in case rg_workers r (hb_WorkerID info) of
           None \<Rightarrow> r\<lparr>rg_workers := (rg_workers r)(hb_WorkerID info \<mapsto> new_record info now)\<rparr>
         | Some worker \<Rightarrow> r\<lparr>rg_workers := (rg_workers r)(hb_WorkerID info \<mapsto> beat info now worker)\<rparr>)"

definition AttachStream :: "string \<Rightarrow> Registry \<Rightarrow> ((nat \<times> Command list) \<times> Registry) outcome" where
  "AttachStream w r =
     (case (case rg_streams r w of Some c \<Rightarrow> close_chan c r | None \<Rightarrow> Returns r) of
        Panics \<Rightarrow> Panics
      | Returns r1 \<Rightarrow>
          (case make_chan w r1 of (c, r2) \<Rightarrow>
             Returns ((c, case rg_pending r2 w of None \<Rightarrow> [] | Some cs \<Rightarrow> cs),
                      r2\<lparr>rg_streams := (rg_streams r2)(w \<mapsto> c), rg_pending := (rg_pending r2)(w := None)\<rparr>)))"

definition DetachStream :: "string \<Rightarrow> Registry \<Rightarrow> Registry outcome" where
  "DetachStream w r =
     (case rg_streams r w of
        None \<Rightarrow> Returns r
      | Some c \<Rightarrow>
          (case close_chan c r of
             Panics \<Rightarrow> Panics
           | Returns r1 \<Rightarrow> Returns (r1\<lparr>rg_streams := (rg_streams r1)(w := None)\<rparr>)))"

definition ensureWorkerLocked :: "time \<Rightarrow> string \<Rightarrow> Registry \<Rightarrow> WorkerRecord \<times> Registry" where
  "ensureWorkerLocked clock w r =
     (case rg_workers r w of
        Some worker \<Rightarrow> (worker, r)
      | None \<Rightarrow>
          let worker = \<lparr>wr_WorkerID = w, wr_WorkerType = [], wr_Status = StatusUnknown, wr_LastHeartbeatAt = 0,
                        wr_StartedAt = clock, wr_LastStatusAt = clock\<rparr>
          in (worker, r\<lparr>rg_workers := (rg_workers r)(w \<mapsto> worker)\<rparr>))"

definition add_pending :: "string \<Rightarrow> Command \<Rightarrow> Registry \<Rightarrow> Registry" where
  "add_pending w cmd r =
     r\<lparr>rg_pending := (rg_pending r)(w \<mapsto> (case rg_pending r w of None \<Rightarrow> [] | Some cs \<Rightarrow> cs) @ [cmd])\<rparr>"

definition sendCommand :: "time \<Rightarrow> string \<Rightarrow> Command \<Rightarrow> WorkerStatus \<Rightarrow> Registry \<Rightarrow> (bool \<times> Registry) outcome" where
  "sendCommand clock w cmd status r0 =
     (case ensureWorkerLocked clock w r0 of
        (worker, r1) \<Rightarrow>
          let r = (if wr_Status worker \<noteq> status
                   then r1\<lparr>rg_workers := (rg_workers r1)(w \<mapsto> worker\<lparr>wr_Status := status, wr_LastStatusAt := cmd_IssuedAt cmd\<rparr>)\<rparr>
                   else r1)
          in case rg_streams r w of
               Some c \<Rightarrow>
                 (case try_send c cmd r of
                    Panics \<Rightarrow> Panics
                  | Returns (True, r') \<Rightarrow> Returns (True, r')
                  | Returns (False, r') \<Rightarrow> Returns (False, add_pending w cmd r'))
             | None \<Rightarrow> Returns (False, add_pending w cmd r))"

definition RequestDrain :: "time \<Rightarrow> string \<Rightarrow> string \<Rightarrow> Registry \<Rightarrow> (bool \<times> Registry) outcome" where
  "RequestDrain clock w reason =
     sendCommand clock w \<lparr>cmd_Type = CommandDrain, cmd_Reason = reason, cmd_IssuedAt = clock\<rparr> StatusDraining"

definition RequestForceKill :: "time \<Rightarrow> string \<Rightarrow> string \<Rightarrow> Registry \<Rightarrow> (bool \<times> Registry) outcome" where
  "RequestForceKill clock w reason =
     sendCommand clock w \<lparr>cmd_Type = CommandForceKill, cmd_Reason = reason, cmd_IssuedAt = clock\<rparr> StatusDead"

text \<open>
  The two loops over the map of workers visit its keys in an order the runtime chooses; \<open>order\<close> is
  that order.
\<close>

definition expired :: "Registry \<Rightarrow> time \<Rightarrow> WorkerRecord \<Rightarrow> bool" where
  "expired r now worker \<longleftrightarrow>
     (wr_Status worker = StatusInactive \<or> wr_Status worker = StatusDead) \<and>
     rg_cleanupDelay r < time_Sub now (wr_LastStatusAt worker)"

definition cleanup_one :: "time \<Rightarrow> string \<Rightarrow> Registry \<Rightarrow> Registry outcome" where
  "cleanup_one now w r =
     (case rg_workers r w of
        None \<Rightarrow> Returns r
      | Some worker \<Rightarrow>
          if \<not> expired r now worker then Returns r
          else DetachStream w (r\<lparr>rg_workers := (rg_workers r)(w := None), rg_pending := (rg_pending r)(w := None)\<rparr>))"

fun cleanup_loop :: "time \<Rightarrow> string list \<Rightarrow> Registry \<Rightarrow> Registry outcome" where
  "cleanup_loop now [] r = Returns r"
| "cleanup_loop now (w # ws) r =
     (case cleanup_one now w r of Panics \<Rightarrow> Panics | Returns r' \<Rightarrow> cleanup_loop now ws r')"

definition cleanupInactiveLocked :: "string list \<Rightarrow> time \<Rightarrow> Registry \<Rightarrow> Registry outcome" where
  "cleanupInactiveLocked order now r = (if rg_cleanupDelay r = 0 then Returns r else cleanup_loop now order r)"

definition List_workers :: "time \<Rightarrow> string list \<Rightarrow> time \<Rightarrow> Registry \<Rightarrow> ((WorkerRecord \<times> duration) list \<times> Registry) outcome" where
  "List_workers clock order t r =
     (let now = (if IsZero t then clock else t)
      in case cleanupInactiveLocked order now (markInactiveLocked now r) of
           Panics \<Rightarrow> Panics
         | Returns r' \<Rightarrow>
             Returns (List.map_filter (\<lambda>w. map_option (\<lambda>worker. (worker, uptimeFor worker now)) (rg_workers r' w)) order, r'))"

subsection \<open>The handlers\<close>

datatype ProtoWorkerStatus =
  WORKER_STATUS_UNSPECIFIED | WORKER_STATUS_ACTIVE | WORKER_STATUS_INACTIVE | WORKER_STATUS_DRAINING | WORKER_STATUS_DEAD

definition toProtoStatus :: "WorkerStatus \<Rightarrow> ProtoWorkerStatus" where
  "toProtoStatus status =
     (if status = StatusActive then WORKER_STATUS_ACTIVE else if status = StatusInactive then WORKER_STATUS_INACTIVE
      else if status = StatusDraining then WORKER_STATUS_DRAINING else if status = StatusDead then WORKER_STATUS_DEAD
      else WORKER_STATUS_UNSPECIFIED)"

fun fromProtoStatus :: "ProtoWorkerStatus \<Rightarrow> WorkerStatus" where
  "fromProtoStatus WORKER_STATUS_ACTIVE = StatusActive"
| "fromProtoStatus WORKER_STATUS_INACTIVE = StatusInactive"
| "fromProtoStatus WORKER_STATUS_DRAINING = StatusDraining"
| "fromProtoStatus WORKER_STATUS_DEAD = StatusDead"
| "fromProtoStatus WORKER_STATUS_UNSPECIFIED = StatusUnknown"

record WorkerHeartbeat =
  wh_WorkerId :: string
  wh_WorkerType :: string
  wh_Status :: ProtoWorkerStatus
  wh_Timestamp :: "time option"
  wh_StartedAt :: "time option"

definition handleHeartbeat :: "time \<Rightarrow> time \<Rightarrow> WorkerHeartbeat \<Rightarrow> Registry \<Rightarrow> Registry" where
  "handleHeartbeat handler_clock clock heartbeat =
     UpdateHeartbeat clock
       \<lparr>hb_WorkerID = wh_WorkerId heartbeat, hb_WorkerType = wh_WorkerType heartbeat,
        hb_Status = fromProtoStatus (wh_Status heartbeat),
        hb_Timestamp = (case wh_Timestamp heartbeat of None \<Rightarrow> handler_clock | Some t \<Rightarrow> t),
        hb_StartedAt = (case wh_StartedAt heartbeat of None \<Rightarrow> 0 | Some t \<Rightarrow> t)\<rparr>"

definition DrainWorker :: "time \<Rightarrow> string \<Rightarrow> string \<Rightarrow> Registry \<Rightarrow> ((bool \<times> string) rpc \<times> Registry) outcome" where
  "DrainWorker clock w reason r =
     (if w = [] then Returns (Inl (InvalidArgument, ''worker_id is required''), r)
      else case RequestDrain clock w reason r of
             Panics \<Rightarrow> Panics
           | Returns (ok, r') \<Rightarrow>
               Returns (Inr (ok, if ok then ''drain command delivered'' else ''drain command queued''), r'))"

definition ForceKillWorker :: "time \<Rightarrow> string \<Rightarrow> string \<Rightarrow> Registry \<Rightarrow> ((bool \<times> string) rpc \<times> Registry) outcome" where
  "ForceKillWorker clock w reason r =
     (if w = [] then Returns (Inl (InvalidArgument, ''worker_id is required''), r)
      else case RequestForceKill clock w reason r of
             Panics \<Rightarrow> Panics
           | Returns (ok, r') \<Rightarrow>
               Returns (Inr (ok, if ok then ''force kill command delivered'' else ''force kill command queued''), r'))"

record WorkerInfo =
  wi_WorkerId :: string
  wi_WorkerType :: string
  wi_Status :: ProtoWorkerStatus
  wi_LastHeartbeatAt :: time
  wi_Uptime :: duration

definition ListWorkers :: "time \<Rightarrow> string list \<Rightarrow> Registry \<Rightarrow> (WorkerInfo list \<times> Registry) outcome" where
  "ListWorkers clock order r =
     (case List_workers clock order clock r of
        Panics \<Rightarrow> Panics
      | Returns (workers, r') \<Rightarrow>
          Returns (map (\<lambda>(x, uptime). \<lparr>wi_WorkerId = wr_WorkerID x, wi_WorkerType = wr_WorkerType x,
                         wi_Status = toProtoStatus (wr_Status x), wi_LastHeartbeatAt = wr_LastHeartbeatAt x,
                         wi_Uptime = uptime\<rparr>) workers, r'))"

subsection \<open>Histories\<close>

text \<open>
  The operations of the handlers on the registry, and the receive of a stream's sender on its channel.
  The ghost components count, per worker, the commands issued, those handed to a stream and those
  discarded with the record of the worker.
\<close>

datatype reg_op =
    BeatOp time HeartbeatInfo | AttachOp string | DetachOp string
  | DrainOp time string string | KillOp time string string | ListOp time "string list" time | ReceiveOp nat

record reg_sys =
  rs_reg :: Registry
  rs_issued :: "string \<Rightarrow> Command multiset"
  rs_handed :: "string \<Rightarrow> Command multiset"
  rs_dropped :: "string \<Rightarrow> Command multiset"

abbreviation pending_of :: "Registry \<Rightarrow> string \<Rightarrow> Command list" where
  "pending_of r w \<equiv> (case rg_pending r w of None \<Rightarrow> [] | Some cs \<Rightarrow> cs)"

definition counted :: "string \<Rightarrow> Command list \<Rightarrow> (string \<Rightarrow> Command multiset) \<Rightarrow> string \<Rightarrow> Command multiset" where
  "counted w cs f = f(w := f w + mset cs)"

definition command_step :: "string \<Rightarrow> Command \<Rightarrow> (bool \<times> Registry) outcome \<Rightarrow> reg_sys \<Rightarrow> reg_sys outcome" where
  "command_step w cmd res s =
     (case res of Panics \<Rightarrow> Panics
      | Returns (_, r) \<Rightarrow> Returns (s\<lparr>rs_reg := r, rs_issued := counted w [cmd] (rs_issued s)\<rparr>))"

fun reg_step :: "reg_sys \<Rightarrow> reg_op \<Rightarrow> reg_sys outcome" where
  "reg_step s (BeatOp clock info) = Returns (s\<lparr>rs_reg := UpdateHeartbeat clock info (rs_reg s)\<rparr>)"
| "reg_step s (AttachOp w) =
     (case AttachStream w (rs_reg s) of Panics \<Rightarrow> Panics
      | Returns ((c, cs), r) \<Rightarrow> Returns (s\<lparr>rs_reg := r, rs_handed := counted w cs (rs_handed s)\<rparr>))"
| "reg_step s (DetachOp w) =
     (case DetachStream w (rs_reg s) of Panics \<Rightarrow> Panics | Returns r \<Rightarrow> Returns (s\<lparr>rs_reg := r\<rparr>))"
| "reg_step s (DrainOp clock w reason) =
     command_step w \<lparr>cmd_Type = CommandDrain, cmd_Reason = reason, cmd_IssuedAt = clock\<rparr> (RequestDrain clock w reason (rs_reg s)) s"
| "reg_step s (KillOp clock w reason) =
     command_step w \<lparr>cmd_Type = CommandForceKill, cmd_Reason = reason, cmd_IssuedAt = clock\<rparr> (RequestForceKill clock w reason (rs_reg s)) s"
| "reg_step s (ListOp clock order t) =
     (case List_workers clock order t (rs_reg s) of Panics \<Rightarrow> Panics
      | Returns (_, r) \<Rightarrow> Returns (s\<lparr>rs_reg := r, rs_dropped :=
          (\<lambda>w. rs_dropped s w + mset (pending_of (rs_reg s) w) - mset (pending_of r w))\<rparr>))"
| "reg_step s (ReceiveOp c) =
     (case (if c < length (rg_chans (rs_reg s)) then ch_buffer (rg_chans (rs_reg s) ! c) else []) of
        [] \<Rightarrow> Returns s
      | cmd # cmds \<Rightarrow>
          let ch = rg_chans (rs_reg s) ! c
          in Returns (s\<lparr>rs_reg := (rs_reg s)\<lparr>rg_chans := (rg_chans (rs_reg s))[c := ch\<lparr>ch_buffer := cmds\<rparr>]\<rparr>,
                        rs_handed := counted (ch_worker ch) [cmd] (rs_handed s)\<rparr>))"

fun reg_run :: "reg_sys \<Rightarrow> reg_op list \<Rightarrow> reg_sys outcome" where
  "reg_run s [] = Returns s"
| "reg_run s (op # ops) = (case reg_step s op of Panics \<Rightarrow> Panics | Returns s' \<Rightarrow> reg_run s' ops)"

definition reg_start :: "duration \<Rightarrow> duration \<Rightarrow> reg_sys" where
  "reg_start threshold delay =
     \<lparr>rs_reg = NewRegistry threshold delay, rs_issued = (\<lambda>w. {#}), rs_handed = (\<lambda>w. {#}), rs_dropped = (\<lambda>w. {#})\<rparr>"

section \<open>The registry never panics and loses no command\<close>

definition reg_inv :: "Registry \<Rightarrow> bool" where
  "reg_inv r \<longleftrightarrow>
     (\<forall>w c. rg_streams r w = Some c \<longrightarrow>
        c < length (rg_chans r) \<and> \<not> ch_closed (rg_chans r ! c) \<and> ch_worker (rg_chans r ! c) = w) \<and>
     (\<forall>ch \<in> set (rg_chans r). length (ch_buffer ch) \<le> 8) \<and>
     (\<forall>w x. rg_workers r w = Some x \<longrightarrow> wr_WorkerID x = w) \<and>
     (\<forall>w. rg_pending r w \<noteq> None \<longrightarrow> rg_workers r w \<noteq> None)"

definition buffered :: "command_chan list \<Rightarrow> string \<Rightarrow> Command multiset" where
  "buffered chs w = sum_list (map (\<lambda>ch. if ch_worker ch = w then mset (ch_buffer ch) else {#}) chs)"

definition owed :: "Registry \<Rightarrow> string \<Rightarrow> Command multiset" where
  "owed r w = mset (pending_of r w) + buffered (rg_chans r) w"

lemma sum_list_update_add:
  fixes f :: "'b \<Rightarrow> 'a :: comm_monoid_add"
  shows "k < length xs \<Longrightarrow> sum_list (map f (xs[k := y])) + f (xs ! k) = sum_list (map f xs) + f y"
  by (induction xs arbitrary: k) (auto simp: ac_simps split: nat.split)

lemma buffered_snoc [simp]: "buffered (chs @ [ch]) w = buffered chs w + (if ch_worker ch = w then mset (ch_buffer ch) else {#})"
  by (simp add: buffered_def)

lemma buffered_update:
  assumes "c < length chs" and "ch_worker ch = ch_worker (chs ! c)"
    and "mset (ch_buffer ch) + taken = mset (ch_buffer (chs ! c)) + added"
  shows "buffered (chs[c := ch]) w + (if ch_worker (chs ! c) = w then taken else {#}) =
         buffered chs w + (if ch_worker (chs ! c) = w then added else {#})"
proof (cases "ch_worker (chs ! c) = w")
  case True
  let ?f = "\<lambda>ch. if ch_worker ch = w then mset (ch_buffer ch) else {#}"
  have "buffered (chs[c := ch]) w + mset (ch_buffer (chs ! c)) = buffered chs w + mset (ch_buffer ch)"
    using sum_list_update_add [OF assms(1), of ?f ch] True assms(2) by (simp add: buffered_def)
  then have "buffered (chs[c := ch]) w + taken + mset (ch_buffer (chs ! c)) = buffered chs w + (mset (ch_buffer ch) + taken)"
    by (metis add.assoc add.commute)
  also have "\<dots> = buffered chs w + added + mset (ch_buffer (chs ! c))" using assms(3) by (simp add: ac_simps)
  finally show ?thesis using True by simp
next
  case False
  then show ?thesis
    using sum_list_update_add [OF assms(1), of "\<lambda>ch. if ch_worker ch = w then mset (ch_buffer ch) else {#}" ch] assms(2)
    by (simp add: buffered_def)
qed

lemma reg_invD:
  "reg_inv r \<Longrightarrow> rg_streams r w = Some c \<Longrightarrow> c < length (rg_chans r) \<and> \<not> ch_closed (rg_chans r ! c) \<and> ch_worker (rg_chans r ! c) = w"
  "reg_inv r \<Longrightarrow> ch \<in> set (rg_chans r) \<Longrightarrow> length (ch_buffer ch) \<le> 8"
  "reg_inv r \<Longrightarrow> rg_workers r w = Some x \<Longrightarrow> wr_WorkerID x = w"
  "reg_inv r \<Longrightarrow> rg_pending r w \<noteq> None \<Longrightarrow> rg_workers r w \<noteq> None"
  by (auto simp: reg_inv_def)

lemma DetachStream_inv:
  assumes "reg_inv r"
  shows "\<exists>r'. DetachStream w r = Returns r' \<and> reg_inv r' \<and> (\<forall>v. buffered (rg_chans r') v = buffered (rg_chans r) v) \<and>
     rg_workers r' = rg_workers r \<and> rg_pending r' = rg_pending r \<and> rg_streams r' = (rg_streams r)(w := None) \<and>
     rg_cleanupDelay r' = rg_cleanupDelay r \<and> rg_inactiveThreshold r' = rg_inactiveThreshold r"
proof (cases "rg_streams r w")
  case None
  then have "(rg_streams r)(w := None) = rg_streams r" by auto
  then show ?thesis using assms None by (simp add: DetachStream_def)
next
  case (Some c)
  note c = reg_invD(1) [OF assms Some]
  let ?ch = "(rg_chans r ! c)\<lparr>ch_closed := True\<rparr>"
  have "reg_inv (r\<lparr>rg_chans := (rg_chans r)[c := ?ch], rg_streams := (rg_streams r)(w := None)\<rparr>)"
    using assms c reg_invD(1) [OF assms]
    by (fastforce simp: reg_inv_def nth_list_update dest: set_update_subset_insert [THEN subsetD])
  moreover have "buffered ((rg_chans r)[c := ?ch]) v = buffered (rg_chans r) v" for v
    using buffered_update [of c "rg_chans r" ?ch "{#}" "{#}" v] c by simp
  ultimately show ?thesis using c Some by (simp add: DetachStream_def close_chan_def)
qed

lemma AttachStream_detach:
  "AttachStream w r =
     (case DetachStream w r of Panics \<Rightarrow> Panics
      | Returns r1 \<Rightarrow> Returns ((length (rg_chans r1), pending_of r1 w),
          r1\<lparr>rg_chans := rg_chans r1 @ [\<lparr>ch_worker = w, ch_buffer = [], ch_closed = False\<rparr>],
             rg_streams := (rg_streams r1)(w \<mapsto> length (rg_chans r1)), rg_pending := (rg_pending r1)(w := None)\<rparr>))"
  by (auto simp: AttachStream_def DetachStream_def make_chan_def close_chan_def split: option.split)

lemma AttachStream_inv:
  assumes "reg_inv r"
  shows "\<exists>c r'. AttachStream w r = Returns ((c, pending_of r w), r') \<and> reg_inv r' \<and>
     rg_workers r' = rg_workers r \<and> rg_cleanupDelay r' = rg_cleanupDelay r \<and>
     (\<forall>v. owed r' v + (if v = w then mset (pending_of r w) else {#}) = owed r v)"
proof -
  obtain r1 where r1: "DetachStream w r = Returns r1" "reg_inv r1" "\<forall>v. buffered (rg_chans r1) v = buffered (rg_chans r) v"
    "rg_workers r1 = rg_workers r" "rg_pending r1 = rg_pending r" "rg_cleanupDelay r1 = rg_cleanupDelay r"
    using DetachStream_inv [OF assms] by blast
  let ?r' = "r1\<lparr>rg_chans := rg_chans r1 @ [\<lparr>ch_worker = w, ch_buffer = [], ch_closed = False\<rparr>],
             rg_streams := (rg_streams r1)(w \<mapsto> length (rg_chans r1)), rg_pending := (rg_pending r1)(w := None)\<rparr>"
  have "reg_inv ?r'" using r1(2) reg_invD(1) [OF r1(2)] by (fastforce simp: reg_inv_def nth_append)
  moreover have "owed ?r' v + (if v = w then mset (pending_of r w) else {#}) = owed r v" for v
    using r1 by (simp add: owed_def)
  moreover have "AttachStream w r = Returns ((length (rg_chans r1), pending_of r w), ?r')"
    using r1(1,5) by (simp add: AttachStream_detach)
  ultimately show ?thesis using r1(4,6) by (intro exI [of _ "length (rg_chans r1)"] exI [of _ ?r']) simp
qed

lemma reg_inv_workers:
  assumes "reg_inv r" and "\<And>w x. ws w = Some x \<Longrightarrow> wr_WorkerID x = w" and "\<And>w. rg_workers r w \<noteq> None \<Longrightarrow> ws w \<noteq> None"
  shows "reg_inv (r\<lparr>rg_workers := ws\<rparr>)"
  using assms unfolding reg_inv_def by simp

lemma mark_inactive_id [simp]: "wr_WorkerID (mark_inactive th now x) = wr_WorkerID x"
  by (simp add: mark_inactive_def)

lemma markInactive_fields [simp]:
  "rg_streams (markInactiveLocked now r) = rg_streams r" "rg_pending (markInactiveLocked now r) = rg_pending r"
  "rg_chans (markInactiveLocked now r) = rg_chans r" "rg_cleanupDelay (markInactiveLocked now r) = rg_cleanupDelay r"
  "rg_inactiveThreshold (markInactiveLocked now r) = rg_inactiveThreshold r"
  by (simp_all add: markInactiveLocked_def)

lemma markInactive_inv: "reg_inv r \<Longrightarrow> reg_inv (markInactiveLocked now r)"
  unfolding markInactiveLocked_def using reg_invD(3) [of r] by (auto intro!: reg_inv_workers)

lemma beat_id: "wr_WorkerID (beat info now x) = wr_WorkerID x"
  by (simp add: beat_def Let_def)

lemma new_record_id: "wr_WorkerID (new_record info now) = hb_WorkerID info"
  by (simp add: new_record_def)

lemma UpdateHeartbeat_inv:
  assumes "reg_inv r"
  shows "reg_inv (UpdateHeartbeat clock info r) \<and> owed (UpdateHeartbeat clock info r) = owed r \<and>
     rg_cleanupDelay (UpdateHeartbeat clock info r) = rg_cleanupDelay r"
proof -
  define now where "now = (if IsZero (hb_Timestamp info) then clock else hb_Timestamp info)"
  note m = markInactive_inv [OF assms, of now]
  have "reg_inv (UpdateHeartbeat clock info r)"
    unfolding UpdateHeartbeat_def now_def [symmetric] Let_def
    using m reg_invD(3) [OF m] by (auto intro!: reg_inv_workers simp: beat_id new_record_id split: option.split if_splits)
  then show ?thesis by (auto simp: UpdateHeartbeat_def Let_def owed_def fun_eq_iff split: option.split)
qed

lemma add_pending_inv:
  assumes "reg_inv r" and "rg_workers r w \<noteq> None"
  shows "reg_inv (add_pending w cmd r) \<and> owed (add_pending w cmd r) v = owed r v + (if v = w then {#cmd#} else {#}) \<and>
     rg_cleanupDelay (add_pending w cmd r) = rg_cleanupDelay r"
  using assms by (auto simp: add_pending_def reg_inv_def owed_def)

lemma try_send_inv:
  assumes inv: "reg_inv r" and st: "rg_streams r w = Some c"
  shows "\<exists>b r'. try_send c cmd r = Returns (b, r') \<and> reg_inv r' \<and> rg_workers r' = rg_workers r \<and>
     rg_cleanupDelay r' = rg_cleanupDelay r \<and>
     (\<forall>v. owed r' v = owed r v + (if b \<and> v = w then {#cmd#} else {#}))"
proof (cases "length (ch_buffer (rg_chans r ! c)) < 8")
  case True
  note c = reg_invD(1) [OF inv st]
  let ?ch = "(rg_chans r ! c)\<lparr>ch_buffer := ch_buffer (rg_chans r ! c) @ [cmd]\<rparr>"
  let ?r' = "r\<lparr>rg_chans := (rg_chans r)[c := ?ch]\<rparr>"
  have "reg_inv ?r'" using inv True c reg_invD(1) [OF inv]
    by (fastforce simp: reg_inv_def nth_list_update dest: set_update_subset_insert [THEN subsetD])
  moreover have "owed ?r' v = owed r v + (if v = w then {#cmd#} else {#})" for v
    using buffered_update [of c "rg_chans r" ?ch "{#}" "{#cmd#}" v] c by (auto simp: owed_def)
  ultimately show ?thesis using c True by (intro exI [of _ True] exI [of _ ?r']) (simp add: try_send_def Let_def)
next
  case False
  then show ?thesis using inv reg_invD(1) [OF inv st] by (intro exI [of _ False] exI [of _ r]) (simp add: try_send_def Let_def)
qed

lemma sendCommand_inv:
  assumes inv: "reg_inv r"
  shows "\<exists>b r'. sendCommand clock w cmd status r = Returns (b, r') \<and> reg_inv r' \<and> rg_cleanupDelay r' = rg_cleanupDelay r \<and>
     (\<forall>v. owed r' v = owed r v + (if v = w then {#cmd#} else {#}))"
proof -
  define worker where "worker = fst (ensureWorkerLocked clock w r)"
  define ws where "ws = (rg_workers r)(w \<mapsto> if wr_Status worker \<noteq> status
     then worker\<lparr>wr_Status := status, wr_LastStatusAt := cmd_IssuedAt cmd\<rparr> else worker)"
  define r1 where "r1 = r\<lparr>rg_workers := ws\<rparr>"
  have id: "wr_WorkerID worker = w"
    using reg_invD(3) [OF inv] by (auto simp: worker_def ensureWorkerLocked_def Let_def split: option.split)
  have r1: "reg_inv r1" unfolding r1_def
    by (rule reg_inv_workers [OF inv]) (use id reg_invD(3) [OF inv] in \<open>auto simp: ws_def split: if_splits\<close>)
  have w: "rg_workers r1 w \<noteq> None" by (simp add: r1_def ws_def)
  have same: "owed r1 v = owed r v" "rg_cleanupDelay r1 = rg_cleanupDelay r" "rg_streams r1 = rg_streams r" for v
    by (simp_all add: r1_def owed_def)
  have eq: "sendCommand clock w cmd status r =
      (case rg_streams r1 w of
         Some c \<Rightarrow> (case try_send c cmd r1 of Panics \<Rightarrow> Panics | Returns (True, r') \<Rightarrow> Returns (True, r')
                    | Returns (False, r') \<Rightarrow> Returns (False, add_pending w cmd r'))
       | None \<Rightarrow> Returns (False, add_pending w cmd r1))"
    by (auto simp: sendCommand_def r1_def ws_def worker_def ensureWorkerLocked_def Let_def fun_upd_idem split: option.split)
  show ?thesis
  proof (cases "rg_streams r1 w")
    case None
    then show ?thesis using eq add_pending_inv [OF r1 w] same by auto
  next
    case (Some c)
    obtain b r' where t: "try_send c cmd r1 = Returns (b, r')" "reg_inv r'" "rg_workers r' = rg_workers r1"
      "rg_cleanupDelay r' = rg_cleanupDelay r1" "\<forall>v. owed r' v = owed r1 v + (if b \<and> v = w then {#cmd#} else {#})"
      using try_send_inv [OF r1 Some] by blast
    show ?thesis
    proof (cases b)
      case True
      then show ?thesis using eq Some t same by auto
    next
      case False
      then show ?thesis using eq Some t same add_pending_inv [OF t(2), of w cmd] w by auto
    qed
  qed
qed

lemma cleanup_one_inv:
  assumes inv: "reg_inv r"
  shows "\<exists>r'. cleanup_one now w r = Returns r' \<and> reg_inv r' \<and> rg_cleanupDelay r' = rg_cleanupDelay r \<and>
     (\<forall>v. buffered (rg_chans r') v = buffered (rg_chans r) v \<and> mset (pending_of r' v) \<subseteq># mset (pending_of r v))"
proof (cases "case rg_workers r w of None \<Rightarrow> False | Some x \<Rightarrow> expired r now x")
  case True
  let ?r = "r\<lparr>rg_workers := (rg_workers r)(w := None), rg_pending := (rg_pending r)(w := None)\<rparr>"
  have "reg_inv ?r" using inv by (auto simp: reg_inv_def)
  from DetachStream_inv [OF this, of w] obtain r' where r': "DetachStream w ?r = Returns r'" "reg_inv r'"
    "\<forall>v. buffered (rg_chans r') v = buffered (rg_chans r) v" "rg_pending r' = (rg_pending r)(w := None)"
    "rg_cleanupDelay r' = rg_cleanupDelay r" by auto
  then show ?thesis using True by (auto simp: cleanup_one_def split: option.splits)
next
  case False
  then show ?thesis using inv by (auto simp: cleanup_one_def split: option.splits)
qed

lemma cleanup_loop_inv:
  assumes "reg_inv r"
  shows "\<exists>r'. cleanup_loop now ws r = Returns r' \<and> reg_inv r' \<and> rg_cleanupDelay r' = rg_cleanupDelay r \<and>
     (\<forall>v. buffered (rg_chans r') v = buffered (rg_chans r) v \<and> mset (pending_of r' v) \<subseteq># mset (pending_of r v))"
  using assms
proof (induction ws arbitrary: r)
  case (Cons w ws)
  obtain r1 where r1: "cleanup_one now w r = Returns r1" "reg_inv r1" "rg_cleanupDelay r1 = rg_cleanupDelay r"
    "\<forall>v. buffered (rg_chans r1) v = buffered (rg_chans r) v \<and> mset (pending_of r1 v) \<subseteq># mset (pending_of r v)"
    using cleanup_one_inv [OF Cons.prems] by blast
  show ?case using Cons.IH [OF r1(2)] r1 by (auto intro: subset_mset.order_trans)
qed simp

lemma List_workers_inv:
  assumes inv: "reg_inv r"
  shows "\<exists>l r'. List_workers clock order t r = Returns (l, r') \<and> reg_inv r' \<and> rg_cleanupDelay r' = rg_cleanupDelay r \<and>
     (rg_cleanupDelay r = 0 \<longrightarrow> rg_pending r' = rg_pending r) \<and>
     (\<forall>v. owed r' v + (mset (pending_of r v) - mset (pending_of r' v)) = owed r v \<and> mset (pending_of r' v) \<subseteq># mset (pending_of r v))"
proof -
  define now where "now = (if IsZero t then clock else t)"
  let ?m = "markInactiveLocked now r"
  have "\<exists>r'. cleanupInactiveLocked order now ?m = Returns r' \<and> reg_inv r' \<and> rg_cleanupDelay r' = rg_cleanupDelay r \<and>
     (rg_cleanupDelay r = 0 \<longrightarrow> rg_pending r' = rg_pending r) \<and>
     (\<forall>v. buffered (rg_chans r') v = buffered (rg_chans r) v \<and> mset (pending_of r' v) \<subseteq># mset (pending_of r v))"
    using cleanup_loop_inv [OF markInactive_inv [OF inv], of now order] markInactive_inv [OF inv, of now]
    by (auto simp: cleanupInactiveLocked_def)
  then obtain r' where r': "cleanupInactiveLocked order now ?m = Returns r'" "reg_inv r'" "rg_cleanupDelay r' = rg_cleanupDelay r"
    "rg_cleanupDelay r = 0 \<longrightarrow> rg_pending r' = rg_pending r"
    "\<forall>v. buffered (rg_chans r') v = buffered (rg_chans r) v \<and> mset (pending_of r' v) \<subseteq># mset (pending_of r v)" by blast
  have "owed r' v + (mset (pending_of r v) - mset (pending_of r' v)) = owed r v" for v
  proof -
    have "mset (pending_of r' v) + (mset (pending_of r v) - mset (pending_of r' v)) = mset (pending_of r v)"
      using r'(5) by (intro subset_mset.add_diff_inverse) simp
    moreover have "mset (pending_of r' v) + buffered (rg_chans r) v + (mset (pending_of r v) - mset (pending_of r' v)) =
        mset (pending_of r' v) + (mset (pending_of r v) - mset (pending_of r' v)) + buffered (rg_chans r) v"
      by (simp only: ac_simps)
    ultimately show ?thesis using r'(5) unfolding owed_def by simp
  qed
  then show ?thesis using r' by (simp add: List_workers_def now_def [symmetric] Let_def)
qed

definition sys_inv :: "reg_sys \<Rightarrow> bool" where
  "sys_inv s \<longleftrightarrow> reg_inv (rs_reg s) \<and>
     (\<forall>w. rs_issued s w = rs_handed s w + rs_dropped s w + owed (rs_reg s) w) \<and>
     (rg_cleanupDelay (rs_reg s) = 0 \<longrightarrow> (\<forall>w. rs_dropped s w = {#}))"

lemma sys_invI:
  assumes "sys_inv s" and "reg_inv r" and "rg_cleanupDelay r = rg_cleanupDelay (rs_reg s)"
    and "\<And>w. owed r w + h w + d w = owed (rs_reg s) w + i w"
    and "\<And>w. rg_cleanupDelay (rs_reg s) = 0 \<Longrightarrow> d w = {#}"
  shows "sys_inv (s\<lparr>rs_reg := r, rs_issued := \<lambda>w. rs_issued s w + i w, rs_handed := \<lambda>w. rs_handed s w + h w,
                    rs_dropped := \<lambda>w. rs_dropped s w + d w\<rparr>)"
proof -
  have "rs_issued s w + i w = rs_handed s w + h w + (rs_dropped s w + d w) + owed r w" for w
  proof -
    have "rs_issued s w + i w = rs_handed s w + rs_dropped s w + (owed (rs_reg s) w + i w)"
      using assms(1) by (simp add: sys_inv_def ac_simps)
    also have "\<dots> = rs_handed s w + rs_dropped s w + (owed r w + h w + d w)" by (simp only: assms(4))
    finally show ?thesis by (simp add: ac_simps)
  qed
  then show ?thesis using assms(1,2,3,5) by (simp add: sys_inv_def)
qed

lemma counted_add: "counted w cs f = (\<lambda>v. f v + (if v = w then mset cs else {#}))"
  by (auto simp: counted_def)

lemma counted_one: "counted w [c] f = (\<lambda>v. f v + (if v = w then {#c#} else {#}))"
  by (auto simp: counted_def)

lemma command_step_inv:
  assumes s: "sys_inv s"
  shows "\<exists>s'. command_step w cmd (sendCommand clock w cmd status (rs_reg s)) s = Returns s' \<and> sys_inv s' \<and>
     rg_cleanupDelay (rs_reg s') = rg_cleanupDelay (rs_reg s)"
proof -
  have "reg_inv (rs_reg s)" using s by (simp add: sys_inv_def)
  then obtain b r' where r': "sendCommand clock w cmd status (rs_reg s) = Returns (b, r')" "reg_inv r'"
    "rg_cleanupDelay r' = rg_cleanupDelay (rs_reg s)" "\<forall>v. owed r' v = owed (rs_reg s) v + (if v = w then {#cmd#} else {#})"
    using sendCommand_inv by blast
  show ?thesis using r' sys_invI [OF s r'(2,3), of "\<lambda>v. {#}" "\<lambda>v. {#}" "\<lambda>v. if v = w then {#cmd#} else {#}"]
    by (simp add: command_step_def counted_one)
qed

lemma receive_inv:
  assumes inv: "reg_inv r" and c: "c < length (rg_chans r)" and b: "ch_buffer (rg_chans r ! c) = cmd # cmds"
  defines "r' \<equiv> r\<lparr>rg_chans := (rg_chans r)[c := (rg_chans r ! c)\<lparr>ch_buffer := cmds\<rparr>]\<rparr>"
  shows "reg_inv r' \<and> owed r' v + (if v = ch_worker (rg_chans r ! c) then {#cmd#} else {#}) = owed r v"
proof
  have "length cmds \<le> 8" using reg_invD(2) [OF inv nth_mem [OF c]] b by simp
  then show "reg_inv r'" using inv reg_invD(1) [OF inv] c unfolding r'_def
    by (fastforce simp: reg_inv_def nth_list_update dest: set_update_subset_insert [THEN subsetD])
  show "owed r' v + (if v = ch_worker (rg_chans r ! c) then {#cmd#} else {#}) = owed r v"
    using buffered_update [OF c, of "(rg_chans r ! c)\<lparr>ch_buffer := cmds\<rparr>" "{#cmd#}" "{#}" v] b
    by (auto simp: r'_def owed_def)
qed

lemma reg_step_inv:
  assumes s: "sys_inv s"
  shows "\<exists>s'. reg_step s op = Returns s' \<and> sys_inv s' \<and> rg_cleanupDelay (rs_reg s') = rg_cleanupDelay (rs_reg s)"
proof -
  have inv: "reg_inv (rs_reg s)" using s by (simp add: sys_inv_def)
  note keep = sys_invI [OF s, of _ "\<lambda>v. {#}" "\<lambda>v. {#}" "\<lambda>v. {#}"]
  show ?thesis
  proof (cases op)
    case (BeatOp clock info)
    then show ?thesis using UpdateHeartbeat_inv [OF inv, of clock info] keep by simp
  next
    case (AttachOp w)
    obtain c r' where r': "AttachStream w (rs_reg s) = Returns ((c, pending_of (rs_reg s) w), r')" "reg_inv r'"
      "rg_cleanupDelay r' = rg_cleanupDelay (rs_reg s)"
      "\<forall>v. owed r' v + (if v = w then mset (pending_of (rs_reg s) w) else {#}) = owed (rs_reg s) v"
      using AttachStream_inv [OF inv] by blast
    then show ?thesis
      using sys_invI [OF s r'(2,3), of "\<lambda>v. if v = w then mset (pending_of (rs_reg s) w) else {#}" "\<lambda>v. {#}" "\<lambda>v. {#}"] AttachOp
      by (simp add: counted_add)
  next
    case (DetachOp w)
    then show ?thesis using DetachStream_inv [OF inv, of w] keep by (auto simp: owed_def)
  next
    case (DrainOp clock w reason)
    then show ?thesis using command_step_inv [OF s] by (simp add: RequestDrain_def)
  next
    case (KillOp clock w reason)
    then show ?thesis using command_step_inv [OF s] by (simp add: RequestForceKill_def)
  next
    case (ListOp clock order t)
    obtain l r' where r': "List_workers clock order t (rs_reg s) = Returns (l, r')" "reg_inv r'"
      "rg_cleanupDelay r' = rg_cleanupDelay (rs_reg s)" "rg_cleanupDelay (rs_reg s) = 0 \<longrightarrow> rg_pending r' = rg_pending (rs_reg s)"
      "\<forall>v. owed r' v + (mset (pending_of (rs_reg s) v) - mset (pending_of r' v)) = owed (rs_reg s) v \<and>
           mset (pending_of r' v) \<subseteq># mset (pending_of (rs_reg s) v)"
      using List_workers_inv [OF inv, of clock order t] by blast
    have "rs_dropped s v + mset (pending_of (rs_reg s) v) - mset (pending_of r' v) =
        rs_dropped s v + (mset (pending_of (rs_reg s) v) - mset (pending_of r' v))" for v
      by (rule multiset_diff_union_assoc) (use r'(5) in blast)
    then have dropped: "(\<lambda>v. rs_dropped s v + mset (pending_of (rs_reg s) v) - mset (pending_of r' v)) =
        (\<lambda>v. rs_dropped s v + (mset (pending_of (rs_reg s) v) - mset (pending_of r' v)))" by (rule ext)
    have "sys_inv (s\<lparr>rs_reg := r', rs_issued := \<lambda>w. rs_issued s w + {#}, rs_handed := \<lambda>v. rs_handed s v + {#},
        rs_dropped := \<lambda>v. rs_dropped s v + (mset (pending_of (rs_reg s) v) - mset (pending_of r' v))\<rparr>)"
      by (rule sys_invI [OF s r'(2,3)]) (use r'(4,5) in \<open>simp_all\<close>)
    then show ?thesis unfolding ListOp reg_step.simps r'(1) outcome.case prod.case dropped using r'(3) by simp
  next
    case (ReceiveOp c)
    show ?thesis
    proof (cases "if c < length (rg_chans (rs_reg s)) then ch_buffer (rg_chans (rs_reg s) ! c) else []")
      case Nil
      then show ?thesis using ReceiveOp s by simp
    next
      case (Cons cmd cmds)
      then have c: "c < length (rg_chans (rs_reg s))" "ch_buffer (rg_chans (rs_reg s) ! c) = cmd # cmds" by (auto split: if_splits)
      let ?w = "ch_worker (rg_chans (rs_reg s) ! c)"
      let ?r = "(rs_reg s)\<lparr>rg_chans := (rg_chans (rs_reg s))[c := (rg_chans (rs_reg s) ! c)\<lparr>ch_buffer := cmds\<rparr>]\<rparr>"
      have "sys_inv (s\<lparr>rs_reg := ?r, rs_issued := \<lambda>w. rs_issued s w + {#}, rs_handed := \<lambda>v. rs_handed s v + (if v = ?w then {#cmd#} else {#}),
          rs_dropped := \<lambda>w. rs_dropped s w + {#}\<rparr>)"
        by (rule sys_invI [OF s]) (use receive_inv [OF inv c] in simp_all)
      then show ?thesis using ReceiveOp c by (simp add: counted_one Let_def)
    qed
  qed
qed

lemma reg_run_inv:
  "sys_inv s \<Longrightarrow> \<exists>s'. reg_run s ops = Returns s' \<and> sys_inv s' \<and> rg_cleanupDelay (rs_reg s') = rg_cleanupDelay (rs_reg s)"
proof (induction ops arbitrary: s)
  case (Cons op ops)
  obtain s1 where s1: "reg_step s op = Returns s1" "sys_inv s1" "rg_cleanupDelay (rs_reg s1) = rg_cleanupDelay (rs_reg s)"
    using reg_step_inv [OF Cons.prems] by blast
  then show ?case using Cons.IH [OF s1(2)] by simp
qed simp

lemma reg_start_inv: "sys_inv (reg_start threshold delay)"
  by (simp add: sys_inv_def reg_inv_def reg_start_def NewRegistry_def owed_def buffered_def)

text \<open>
  C14. The registry neither panics nor loses a command.  In every history of heartbeats, streams
  attached, replaced and detached, drain and kill requests, listings and receives, no channel is closed
  twice or sent to after it was closed; the channel of an attached stream is open and its own, no buffer
  exceeds eight; and for each worker the commands issued are exactly those handed to a stream, those
  still pending or buffered, and those discarded when the record of a worker was cleaned up, each once.
  Without a cleanup delay nothing is discarded.
\<close>

theorem registry_commands:
  "\<exists>s. reg_run (reg_start threshold delay) ops = Returns s \<and> reg_inv (rs_reg s) \<and>
     (\<forall>w. rs_issued s w = rs_handed s w + rs_dropped s w + owed (rs_reg s) w) \<and>
     (if delay = 0 then \<forall>w. rs_dropped s w = {#} else True)"
proof -
  obtain s where "reg_run (reg_start threshold delay) ops = Returns s" "sys_inv s"
    "rg_cleanupDelay (rs_reg s) = rg_cleanupDelay (rs_reg (reg_start threshold delay))"
    using reg_run_inv [OF reg_start_inv] by blast
  moreover have "rg_cleanupDelay (rs_reg (reg_start threshold delay)) = delay" by (simp add: reg_start_def NewRegistry_def)
  ultimately show ?thesis by (auto simp: sys_inv_def)
qed

section \<open>Statuses\<close>

definition dead_since :: "string \<Rightarrow> time \<Rightarrow> Registry \<Rightarrow> bool" where
  "dead_since w t r \<longleftrightarrow> (\<exists>x. rg_workers r w = Some x \<and> wr_Status x = StatusDead \<and> wr_LastStatusAt x = t)"

text \<open>The operations that cannot revive or forget a worker declared dead at \<open>t\<close>.\<close>

fun spares :: "duration \<Rightarrow> string \<Rightarrow> time \<Rightarrow> reg_op \<Rightarrow> bool" where
  "spares delay w t (DrainOp clock v reason) \<longleftrightarrow> v \<noteq> w"
| "spares delay w t (ListOp clock order n) \<longleftrightarrow> delay = 0 \<or> time_Sub (if IsZero n then clock else n) t \<le> delay"
| "spares delay w t _ \<longleftrightarrow> True"

lemma close_chan_fields:
  "close_chan c r = Returns r' \<Longrightarrow> rg_workers r' = rg_workers r \<and> rg_cleanupDelay r' = rg_cleanupDelay r"
  by (auto simp: close_chan_def split: if_splits)

lemma DetachStream_fields:
  "DetachStream w r = Returns r' \<Longrightarrow> rg_workers r' = rg_workers r \<and> rg_cleanupDelay r' = rg_cleanupDelay r"
  by (auto simp: DetachStream_def split: option.splits outcome.splits dest: close_chan_fields)

lemma AttachStream_fields:
  "AttachStream w r = Returns (cp, r') \<Longrightarrow> rg_workers r' = rg_workers r \<and> rg_cleanupDelay r' = rg_cleanupDelay r"
  by (auto simp: AttachStream_detach split: outcome.splits dest: DetachStream_fields)

lemma try_send_fields:
  "try_send c cmd r = Returns (b, r') \<Longrightarrow> rg_workers r' = rg_workers r \<and> rg_cleanupDelay r' = rg_cleanupDelay r"
  by (auto simp: try_send_def Let_def split: if_splits)

lemma sendCommand_workers:
  assumes "sendCommand clock w cmd status r = Returns (b, r')"
  shows "rg_cleanupDelay r' = rg_cleanupDelay r \<and> (\<forall>v. v \<noteq> w \<longrightarrow> rg_workers r' v = rg_workers r v) \<and>
     (\<exists>x. rg_workers r' w = Some x \<and> wr_Status x = status) \<and>
     (\<forall>x. rg_workers r w = Some x \<longrightarrow> wr_Status x = status \<longrightarrow> rg_workers r' w = Some x)"
  using assms
  by (auto simp: sendCommand_def ensureWorkerLocked_def add_pending_def Let_def
      split: option.splits outcome.splits prod.splits bool.splits if_splits dest!: try_send_fields)

lemma mark_inactive_dead: "wr_Status x = StatusDead \<Longrightarrow> mark_inactive th now x = x"
  by (simp add: mark_inactive_def)

lemma dead_since_mark: "dead_since w t r \<Longrightarrow> dead_since w t (markInactiveLocked now r)"
  by (auto simp: dead_since_def markInactiveLocked_def mark_inactive_dead)

lemma beat_dead: "wr_Status x = StatusDead \<Longrightarrow> wr_Status (beat info now x) = StatusDead \<and> wr_LastStatusAt (beat info now x) = wr_LastStatusAt x"
  by (simp add: beat_def Let_def status_defs)

lemma dead_since_beat:
  assumes "dead_since w t r"
  shows "dead_since w t (UpdateHeartbeat clock info r)"
proof -
  define m where "m = markInactiveLocked (if IsZero (hb_Timestamp info) then clock else hb_Timestamp info) r"
  have "dead_since w t m" unfolding m_def by (rule dead_since_mark [OF assms])
  then show ?thesis unfolding UpdateHeartbeat_def Let_def m_def [symmetric]
    by (cases "w = hb_WorkerID info") (auto simp: dead_since_def beat_dead split: option.split)
qed

lemma cleanup_loop_spares:
  "cleanup_loop now ws r = Returns r' \<Longrightarrow> dead_since w t r \<Longrightarrow> time_Sub now t \<le> rg_cleanupDelay r \<Longrightarrow>
     dead_since w t r' \<and> rg_cleanupDelay r' = rg_cleanupDelay r"
proof (induction ws arbitrary: r)
  case (Cons v vs)
  obtain r1 where r1: "cleanup_one now v r = Returns r1" "cleanup_loop now vs r1 = Returns r'"
    using Cons.prems(1) by (auto split: outcome.splits)
  have "dead_since w t r1 \<and> rg_cleanupDelay r1 = rg_cleanupDelay r"
    using r1(1) Cons.prems(2,3)
    by (auto simp: cleanup_one_def dead_since_def expired_def split: option.splits if_splits dest!: DetachStream_fields)
  then show ?case using Cons.IH [OF r1(2)] Cons.prems(3) by simp
qed simp

lemma List_workers_dead:
  assumes l: "List_workers clock order n r = Returns (l, r')" and d: "dead_since w t r"
    and s: "spares (rg_cleanupDelay r) w t (ListOp clock order n)"
  shows "dead_since w t r' \<and> rg_cleanupDelay r' = rg_cleanupDelay r"
  using l s cleanup_loop_spares [OF _ dead_since_mark [OF d]] dead_since_mark [OF d]
  by (auto simp: List_workers_def cleanupInactiveLocked_def Let_def split: outcome.splits if_splits)

lemma dead_since_step:
  assumes "reg_step s op = Returns s'" and d: "dead_since w t (rs_reg s)" and sp: "spares (rg_cleanupDelay (rs_reg s)) w t op"
  shows "dead_since w t (rs_reg s') \<and> rg_cleanupDelay (rs_reg s') = rg_cleanupDelay (rs_reg s)"
proof (cases op)
  case (BeatOp clock info)
  then show ?thesis using assms dead_since_beat
    by (auto simp: UpdateHeartbeat_def Let_def split: option.split)
next
  case (AttachOp v)
  then show ?thesis using assms by (auto simp: dead_since_def split: outcome.splits dest!: AttachStream_fields)
next
  case (DetachOp v)
  then show ?thesis using assms by (auto simp: dead_since_def split: outcome.splits dest!: DetachStream_fields)
next
  case (DrainOp clock v reason)
  then show ?thesis using assms
    by (auto simp: command_step_def RequestDrain_def dead_since_def split: outcome.splits dest!: sendCommand_workers)
next
  case (KillOp clock v reason)
  then show ?thesis using assms
    by (cases "v = w") (auto simp: command_step_def RequestForceKill_def dead_since_def split: outcome.splits dest!: sendCommand_workers)
next
  case (ListOp clock order n)
  then show ?thesis using assms List_workers_dead [OF _ d] by (auto split: outcome.splits)
next
  case (ReceiveOp c)
  then show ?thesis using assms by (auto simp: dead_since_def Let_def split: list.splits)
qed

lemma dead_since_run:
  "reg_run s ops = Returns s' \<Longrightarrow> dead_since w t (rs_reg s) \<Longrightarrow> list_all (spares (rg_cleanupDelay (rs_reg s)) w t) ops \<Longrightarrow>
     dead_since w t (rs_reg s')"
proof (induction ops arbitrary: s)
  case (Cons op ops)
  then obtain s1 where s1: "reg_step s op = Returns s1" "reg_run s1 ops = Returns s'" by (auto split: outcome.splits)
  then show ?case using Cons.IH [OF s1(2)] dead_since_step [OF s1(1) Cons.prems(2)] Cons.prems(3) by simp
qed simp

text \<open>
  A killed worker stays dead.  From the request to kill a worker on, whatever its heartbeats say,
  and whatever streams, commands for other workers and listings follow, the registry reports it dead,
  as long as nobody asks to drain it and no listing comes later than the cleanup delay after it was
  declared dead.
\<close>

theorem killed_stays_dead:
  assumes kill: "reg_step s (KillOp clock w reason) = Returns s1"
    and at: "rg_workers (rs_reg s1) w = Some x"
    and quiet: "list_all (spares (rg_cleanupDelay (rs_reg s)) w (wr_LastStatusAt x)) ops"
    and run: "reg_run s1 ops = Returns s2"
  shows "wr_Status x = StatusDead \<and> (\<exists>y. rg_workers (rs_reg s2) w = Some y \<and> wr_Status y = StatusDead)"
proof -
  obtain b r where r: "RequestForceKill clock w reason (rs_reg s) = Returns (b, r)" "rs_reg s1 = r"
    using kill by (auto simp: command_step_def split: outcome.splits)
  then have "wr_Status x = StatusDead" "rg_cleanupDelay r = rg_cleanupDelay (rs_reg s)"
    using at sendCommand_workers [OF r(1) [unfolded RequestForceKill_def]] by auto
  then show ?thesis using dead_since_run [OF run, of w "wr_LastStatusAt x"] at r(2) quiet by (auto simp: dead_since_def)
qed

definition beat_w1 :: "time \<Rightarrow> HeartbeatInfo" where
  "beat_w1 t = \<lparr>hb_WorkerID = ''w1'', hb_WorkerType = ''fetch'', hb_Status = StatusActive, hb_Timestamp = t, hb_StartedAt = 1\<rparr>"

theorem killed_stays_dead_witness:
  "\<exists>s2 y. reg_run (reg_start 30 60) [BeatOp 5 (beat_w1 5), KillOp 6 ''w1'' [], BeatOp 10 (beat_w1 10), ListOp 20 [''w1''] 0] = Returns s2 \<and>
     rg_workers (rs_reg s2) ''w1'' = Some y \<and> wr_Status y = StatusDead"
proof -
  obtain s s1 s2 where s: "reg_run (reg_start 30 60) [BeatOp 5 (beat_w1 5)] = Returns s"
    and s1: "reg_step s (KillOp 6 ''w1'' []) = Returns s1"
    and s2: "reg_run s1 [BeatOp 10 (beat_w1 10), ListOp 20 [''w1''] 0] = Returns s2"
    using reg_run_inv [OF reg_start_inv, of 30 60 "[BeatOp 5 (beat_w1 5), KillOp 6 ''w1'' [], BeatOp 10 (beat_w1 10), ListOp 20 [''w1''] 0]"]
    by (auto split: outcome.splits)
  have sx: "s = reg_start 30 60 \<lparr>rs_reg := UpdateHeartbeat 5 (beat_w1 5) (NewRegistry 30 60)\<rparr>"
    using s by (simp add: reg_start_def)
  have w: "rg_workers (rs_reg s) ''w1'' = Some (new_record (beat_w1 5) 5)" "rg_cleanupDelay (rs_reg s) = 60" "rg_streams (rs_reg s) ''w1'' = None"
    unfolding sx by (simp_all add: UpdateHeartbeat_def NewRegistry_def markInactiveLocked_def beat_w1_def)
  then have x: "rg_workers (rs_reg s1) ''w1'' = Some ((new_record (beat_w1 5) 5)\<lparr>wr_Status := StatusDead, wr_LastStatusAt := 6\<rparr>)"
    using s1 by (auto simp: command_step_def RequestForceKill_def sendCommand_def ensureWorkerLocked_def add_pending_def Let_def
        new_record_def beat_w1_def normalizeStatus_def status_defs)
  have "list_all (spares (rg_cleanupDelay (rs_reg s)) ''w1'' 6) [BeatOp 10 (beat_w1 10), ListOp 20 [''w1''] 0]"
    using w(2) by (simp add: time_Sub_def)
  then have "\<exists>y. rg_workers (rs_reg s2) ''w1'' = Some y \<and> wr_Status y = StatusDead"
    using killed_stays_dead [OF s1 x _ s2] by simp
  moreover have "reg_run (reg_start 30 60) [BeatOp 5 (beat_w1 5), KillOp 6 ''w1'' [], BeatOp 10 (beat_w1 10), ListOp 20 [''w1''] 0] = Returns s2"
    using s s1 s2 by simp
  ultimately show ?thesis by blast
qed

text \<open>
  A worker that reconnects before the handler of its old stream has returned: the deferred detach of
  the old handler names the worker, not the stream, so it closes and removes the new stream.
\<close>

lemma reconnect_loses_new_stream:
  "case reg_run (reg_start 30 60) [AttachOp ''w1'', AttachOp ''w1'', DetachOp ''w1''] of
     Panics \<Rightarrow> False
   | Returns s \<Rightarrow> rg_streams (rs_reg s) ''w1'' = None \<and> map ch_closed (rg_chans (rs_reg s)) = [True, True]"
  by (simp add: reg_start_def NewRegistry_def AttachStream_def DetachStream_def make_chan_def close_chan_def)

end
