(* ===== verification/Worker_Lifecycle.thy ===== *)
theory Worker_Lifecycle
  imports Worker_Registry
begin

text \<open>
  The life of a worker process: \<^verbatim>\<open>app/worker_app.go\<close> with the loops of the workers' \<^verbatim>\<open>Start\<close>, the count of
  active tasks, drain, kill and the shutdown signal of \<^verbatim>\<open>cmd\<close>, and the monitoring client
  \<^verbatim>\<open>worker/monitoring.go\<close> that receives the commands of the registry.  The goroutines of the process are
  interleaved by a step relation; a \<^verbatim>\<open>select\<close> with several ready cases takes any of them.
\<close>

section \<open>Model\<close>

datatype WorkerType = FetchWorkerType | ParserWorkerType | ExportWorkerType | SchedulerWorkerType

text \<open>
  Where a loop of \<^verbatim>\<open>Start\<close> is: before its first round, past its test of \<^verbatim>\<open>accepting\<close>, waiting in its
  \<^verbatim>\<open>select\<close>, in a batch with the number of jobs or configurations that are left, with a message or an item
  in its hands and not counted yet, at work on it, or returned.  A consuming worker has one loop per
  queue, a polling worker one loop.
\<close>

datatype loop = Starting | Admitted | Waiting | Batch nat | Taken nat | Busy nat | Returned

text \<open>
  Where a drain is: the part that runs in the goroutine of the commands, up to the \<^verbatim>\<open>go\<close> statement, and then
  the goroutine that watches the count: about to look, having seen zero, waiting for its ticker, ended.
\<close>

datatype drain = NotDrained | Announced | IntakeStopped | Looking | SawZero | Sleeping | DrainEnded

text \<open>
  The fields of \<^verbatim>\<open>WorkerApp\<close> that change; \<open>wa_drain\<close> covers \<^verbatim>\<open>drainOnce\<close>, \<open>wa_dying\<close> is a \<^verbatim>\<open>forceKill\<close> that has
  stored the status, \<open>wa_workerDone\<close> and \<open>wa_consumeDone\<close> the cancellation of the two contexts.  Two counters
  are kept for the theorems: \<open>wa_late\<close>, the batches begun after the intake was stopped, and \<open>wa_lost\<close>, the export
  batches whose transaction ended under a cancelled context.
\<close>

record WorkerApp =
  wa_type :: WorkerType
  wa_status :: ProtoWorkerStatus
  wa_drain :: drain
  wa_workerDone :: bool
  wa_consumeDone :: bool
  wa_accepting :: bool
  wa_active :: int
  wa_loops :: "loop list"
  wa_signalled :: bool
  wa_dying :: bool
  wa_killed :: bool
  wa_exited :: bool
  wa_late :: nat
  wa_lost :: nat

definition polls :: "WorkerType \<Rightarrow> bool" where
  "polls ty \<longleftrightarrow> ty = ExportWorkerType \<or> ty = SchedulerWorkerType"

text \<open>\<^verbatim>\<open>initWorker\<close> and the start of the loops: one per queue for a consuming worker.\<close>

definition started_app :: "WorkerType \<Rightarrow> nat \<Rightarrow> WorkerApp" where
  "started_app ty queues =
     \<lparr>wa_type = ty, wa_status = WORKER_STATUS_ACTIVE, wa_drain = NotDrained, wa_workerDone = False,
      wa_consumeDone = False, wa_accepting = True, wa_active = 0,
      wa_loops = (if polls ty then [Starting] else replicate queues Waiting),
      wa_signalled = False, wa_dying = False, wa_killed = False, wa_exited = False, wa_late = 0, wa_lost = 0\<rparr>"

definition Stop :: "WorkerApp \<Rightarrow> WorkerApp" where
  "Stop a = a\<lparr>wa_workerDone := True\<rparr>"

text \<open>\<^verbatim>\<open>ActiveTasks\<close> truncates the 64-bit counter to 32 bits.\<close>

definition activeTasksCount :: "WorkerApp \<Rightarrow> int" where
  "activeTasksCount a = signed_take_bit 31 (wa_active a)"

definition currentStatus :: "WorkerApp \<Rightarrow> ProtoWorkerStatus" where
  "currentStatus a = wa_status a"

definition StopAccepting :: "WorkerApp \<Rightarrow> WorkerApp" where
  "StopAccepting a = a\<lparr>wa_accepting := False\<rparr>"

text \<open>
  \<^verbatim>\<open>beginDrain\<close> in the parts between which other goroutines run: the status, the intake, the start of the
  watching goroutine.  \<^verbatim>\<open>drainOnce\<close> lets the first call through only.
\<close>

definition drain_announce :: "WorkerApp \<Rightarrow> WorkerApp" where
  "drain_announce a = a\<lparr>wa_drain := Announced, wa_status := WORKER_STATUS_DRAINING\<rparr>"

definition drain_intake :: "WorkerApp \<Rightarrow> WorkerApp" where
  "drain_intake a =
     (let b = a\<lparr>wa_drain := IntakeStopped\<rparr>
      in case wa_type a of
           FetchWorkerType \<Rightarrow> b\<lparr>wa_consumeDone := True\<rparr>
         | ParserWorkerType \<Rightarrow> b\<lparr>wa_consumeDone := True\<rparr>
         | ExportWorkerType \<Rightarrow> StopAccepting b
         | SchedulerWorkerType \<Rightarrow> StopAccepting b)"

definition drain_watch :: "WorkerApp \<Rightarrow> WorkerApp" where
  "drain_watch a = a\<lparr>wa_drain := Looking\<rparr>"

definition beginDrain :: "WorkerApp \<Rightarrow> WorkerApp" where
  "beginDrain a = (if wa_drain a \<noteq> NotDrained then a else drain_watch (drain_intake (drain_announce a)))"

text \<open>\<^verbatim>\<open>forceKill\<close>: the status is stored, then the process exits.\<close>

definition kill_mark :: "WorkerApp \<Rightarrow> WorkerApp" where
  "kill_mark a = a\<lparr>wa_status := WORKER_STATUS_DEAD, wa_dying := True\<rparr>"

definition forceKill :: "WorkerApp \<Rightarrow> WorkerApp" where
  "forceKill a = (kill_mark a)\<lparr>wa_killed := True\<rparr>"

text \<open>\<^verbatim>\<open>handleCommand\<close>, the types of commands named as in the registry.\<close>

definition worker_handleCommand :: "CommandType \<Rightarrow> WorkerApp \<Rightarrow> WorkerApp" where
  "worker_handleCommand cmd a = (if cmd = CommandDrain then beginDrain a else if cmd = CommandForceKill then forceKill a else a)"

text \<open>Entering and leaving a handler: \<^verbatim>\<open>activeTasks.Add(1)\<close> and the deferred \<^verbatim>\<open>activeTasks.Add(-1)\<close>.\<close>

definition enter_task :: "nat \<Rightarrow> nat \<Rightarrow> WorkerApp \<Rightarrow> WorkerApp" where
  "enter_task i left a = a\<lparr>wa_active := wa_active a + 1, wa_loops := (wa_loops a)[i := Busy left]\<rparr>"

definition leave_task :: "nat \<Rightarrow> nat \<Rightarrow> WorkerApp \<Rightarrow> WorkerApp" where
  "leave_task i left a =
     a\<lparr>wa_active := wa_active a - 1, wa_loops := (wa_loops a)[i := if polls (wa_type a) then Batch left else Waiting]\<rparr>"

text \<open>The intake of a worker is stopped from the second part of the drain on.\<close>

definition stopped :: "WorkerApp \<Rightarrow> bool" where
  "stopped a \<longleftrightarrow> wa_drain a \<noteq> NotDrained \<and> wa_drain a \<noteq> Announced"

definition begin_batch :: "nat \<Rightarrow> nat \<Rightarrow> WorkerApp \<Rightarrow> WorkerApp" where
  "begin_batch i n a =
     a\<lparr>wa_loops := (wa_loops a)[i := Batch n], wa_late := (if stopped a then Suc (wa_late a) else wa_late a)\<rparr>"

definition set_loop :: "nat \<Rightarrow> loop \<Rightarrow> WorkerApp \<Rightarrow> WorkerApp" where
  "set_loop i l a = a\<lparr>wa_loops := (wa_loops a)[i := l]\<rparr>"

abbreviation consume_cancelled :: "WorkerApp \<Rightarrow> bool" where
  "consume_cancelled a \<equiv> wa_consumeDone a \<or> wa_workerDone a"

definition running :: "WorkerApp \<Rightarrow> bool" where
  "running a \<longleftrightarrow> \<not> wa_killed a \<and> \<not> wa_exited a"

abbreviation at_loop :: "WorkerApp \<Rightarrow> nat \<Rightarrow> loop \<Rightarrow> bool" where
  "at_loop a i l \<equiv> i < length (wa_loops a) \<and> wa_loops a ! i = l"

text \<open>
  One step of one goroutine; a test and the action it guards are two steps, so that others run in between.
  A waiting consumer may take a message although its context is cancelled, when both cases of the
  \<^verbatim>\<open>select\<close> are ready.  The exporter looks at \<^verbatim>\<open>accepting\<close> before its first batch, the scheduler does not.  The
  scheduler goes on to its next page without looking.  The process may die at any moment: of \<^verbatim>\<open>forceKill\<close>, of
  the \<^verbatim>\<open>Fatal\<close> that answers a failed consumer, or from outside.  The drain's goroutine looks at the count, and stops
  the worker in a later step; between two looks it waits for its ticker or the context.  \<^verbatim>\<open>Run\<close> returns when
  the monitor's context has ended and \<^verbatim>\<open>Start\<close> has returned, which for several queues is when the first of
  them has.
\<close>

inductive app_step :: "WorkerApp \<Rightarrow> WorkerApp \<Rightarrow> bool" where
  signal: "running a \<Longrightarrow> app_step a ((Stop a)\<lparr>wa_signalled := True\<rparr>)"
| announce: "running a \<Longrightarrow> wa_drain a = NotDrained \<Longrightarrow> app_step a (drain_announce a)"
| intake: "running a \<Longrightarrow> wa_drain a = Announced \<Longrightarrow> app_step a (drain_intake a)"
| watch: "running a \<Longrightarrow> wa_drain a = IntakeStopped \<Longrightarrow> app_step a (drain_watch a)"
| look_zero: "running a \<Longrightarrow> wa_drain a = Looking \<Longrightarrow> activeTasksCount a = 0 \<Longrightarrow> app_step a (a\<lparr>wa_drain := SawZero\<rparr>)"
| look_busy: "running a \<Longrightarrow> wa_drain a = Looking \<Longrightarrow> activeTasksCount a \<noteq> 0 \<Longrightarrow> app_step a (a\<lparr>wa_drain := Sleeping\<rparr>)"
| watch_tick: "running a \<Longrightarrow> wa_drain a = Sleeping \<Longrightarrow> app_step a (a\<lparr>wa_drain := Looking\<rparr>)"
| watch_end: "running a \<Longrightarrow> wa_drain a = Sleeping \<Longrightarrow> wa_workerDone a \<Longrightarrow> app_step a (a\<lparr>wa_drain := DrainEnded\<rparr>)"
| watch_stop: "running a \<Longrightarrow> wa_drain a = SawZero \<Longrightarrow> app_step a ((Stop a)\<lparr>wa_drain := DrainEnded\<rparr>)"
| dying: "running a \<Longrightarrow> app_step a (kill_mark a)"
| die: "running a \<Longrightarrow> app_step a (a\<lparr>wa_killed := True\<rparr>)"
| take: "running a \<Longrightarrow> \<not> polls (wa_type a) \<Longrightarrow> at_loop a i Waiting \<Longrightarrow> app_step a (set_loop i (Taken 0) a)"
| enter: "running a \<Longrightarrow> at_loop a i (Taken n) \<Longrightarrow> app_step a (enter_task i n a)"
| finish: "running a \<Longrightarrow> at_loop a i (Busy n) \<Longrightarrow> app_step a (leave_task i n a)"
| admit: "running a \<Longrightarrow> polls (wa_type a) \<Longrightarrow> at_loop a i Starting \<or> at_loop a i Waiting \<Longrightarrow> wa_accepting a \<Longrightarrow>
    app_step a (set_loop i Admitted a)"
| first_round: "running a \<Longrightarrow> wa_type a = SchedulerWorkerType \<Longrightarrow> at_loop a i Starting \<Longrightarrow> app_step a (set_loop i Admitted a)"
| refuse: "running a \<Longrightarrow> polls (wa_type a) \<Longrightarrow> at_loop a i Starting \<and> wa_type a = ExportWorkerType \<or> at_loop a i Waiting \<Longrightarrow>
    \<not> wa_accepting a \<Longrightarrow> app_step a (set_loop i Returned a)"
| begin_step: "running a \<Longrightarrow> at_loop a i Admitted \<Longrightarrow> app_step a (begin_batch i n a)"
| item: "running a \<Longrightarrow> at_loop a i (Batch (Suc n)) \<Longrightarrow> app_step a (set_loop i (Taken n) a)"
| page: "running a \<Longrightarrow> wa_type a = SchedulerWorkerType \<Longrightarrow> at_loop a i (Batch 0) \<Longrightarrow> app_step a (set_loop i (Batch n) a)"
| batch_end: "running a \<Longrightarrow> at_loop a i (Batch 0) \<Longrightarrow>
    app_step a ((set_loop i Waiting a)\<lparr>wa_lost := (if wa_type a = ExportWorkerType \<and> consume_cancelled a then Suc (wa_lost a) else wa_lost a)\<rparr>)"
| leave: "running a \<Longrightarrow> at_loop a i Waiting \<Longrightarrow> consume_cancelled a \<Longrightarrow> app_step a (set_loop i Returned a)"
| exit: "running a \<Longrightarrow> wa_workerDone a \<Longrightarrow> Returned \<in> set (wa_loops a) \<Longrightarrow> app_step a (a\<lparr>wa_exited := True\<rparr>)"

section \<open>What holds in every state\<close>

definition busy :: "loop \<Rightarrow> bool" where
  "busy l \<longleftrightarrow> (\<exists>n. l = Busy n)"

lemma busy_simps [simp]: "busy (Busy n)" "\<not> busy Waiting" "\<not> busy (Batch n)" "\<not> busy Returned" "\<not> busy Starting"
  "\<not> busy Admitted" "\<not> busy (Taken n)"
  by (simp_all add: busy_def)

definition busy_count :: "loop list \<Rightarrow> nat" where
  "busy_count ls = length (filter busy ls)"

lemma busy_count_update:
  "i < length ls \<Longrightarrow> busy_count (ls[i := l]) + (if busy (ls ! i) then 1 else 0) = busy_count ls + (if busy l then 1 else 0)"
proof (induction ls arbitrary: i)
  case (Cons x xs)
  show ?case
  proof (cases i)
    case 0
    then show ?thesis by (simp add: busy_count_def)
  next
    case (Suc j)
    then show ?thesis using Cons by (auto simp: busy_count_def)
  qed
qed simp

lemma busy_count_le: "busy_count ls \<le> length ls"
  by (simp add: busy_count_def)

text \<open>
  The invariant in two parts.  The loops: the counter is the number of loops at work, and a loop that may
  still begin a batch has begun none since the intake was stopped.
\<close>

definition loops_inv :: "WorkerApp \<Rightarrow> bool" where
  "loops_inv a \<longleftrightarrow>
     wa_loops a \<noteq> [] \<and> length (wa_loops a) < 2 ^ 31 \<and> (polls (wa_type a) \<longrightarrow> length (wa_loops a) = 1) \<and>
     (\<not> polls (wa_type a) \<longrightarrow> set (wa_loops a) \<subseteq> {Waiting, Taken 0, Busy 0, Returned}) \<and>
     wa_active a = int (busy_count (wa_loops a)) \<and>
     wa_late a \<le> (if stopped a \<and> polls (wa_type a) \<and> set (wa_loops a) \<inter> {Starting, Admitted} = {} then 1 else 0)"

text \<open>The flags: what a drain, a signal and a kill have set.\<close>

definition flags_inv :: "WorkerApp \<Rightarrow> bool" where
  "flags_inv a \<longleftrightarrow>
     (\<not> wa_dying a \<longrightarrow> wa_status a = (if wa_drain a \<noteq> NotDrained then WORKER_STATUS_DRAINING else WORKER_STATUS_ACTIVE)) \<and>
     (wa_drain a = NotDrained \<and> wa_dying a \<longrightarrow> wa_status a = WORKER_STATUS_DEAD) \<and>
     wa_accepting a = (\<not> (stopped a \<and> polls (wa_type a))) \<and>
     wa_consumeDone a = (stopped a \<and> \<not> polls (wa_type a)) \<and>
     (wa_workerDone a \<longrightarrow> wa_drain a = DrainEnded \<or> wa_signalled a) \<and>
     (wa_drain a = DrainEnded \<longrightarrow> wa_workerDone a) \<and>
     (0 < wa_lost a \<longrightarrow> wa_workerDone a) \<and>
     (wa_exited a \<longrightarrow> wa_workerDone a \<and> Returned \<in> set (wa_loops a))"

definition life_inv :: "WorkerApp \<Rightarrow> bool" where
  "life_inv a \<longleftrightarrow> loops_inv a \<and> flags_inv a"

lemma started_inv: "0 < queues \<Longrightarrow> queues < 2 ^ 31 \<Longrightarrow> life_inv (started_app ty queues)"
  by (cases ty) (auto simp: life_inv_def loops_inv_def flags_inv_def started_app_def polls_def busy_count_def stopped_def)

text \<open>A polling worker has one loop, so that a step replaces all of them.\<close>

lemma polls_loops: "loops_inv a \<Longrightarrow> polls (wa_type a) \<Longrightarrow> \<exists>l. wa_loops a = [l]"
  by (auto simp: loops_inv_def length_Suc_conv)

lemma update_mem: "i < length ls \<Longrightarrow> x \<in> set (ls[i := l]) \<Longrightarrow> x \<in> set ls \<or> x = l"
  using set_update_subset_insert [of ls i l] by auto

lemma stopped_cong [simp]:
  "stopped (a\<lparr>wa_loops := ls\<rparr>) = stopped a" "stopped (a\<lparr>wa_late := n\<rparr>) = stopped a" "stopped (a\<lparr>wa_active := m\<rparr>) = stopped a"
  "stopped (a\<lparr>wa_lost := n\<rparr>) = stopped a" "stopped (a\<lparr>wa_exited := e\<rparr>) = stopped a" "stopped (a\<lparr>wa_killed := e\<rparr>) = stopped a"
  "stopped (a\<lparr>wa_signalled := e\<rparr>) = stopped a" "stopped (a\<lparr>wa_workerDone := e\<rparr>) = stopped a"
  "stopped (a\<lparr>wa_status := st\<rparr>) = stopped a" "stopped (a\<lparr>wa_dying := e\<rparr>) = stopped a"
  "stopped (a\<lparr>wa_accepting := e\<rparr>) = stopped a" "stopped (a\<lparr>wa_consumeDone := e\<rparr>) = stopped a"
  "stopped (a\<lparr>wa_drain := d\<rparr>) \<longleftrightarrow> d \<noteq> NotDrained \<and> d \<noteq> Announced"
  by (simp_all add: stopped_def)

text \<open>
  The step of a loop from \<open>l0\<close> to \<open>l\<close>, with the change of the counter that belongs to it; only the admission
  of a worker that still accepts leads back to a loop that may begin a batch.
\<close>

lemma loop_inv:
  assumes inv: "loops_inv a" and i: "at_loop a i l0"
    and kind: "\<not> polls (wa_type a) \<Longrightarrow> l \<in> {Waiting, Taken 0, Busy 0, Returned}"
    and late: "l = Starting \<or> l = Admitted \<Longrightarrow> wa_late a = 0" and from_late: "wa_late a = 0 \<or> late = wa_late a \<or> late = 0"
    and late': "late \<le> (if stopped a \<and> polls (wa_type a) \<and> l \<noteq> Starting \<and> l \<noteq> Admitted then 1 else 0)"
  shows "loops_inv (a\<lparr>wa_active := wa_active a + (if busy l then 1 else 0) - (if busy l0 then 1 else 0),
     wa_loops := (wa_loops a)[i := l], wa_late := late\<rparr>)"
proof -
  have b: "int (busy_count ((wa_loops a)[i := l])) = int (busy_count (wa_loops a)) + (if busy l then 1 else 0) - (if busy l0 then 1 else 0)"
    using busy_count_update [of i "wa_loops a" l] i by (auto split: if_splits)
  have "late \<le> (if stopped a \<and> polls (wa_type a) \<and> set ((wa_loops a)[i := l]) \<inter> {Starting, Admitted} = {} then 1 else 0)"
  proof (cases "polls (wa_type a)")
    case True
    then obtain k where "wa_loops a = [k]" using polls_loops [OF inv] by blast
    then show ?thesis using late' i by (auto split: if_splits)
  qed (use late' in simp)
  moreover have "set ((wa_loops a)[i := l]) \<subseteq> {Waiting, Taken 0, Busy 0, Returned}" if "\<not> polls (wa_type a)"
    using that inv kind update_mem [of i "wa_loops a" _ l] i by (fastforce simp: loops_inv_def)
  ultimately show ?thesis using inv b by (simp add: loops_inv_def)
qed

text \<open>The common cases of it: the counter stays, a handler is entered, a handler is left.\<close>

lemma move_inv:
  assumes "loops_inv a" and "at_loop a i l0" and "\<not> busy l0" and "\<not> busy l"
    and "\<not> polls (wa_type a) \<Longrightarrow> l \<in> {Waiting, Taken 0, Busy 0, Returned}"
    and "l = Starting \<or> l = Admitted \<Longrightarrow> wa_late a = 0"
  shows "loops_inv (set_loop i l a)"
proof -
  have "wa_late a \<le> (if stopped a \<and> polls (wa_type a) \<and> l \<noteq> Starting \<and> l \<noteq> Admitted then 1 else 0)"
    using assms(1,6) by (auto simp: loops_inv_def split: if_splits)
  then show ?thesis using loop_inv [OF assms(1,2), of l "wa_late a"] assms(3-6) by (simp add: set_loop_def)
qed

lemma late_bound: "loops_inv a \<Longrightarrow> wa_late a \<le> (if stopped a \<and> polls (wa_type a) then 1 else 0)"
  by (auto simp: loops_inv_def split: if_splits)

lemma late_zero: "loops_inv a \<Longrightarrow> at_loop a i Starting \<or> at_loop a i Admitted \<or> \<not> stopped a \<Longrightarrow> wa_late a = 0"
proof -
  assume inv: "loops_inv a" and a: "at_loop a i Starting \<or> at_loop a i Admitted \<or> \<not> stopped a"
  then have "set (wa_loops a) \<inter> {Starting, Admitted} \<noteq> {} \<or> \<not> stopped a" by (metis IntI insertCI nth_mem empty_iff)
  then show ?thesis using inv unfolding loops_inv_def by (auto split: if_splits)
qed

lemma consumer_kinds:
  "loops_inv a \<Longrightarrow> \<not> polls (wa_type a) \<Longrightarrow> at_loop a i l \<Longrightarrow> l \<in> {Waiting, Taken 0, Busy 0, Returned}"
  by (auto simp: loops_inv_def dest!: nth_mem)

lemma enter_inv:
  assumes "loops_inv a" and "at_loop a i (Taken n)"
  shows "loops_inv (enter_task i n a)"
  using loop_inv [OF assms, of "Busy n" "wa_late a"] late_bound [OF assms(1)] consumer_kinds [OF assms(1) _ assms(2)]
  by (simp add: enter_task_def)

lemma finish_inv:
  assumes "loops_inv a" and "at_loop a i (Busy n)"
  shows "loops_inv (leave_task i n a)"
  using loop_inv [OF assms, of "if polls (wa_type a) then Batch n else Waiting" "wa_late a"] late_bound [OF assms(1)]
    consumer_kinds [OF assms(1) _ assms(2)]
  by (auto simp: leave_task_def split: if_splits)

lemma begin_inv:
  assumes "loops_inv a" and "at_loop a i Admitted"
  shows "loops_inv (begin_batch i n a)"
proof -
  have p: "polls (wa_type a)" using consumer_kinds [OF assms(1) _ assms(2)] by auto
  have "wa_late a = 0" using late_zero [OF assms(1)] assms(2) by blast
  then show ?thesis using loop_inv [OF assms, of "Batch n" "if stopped a then 1 else 0"] p
    by (cases "stopped a") (simp_all add: begin_batch_def)
qed

text \<open>Steps that leave the loops alone.\<close>

lemma loops_inv_cong:
  "loops_inv a \<Longrightarrow> wa_loops b = wa_loops a \<Longrightarrow> wa_type b = wa_type a \<Longrightarrow> wa_active b = wa_active a \<Longrightarrow> wa_late b = wa_late a \<Longrightarrow>
   (stopped a \<Longrightarrow> stopped b) \<Longrightarrow> loops_inv b"
  by (auto simp: loops_inv_def split: if_splits)

lemmas step_defs = drain_announce_def drain_intake_def drain_watch_def StopAccepting_def Stop_def kill_mark_def
  enter_task_def leave_task_def begin_batch_def set_loop_def Let_def

lemma step_loops:
  assumes "app_step a b" and inv: "loops_inv a" and flags: "flags_inv a"
  shows "loops_inv b"
  using assms(1)
proof cases
  case (take i)
  then show ?thesis using move_inv [OF inv, of i Waiting "Taken 0"] by simp
next
  case (enter i n)
  then show ?thesis using enter_inv [OF inv] by simp
next
  case (finish i n)
  then show ?thesis using finish_inv [OF inv] by simp
next
  case (admit i)
  then have "wa_late a = 0" using flags late_zero [OF inv, of i] by (auto simp: flags_inv_def)
  then show ?thesis using admit move_inv [OF inv, of i "wa_loops a ! i" Admitted] by auto
next
  case (first_round i)
  then show ?thesis using late_zero [OF inv, of i] move_inv [OF inv, of i Starting Admitted] by (simp add: polls_def)
next
  case (refuse i)
  then show ?thesis using move_inv [OF inv, of i "wa_loops a ! i" Returned] by auto
next
  case (begin_step i n)
  then show ?thesis using begin_inv [OF inv] by simp
next
  case (item i n)
  then show ?thesis using move_inv [OF inv, of i _ "Taken n"] consumer_kinds [OF inv, of i] by fastforce
next
  case (page i n)
  then show ?thesis using move_inv [OF inv, of i _ "Batch n"] by (simp add: polls_def)
next
  case (batch_end i)
  then have "loops_inv (set_loop i Waiting a)" using move_inv [OF inv, of i _ Waiting] by simp
  then show ?thesis using batch_end by (auto intro: loops_inv_cong)
next
  case (leave i)
  then show ?thesis using move_inv [OF inv, of i _ Returned] by simp
next
  case intake
  then show ?thesis using inv by (cases "wa_type a") (auto simp: step_defs stopped_def elim!: loops_inv_cong)
qed (use inv in \<open>auto simp: step_defs stopped_def elim!: loops_inv_cong\<close>)

lemma step_flags:
  assumes "app_step a b" and flags: "flags_inv a"
  shows "flags_inv b"
  using assms(1)
proof cases
  case intake
  then show ?thesis using flags by (cases "wa_type a") (auto simp: step_defs flags_inv_def stopped_def polls_def)
next
  case (batch_end i)
  moreover have "wa_type a = ExportWorkerType \<Longrightarrow> consume_cancelled a \<Longrightarrow> wa_workerDone a"
    using flags by (auto simp: flags_inv_def polls_def)
  ultimately show ?thesis using flags unfolding flags_inv_def by (simp add: set_loop_def running_def split: if_splits)
qed (use flags in \<open>auto simp: step_defs flags_inv_def stopped_def running_def\<close>)

lemma step_inv: "app_step a b \<Longrightarrow> life_inv a \<Longrightarrow> life_inv b"
  using step_loops step_flags by (auto simp: life_inv_def)

lemma reachable_inv: "app_step\<^sup>*\<^sup>* a b \<Longrightarrow> life_inv a \<Longrightarrow> life_inv b"
  by (induction rule: rtranclp_induct) (auto intro: step_inv)

text \<open>A drain command that is handled without interruption takes the three steps of the drain.\<close>

lemma drain_command_steps: "running a \<Longrightarrow> app_step\<^sup>*\<^sup>* a (worker_handleCommand CommandDrain a)"
proof (cases "wa_drain a = NotDrained")
  case True
  assume run: "running a"
  have "app_step a (drain_announce a)" using run True by (rule app_step.announce)
  moreover have "app_step (drain_announce a) (drain_intake (drain_announce a))"
    by (rule app_step.intake) (use run in \<open>simp_all add: step_defs running_def\<close>)
  moreover have "app_step (drain_intake (drain_announce a)) (drain_watch (drain_intake (drain_announce a)))"
    by (rule app_step.watch) (use run in \<open>cases "wa_type a"; simp add: step_defs running_def\<close>)+
  ultimately show ?thesis using True by (simp add: worker_handleCommand_def beginDrain_def)
qed (simp add: worker_handleCommand_def beginDrain_def)

lemma active_count: "loops_inv a \<Longrightarrow> activeTasksCount a = int (busy_count (wa_loops a))"
  using busy_count_le [of "wa_loops a"] by (simp add: loops_inv_def activeTasksCount_def signed_take_bit_int_eq_self)

lemma active_zero: "loops_inv a \<Longrightarrow> activeTasksCount a = 0 \<longleftrightarrow> (\<forall>l \<in> set (wa_loops a). \<not> busy l)"
  by (auto simp: active_count busy_count_def filter_empty_conv)

lemma step_type: "app_step a b \<Longrightarrow> wa_type b = wa_type a"
proof -
  assume "app_step a b"
  then show ?thesis
  proof cases
    case intake
    then show ?thesis by (cases "wa_type a") (simp_all add: step_defs)
  qed (simp_all add: step_defs)
qed

lemma reachable_type: "app_step\<^sup>*\<^sup>* a b \<Longrightarrow> wa_type b = wa_type a"
  by (induction rule: rtranclp_induct) (simp_all add: step_type)

text \<open>
  Where a stop without a signal comes from: an earlier moment, after the intake was stopped, at which the
  drain's goroutine looked and no loop was at work.
\<close>

definition idle_look :: "WorkerApp \<Rightarrow> WorkerApp \<Rightarrow> WorkerApp \<Rightarrow> bool" where
  "idle_look s a c \<longleftrightarrow> app_step\<^sup>*\<^sup>* s c \<and> app_step\<^sup>*\<^sup>* c a \<and> wa_drain c = Looking \<and> (\<forall>l \<in> set (wa_loops c). \<not> busy l)"

lemma stop_has_look:
  assumes "app_step\<^sup>*\<^sup>* s a" and "life_inv s" and "wa_drain s = NotDrained" and "\<not> wa_workerDone s"
    and "wa_drain a = SawZero \<or> wa_workerDone a \<and> \<not> wa_signalled a"
  shows "\<exists>c. idle_look s a c"
  using assms(1,5)
proof (induction rule: rtranclp_induct)
  case base
  then show ?case using assms(3,4) by simp
next
  case (step b a)
  have inv: "loops_inv b" using reachable_inv [OF step(1) assms(2)] by (simp add: life_inv_def)
  have trans: "idle_look s b c \<Longrightarrow> idle_look s a c" for c using step(2) by (auto simp: idle_look_def)
  have "wa_drain b = SawZero \<or> wa_workerDone b \<and> \<not> wa_signalled b \<or> idle_look s a b"
    using step(2)
  proof cases
    case look_zero
    then show ?thesis using step(1,2) active_zero [OF inv] by (auto simp: idle_look_def)
  next
    case intake
    then show ?thesis using step(4) by (cases "wa_type b") (auto simp: step_defs)
  qed (use step(4) in \<open>auto simp: step_defs\<close>)
  then show ?case using step(3) trans by blast
qed

text \<open>
  C17. A worker drains as it says.  In every state its goroutines can reach together, with every test
  and the action it guards taken apart: the count of active tasks is the number of handlers at work; the
  reported status is draining from the first drain command on, before it active, and dead once it is being
  killed and was not drained; the worker's context ends for a signal or a drain only, and when no signal
  came there was a moment, after the intake was stopped, at which the drain looked and nothing was at
  work; an exporter or a scheduler begins at most one batch after its intake was stopped, the one it was
  about to begin; and a worker with one loop that has exited has returned from it, with no task in
  progress.
\<close>

theorem drain_protocol:
  assumes "0 < queues" and "queues < 2 ^ 31" and "app_step\<^sup>*\<^sup>* (started_app ty queues) a"
  shows "activeTasksCount a = int (busy_count (wa_loops a)) \<and>
     (\<not> wa_dying a \<longrightarrow> currentStatus a = (if wa_drain a \<noteq> NotDrained then WORKER_STATUS_DRAINING else WORKER_STATUS_ACTIVE)) \<and>
     (wa_dying a \<and> wa_drain a = NotDrained \<longrightarrow> currentStatus a = WORKER_STATUS_DEAD) \<and>
     (wa_workerDone a \<and> \<not> wa_signalled a \<longrightarrow>
        (\<exists>c. app_step\<^sup>*\<^sup>* (started_app ty queues) c \<and> app_step\<^sup>*\<^sup>* c a \<and> wa_drain c = Looking \<and>
           \<not> wa_accepting c = polls ty \<and> (\<forall>l \<in> set (wa_loops c). \<not> busy l))) \<and>
     wa_late a \<le> (if polls ty \<and> stopped a then 1 else 0) \<and>
     (wa_exited a \<and> length (wa_loops a) = 1 \<longrightarrow> wa_loops a = [Returned])"
proof -
  have inv: "loops_inv a" "flags_inv a" using reachable_inv [OF assms(3) started_inv [OF assms(1,2)]] by (simp_all add: life_inv_def)
  have ty: "wa_type b = ty" if "app_step\<^sup>*\<^sup>* (started_app ty queues) b" for b
    using reachable_type [OF that] by (simp add: started_app_def)
  have "\<exists>c. app_step\<^sup>*\<^sup>* (started_app ty queues) c \<and> app_step\<^sup>*\<^sup>* c a \<and> wa_drain c = Looking \<and>
      \<not> wa_accepting c = polls ty \<and> (\<forall>l \<in> set (wa_loops c). \<not> busy l)"
    if stop: "wa_workerDone a \<and> \<not> wa_signalled a"
  proof -
    have "wa_drain (started_app ty queues) = NotDrained" "\<not> wa_workerDone (started_app ty queues)"
      by (simp_all add: started_app_def)
    then obtain c where c: "idle_look (started_app ty queues) a c"
      using stop_has_look [OF assms(3) started_inv [OF assms(1,2)]] stop by blast
    then have "flags_inv c" using reachable_inv [OF _ started_inv [OF assms(1,2)]] by (auto simp: idle_look_def life_inv_def)
    then show ?thesis using c ty [of c] by (auto simp: idle_look_def flags_inv_def stopped_def)
  qed
  moreover have "wa_loops a = [Returned]" if "wa_exited a \<and> length (wa_loops a) = 1"
    using that inv(2) by (auto simp: flags_inv_def length_Suc_conv)
  moreover have "wa_late a \<le> (if polls ty \<and> stopped a then 1 else 0)"
    using late_bound [OF inv(1)] ty [OF assms(3)] by (simp add: conj_commute)
  moreover have "\<not> wa_dying a \<longrightarrow> currentStatus a = (if wa_drain a \<noteq> NotDrained then WORKER_STATUS_DRAINING else WORKER_STATUS_ACTIVE)"
    "wa_dying a \<and> wa_drain a = NotDrained \<longrightarrow> currentStatus a = WORKER_STATUS_DEAD"
    using inv(2) by (simp_all add: flags_inv_def currentStatus_def)
  ultimately show ?thesis using active_count [OF inv(1)] by blast
qed

text \<open>The witness: an exporter that is drained in its first batch, and stopped between two of its jobs.\<close>

lemmas app_defs = step_defs started_app_def polls_def worker_handleCommand_def beginDrain_def activeTasksCount_def running_def

definition exporting :: "nat \<Rightarrow> WorkerApp" where
  "exporting n = enter_task 0 n (set_loop 0 (Taken n) (begin_batch 0 (Suc n) (set_loop 0 Admitted (started_app ExportWorkerType 1))))"

lemma exporting_reached: "app_step\<^sup>*\<^sup>* (started_app ExportWorkerType 1) (exporting n)"
proof -
  let ?a = "set_loop 0 Admitted (started_app ExportWorkerType 1)"
  let ?b = "begin_batch 0 (Suc n) ?a"
  have "app_step (started_app ExportWorkerType 1) ?a" by (rule app_step.admit) (simp_all add: app_defs)
  moreover have "app_step ?a ?b" by (rule app_step.begin_step) (simp_all add: app_defs)
  moreover have "app_step ?b (set_loop 0 (Taken n) ?b)" by (rule app_step.item) (simp_all add: app_defs)
  moreover have "app_step (set_loop 0 (Taken n) ?b) (exporting n)"
    unfolding exporting_def by (rule app_step.enter) (simp_all add: app_defs)
  ultimately show ?thesis by (meson converse_rtranclp_into_rtranclp rtranclp.rtrancl_refl)
qed

definition drained_export :: "nat \<Rightarrow> WorkerApp" where
  "drained_export n = leave_task 0 n (worker_handleCommand CommandDrain (exporting n))"

lemma drained_export_reached: "app_step\<^sup>*\<^sup>* (started_app ExportWorkerType 1) (drained_export n)"
proof -
  have "app_step\<^sup>*\<^sup>* (exporting n) (worker_handleCommand CommandDrain (exporting n))"
    by (rule drain_command_steps) (simp add: exporting_def app_defs)
  moreover have "app_step (worker_handleCommand CommandDrain (exporting n)) (drained_export n)"
    unfolding drained_export_def by (rule app_step.finish) (simp_all add: exporting_def app_defs)
  ultimately show ?thesis using exporting_reached [of n] by (meson rtranclp.rtrancl_into_rtrancl rtranclp_trans)
qed

definition stopped_export :: "nat \<Rightarrow> WorkerApp" where
  "stopped_export n = (Stop (drained_export n))\<lparr>wa_drain := DrainEnded\<rparr>"

lemma stopped_export_reached: "app_step\<^sup>*\<^sup>* (started_app ExportWorkerType 1) (stopped_export n)"
proof -
  have "app_step (drained_export n) ((drained_export n)\<lparr>wa_drain := SawZero\<rparr>)"
    by (rule app_step.look_zero) (simp_all add: drained_export_def exporting_def app_defs)
  moreover have "app_step ((drained_export n)\<lparr>wa_drain := SawZero\<rparr>) (stopped_export n)"
    using app_step.watch_stop [of "(drained_export n)\<lparr>wa_drain := SawZero\<rparr>"]
    by (simp add: stopped_export_def drained_export_def exporting_def app_defs)
  ultimately show ?thesis using drained_export_reached [of n] by (meson rtranclp.rtrancl_into_rtrancl)
qed

theorem drain_protocol_witness:
  "activeTasksCount (stopped_export 1) = 0 \<and> currentStatus (stopped_export 1) = WORKER_STATUS_DRAINING \<and>
   wa_late (stopped_export 1) \<le> 1 \<and> wa_loops (stopped_export 1) = [Batch 1] \<and>
   (\<exists>c. app_step\<^sup>*\<^sup>* c (stopped_export 1) \<and> wa_drain c = Looking \<and> \<not> wa_accepting c \<and> (\<forall>l \<in> set (wa_loops c). \<not> busy l))"
proof -
  have "wa_workerDone (stopped_export 1) \<and> \<not> wa_signalled (stopped_export 1)" "wa_drain (stopped_export 1) = DrainEnded"
    "\<not> wa_dying (stopped_export 1)" "wa_loops (stopped_export 1) = [Batch 1]" "polls ExportWorkerType"
    by (simp_all add: stopped_export_def drained_export_def exporting_def app_defs)
  then show ?thesis using drain_protocol [OF _ _ stopped_export_reached [of 1]] by (auto simp: busy_count_def stopped_def)
qed

text \<open>
  What the count of active tasks does not cover: between two jobs of a batch the count is zero, so a
  drain may end the context of the worker there, and with it the transaction of the batch, whose jobs
  are then exported again although their reports were written.
\<close>

lemma drain_aborts_batch:
  "\<exists>a. app_step\<^sup>*\<^sup>* (started_app ExportWorkerType 1) a \<and> \<not> wa_signalled a \<and> \<not> wa_killed a \<and> wa_lost a = 1"
proof -
  let ?a = "stopped_export 1"
  let ?b = "set_loop 0 (Taken 0) ?a"
  let ?c = "enter_task 0 0 ?b"
  let ?d = "leave_task 0 0 ?c"
  let ?e = "(set_loop 0 Waiting ?d)\<lparr>wa_lost := (if wa_type ?d = ExportWorkerType \<and> consume_cancelled ?d then Suc (wa_lost ?d) else wa_lost ?d)\<rparr>"
  note defs = stopped_export_def drained_export_def exporting_def app_defs
  have "app_step ?a ?b" by (rule app_step.item) (simp_all add: defs)
  moreover have "app_step ?b ?c" by (rule app_step.enter) (simp_all add: defs)
  moreover have "app_step ?c ?d" by (rule app_step.finish) (simp_all add: defs)
  moreover have "app_step ?d ?e" by (rule app_step.batch_end) (simp_all add: defs)
  ultimately have "app_step\<^sup>*\<^sup>* (started_app ExportWorkerType 1) ?e"
    using stopped_export_reached [of 1] by (meson rtranclp.rtrancl_into_rtrancl)
  moreover have "\<not> wa_signalled ?e \<and> \<not> wa_killed ?e \<and> wa_lost ?e = 1" by (simp add: defs)
  ultimately show ?thesis by blast
qed

text \<open>
  Nor does it cover a message that was received and is not counted yet: a drain may see zero while a consumer
  holds one, and end the worker's context under its handler.
\<close>

lemma drain_misses_taken:
  "\<exists>a. app_step\<^sup>*\<^sup>* (started_app FetchWorkerType 1) a \<and> wa_workerDone a \<and> \<not> wa_signalled a \<and> wa_loops a = [Busy 0]"
proof -
  let ?s = "set_loop 0 (Taken 0) (started_app FetchWorkerType 1)"
  let ?a = "beginDrain ?s"
  let ?b = "?a\<lparr>wa_drain := SawZero\<rparr>"
  let ?c = "enter_task 0 0 ?b"
  let ?d = "(Stop ?c)\<lparr>wa_drain := DrainEnded\<rparr>"
  have "app_step (started_app FetchWorkerType 1) ?s" by (rule app_step.take) (simp_all add: app_defs)
  moreover have "app_step\<^sup>*\<^sup>* ?s ?a" using drain_command_steps [of ?s] by (simp add: worker_handleCommand_def running_def app_defs)
  moreover have "app_step ?a ?b" by (rule app_step.look_zero) (simp_all add: app_defs)
  moreover have "app_step ?b ?c" by (rule app_step.enter) (simp_all add: app_defs)
  moreover have "app_step ?c ?d" by (rule app_step.watch_stop) (simp_all add: app_defs)
  ultimately have "app_step\<^sup>*\<^sup>* (started_app FetchWorkerType 1) ?d"
    by (meson rtranclp.rtrancl_into_rtrancl rtranclp_trans converse_rtranclp_into_rtranclp)
  moreover have "wa_workerDone ?d \<and> \<not> wa_signalled ?d \<and> wa_loops ?d = [Busy 0]" by (simp add: app_defs)
  ultimately show ?thesis by blast
qed

section \<open>A drain completes\<close>

text \<open>What is left to do before the process exits: the rounds that may still begin, and then the work begun.\<close>

fun loop_start :: "loop \<Rightarrow> nat" where
  "loop_start Starting = 2"
| "loop_start Admitted = 1"
| "loop_start l = 0"

fun loop_work :: "loop \<Rightarrow> nat" where
  "loop_work (Batch n) = 3 * n + 2"
| "loop_work (Taken n) = 3 * n + 4"
| "loop_work (Busy n) = 3 * n + 3"
| "loop_work Waiting = 1"
| "loop_work l = 0"

fun drain_work :: "drain \<Rightarrow> nat" where
  "drain_work NotDrained = 7"
| "drain_work Announced = 6"
| "drain_work IntakeStopped = 5"
| "drain_work Sleeping = 4"
| "drain_work Looking = 3"
| "drain_work SawZero = 2"
| "drain_work DrainEnded = 0"

definition starts :: "WorkerApp \<Rightarrow> nat" where
  "starts a = sum_list (map loop_start (wa_loops a))"

definition work :: "WorkerApp \<Rightarrow> nat" where
  "work a = sum_list (map loop_work (wa_loops a)) + drain_work (wa_drain a) + (if wa_exited a then 0 else 1)"

text \<open>
  The steps that complete what was begun: each leaves fewer rounds to begin, or as many and less work; no signal
  comes, no message is taken and no further page is read.
\<close>

definition completes :: "WorkerApp \<Rightarrow> WorkerApp \<Rightarrow> bool" where
  "completes a b \<longleftrightarrow> app_step a b \<and> wa_signalled b = wa_signalled a \<and>
     (starts b < starts a \<or> starts b = starts a \<and> work b < work a)"

lemma sum_update:
  fixes f :: "loop \<Rightarrow> nat"
  shows "i < length ls \<Longrightarrow> sum_list (map f (ls[i := l])) + f (ls ! i) = sum_list (map f ls) + f l"
proof (induction ls arbitrary: i)
  case (Cons x xs)
  then show ?case by (cases i) auto
qed simp

lemma completes_ends: "wf {(b, a). completes a b}"
  by (rule wf_subset [of "inv_image (less_than <*lex*> less_than) (\<lambda>a. (starts a, work a))"]) (auto simp: completes_def)

lemma step_drained:
  assumes "app_step a b" and "wa_drain a \<noteq> NotDrained"
  shows "wa_drain b \<noteq> NotDrained"
  using assms(1)
proof cases
  case intake
  then show ?thesis by (cases "wa_type a") (simp_all add: step_defs)
qed (use assms(2) in \<open>simp_all add: step_defs\<close>)

lemma completes_alive: "completes a b \<Longrightarrow> \<not> wa_killed a \<Longrightarrow> \<not> wa_killed b"
proof -
  assume c: "completes a b" and k: "\<not> wa_killed a"
  then have "app_step a b" by (simp add: completes_def)
  then show ?thesis
  proof cases
    case intake
    then show ?thesis using k by (cases "wa_type a") (simp_all add: step_defs)
  qed (use c k in \<open>simp_all add: step_defs completes_def starts_def work_def\<close>)
qed

lemma loop_progress:
  assumes "app_step a b" and "at_loop a i l0" and "wa_loops b = (wa_loops a)[i := l]" and "wa_drain b = wa_drain a"
    and "wa_exited b = wa_exited a" and "wa_signalled b = wa_signalled a"
    and "loop_start l < loop_start l0 \<or> loop_start l = loop_start l0 \<and> loop_work l < loop_work l0"
  shows "\<exists>b. completes a b"
proof -
  have "sum_list (map loop_start (wa_loops b)) + loop_start l0 = sum_list (map loop_start (wa_loops a)) + loop_start l"
    "sum_list (map loop_work (wa_loops b)) + loop_work l0 = sum_list (map loop_work (wa_loops a)) + loop_work l"
    using sum_update [of i "wa_loops a"] assms(2,3) by auto
  then have "completes a b" using assms by (auto simp: completes_def starts_def work_def)
  then show ?thesis by blast
qed

lemma drain_progress:
  assumes "app_step a b" and "wa_loops b = wa_loops a" and "wa_exited b = wa_exited a" and "wa_signalled b = wa_signalled a"
    and "drain_work (wa_drain b) < drain_work (wa_drain a)"
  shows "\<exists>b. completes a b"
  using assms by (intro exI [of _ b]) (simp add: completes_def starts_def work_def)

text \<open>A loop that has not returned can go on, once the intake is stopped.\<close>

lemma loop_goes_on:
  assumes inv: "loops_inv a" "flags_inv a" and st: "stopped a" and run: "running a" and i: "at_loop a i l" "l \<noteq> Returned"
  shows "\<exists>b. completes a b"
proof -
  have flags: "wa_accepting a = (\<not> polls (wa_type a))" "wa_consumeDone a = (\<not> polls (wa_type a))"
    using inv(2) st by (simp_all add: flags_inv_def)
  show ?thesis
  proof (cases l)
    case Starting
    then have p: "polls (wa_type a)" using consumer_kinds [OF inv(1) _ i(1)] by auto
    show ?thesis
    proof (cases "wa_type a = SchedulerWorkerType")
      case True
      show ?thesis by (rule loop_progress [OF app_step.first_round [OF run True] i(1), of i Admitted])
        (use i Starting in \<open>simp_all add: set_loop_def\<close>)
    next
      case False
      show ?thesis by (rule loop_progress [OF app_step.refuse [OF run p] i(1), of i Returned])
        (use i Starting p False flags in \<open>auto simp: set_loop_def polls_def\<close>)
    qed
  next
    case Admitted
    show ?thesis by (rule loop_progress [OF app_step.begin_step [OF run] i(1), of i 0 "Batch 0"])
      (use i Admitted in \<open>simp_all add: begin_batch_def\<close>)
  next
    case Waiting
    have "app_step a (set_loop i Returned a)"
      using app_step.refuse [OF run, of i] app_step.leave [OF run, of i] i Waiting flags by blast
    then show ?thesis by (rule loop_progress [OF _ i(1), of _ Returned]) (use Waiting in \<open>simp_all add: set_loop_def\<close>)
  next
    case (Batch n)
    show ?thesis
    proof (cases n)
      case 0
      show ?thesis by (rule loop_progress [OF app_step.batch_end [OF run] i(1), of i Waiting])
        (use i Batch 0 in \<open>simp_all add: set_loop_def\<close>)
    next
      case (Suc m)
      show ?thesis by (rule loop_progress [OF app_step.item [OF run, of i m] i(1), of "Taken m"])
        (use i Batch Suc in \<open>simp_all add: set_loop_def\<close>)
    qed
  next
    case (Taken n)
    show ?thesis by (rule loop_progress [OF app_step.enter [OF run, of i n] i(1), of "Busy n"])
      (use i Taken in \<open>simp_all add: enter_task_def\<close>)
  next
    case (Busy n)
    show ?thesis by (rule loop_progress [OF app_step.finish [OF run, of i n] i(1), of "if polls (wa_type a) then Batch n else Waiting"])
      (use i Busy in \<open>simp_all add: leave_task_def\<close>)
  qed (use i in simp)
qed

lemma progress:
  assumes inv: "loops_inv a" "flags_inv a" and d: "wa_drain a \<noteq> NotDrained" and run: "running a"
  shows "\<exists>b. completes a b"
proof -
  consider "wa_drain a = Announced" | "wa_drain a = IntakeStopped" | "stopped a" "\<exists>i l. at_loop a i l \<and> l \<noteq> Returned"
    | "stopped a" "wa_drain a \<noteq> IntakeStopped" "\<forall>l \<in> set (wa_loops a). l = Returned"
    using d in_set_conv_nth [of _ "wa_loops a"] by (metis stopped_def)
  then show ?thesis
  proof cases
    case 1
    show ?thesis by (rule drain_progress [OF app_step.intake [OF run 1]])
      (use 1 in \<open>cases "wa_type a"; simp add: drain_intake_def StopAccepting_def\<close>)+
  next
    case 2
    show ?thesis by (rule drain_progress [OF app_step.watch [OF run 2]]) (use 2 in \<open>simp_all add: drain_watch_def\<close>)
  next
    case 3
    then show ?thesis using loop_goes_on [OF inv _ run] by blast
  next
    case 4
    then have zero: "activeTasksCount a = 0" and ret: "Returned \<in> set (wa_loops a)"
      using active_zero [OF inv(1)] inv(1) by (auto simp: loops_inv_def neq_Nil_conv)
    show ?thesis
    proof (cases "wa_drain a")
      case Looking
      show ?thesis by (rule drain_progress [OF app_step.look_zero [OF run Looking zero]]) (use Looking in simp_all)
    next
      case SawZero
      show ?thesis by (rule drain_progress [OF app_step.watch_stop [OF run SawZero]]) (use SawZero in \<open>simp_all add: Stop_def\<close>)
    next
      case Sleeping
      show ?thesis by (rule drain_progress [OF app_step.watch_tick [OF run Sleeping]]) (use Sleeping in simp_all)
    next
      case DrainEnded
      then have "wa_workerDone a" using inv(2) by (simp add: flags_inv_def)
      then have "completes a (a\<lparr>wa_exited := True\<rparr>)"
        using app_step.exit [OF run _ ret] run by (simp add: completes_def starts_def work_def running_def)
      then show ?thesis by blast
    qed (use 4 in \<open>simp_all add: stopped_def\<close>)
  qed
qed

text \<open>
  C27. A drain completes.  From every state a drained worker can be in, the steps that finish what was
  begun lead to the exit of the process, without a signal from outside: as long as it has not exited one of
  them is possible, there is no infinite sequence of them, and so every sequence of them ends with the
  process gone.
\<close>

theorem drain_completes:
  assumes "0 < queues" and "queues < 2 ^ 31" and "app_step\<^sup>*\<^sup>* (started_app ty queues) a"
    and "wa_drain a \<noteq> NotDrained" and "\<not> wa_killed a"
  shows "(\<exists>b. completes\<^sup>*\<^sup>* a b \<and> wa_exited b \<and> wa_signalled b = wa_signalled a) \<and>
     (\<forall>b. completes\<^sup>*\<^sup>* a b \<and> (\<forall>c. \<not> completes b c) \<longrightarrow> wa_exited b) \<and> wf {(c, b). completes b c}"
proof -
  have inv: "life_inv a" using reachable_inv [OF assms(3) started_inv [OF assms(1,2)]] .
  have P: "life_inv b \<and> wa_drain b \<noteq> NotDrained \<and> \<not> wa_killed b \<and> wa_signalled b = wa_signalled a" if "completes\<^sup>*\<^sup>* a b" for b
    using that
  proof (induction rule: rtranclp_induct)
    case (step b c)
    then show ?case using completes_alive [OF step(2)] step_inv [of b c] step_drained [of b c] by (simp add: completes_def)
  qed (use inv assms in simp)
  have e: "wa_exited b" if "completes\<^sup>*\<^sup>* a b" "\<forall>c. \<not> completes b c" for b
    using P [OF that(1)] progress [of b] that(2) by (auto simp: running_def life_inv_def)
  have "\<exists>b. completes\<^sup>*\<^sup>* x b \<and> (\<forall>c. \<not> completes b c)" for x
    using completes_ends
  proof (induction x rule: wf_induct_rule)
    case (less x)
    show ?case
    proof (cases "\<exists>c. completes x c")
      case True
      then obtain c where c: "completes x c" by blast
      then obtain b where "completes\<^sup>*\<^sup>* c b" "\<forall>d. \<not> completes b d" using less [of c] by auto
      then show ?thesis using c converse_rtranclp_into_rtranclp by metis
    qed blast
  qed
  then show ?thesis using e P completes_ends by blast
qed

theorem drain_completes_witness:
  "\<exists>b. completes\<^sup>*\<^sup>* (drained_export 2) b \<and> wa_exited b \<and> \<not> wa_signalled b"
proof -
  have "wa_drain (drained_export 2) \<noteq> NotDrained" "\<not> wa_killed (drained_export 2)" "\<not> wa_signalled (drained_export 2)"
    by (simp_all add: drained_export_def exporting_def app_defs)
  then show ?thesis using drain_completes [OF _ _ drained_export_reached [of 2]] by auto
qed

section \<open>The monitoring client\<close>

text \<open>
  \<^verbatim>\<open>hex.EncodeToString\<close> over the bytes of \<^verbatim>\<open>crypto/rand\<close>, which are an input, as is the host name; each may be
  an error.  \<^verbatim>\<open>initMonitor\<close> takes the identifier of the environment, else a generated one, else the type.
\<close>

definition hex_digit :: "nat \<Rightarrow> char" where
  "hex_digit n = ''0123456789abcdef'' ! n"

definition hex_encode :: "8 word list \<Rightarrow> string" where
  "hex_encode bs = concat (map (\<lambda>b. [hex_digit (unat b div 16), hex_digit (unat b mod 16)]) bs)"

definition NewWorkerID :: "string res \<Rightarrow> 8 word list res \<Rightarrow> string \<Rightarrow> string res" where
  "NewWorkerID hostname random workerType =
     (case hostname of
        Inl e \<Rightarrow> Inl e
      | Inr host \<Rightarrow>
          (case random of
             Inl e \<Rightarrow> Inl e
           | Inr bs \<Rightarrow> Inr (host @ ''-'' @ workerType @ ''-'' @ hex_encode bs)))"

definition initMonitor_id :: "string \<Rightarrow> string res \<Rightarrow> 8 word list res \<Rightarrow> string \<Rightarrow> string" where
  "initMonitor_id env hostname random workerType =
     (let wid = (if env \<noteq> [] then env
                 else case NewWorkerID hostname random workerType of Inl e \<Rightarrow> [] | Inr i \<Rightarrow> i)
      in if wid = [] then workerType else wid)"

definition buildHeartbeat :: "string \<Rightarrow> string \<Rightarrow> time \<Rightarrow> time \<Rightarrow> WorkerApp \<Rightarrow> WorkerHeartbeat" where
  "buildHeartbeat workerID workerType startedAt now a =
     \<lparr>wh_WorkerId = workerID, wh_WorkerType = workerType, wh_Status = currentStatus a,
      wh_Timestamp = Some now, wh_StartedAt = Some startedAt\<rparr>"

definition minDuration :: "duration \<Rightarrow> duration \<Rightarrow> duration" where
  "minDuration x y = (if x < y then x else y)"

text \<open>
  The rounds of \<^verbatim>\<open>Run\<close> until the context ends: the coordinator cannot be dialled, the stream cannot be
  opened, or the stream brings commands and then ends.  A killed process runs nothing more.
\<close>

datatype connection = DialFails | OpenFails | StreamEnds "CommandType list"

fun receive_commands :: "CommandType list \<Rightarrow> WorkerApp \<Rightarrow> WorkerApp" where
  "receive_commands [] a = a"
| "receive_commands (cmd # cmds) a = (if wa_killed a then a else receive_commands cmds (worker_handleCommand cmd a))"

fun monitor_Run :: "duration \<Rightarrow> connection list \<Rightarrow> WorkerApp \<Rightarrow> WorkerApp \<times> duration list" where
  "monitor_Run backoff [] a = (a, [])"
| "monitor_Run backoff (StreamEnds cmds # cs) a =
     (let b = receive_commands cmds a
      in if wa_killed b then (b, [])
         else case monitor_Run (minDuration (Second * 2) (15 * Second)) cs b of (c, ws) \<Rightarrow> (c, Second # ws))"
| "monitor_Run backoff (_ # cs) a =
     (case monitor_Run (minDuration (backoff * 2) (15 * Second)) cs a of (c, ws) \<Rightarrow> (c, backoff # ws))"

lemma hex_digit_inj: "m < 16 \<Longrightarrow> n < 16 \<Longrightarrow> hex_digit m = hex_digit n \<Longrightarrow> m = n"
  unfolding hex_digit_def by (subst (asm) nth_eq_iff_index_eq) simp_all

lemma hex_byte_inj:
  assumes "hex_digit (unat b div 16) = hex_digit (unat c div 16)" and "hex_digit (unat b mod 16) = hex_digit (unat c mod 16)"
  shows "b = (c :: 8 word)"
proof -
  have "unat b div 16 < 16" "unat c div 16 < 16" using unsigned_less [of b, where ?'a = nat] unsigned_less [of c, where ?'a = nat] by auto
  then have "unat b div 16 = unat c div 16" "unat b mod 16 = unat c mod 16"
    using assms hex_digit_inj by auto
  then have "unat b = unat c" by (metis mult_div_mod_eq)
  then show ?thesis by (rule unsigned_word_eqI)
qed

lemma hex_encode_inj: "hex_encode bs = hex_encode cs \<Longrightarrow> bs = cs"
proof (induction bs arbitrary: cs)
  case Nil
  then show ?case by (cases cs) (simp_all add: hex_encode_def)
next
  case (Cons b bs)
  then obtain c ds where c: "cs = c # ds" by (cases cs) (simp_all add: hex_encode_def)
  then have "hex_encode bs = hex_encode ds" "b = c" using Cons.prems hex_byte_inj [of b c] by (simp_all add: hex_encode_def)
  then show ?case using Cons.IH c by simp
qed

text \<open>Two processes of one host and type have different identifiers when their random bytes differ.\<close>

lemma NewWorkerID_distinct: "bs \<noteq> cs \<Longrightarrow> NewWorkerID (Inr host) (Inr bs) ty \<noteq> NewWorkerID (Inr host) (Inr cs) ty"
  using hex_encode_inj [of bs cs] by (auto simp: NewWorkerID_def)

lemma initMonitor_id_nonempty: "ty \<noteq> [] \<Longrightarrow> initMonitor_id env host random ty \<noteq> []"
  by (simp add: initMonitor_id_def Let_def)

text \<open>The pauses between two connections are of one to fifteen seconds.\<close>

lemma monitor_waits:
  "Second \<le> backoff \<Longrightarrow> backoff \<le> 15 * Second \<Longrightarrow> w \<in> set (snd (monitor_Run backoff cs a)) \<Longrightarrow> Second \<le> w \<and> w \<le> 15 * Second"
proof (induction backoff cs a rule: monitor_Run.induct)
  case (2 backoff cmds cs a)
  then show ?case by (auto simp: Let_def minDuration_def Second_def split: prod.splits if_splits)
qed (auto simp: minDuration_def Second_def split: prod.splits)

text \<open>
  What the registry shows of a worker that is drained, after its next heartbeat: draining, unless it
  was declared dead.
\<close>

lemma drained_worker_listed:
  assumes "life_inv a" and "wa_drain a \<noteq> NotDrained" and "\<not> wa_dying a"
  shows "\<exists>x. rg_workers (handleHeartbeat hc now (buildHeartbeat wid ty started t a) r) wid = Some x \<and>
     (wr_Status x = StatusDraining \<or> wr_Status x = StatusDead)"
proof -
  have "currentStatus a = WORKER_STATUS_DRAINING" using assms(1-3) by (simp add: life_inv_def flags_inv_def currentStatus_def)
  moreover have "\<exists>x. rg_workers (UpdateHeartbeat now info r) (hb_WorkerID info) = Some x \<and>
      (wr_Status x = StatusDraining \<or> wr_Status x = StatusDead)" if "hb_Status info = StatusDraining" for info
    using that by (auto simp: UpdateHeartbeat_def new_record_def beat_def normalizeStatus_def Let_def status_defs split: option.split)
  from this [of "\<lparr>hb_WorkerID = wid, hb_WorkerType = ty, hb_Status = StatusDraining, hb_Timestamp = t, hb_StartedAt = started\<rparr>"]
  have "\<exists>x. rg_workers (UpdateHeartbeat now \<lparr>hb_WorkerID = wid, hb_WorkerType = ty, hb_Status = StatusDraining,
      hb_Timestamp = t, hb_StartedAt = started\<rparr> r) wid = Some x \<and> (wr_Status x = StatusDraining \<or> wr_Status x = StatusDead)"
    by simp
  ultimately show ?thesis by (simp add: handleHeartbeat_def buildHeartbeat_def)
qed

end
