(* ===== verification/Go_Strings.thy ===== *)
theory Go_Strings
  imports Go_Prelude
begin

text \<open>
  More of Go's string functions: \<^verbatim>\<open>strings.Split\<close> at a byte, \<^verbatim>\<open>strings.Join\<close>, \<^verbatim>\<open>strings.IndexByte\<close> as a split in
  two, \<^verbatim>\<open>strings.TrimSuffix\<close> and \<^verbatim>\<open>utf8.RuneCountInString\<close>.
\<close>

section \<open>Splitting and joining\<close>

text \<open>The parts between the separators; an empty string has one empty part.\<close>

fun split_byte :: "char \<Rightarrow> string \<Rightarrow> string list" where
  "split_byte c [] = [[]]"
| "split_byte c (x # xs) =
     (if x = c then [] # split_byte c xs
      else case split_byte c xs of [] \<Rightarrow> [[x]] | p # ps \<Rightarrow> (x # p) # ps)"

fun join_with :: "string \<Rightarrow> string list \<Rightarrow> string" where
  "join_with sep [] = []"
| "join_with sep [p] = p"
| "join_with sep (p # q # ps) = p @ sep @ join_with sep (q # ps)"

lemma split_byte_ne [simp]: "split_byte c s \<noteq> []"
  by (induction s) (auto split: list.splits)

lemma split_byte_plain: "c \<notin> set s \<Longrightarrow> split_byte c s = [s]"
  by (induction s) auto

lemma split_byte_append: "c \<notin> set p \<Longrightarrow> split_byte c (p @ c # s) = p # split_byte c s"
  by (induction p) auto

lemma split_byte_parts: "p \<in> set (split_byte c s) \<Longrightarrow> c \<notin> set p"
proof (induction s arbitrary: p)
  case (Cons x xs)
  obtain q qs where q: "split_byte c xs = q # qs" by (cases "split_byte c xs") auto
  then have "c \<notin> set q" "r \<in> set qs \<Longrightarrow> c \<notin> set r" for r using Cons.IH by auto
  then show ?case using Cons.prems q by (auto split: if_splits)
qed simp

text \<open>Joining the parts gives the string back, and splitting a join of parts without separators gives the parts.\<close>

lemma join_split: "join_with [c] (split_byte c s) = s"
proof (induction s)
  case (Cons x xs)
  then show ?case
  proof (cases "split_byte c xs")
    case (Cons p ps)
    then show ?thesis using Cons.IH by (cases ps) auto
  qed simp
qed simp

lemma split_join: "ps \<noteq> [] \<Longrightarrow> \<forall>p \<in> set ps. c \<notin> set p \<Longrightarrow> split_byte c (join_with [c] ps) = ps"
  by (induction "[c]" ps rule: join_with.induct) (simp_all add: split_byte_plain split_byte_append)

text \<open>What is before the first separator and, if there is one, what is after it.\<close>

definition cut_byte :: "char \<Rightarrow> string \<Rightarrow> string \<times> string option" where
  "cut_byte c s =
     (if c \<in> set s then (takeWhile (\<lambda>x. x \<noteq> c) s, Some (tl (dropWhile (\<lambda>x. x \<noteq> c) s))) else (s, None))"

lemma cut_byte_append: "c \<notin> set p \<Longrightarrow> cut_byte c (p @ c # s) = (p, Some s)"
  by (induction p) (auto simp: cut_byte_def)

definition TrimSuffix :: "string \<Rightarrow> string \<Rightarrow> string" where
  "TrimSuffix s sfx = (if sfx \<noteq> [] \<and> HasSuffix s sfx then take (length s - length sfx) s else s)"

section \<open>Runes\<close>

text \<open>
  The length in bytes of the first rune of a non-empty string, as \<^verbatim>\<open>utf8\<close> decodes it: a byte that does not
  begin a well-formed sequence is a rune of its own.  The second byte of a sequence has a narrower
  range after \<^verbatim>\<open>E0\<close>, \<^verbatim>\<open>ED\<close>, \<^verbatim>\<open>F0\<close> and \<^verbatim>\<open>F4\<close>.
\<close>

definition continues :: "string \<Rightarrow> nat \<Rightarrow> bool" where
  "continues s i \<longleftrightarrow> i < length s \<and> 128 \<le> (of_char (s ! i) :: nat) \<and> (of_char (s ! i) :: nat) \<le> 191"

definition second_ok :: "nat \<Rightarrow> string \<Rightarrow> bool" where
  "second_ok b s \<longleftrightarrow>
     1 < length s \<and>
     (let c = (of_char (s ! 1) :: nat)
      in (if b = 224 then 160 else if b = 240 then 144 else 128) \<le> c \<and>
         c \<le> (if b = 237 then 159 else if b = 244 then 143 else 191))"

definition rune_size :: "string \<Rightarrow> nat" where
  "rune_size s =
     (let b = (of_char (hd s) :: nat)
      in if b < 194 \<or> 244 < b then 1
         else if \<not> second_ok b s then 1
         else if b < 224 then 2
         else if \<not> continues s 2 then 1
         else if b < 240 then 3
         else if continues s 3 then 4 else 1)"

lemma rune_size_pos: "0 < rune_size s"
  by (simp add: rune_size_def Let_def)

lemma rune_size_le:
  assumes "s \<noteq> []"
  shows "rune_size s \<le> length s"
proof -
  have "1 \<le> length s" using assms by (cases s) auto
  moreover have "second_ok (of_char (hd s)) s \<Longrightarrow> 2 \<le> length s" "continues s 2 \<Longrightarrow> 3 \<le> length s" "continues s 3 \<Longrightarrow> 4 \<le> length s"
    by (simp_all add: second_ok_def continues_def)
  ultimately show ?thesis by (simp add: rune_size_def Let_def)
qed

function RuneCount :: "string \<Rightarrow> nat" where
  "RuneCount s = (if s = [] then 0 else Suc (RuneCount (drop (rune_size s) s)))"
  by auto
termination
  by (relation "measure length") (use rune_size_pos in \<open>auto simp: diff_less\<close>)

declare RuneCount.simps [simp del]

lemma RuneCount_nil [simp]: "RuneCount [] = 0"
  by (simp add: RuneCount.simps)

lemma RuneCount_pos: "RuneCount s = 0 \<longleftrightarrow> s = []"
  by (subst RuneCount.simps) simp

text \<open>A string has at least as many bytes as runes and, in ASCII, exactly as many.\<close>

lemma RuneCount_le: "RuneCount s \<le> length s"
proof (induction s rule: RuneCount.induct)
  case (1 s)
  show ?case
  proof (cases "s = []")
    case False
    then have "RuneCount (drop (rune_size s) s) \<le> length s - rune_size s" using 1 by simp
    then show ?thesis using False rune_size_pos [of s] rune_size_le [OF False] by (subst RuneCount.simps) simp
  qed simp
qed

lemma RuneCount_ascii: "\<forall>c \<in> set s. (of_char c :: nat) < 128 \<Longrightarrow> RuneCount s = length s"
proof (induction s)
  case (Cons c s)
  then have "rune_size (c # s) = 1" by (simp add: rune_size_def Let_def)
  then show ?case using Cons by (subst RuneCount.simps) simp
qed simp

end
