(* ===== verification/Rendering_Fetchers.thy ===== *)
theory Rendering_Fetchers
  imports HTTP_Fetcher Go_Strings
begin

text \<open>
  The fetchers that render a page: \<^verbatim>\<open>services/fetcher/browser_fetcher.go\<close> (Chromium over CDP) and
  \<^verbatim>\<open>services/fetcher/selenium_fetcher.go\<close> (a WebDriver hub).  What the browser answers is an argument: the
  results of its actions, the network events it reports with their times, the values its scripts
  return.  The retry loop, the bookkeeping of the network events, the waits for a quiet network and a
  stable document, the cookies and the result are those of the code.
\<close>

section \<open>Model\<close>

subsection \<open>The retry loop\<close>

text \<open>
  Both fetchers have the same loop: every error is retried.  \<open>attempt i\<close> is the result of the attempt
  number \<open>i\<close>, \<open>ended i\<close> the error of the context when the loop is about to sleep after it.
\<close>

fun render_loop ::
  "(nat \<Rightarrow> 'a res) \<Rightarrow> (nat \<Rightarrow> gerr option) \<Rightarrow> RetryPolicy \<Rightarrow> nat \<Rightarrow> nat \<Rightarrow> duration \<Rightarrow> gerr \<Rightarrow> 'a res \<times> duration list" where
  "render_loop attempt ended policy 0 i backoff lastErr =
     (Inl (ErrWrap (''failed after '' @ show_nat (unat (MaxAttempts policy)) @ '' attempts'') lastErr), [])"
| "render_loop attempt ended policy (Suc left) i backoff lastErr =
     (case attempt i of
        Inr r \<Rightarrow> (Inr r, [])
      | Inl err \<Rightarrow>
          if left = 0 then render_loop attempt ended policy left (i + 1) backoff err
          else (case ended i of
                  Some e \<Rightarrow> (Inl (ErrWrap ''context cancelled during retry'' e), [])
                | None \<Rightarrow>
                    (case render_loop attempt ended policy left (i + 1) (next_backoff policy backoff) err of
                       (r, sleeps) \<Rightarrow> (r, backoff # sleeps))))"

text \<open>\<^verbatim>\<open>NewBrowserFetcher\<close> and \<^verbatim>\<open>NewSeleniumFetcher\<close> ask for at least one attempt, as \<^const>\<open>NewHTTPFetcher\<close> does.\<close>

definition NewBrowserFetcher :: "RetryPolicy \<Rightarrow> RetryPolicy" where
  "NewBrowserFetcher retry = (if MaxAttempts retry = 0 then retry\<lparr>MaxAttempts := 1\<rparr> else retry)"

definition NewSeleniumFetcher :: "RetryPolicy \<Rightarrow> RetryPolicy" where
  "NewSeleniumFetcher retry = (if MaxAttempts retry = 0 then retry\<lparr>MaxAttempts := 1\<rparr> else retry)"

subsection \<open>Network events\<close>

text \<open>
  The events \<^verbatim>\<open>ListenTarget\<close> handles: a response for a document (status, type, URL) or for another resource,
  a request, the end of a load.
\<close>

datatype net_event =
    DocumentResponse int string string
  | OtherResponse
  | RequestWillBeSent
  | LoadingFinished
  | LoadingFailed

record page_net =
  pn_statusCode :: int
  pn_contentType :: string
  pn_finalURL :: string
  pn_inFlight :: int
  pn_lastActivity :: time

definition new_page_net :: "time \<Rightarrow> page_net" where
  "new_page_net now = \<lparr>pn_statusCode = 0, pn_contentType = ''text/html'', pn_finalURL = [], pn_inFlight = 0, pn_lastActivity = now\<rparr>"

fun on_event :: "time \<Rightarrow> net_event \<Rightarrow> page_net \<Rightarrow> page_net" where
  "on_event now (DocumentResponse status mime url) n =
     (if pn_statusCode n = 0
      then n\<lparr>pn_statusCode := status, pn_contentType := (if mime \<noteq> [] then mime else pn_contentType n),
             pn_finalURL := (if url \<noteq> [] then url else pn_finalURL n)\<rparr>
      else n)"
| "on_event now OtherResponse n = n"
| "on_event now RequestWillBeSent n = n\<lparr>pn_inFlight := pn_inFlight n + 1, pn_lastActivity := now\<rparr>"
| "on_event now LoadingFinished n =
     n\<lparr>pn_inFlight := (if 0 < pn_inFlight n then pn_inFlight n - 1 else pn_inFlight n), pn_lastActivity := now\<rparr>"
| "on_event now LoadingFailed n =
     n\<lparr>pn_inFlight := (if 0 < pn_inFlight n then pn_inFlight n - 1 else pn_inFlight n), pn_lastActivity := now\<rparr>"

definition on_events :: "(time \<times> net_event) list \<Rightarrow> page_net \<Rightarrow> page_net" where
  "on_events evs n = fold (\<lambda>(t, e). on_event t e) evs n"

subsection \<open>Waiting\<close>

text \<open>
  A wait is over with a result, or not over when the list of its rounds ends; what the fetchers make of
  a list that ends too early does not matter.  A round of
  \<^verbatim>\<open>waitForNetworkIdle\<close> is the end of the context or a tick of 100 ms: the events that came before it and
  its time.
\<close>

datatype idle_round = Cancelled gerr | Tick "(time \<times> net_event) list" time

fun waitForNetworkIdle :: "duration \<Rightarrow> time \<Rightarrow> idle_round list \<Rightarrow> page_net \<Rightarrow> (unit res \<times> page_net) option" where
  "waitForNetworkIdle idleWindow deadline [] n = None"
| "waitForNetworkIdle idleWindow deadline (Cancelled e # rs) n = Some (Inl e, n)"
| "waitForNetworkIdle idleWindow deadline (Tick evs now # rs) n =
     (let m = on_events evs n
      in if pn_inFlight m = 0 \<and> idleWindow \<le> now - pn_lastActivity m then Some (Inr (), m)
         else if deadline < now then Some (Inr (), m)
         else waitForNetworkIdle idleWindow deadline rs m)"

text \<open>
  A round of \<^verbatim>\<open>waitForDOMStable\<close>: the context's error, the length of the document or an error of the
  script, the time, the error of the sleep.
\<close>

record dom_round =
  dr_ctx :: "gerr option"
  dr_length :: "int res"
  dr_now :: time
  dr_sleep :: "gerr option"

fun waitForDOMStable :: "time \<Rightarrow> nat \<Rightarrow> int \<Rightarrow> nat \<Rightarrow> dom_round list \<Rightarrow> unit res option" where
  "waitForDOMStable deadline samples prev steady [] = None"
| "waitForDOMStable deadline samples prev steady (r # rs) =
     (case dr_ctx r of
        Some e \<Rightarrow> Some (Inl e)
      | None \<Rightarrow>
          (case dr_length r of
             Inl e \<Rightarrow> Some (Inl e)
           | Inr len \<Rightarrow>
               let steady1 = (if len = prev then steady + 1 else 0)
               in if len = prev \<and> samples \<le> steady1 then Some (Inr ())
                  else if deadline < dr_now r then Some (Inr ())
                  else (case dr_sleep r of
                          Some e \<Rightarrow> Some (Inl e)
                        | None \<Rightarrow> waitForDOMStable deadline samples len steady1 rs)))"

text \<open>\<^verbatim>\<open>waitForReadyState\<close>: the state at once, else what \<^verbatim>\<open>chromedp.Poll\<close> on \<^verbatim>\<open>document.readyState\<close> answers.\<close>

definition waitForReadyState :: "string res \<Rightarrow> unit res \<Rightarrow> string \<Rightarrow> unit res" where
  "waitForReadyState evaluated poll state =
     (case evaluated of Inl e \<Rightarrow> Inl e | Inr s \<Rightarrow> if s = state then Inr () else poll)"

subsection \<open>The browser\<close>

text \<open>
  What Chromium answers in one attempt.  \<open>be_http\<close> is the body of the version endpoint, \<open>be_ws\<close> the field
  the decoder finds there; \<open>be_load\<close> covers the actions up to \<^verbatim>\<open>WaitReady\<close>.  The listener handles events all the time:
  \<open>be_loading\<close> are those before the wait for the network, \<open>be_settling\<close> those between its end and the action
  \<^verbatim>\<open>Location\<close>, \<open>be_late\<close> those after it and until the result is put together, which is taken as one step.
\<close>

record browser_env =
  be_new_request :: "string \<Rightarrow> unit res"
  be_http :: "string \<Rightarrow> string res"
  be_ws :: "string \<Rightarrow> string res"
  be_base64 :: "string \<Rightarrow> string"
  be_load :: "string \<Rightarrow> (string \<rightharpoonup> string) \<Rightarrow> string \<Rightarrow> unit res"
  be_start :: time
  be_loading :: "(time \<times> net_event) list"
  be_ready :: "string res"
  be_poll :: "unit res"
  be_idle_from :: time
  be_rounds :: "idle_round list"
  be_dom_from :: time
  be_dom :: "dom_round list"
  be_settling :: "(time \<times> net_event) list"
  be_late :: "(time \<times> net_event) list"
  be_location :: "string res"
  be_html :: "string res"

definition TrimRightSlash :: "string \<Rightarrow> string" where
  "TrimRightSlash s = rev (dropWhile (\<lambda>c. c = CHR ''/'') (rev s))"

definition resolveWSURL :: "browser_env \<Rightarrow> string \<Rightarrow> string res" where
  "resolveWSURL env remoteURL =
     (let endpoint = TrimRightSlash remoteURL @ ''/json/version''
      in bind_res (wrap_err ''build request'' (be_new_request env endpoint)) (\<lambda>_.
         bind_res (wrap_err (''GET '' @ endpoint) (be_http env endpoint)) (\<lambda>body.
         bind_res (wrap_err ''decode response'' (be_ws env body)) (\<lambda>ws.
           if ws = [] then Inl (ErrText (''empty webSocketDebuggerUrl from '' @ endpoint)) else Inr ws))))"

definition browser_headers :: "browser_env \<Rightarrow> AuthOptions \<Rightarrow> string \<rightharpoonup> string" where
  "browser_headers env auth =
     (let h0 = [''User-Agent'' \<mapsto> user_agent,
                ''Accept'' \<mapsto> ''text/html,application/xhtml+xml,application/xml;q=0.9,*/*;q=0.8'',
                ''Accept-Language'' \<mapsto> ''ru-RU,ru;q=0.9,en-US;q=0.8,en;q=0.7''];
          h1 = (if Cookie auth \<noteq> [] then h0(''Cookie'' \<mapsto> Cookie auth) else h0);
          h2 = (if BasicUser auth \<noteq> []
                then h1(''Authorization'' \<mapsto> ''Basic '' @ be_base64 env (BasicUser auth @ '':'' @ BasicPassword auth)) else h1)
      in if BearerToken auth \<noteq> [] then h2(''Authorization'' \<mapsto> ''Bearer '' @ BearerToken auth) else h2)"

definition networkIdleWindow :: duration where "networkIdleWindow = 800 * Millisecond"
definition networkIdleTimeout :: duration where "networkIdleTimeout = 8 * Second"
definition domStableTimeout :: duration where "domStableTimeout = 5 * Second"
definition domStableSamples :: nat where "domStableSamples = 3"

text \<open>
  The actions of \<^verbatim>\<open>chromedp.Run\<close> in their order.  \<^verbatim>\<open>Location\<close> overwrites the URL the listener has stored, and a response
  that comes later may overwrite it again.
\<close>

definition deadline_exceeded :: gerr where
  "deadline_exceeded = ErrText ''context deadline exceeded''"

definition render :: "browser_env \<Rightarrow> AuthOptions \<Rightarrow> string \<Rightarrow> string \<Rightarrow> (page_net \<times> string) res" where
  "render env auth ws url =
     bind_res (be_load env ws (browser_headers env auth) url) (\<lambda>_.
     bind_res (waitForReadyState (be_ready env) (be_poll env) ''complete'') (\<lambda>_.
     (case waitForNetworkIdle networkIdleWindow (be_idle_from env + networkIdleTimeout) (be_rounds env)
             (on_events (be_loading env) (new_page_net (be_start env))) of
        None \<Rightarrow> Inl deadline_exceeded
      | Some (Inl e, n) \<Rightarrow> Inl e
      | Some (Inr _, n) \<Rightarrow>
          (case waitForDOMStable (be_dom_from env + domStableTimeout) domStableSamples (- 1) 0 (be_dom env) of
             None \<Rightarrow> Inl deadline_exceeded
           | Some (Inl e) \<Rightarrow> Inl e
           | Some (Inr _) \<Rightarrow>
               bind_res (be_location env) (\<lambda>loc.
               bind_res (be_html env) (\<lambda>html.
                 Inr (on_events (be_late env) ((on_events (be_settling env) n)\<lparr>pn_finalURL := loc\<rparr>), html)))))))"

definition browser_doFetch :: "browser_env \<Rightarrow> string \<Rightarrow> AuthOptions \<Rightarrow> string \<Rightarrow> FetchResult res" where
  "browser_doFetch env remoteURL auth url =
     bind_res (if remoteURL \<noteq> [] then wrap_err ''failed to resolve remote Chrome WS URL'' (resolveWSURL env remoteURL) else Inr []) (\<lambda>ws.
     bind_res (wrap_err ''failed to render page'' (render env auth ws url)) (\<lambda>(n, html).
       if html = [] then Inl (ErrText ''empty HTML after render'')
       else Inr \<lparr>fr_Body = html, fr_FinalURL = (if pn_finalURL n = [] then url else pn_finalURL n),
                 fr_StatusCode = (if pn_statusCode n = 0 then 200 else pn_statusCode n), fr_ContentType = pn_contentType n\<rparr>))"

definition browser_Fetch ::
  "(nat \<Rightarrow> browser_env) \<Rightarrow> (nat \<Rightarrow> gerr option) \<Rightarrow> string \<Rightarrow> AuthOptions \<Rightarrow> RetryPolicy \<Rightarrow> string \<Rightarrow> FetchResult res \<times> duration list" where
  "browser_Fetch envs ended remoteURL auth retry url =
     (let policy = NewBrowserFetcher retry
      in render_loop (\<lambda>i. browser_doFetch (envs i) remoteURL auth url) ended policy (unat (MaxAttempts policy)) 0
           (initial_backoff policy) (ErrText ''nil''))"

subsection \<open>Selenium\<close>

text \<open>
  What the hub answers in one attempt.  A navigation ends with its own result or, when the context
  ends first, with the context's error; \<open>se_get k\<close> is the navigation number \<open>k\<close> of the attempt.  \<open>se_embed\<close>
  is the URL with credentials, or the error of \<^verbatim>\<open>url.Parse\<close>.
\<close>

datatype navigation = Loaded "unit res" | Interrupted gerr

record selenium_env =
  se_remote :: "unit res"
  se_timeout :: "unit res"
  se_embed :: "string \<Rightarrow> string \<Rightarrow> string \<Rightarrow> string res"
  se_get :: "nat \<Rightarrow> string \<Rightarrow> navigation"
  se_add_cookie :: "string \<times> string \<Rightarrow> unit res"
  se_ready :: "(gerr option \<times> string res \<times> time) list"
  se_ready_from :: time
  se_current :: "string res"
  se_source :: "string res"

definition embedBasicAuth :: "selenium_env \<Rightarrow> string \<Rightarrow> string \<Rightarrow> string \<Rightarrow> string" where
  "embedBasicAuth env rawURL user password = (case se_embed env rawURL user password of Inl _ \<Rightarrow> rawURL | Inr u \<Rightarrow> u)"

text \<open>The pairs of a cookie header.\<close>

definition cookie_pairs :: "string \<Rightarrow> (string \<times> string) list" where
  "cookie_pairs header =
     map (\<lambda>p. case cut_byte (CHR ''='') p of (name, None) \<Rightarrow> (name, []) | (name, Some v) \<Rightarrow> (name, v))
       (filter (\<lambda>p. p \<noteq> []) (map TrimSpace (split_byte (CHR '';'') header)))"

definition setCookies :: "selenium_env \<Rightarrow> string \<Rightarrow> unit res" where
  "setCookies env header =
     bind_res (map_res (\<lambda>p. wrap_err (''add cookie '' @ [CHR 0x22] @ fst p @ [CHR 0x22]) (se_add_cookie env p)) (cookie_pairs header))
       (\<lambda>_. Inr ())"

fun waitForSeleniumReady :: "time \<Rightarrow> (gerr option \<times> string res \<times> time) list \<Rightarrow> unit res option" where
  "waitForSeleniumReady deadline [] = None"
| "waitForSeleniumReady deadline ((ctx, state, now) # rs) =
     (case ctx of
        Some e \<Rightarrow> Some (Inl e)
      | None \<Rightarrow>
          if state = Inr ''complete'' then Some (Inr ())
          else if deadline < now then Some (Inr ())
          else waitForSeleniumReady deadline rs)"

definition navigate :: "string \<Rightarrow> string \<Rightarrow> navigation \<Rightarrow> unit res" where
  "navigate interrupted failed n =
     (case n of Interrupted e \<Rightarrow> Inl (ErrWrap interrupted e) | Loaded r \<Rightarrow> wrap_err failed r)"

definition defaultSeleniumTimeout :: duration where "defaultSeleniumTimeout = 30 * Second"

definition selenium_doFetch :: "selenium_env \<Rightarrow> string \<Rightarrow> AuthOptions \<Rightarrow> string \<Rightarrow> FetchResult res" where
  "selenium_doFetch env remoteURL auth rawURL =
     bind_res (wrap_err (''failed to connect to Selenium hub at '' @ remoteURL) (se_remote env)) (\<lambda>_.
     bind_res (wrap_err ''failed to set page load timeout'' (se_timeout env)) (\<lambda>_.
     let navigateURL = (if BasicUser auth \<noteq> [] then embedBasicAuth env rawURL (BasicUser auth) (BasicPassword auth) else rawURL)
     in bind_res (navigate ''context cancelled while loading page'' (''failed to navigate to '' @ rawURL) (se_get env 0 navigateURL)) (\<lambda>_.
     bind_res (if Cookie auth \<noteq> []
               then bind_res (wrap_err ''failed to set cookies'' (setCookies env (Cookie auth))) (\<lambda>_.
                      navigate ''context cancelled during cookie reload'' ''failed to reload after cookie injection'' (se_get env 1 rawURL))
               else Inr ()) (\<lambda>_.
     bind_res (wrap_err ''page did not reach ready state''
                (case waitForSeleniumReady (se_ready_from env + defaultSeleniumTimeout) (se_ready env) of
                   None \<Rightarrow> Inl deadline_exceeded | Some r \<Rightarrow> r)) (\<lambda>_.
     let finalURL = (case se_current env of Inl _ \<Rightarrow> rawURL | Inr u \<Rightarrow> if u = [] then rawURL else u)
     in bind_res (wrap_err ''failed to get page source'' (se_source env)) (\<lambda>src.
          if src = [] then Inl (ErrText ''empty page source'')
          else Inr \<lparr>fr_Body = src, fr_FinalURL = finalURL, fr_StatusCode = 200, fr_ContentType = ''text/html''\<rparr>))))))"

definition selenium_Fetch ::
  "(nat \<Rightarrow> selenium_env) \<Rightarrow> (nat \<Rightarrow> gerr option) \<Rightarrow> string \<Rightarrow> AuthOptions \<Rightarrow> RetryPolicy \<Rightarrow> string \<Rightarrow> FetchResult res \<times> duration list" where
  "selenium_Fetch envs ended remoteURL auth retry url =
     (let policy = NewSeleniumFetcher retry
      in render_loop (\<lambda>i. selenium_doFetch (envs i) remoteURL auth url) ended policy (unat (MaxAttempts policy)) 0
           (initial_backoff policy) (ErrText ''nil''))"

section \<open>Retries\<close>

text \<open>The attempts before \<open>k\<close> failed and the loop went on after each.\<close>

definition retried :: "(nat \<Rightarrow> 'a res) \<Rightarrow> (nat \<Rightarrow> gerr option) \<Rightarrow> nat \<Rightarrow> bool" where
  "retried f ended k \<longleftrightarrow> (\<forall>i < k. (\<exists>e. f i = Inl e) \<and> ended i = None)"

text \<open>The pauses: the initial one, then each the product of the one before.\<close>

definition pauses :: "RetryPolicy \<Rightarrow> duration \<Rightarrow> nat \<Rightarrow> duration list" where
  "pauses policy b k = map (\<lambda>i. (next_backoff policy ^^ i) b) [0..<k]"

lemma pauses_Suc: "pauses policy b (Suc k) = b # pauses policy (next_backoff policy b) k"
proof -
  have "[0..<Suc k] = 0 # map Suc [0..<k]" by (simp add: map_Suc_upt upt_conv_Cons del: upt_Suc)
  then show ?thesis by (simp add: pauses_def funpow_swap1 del: upt_Suc)
qed

lemma retried_0 [simp]: "retried f ended 0"
  by (simp add: retried_def)

lemma retried_Suc: "retried f ended (Suc k) \<longleftrightarrow> (\<exists>e. f 0 = Inl e) \<and> ended 0 = None \<and> retried (\<lambda>i. f (Suc i)) (\<lambda>i. ended (Suc i)) k"
  by (auto simp: retried_def less_Suc_eq_0_disj)

text \<open>The loop started at the attempt \<open>i\<close> is the loop over the attempts from \<open>i\<close> on.\<close>

lemma render_loop_shift: "render_loop f ended policy n (i + j) b e = render_loop (\<lambda>k. f (k + j)) (\<lambda>k. ended (k + j)) policy n i b e"
proof (induction n arbitrary: i b e)
  case (Suc n)
  show ?case using Suc [of "i + 1"] by (simp split: sum.split option.split)
qed simp

lemma render_loop_Suc:
  "render_loop f ended policy (Suc n) 0 b e =
     (case f 0 of
        Inr r \<Rightarrow> (Inr r, [])
      | Inl err \<Rightarrow>
          if n = 0 then (Inl (ErrWrap (''failed after '' @ show_nat (unat (MaxAttempts policy)) @ '' attempts'') err), [])
          else (case ended 0 of
                  Some e \<Rightarrow> (Inl (ErrWrap ''context cancelled during retry'' e), [])
                | None \<Rightarrow>
                    (case render_loop (\<lambda>k. f (Suc k)) (\<lambda>k. ended (Suc k)) policy n 0 (next_backoff policy b) err of
                       (r, sleeps) \<Rightarrow> (r, b # sleeps))))"
  using render_loop_shift [of f ended policy n 0 1] by (auto split: sum.split option.split)

lemma render_loop_ok:
  "render_loop f ended policy n 0 b e = (Inr r, sleeps) \<longleftrightarrow>
     (\<exists>k < n. retried f ended k \<and> f k = Inr r \<and> sleeps = pauses policy b k)"
proof (induction n arbitrary: f ended b e sleeps)
  case 0
  then show ?case by simp
next
  case (Suc n)
  have ex: "(\<exists>k < Suc n. P k) \<longleftrightarrow> P 0 \<or> (\<exists>k < n. P (Suc k))" for P :: "nat \<Rightarrow> bool"
    using less_Suc_eq_0_disj by auto
  show ?case
  proof (cases "f 0")
    case (Inr x)
    then show ?thesis unfolding ex render_loop_Suc by (auto simp: retried_Suc pauses_def)
  next
    case (Inl err)
    show ?thesis
    proof (cases "n = 0 \<or> ended 0 \<noteq> None")
      case True
      then show ?thesis using Inl unfolding ex render_loop_Suc by (auto simp: retried_Suc)
    next
      case False
      let ?l = "render_loop (\<lambda>k. f (Suc k)) (\<lambda>k. ended (Suc k)) policy n 0 (next_backoff policy b) err"
      have "render_loop f ended policy (Suc n) 0 b e = (Inr r, sleeps) \<longleftrightarrow> (\<exists>s. ?l = (Inr r, s) \<and> sleeps = b # s)"
        using False Inl unfolding render_loop_Suc by (cases ?l) auto
      also have "\<dots> \<longleftrightarrow> (\<exists>k < n. retried f ended (Suc k) \<and> f (Suc k) = Inr r \<and> sleeps = pauses policy b (Suc k))"
        using False Inl unfolding Suc pauses_Suc retried_Suc by auto
      finally show ?thesis using Inl unfolding ex by simp
    qed
  qed
qed

lemma render_loop_failed:
  "render_loop f ended policy n 0 b e = (Inl err, sleeps) \<Longrightarrow> \<forall>i. ended i = None \<Longrightarrow>
     retriesExhausted err \<and> (\<forall>i < n. \<exists>x. f i = Inl x)"
proof (induction n arbitrary: f ended b e sleeps)
  case 0
  then show ?case using exhausted_text by auto
next
  case (Suc n)
  then obtain x where x: "f 0 = Inl x" unfolding render_loop_Suc by (cases "f 0") auto
  show ?case
  proof (cases "n = 0")
    case True
    then show ?thesis using Suc.prems x exhausted_text unfolding render_loop_Suc by auto
  next
    case False
    then obtain s where "render_loop (\<lambda>k. f (Suc k)) (\<lambda>k. ended (Suc k)) policy n 0 (next_backoff policy b) x = (Inl err, s)"
      using Suc.prems x unfolding render_loop_Suc by (auto split: prod.splits)
    from Suc.IH [OF this] show ?thesis using Suc.prems(2) x by (auto simp: less_Suc_eq_0_disj)
  qed
qed

lemma render_attempts_pos:
  "0 < unat (MaxAttempts (NewBrowserFetcher retry))" "0 < unat (MaxAttempts (NewSeleniumFetcher retry))"
  by (simp_all add: NewBrowserFetcher_def NewSeleniumFetcher_def word_neq_0_conv [symmetric] unat_gt_0)

text \<open>
  The rendering fetchers return a page exactly when one of the configured number of attempts, at
  least one, gives it while all before it failed and no pause was cut short, and have then slept the
  growing pauses between them; without a cancellation a failure means that every attempt failed, and
  its text is one after which the worker gives the task up.
\<close>

theorem rendered_fetch:
  "(browser_Fetch envs ended remote auth retry url = (Inr page, sleeps) \<longleftrightarrow>
      (\<exists>k < unat (MaxAttempts (NewBrowserFetcher retry)).
         retried (\<lambda>i. browser_doFetch (envs i) remote auth url) ended k \<and> browser_doFetch (envs k) remote auth url = Inr page \<and>
         sleeps = pauses retry (initial_backoff retry) k)) \<and>
   (selenium_Fetch senvs ended remote auth retry url = (Inr page, sleeps) \<longleftrightarrow>
      (\<exists>k < unat (MaxAttempts (NewSeleniumFetcher retry)).
         retried (\<lambda>i. selenium_doFetch (senvs i) remote auth url) ended k \<and> selenium_doFetch (senvs k) remote auth url = Inr page \<and>
         sleeps = pauses retry (initial_backoff retry) k)) \<and>
   (browser_Fetch envs (\<lambda>_. None) remote auth retry url = (Inl err, sleeps) \<longrightarrow>
      retriesExhausted err \<and> (\<forall>i < unat (MaxAttempts (NewBrowserFetcher retry)). \<exists>x. browser_doFetch (envs i) remote auth url = Inl x)) \<and>
   (selenium_Fetch senvs (\<lambda>_. None) remote auth retry url = (Inl err, sleeps) \<longrightarrow>
      retriesExhausted err \<and> (\<forall>i < unat (MaxAttempts (NewSeleniumFetcher retry)). \<exists>x. selenium_doFetch (senvs i) remote auth url = Inl x))"
proof -
  have b: "next_backoff (NewBrowserFetcher retry) = next_backoff retry" "initial_backoff (NewBrowserFetcher retry) = initial_backoff retry"
    "next_backoff (NewSeleniumFetcher retry) = next_backoff retry" "initial_backoff (NewSeleniumFetcher retry) = initial_backoff retry"
    by (auto simp: NewBrowserFetcher_def NewSeleniumFetcher_def next_backoff_def initial_backoff_def)
  then have p: "pauses (NewBrowserFetcher retry) = pauses retry" "pauses (NewSeleniumFetcher retry) = pauses retry"
    by (intro ext, simp only: pauses_def b)+
  show ?thesis unfolding browser_Fetch_def selenium_Fetch_def Let_def
    by (intro conjI impI; (drule render_loop_failed | simp only: render_loop_ok b p); simp)
qed

section \<open>A rendered page has settled\<close>

definition requests :: "(time \<times> net_event) list \<Rightarrow> nat" where
  "requests evs = length (filter (\<lambda>(t, e). e = RequestWillBeSent) evs)"

definition ends :: "(time \<times> net_event) list \<Rightarrow> nat" where
  "ends evs = length (filter (\<lambda>(t, e). e = LoadingFinished \<or> e = LoadingFailed) evs)"

definition activity :: "net_event \<Rightarrow> bool" where
  "activity e \<longleftrightarrow> e = RequestWillBeSent \<or> e = LoadingFinished \<or> e = LoadingFailed"

fun doc_status :: "time \<times> net_event \<Rightarrow> int" where
  "doc_status (t, DocumentResponse status mime url) = status"
| "doc_status (t, e) = 0"

text \<open>The status of the first document that has one.\<close>

definition first_status :: "(time \<times> net_event) list \<Rightarrow> int" where
  "first_status evs = (case List.find (\<lambda>e. doc_status e \<noteq> 0) evs of None \<Rightarrow> 0 | Some e \<Rightarrow> doc_status e)"

lemma on_events_simps [simp]:
  "on_events [] n = n"
  "on_events ((t, e) # evs) n = on_events evs (on_event t e n)"
  "on_events (evs @ evs') n = on_events evs' (on_events evs n)"
  by (simp_all add: on_events_def)

lemma in_flight:
  "0 \<le> pn_inFlight n \<Longrightarrow>
     0 \<le> pn_inFlight (on_events evs n) \<and> pn_inFlight n + int (requests evs) - int (ends evs) \<le> pn_inFlight (on_events evs n)"
proof (induction evs arbitrary: n)
  case (Cons x evs)
  obtain t e where x: "x = (t, e)" by (cases x)
  have "0 \<le> pn_inFlight (on_event t e n)" using Cons.prems by (cases e) auto
  from Cons.IH [OF this] show ?case using Cons.prems x by (cases e) (auto simp: requests_def ends_def split: if_splits)
qed (simp add: requests_def ends_def)

lemma last_activity:
  "sorted (map fst evs) \<Longrightarrow> \<forall>(t, e) \<in> set evs. pn_lastActivity n \<le> t \<Longrightarrow>
     pn_lastActivity n \<le> pn_lastActivity (on_events evs n) \<and>
     (\<forall>(t, e) \<in> set evs. activity e \<longrightarrow> t \<le> pn_lastActivity (on_events evs n))"
proof (induction evs arbitrary: n)
  case (Cons x evs)
  obtain t e where x: "x = (t, e)" by (cases x)
  have l: "pn_lastActivity (on_event t e n) = (if activity e then t else pn_lastActivity n)"
    by (cases e) (auto simp: activity_def)
  then have "\<forall>(u, e') \<in> set evs. pn_lastActivity (on_event t e n) \<le> u" using Cons.prems x by fastforce
  from Cons.IH [OF _ this] show ?case using Cons.prems x l by (auto split: if_splits)
qed simp

lemma status_first:
  "pn_statusCode (on_events evs n) = (if pn_statusCode n = 0 then first_status evs else pn_statusCode n)"
proof (induction evs arbitrary: n)
  case (Cons x evs)
  obtain t e where x: "x = (t, e)" by (cases x)
  show ?case unfolding x on_events_simps Cons.IH by (cases e) (auto simp: first_status_def)
qed (simp add: first_status_def)

lemma first_status_append: "first_status (evs @ evs') = (if first_status evs = 0 then first_status evs' else first_status evs)"
  by (induction evs) (auto simp: first_status_def)

fun round_events :: "idle_round \<Rightarrow> (time \<times> net_event) list" where
  "round_events (Tick evs now) = evs"
| "round_events (Cancelled e) = []"

lemma idle_over:
  "waitForNetworkIdle w deadline rs n = Some (Inr (), m) \<Longrightarrow>
     \<exists>pre evs now post. rs = pre @ Tick evs now # post \<and> m = on_events (concat (map round_events pre) @ evs) n \<and>
       (deadline < now \<or> pn_inFlight m = 0 \<and> w \<le> now - pn_lastActivity m)"
proof (induction w deadline rs n rule: waitForNetworkIdle.induct)
  case (3 w deadline evs now rs n)
  let ?m = "on_events evs n"
  show ?case
  proof (cases "pn_inFlight ?m = 0 \<and> w \<le> now - pn_lastActivity ?m \<or> deadline < now")
    case True
    then have "m = ?m" using 3 by (auto simp: Let_def split: if_splits)
    then show ?thesis using True by (intro exI [of _ "[]"] exI [of _ evs] exI [of _ now] exI [of _ rs]) auto
  next
    case False
    then obtain pre evs' now' post where "rs = pre @ Tick evs' now' # post"
      "m = on_events (concat (map round_events pre) @ evs') ?m" "deadline < now' \<or> pn_inFlight m = 0 \<and> w \<le> now' - pn_lastActivity m"
      using 3 by (auto simp: Let_def split: if_splits)
    then show ?thesis by (intro exI [of _ "Tick evs now # pre"] exI [of _ evs'] exI [of _ now'] exI [of _ post]) auto
  qed
qed auto

text \<open>The wait ends with the first tick after its deadline at the latest.\<close>

lemma idle_ends: "Tick evs now \<in> set rs \<Longrightarrow> deadline < now \<Longrightarrow> waitForNetworkIdle w deadline rs n \<noteq> None"
  by (induction w deadline rs n rule: waitForNetworkIdle.induct) (auto simp: Let_def)

text \<open>
  A redirect is reported as a second request of the same load, which ends once: one request stays in
  flight and the wait lasts until its deadline.
\<close>

lemma redirect_never_quiet:
  assumes "waitForNetworkIdle w deadline rs (on_events evs (new_page_net start)) = Some (Inr (), m)"
    and "ends (evs @ concat (map round_events rs)) < requests evs"
  shows "\<exists>evs now. Tick evs now \<in> set rs \<and> deadline < now"
proof -
  obtain pre evs' now post where r: "rs = pre @ Tick evs' now # post"
    "m = on_events (concat (map round_events pre) @ evs') (on_events evs (new_page_net start))"
    "deadline < now \<or> pn_inFlight m = 0 \<and> w \<le> now - pn_lastActivity m"
    using idle_over [OF assms(1)] by blast
  let ?es = "evs @ concat (map round_events pre) @ evs'"
  have "m = on_events ?es (new_page_net start)" using r(2) by simp
  then have "int (requests ?es) - int (ends ?es) \<le> pn_inFlight m"
    using in_flight [of "new_page_net start" ?es] by (simp add: new_page_net_def)
  moreover have "ends ?es < requests ?es" using assms(2) r(1) by (simp add: ends_def requests_def)
  ultimately show ?thesis using r by auto
qed

lemma dom_over:
  assumes "waitForDOMStable deadline samples prev steady rs = Some (Inr ())" and "h = q @ replicate (Suc steady) (Inr prev)"
  shows "\<exists>pre r post len. rs = pre @ r # post \<and> dr_length r = Inr len \<and>
     (deadline < dr_now r \<or> (\<exists>q. h @ map dr_length (pre @ [r]) = q @ replicate (Suc samples) (Inr len)))"
  using assms
proof (induction deadline samples prev steady rs arbitrary: h q rule: waitForDOMStable.induct)
  case (2 deadline samples prev steady r rs)
  obtain len where len: "dr_ctx r = None" "dr_length r = Inr len" using "2.prems"(1) by (auto split: option.splits sum.splits)
  let ?st = "if len = prev then steady + 1 else 0"
  have h: "\<exists>q'. h @ [Inr len] = q' @ replicate (Suc ?st) (Inr len)"
  proof (cases "len = prev")
    case True
    then show ?thesis using "2.prems"(2) replicate_append_same [of "Suc steady" "Inr prev"] by auto
  qed (simp add: exI [of _ h])
  show ?case
  proof (cases "len = prev \<and> samples \<le> ?st \<or> deadline < dr_now r")
    case True
    have "\<exists>q. h @ [Inr len] = q @ replicate (Suc samples) (Inr len)" if "samples \<le> ?st"
    proof -
      obtain q' where "h @ [Inr len] = q' @ replicate (Suc ?st) (Inr len)" using h by blast
      moreover have "replicate (Suc ?st) (Inr len) = replicate (?st - samples) (Inr len) @ replicate (Suc samples) (Inr len :: int res)"
        using that by (simp only: replicate_add [symmetric]) simp
      ultimately show ?thesis by (metis append.assoc)
    qed
    then show ?thesis using True len by (intro exI [of _ "[]"] exI [of _ r] exI [of _ rs] exI [of _ len]) auto
  next
    case False
    then have w: "dr_sleep r = None" "waitForDOMStable deadline samples len ?st rs = Some (Inr ())"
      using "2.prems"(1) len by (auto simp: Let_def split: option.splits if_splits)
    obtain q' where q: "h @ [Inr len] = q' @ replicate (Suc ?st) (Inr len)" using h by blast
    have "\<exists>pre r' post len'. rs = pre @ r' # post \<and> dr_length r' = Inr len' \<and>
       (deadline < dr_now r' \<or> (\<exists>q. (h @ [Inr len]) @ map dr_length (pre @ [r']) = q @ replicate (Suc samples) (Inr len')))"
      by (rule "2.IH" [OF len refl _ _ w q]) (use False in auto)
    then obtain pre r' post len' where r: "rs = pre @ r' # post" "dr_length r' = Inr len'"
      "deadline < dr_now r' \<or> (\<exists>q. (h @ [Inr len]) @ map dr_length (pre @ [r']) = q @ replicate (Suc samples) (Inr len'))" by blast
    then show ?thesis using len by (intro exI [of _ "r # pre"] exI [of _ r'] exI [of _ post] exI [of _ len']) auto
  qed
qed simp

lemma dom_steady:
  assumes "waitForDOMStable deadline samples (- 1) 0 rs = Some (Inr ())"
    and "\<forall>r \<in> set rs. \<forall>len. dr_length r = Inr len \<longrightarrow> 0 \<le> len"
  shows "\<exists>pre r post len. rs = pre @ r # post \<and> dr_length r = Inr len \<and>
     (deadline < dr_now r \<or> (\<exists>q. map dr_length (pre @ [r]) = q @ replicate (Suc samples) (Inr len)))"
proof -
  obtain pre r post len where r: "rs = pre @ r # post" "dr_length r = Inr len"
    "deadline < dr_now r \<or> (\<exists>q. [Inr (- 1)] @ map dr_length (pre @ [r]) = q @ replicate (Suc samples) (Inr len))"
    using dom_over [OF assms(1), of "[Inr (- 1)]" "[]"] by auto
  have "0 \<le> len" using assms(2) r by auto
  then have "q \<noteq> []" if "[Inr (- 1)] @ map dr_length (pre @ [r]) = q @ replicate (Suc samples) (Inr len)" for q
    using that by auto
  then have "\<exists>q'. map dr_length (pre @ [r]) = q' @ replicate (Suc samples) (Inr len)"
    if "[Inr (- 1)] @ map dr_length (pre @ [r]) = q @ replicate (Suc samples) (Inr len)" for q
    using that by (cases q) auto
  then show ?thesis using r by blast
qed

lemma render_parts:
  assumes "render env auth ws url = Inr (m, html)"
  shows "\<exists>n loc. waitForNetworkIdle networkIdleWindow (be_idle_from env + networkIdleTimeout) (be_rounds env)
      (on_events (be_loading env) (new_page_net (be_start env))) = Some (Inr (), n) \<and> be_location env = Inr loc \<and>
      m = on_events (be_late env) ((on_events (be_settling env) n)\<lparr>pn_finalURL := loc\<rparr>)"
    and "waitForDOMStable (be_dom_from env + domStableTimeout) domStableSamples (- 1) 0 (be_dom env) = Some (Inr ())"
    and "be_html env = Inr html"
  using assms by (auto simp: render_def bind_res_Inr_iff split: option.splits sum.splits)

text \<open>Once a status is known no event changes the URL.\<close>

lemma final_url_kept: "pn_statusCode n \<noteq> 0 \<Longrightarrow> pn_finalURL (on_events evs n) = pn_finalURL n"
proof (induction evs arbitrary: n)
  case (Cons x evs)
  obtain t e where x: "x = (t, e)" by (cases x)
  have "pn_statusCode (on_event t e n) \<noteq> 0" using Cons.prems by (cases e) simp_all
  from Cons.IH [OF this] show ?case using Cons.prems unfolding x on_events_simps by (cases e) simp_all
qed simp

text \<open>What an attempt waited for, given the events it saw and the time at which the wait was over.\<close>

definition quiet :: "(time \<times> net_event) list \<Rightarrow> time \<Rightarrow> bool" where
  "quiet seen now \<longleftrightarrow> requests seen \<le> ends seen \<and> (\<forall>(t, e) \<in> set seen. activity e \<longrightarrow> networkIdleWindow \<le> now - t)"

lemma network_settled:
  assumes w: "waitForNetworkIdle networkIdleWindow deadline rs (on_events loading (new_page_net start)) = Some (Inr (), n)"
    and times: "sorted (map fst (loading @ concat (map round_events rs)))" "\<forall>(t, e) \<in> set (loading @ concat (map round_events rs)). start \<le> t"
  shows "\<exists>pre evs now post. rs = pre @ Tick evs now # post \<and>
     n = on_events (loading @ concat (map round_events pre) @ evs) (new_page_net start) \<and>
     (deadline < now \<or> quiet (loading @ concat (map round_events pre) @ evs) now)"
proof -
  obtain pre evs now post where r: "rs = pre @ Tick evs now # post"
    "n = on_events (concat (map round_events pre) @ evs) (on_events loading (new_page_net start))"
    "deadline < now \<or> pn_inFlight n = 0 \<and> networkIdleWindow \<le> now - pn_lastActivity n"
    using idle_over [OF w] by blast
  let ?seen = "loading @ concat (map round_events pre) @ evs"
  have n: "n = on_events ?seen (new_page_net start)" using r(2) by simp
  have all: "loading @ concat (map round_events rs) = ?seen @ concat (map round_events post)" using r(1) by simp
  have "sorted (map fst ?seen)" using times(1) unfolding all map_append [of _ ?seen] sorted_append [of "map fst ?seen"] by simp
  moreover have "\<forall>(t, e) \<in> set ?seen. pn_lastActivity (new_page_net start) \<le> t"
    using times(2) unfolding all by (auto simp: new_page_net_def)
  ultimately have "\<forall>(t, e) \<in> set ?seen. activity e \<longrightarrow> t \<le> pn_lastActivity n" using last_activity n by blast
  moreover have "requests ?seen \<le> ends ?seen" if "pn_inFlight n = 0"
    using in_flight [of "new_page_net start" ?seen] n that by (simp add: new_page_net_def)
  ultimately have "deadline < now \<or> quiet ?seen now" using r(3) unfolding quiet_def by fastforce
  then show ?thesis using r(1) n by blast
qed

text \<open>
  C26. The page the browser fetcher returns has settled.  Its body is not empty and is the document of
  the browser at the end; its status is that of the first document response that has one, among all that
  came before the result was put together, else 200; its URL is the browser's location unless no document response with a
  status came before the location was read; the wait for the network was over after its eight seconds or
  at a tick at which every request seen so far had ended and nothing had happened for 800 milliseconds; the wait for the
  document was over after its five seconds or after four equal lengths in a row.
\<close>

theorem settled_page:
  assumes "browser_doFetch env remote auth url = Inr page"
    and "sorted (map fst (be_loading env @ concat (map round_events (be_rounds env))))"
    and "\<forall>(t, e) \<in> set (be_loading env @ concat (map round_events (be_rounds env))). be_start env \<le> t"
    and "\<forall>r \<in> set (be_dom env). \<forall>len. dr_length r = Inr len \<longrightarrow> 0 \<le> len"
  shows "fr_Body page \<noteq> [] \<and> be_html env = Inr (fr_Body page) \<and> (url \<noteq> [] \<longrightarrow> fr_FinalURL page \<noteq> []) \<and>
     (\<exists>pre evs now post. be_rounds env = pre @ Tick evs now # post \<and>
        (let seen = be_loading env @ concat (map round_events pre) @ evs;
             status = first_status (seen @ be_settling env @ be_late env)
         in fr_StatusCode page = (if status = 0 then 200 else status) \<and>
            (first_status (seen @ be_settling env) \<noteq> 0 \<longrightarrow>
               (\<exists>loc. be_location env = Inr loc \<and> fr_FinalURL page = (if loc = [] then url else loc))) \<and>
            (be_idle_from env + 8 * Second < now \<or> quiet seen now))) \<and>
     (\<exists>pre r post len. be_dom env = pre @ r # post \<and> dr_length r = Inr len \<and>
        (be_dom_from env + 5 * Second < dr_now r \<or> (\<exists>q. map dr_length (pre @ [r]) = q @ replicate 4 (Inr len))))"
proof -
  obtain ws m html where r: "render env auth ws url = Inr (m, html)" "html \<noteq> []"
    "page = \<lparr>fr_Body = html, fr_FinalURL = (if pn_finalURL m = [] then url else pn_finalURL m),
       fr_StatusCode = (if pn_statusCode m = 0 then 200 else pn_statusCode m), fr_ContentType = pn_contentType m\<rparr>"
    using assms(1) by (auto simp: browser_doFetch_def bind_res_Inr_iff split: if_splits prod.splits)
  note parts = render_parts [OF r(1)]
  obtain n loc where n: "waitForNetworkIdle networkIdleWindow (be_idle_from env + networkIdleTimeout) (be_rounds env)
      (on_events (be_loading env) (new_page_net (be_start env))) = Some (Inr (), n)" and loc: "be_location env = Inr loc"
    and m: "m = on_events (be_late env) ((on_events (be_settling env) n)\<lparr>pn_finalURL := loc\<rparr>)" using parts(1) by blast
  obtain pre evs now post where p: "be_rounds env = pre @ Tick evs now # post"
    "n = on_events (be_loading env @ concat (map round_events pre) @ evs) (new_page_net (be_start env))"
    "be_idle_from env + networkIdleTimeout < now \<or> quiet (be_loading env @ concat (map round_events pre) @ evs) now"
    using network_settled [OF n assms(2,3)] by blast
  let ?seen = "be_loading env @ concat (map round_events pre) @ evs"
  have settled: "pn_statusCode (on_events (be_settling env) n) = first_status (?seen @ be_settling env)"
    using status_first [of "?seen @ be_settling env" "new_page_net (be_start env)"] unfolding p(2) on_events_simps(3) [symmetric]
    by (simp add: new_page_net_def)
  have "pn_statusCode m = first_status (?seen @ be_settling env @ be_late env)"
    unfolding m status_first [of "be_late env"] using settled by (simp add: first_status_append [of "?seen @ be_settling env", simplified])
  moreover have "fr_FinalURL page = (if loc = [] then url else loc)" if "first_status (?seen @ be_settling env) \<noteq> 0"
    using r(3) m settled that by (simp add: final_url_kept)
  ultimately have B: "let seen = ?seen; status = first_status (seen @ be_settling env @ be_late env)
      in fr_StatusCode page = (if status = 0 then 200 else status) \<and>
         (first_status (seen @ be_settling env) \<noteq> 0 \<longrightarrow>
            (\<exists>loc. be_location env = Inr loc \<and> fr_FinalURL page = (if loc = [] then url else loc))) \<and>
         (be_idle_from env + 8 * Second < now \<or> quiet seen now)"
    using r(3) p(3) loc by (simp add: Let_def networkIdleTimeout_def)
  have C: "\<exists>pre r post len. be_dom env = pre @ r # post \<and> dr_length r = Inr len \<and>
      (be_dom_from env + 5 * Second < dr_now r \<or> (\<exists>q. map dr_length (pre @ [r]) = q @ replicate 4 (Inr len)))"
    using dom_steady [OF parts(2) assms(4)] by (simp add: domStableTimeout_def domStableSamples_def numeral_Bit0)
  have A: "fr_Body page \<noteq> []" "be_html env = Inr (fr_Body page)" "url \<noteq> [] \<longrightarrow> fr_FinalURL page \<noteq> []"
    using r(2,3) parts(3) by auto
  show ?thesis by (intro conjI A C exI [of _ pre] exI [of _ evs] exI [of _ now] exI [of _ post] p(1) B)
qed

text \<open>A page whose only document response with a status comes while the document is watched.\<close>

definition quiet_browser :: browser_env where
  "quiet_browser = \<lparr>be_new_request = (\<lambda>_. Inr ()), be_http = (\<lambda>_. Inr ''{}''), be_ws = (\<lambda>_. Inr ''ws''), be_base64 = id,
     be_load = (\<lambda>w h u. Inr ()), be_start = 0, be_loading = [(1, RequestWillBeSent), (2, OtherResponse)],
     be_ready = Inr ''complete'', be_poll = Inr (), be_idle_from = 3,
     be_rounds = [Tick [(4, LoadingFinished)] (100 * Millisecond), Tick [] (900 * Millisecond)],
     be_dom_from = 5, be_dom = map (\<lambda>len. \<lparr>dr_ctx = None, dr_length = Inr len, dr_now = 6, dr_sleep = None\<rparr>) [10, 20, 20, 20, 20],
     be_settling = [(7, DocumentResponse 404 ''text/html'' ''u'')], be_late = [(8, DocumentResponse 500 ''text/html'' ''v'')],
     be_location = Inr ''https://a/'', be_html = Inr ''<html></html>''\<rparr>"

theorem settled_page_witness:
  "\<exists>page. browser_doFetch quiet_browser [] no_auth ''https://a'' = Inr page \<and> fr_Body page = ''<html></html>'' \<and>
     fr_StatusCode page = 404 \<and> fr_FinalURL page = ''https://a/''"
proof -
  have "\<exists>page. browser_doFetch quiet_browser [] no_auth ''https://a'' = Inr page"
    by (simp add: browser_doFetch_def render_def quiet_browser_def waitForReadyState_def networkIdleWindow_def networkIdleTimeout_def
        domStableTimeout_def domStableSamples_def new_page_net_def Millisecond_def Second_def Let_def)
  then obtain page where f: "browser_doFetch quiet_browser [] no_auth ''https://a'' = Inr page" ..
  have doc: "first_status ((be_loading quiet_browser @ xs) @ (7, DocumentResponse 404 ''text/html'' ''u'') # ys) = 404"
    if "xs \<in> {[], [(4, LoadingFinished)]}" for xs ys
    using that by (auto simp: quiet_browser_def first_status_def)
  have rounds: "concat (map round_events pre) @ evs \<in> {[], [(4, LoadingFinished)]}"
    if "be_rounds quiet_browser = pre @ Tick evs now # post" for pre evs now post
    using that by (cases pre; cases "tl pre") (auto simp: quiet_browser_def)
  from settled_page [OF f] obtain pre evs now post where p: "be_rounds quiet_browser = pre @ Tick evs now # post"
    and s: "let seen = be_loading quiet_browser @ concat (map round_events pre) @ evs;
             status = first_status (seen @ be_settling quiet_browser @ be_late quiet_browser)
         in fr_StatusCode page = (if status = 0 then 200 else status) \<and>
            (first_status (seen @ be_settling quiet_browser) \<noteq> 0 \<longrightarrow>
               (\<exists>loc. be_location quiet_browser = Inr loc \<and> fr_FinalURL page = (if loc = [] then ''https://a'' else loc)))"
    and b: "be_html quiet_browser = Inr (fr_Body page)" by (auto simp: quiet_browser_def Let_def)
  note d = doc [OF rounds [OF p]]
  have "be_settling quiet_browser = (7, DocumentResponse 404 ''text/html'' ''u'') # []"
    "be_location quiet_browser = Inr ''https://a/''" "be_html quiet_browser = Inr ''<html></html>''" by (simp_all add: quiet_browser_def)
  then show ?thesis using f s b d by (auto simp: Let_def)
qed

theorem rendered_fetch_witness:
  "\<exists>err sleeps. browser_Fetch (\<lambda>_. quiet_browser\<lparr>be_html := Inr []\<rparr>) (\<lambda>_. None) [] no_auth three_attempts ''https://a'' = (Inl err, sleeps) \<and>
     retriesExhausted err"
proof -
  let ?env = "quiet_browser\<lparr>be_html := Inr []\<rparr>" and ?u = "''https://a''"
  have "browser_doFetch ?env [] no_auth ''https://a'' = Inl (ErrText ''empty HTML after render'')"
    by (simp add: browser_doFetch_def render_def quiet_browser_def waitForReadyState_def networkIdleWindow_def networkIdleTimeout_def
        domStableTimeout_def domStableSamples_def new_page_net_def Millisecond_def Second_def Let_def)
  then have "fst (browser_Fetch (\<lambda>_. ?env) (\<lambda>_. None) [] no_auth three_attempts ''https://a'') \<noteq> Inr page" for page
    using rendered_fetch [of "\<lambda>_. ?env" "\<lambda>_. None" "[]" no_auth three_attempts ?u page] by (metis prod.collapse sum.distinct(1))
  then obtain err sleeps where "browser_Fetch (\<lambda>_. ?env) (\<lambda>_. None) [] no_auth three_attempts ''https://a'' = (Inl err, sleeps)"
    by (metis prod.collapse sum.exhaust)
  moreover from this have "retriesExhausted err"
    using rendered_fetch [of "\<lambda>_. ?env" "\<lambda>_. None" "[]" no_auth three_attempts ?u _ sleeps] by blast
  ultimately show ?thesis by blast
qed

section \<open>Selenium\<close>

text \<open>The cookies of a header are set one by one as they were written.\<close>

definition cookie_ok :: "string \<times> string \<Rightarrow> bool" where
  "cookie_ok p \<longleftrightarrow> CHR ''='' \<notin> set (fst p) \<and> CHR '';'' \<notin> set (fst p @ snd p) \<and>
     TrimSpace (fst p @ ''='' @ snd p) = fst p @ ''='' @ snd p"

definition cookie_header :: "(string \<times> string) list \<Rightarrow> string" where
  "cookie_header ps = join_with ''; '' (map (\<lambda>p. fst p @ ''='' @ snd p) ps)"

lemma TrimSpace_space: "TrimSpace (CHR '' '' # s) = TrimSpace s"
  by (simp add: TrimSpace_def is_space_def)

lemma split_cookies:
  "\<forall>p \<in> set (p # ps). cookie_ok p \<Longrightarrow> w = [] \<or> w = '' '' \<Longrightarrow>
     map TrimSpace (split_byte (CHR '';'') (w @ cookie_header (p # ps))) = map (\<lambda>p. fst p @ ''='' @ snd p) (p # ps)"
proof (induction ps arbitrary: p w)
  case Nil
  then have "CHR '';'' \<notin> set (w @ fst p @ ''='' @ snd p)" by (auto simp: cookie_ok_def)
  then show ?case using Nil by (auto simp: cookie_header_def split_byte_plain TrimSpace_space cookie_ok_def)
next
  case (Cons q qs)
  have p: "CHR '';'' \<notin> set (w @ fst p @ ''='' @ snd p)" "TrimSpace (w @ fst p @ ''='' @ snd p) = fst p @ ''='' @ snd p"
    using Cons.prems by (auto simp: cookie_ok_def TrimSpace_space)
  have "w @ cookie_header (p # q # qs) = (w @ fst p @ ''='' @ snd p) @ CHR '';'' # '' '' @ cookie_header (q # qs)"
    by (simp add: cookie_header_def)
  then show ?case using Cons.IH [of q "'' ''"] Cons.prems p(2) by (simp only: split_byte_append [OF p(1)]) simp
qed

lemma cookie_roundtrip:
  assumes "\<forall>p \<in> set ps. cookie_ok p"
  shows "cookie_pairs (cookie_header ps) = ps"
proof (cases ps)
  case Nil
  then show ?thesis by (simp add: cookie_pairs_def cookie_header_def)
next
  case (Cons p qs)
  have "map TrimSpace (split_byte (CHR '';'') (cookie_header ps)) = map (\<lambda>p. fst p @ ''='' @ snd p) ps"
    using split_cookies [of p qs "[]"] assms Cons by simp
  then have "cookie_pairs (cookie_header ps) =
      map (\<lambda>p. case cut_byte (CHR ''='') p of (name, None) \<Rightarrow> (name, []) | (name, Some v) \<Rightarrow> (name, v)) (map (\<lambda>p. fst p @ ''='' @ snd p) ps)"
    by (simp add: cookie_pairs_def filter_map comp_def)
  also have "\<dots> = ps" using assms by (induction ps) (auto simp: cookie_ok_def cut_byte_append)
  finally show ?thesis .
qed

text \<open>What the hub is not told: the bearer token, and the credentials when the page is loaded again for its cookies.\<close>

lemma selenium_ignores_bearer: "selenium_doFetch env remote (auth\<lparr>BearerToken := t\<rparr>) url = selenium_doFetch env remote auth url"
  by (simp add: selenium_doFetch_def)

lemma reload_without_credentials:
  "Cookie auth \<noteq> [] \<Longrightarrow> selenium_doFetch env remote auth url = Inr page \<Longrightarrow> se_get env 1 url = Loaded (Inr ())"
  by (auto simp: selenium_doFetch_def Let_def bind_res_Inr_iff navigate_def split: navigation.splits)

end
