(* ===== verification/Robots_Service.thy ===== *)
theory Robots_Service
  imports Fetch_Worker
begin

text \<open>
  The cached robots.txt service, \<^verbatim>\<open>infra/cache/robots_txt_service.go\<close>.  The cache is the part of Redis
  under the keys of the service: a value with the time at which it expires.  The URL parser, the HTTP
  client and the robots.txt library are arguments.
\<close>

section \<open>Model\<close>

record robots_url = URL +
  u_Path :: string
  u_RawQuery :: string

type_synonym robots_cache = "string \<rightharpoonup> string \<times> time"

text \<open>
  The response of the server: its status and what reading the body gives, or the error of the request.
  \<open>ro_rules\<close> parses a file; \<open>ro_group\<close> is the verdict of the group for an agent on a path, or that there is
  no group.
\<close>

record 'r robots_env =
  ro_parse :: "string \<Rightarrow> robots_url res"
  ro_read :: "gerr option"
  ro_write :: "gerr option"
  ro_new_request :: "string \<Rightarrow> unit res"
  ro_do :: "string \<Rightarrow> (int \<times> string res) res"
  ro_rules :: "string \<Rightarrow> 'r res"
  ro_group :: "'r \<Rightarrow> string \<Rightarrow> (string \<Rightarrow> bool) option"
  ro_ttl :: duration

definition Hour :: duration where "Hour = 60 * Minute"

text \<open>\<^verbatim>\<open>NewCachedRobotsTxtService\<close>: a day unless a time to live is given.\<close>

definition NewCachedRobotsTxtService :: "'r robots_env \<Rightarrow> 'r robots_env" where
  "NewCachedRobotsTxtService env = (if ro_ttl env = 0 then env\<lparr>ro_ttl := 24 * Hour\<rparr> else env)"

definition robots_limit :: nat where "robots_limit = 512 * 1024"

text \<open>An answer other than 200 is an empty file; of a longer file the first 512 KB are read.\<close>

definition fetchRobotsTxt :: "'r robots_env \<Rightarrow> string \<Rightarrow> string res" where
  "fetchRobotsTxt env robotsURL =
     bind_res (wrap_err ''failed to create request'' (ro_new_request env robotsURL)) (\<lambda>_.
     bind_res (wrap_err ''failed to fetch robots.txt'' (ro_do env robotsURL)) (\<lambda>(status, body).
       if status \<noteq> 200 then Inr []
       else bind_res (wrap_err ''failed to read robots.txt body'' body) (\<lambda>b. Inr (take robots_limit b))))"

definition robots_key :: "robots_url \<Rightarrow> string" where
  "robots_key u = ''robots:'' @ u_Host u"

definition robots_file :: "robots_url \<Rightarrow> string" where
  "robots_file u = u_Scheme u @ ''://'' @ u_Host u @ ''/robots.txt''"

text \<open>\<^verbatim>\<open>client.Get\<close>: nothing on a miss, an expired value or a failure of Redis.\<close>

definition cached :: "'r robots_env \<Rightarrow> time \<Rightarrow> string \<Rightarrow> robots_cache \<Rightarrow> string" where
  "cached env now key cache =
     (case ro_read env of
        Some _ \<Rightarrow> []
      | None \<Rightarrow> (case cache key of None \<Rightarrow> [] | Some (d, expires) \<Rightarrow> if now < expires then d else []))"

definition robots_path :: "robots_url \<Rightarrow> string" where
  "robots_path u =
     (let path = (if u_Path u = [] then ''/'' else u_Path u)
      in if u_RawQuery u \<noteq> [] then path @ ''?'' @ u_RawQuery u else path)"

definition verdict :: "'r robots_env \<Rightarrow> string \<Rightarrow> robots_url \<Rightarrow> string \<Rightarrow> bool" where
  "verdict env userAgent u robotsData =
     (case ro_rules env robotsData of
        Inl _ \<Rightarrow> True
      | Inr rules \<Rightarrow> (case ro_group env rules userAgent of None \<Rightarrow> True | Some test \<Rightarrow> test (robots_path u)))"

text \<open>The result, the cache after it and the files that were requested.\<close>

definition IsAllowed :: "'r robots_env \<Rightarrow> time \<Rightarrow> string \<Rightarrow> string \<Rightarrow> robots_cache \<Rightarrow> bool res \<times> robots_cache \<times> string list" where
  "IsAllowed env now urlStr userAgent cache =
     (case ro_parse env urlStr of
        Inl e \<Rightarrow> (Inl (ErrWrap ''failed to parse URL'' e), cache, [])
      | Inr u \<Rightarrow>
          let robotsData = cached env now (robots_key u) cache
          in if robotsData \<noteq> [] then (Inr (verdict env userAgent u robotsData), cache, [])
             else case fetchRobotsTxt env (robots_file u) of
                    Inl _ \<Rightarrow> (Inr True, cache, [robots_file u])
                  | Inr d \<Rightarrow>
                      (Inr (verdict env userAgent u d),
                       if ro_write env = None then cache(robots_key u \<mapsto> (d, now + ro_ttl env)) else cache,
                       [robots_file u]))"

section \<open>Decisions and the cache\<close>

text \<open>Only a URL that cannot be parsed is an error; a file that cannot be had or read allows everything.\<close>

lemma IsAllowed_total:
  "(\<exists>e. fst (IsAllowed env now url agent cache) = Inl e) \<longleftrightarrow> (\<exists>e. ro_parse env url = Inl e)"
  by (auto simp: IsAllowed_def Let_def split: sum.splits)

text \<open>
  What a cache holds is what the servers answered: every value is a file that was fetched for its host
  and not longer than the time to live ago.
\<close>

definition fetched_for :: "'r robots_env \<Rightarrow> string \<Rightarrow> string \<Rightarrow> bool" where
  "fetched_for env key d \<longleftrightarrow> (\<exists>url u. ro_parse env url = Inr u \<and> robots_key u = key \<and> fetchRobotsTxt env (robots_file u) = Inr d)"

definition cache_ok :: "'r robots_env \<Rightarrow> time \<Rightarrow> robots_cache \<Rightarrow> bool" where
  "cache_ok env now cache \<longleftrightarrow> (\<forall>key d expires. cache key = Some (d, expires) \<longrightarrow> fetched_for env key d \<and> expires \<le> now + ro_ttl env)"

lemma cache_ok_later: "cache_ok env now cache \<Longrightarrow> now \<le> later \<Longrightarrow> cache_ok env later cache"
  by (fastforce simp: cache_ok_def)

lemma IsAllowed_cache_ok:
  assumes "cache_ok env now cache"
  shows "cache_ok env now (fst (snd (IsAllowed env now url agent cache)))"
proof (cases "ro_parse env url")
  case (Inr u)
  have "fetched_for env (robots_key u) d" if "fetchRobotsTxt env (robots_file u) = Inr d" for d
    using that Inr by (auto simp: fetched_for_def)
  then show ?thesis using assms Inr by (auto simp: IsAllowed_def Let_def cache_ok_def split: sum.split)
qed (use assms in \<open>simp add: IsAllowed_def\<close>)

text \<open>A sequence of questions, each at its time, with the files requested for each.\<close>

fun ask_all :: "'r robots_env \<Rightarrow> (time \<times> string \<times> string) list \<Rightarrow> robots_cache \<Rightarrow> (bool res \<times> string list) list \<times> robots_cache" where
  "ask_all env [] cache = ([], cache)"
| "ask_all env ((now, url, agent) # qs) cache =
     (case IsAllowed env now url agent cache of
        (r, cache', reqs) \<Rightarrow> (case ask_all env qs cache' of (as, cache'') \<Rightarrow> ((r, reqs) # as, cache'')))"

lemma ask_all_Cons:
  "ask_all env ((now, url, agent) # qs) cache =
     (let step = IsAllowed env now url agent cache; rest = ask_all env qs (fst (snd step))
      in ((fst step, snd (snd step)) # fst rest, snd rest))"
  by (simp add: Let_def split: prod.split)

text \<open>A value that is not empty stays until it expires, whatever is asked, and answers for its host.\<close>

lemma hit:
  assumes "ro_read env = None" and "cache (robots_key u) = Some (d, expires)" and "d \<noteq> []" and "now < expires"
    and "ro_parse env url = Inr u"
  shows "IsAllowed env now url agent cache = (Inr (verdict env agent u d), cache, [])"
  using assms by (simp add: IsAllowed_def cached_def)

lemma value_kept:
  assumes "ro_read env = None" and "cache key = Some (d, expires)" and "d \<noteq> []" and "now < expires"
  shows "fst (snd (IsAllowed env now url agent cache)) key = Some (d, expires)"
proof (cases "ro_parse env url")
  case (Inr u)
  show ?thesis
  proof (cases "robots_key u = key")
    case True
    then show ?thesis using assms hit [OF assms(1) _ assms(3,4) Inr] by simp
  next
    case False
    then show ?thesis using assms Inr by (auto simp: IsAllowed_def Let_def split: sum.split)
  qed
qed (use assms in \<open>simp add: IsAllowed_def\<close>)

lemma answers_from_cache:
  assumes "ro_read env = None" and "cache key = Some (d, expires)" and "d \<noteq> []" and "\<forall>q \<in> set qs. fst q < expires"
    and "i < length qs" and "qs ! i = (now, url, agent)" and "ro_parse env url = Inr u" and "robots_key u = key"
  shows "fst (ask_all env qs cache) ! i = (Inr (verdict env agent u d), [])"
  using assms(2,4-6)
proof (induction qs arbitrary: cache i)
  case (Cons q qs)
  obtain t l g where q: "q = (t, l, g)" by (cases q)
  have t: "t < expires" using Cons.prems(2) q by simp
  show ?case
  proof (cases i)
    case 0
    then have "(t, l, g) = (now, url, agent)" using Cons.prems q by simp
    then show ?thesis using 0 t q hit [OF assms(1) _ assms(3) _ assms(7)] Cons.prems(1) assms(8) unfolding q ask_all_Cons
      by (simp add: Let_def)
  next
    case (Suc j)
    have "fst (ask_all env qs (fst (snd (IsAllowed env t l g cache)))) ! j = (Inr (verdict env agent u d), [])"
      by (rule Cons.IH [OF value_kept [where cache = cache]]) (use assms(1,3) t Cons.prems Suc in auto)
    then show ?thesis using Suc unfolding q ask_all_Cons by (simp add: Let_def)
  qed
qed simp

text \<open>
  C29. One request per host and time to live: once a file that is not empty was fetched for a host,
  every question about a URL of that host within the time to live, whatever else is asked in
  between, is answered from that file, without a request.
\<close>

theorem robots_cached:
  assumes "ro_read env = None" and "ro_write env = None" and "ro_parse env url = Inr u"
    and "cached env t (robots_key u) cache = []" and "fetchRobotsTxt env (robots_file u) = Inr d" and "d \<noteq> []"
    and "\<forall>q \<in> set qs. fst q < t + ro_ttl env"
    and "i < length qs" and "qs ! i = (now, url', agent')" and "ro_parse env url' = Inr v" and "u_Host v = u_Host u"
  shows "fst (ask_all env ((t, url, agent) # qs) cache) ! 0 = (Inr (verdict env agent u d), [robots_file u]) \<and>
     fst (ask_all env ((t, url, agent) # qs) cache) ! Suc i = (Inr (verdict env agent' v d), [])"
proof -
  let ?c = "cache(robots_key u \<mapsto> (d, t + ro_ttl env))"
  have a: "IsAllowed env t url agent cache = (Inr (verdict env agent u d), ?c, [robots_file u])"
    using assms(2-5) by (simp add: IsAllowed_def)
  have "fst (ask_all env qs ?c) ! i = (Inr (verdict env agent' v d), [])"
    by (rule answers_from_cache [OF assms(1) _ assms(6,7,8,9,10)]) (simp_all add: robots_key_def assms(11))
  then show ?thesis unfolding ask_all_Cons by (simp add: Let_def a)
qed

text \<open>A host without a file, or with an empty one, is asked again each time: an empty value is taken for a miss.\<close>

lemma empty_file_requested_again:
  assumes "ro_parse env url = Inr u" and "fetchRobotsTxt env (robots_file u) = Inr []" and "\<forall>x. cache (robots_key u) = Some x \<longrightarrow> fst x = []"
  shows "snd (snd (IsAllowed env now url agent cache)) = [robots_file u] \<and>
     (\<forall>x. fst (snd (IsAllowed env now url agent cache)) (robots_key u) = Some x \<longrightarrow> fst x = [])"
proof -
  have "cached env now (robots_key u) cache = []" using assms(3) by (auto simp: cached_def split: option.split)
  then show ?thesis using assms by (simp add: IsAllowed_def)
qed

definition sample_robots :: "string robots_env" where
  "sample_robots = \<lparr>ro_parse = (\<lambda>s. Inr \<lparr>u_Scheme = ''https'', u_Host = ''a'', u_Hostname = ''a'', u_Fragment = [], u_Path = s, u_RawQuery = []\<rparr>),
     ro_read = None, ro_write = None, ro_new_request = (\<lambda>_. Inr ()), ro_do = (\<lambda>_. Inr (200, Inr ''/private'')),
     ro_rules = (\<lambda>d. Inr d), ro_group = (\<lambda>d agent. Some (\<lambda>path. path \<noteq> d)), ro_ttl = 10\<rparr>"

theorem robots_cached_witness:
  "fst (ask_all sample_robots [(1, ''/x'', ''bot''), (5, ''/private'', ''bot'')] Map.empty) ! Suc 0 = (Inr False, [])"
proof -
  let ?u = "\<lparr>u_Scheme = ''https'', u_Host = ''a'', u_Hostname = ''a'', u_Fragment = [], u_Path = ''/x'', u_RawQuery = []\<rparr>"
  let ?v = "?u\<lparr>u_Path := ''/private''\<rparr>"
  have "fst (ask_all sample_robots ((1, ''/x'', ''bot'') # [(5, ''/private'', ''bot'')]) Map.empty) ! Suc 0 =
      (Inr (verdict sample_robots ''bot'' ?v ''/private''), [])"
    by (rule conjunct2 [OF robots_cached [where u = ?u and now = 5 and url' = "''/private''"]])
      (simp_all add: sample_robots_def cached_def fetchRobotsTxt_def robots_limit_def take_Cons')
  moreover have "\<not> verdict sample_robots ''bot'' ?v ''/private''"
    by (simp add: verdict_def sample_robots_def robots_path_def)
  ultimately show ?thesis by simp
qed

text \<open>
  In the fetch worker: a disallowed URL of a job that respects robots.txt is given up before anything
  is fetched, and everything else goes on.
\<close>

lemma robots_in_worker:
  assumes "fe_robots env = (\<lambda>url. fst (IsAllowed renv now url user_agent cache))" and "cfg_RespectRobotsTxt config"
    and "Validate (fe_parse_url env) (fe_re_match env) (task_URL task) (task_Depth task) (cfg_Scopes config) = Inr x"
    and "ro_parse renv (task_URL task) = Inr u" and "cached renv now (robots_key u) cache = d" and "d \<noteq> []"
    and "\<not> verdict renv user_agent u d"
  shows "process_task env msg config task w = fail_task env task ''URL disallowed by robots.txt'' w"
  using assms by (simp add: process_task_def IsAllowed_def Let_def)

end
