(* ===== verification/Preview_Service.thy ===== *)
theory Preview_Service
  imports Fetch_Worker Listing
begin

text \<open>
  Previews and the content store.  The first part is \<^verbatim>\<open>services/contentstore/minio_store.go\<close> over the
  MinIO client, which is the record \<open>s3\<close> of its operations on a state of its own; what the store relies on
  is the predicate \<open>s3_laws\<close>.  The second part is the preview service with its repository, its converters
  and its endpoints.  The fetcher, the sanitizer and the signing of URLs are arguments.
\<close>

section \<open>The content store\<close>

subsection \<open>Model\<close>

text \<open>\<open>s3_get\<close> opens an object, which is read later; \<open>s3_code\<close> is the code of an error response.\<close>

record 's s3 =
  s3_bucket_exists :: "string \<Rightarrow> 's \<Rightarrow> bool res"
  s3_make_bucket :: "string \<Rightarrow> 's \<Rightarrow> unit res \<times> 's"
  s3_put :: "string \<Rightarrow> string \<Rightarrow> string \<Rightarrow> string \<Rightarrow> 's \<Rightarrow> unit res \<times> 's"
  s3_get :: "string \<Rightarrow> string \<Rightarrow> 's \<Rightarrow> string res res"
  s3_stat :: "string \<Rightarrow> string \<Rightarrow> 's \<Rightarrow> unit res"
  s3_remove :: "string \<Rightarrow> string \<Rightarrow> 's \<Rightarrow> unit res \<times> 's"
  s3_presign :: "string \<Rightarrow> string \<Rightarrow> duration \<Rightarrow> string res"
  s3_code :: "gerr \<Rightarrow> string"

definition wrap_fst :: "string \<Rightarrow> 'a res \<times> 's \<Rightarrow> 'a res \<times> 's" where
  "wrap_fst p r = (wrap_err p (fst r), snd r)"

definition ensureBucket :: "'s s3 \<Rightarrow> string \<Rightarrow> 's \<Rightarrow> unit res \<times> 's" where
  "ensureBucket lib bucket s =
     (case s3_bucket_exists lib bucket s of
        Inl e \<Rightarrow> (Inl (ErrWrap ''failed to check bucket existence'' e), s)
      | Inr ex \<Rightarrow> if ex then (Inr (), s) else wrap_fst ''failed to create bucket'' (s3_make_bucket lib bucket s))"

text \<open>
  \<^verbatim>\<open>NewMinIOStore\<close>: \<open>new_client\<close> is \<^verbatim>\<open>minio.New\<close> for an endpoint; with a public base URL, links are signed for
  its host, whose scheme decides about TLS.  The result names the endpoint links are signed for.
\<close>

definition NewMinIOStore ::
  "'s s3 \<Rightarrow> (string \<Rightarrow> bool \<Rightarrow> unit res) \<Rightarrow> (string \<Rightarrow> URL res) \<Rightarrow> string \<Rightarrow> bool \<Rightarrow> string \<Rightarrow> string \<Rightarrow> 's \<Rightarrow> (string \<times> bool) res \<times> 's" where
  "NewMinIOStore lib new_client parse endpoint useSSL bucket publicBaseURL s =
     (case new_client endpoint useSSL of
        Inl e \<Rightarrow> (Inl (ErrWrap ''failed to create MinIO client'' e), s)
      | Inr _ \<Rightarrow>
          (case (if publicBaseURL = [] then Inr (endpoint, useSSL)
                 else bind_res (wrap_err ''failed to parse public MinIO base URL'' (parse publicBaseURL)) (\<lambda>u.
                      bind_res (wrap_err ''failed to create public MinIO presign client'' (new_client (u_Host u) (u_Scheme u = ''https''))) (\<lambda>_.
                        Inr (u_Host u, u_Scheme u = ''https'')))) of
             Inl e \<Rightarrow> (Inl e, s)
           | Inr signer \<Rightarrow>
               (case ensureBucket lib bucket s of
                  (Inl e, s') \<Rightarrow> (Inl (ErrWrap ''failed to ensure bucket exists'' e), s')
                | (Inr _, s') \<Rightarrow> (Inr signer, s'))))"

definition store_Store :: "'s s3 \<Rightarrow> string \<Rightarrow> string \<Rightarrow> string \<Rightarrow> string \<Rightarrow> 's \<Rightarrow> unit res \<times> 's" where
  "store_Store lib bucket key content contentType s =
     wrap_fst (''failed to store object '' @ key) (s3_put lib bucket key content contentType s)"

definition store_Get :: "'s s3 \<Rightarrow> string \<Rightarrow> string \<Rightarrow> 's \<Rightarrow> string res" where
  "store_Get lib bucket key s =
     bind_res (wrap_err (''failed to get object '' @ key) (s3_get lib bucket key s)) (\<lambda>obj.
       wrap_err (''failed to read object '' @ key) obj)"

definition store_GetReader :: "'s s3 \<Rightarrow> string \<Rightarrow> string \<Rightarrow> 's \<Rightarrow> string res res" where
  "store_GetReader lib bucket key s =
     bind_res (wrap_err (''failed to get object '' @ key) (s3_get lib bucket key s)) (\<lambda>obj.
     bind_res (wrap_err (''failed to stat object '' @ key) (s3_stat lib bucket key s)) (\<lambda>_. Inr obj))"

definition store_Delete :: "'s s3 \<Rightarrow> string \<Rightarrow> string \<Rightarrow> 's \<Rightarrow> unit res \<times> 's" where
  "store_Delete lib bucket key s = wrap_fst (''failed to delete object '' @ key) (s3_remove lib bucket key s)"

definition store_Exists :: "'s s3 \<Rightarrow> string \<Rightarrow> string \<Rightarrow> 's \<Rightarrow> bool res" where
  "store_Exists lib bucket key s =
     (case s3_stat lib bucket key s of
        Inr _ \<Rightarrow> Inr True
      | Inl e \<Rightarrow> if s3_code lib e = ''NoSuchKey'' then Inr False else Inl (ErrWrap (''failed to stat object '' @ key) e))"

definition PresignGetURL :: "'s s3 \<Rightarrow> string \<Rightarrow> string \<Rightarrow> int \<Rightarrow> string res" where
  "PresignGetURL lib bucket key ttlMinutes =
     wrap_err (''failed to generate presigned URL for '' @ key) (s3_presign lib bucket key (ttlMinutes * Minute))"

subsection \<open>The store is a map\<close>

text \<open>
  What is relied on of an object store: \<open>contents\<close> reads a bucket of a state as a map, and \<open>up\<close> says that the
  service answers.  While it answers, writes succeed, an object that is there is read and found, and one that is
  not is neither, with the code \<^verbatim>\<open>NoSuchKey\<close>.  When it does not, a read fails with another code and a write fails, having
  changed its own key or not.  An object that is opened may still fail to be read.
\<close>

definition s3_laws :: "'s s3 \<Rightarrow> ('s \<Rightarrow> string \<Rightarrow> content_store) \<Rightarrow> ('s \<Rightarrow> bool) \<Rightarrow> bool" where
  "s3_laws lib contents up \<longleftrightarrow>
     (\<forall>b k c ty s. case s3_put lib b k c ty s of
        (Inr _, s') \<Rightarrow> contents s' = (contents s)(b := (contents s b)(k \<mapsto> (c, ty)))
      | (Inl _, s') \<Rightarrow> \<not> up s \<and> contents s' \<in> {contents s, (contents s)(b := (contents s b)(k \<mapsto> (c, ty)))}) \<and>
     (\<forall>b k s. case s3_remove lib b k s of
        (Inr _, s') \<Rightarrow> contents s' = (contents s)(b := (contents s b)(k := None))
      | (Inl _, s') \<Rightarrow> \<not> up s \<and> contents s' \<in> {contents s, (contents s)(b := (contents s b)(k := None))}) \<and>
     (\<forall>b k s. case s3_get lib b k s of
        Inr (Inr c) \<Rightarrow> map_option fst (contents s b k) = Some c
      | _ \<Rightarrow> up s \<longrightarrow> contents s b k = None) \<and>
     (\<forall>b k s. case s3_stat lib b k s of
        Inr _ \<Rightarrow> contents s b k \<noteq> None
      | Inl e \<Rightarrow> if s3_code lib e = ''NoSuchKey'' then contents s b k = None else \<not> up s)"

lemma wrap_fst_Inr_iff: "wrap_fst p r = (Inr x, s) \<longleftrightarrow> r = (Inr x, s)"
  by (cases r) (simp add: wrap_fst_def)

lemma s3_lawsD:
  assumes "s3_laws lib contents up"
  shows "case s3_put lib b k c ty s of
        (Inr _, s') \<Rightarrow> contents s' = (contents s)(b := (contents s b)(k \<mapsto> (c, ty)))
      | (Inl _, s') \<Rightarrow> \<not> up s \<and> contents s' \<in> {contents s, (contents s)(b := (contents s b)(k \<mapsto> (c, ty)))}"
    and "case s3_remove lib b k s of
        (Inr _, s') \<Rightarrow> contents s' = (contents s)(b := (contents s b)(k := None))
      | (Inl _, s') \<Rightarrow> \<not> up s \<and> contents s' \<in> {contents s, (contents s)(b := (contents s b)(k := None))}"
    and "case s3_get lib b k s of
        Inr (Inr c) \<Rightarrow> map_option fst (contents s b k) = Some c
      | _ \<Rightarrow> up s \<longrightarrow> contents s b k = None"
    and "case s3_stat lib b k s of
        Inr _ \<Rightarrow> contents s b k \<noteq> None
      | Inl e \<Rightarrow> if s3_code lib e = ''NoSuchKey'' then contents s b k = None else \<not> up s"
  using assms [unfolded s3_laws_def, THEN conjunct1, rule_format, where b = b and k = k and c = c and ty = ty and s = s]
    assms [unfolded s3_laws_def, THEN conjunct2, THEN conjunct1, rule_format, where b = b and k = k and s = s]
    assms [unfolded s3_laws_def, THEN conjunct2, THEN conjunct2, THEN conjunct1, rule_format, where b = b and k = k and s = s]
    assms [unfolded s3_laws_def, THEN conjunct2, THEN conjunct2, THEN conjunct2, rule_format, where b = b and k = k and s = s] by - assumption+

text \<open>The writes of the workers, each acknowledged or not, and what they can make of a map.\<close>

datatype store_op = Put string string string | Del string

fun store_write :: "'s s3 \<Rightarrow> string \<Rightarrow> store_op \<Rightarrow> 's \<Rightarrow> unit res \<times> 's" where
  "store_write lib bucket (Put k c ty) s = store_Store lib bucket k c ty s"
| "store_write lib bucket (Del k) s = store_Delete lib bucket k s"

fun store_run :: "'s s3 \<Rightarrow> string \<Rightarrow> store_op list \<Rightarrow> 's \<Rightarrow> bool list \<times> 's" where
  "store_run lib bucket [] s = ([], s)"
| "store_run lib bucket (x # ops) s =
     (case store_write lib bucket x s of
        (r, t) \<Rightarrow> (case store_run lib bucket ops t of (acks, s') \<Rightarrow> ((r = Inr ()) # acks, s')))"

fun map_op :: "store_op \<Rightarrow> content_store \<Rightarrow> content_store" where
  "map_op (Put k c ty) m = m(k \<mapsto> (c, ty))"
| "map_op (Del k) m = m(k := None)"

text \<open>An acknowledged write has taken place, another one has or has not.\<close>

fun outcomes :: "(store_op \<times> bool) list \<Rightarrow> content_store \<Rightarrow> content_store set" where
  "outcomes [] m = {m}"
| "outcomes ((x, ack) # xs) m = outcomes xs (map_op x m) \<union> (if ack then {} else outcomes xs m)"

lemma outcomes_acknowledged: "outcomes (map (\<lambda>x. (x, True)) ops) m = {fold map_op ops m}"
  by (induction ops arbitrary: m) simp_all

lemma store_write_map:
  assumes "s3_laws lib contents up" and "store_write lib bucket x s = (r, t)"
  shows "(if r = Inr () then contents t = (contents s)(bucket := map_op x (contents s bucket))
          else contents t = contents s \<or> contents t = (contents s)(bucket := map_op x (contents s bucket))) \<and> (up s \<longrightarrow> r = Inr ())"
proof (cases x)
  case (Put k c ty)
  then show ?thesis using assms(2) s3_lawsD(1) [OF assms(1), where b = bucket and k = k and c = c and ty = ty and s = s]
    by (cases "s3_put lib bucket k c ty s") (auto simp: store_Store_def wrap_fst_def wrap_err_def split: sum.splits)
next
  case (Del k)
  then show ?thesis using assms(2) s3_lawsD(2) [OF assms(1), where b = bucket and k = k and s = s]
    by (cases "s3_remove lib bucket k s") (auto simp: store_Delete_def wrap_fst_def wrap_err_def split: sum.splits)
qed

lemma store_run_map:
  assumes "s3_laws lib contents up"
  shows "store_run lib bucket ops s = (acks, s') \<Longrightarrow>
     (\<exists>m \<in> outcomes (zip ops acks) (contents s bucket). contents s' = (contents s)(bucket := m)) \<and> length acks = length ops"
proof (induction ops arbitrary: s acks)
  case (Cons x ops)
  obtain r t where w: "store_write lib bucket x s = (r, t)" by (metis surj_pair)
  obtain as where as: "store_run lib bucket ops t = (as, s')" "acks = (r = Inr ()) # as"
    using Cons.prems w by (auto split: prod.splits)
  from Cons.IH [OF as(1)] obtain m where m: "m \<in> outcomes (zip ops as) (contents t bucket)" "contents s' = (contents t)(bucket := m)"
    "length as = length ops" by blast
  then have "m \<in> outcomes (zip (x # ops) acks) (contents s bucket)" "contents s' = (contents s)(bucket := m)"
    using store_write_map [OF assms w] as(2) by (auto split: if_splits)
  then show ?case using m(3) as(2) by auto
qed (auto intro!: exI)

lemma Get_spec:
  assumes "s3_laws lib contents up"
  shows "store_Get lib bucket k s = Inr c \<Longrightarrow> map_option fst (contents s bucket k) = Some c"
    and "up s \<Longrightarrow> contents s bucket k = Some (c, ty) \<Longrightarrow> store_Get lib bucket k s = Inr c"
  using s3_lawsD(3) [OF assms, where b = bucket and k = k and s = s]
  by (auto simp: store_Get_def bind_res_def wrap_err_def split: sum.splits)

lemma Exists_spec:
  assumes "s3_laws lib contents up"
  shows "store_Exists lib bucket k s = Inr ex \<Longrightarrow> ex = (contents s bucket k \<noteq> None)"
    and "up s \<Longrightarrow> store_Exists lib bucket k s = Inr (contents s bucket k \<noteq> None)"
  using s3_lawsD(4) [OF assms, where b = bucket and k = k and s = s] by (auto simp: store_Exists_def split: sum.splits if_splits)

lemma GetReader_spec:
  assumes "s3_laws lib contents up"
  shows "store_GetReader lib bucket k s = Inr (Inr c) \<Longrightarrow> map_option fst (contents s bucket k) = Some c"
    and "up s \<Longrightarrow> contents s bucket k = Some (c, ty) \<Longrightarrow> store_GetReader lib bucket k s = Inr (Inr c)"
    and "contents s bucket k = None \<Longrightarrow> \<exists>e. store_GetReader lib bucket k s = Inl e"
  using s3_lawsD(3,4) [OF assms, where b = bucket and k = k and s = s]
  by (auto simp: store_GetReader_def bind_res_def wrap_err_def split: sum.splits if_splits)

text \<open>
  C21. The MinIO store implements a map.  After any sequence of writes and deletions, some of which may have
  failed, the bucket holds what a map holds on which every acknowledged operation and some of the others took
  place, in their order, and other buckets are untouched.  In that state an answer of \<^verbatim>\<open>Get\<close>, \<^verbatim>\<open>GetReader\<close> or \<^verbatim>\<open>Exists\<close> is
  the answer of the map, no reader is returned for a missing object, and while the service answers every object of
  the map is read with its contents and \<^verbatim>\<open>Exists\<close> answers for every key.
\<close>

theorem store_implements_map:
  assumes "s3_laws lib contents up" and "store_run lib bucket ops s = (acks, s')"
  shows "\<exists>m \<in> outcomes (zip ops acks) (contents s bucket). contents s' = (contents s)(bucket := m) \<and>
     (\<forall>k c. (store_Get lib bucket k s' = Inr c \<or> store_GetReader lib bucket k s' = Inr (Inr c)) \<longrightarrow> map_option fst (m k) = Some c) \<and>
     (\<forall>k ex. store_Exists lib bucket k s' = Inr ex \<longrightarrow> ex = (m k \<noteq> None)) \<and>
     (\<forall>k. m k = None \<longrightarrow> (\<exists>e. store_GetReader lib bucket k s' = Inl e) \<and> (\<exists>e. store_Get lib bucket k s' = Inl e)) \<and>
     (up s' \<longrightarrow> (\<forall>k. store_Exists lib bucket k s' = Inr (m k \<noteq> None)) \<and>
        (\<forall>k c ty. m k = Some (c, ty) \<longrightarrow> store_Get lib bucket k s' = Inr c \<and> store_GetReader lib bucket k s' = Inr (Inr c)))"
proof -
  obtain m where m: "m \<in> outcomes (zip ops acks) (contents s bucket)" "contents s' = (contents s)(bucket := m)"
    using store_run_map [OF assms] by blast
  then have b: "contents s' bucket = m" by simp
  note get = Get_spec [OF assms(1), where bucket = bucket and s = s', unfolded b] and ex = Exists_spec [OF assms(1), where bucket = bucket and s = s', unfolded b]
    and reader = GetReader_spec [OF assms(1), where bucket = bucket and s = s', unfolded b]
  have "\<exists>e. store_Get lib bucket k s' = Inl e" if "m k = None" for k
    using get(1) [of k] that by (cases "store_Get lib bucket k s'") auto
  moreover have "map_option fst (m k) = Some c" if "store_Get lib bucket k s' = Inr c \<or> store_GetReader lib bucket k s' = Inr (Inr c)" for k c
    using that get(1) reader(1) by blast
  ultimately show ?thesis
    by (intro bexI [OF _ m(1)] conjI [OF m(2)] conjI allI impI) (erule (1) get(2) reader(2) | erule ex reader(3) | blast)+
qed

text \<open>A store whose state is its contents and whether it answers; a write without an answer is lost.\<close>

definition plain_s3 :: "((string \<Rightarrow> content_store) \<times> bool) s3" where
  "plain_s3 = \<lparr>s3_bucket_exists = (\<lambda>b s. Inr True), s3_make_bucket = (\<lambda>b s. (Inr (), s)),
     s3_put = (\<lambda>b k c ty (s, u). if u then (Inr (), (s(b := (s b)(k \<mapsto> (c, ty))), u)) else (Inl (ErrText ''timeout''), (s, True))),
     s3_get = (\<lambda>b k (s, u). if u then Inr (case s b k of None \<Rightarrow> Inl (ErrText ''NoSuchKey'') | Some (c, ty) \<Rightarrow> Inr c)
                             else Inl (ErrText ''timeout'')),
     s3_stat = (\<lambda>b k (s, u). if \<not> u then Inl (ErrText ''timeout'') else if s b k = None then Inl (ErrText ''NoSuchKey'') else Inr ()),
     s3_remove = (\<lambda>b k (s, u). if u then (Inr (), (s(b := (s b)(k := None)), u)) else (Inl (ErrText ''timeout''), (s, True))),
     s3_presign = (\<lambda>b k d. Inr k), s3_code = err_text\<rparr>"

lemma plain_s3_laws: "s3_laws plain_s3 fst snd"
  by (auto simp: s3_laws_def plain_s3_def split: option.splits if_splits prod.splits)

text \<open>The witness: the first write is lost in an outage, three more are acknowledged.\<close>

definition sample_writes :: "store_op list" where
  "sample_writes = [Put ''a'' ''0'' ''text/html'', Put ''k'' ''1'' ''text/html'', Put ''k'' ''2'' ''text/html'', Del ''x'']"

theorem store_implements_map_witness:
  "\<exists>s'. store_run plain_s3 ''pages'' sample_writes (\<lambda>_. [''x'' \<mapsto> (''9'', ''text/html'')], False) = ([False, True, True, True], s') \<and>
     store_Get plain_s3 ''pages'' ''k'' s' = Inr ''2'' \<and> store_GetReader plain_s3 ''pages'' ''k'' s' = Inr (Inr ''2'') \<and>
     store_Exists plain_s3 ''pages'' ''x'' s' = Inr False \<and> (\<exists>e. store_Get plain_s3 ''pages'' ''x'' s' = Inl e)"
proof -
  obtain s' where s': "store_run plain_s3 ''pages'' sample_writes (\<lambda>_. [''x'' \<mapsto> (''9'', ''text/html'')], False) = ([False, True, True, True], s')"
    "snd s'" by (simp add: sample_writes_def store_Store_def store_Delete_def wrap_fst_def plain_s3_def)
  have keys: "m ''k'' = Some (''2'', ''text/html'')" "m ''x'' = None"
    if "m \<in> outcomes (zip sample_writes [False, True, True, True]) [''x'' \<mapsto> (''9'', ''text/html'')]" for m
    using that by (auto simp: sample_writes_def)
  from store_implements_map [OF plain_s3_laws s'(1)] show ?thesis
  proof (elim bexE conjE, goal_cases)
    case (1 m)
    have k: "m ''k'' = Some (''2'', ''text/html'')" "m ''x'' = None" using 1(1) keys [of m] by simp_all
    have u: "store_Exists plain_s3 ''pages'' ''x'' s' = Inr (m ''x'' \<noteq> None)"
      "m ''k'' = Some (''2'', ''text/html'') \<Longrightarrow>
       store_Get plain_s3 ''pages'' ''k'' s' = Inr ''2'' \<and> store_GetReader plain_s3 ''pages'' ''k'' s' = Inr (Inr ''2'')"
      using mp [OF 1(6) s'(2)] by blast+
    have "\<exists>e. store_Get plain_s3 ''pages'' ''x'' s' = Inl e" using 1(5) k(2) by blast
    then show ?case using s'(1) u k by (intro exI [of _ s']) simp
  qed
qed

text \<open>The constructor leaves a bucket to write to, or fails.\<close>

lemma NewMinIOStore_bucket:
  assumes "NewMinIOStore lib new_client parse endpoint useSSL bucket base s = (Inr signer, s')"
  shows "s3_bucket_exists lib bucket s = Inr True \<and> s' = s \<or> s3_bucket_exists lib bucket s = Inr False \<and> s3_make_bucket lib bucket s = (Inr (), s')"
  using assms by (auto simp: NewMinIOStore_def ensureBucket_def wrap_fst_Inr_iff split: sum.splits prod.splits if_splits)

section \<open>Previews\<close>

subsection \<open>Model\<close>

type_synonym PreviewID = ID

definition NewPreviewID :: "(string \<Rightarrow> bool) \<Rightarrow> string \<Rightarrow> PreviewID res" where
  "NewPreviewID uuid_ok s = (case NewID uuid_ok s of Inl e \<Rightarrow> Inl e | Inr b \<Rightarrow> Inr b)"

record Preview =
  pv_ID :: PreviewID
  pv_SourceURL :: string
  pv_FinalURL :: "string option"
  pv_MinioKey :: string
  pv_ContentType :: string
  pv_DownloadURL :: string
  pv_CreatedAt :: time
  pv_ExpiresAt :: "time option"

record PreviewSnapshot =
  ps_ID :: string
  ps_SourceURL :: string
  ps_FinalURL :: "string option"
  ps_MinioKey :: string
  ps_ContentType :: string
  ps_DownloadURL :: string
  ps_CreatedAt :: time
  ps_ExpiresAt :: "time option"

definition SavePreviewToSnapshot :: "Preview \<Rightarrow> PreviewSnapshot" where
  "SavePreviewToSnapshot preview =
     \<lparr>ps_ID = pv_ID preview, ps_SourceURL = pv_SourceURL preview, ps_FinalURL = pv_FinalURL preview,
      ps_MinioKey = pv_MinioKey preview, ps_ContentType = pv_ContentType preview, ps_DownloadURL = pv_DownloadURL preview,
      ps_CreatedAt = pv_CreatedAt preview, ps_ExpiresAt = pv_ExpiresAt preview\<rparr>"

definition RestorePreviewFromSnapshot :: "(string \<Rightarrow> bool) \<Rightarrow> PreviewSnapshot \<Rightarrow> Preview res" where
  "RestorePreviewFromSnapshot uuid_ok s =
     bind_res (NewPreviewID uuid_ok (ps_ID s)) (\<lambda>i.
       Inr \<lparr>pv_ID = i, pv_SourceURL = ps_SourceURL s, pv_FinalURL = ps_FinalURL s, pv_MinioKey = ps_MinioKey s,
            pv_ContentType = ps_ContentType s, pv_DownloadURL = ps_DownloadURL s, pv_CreatedAt = ps_CreatedAt s,
            pv_ExpiresAt = ps_ExpiresAt s\<rparr>)"

definition preview_Create :: "(string \<Rightarrow> bool) \<Rightarrow> Preview \<Rightarrow> PreviewSnapshot list \<Rightarrow> PreviewID res \<times> PreviewSnapshot list" where
  "preview_Create uuid_ok entity rows =
     (let s = SavePreviewToSnapshot entity
      in if ps_ID s \<in> ps_ID ` set rows then (Inl unique_violation, rows) else (NewPreviewID uuid_ok (ps_ID s), rows @ [s]))"

definition preview_Get :: "(string \<Rightarrow> bool) \<Rightarrow> PreviewID \<Rightarrow> PreviewSnapshot list \<Rightarrow> Preview res" where
  "preview_Get uuid_ok i rows =
     (case List.find (\<lambda>s. ps_ID s = i) rows of None \<Rightarrow> Inl ErrNoRows | Some s \<Rightarrow> RestorePreviewFromSnapshot uuid_ok s)"

text \<open>The tables and the store: a rolled back transaction does not take an object back.\<close>

record preview_world =
  pw_rows :: "PreviewSnapshot list"
  pw_store :: content_store

record preview_env =
  pe_uuid_ok :: "string \<Rightarrow> bool"
  pe_fetch :: "AuthOptions \<Rightarrow> RetryPolicy \<Rightarrow> string \<Rightarrow> FetchResult res"
  pe_retry :: RetryPolicy
  pe_sanitize :: "string \<Rightarrow> string"
  pe_fresh :: PreviewID
  pe_store :: "gerr option"
  pe_presign :: "string \<Rightarrow> int \<Rightarrow> string res"
  pe_now :: time
  pe_begin :: "gerr option"
  pe_create :: "gerr option"
  pe_commit :: "gerr option"

definition UrlTTL :: int where "UrlTTL = 60"

definition preview_type :: string where "preview_type = ''text/html; charset=utf-8''"

definition preview_key :: "PreviewID \<Rightarrow> string" where
  "preview_key i = ''previews/'' @ i @ ''.html''"

definition new_preview :: "preview_env \<Rightarrow> string \<Rightarrow> FetchResult \<Rightarrow> string \<Rightarrow> Preview" where
  "new_preview env url fetchResult downloadURL =
     \<lparr>pv_ID = pe_fresh env, pv_SourceURL = url,
      pv_FinalURL = (if fr_FinalURL fetchResult \<noteq> url then Some (fr_FinalURL fetchResult) else None),
      pv_MinioKey = preview_key (pe_fresh env), pv_ContentType = preview_type, pv_DownloadURL = downloadURL,
      pv_CreatedAt = pe_now env, pv_ExpiresAt = None\<rparr>"

text \<open>The body of the transaction after the object was stored, on the tables.\<close>

definition persist_preview :: "preview_env \<Rightarrow> string \<Rightarrow> FetchResult \<Rightarrow> PreviewSnapshot list \<Rightarrow> Preview res \<times> PreviewSnapshot list" where
  "persist_preview env url fetchResult rows =
     (case pe_store env of
        Some e \<Rightarrow> (Inl (ErrWrap ''failed to store HTML in MinIO'' e), rows)
      | None \<Rightarrow>
          (case pe_presign env (preview_key (pe_fresh env)) UrlTTL of
             Inl e \<Rightarrow> (Inl (ErrWrap ''failed to generate presigned URL'' e), rows)
           | Inr downloadURL \<Rightarrow>
               (let preview = new_preview env url fetchResult downloadURL
                in case db_call (pe_create env) (preview_Create (pe_uuid_ok env) preview) rows of
                     (Inl e, rows') \<Rightarrow> (Inl (ErrWrap ''failed to create preview'' e), rows')
                   | (Inr createdID, rows') \<Rightarrow> (Inr (preview\<lparr>pv_ID := createdID\<rparr>), rows'))))"

definition CreatePreview :: "preview_env \<Rightarrow> string \<Rightarrow> AuthOptions \<Rightarrow> preview_world \<Rightarrow> Preview res \<times> preview_world" where
  "CreatePreview env url auth w =
     (case pe_fetch env auth (pe_retry env) url of
        Inl e \<Rightarrow> (Inl (ErrWrap (''failed to fetch URL '' @ url) e), w)
      | Inr fetchResult \<Rightarrow>
          (let stored = (pe_begin env = None \<and> pe_store env = None);
               store' = (if stored then (pw_store w)(preview_key (pe_fresh env) \<mapsto> (pe_sanitize env (fr_Body fetchResult), preview_type))
                         else pw_store w)
           in case transaction (pe_begin env) (pe_commit env) (persist_preview env url fetchResult) (pw_rows w) of
                (r, rows') \<Rightarrow> (r, \<lparr>pw_rows = rows', pw_store = store'\<rparr>)))"

definition GetPreview :: "(string \<Rightarrow> bool) \<Rightarrow> gerr option \<Rightarrow> string \<Rightarrow> preview_world \<Rightarrow> Preview res" where
  "GetPreview uuid_ok fail i w =
     bind_res (wrap_err ''invalid preview_id'' (NewPreviewID uuid_ok i)) (\<lambda>pid.
       wrap_err ''failed to get preview'' (db_read fail (preview_Get uuid_ok pid) (pw_rows w)))"

text \<open>The endpoints; \<open>cookies\<close> are the values of the metadata key \<^verbatim>\<open>x-preview-cookie\<close>, if there is metadata.\<close>

record pb_Preview =
  pbv_Id :: string
  pbv_SourceUrl :: string
  pbv_FinalUrl :: "string option"
  pbv_MinioKey :: string
  pbv_ContentType :: string
  pbv_CreatedAt :: time
  pbv_ExpiresAt :: "time option"
  pbv_DownloadUrl :: string

definition ToProtoPreview :: "Preview option \<Rightarrow> pb_Preview option" where
  "ToProtoPreview preview =
     map_option (\<lambda>p. \<lparr>pbv_Id = pv_ID p, pbv_SourceUrl = pv_SourceURL p, pbv_FinalUrl = pv_FinalURL p, pbv_MinioKey = pv_MinioKey p,
       pbv_ContentType = pv_ContentType p, pbv_CreatedAt = pv_CreatedAt p, pbv_ExpiresAt = pv_ExpiresAt p,
       pbv_DownloadUrl = pv_DownloadURL p\<rparr>) preview"

definition preview_auth :: "string list option \<Rightarrow> AuthOptions" where
  "preview_auth cookies =
     \<lparr>Cookie = (case cookies of None \<Rightarrow> [] | Some [] \<Rightarrow> [] | Some (c # _) \<Rightarrow> TrimSpace c),
      BasicUser = [], BasicPassword = [], BearerToken = []\<rparr>"

definition api_CreatePreview :: "preview_env \<Rightarrow> string list option \<Rightarrow> string \<Rightarrow> preview_world \<Rightarrow> (api_error + string) \<times> preview_world" where
  "api_CreatePreview env cookies url w =
     (case CreatePreview env url (preview_auth cookies) w of
        (Inl e, w') \<Rightarrow> (Inl (PlainError e), w')
      | (Inr preview, w') \<Rightarrow> (Inr (pv_ID preview), w'))"

definition api_GetPreview :: "(string \<Rightarrow> bool) \<Rightarrow> gerr option \<Rightarrow> string \<Rightarrow> preview_world \<Rightarrow> api_error + pb_Preview option" where
  "api_GetPreview uuid_ok fail i w =
     (case GetPreview uuid_ok fail i w of Inl e \<Rightarrow> Inl (PlainError e) | Inr p \<Rightarrow> Inr (ToProtoPreview (Some p)))"

subsection \<open>What is created is what is shown\<close>

lemma NewPreviewID_eq [simp]: "NewPreviewID ok s = NewID ok s"
  by (simp add: NewPreviewID_def split: sum.split)

lemma find_snoc: "i \<notin> f ` set xs \<Longrightarrow> f x = i \<Longrightarrow> List.find (\<lambda>y. f y = i) (xs @ [x]) = Some x"
  by (induction xs) auto

lemma snapshot_restored: "valid_id ok (pv_ID p) \<Longrightarrow> RestorePreviewFromSnapshot ok (SavePreviewToSnapshot p) = Inr p"
  by (simp add: RestorePreviewFromSnapshot_def SavePreviewToSnapshot_def)

lemma persisted:
  assumes "persist_preview env url page rows = (Inr p, rows')"
  shows "\<exists>link. pe_store env = None \<and> pe_presign env (preview_key (pe_fresh env)) UrlTTL = Inr link \<and> p = new_preview env url page link \<and>
     valid_id (pe_uuid_ok env) (pv_ID p) \<and> pv_ID p \<notin> ps_ID ` set rows \<and> rows' = rows @ [SavePreviewToSnapshot p]"
  using assms
  by (cases "pe_create env")
    (auto simp: persist_preview_def Let_def preview_Create_def new_preview_def SavePreviewToSnapshot_def valid_id_def
      dest!: NewID_InrD split: option.splits sum.splits prod.splits if_splits)

text \<open>
  C28. A preview that was created can be shown: the endpoint that created it answers its identifier,
  and with it the other endpoint answers the page that was asked for, the address it was found at
  if that differs and a link signed for its object, which holds the sanitized page; the rows of other
  previews are untouched.  When the creation fails no row is added or changed.
\<close>

theorem preview_shown:
  assumes "api_CreatePreview env cookies url w = (r, w')"
  shows "(\<forall>i. r = Inr i \<longrightarrow> (\<exists>page link. pe_fetch env (preview_auth cookies) (pe_retry env) url = Inr page \<and>
        pe_presign env (preview_key i) UrlTTL = Inr link \<and>
        api_GetPreview (pe_uuid_ok env) None i w' = Inr (ToProtoPreview (Some (new_preview env url page link))) \<and>
        pw_store w' (preview_key i) = Some (pe_sanitize env (fr_Body page), preview_type) \<and>
        pw_rows w' = pw_rows w @ [SavePreviewToSnapshot (new_preview env url page link)])) \<and>
     (\<forall>e. r = Inl e \<longrightarrow> pw_rows w' = pw_rows w)"
proof (cases r)
  case (Inl e)
  then show ?thesis using assms
    by (auto simp: api_CreatePreview_def CreatePreview_def Let_def split: prod.splits sum.splits dest: transaction_error_unchanged)
next
  case (Inr i)
  then obtain p where c: "CreatePreview env url (preview_auth cookies) w = (Inr p, w')" "i = pv_ID p"
    using assms by (auto simp: api_CreatePreview_def split: prod.splits sum.splits)
  then obtain page where page: "pe_fetch env (preview_auth cookies) (pe_retry env) url = Inr page" "persist_preview env url page (pw_rows w) = (Inr p, pw_rows w')"
    "pe_store env = None \<Longrightarrow> pw_store w' = (pw_store w)(preview_key (pe_fresh env) \<mapsto> (pe_sanitize env (fr_Body page), preview_type))"
    by (auto simp: CreatePreview_def Let_def transaction_commits split: prod.splits sum.splits)
  obtain link where l: "pe_store env = None" "pe_presign env (preview_key (pe_fresh env)) UrlTTL = Inr link" "p = new_preview env url page link"
    "valid_id (pe_uuid_ok env) (pv_ID p)" "pv_ID p \<notin> ps_ID ` set (pw_rows w)" "pw_rows w' = pw_rows w @ [SavePreviewToSnapshot p]"
    using persisted [OF page(2)] by blast
  have "i = pe_fresh env" using c l(3) by (simp add: new_preview_def)
  moreover have "List.find (\<lambda>s. ps_ID s = i) (pw_rows w') = Some (SavePreviewToSnapshot p)"
    using l(5,6) c(2) by (simp add: find_snoc SavePreviewToSnapshot_def)
  then have "api_GetPreview (pe_uuid_ok env) None i w' = Inr (ToProtoPreview (Some p))"
    using l(4) c(2) by (simp add: api_GetPreview_def GetPreview_def db_read_def preview_Get_def snapshot_restored)
  ultimately show ?thesis using Inr l page by auto
qed

definition sample_preview_env :: preview_env where
  "sample_preview_env = \<lparr>pe_uuid_ok = (\<lambda>_. True),
     pe_fetch = (\<lambda>a r u. Inr \<lparr>fr_Body = ''<script>'', fr_FinalURL = u, fr_StatusCode = 200, fr_ContentType = ''text/html''\<rparr>),
     pe_retry = \<lparr>MaxAttempts = 3, BackoffInitialMs = 1000, BackoffMultiplier = 2\<rparr>, pe_sanitize = (\<lambda>_. []), pe_fresh = ''p1'', pe_store = None,
     pe_presign = (\<lambda>k m. Inr k), pe_now = 7, pe_begin = None, pe_create = None, pe_commit = None\<rparr>"

theorem preview_shown_witness:
  "\<exists>w'. api_CreatePreview sample_preview_env None ''https://a'' \<lparr>pw_rows = [], pw_store = Map.empty\<rparr> = (Inr ''p1'', w') \<and>
     pw_store w' ''previews/p1.html'' = Some ([], preview_type) \<and> length (pw_rows w') = 1"
proof -
  obtain r w' where c: "api_CreatePreview sample_preview_env None ''https://a'' \<lparr>pw_rows = [], pw_store = Map.empty\<rparr> = (r, w')"
    by (cases "api_CreatePreview sample_preview_env None ''https://a'' \<lparr>pw_rows = [], pw_store = Map.empty\<rparr>")
  have r: "r = Inr ''p1''" using c
    by (simp add: api_CreatePreview_def CreatePreview_def sample_preview_env_def transaction_def persist_preview_def Let_def preview_Create_def
        new_preview_def SavePreviewToSnapshot_def NewID_def split: prod.splits)
  have k: "preview_key ''p1'' = ''previews/p1.html''" by (simp add: preview_key_def)
  show ?thesis using preview_shown [OF c] c r k by (auto simp: sample_preview_env_def)
qed

text \<open>
  A creation that fails after the object was written leaves the object behind, and a link is signed for
  an hour while the row that carries it has no time of expiry.
\<close>

lemma failed_preview_leaves_object:
  assumes "pe_fetch env auth (pe_retry env) url = Inr page" and "pe_begin env = None" and "pe_store env = None" and "pe_commit env = Some e"
  shows "pw_store (snd (CreatePreview env url auth w)) (preview_key (pe_fresh env)) = Some (pe_sanitize env (fr_Body page), preview_type) \<and>
     (\<exists>e. fst (CreatePreview env url auth w) = Inl e)"
  using assms by (auto simp: CreatePreview_def Let_def transaction_def split: prod.split sum.split)

lemma preview_never_expires: "pv_ExpiresAt (new_preview env url page link) = None"
  by (simp add: new_preview_def)

end
