(* ===== verification/Request_Validation.thy ===== *)
theory Request_Validation
  imports Job_API Go_Strings
begin

text \<open>
  The validation of requests: the functions \<^verbatim>\<open>Validate\<close> and \<^verbatim>\<open>ValidateAll\<close> of \<^verbatim>\<open>pkg/v1/models.pb.validate.go\<close> for
  every request message and the messages inside it, and what \<^verbatim>\<open>ValidateInterceptor\<close> makes of them.
  \<^verbatim>\<open>net/mail\<close> is an argument: the local part and the domain of the address it finds, whose text is the
  two with an at sign between them.  A timestamp has no \<^verbatim>\<open>Validate\<close> and is not looked at.
\<close>

section \<open>Model\<close>

subsection \<open>Violations\<close>

text \<open>
  A violation names the message, the field and the reason, with the error of the embedded message as its
  cause; \<^verbatim>\<open>ValidateAll\<close> wraps the list of them.
\<close>

datatype verr = Violation string string string "verr option" | MultiError string "verr list" | CauseText string

fun verr_text :: "verr \<Rightarrow> string" where
  "verr_text (Violation msg field reason cause) =
     ''invalid '' @ msg @ ''.'' @ field @ '': '' @ reason @
       (case cause of None \<Rightarrow> [] | Some e \<Rightarrow> '' | caused by: '' @ verr_text e)"
| "verr_text (MultiError msg es) = join_with ''; '' (map verr_text es)"
| "verr_text (CauseText s) = s"

text \<open>
  The generated functions have one form: checks in the order of the fields.  The first violation is
  returned, or with \<^verbatim>\<open>all\<close> the list of all of them.
\<close>

definition run_checks :: "string \<Rightarrow> bool \<Rightarrow> (bool \<Rightarrow> verr option) list \<Rightarrow> verr option" where
  "run_checks msg all cs =
     (case List.map_filter (\<lambda>c. c all) cs of
        [] \<Rightarrow> None
      | e # es \<Rightarrow> Some (if all then MultiError msg (e # es) else e))"

definition rule :: "string \<Rightarrow> string \<Rightarrow> string \<Rightarrow> bool \<Rightarrow> bool \<Rightarrow> verr option" where
  "rule msg field reason ok all = (if ok then None else Some (Violation msg field reason None))"

definition embedded :: "string \<Rightarrow> string \<Rightarrow> (bool \<Rightarrow> 'm \<Rightarrow> verr option) \<Rightarrow> 'm option \<Rightarrow> bool \<Rightarrow> verr option" where
  "embedded msg field validate m all =
     (case m of
        None \<Rightarrow> None
      | Some x \<Rightarrow> map_option (\<lambda>e. Violation msg field ''embedded message failed validation'' (Some e)) (validate all x))"

definition embedded_list :: "string \<Rightarrow> string \<Rightarrow> (bool \<Rightarrow> 'm \<Rightarrow> verr option) \<Rightarrow> 'm option list \<Rightarrow> (bool \<Rightarrow> verr option) list" where
  "embedded_list msg field validate ms =
     map (\<lambda>(idx, m). embedded msg (field @ ''['' @ show_nat idx @ '']'') validate m) (enumerate 0 ms)"

subsection \<open>Configurations\<close>

definition validate_AuthOptions :: "bool \<Rightarrow> pb_AuthOptions \<Rightarrow> verr option" where
  "validate_AuthOptions all m = run_checks ''AuthOptions'' all []"

definition validate_RateLimitPolicy :: "bool \<Rightarrow> pb_RateLimitPolicy \<Rightarrow> verr option" where
  "validate_RateLimitPolicy all m = run_checks ''RateLimitPolicy'' all []"

definition validate_RetryPolicy :: "bool \<Rightarrow> pb_RetryPolicy \<Rightarrow> verr option" where
  "validate_RetryPolicy all m = run_checks ''RetryPolicy'' all []"

definition validate_ScheduleOptions :: "bool \<Rightarrow> pb_ScheduleOptions \<Rightarrow> verr option" where
  "validate_ScheduleOptions all m = run_checks ''ScheduleOptions'' all []"

definition validate_ScopeRules :: "bool \<Rightarrow> pb_ScopeRules \<Rightarrow> verr option" where
  "validate_ScopeRules all m = run_checks ''ScopeRules'' all []"

definition validate_Seed :: "bool \<Rightarrow> pb_Seed \<Rightarrow> verr option" where
  "validate_Seed all m = run_checks ''Seed'' all []"

definition validate_ExtractorSpec :: "bool \<Rightarrow> pb_ExtractorSpec \<Rightarrow> verr option" where
  "validate_ExtractorSpec all m = run_checks ''ExtractorSpec'' all []"

definition validate_TransformSpec :: "bool \<Rightarrow> pb_TransformSpec \<Rightarrow> verr option" where
  "validate_TransformSpec all m = run_checks ''TransformSpec'' all []"

definition validate_FieldSpec :: "bool \<Rightarrow> pb_FieldSpec \<Rightarrow> verr option" where
  "validate_FieldSpec all m = run_checks ''FieldSpec'' all
     (embedded ''FieldSpec'' ''Extractor'' validate_ExtractorSpec (pbf_Extractor m) #
      embedded_list ''FieldSpec'' ''Transforms'' validate_TransformSpec (pbf_Transforms m))"

definition validate_PaginationSpec :: "bool \<Rightarrow> pb_PaginationSpec \<Rightarrow> verr option" where
  "validate_PaginationSpec all m = run_checks ''PaginationSpec'' all []"

definition validate_ItemsSpec :: "bool \<Rightarrow> pb_ItemsSpec \<Rightarrow> verr option" where
  "validate_ItemsSpec all m = run_checks ''ItemsSpec'' all (embedded_list ''ItemsSpec'' ''Fields'' validate_FieldSpec (pbi_Fields m))"

definition validate_ExtractionSpec :: "bool \<Rightarrow> pb_ExtractionSpec \<Rightarrow> verr option" where
  "validate_ExtractionSpec all m = run_checks ''ExtractionSpec'' all
     (embedded_list ''ExtractionSpec'' ''Fields'' validate_FieldSpec (pbx_Fields m) @
      embedded_list ''ExtractionSpec'' ''Pagination'' validate_PaginationSpec (pbx_Pagination m) @
      [embedded ''ExtractionSpec'' ''Items'' validate_ItemsSpec (pbx_Items m)])"

definition validate_CrawlJobConfig :: "bool \<Rightarrow> pb_CrawlJobConfig \<Rightarrow> verr option" where
  "validate_CrawlJobConfig all m = run_checks ''CrawlJobConfig'' all
     ([embedded ''CrawlJobConfig'' ''ExtractionSpec'' validate_ExtractionSpec (pbc_ExtractionSpec m),
       embedded ''CrawlJobConfig'' ''Scopes'' validate_ScopeRules (pbc_Scopes m)] @
      embedded_list ''CrawlJobConfig'' ''Seeds'' validate_Seed (pbc_Seeds m) @
      [embedded ''CrawlJobConfig'' ''RateLimit'' validate_RateLimitPolicy (pbc_RateLimit m),
       embedded ''CrawlJobConfig'' ''Retries'' validate_RetryPolicy (pbc_Retries m),
       embedded ''CrawlJobConfig'' ''Auth'' validate_AuthOptions (pbc_Auth m),
       embedded ''CrawlJobConfig'' ''Schedule'' validate_ScheduleOptions (pbc_Schedule m)])"

subsection \<open>Addresses\<close>

text \<open>The offending rune is left out of the last message.\<close>

definition host_letter :: "char \<Rightarrow> bool" where
  "host_letter c \<longleftrightarrow>
     (CHR ''a'' \<le> c \<and> c \<le> CHR ''z'') \<or> (CHR ''0'' \<le> c \<and> c \<le> CHR ''9'') \<or> c = CHR ''-''"

definition part_error :: "string \<Rightarrow> verr option" where
  "part_error part =
     (if length part = 0 \<or> 63 < length part then Some (CauseText ''hostname part must be non-empty and cannot exceed 63 characters'')
      else if hd part = CHR ''-'' then Some (CauseText ''hostname parts cannot begin with hyphens'')
      else if last part = CHR ''-'' then Some (CauseText ''hostname parts cannot end with hyphens'')
      else if \<not> list_all host_letter part then Some (CauseText ''hostname parts can only contain alphanumeric characters or hyphens'')
      else None)"

definition validateHostname :: "string \<Rightarrow> verr option" where
  "validateHostname host =
     (if 253 < length host then Some (CauseText ''hostname cannot exceed 253 characters'')
      else case List.map_filter part_error (split_byte (CHR ''.'') (ToLower (TrimSuffix host ''.''))) of
             [] \<Rightarrow> None
           | e # _ \<Rightarrow> Some e)"

type_synonym mail_lib = "string \<Rightarrow> (string \<times> string) res"

definition validateEmail :: "mail_lib \<Rightarrow> string \<Rightarrow> verr option" where
  "validateEmail parseAddress addr0 =
     (case parseAddress addr0 of
        Inl e \<Rightarrow> Some (CauseText (err_text e))
      | Inr (local, domain) \<Rightarrow>
          let addr = local @ ''@'' @ domain;
              part0 = takeWhile (\<lambda>c. c \<noteq> CHR ''@'') addr;
              part1 = tl (dropWhile (\<lambda>c. c \<noteq> CHR ''@'') addr)
          in if 254 < length addr then Some (CauseText ''email addresses cannot exceed 254 characters'')
             else if 64 < length part0 then Some (CauseText ''email address local phrase cannot exceed 64 characters'')
             else validateHostname part1)"

subsection \<open>Requests\<close>

text \<open>
  The requests of the unary methods.  Those with one or two plain fields carry them directly; the two
  listings and the configuration are the messages of the handlers.
\<close>

datatype request =
    ListJobsReq ListJobsRequest
  | CreateJobReq "pb_CrawlJobConfig option"
  | GetJobReq string
  | DeleteJobReq string
  | CreateTaskReq string string
  | GetTaskReq string
  | ListTasksByJobReq ListTasksByJobRequest
  | GetTaskAnalyticsReq string
  | GetJobExportFileURLReq string string
  | GetTaskFileURLReq string string
  | CreatePreviewReq string
  | GetPreviewReq string
  | RegisterReq string string
  | LoginReq string string
  | RefreshReq string
  | LogoutReq string
  | ListUsersReq
  | UpdateUserRoleReq string ProtoRole
  | ListWorkersReq
  | DrainWorkerReq string string
  | ForceKillWorkerReq string string

definition min_len :: "string \<Rightarrow> string \<Rightarrow> nat \<Rightarrow> string \<Rightarrow> bool \<Rightarrow> verr option" where
  "min_len msg field n value =
     rule msg field (''value length must be at least '' @ show_nat n @ '' runes'') (n \<le> RuneCount value)"

definition in_list :: "string \<Rightarrow> string \<Rightarrow> string list \<Rightarrow> string \<Rightarrow> bool \<Rightarrow> verr option" where
  "in_list msg field values value =
     rule msg field (''value must be in list ['' @ join_with '' '' values @ '']'') (value \<in> set values)"

definition email_rule :: "mail_lib \<Rightarrow> string \<Rightarrow> string \<Rightarrow> bool \<Rightarrow> verr option" where
  "email_rule parseAddress msg value all =
     map_option (\<lambda>e. Violation msg ''Email'' ''value must be a valid email address'' (Some e)) (validateEmail parseAddress value)"

definition validate_JobListFilter :: "bool \<Rightarrow> ListCrawlJobsFilter \<Rightarrow> verr option" where
  "validate_JobListFilter all m = run_checks ''JobListFilter'' all []"

definition validate_TaskListFilter :: "bool \<Rightarrow> ListTasksFilter \<Rightarrow> verr option" where
  "validate_TaskListFilter all m = run_checks ''TaskListFilter'' all []"

definition validate_ListJobsRequest :: "bool \<Rightarrow> ListJobsRequest \<Rightarrow> verr option" where
  "validate_ListJobsRequest all m = run_checks ''ListJobsRequest'' all
     [embedded ''ListJobsRequest'' ''Filter'' validate_JobListFilter (ljreq_Filter m)]"

definition validate_ListTasksByJobRequest :: "bool \<Rightarrow> ListTasksByJobRequest \<Rightarrow> verr option" where
  "validate_ListTasksByJobRequest all m = run_checks ''ListTasksByJobRequest'' all
     [embedded ''ListTasksByJobRequest'' ''Filter'' validate_TaskListFilter (ltreq_Filter m)]"

definition validate_CreateJobRequest :: "bool \<Rightarrow> pb_CrawlJobConfig option \<Rightarrow> verr option" where
  "validate_CreateJobRequest all config = run_checks ''CreateJobRequest'' all
     [rule ''CreateJobRequest'' ''Config'' ''value is required'' (config \<noteq> None),
      embedded ''CreateJobRequest'' ''Config'' validate_CrawlJobConfig config]"

definition validate_DeleteJobRequest :: "bool \<Rightarrow> string \<Rightarrow> verr option" where
  "validate_DeleteJobRequest all i = run_checks ''DeleteJobRequest'' all [min_len ''DeleteJobRequest'' ''Id'' 1 i]"

definition validate_CreateTaskRequest :: "bool \<Rightarrow> string \<Rightarrow> string \<Rightarrow> verr option" where
  "validate_CreateTaskRequest all jobID url = run_checks ''CreateTaskRequest'' all
     [min_len ''CreateTaskRequest'' ''JobId'' 1 jobID, min_len ''CreateTaskRequest'' ''Url'' 1 url]"

definition validate_GetTaskAnalyticsRequest :: "bool \<Rightarrow> string \<Rightarrow> verr option" where
  "validate_GetTaskAnalyticsRequest all jobID =
     run_checks ''GetTaskAnalyticsRequest'' all [min_len ''GetTaskAnalyticsRequest'' ''JobId'' 1 jobID]"

definition validate_GetJobExportFileURLRequest :: "bool \<Rightarrow> string \<Rightarrow> string \<Rightarrow> verr option" where
  "validate_GetJobExportFileURLRequest all jobID fileType = run_checks ''GetJobExportFileURLRequest'' all
     [min_len ''GetJobExportFileURLRequest'' ''JobId'' 1 jobID,
      in_list ''GetJobExportFileURLRequest'' ''FileType'' [''json'', ''csv''] fileType]"

definition validate_GetTaskFileURLRequest :: "bool \<Rightarrow> string \<Rightarrow> string \<Rightarrow> verr option" where
  "validate_GetTaskFileURLRequest all taskID fileType = run_checks ''GetTaskFileURLRequest'' all
     [min_len ''GetTaskFileURLRequest'' ''TaskId'' 1 taskID,
      in_list ''GetTaskFileURLRequest'' ''FileType'' [''pages'', ''result''] fileType]"

definition validate_CreatePreviewRequest :: "bool \<Rightarrow> string \<Rightarrow> verr option" where
  "validate_CreatePreviewRequest all url = run_checks ''CreatePreviewRequest'' all [min_len ''CreatePreviewRequest'' ''Url'' 1 url]"

definition validate_RegisterRequest :: "mail_lib \<Rightarrow> bool \<Rightarrow> string \<Rightarrow> string \<Rightarrow> verr option" where
  "validate_RegisterRequest parseAddress all email password = run_checks ''RegisterRequest'' all
     [email_rule parseAddress ''RegisterRequest'' email, min_len ''RegisterRequest'' ''Password'' 8 password]"

definition validate_LoginRequest :: "mail_lib \<Rightarrow> bool \<Rightarrow> string \<Rightarrow> string \<Rightarrow> verr option" where
  "validate_LoginRequest parseAddress all email password = run_checks ''LoginRequest'' all
     [email_rule parseAddress ''LoginRequest'' email, min_len ''LoginRequest'' ''Password'' 1 password]"

definition validate_RefreshRequest :: "bool \<Rightarrow> string \<Rightarrow> verr option" where
  "validate_RefreshRequest all token = run_checks ''RefreshRequest'' all [min_len ''RefreshRequest'' ''RefreshToken'' 1 token]"

definition validate_LogoutRequest :: "bool \<Rightarrow> string \<Rightarrow> verr option" where
  "validate_LogoutRequest all token = run_checks ''LogoutRequest'' all [min_len ''LogoutRequest'' ''RefreshToken'' 1 token]"

fun validate_request :: "mail_lib \<Rightarrow> bool \<Rightarrow> request \<Rightarrow> verr option" where
  "validate_request lib all (ListJobsReq m) = validate_ListJobsRequest all m"
| "validate_request lib all (CreateJobReq config) = validate_CreateJobRequest all config"
| "validate_request lib all (GetJobReq i) = run_checks ''GetJobRequest'' all []"
| "validate_request lib all (DeleteJobReq i) = validate_DeleteJobRequest all i"
| "validate_request lib all (CreateTaskReq j u) = validate_CreateTaskRequest all j u"
| "validate_request lib all (GetTaskReq i) = run_checks ''GetTaskRequest'' all []"
| "validate_request lib all (ListTasksByJobReq m) = validate_ListTasksByJobRequest all m"
| "validate_request lib all (GetTaskAnalyticsReq j) = validate_GetTaskAnalyticsRequest all j"
| "validate_request lib all (GetJobExportFileURLReq j t) = validate_GetJobExportFileURLRequest all j t"
| "validate_request lib all (GetTaskFileURLReq i t) = validate_GetTaskFileURLRequest all i t"
| "validate_request lib all (CreatePreviewReq u) = validate_CreatePreviewRequest all u"
| "validate_request lib all (GetPreviewReq i) = run_checks ''GetPreviewRequest'' all []"
| "validate_request lib all (RegisterReq e p) = validate_RegisterRequest lib all e p"
| "validate_request lib all (LoginReq e p) = validate_LoginRequest lib all e p"
| "validate_request lib all (RefreshReq t) = validate_RefreshRequest all t"
| "validate_request lib all (LogoutReq t) = validate_LogoutRequest all t"
| "validate_request lib all ListUsersReq = run_checks ''ListUsersRequest'' all []"
| "validate_request lib all (UpdateUserRoleReq i r) = run_checks ''UpdateUserRoleRequest'' all []"
| "validate_request lib all ListWorkersReq = run_checks ''ListWorkersRequest'' all []"
| "validate_request lib all (DrainWorkerReq w r) = run_checks ''DrainWorkerRequest'' all []"
| "validate_request lib all (ForceKillWorkerReq w r) = run_checks ''ForceKillWorkerRequest'' all []"

text \<open>\<^verbatim>\<open>Validate\<close> and \<^verbatim>\<open>ValidateAll\<close>.\<close>

definition Validate_request :: "mail_lib \<Rightarrow> request \<Rightarrow> verr option" where
  "Validate_request lib = validate_request lib False"

definition ValidateAll_request :: "mail_lib \<Rightarrow> request \<Rightarrow> verr option" where
  "ValidateAll_request lib = validate_request lib True"

fun method_of :: "request \<Rightarrow> string" where
  "method_of (ListJobsReq m) = ''/crawler.v1.CrawlerService/ListJobs''"
| "method_of (CreateJobReq config) = ''/crawler.v1.CrawlerService/CreateJob''"
| "method_of (GetJobReq i) = ''/crawler.v1.CrawlerService/GetJob''"
| "method_of (DeleteJobReq i) = ''/crawler.v1.CrawlerService/DeleteJob''"
| "method_of (CreateTaskReq j u) = ''/crawler.v1.CrawlerService/CreateTask''"
| "method_of (GetTaskReq i) = ''/crawler.v1.CrawlerService/GetTask''"
| "method_of (ListTasksByJobReq m) = ''/crawler.v1.CrawlerService/ListTasksByJob''"
| "method_of (GetTaskAnalyticsReq j) = ''/crawler.v1.CrawlerService/GetTaskAnalytics''"
| "method_of (GetJobExportFileURLReq j t) = ''/crawler.v1.CrawlerService/GetJobExportFileURL''"
| "method_of (GetTaskFileURLReq i t) = ''/crawler.v1.CrawlerService/GetTaskFileURL''"
| "method_of (CreatePreviewReq u) = ''/crawler.v1.PreviewService/CreatePreview''"
| "method_of (GetPreviewReq i) = ''/crawler.v1.PreviewService/GetPreview''"
| "method_of (RegisterReq e p) = ''/crawler.v1.AuthService/Register''"
| "method_of (LoginReq e p) = ''/crawler.v1.AuthService/Login''"
| "method_of (RefreshReq t) = ''/crawler.v1.AuthService/Refresh''"
| "method_of (LogoutReq t) = ''/crawler.v1.AuthService/Logout''"
| "method_of ListUsersReq = ''/crawler.v1.UserService/ListUsers''"
| "method_of (UpdateUserRoleReq i r) = ''/crawler.v1.UserService/UpdateUserRole''"
| "method_of ListWorkersReq = ''/crawler.v1.WorkerService/ListWorkers''"
| "method_of (DrainWorkerReq w r) = ''/crawler.v1.WorkerService/DrainWorker''"
| "method_of (ForceKillWorkerReq w r) = ''/crawler.v1.WorkerService/ForceKillWorker''"

text \<open>
  A call through the chain.  The interceptor returns the violation as it is; an error that is not a
  status has the code \<^verbatim>\<open>Unknown\<close> for the client.
\<close>

definition grpc_call :: "mail_lib \<Rightarrow> (string \<Rightarrow> Claims res) \<Rightarrow> request \<Rightarrow> (rpc_ctx \<Rightarrow> 'a rpc) \<Rightarrow> rpc_ctx \<Rightarrow> 'a rpc" where
  "grpc_call lib verify req =
     grpc_chain (map_option (\<lambda>e. (Unknown, verr_text e)) (Validate_request lib req)) verify (method_of req)"

section \<open>Which requests are accepted\<close>

lemma run_checks_None: "run_checks msg all cs = None \<longleftrightarrow> (\<forall>c \<in> set cs. c all = None)"
proof -
  have "List.map_filter (\<lambda>c. c all) cs = [] \<longleftrightarrow> (\<forall>c \<in> set cs. c all = None)"
    by (induction cs) (auto simp: List.map_filter_simps split: option.split)
  then show ?thesis by (auto simp: run_checks_def split: list.split)
qed

lemma check_None:
  "rule msg field reason ok all = None \<longleftrightarrow> ok"
  "embedded msg field validate m all = None \<longleftrightarrow> (\<forall>x. m = Some x \<longrightarrow> validate all x = None)"
  "min_len msg field n v all = None \<longleftrightarrow> n \<le> RuneCount v"
  "in_list msg field vs v all = None \<longleftrightarrow> v \<in> set vs"
  "email_rule lib msg v all = None \<longleftrightarrow> validateEmail lib v = None"
  by (auto simp: rule_def embedded_def min_len_def in_list_def email_rule_def split: option.split)

lemma embedded_list_None:
  "(\<forall>c \<in> set (embedded_list msg field validate ms). c all = None) \<longleftrightarrow> (\<forall>x. Some x \<in> set ms \<longrightarrow> validate all x = None)"
proof -
  have "set (embedded_list msg field validate ms) =
      (\<lambda>i. embedded msg (field @ ''['' @ show_nat i @ '']'') validate (ms ! i)) ` {..<length ms}"
    unfolding embedded_list_def by (force simp: in_set_enumerate_eq)
  then show ?thesis by (auto simp: check_None in_set_conv_nth)
qed

lemmas no_rules [simp] = validate_AuthOptions_def validate_RateLimitPolicy_def validate_RetryPolicy_def validate_ScheduleOptions_def
  validate_ScopeRules_def validate_Seed_def validate_ExtractorSpec_def validate_TransformSpec_def validate_PaginationSpec_def
  validate_JobListFilter_def validate_TaskListFilter_def

text \<open>No configuration is refused: the rules of the proto file stop at its presence.\<close>

lemma configs_pass:
  "validate_FieldSpec all f = None"
  "validate_ItemsSpec all i = None"
  "validate_ExtractionSpec all x = None"
  "validate_CrawlJobConfig all c = None"
proof -
  show f: "validate_FieldSpec all f = None" for f
    by (simp add: validate_FieldSpec_def run_checks_None check_None embedded_list_None)
  show i: "validate_ItemsSpec all i = None" for i
    by (simp add: validate_ItemsSpec_def run_checks_None embedded_list_None f)
  show x: "validate_ExtractionSpec all x = None" for x
    by (simp add: validate_ExtractionSpec_def run_checks_None check_None embedded_list_None ball_Un f i)
  show "validate_CrawlJobConfig all c = None"
    by (simp add: validate_CrawlJobConfig_def run_checks_None check_None embedded_list_None ball_Un x)
qed

text \<open>What an address has to be.\<close>

definition label_ok :: "string \<Rightarrow> bool" where
  "label_ok l \<longleftrightarrow> l \<noteq> [] \<and> length l \<le> 63 \<and> hd l \<noteq> CHR ''-'' \<and> last l \<noteq> CHR ''-'' \<and> (\<forall>c \<in> set l. host_letter c)"

definition hostname_ok :: "string \<Rightarrow> bool" where
  "hostname_ok host \<longleftrightarrow> length host \<le> 253 \<and> (\<forall>l \<in> set (split_byte (CHR ''.'') (ToLower (TrimSuffix host ''.''))). label_ok l)"

definition email_ok :: "mail_lib \<Rightarrow> string \<Rightarrow> bool" where
  "email_ok lib s \<longleftrightarrow>
     (\<exists>local domain user host. lib s = Inr (local, domain) \<and> local @ ''@'' @ domain = user @ ''@'' @ host \<and> CHR ''@'' \<notin> set user \<and>
        length (user @ ''@'' @ host) \<le> 254 \<and> length user \<le> 64 \<and> hostname_ok host)"

lemma part_error_None: "part_error l = None \<longleftrightarrow> label_ok l"
  by (auto simp: part_error_def label_ok_def list_all_iff)

lemma map_filter_nil: "List.map_filter f xs = [] \<longleftrightarrow> (\<forall>x \<in> set xs. f x = None)"
  by (induction xs) (auto simp: List.map_filter_simps split: option.split)

lemma validateHostname_None: "validateHostname host = None \<longleftrightarrow> hostname_ok host"
proof -
  let ?ps = "split_byte (CHR ''.'') (ToLower (TrimSuffix host ''.''))"
  have "List.map_filter part_error ?ps = [] \<longleftrightarrow> (\<forall>l \<in> set ?ps. label_ok l)" by (simp only: map_filter_nil part_error_None)
  then show ?thesis unfolding validateHostname_def hostname_ok_def by (cases "List.map_filter part_error ?ps") auto
qed

lemma validateEmail_None: "validateEmail lib s = None \<longleftrightarrow> email_ok lib s"
proof (cases "lib s")
  case (Inr p)
  obtain l d where p: "p = (l, d)" by (cases p)
  let ?a = "l @ ''@'' @ d" and ?u = "takeWhile (\<lambda>c. c \<noteq> CHR ''@'') (l @ ''@'' @ d)" and ?h = "tl (dropWhile (\<lambda>c. c \<noteq> CHR ''@'') (l @ ''@'' @ d))"
  have ne: "dropWhile (\<lambda>c. c \<noteq> CHR ''@'') ?a \<noteq> []" by (simp add: dropWhile_eq_Nil_conv)
  then have "hd (dropWhile (\<lambda>c. c \<noteq> CHR ''@'') ?a) = CHR ''@''" using hd_dropWhile [OF ne] by simp
  then have split: "?a = ?u @ ''@'' @ ?h" using takeWhile_dropWhile_id [of "\<lambda>c. c \<noteq> CHR ''@''" ?a] ne
    by (metis append_Cons append_Nil list.exhaust_sel)
  have u: "CHR ''@'' \<notin> set ?u" using set_takeWhileD by fastforce
  have un: "user = ?u \<and> host = ?h" if "?a = user @ ''@'' @ host" "CHR ''@'' \<notin> set user" for user host
  proof -
    have "takeWhile (\<lambda>c. c \<noteq> CHR ''@'') (user @ ''@'' @ host) = user" "dropWhile (\<lambda>c. c \<noteq> CHR ''@'') (user @ ''@'' @ host) = ''@'' @ host"
      using that(2) by (auto simp: takeWhile_append dropWhile_append)
    then show ?thesis unfolding that(1) by simp
  qed
  have "email_ok lib s \<longleftrightarrow> length ?a \<le> 254 \<and> length ?u \<le> 64 \<and> hostname_ok ?h"
  proof
    assume "email_ok lib s"
    then obtain user host where e: "?a = user @ ''@'' @ host" "CHR ''@'' \<notin> set user" "length (user @ ''@'' @ host) \<le> 254"
      "length user \<le> 64" "hostname_ok host" using Inr p unfolding email_ok_def by auto
    from un [OF e(1,2)] have "user = ?u" "host = ?h" by blast+
    then show "length ?a \<le> 254 \<and> length ?u \<le> 64 \<and> hostname_ok ?h" using e(1,3-5) by presburger
  next
    assume "length ?a \<le> 254 \<and> length ?u \<le> 64 \<and> hostname_ok ?h"
    then show "email_ok lib s" unfolding email_ok_def using Inr p split u
      by (intro exI [of _ l] exI [of _ d] exI [of _ ?u] exI [of _ ?h]) presburger
  qed
  then show ?thesis using Inr p by (simp add: validateEmail_def Let_def validateHostname_None)
qed (simp add: validateEmail_def email_ok_def)

text \<open>What a request has to be.\<close>

fun request_ok :: "mail_lib \<Rightarrow> request \<Rightarrow> bool" where
  "request_ok lib (CreateJobReq config) \<longleftrightarrow> config \<noteq> None"
| "request_ok lib (DeleteJobReq i) \<longleftrightarrow> i \<noteq> []"
| "request_ok lib (CreateTaskReq j u) \<longleftrightarrow> j \<noteq> [] \<and> u \<noteq> []"
| "request_ok lib (GetTaskAnalyticsReq j) \<longleftrightarrow> j \<noteq> []"
| "request_ok lib (GetJobExportFileURLReq j t) \<longleftrightarrow> j \<noteq> [] \<and> (t = FileTypeExportJSON \<or> t = FileTypeExportCSV)"
| "request_ok lib (GetTaskFileURLReq i t) \<longleftrightarrow> i \<noteq> [] \<and> (t = FileTypePages \<or> t = FileTypeResult)"
| "request_ok lib (CreatePreviewReq u) \<longleftrightarrow> u \<noteq> []"
| "request_ok lib (RegisterReq e p) \<longleftrightarrow> email_ok lib e \<and> 8 \<le> RuneCount p"
| "request_ok lib (LoginReq e p) \<longleftrightarrow> email_ok lib e \<and> p \<noteq> []"
| "request_ok lib (RefreshReq t) \<longleftrightarrow> t \<noteq> []"
| "request_ok lib (LogoutReq t) \<longleftrightarrow> t \<noteq> []"
| "request_ok lib _ \<longleftrightarrow> True"

lemma rune_ge_1: "Suc 0 \<le> RuneCount s \<longleftrightarrow> s \<noteq> []"
  using RuneCount_pos [of s] by linarith

lemmas request_defs = validate_ListJobsRequest_def validate_ListTasksByJobRequest_def validate_CreateJobRequest_def
  validate_DeleteJobRequest_def validate_CreateTaskRequest_def validate_GetTaskAnalyticsRequest_def
  validate_GetJobExportFileURLRequest_def validate_GetTaskFileURLRequest_def validate_CreatePreviewRequest_def
  validate_RegisterRequest_def validate_LoginRequest_def validate_RefreshRequest_def validate_LogoutRequest_def

lemma validate_request_None: "validate_request lib all req = None \<longleftrightarrow> request_ok lib req"
  by (cases req) (auto simp: request_defs run_checks_None check_None rune_ge_1 configs_pass validateEmail_None status_defs)

text \<open>\<^verbatim>\<open>Validate\<close> answers the first of what \<^verbatim>\<open>ValidateAll\<close> answers.\<close>

lemma run_checks_first:
  assumes "\<forall>c \<in> set cs. c True = c False"
  shows "run_checks msg True cs = Some x \<longleftrightarrow> (\<exists>e es. run_checks msg False cs = Some e \<and> x = MultiError msg (e # es) \<and>
     e # es = List.map_filter (\<lambda>c. c False) cs)"
proof -
  have "List.map_filter (\<lambda>c. c True) cs = List.map_filter (\<lambda>c. c False) cs"
    using assms by (induction cs) (auto simp: List.map_filter_simps split: option.split)
  then show ?thesis by (auto simp: run_checks_def split: list.split)
qed

lemma checks_same:
  "rule msg field reason ok True = rule msg field reason ok False"
  "min_len msg field n v True = min_len msg field n v False"
  "in_list msg field vs v True = in_list msg field vs v False"
  "email_rule lib msg v True = email_rule lib msg v False"
  "(\<And>all x. validate all x = None) \<Longrightarrow> embedded msg field validate m True = embedded msg field validate m False"
  by (auto simp: rule_def min_len_def in_list_def email_rule_def embedded_def split: option.split)

lemma validate_all_first:
  "ValidateAll_request lib req = Some x \<Longrightarrow> \<exists>msg e es. Validate_request lib req = Some e \<and> x = MultiError msg (e # es)"
  unfolding ValidateAll_request_def Validate_request_def
  by (cases req)
    (auto simp: request_defs run_checks_first checks_same configs_pass run_checks_None check_None)

text \<open>What the handlers ask again is answered already.\<close>

lemma Register_long_enough:
  assumes "8 \<le> RuneCount password"
  shows "fst (Register sha env email password db) \<noteq> Inl ErrPasswordTooShort"
proof -
  have "\<not> length password < 8" using assms RuneCount_le [of password] by simp
  moreover have "fst (transaction fb fc body db) \<noteq> Inl ErrPasswordTooShort" for fb fc and body :: "auth_db \<Rightarrow> AuthTokens res \<times> auth_db"
    by (auto simp: transaction_def ErrPasswordTooShort_def split: option.split prod.split sum.split)
  ultimately show ?thesis
    by (auto simp: Register_def Let_def ErrPasswordTooShort_def ErrInvalidEmail_def ErrUserExists_def split: sum.split option.split)
qed

lemma file_types_known:
  "request_ok lib (GetJobExportFileURLReq j t) \<Longrightarrow> api_GetJobExportFileURL presign ok fail j t db \<noteq> Inl (StatusError InvalidArgument m)"
  "request_ok lib (GetTaskFileURLReq i t) \<Longrightarrow> api_GetTaskFileURL presign ok fail i t db \<noteq> Inl (StatusError InvalidArgument m)"
  by (auto simp: api_GetJobExportFileURL_def api_GetTaskFileURL_def presigned_def status_defs split: sum.split option.split)

text \<open>A call that is answered passed the rules, and was answered by the handler.\<close>

lemma call_passes: "grpc_call lib verify q f ctx = Inr y \<Longrightarrow> request_ok lib q"
  using validate_request_None [of lib False q]
  by (cases "Validate_request lib q") (auto simp: grpc_call_def grpc_chain_def ValidateInterceptor_def Validate_request_def)

lemma call_answers: "grpc_call lib verify q (\<lambda>_. Inr x) ctx = Inr y \<Longrightarrow> y = x"
  by (auto simp: grpc_call_def grpc_chain_def ValidateInterceptor_def JWTAuthInterceptor_def RBACInterceptor_def
      split: option.splits sum.splits if_splits)

text \<open>
  C18. Exactly the well-formed requests reach the interceptors of authentication and roles and, past them,
  a handler: a request with what its rules require is passed on, every other is answered with its
  first violation, and \<^verbatim>\<open>ValidateAll\<close> would report that one first.  An account is only made for an
  address that \<^verbatim>\<open>net/mail\<close> reads, with a local part of at most 64 bytes and a host of legal labels, and
  for a password of eight characters or more, so that the service never finds it too short; the
  handlers of the file links never meet an unknown type of file.
\<close>

theorem requests_validated:
  fixes h :: "rpc_ctx \<Rightarrow> 'a rpc"
  shows "(request_ok lib req \<longrightarrow> grpc_call lib verify req h ctx = grpc_chain None verify (method_of req) h ctx \<and> ValidateAll_request lib req = None) \<and>
     (\<not> request_ok lib req \<longrightarrow> (\<exists>msg e es. grpc_call lib verify req h ctx = Inl (Unknown, verr_text e) \<and>
        ValidateAll_request lib req = Some (MultiError msg (e # es)))) \<and>
     (grpc_call lib verify (RegisterReq email password) (\<lambda>_. Inr (Register sha env email password db)) ctx = Inr (r, db') \<longrightarrow>
        email_ok lib email \<and> 8 \<le> RuneCount password \<and> r \<noteq> Inl ErrPasswordTooShort) \<and>
     (\<forall>files. grpc_call lib verify (GetJobExportFileURLReq j t) (\<lambda>_. Inr (api_GetJobExportFileURL presign ok fail j t jdb)) ctx = Inr files \<longrightarrow>
        (\<forall>m. files \<noteq> Inl (StatusError InvalidArgument m)))"
proof (intro conjI impI allI)
  assume k: "request_ok lib req"
  then show "grpc_call lib verify req h ctx = grpc_chain None verify (method_of req) h ctx"
    by (simp add: grpc_call_def Validate_request_def validate_request_None [THEN iffD2])
  show "ValidateAll_request lib req = None" using k by (simp add: ValidateAll_request_def validate_request_None)
next
  assume "\<not> request_ok lib req"
  then obtain x where "ValidateAll_request lib req = Some x"
    unfolding ValidateAll_request_def using validate_request_None [of lib True req] by blast
  with validate_all_first [OF this] show "\<exists>msg e es. grpc_call lib verify req h ctx = Inl (Unknown, verr_text e) \<and>
      ValidateAll_request lib req = Some (MultiError msg (e # es))"
    by (auto simp: grpc_call_def grpc_chain_def ValidateInterceptor_def)
next
  assume g: "grpc_call lib verify (RegisterReq email password) (\<lambda>_. Inr (Register sha env email password db)) ctx = Inr (r, db')"
  show e: "email_ok lib email" "8 \<le> RuneCount password" using call_passes [OF g] by simp_all
  show "r \<noteq> Inl ErrPasswordTooShort" using Register_long_enough [OF e(2), of sha env email db] unfolding call_answers [OF g, symmetric] by simp
next
  fix files m
  assume g: "grpc_call lib verify (GetJobExportFileURLReq j t) (\<lambda>_. Inr (api_GetJobExportFileURL presign ok fail j t jdb)) ctx = Inr files"
  show "files \<noteq> Inl (StatusError InvalidArgument m)"
    unfolding call_answers [OF g] by (rule file_types_known(1) [OF call_passes [OF g]])
qed

definition sample_mail :: mail_lib where
  "sample_mail s = (case cut_byte (CHR ''@'') s of (l, None) \<Rightarrow> Inl (ErrText ''mail: missing '@' or angle-addr'') | (l, Some d) \<Rightarrow> Inr (l, d))"

lemma sample_requests:
  "request_ok sample_mail (RegisterReq ''ann@example.org'' ''password'')"
  "\<not> request_ok sample_mail (RegisterReq ''ann@-example.org'' ''password'')"
proof -
  have a: "validateEmail sample_mail ''ann@example.org'' = None" "validateEmail sample_mail ''ann@-example.org'' \<noteq> None" by code_simp+
  have "RuneCount ''password'' = 8" by (subst RuneCount_ascii) (simp_all add: of_char_def)
  then show "request_ok sample_mail (RegisterReq ''ann@example.org'' ''password'')" using a(1) by (simp add: validateEmail_None)
  show "\<not> request_ok sample_mail (RegisterReq ''ann@-example.org'' ''password'')" using a(2) by (simp add: validateEmail_None)
qed

theorem requests_validated_witness:
  "grpc_call sample_mail (\<lambda>_. Inl ErrInvalidToken) (RegisterReq ''ann@example.org'' ''password'') (\<lambda>_. Inr (Register id jwt_env ''ann@example.org'' ''password'' empty_auth))
      sample_ctx = Inr (Register id jwt_env ''ann@example.org'' ''password'' empty_auth) \<and>
   (\<exists>e. grpc_call sample_mail (\<lambda>_. Inl ErrInvalidToken) (RegisterReq ''ann@-example.org'' ''password'') Inr sample_ctx = Inl (Unknown, verr_text e))"
proof -
  have "grpc_call sample_mail (\<lambda>_. Inl ErrInvalidToken) (RegisterReq ''ann@example.org'' ''password'')
      (\<lambda>_. Inr (Register id jwt_env ''ann@example.org'' ''password'' empty_auth)) sample_ctx =
    grpc_chain None (\<lambda>_. Inl ErrInvalidToken) ''/crawler.v1.AuthService/Register''
      (\<lambda>_. Inr (Register id jwt_env ''ann@example.org'' ''password'' empty_auth)) sample_ctx"
    using requests_validated sample_requests(1) by (metis method_of.simps(13))
  moreover have "\<exists>e. grpc_call sample_mail (\<lambda>_. Inl ErrInvalidToken) (RegisterReq ''ann@-example.org'' ''password'') Inr sample_ctx = Inl (Unknown, verr_text e)"
    using requests_validated sample_requests(2) by metis
  ultimately show ?thesis
    by (simp add: grpc_chain_def ValidateInterceptor_def JWTAuthInterceptor_def RBACInterceptor_def isPublicEndpoint_def)
qed

text \<open>What the rules do not ask: a job without a name or without seeds passes them.\<close>

lemma any_config_passes: "request_ok lib (CreateJobReq (Some c))"
  by simp

text \<open>An error of the interceptor carries no status, so that a malformed request looks like a failure of the server.\<close>

lemma refused_without_status:
  "\<not> request_ok lib req \<Longrightarrow> \<exists>s. grpc_call lib verify req h ctx = Inl (Unknown, s)"
  using validate_request_None [of lib False req]
  by (cases "Validate_request lib req") (auto simp: grpc_call_def grpc_chain_def ValidateInterceptor_def Validate_request_def)

end
