(* ===== verification/Env_Config.thy ===== *)
theory Env_Config
  imports Sharding Queue_Routing Go_Strings
begin

text \<open>
  The configuration a process reads from its environment, \<^verbatim>\<open>config/env\<close>, and the queues the processes agree
  on: \<^verbatim>\<open>getQueueName\<close> and \<^verbatim>\<open>AvailableQueues\<close> of the API server, their counterparts in the workers and the queues
  a fetch worker consumes.  An environment is the function \<^verbatim>\<open>os.Getenv\<close>, with the empty string for a variable
  that is not set.  \<^verbatim>\<open>strconv.ParseFloat\<close> is an argument; the text of a number is ASCII without escapes.
\<close>

section \<open>Model\<close>

type_synonym getenv = "string \<Rightarrow> string"

subsection \<open>Reading variables\<close>

text \<open>\<^verbatim>\<open>strconv.Atoi\<close>, for a 64-bit \<^verbatim>\<open>int\<close>.\<close>

definition is_digit :: "char \<Rightarrow> bool" where
  "is_digit c \<longleftrightarrow> CHR ''0'' \<le> c \<and> c \<le> CHR ''9''"

definition digits_value :: "string \<Rightarrow> int" where
  "digits_value s = foldl (\<lambda>n c. 10 * n + int (of_char c - 48)) 0 s"

definition Atoi :: "string \<Rightarrow> int res" where
  "Atoi s =
     (let neg = (s \<noteq> [] \<and> hd s = CHR ''-'');
          ds = (if s \<noteq> [] \<and> (hd s = CHR ''-'' \<or> hd s = CHR ''+'') then tl s else s);
          v = (if neg then - digits_value ds else digits_value ds)
      in if ds = [] \<or> \<not> list_all is_digit ds
         then Inl (ErrText (''strconv.Atoi: parsing '' @ [CHR 0x22] @ s @ [CHR 0x22] @ '': invalid syntax''))
         else if v < - (2 ^ 63) \<or> 2 ^ 63 \<le> v
         then Inl (ErrText (''strconv.Atoi: parsing '' @ [CHR 0x22] @ s @ [CHR 0x22] @ '': value out of range''))
         else Inr v)"

definition ParseBool :: "string \<Rightarrow> bool option" where
  "ParseBool s =
     (if s \<in> set [''1'', ''t'', ''T'', ''TRUE'', ''true'', ''True''] then Some True
      else if s \<in> set [''0'', ''f'', ''F'', ''FALSE'', ''false'', ''False''] then Some False
      else None)"

definition getEnvString :: "getenv \<Rightarrow> string \<Rightarrow> string \<Rightarrow> string" where
  "getEnvString env key defaultValue = (if env key \<noteq> [] then env key else defaultValue)"

definition getEnvBool :: "getenv \<Rightarrow> string \<Rightarrow> bool \<Rightarrow> bool" where
  "getEnvBool env key defaultValue =
     (if env key \<noteq> [] then (case ParseBool (env key) of Some b \<Rightarrow> b | None \<Rightarrow> defaultValue) else defaultValue)"

definition getEnvFloat64 :: "(string \<Rightarrow> rat option) \<Rightarrow> getenv \<Rightarrow> string \<Rightarrow> rat \<Rightarrow> rat" where
  "getEnvFloat64 parse env key defaultValue =
     (if env key \<noteq> [] then (case parse (env key) of Some f \<Rightarrow> f | None \<Rightarrow> defaultValue) else defaultValue)"

definition getEnvInt :: "getenv \<Rightarrow> string \<Rightarrow> int \<Rightarrow> int" where
  "getEnvInt env key defaultValue =
     (if env key \<noteq> [] then (case Atoi (env key) of Inr i \<Rightarrow> i | Inl _ \<Rightarrow> defaultValue) else defaultValue)"

text \<open>A required variable.\<close>

definition required :: "getenv \<Rightarrow> string \<Rightarrow> string res" where
  "required env key = (if env key = [] then Inl (ErrText (key @ '' environment variable is required'')) else Inr (env key))"

text \<open>\<^verbatim>\<open>config.Load\<close>; \<open>dotenv\<close> is the loader of a file.\<close>

definition config_Load :: "getenv \<Rightarrow> (string \<Rightarrow> gerr option) \<Rightarrow> string \<Rightarrow> gerr option" where
  "config_Load env dotenv path = (if env ''CONFIG_SOURCE'' = ''env'' then None else dotenv path)"

definition splitTrimComma :: "string \<Rightarrow> string list" where
  "splitTrimComma s = filter (\<lambda>p. p \<noteq> []) (map TrimSpace (split_byte (CHR '','') s))"

subsection \<open>Messaging\<close>

definition CrawlQueueKey :: string where "CrawlQueueKey = ''crawl_queue''"
definition ParsingQueueKey :: string where "ParsingQueueKey = ''parsing_queue''"

definition BrokerRabbitMQ :: string where "BrokerRabbitMQ = ''rabbitmq''"
definition BrokerKafka :: string where "BrokerKafka = ''kafka''"
definition BrokerGRPCMemory :: string where "BrokerGRPCMemory = ''grpc_memory''"

definition GetBrokerType :: "getenv \<Rightarrow> string" where
  "GetBrokerType env =
     (let t = ToLower (env ''MESSAGING_BROKER'')
      in if t = BrokerKafka then BrokerKafka else if t = BrokerGRPCMemory then BrokerGRPCMemory else BrokerRabbitMQ)"

record queue_config =
  qc_names :: "string \<rightharpoonup> string"
  qc_all :: "string list"

record rabbitmqConfig = queue_config +
  rmq_url :: string

record kafkaConfig = queue_config +
  kfk_brokers :: "string list"
  kfk_consumerGroup :: string

definition all_queues :: "string \<Rightarrow> string \<Rightarrow> string list" where
  "all_queues namesRaw single =
     (let qs = (if namesRaw \<noteq> [] then splitTrimComma namesRaw else []) in if qs = [] then [single] else qs)"

definition NewRabbitMQConfig :: "getenv \<Rightarrow> rabbitmqConfig res" where
  "NewRabbitMQConfig env =
     bind_res (required env ''RABBITMQ_URL'') (\<lambda>url.
     bind_res (required env ''RABBITMQ_CRAWL_QUEUE_NAME'') (\<lambda>crawlQueue.
     bind_res (required env ''RABBITMQ_PARSING_QUEUE_NAME'') (\<lambda>parsingQueue.
       Inr \<lparr>qc_names = [CrawlQueueKey \<mapsto> crawlQueue, ParsingQueueKey \<mapsto> parsingQueue],
            qc_all = all_queues (env ''RABBITMQ_CRAWL_QUEUE_NAMES'') crawlQueue, rmq_url = url\<rparr>)))"

definition NewKafkaConfig :: "getenv \<Rightarrow> kafkaConfig res" where
  "NewKafkaConfig env =
     bind_res (required env ''KAFKA_BROKERS'') (\<lambda>brokersRaw.
     bind_res (required env ''KAFKA_CONSUMER_GROUP'') (\<lambda>consumerGroup.
     bind_res (required env ''KAFKA_CRAWL_TOPIC_NAME'') (\<lambda>crawlTopic.
     bind_res (required env ''KAFKA_PARSING_TOPIC_NAME'') (\<lambda>parsingTopic.
       Inr \<lparr>qc_names = [CrawlQueueKey \<mapsto> crawlTopic, ParsingQueueKey \<mapsto> parsingTopic],
            qc_all = all_queues (env ''KAFKA_CRAWL_TOPIC_NAMES'') crawlTopic,
            kfk_brokers = map TrimSpace (split_byte (CHR '','') brokersRaw), kfk_consumerGroup = consumerGroup\<rparr>))))"

text \<open>\<^verbatim>\<open>GetQueueName\<close> and \<^verbatim>\<open>GetTopicName\<close>: the key itself when it has no name.\<close>

definition GetQueueName :: "('a queue_config_scheme) \<Rightarrow> string \<Rightarrow> string" where
  "GetQueueName c key = (case qc_names c key of Some q \<Rightarrow> q | None \<Rightarrow> key)"

definition NewMemoryBrokerConfig :: "getenv \<Rightarrow> (string \<times> int) res" where
  "NewMemoryBrokerConfig env =
     bind_res (required env ''MEMORY_BROKER_ADDR'') (\<lambda>addr.
       let capStr = env ''MEMORY_BROKER_CAPACITY''
       in if capStr = [] then Inr (addr, 1000)
          else case Atoi capStr of
                 Inr n \<Rightarrow> if n \<le> 0 then Inl (ErrText (''invalid MEMORY_BROKER_CAPACITY value '' @ [CHR 0x22] @ capStr @ [CHR 0x22] @ '': must be a positive integer''))
                          else Inr (addr, n)
               | Inl _ \<Rightarrow> Inl (ErrText (''invalid MEMORY_BROKER_CAPACITY value '' @ [CHR 0x22] @ capStr @ [CHR 0x22] @ '': must be a positive integer'')))"

subsection \<open>Other components\<close>

record pgConfig =
  pgc_dsn :: string
  pgc_shardingEnabled :: bool
  pgc_shardDSNs :: "string list"

definition EqualFold :: "string \<Rightarrow> string \<Rightarrow> bool" where
  "EqualFold s t \<longleftrightarrow> ToLower s = ToLower t"

definition NewPGConfig :: "getenv \<Rightarrow> pgConfig res" where
  "NewPGConfig env =
     bind_res (required env ''PG_DSN'') (\<lambda>dsn.
       let enabled = EqualFold (env ''PG_SHARDING_ENABLED'') ''true'';
           raw = env ''PG_SHARD_DSNS'';
           shards = splitTrimComma raw
       in if \<not> enabled then Inr \<lparr>pgc_dsn = dsn, pgc_shardingEnabled = False, pgc_shardDSNs = []\<rparr>
          else if raw = [] then Inl (ErrText ''PG_SHARD_DSNS is required when sharding is enabled'')
          else if length shards < 2 then Inl (ErrText ''PG_SHARD_DSNS must contain at least 2 DSNs'')
          else Inr \<lparr>pgc_dsn = dsn, pgc_shardingEnabled = True, pgc_shardDSNs = shards\<rparr>)"

record minioConfig =
  mic_endpoint :: string
  mic_accessKeyID :: string
  mic_secretAccessKey :: string
  mic_useSSL :: bool
  mic_bucketName :: string
  mic_publicBaseURL :: string

definition NewMinIOConfig :: "getenv \<Rightarrow> minioConfig res" where
  "NewMinIOConfig env =
     bind_res (required env ''MINIO_ENDPOINT'') (\<lambda>endpoint.
     bind_res (required env ''MINIO_USER'') (\<lambda>accessKeyID.
     bind_res (required env ''MINIO_PWD'') (\<lambda>secretAccessKey.
     bind_res (if env ''MINIO_USE_SSL'' = [] then Inr False
               else case ParseBool (env ''MINIO_USE_SSL'') of
                      None \<Rightarrow> Inl (ErrText ''MINIO_USE_SSL must be a valid boolean (true/false)'') | Some b \<Rightarrow> Inr b) (\<lambda>useSSL.
     bind_res (required env ''MINIO_BUCKET_NAME'') (\<lambda>bucketName.
       Inr \<lparr>mic_endpoint = endpoint, mic_accessKeyID = accessKeyID, mic_secretAccessKey = secretAccessKey, mic_useSSL = useSSL,
            mic_bucketName = bucketName, mic_publicBaseURL = env ''MINIO_PUBLIC_BASE_URL''\<rparr>)))))"

record redisConfig =
  rdc_address :: string
  rdc_password :: string
  rdc_db :: int

definition NewRedisConfig :: "getenv \<Rightarrow> redisConfig res" where
  "NewRedisConfig env =
     bind_res (required env ''REDIS_ADDRESS'') (\<lambda>address.
     bind_res (required env ''REDIS_PWD'') (\<lambda>password.
     bind_res (if env ''REDIS_DB'' = [] then Inr 0 else wrap_err ''invalid REDIS_DB value'' (Atoi (env ''REDIS_DB''))) (\<lambda>db.
       Inr \<lparr>rdc_address = address, rdc_password = password, rdc_db = db\<rparr>)))"

record authConfig =
  auc_jwtSecret :: string
  auc_accessTokenTTL :: string
  auc_refreshTokenTTL :: string
  auc_issuer :: string
  auc_audience :: string
  auc_defaultEmail :: string
  auc_defaultPassword :: string

definition NewAuthConfig :: "getenv \<Rightarrow> authConfig res" where
  "NewAuthConfig env =
     bind_res (required env ''JWT_SECRET'') (\<lambda>jwtSecret.
     bind_res (required env ''DEFAULT_USER_EMAIL'') (\<lambda>defaultEmail.
     bind_res (required env ''DEFAULT_USER_PWD'') (\<lambda>defaultPassword.
       Inr \<lparr>auc_jwtSecret = jwtSecret, auc_accessTokenTTL = getEnvString env ''ACCESS_TOKEN_TTL'' ''15m'',
            auc_refreshTokenTTL = getEnvString env ''REFRESH_TOKEN_TTL'' ''720h'',
            auc_issuer = getEnvString env ''JWT_ISSUER'' ''distributed-crawler'', auc_audience = getEnvString env ''JWT_AUDIENCE'' ''api'',
            auc_defaultEmail = defaultEmail, auc_defaultPassword = defaultPassword\<rparr>)))"

definition JoinHostPort :: "string \<Rightarrow> string \<Rightarrow> string" where
  "JoinHostPort host port = (if CHR '':'' \<in> set host then ''['' @ host @ '']:'' @ port else host @ '':'' @ port)"

text \<open>The addresses of \<^verbatim>\<open>http.go\<close> and \<^verbatim>\<open>grpc.go\<close>.\<close>

definition NewHTTPConfig :: "getenv \<Rightarrow> string res" where
  "NewHTTPConfig env =
     bind_res (required env ''HTTP_HOST'') (\<lambda>host. bind_res (required env ''HTTP_PORT'') (\<lambda>port. Inr (JoinHostPort host port)))"

definition NewGrpcConfig :: "getenv \<Rightarrow> string res" where
  "NewGrpcConfig env =
     bind_res (required env ''GRPC_HOST'') (\<lambda>host. bind_res (required env ''GRPC_PORT'') (\<lambda>port. Inr (JoinHostPort host port)))"

definition NewCORSConfig :: "getenv \<Rightarrow> string list" where
  "NewCORSConfig env = map TrimSpace (split_byte (CHR '','') (getEnvString env ''HTTP_CORS_ALLOWED_ORIGINS'' ''http://localhost:4200''))"

definition NewLoggerConfig :: "getenv \<Rightarrow> (string \<times> string) res" where
  "NewLoggerConfig env =
     (let e = getEnvString env ''LOG_ENV'' ''development''
      in if e \<noteq> ''production'' \<and> e \<noteq> ''development'' then Inl (ErrText (''LOG_ENV must be 'production' or 'development'' @ [CHR 0x27]))
         else Inr (getEnvString env ''LOG_LEVEL'' ''info'', e))"

record otelConfig =
  otc_enabled :: bool
  otc_serviceName :: string
  otc_serviceVersion :: string
  otc_environment :: string
  otc_otlpEndpoint :: string
  otc_otlpInsecure :: bool
  otc_traceSampleRate :: rat
  otc_metricsIntervalSeconds :: int

definition NewOTelConfig :: "(string \<Rightarrow> rat option) \<Rightarrow> getenv \<Rightarrow> otelConfig" where
  "NewOTelConfig parse env =
     \<lparr>otc_enabled = getEnvBool env ''OTEL_ENABLED'' False, otc_serviceName = getEnvString env ''OTEL_SERVICE_NAME'' ''distributed-crawler'',
      otc_serviceVersion = getEnvString env ''OTEL_SERVICE_VERSION'' ''1.0.0'', otc_environment = getEnvString env ''OTEL_ENVIRONMENT'' ''development'',
      otc_otlpEndpoint = getEnvString env ''OTEL_EXPORTER_OTLP_ENDPOINT'' ''localhost:4317'',
      otc_otlpInsecure = getEnvBool env ''OTEL_EXPORTER_OTLP_INSECURE'' True,
      otc_traceSampleRate = getEnvFloat64 parse env ''OTEL_TRACE_SAMPLE_RATE'' 1,
      otc_metricsIntervalSeconds = getEnvInt env ''OTEL_METRICS_INTERVAL_SECONDS'' 15\<rparr>"

definition WithServiceName :: "otelConfig \<Rightarrow> string \<Rightarrow> otelConfig" where
  "WithServiceName base name = base\<lparr>otc_serviceName := name\<rparr>"

record opensearchConfig =
  osc_enabled :: bool
  osc_endpoint :: string
  osc_index :: string
  osc_flushInterval :: int
  osc_batchSize :: int

definition NewOpenSearchConfig :: "getenv \<Rightarrow> opensearchConfig" where
  "NewOpenSearchConfig env =
     \<lparr>osc_enabled = getEnvBool env ''OPENSEARCH_ENABLED'' False, osc_endpoint = getEnvString env ''OPENSEARCH_ENDPOINT'' ''http://localhost:9200'',
      osc_index = getEnvString env ''OPENSEARCH_INDEX'' ''app-logs'', osc_flushInterval = getEnvInt env ''OPENSEARCH_FLUSH_INTERVAL_SECONDS'' 5,
      osc_batchSize = getEnvInt env ''OPENSEARCH_BATCH_SIZE'' 100\<rparr>"

definition GetFetcherType :: "getenv \<Rightarrow> string" where
  "GetFetcherType env =
     (let t = ToLower (TrimSpace (env ''FETCHER_TYPE''))
      in if t = ''browser'' then ''browser'' else if t = ''selenium'' then ''selenium'' else ''http'')"

definition GetChromeRemoteURL :: "getenv \<Rightarrow> string" where
  "GetChromeRemoteURL env = TrimSpace (env ''CHROME_REMOTE_URL'')"

definition GetSeleniumRemoteURL :: "getenv \<Rightarrow> string" where
  "GetSeleniumRemoteURL env = TrimSpace (env ''SELENIUM_REMOTE_URL'')"

definition GetLimiterType :: "getenv \<Rightarrow> string" where
  "GetLimiterType env =
     (let t = ToLower (TrimSpace (env ''LIMITER_TYPE''))
      in if t \<in> set [''inmemory'', ''in-memory'', ''in_memory'', ''memory''] then ''inmemory'' else ''redis'')"

subsection \<open>The queues the processes agree on\<close>

text \<open>
  \<^verbatim>\<open>serviceProvider.getQueueName\<close> and \<^verbatim>\<open>AvailableQueues\<close>.  A configuration that cannot be read ends the
  process (\<^verbatim>\<open>log.Fatalf\<close>), here the error.
\<close>

definition provider_getQueueName :: "getenv \<Rightarrow> string \<Rightarrow> string res" where
  "provider_getQueueName env key =
     (if GetBrokerType env = BrokerKafka then bind_res (NewKafkaConfig env) (\<lambda>c. Inr (GetQueueName c key))
      else if GetBrokerType env = BrokerGRPCMemory then Inr key
      else bind_res (NewRabbitMQConfig env) (\<lambda>c. Inr (GetQueueName c key)))"

definition AvailableQueues :: "getenv \<Rightarrow> string list res" where
  "AvailableQueues env =
     (if GetBrokerType env = BrokerKafka then bind_res (NewKafkaConfig env) (\<lambda>c. Inr (qc_all c))
      else if GetBrokerType env = BrokerGRPCMemory then Inr [CrawlQueueKey]
      else bind_res (NewRabbitMQConfig env) (\<lambda>c. Inr (qc_all c)))"

text \<open>
  The messaging fields of \<^verbatim>\<open>WorkerApp\<close> and \<^verbatim>\<open>initMessaging\<close>; \<open>dial\<close> is the connection to the broker at its
  addresses, which may fail.
\<close>

record worker_messaging =
  wm_brokerType :: string
  wm_kafkaConfig :: "kafkaConfig option"
  wm_rmqConfig :: "rabbitmqConfig option"

definition dialled :: "(string list \<Rightarrow> gerr option) \<Rightarrow> string list \<Rightarrow> worker_messaging \<Rightarrow> worker_messaging res" where
  "dialled dial addrs a = (case dial addrs of Some e \<Rightarrow> Inl e | None \<Rightarrow> Inr a)"

definition initMessaging :: "(string list \<Rightarrow> gerr option) \<Rightarrow> getenv \<Rightarrow> worker_messaging res" where
  "initMessaging dial env =
     (let a = \<lparr>wm_brokerType = GetBrokerType env, wm_kafkaConfig = None, wm_rmqConfig = None\<rparr>
      in if wm_brokerType a = BrokerKafka
         then bind_res (NewKafkaConfig env) (\<lambda>c. dialled dial (kfk_brokers c) (a\<lparr>wm_kafkaConfig := Some c\<rparr>))
         else if wm_brokerType a = BrokerGRPCMemory
         then bind_res (NewMemoryBrokerConfig env) (\<lambda>(addr, _). dialled dial [addr] a)
         else bind_res (NewRabbitMQConfig env) (\<lambda>c. dialled dial [rmq_url c] (a\<lparr>wm_rmqConfig := Some c\<rparr>)))"

definition worker_getQueueName :: "worker_messaging \<Rightarrow> string \<Rightarrow> string" where
  "worker_getQueueName a key =
     (case (wm_brokerType a = BrokerKafka, wm_kafkaConfig a) of
        (True, Some c) \<Rightarrow> GetQueueName c key
      | _ \<Rightarrow> (case wm_rmqConfig a of Some c \<Rightarrow> GetQueueName c key | None \<Rightarrow> key))"

definition getAllCrawlQueueNames :: "worker_messaging \<Rightarrow> string list" where
  "getAllCrawlQueueNames a =
     (case (wm_brokerType a = BrokerKafka, wm_kafkaConfig a) of
        (True, Some c) \<Rightarrow> qc_all c
      | _ \<Rightarrow> (case wm_rmqConfig a of Some c \<Rightarrow> qc_all c | None \<Rightarrow> [worker_getQueueName a CrawlQueueKey]))"

text \<open>The queues a fetch worker started with \<^verbatim>\<open>WORKER_REGION\<close> set to \<open>region\<close> consumes.\<close>

definition crawlQueues :: "worker_messaging \<Rightarrow> string \<Rightarrow> string list" where
  "crawlQueues a region =
     (let defaultCrawlQueue = worker_getQueueName a CrawlQueueKey
      in [defaultCrawlQueue] @ (if region \<noteq> [] then [defaultCrawlQueue @ ''_'' @ region] else []))"

section \<open>Properties\<close>

lemma GetBrokerType_cases:
  "GetBrokerType env = BrokerKafka \<or> GetBrokerType env = BrokerGRPCMemory \<or> GetBrokerType env = BrokerRabbitMQ"
  by (simp add: GetBrokerType_def Let_def)

lemma all_queues_nonempty [simp]: "all_queues raw single \<noteq> []"
  by (simp add: all_queues_def Let_def)

lemma splitTrimComma_nonblank: "q \<in> set (splitTrimComma s) \<Longrightarrow> q \<noteq> []"
  by (simp add: splitTrimComma_def)

text \<open>The queue names a configuration returns are not empty and its list of crawl queues has one.\<close>

lemma rabbitmq_names:
  assumes "NewRabbitMQConfig env = Inr c"
  shows "GetQueueName c CrawlQueueKey = env ''RABBITMQ_CRAWL_QUEUE_NAME''" "env ''RABBITMQ_CRAWL_QUEUE_NAME'' \<noteq> []" "qc_all c \<noteq> []"
  using assms by (auto simp: NewRabbitMQConfig_def required_def bind_res_def GetQueueName_def CrawlQueueKey_def ParsingQueueKey_def
      split: sum.splits if_splits)

lemma kafka_names:
  assumes "NewKafkaConfig env = Inr c"
  shows "GetQueueName c CrawlQueueKey = env ''KAFKA_CRAWL_TOPIC_NAME''" "env ''KAFKA_CRAWL_TOPIC_NAME'' \<noteq> []" "qc_all c \<noteq> []"
  using assms by (auto simp: NewKafkaConfig_def required_def bind_res_def GetQueueName_def CrawlQueueKey_def ParsingQueueKey_def
      split: sum.splits if_splits)

lemma dialled_Inr: "dialled dial addrs a = Inr w \<longleftrightarrow> dial addrs = None \<and> w = a"
  by (auto simp: dialled_def split: option.splits)

text \<open>A worker that started has the configuration of its broker.\<close>

lemma initMessaging_cases:
  assumes "initMessaging dial env = Inr w"
  obtains (kafka) c where "GetBrokerType env = BrokerKafka" "NewKafkaConfig env = Inr c"
        "w = \<lparr>wm_brokerType = BrokerKafka, wm_kafkaConfig = Some c, wm_rmqConfig = None\<rparr>"
  | (memory) "GetBrokerType env = BrokerGRPCMemory"
        "w = \<lparr>wm_brokerType = BrokerGRPCMemory, wm_kafkaConfig = None, wm_rmqConfig = None\<rparr>"
  | (rabbitmq) c where "GetBrokerType env = BrokerRabbitMQ" "NewRabbitMQConfig env = Inr c"
        "w = \<lparr>wm_brokerType = BrokerRabbitMQ, wm_kafkaConfig = None, wm_rmqConfig = Some c\<rparr>"
  using assms GetBrokerType_cases [of env]
  by (auto simp: initMessaging_def Let_def bind_res_Inr_iff dialled_Inr split: if_splits)

lemmas queue_wiring = provider_getQueueName_def AvailableQueues_def worker_getQueueName_def getAllCrawlQueueNames_def
  BrokerKafka_def BrokerRabbitMQ_def BrokerGRPCMemory_def

lemma same_queues:
  assumes "initMessaging dial env = Inr w"
  shows "provider_getQueueName env key = Inr (worker_getQueueName w key)"
    and "AvailableQueues env = Inr (getAllCrawlQueueNames w)"
    and "getAllCrawlQueueNames w \<noteq> []"
  using assms
  by (cases rule: initMessaging_cases;
      simp add: queue_wiring kafka_names rabbitmq_names)+

text \<open>Without weights the routed queues are the available ones, each for some value of the random source.\<close>

lemma routed_queues:
  assumes "qs \<noteq> []"
  shows "(\<exists>rnd. (\<forall>n>0. rnd n < n) \<and> SelectCrawlQueue rnd qs [] = Returns q) \<longleftrightarrow> q \<in> set qs"
proof
  assume "\<exists>rnd. (\<forall>n>0. rnd n < n) \<and> SelectCrawlQueue rnd qs [] = Returns q"
  then show "q \<in> set qs" using assms by (auto simp: SelectCrawlQueue_fallback split: if_splits)
next
  assume "q \<in> set qs"
  then obtain i where i: "i < length qs" "qs ! i = q" by (auto simp: in_set_conv_nth)
  let ?rnd = "\<lambda>n. if n = length qs then i else (0 :: nat)"
  have "\<forall>n>0. ?rnd n < n" using i(1) by simp
  moreover from this have "SelectCrawlQueue ?rnd qs [] = Returns q"
    using assms i by (auto simp: SelectCrawlQueue_fallback)
  ultimately show "\<exists>rnd. (\<forall>n>0. rnd n < n) \<and> SelectCrawlQueue rnd qs [] = Returns q"
    by (intro exI [of _ ?rnd] conjI)
qed

text \<open>Sharding is enabled with at least two data sources, none of them blank.\<close>

lemma pg_config_shards:
  assumes "NewPGConfig env = Inr c"
  shows "pgc_dsn c \<noteq> []"
    and "if pgc_shardingEnabled c then 2 \<le> length (pgc_shardDSNs c) \<and> [] \<notin> set (pgc_shardDSNs c) else pgc_shardDSNs c = []"
  using assms by (auto simp: NewPGConfig_def required_def Let_def bind_res_Inr_iff splitTrimComma_def split: if_splits)

lemma Atoi_bounds: "Atoi s = Inr n \<Longrightarrow> - (2 ^ 63) \<le> n \<and> n < 2 ^ 63"
  by (auto simp: Atoi_def Let_def split: if_splits)

lemma memory_broker_capacity: "NewMemoryBrokerConfig env = Inr (addr, n) \<Longrightarrow> 0 < n \<and> n < 2 ^ 63"
  by (auto simp: NewMemoryBrokerConfig_def Let_def bind_res_Inr_iff split: if_splits sum.splits dest: Atoi_bounds)

text \<open>
  C23. The queues of the API server have consumers.  For the environment a fetch worker started with, the API
  server publishes under the same queue names as the worker consumes and routes over the same list of crawl
  queues, which is not empty; every fetch worker consumes the default crawl queue.  A job without weights has
  all its crawl queues consumed exactly when each of the listed queues is the default one or the default one
  with the suffix \<^verbatim>\<open>_<region>\<close> of a running worker: a name of \<^verbatim>\<open>RABBITMQ_CRAWL_QUEUE_NAMES\<close> of any other form
  gets tasks and has no consumer.
\<close>

theorem queues_have_consumers:
  assumes "initMessaging dial env = Inr w" and "regions \<noteq> []"
  shows "provider_getQueueName env key = Inr (worker_getQueueName w key) \<and>
         AvailableQueues env = Inr (getAllCrawlQueueNames w) \<and> getAllCrawlQueueNames w \<noteq> [] \<and>
         (\<forall>r. worker_getQueueName w CrawlQueueKey \<in> set (crawlQueues w r)) \<and>
         ((\<forall>rnd q. (\<forall>n>0. rnd n < n) \<and> SelectCrawlQueue rnd (getAllCrawlQueueNames w) [] = Returns q \<longrightarrow>
             (\<exists>r \<in> set regions. q \<in> set (crawlQueues w r))) \<longleftrightarrow>
          (\<forall>q \<in> set (getAllCrawlQueueNames w). q = worker_getQueueName w CrawlQueueKey \<or>
             (\<exists>r \<in> set regions. r \<noteq> [] \<and> q = worker_getQueueName w CrawlQueueKey @ ''_'' @ r)))"
proof -
  have consumed: "(\<exists>r \<in> set regions. q \<in> set (crawlQueues w r)) \<longleftrightarrow>
      q = worker_getQueueName w CrawlQueueKey \<or>
      (\<exists>r \<in> set regions. r \<noteq> [] \<and> q = worker_getQueueName w CrawlQueueKey @ ''_'' @ r)" for q
    using assms(2) by (cases regions) (auto simp: crawlQueues_def Let_def)
  have default: "worker_getQueueName w CrawlQueueKey \<in> set (crawlQueues w r)" for r
    by (simp add: crawlQueues_def Let_def)
  show ?thesis
    using same_queues [OF assms(1)] routed_queues [OF same_queues(3) [OF assms(1)]] default
    unfolding consumed by blast
qed

text \<open>
  Two regions are listed and one fetch worker runs, in \<open>eu\<close>: the tasks routed to \<^verbatim>\<open>crawl_us\<close> are not
  consumed.
\<close>

definition two_regions :: getenv where
  "two_regions k =
     (if k = ''RABBITMQ_URL'' then ''amqp://mq''
      else if k = ''RABBITMQ_CRAWL_QUEUE_NAME'' then ''crawl''
      else if k = ''RABBITMQ_CRAWL_QUEUE_NAMES'' then ''crawl_eu, crawl_us''
      else if k = ''RABBITMQ_PARSING_QUEUE_NAME'' then ''parse''
      else [])"

lemma two_regions_started:
  "initMessaging (\<lambda>_. None) two_regions = Inr (projr (initMessaging (\<lambda>_. None) two_regions))"
  "getAllCrawlQueueNames (projr (initMessaging (\<lambda>_. None) two_regions)) = [''crawl_eu'', ''crawl_us'']"
  "worker_getQueueName (projr (initMessaging (\<lambda>_. None) two_regions)) CrawlQueueKey = ''crawl''"
proof -
  have "isl (initMessaging (\<lambda>_. None) two_regions) = False" by code_simp
  then show "initMessaging (\<lambda>_. None) two_regions = Inr (projr (initMessaging (\<lambda>_. None) two_regions))"
    by (cases "initMessaging (\<lambda>_. None) two_regions") simp_all
qed code_simp+

theorem queues_have_consumers_witness:
  "initMessaging (\<lambda>_. None) two_regions = Inr (projr (initMessaging (\<lambda>_. None) two_regions)) \<and>
   AvailableQueues two_regions = Inr [''crawl_eu'', ''crawl_us''] \<and>
   \<not> (\<forall>rnd q. (\<forall>n>0. rnd n < n) \<and> SelectCrawlQueue rnd [''crawl_eu'', ''crawl_us''] [] = Returns q \<longrightarrow>
        (\<exists>r \<in> set [''eu'']. q \<in> set (crawlQueues (projr (initMessaging (\<lambda>_. None) two_regions)) r)))"
  using queues_have_consumers [OF two_regions_started(1), of "[''eu'']"]
  unfolding two_regions_started(2,3) using two_regions_started(1) by simp

end
