(* ===== verification/Observability.thy ===== *)
theory Observability
  imports Env_Config "HOL-Library.Multiset" "HOL-Library.AList"
begin

text \<open>
  Logging and telemetry: the batching log core of \<^verbatim>\<open>infra/logger/opensearch_core.go\<close> with the arrays its slices
  share, the global logger of \<^verbatim>\<open>zap_loggger.go\<close>, the trace sampler, the shutdown order, the instruments and
  the trace context of \<^verbatim>\<open>telemetry\<close>, and the log interceptor.  The zap field encoder, the JSON encoder, the
  HTTP server of OpenSearch and the OpenTelemetry SDK are arguments.
\<close>

section \<open>Model\<close>

subsection \<open>The buffered log core\<close>

text \<open>
  A document is a map from names to values.  The buffer of a core is a slice: an array, a length and a
  capacity; cores and channels are addresses.
\<close>

type_synonym 'v doc = "string \<rightharpoonup> 'v"

record 'f opensearchCore =
  oc_level :: int
  oc_endpoint :: string
  oc_index :: string
  oc_array :: nat
  oc_len :: nat
  oc_cap :: nat
  oc_batchSize :: int
  oc_flushInterval :: int
  oc_stopCh :: nat
  oc_fields :: "'f list"

text \<open>
  The memory: the arrays, the next free address of an array, of a core and of a channel, the cores, the closed
  channels, the slices taken from a buffer and not yet sent, and the batches sent, in order.
\<close>

record ('v, 'f) log_world =
  lw_arrays :: "nat \<Rightarrow> nat \<Rightarrow> 'v doc"
  lw_nextArray :: nat
  lw_cores :: "'f opensearchCore list"
  lw_nextCh :: nat
  lw_closed :: "nat set"
  lw_taken :: "(nat \<times> nat) list"
  lw_sent :: "'v doc list list"

definition slice_docs :: "('v, 'f) log_world \<Rightarrow> nat \<Rightarrow> nat \<Rightarrow> 'v doc list" where
  "slice_docs w a n = map (lw_arrays w a) [0..<n]"

text \<open>\<^verbatim>\<open>time.Duration(sec) * time.Second\<close>, in 64 bits; \<^verbatim>\<open>time.NewTicker\<close> panics unless it is positive.\<close>

definition flush_interval :: "int \<Rightarrow> int" where
  "flush_interval sec = sint (word_of_int (sec * 1000000000) :: 64 word)"

text \<open>
  \<^verbatim>\<open>NewOpenSearchCore\<close> with the goroutine it starts: \<^verbatim>\<open>make\<close> panics for a capacity that is negative or
  above the limit of the runtime, the flusher for an interval that is not positive.
\<close>

definition NewOpenSearchCore ::
  "int \<Rightarrow> int \<Rightarrow> string \<Rightarrow> string \<Rightarrow> int \<Rightarrow> int \<Rightarrow> ('v, 'f) log_world \<Rightarrow> (nat \<times> ('v, 'f) log_world) outcome" where
  "NewOpenSearchCore maxCap level endpoint index batchSize flushIntervalSec w =
     (if batchSize < 0 \<or> maxCap < batchSize \<or> flush_interval flushIntervalSec \<le> 0 then Panics
      else Returns (length (lw_cores w),
        w\<lparr>lw_nextArray := lw_nextArray w + 1, lw_nextCh := lw_nextCh w + 1,
          lw_cores := lw_cores w @ [\<lparr>oc_level = level, oc_endpoint = endpoint, oc_index = index, oc_array = lw_nextArray w,
            oc_len = 0, oc_cap = nat batchSize, oc_batchSize = batchSize, oc_flushInterval = flush_interval flushIntervalSec,
            oc_stopCh = lw_nextCh w, oc_fields = []\<rparr>]\<rparr>))"

text \<open>\<^verbatim>\<open>With\<close>: a copy with its own mutex and its own fields, and the slice of the original.\<close>

definition core_With :: "nat \<Rightarrow> 'f list \<Rightarrow> ('v, 'f) log_world \<Rightarrow> nat \<times> ('v, 'f) log_world" where
  "core_With c fs w =
     (length (lw_cores w),
      w\<lparr>lw_cores := lw_cores w @ [(lw_cores w ! c)\<lparr>oc_fields := oc_fields (lw_cores w ! c) @ fs\<rparr>]\<rparr>)"

text \<open>The document of an entry; \<open>addTo\<close> is the encoder of a field.\<close>

record 'v entry =
  en_level :: int
  en_time :: 'v
  en_levelName :: 'v
  en_message :: 'v
  en_logger :: 'v
  en_caller :: "'v option"
  en_stack :: "'v option"

definition entry_doc :: "('f \<Rightarrow> 'v doc \<Rightarrow> 'v doc) \<Rightarrow> 'f list \<Rightarrow> 'v entry \<Rightarrow> 'f list \<Rightarrow> 'v doc" where
  "entry_doc addTo coreFields e fs =
     (let doc = [''@timestamp'' \<mapsto> en_time e, ''level'' \<mapsto> en_levelName e, ''message'' \<mapsto> en_message e, ''logger'' \<mapsto> en_logger e];
          doc = (case en_caller e of Some c \<Rightarrow> doc(''caller'' \<mapsto> c) | None \<Rightarrow> doc);
          doc = (case en_stack e of Some s \<Rightarrow> doc(''stacktrace'' \<mapsto> s) | None \<Rightarrow> doc)
      in doc ++ fold addTo (coreFields @ fs) Map.empty)"

text \<open>
  The locked part of \<^verbatim>\<open>Write\<close>: \<^verbatim>\<open>append\<close>, in place while there is capacity, in a larger array of \<open>grow\<close>
  elements otherwise, and the decision to flush.
\<close>

definition append_buf :: "(nat \<Rightarrow> nat) \<Rightarrow> nat \<Rightarrow> 'v doc \<Rightarrow> ('v, 'f) log_world \<Rightarrow> ('v, 'f) log_world" where
  "append_buf grow c doc w =
     (let k = lw_cores w ! c
      in if oc_len k < oc_cap k
         then w\<lparr>lw_arrays := (lw_arrays w)(oc_array k := (lw_arrays w (oc_array k))(oc_len k := doc)),
                lw_cores := (lw_cores w)[c := k\<lparr>oc_len := oc_len k + 1\<rparr>]\<rparr>
         else w\<lparr>lw_arrays := (lw_arrays w)(lw_nextArray w := (\<lambda>i. if i < oc_len k then lw_arrays w (oc_array k) i else if i = oc_len k then doc else Map.empty)),
                lw_nextArray := lw_nextArray w + 1,
                lw_cores := (lw_cores w)[c := k\<lparr>oc_array := lw_nextArray w, oc_len := oc_len k + 1, oc_cap := grow (oc_cap k)\<rparr>]\<rparr>)"

definition shouldFlush :: "nat \<Rightarrow> ('v, 'f) log_world \<Rightarrow> bool" where
  "shouldFlush c w \<longleftrightarrow> oc_batchSize (lw_cores w ! c) \<le> int (oc_len (lw_cores w ! c))"

text \<open>The locked part of \<^verbatim>\<open>flush\<close>: the slice is taken and a new one is made.\<close>

definition take_buf :: "nat \<Rightarrow> ('v, 'f) log_world \<Rightarrow> ('v, 'f) log_world" where
  "take_buf c w =
     (let k = lw_cores w ! c
      in if oc_len k = 0 then w
         else w\<lparr>lw_taken := lw_taken w @ [(oc_array k, oc_len k)],
                lw_arrays := (lw_arrays w)(lw_nextArray w := (\<lambda>_. Map.empty)), lw_nextArray := lw_nextArray w + 1,
                lw_cores := (lw_cores w)[c := k\<lparr>oc_array := lw_nextArray w, oc_len := 0, oc_cap := nat (oc_batchSize k)\<rparr>]\<rparr>)"

text \<open>\<^verbatim>\<open>sendBulk\<close> of a taken slice: a failed request is printed and its documents are gone, so sent once.\<close>

definition send_taken :: "nat \<Rightarrow> ('v, 'f) log_world \<Rightarrow> ('v, 'f) log_world" where
  "send_taken i w =
     (if i < length (lw_taken w)
      then w\<lparr>lw_sent := lw_sent w @ [slice_docs w (fst (lw_taken w ! i)) (snd (lw_taken w ! i))],
             lw_taken := take i (lw_taken w) @ drop (i + 1) (lw_taken w)\<rparr>
      else w)"

definition flush :: "nat \<Rightarrow> ('v, 'f) log_world \<Rightarrow> ('v, 'f) log_world" where
  "flush c w = (let w' = take_buf c w in if oc_len (lw_cores w ! c) = 0 then w else send_taken (length (lw_taken w)) w')"

definition core_Write ::
  "(nat \<Rightarrow> nat) \<Rightarrow> ('f \<Rightarrow> 'v doc \<Rightarrow> 'v doc) \<Rightarrow> nat \<Rightarrow> 'v entry \<Rightarrow> 'f list \<Rightarrow> ('v, 'f) log_world \<Rightarrow> ('v, 'f) log_world" where
  "core_Write grow addTo c e fs w =
     (let w' = append_buf grow c (entry_doc addTo (oc_fields (lw_cores w ! c)) e fs) w
      in if shouldFlush c w' then flush c w' else w')"

text \<open>An entry below the level of the core is not written (\<^verbatim>\<open>Check\<close>).\<close>

definition core_Check :: "nat \<Rightarrow> 'v entry \<Rightarrow> ('v, 'f) log_world \<Rightarrow> bool" where
  "core_Check c e w \<longleftrightarrow> oc_level (lw_cores w ! c) \<le> en_level e"

text \<open>\<^verbatim>\<open>Stop\<close> closes the channel, which panics when it is closed, and flushes.\<close>

definition core_Stop :: "nat \<Rightarrow> ('v, 'f) log_world \<Rightarrow> ('v, 'f) log_world outcome" where
  "core_Stop c w =
     (if oc_stopCh (lw_cores w ! c) \<in> lw_closed w then Panics
      else Returns (flush c (w\<lparr>lw_closed := insert (oc_stopCh (lw_cores w ! c)) (lw_closed w)\<rparr>)))"

text \<open>
  A turn of the goroutine \<^verbatim>\<open>runFlusher\<close> of the core \<^verbatim>\<open>NewOpenSearchCore\<close> made: it ends when the closed channel
  is selected, which is one of the two choices when a tick is there too.
\<close>

definition flusher_turn :: "bool \<Rightarrow> bool \<Rightarrow> nat \<Rightarrow> ('v, 'f) log_world \<Rightarrow> bool \<times> ('v, 'f) log_world" where
  "flusher_turn tick pickStop c w =
     (if oc_stopCh (lw_cores w ! c) \<in> lw_closed w \<and> (pickStop \<or> \<not> tick) then (False, w)
      else if tick then (True, flush c w) else (True, w))"

text \<open>An entry is checked and written; a sequence of them by one goroutine.\<close>

definition log_entry ::
  "(nat \<Rightarrow> nat) \<Rightarrow> ('f \<Rightarrow> 'v doc \<Rightarrow> 'v doc) \<Rightarrow> nat \<Rightarrow> 'v entry \<times> 'f list \<Rightarrow> ('v, 'f) log_world \<Rightarrow> ('v, 'f) log_world" where
  "log_entry grow addTo c x w = (if core_Check c (fst x) w then core_Write grow addTo c (fst x) (snd x) w else w)"

text \<open>The body of a bulk request; the error of \<^verbatim>\<open>json.Marshal\<close> is dropped, which leaves an empty line.\<close>

definition bulk_body :: "('v doc \<Rightarrow> string option) \<Rightarrow> (string \<Rightarrow> string) \<Rightarrow> string \<Rightarrow> 'v doc list \<Rightarrow> string" where
  "bulk_body marshal meta index docs =
     concat (map (\<lambda>d. meta index @ [CHR 0x0A] @ (case marshal d of Some l \<Rightarrow> l | None \<Rightarrow> []) @ [CHR 0x0A]) docs)"

text \<open>What goroutines do between locks, in any order.\<close>

datatype 'v log_event = Append "'v doc" | Take | Send nat

definition log_step :: "(nat \<Rightarrow> nat) \<Rightarrow> nat \<Rightarrow> 'v log_event \<Rightarrow> ('v, 'f) log_world \<Rightarrow> ('v, 'f) log_world" where
  "log_step grow c e w = (case e of Append d \<Rightarrow> append_buf grow c d w | Take \<Rightarrow> take_buf c w | Send i \<Rightarrow> send_taken i w)"

definition log_run :: "(nat \<Rightarrow> nat) \<Rightarrow> nat \<Rightarrow> 'v log_event list \<Rightarrow> ('v, 'f) log_world \<Rightarrow> ('v, 'f) log_world" where
  "log_run grow c es w = fold (log_step grow c) es w"

definition written :: "'v log_event list \<Rightarrow> 'v doc list" where
  "written es = concat (map (\<lambda>e. case e of Append d \<Rightarrow> [d] | _ \<Rightarrow> []) es)"

definition new_world :: "('v, 'f) log_world" where
  "new_world = \<lparr>lw_arrays = (\<lambda>_ _. Map.empty), lw_nextArray = 0, lw_cores = [], lw_nextCh = 0, lw_closed = {}, lw_taken = [], lw_sent = []\<rparr>"

subsection \<open>The global logger\<close>

text \<open>
  \<^verbatim>\<open>globalLogger\<close>, as the cores it writes to (none before \<^verbatim>\<open>InitWithConfig\<close>), and \<^verbatim>\<open>opensearchCoreInstance\<close>.
\<close>

record global_logger =
  gl_logger :: "nat list option"
  gl_instance :: "nat option"

definition AddOpenSearchCore ::
  "int \<Rightarrow> int \<Rightarrow> string \<Rightarrow> string \<Rightarrow> int \<Rightarrow> int \<Rightarrow> global_logger \<times> ('v, 'f) log_world \<Rightarrow> (global_logger \<times> ('v, 'f) log_world) outcome" where
  "AddOpenSearchCore maxCap level endpoint index batchSize flushIntervalSec s =
     (case gl_logger (fst s) of
        None \<Rightarrow> Returns s
      | Some cores \<Rightarrow>
          (case NewOpenSearchCore maxCap level endpoint index batchSize flushIntervalSec (snd s) of
             Panics \<Rightarrow> Panics
           | Returns (c, w) \<Rightarrow> Returns (\<lparr>gl_logger = Some (cores @ [c]), gl_instance = Some c\<rparr>, w)))"

text \<open>\<^verbatim>\<open>Sync\<close>: the core is stopped, then every core of the logger is flushed.\<close>

definition logger_Sync :: "global_logger \<times> ('v, 'f) log_world \<Rightarrow> (global_logger \<times> ('v, 'f) log_world) outcome" where
  "logger_Sync s =
     (case (case gl_instance (fst s) of None \<Rightarrow> Returns (snd s) | Some c \<Rightarrow> core_Stop c (snd s)) of
        Panics \<Rightarrow> Panics
      | Returns w \<Rightarrow> Returns (fst s, (case gl_logger (fst s) of None \<Rightarrow> w | Some cores \<Rightarrow> fold flush cores w)))"

text \<open>The OpenSearch part of \<^verbatim>\<open>initLogger\<close> of the API server.\<close>

definition initOpenSearch ::
  "int \<Rightarrow> int \<Rightarrow> getenv \<Rightarrow> global_logger \<times> ('v, 'f) log_world \<Rightarrow> (global_logger \<times> ('v, 'f) log_world) outcome" where
  "initOpenSearch maxCap debugLevel env s =
     (let osCfg = NewOpenSearchConfig env
      in if osc_enabled osCfg
         then AddOpenSearchCore maxCap debugLevel (osc_endpoint osCfg) (osc_index osCfg) (osc_batchSize osCfg) (osc_flushInterval osCfg) s
         else Returns s)"

text \<open>\<^verbatim>\<open>LogInterceptor\<close>: the result of the handler and the lines logged.\<close>

datatype log_line = LogError string string | LogInfo string string

definition LogInterceptor :: "string \<Rightarrow> ('req \<Rightarrow> 'resp res) \<Rightarrow> 'req \<Rightarrow> 'resp res \<times> log_line list" where
  "LogInterceptor fullMethod handler req =
     (let res = handler req
      in (res, (case res of Inl err \<Rightarrow> [LogError (err_text err) fullMethod] | Inr _ \<Rightarrow> []) @
               [LogInfo ''incoming request to the server is completed'' fullMethod]))"

subsection \<open>Traces and metrics\<close>

record attribute =
  at_key :: string
  at_string :: string
  at_bool :: bool

record sampling_parameters =
  sp_attributes :: "attribute list"
  sp_parentSampled :: bool
  sp_traceValid :: bool
  sp_traceID :: "8 word list"

datatype decision = RecordAndSample | Drop

text \<open>The sampler, for a rate that is a number; \<open>ratio b\<close> is \<^verbatim>\<open>float64(b) / 255.0\<close>.\<close>

definition NewAdaptiveSampler :: "rat \<Rightarrow> rat" where
  "NewAdaptiveSampler successRate =
     (let r = (if successRate < 0 then 0 else successRate) in if r > 1 then 1 else r)"

definition error_attribute :: "attribute \<Rightarrow> bool" where
  "error_attribute a \<longleftrightarrow>
     at_key a \<in> set [''error'', ''error.type'', ''otel.status_code''] \<and> (at_string a = ''ERROR'' \<or> at_bool a)"

definition ShouldSample :: "(nat \<Rightarrow> rat) \<Rightarrow> rat \<Rightarrow> sampling_parameters \<Rightarrow> decision" where
  "ShouldSample ratio successRate p =
     (if list_ex error_attribute (sp_attributes p) then RecordAndSample
      else if sp_parentSampled p then RecordAndSample
      else if sp_traceValid p \<and> ratio (unat (sp_traceID p ! 0)) < successRate then RecordAndSample
      else Drop)"

text \<open>\<^verbatim>\<open>TelemetryProvider.Shutdown\<close>: every function is called, in the order of their registration.\<close>

definition telemetry_Shutdown :: "('s \<Rightarrow> gerr option \<times> 's) list \<Rightarrow> 's \<Rightarrow> gerr list \<times> 's" where
  "telemetry_Shutdown fns s =
     fold (\<lambda>f (errs, s). case f s of (Some e, s') \<Rightarrow> (errs @ [e], s') | (None, s') \<Rightarrow> (errs, s')) fns ([], s)"

text \<open>
  \<^verbatim>\<open>NewTelemetryProvider\<close>: the parts in the order they are made, each registering its shutdown; a part that
  cannot be made is the error.
\<close>

datatype telemetry_part = TraceExporter | TracerProvider | MetricExporter | MeterProvider

definition NewTelemetryProvider :: "(telemetry_part \<Rightarrow> gerr option) \<Rightarrow> otelConfig option \<Rightarrow> telemetry_part list option res" where
  "NewTelemetryProvider mk cfg =
     (case cfg of
        None \<Rightarrow> Inr None
      | Some c \<Rightarrow>
          if \<not> otc_enabled c then Inr None
          else case mk TraceExporter of
                 Some e \<Rightarrow> Inl (ErrWrap ''failed to create trace exporter'' e)
               | None \<Rightarrow> (case mk MetricExporter of
                     Some e \<Rightarrow> Inl (ErrWrap ''failed to create metric exporter'' e)
                   | None \<Rightarrow> Inr (Some [TraceExporter, TracerProvider, MetricExporter, MeterProvider])))"

text \<open>\<^verbatim>\<open>InjectTraceContext\<close> and \<^verbatim>\<open>ExtractTraceContext\<close> with the carrier \<^verbatim>\<open>MapCarrier\<close>; the propagator is an argument.\<close>

type_synonym carrier = "(string \<times> string) list"

definition carrier_Get :: "carrier \<Rightarrow> string \<Rightarrow> string" where
  "carrier_Get c key = (case map_of c key of Some v \<Rightarrow> v | None \<Rightarrow> [])"

definition carrier_Set :: "carrier \<Rightarrow> string \<Rightarrow> string \<Rightarrow> carrier" where
  "carrier_Set c key v = AList.update key v c"

definition InjectTraceContext :: "('ctx \<Rightarrow> carrier \<Rightarrow> carrier) \<Rightarrow> 'ctx \<Rightarrow> carrier" where
  "InjectTraceContext inject ctx = inject ctx []"

definition ExtractTraceContext :: "('ctx \<Rightarrow> carrier \<Rightarrow> 'ctx) \<Rightarrow> 'ctx \<Rightarrow> carrier option \<Rightarrow> 'ctx" where
  "ExtractTraceContext extract ctx traceCtx =
     (case traceCtx of None \<Rightarrow> ctx | Some c \<Rightarrow> if c = [] then ctx else extract ctx c)"

section \<open>Properties\<close>

subsection \<open>No document is lost or sent twice\<close>

text \<open>A world of one core: its buffer shares no array with the slices taken from it.\<close>

definition one_core :: "('v, 'f) log_world \<Rightarrow> bool" where
  "one_core w \<longleftrightarrow> length (lw_cores w) = 1 \<and> oc_array (lw_cores w ! 0) < lw_nextArray w \<and>
     (\<forall>(a, n) \<in> set (lw_taken w). a < lw_nextArray w \<and> a \<noteq> oc_array (lw_cores w ! 0) \<and> 0 < n)"

definition buffer :: "('v, 'f) log_world \<Rightarrow> 'v doc list" where
  "buffer w = slice_docs w (oc_array (lw_cores w ! 0)) (oc_len (lw_cores w ! 0))"

definition taken_docs :: "('v, 'f) log_world \<Rightarrow> 'v doc list list" where
  "taken_docs w = map (\<lambda>(a, n). slice_docs w a n) (lw_taken w)"

lemma length_buffer [simp]: "length (buffer w) = oc_len (lw_cores w ! 0)"
  by (simp add: buffer_def slice_docs_def)

lemma length_taken_docs [simp]: "length (taken_docs w) = length (lw_taken w)"
  by (simp add: taken_docs_def)

lemma append_buf_docs:
  assumes "one_core w"
  shows "one_core (append_buf grow 0 d w)"
    and "buffer (append_buf grow 0 d w) = buffer w @ [d]"
    and "taken_docs (append_buf grow 0 d w) = taken_docs w"
    and "lw_sent (append_buf grow 0 d w) = lw_sent w"
  using assms
  by (auto simp: one_core_def append_buf_def buffer_def taken_docs_def slice_docs_def Let_def)

lemma take_buf_docs:
  assumes "one_core w"
  shows "one_core (take_buf 0 w)"
    and "buffer (take_buf 0 w) = []"
    and "taken_docs (take_buf 0 w) = taken_docs w @ (if buffer w = [] then [] else [buffer w])"
    and "lw_sent (take_buf 0 w) = lw_sent w"
  using assms
  by (auto simp: one_core_def take_buf_def buffer_def taken_docs_def slice_docs_def Let_def)

lemma send_taken_docs:
  assumes "one_core w"
  shows "one_core (send_taken i w)"
    and "buffer (send_taken i w) = buffer w"
    and "taken_docs (send_taken i w) = (if i < length (taken_docs w) then take i (taken_docs w) @ drop (i + 1) (taken_docs w) else taken_docs w)"
    and "lw_sent (send_taken i w) = lw_sent w @ (if i < length (taken_docs w) then [taken_docs w ! i] else [])"
  using assms
  by (auto simp: one_core_def send_taken_def buffer_def taken_docs_def slice_docs_def take_map drop_map
      split: prod.splits dest!: in_set_takeD in_set_dropD)

lemma new_core:
  assumes "NewOpenSearchCore maxCap level endpoint index bs fi new_world = Returns (c, w)"
  shows "c = 0" "one_core w" "buffer w = []" "taken_docs w = []" "lw_sent w = []" "oc_batchSize (lw_cores w ! 0) = bs"
    "lw_taken w = []" "oc_level (lw_cores w ! 0) = level" "oc_fields (lw_cores w ! 0) = []"
  using assms by (auto simp: NewOpenSearchCore_def new_world_def one_core_def buffer_def taken_docs_def slice_docs_def split: if_splits)

text \<open>Nothing is lost between the locks, whatever the goroutines do in between.\<close>

lemma concat_remove_nth:
  "i < length xs \<Longrightarrow> mset (concat (take i xs @ drop (i + 1) xs)) + mset (xs ! i) = mset (concat xs)"
  using arg_cong [OF id_take_nth_drop [of i xs], of "\<lambda>ys. mset (concat ys)"] by (simp add: ac_simps)

definition pipeline :: "('v, 'f) log_world \<Rightarrow> 'v doc multiset" where
  "pipeline w = mset (concat (lw_sent w)) + mset (concat (taken_docs w)) + mset (buffer w)"

lemma step_pipeline:
  assumes "one_core w"
  shows "one_core (log_step grow 0 e w)"
    and "pipeline (log_step grow 0 e w) = pipeline w + mset (written [e])"
proof -
  show "one_core (log_step grow 0 e w)"
    using assms by (cases e) (simp_all add: log_step_def append_buf_docs take_buf_docs send_taken_docs)
  have "pipeline (send_taken i w) = pipeline w" for i
  proof (cases "i < length (taken_docs w)")
    case True
    then have "pipeline (send_taken i w) =
        mset (concat (lw_sent w)) + mset (taken_docs w ! i) + mset (concat (take i (taken_docs w) @ drop (i + 1) (taken_docs w))) + mset (buffer w)"
      by (simp add: pipeline_def send_taken_docs [OF assms])
    then show ?thesis using concat_remove_nth [OF True] by (simp add: pipeline_def ac_simps del: concat_append)
  qed (simp add: pipeline_def send_taken_docs [OF assms])
  then show "pipeline (log_step grow 0 e w) = pipeline w + mset (written [e])"
    by (cases e) (simp_all add: log_step_def written_def pipeline_def append_buf_docs [OF assms] take_buf_docs [OF assms])
qed

lemma run_pipeline:
  assumes "one_core w"
  shows "one_core (log_run grow 0 es w) \<and> pipeline (log_run grow 0 es w) = pipeline w + mset (written es)"
  using assms
  by (induction es arbitrary: w) (auto simp: log_run_def written_def step_pipeline ac_simps)

text \<open>One goroutine: the batches are the documents in the order they were written.\<close>

lemma core_constants [simp]:
  assumes "one_core w"
  shows "oc_batchSize (lw_cores (append_buf grow 0 d w) ! 0) = oc_batchSize (lw_cores w ! 0)"
    and "oc_batchSize (lw_cores (flush 0 w) ! 0) = oc_batchSize (lw_cores w ! 0)"
    and "oc_level (lw_cores (append_buf grow 0 d w) ! 0) = oc_level (lw_cores w ! 0)"
    and "oc_level (lw_cores (flush 0 w) ! 0) = oc_level (lw_cores w ! 0)"
    and "oc_fields (lw_cores (append_buf grow 0 d w) ! 0) = oc_fields (lw_cores w ! 0)"
    and "oc_fields (lw_cores (flush 0 w) ! 0) = oc_fields (lw_cores w ! 0)"
  using assms by (simp_all add: one_core_def append_buf_def flush_def take_buf_def send_taken_def Let_def)

lemma flush_docs:
  assumes "one_core w" and "lw_taken w = []"
  shows "one_core (flush 0 w)" and "lw_taken (flush 0 w) = []" and "buffer (flush 0 w) = []"
    and "concat (lw_sent (flush 0 w)) = concat (lw_sent w) @ buffer w"
proof -
  have none: "taken_docs w = []" using assms(2) by (simp add: taken_docs_def)
  show "one_core (flush 0 w)" "buffer (flush 0 w) = []"
    using assms(1) length_buffer [of w]
    by (auto simp: flush_def Let_def take_buf_docs send_taken_docs simp del: length_buffer)
  have empty: "buffer w = [] \<longleftrightarrow> oc_len (lw_cores w ! 0) = 0" by (metis length_0_conv length_buffer)
  show "concat (lw_sent (flush 0 w)) = concat (lw_sent w) @ buffer w"
    using assms none empty
    by (auto simp: flush_def Let_def take_buf_docs send_taken_docs simp del: length_taken_docs)
  have "taken_docs (flush 0 w) = []"
    using assms none empty
    by (auto simp: flush_def Let_def take_buf_docs send_taken_docs simp del: length_taken_docs)
  then show "lw_taken (flush 0 w) = []" by (simp add: taken_docs_def)
qed

lemma Write_docs:
  fixes w :: "('v, 'f) log_world" and grow addTo e fs
  assumes "one_core w" and "lw_taken w = []"
  defines "w' \<equiv> core_Write grow addTo 0 e fs w"
  shows "one_core w'" and "lw_taken w' = []"
    and "concat (lw_sent w') @ buffer w' = concat (lw_sent w) @ buffer w @ [entry_doc addTo (oc_fields (lw_cores w ! 0)) e fs]"
    and "int (length (buffer w')) < max 1 (oc_batchSize (lw_cores w ! 0))"
    and "oc_batchSize (lw_cores w' ! 0) = oc_batchSize (lw_cores w ! 0)" and "oc_level (lw_cores w' ! 0) = oc_level (lw_cores w ! 0)"
    and "oc_fields (lw_cores w' ! 0) = oc_fields (lw_cores w ! 0)"
proof -
  let ?v = "append_buf grow 0 (entry_doc addTo (oc_fields (lw_cores w ! 0)) e fs) w"
  have v: "one_core ?v" "lw_taken ?v = []" "lw_sent ?v = lw_sent w"
    "buffer ?v = buffer w @ [entry_doc addTo (oc_fields (lw_cores w ! 0)) e fs]"
    using assms append_buf_docs [OF assms(1)] by (simp_all add: append_buf_def Let_def)
  have w': "w' = (if shouldFlush 0 ?v then flush 0 ?v else ?v)" by (simp add: w'_def core_Write_def Let_def)
  show "one_core w'" "lw_taken w' = []"
    "concat (lw_sent w') @ buffer w' = concat (lw_sent w) @ buffer w @ [entry_doc addTo (oc_fields (lw_cores w ! 0)) e fs]"
    using v flush_docs [OF v(1,2)] by (simp_all add: w')
  show "int (length (buffer w')) < max 1 (oc_batchSize (lw_cores w ! 0))"
  proof (cases "shouldFlush 0 ?v")
    case True
    then have "buffer w' = []" using flush_docs [OF v(1,2)] by (simp add: w')
    then show ?thesis by simp
  next
    case False
    then have "int (length (buffer ?v)) < oc_batchSize (lw_cores w ! 0)"
      using assms(1) by (simp add: shouldFlush_def)
    then show ?thesis using False by (simp add: w')
  qed
  show "oc_batchSize (lw_cores w' ! 0) = oc_batchSize (lw_cores w ! 0)" "oc_level (lw_cores w' ! 0) = oc_level (lw_cores w ! 0)"
    "oc_fields (lw_cores w' ! 0) = oc_fields (lw_cores w ! 0)"
    using assms(1) v(1) by (simp_all add: w')
qed

definition logged :: "('f \<Rightarrow> 'v doc \<Rightarrow> 'v doc) \<Rightarrow> int \<Rightarrow> ('v entry \<times> 'f list) list \<Rightarrow> 'v doc list" where
  "logged addTo level xs = map (\<lambda>(e, fs). entry_doc addTo [] e fs) (filter (\<lambda>(e, _). level \<le> en_level e) xs)"

lemma entries_docs:
  fixes w :: "('v, 'f) log_world" and grow addTo xs
  assumes "one_core w" "lw_taken w = []" "oc_fields (lw_cores w ! 0) = []"
    and "int (length (buffer w)) < max 1 (oc_batchSize (lw_cores w ! 0))"
  defines "w' \<equiv> fold (log_entry grow addTo 0) xs w"
  shows "one_core w' \<and> lw_taken w' = [] \<and> int (length (buffer w')) < max 1 (oc_batchSize (lw_cores w ! 0)) \<and>
    concat (lw_sent w') @ buffer w' = concat (lw_sent w) @ buffer w @ logged addTo (oc_level (lw_cores w ! 0)) xs"
  using assms(1-4) unfolding w'_def
proof (induction xs arbitrary: w)
  case Nil
  then show ?case by (simp add: logged_def)
next
  case (Cons x xs)
  show ?case
  proof (cases "core_Check 0 (fst x) w")
    case False
    then show ?thesis using Cons.IH [of w] Cons.prems
      by (auto simp: log_entry_def logged_def core_Check_def split: prod.splits)
  next
    case True
    note W = Write_docs [OF Cons.prems(1,2), of grow addTo "fst x" "snd x"]
    show ?thesis using Cons.IH [of "core_Write grow addTo 0 (fst x) (snd x) w"] W Cons.prems(3) True
      by (auto simp: log_entry_def logged_def core_Check_def split: prod.splits simp del: length_buffer)
  qed
qed

text \<open>
  C24. The log core loses nothing and sends nothing twice.  Whatever its goroutines do between the locks of a new
  core, the documents appended are those sent, those taken and those in the buffer, as multisets: a taken
  slice is not touched by later appends.  Entries written by one goroutine arrive in order: what is sent,
  followed by the buffer, is what was logged at the level of the core, the buffer stays below the batch
  size, and a flush sends the rest.
\<close>

theorem log_pipeline_conserves:
  assumes "NewOpenSearchCore maxCap level endpoint index bs fi new_world = Returns (c, w0)"
  shows "mset (concat (lw_sent (log_run grow c es w0))) + mset (concat (taken_docs (log_run grow c es w0))) +
           mset (buffer (log_run grow c es w0)) = mset (written es) \<and>
         concat (lw_sent (fold (log_entry grow addTo c) xs w0)) @ buffer (fold (log_entry grow addTo c) xs w0) = logged addTo level xs \<and>
         int (length (buffer (fold (log_entry grow addTo c) xs w0))) < max 1 bs \<and>
         concat (lw_sent (flush c (fold (log_entry grow addTo c) xs w0))) = logged addTo level xs"
proof -
  note new = new_core [OF assms]
  have "pipeline w0 = {#}" by (simp add: pipeline_def new)
  then have "pipeline (log_run grow 0 es w0) = mset (written es)"
    using run_pipeline [OF new(2), of grow es] by simp
  moreover have "int (length (buffer w0)) < max 1 (oc_batchSize (lw_cores w0 ! 0))" using new(3) by (simp del: length_buffer)
  note entries_docs [OF new(2,7,9) this, of grow addTo xs]
  ultimately show ?thesis
    using flush_docs [of "fold (log_entry grow addTo 0) xs w0"] by (simp add: pipeline_def new(1,3,5,6,8) del: length_buffer)
qed

theorem log_pipeline_conserves_witness:
  "\<exists>w0 :: (nat, unit) log_world. NewOpenSearchCore 100 0 ''http://localhost:9200'' ''app-logs'' 2 5 new_world = Returns (0, w0) \<and>
     map (\<lambda>d. d ''message'')
       (concat (lw_sent (flush 0 (fold (log_entry Suc (\<lambda>_ d. d) 0)
         (map (\<lambda>(l, m). (\<lparr>en_level = l, en_time = 0, en_levelName = 0, en_message = m, en_logger = 0, en_caller = None, en_stack = None\<rparr>, []))
           [(0, 10), (- 1, 11), (2, 12), (0, 13)]) w0)))) = [Some 10, Some 12, Some 13]"
proof -
  have "flush_interval 5 = 5000000000" by (simp add: flush_interval_def)
  then obtain w0 :: "(nat, unit) log_world" where
    w0: "NewOpenSearchCore 100 0 ''http://localhost:9200'' ''app-logs'' 2 5 new_world = Returns (0, w0)"
    by (simp add: NewOpenSearchCore_def new_world_def)
  show ?thesis
    using log_pipeline_conserves [OF w0, of Suc "[]" "\<lambda>_ d. d"
        "map (\<lambda>(l, m). (\<lparr>en_level = l, en_time = 0, en_levelName = 0, en_message = m, en_logger = 0, en_caller = None, en_stack = None\<rparr>, []))
           [(0, 10), (- 1, 11), (2, 12), (0, 13)]"] w0
    by (intro exI [of _ w0]) (simp add: logged_def entry_doc_def)
qed

subsection \<open>Limits of the log core\<close>

text \<open>
  A core made by \<^verbatim>\<open>With\<close> shares the array of the original and has a lock of its own: each appends at the
  same index and one document overwrites the other.
\<close>

lemma With_overwrites:
  fixes d1 d2 :: "'v doc" and fs :: "'f list" and grow
  assumes "NewOpenSearchCore maxCap level endpoint index bs fi new_world = Returns (c, w0)" and "1 < bs"
  defines "w \<equiv> append_buf grow (fst (core_With c fs w0)) d2 (append_buf grow c d1 (snd (core_With c fs w0)))"
  shows "lw_sent (flush (fst (core_With c fs w0)) (flush c w)) = [[d2], [d2]]"
proof -
  define k :: "'f opensearchCore" where
    "k = \<lparr>oc_level = level, oc_endpoint = endpoint, oc_index = index, oc_array = 0, oc_len = 0, oc_cap = nat bs,
          oc_batchSize = bs, oc_flushInterval = flush_interval fi, oc_stopCh = 0, oc_fields = []\<rparr>"
  have c: "c = 0" and w0: "w0 = new_world\<lparr>lw_nextArray := 1, lw_nextCh := 1, lw_cores := [k]\<rparr>"
    using assms(1) by (simp_all add: NewOpenSearchCore_def new_world_def k_def split: if_splits)
  have cap: "oc_cap k = nat bs" "oc_array k = 0" "oc_len k = 0" by (simp_all add: k_def)
  define k' where "k' = k\<lparr>oc_fields := oc_fields k @ fs\<rparr>"
  have cap': "oc_cap k' = nat bs" "oc_array k' = 0" "oc_len k' = 0" by (simp_all add: k'_def cap)
  have clone: "core_With 0 fs w0 = (1, w0\<lparr>lw_cores := [k, k']\<rparr>)"
    by (simp add: core_With_def w0 k'_def)
  have w: "w = w0\<lparr>lw_arrays := (lw_arrays w0)(0 := (lw_arrays w0 0)(0 := d2)), lw_cores := [k\<lparr>oc_len := 1\<rparr>, k'\<lparr>oc_len := 1\<rparr>]\<rparr>"
    unfolding w_def c clone fst_conv snd_conv using assms(2) by (simp add: append_buf_def cap cap' Let_def w0)
  show ?thesis
    unfolding w c clone fst_conv by (simp add: flush_def take_buf_def send_taken_def slice_docs_def Let_def cap cap' w0 new_world_def)
qed

text \<open>A core that was stopped cannot be stopped again, so the second \<^verbatim>\<open>Sync\<close> of the global logger panics.\<close>

lemma flush_channels [simp]:
  "lw_closed (flush c w) = lw_closed w"
  "c' < length (lw_cores w) \<Longrightarrow> oc_stopCh (lw_cores (flush c w) ! c') = oc_stopCh (lw_cores w ! c')"
  "length (lw_cores (flush c w)) = length (lw_cores w)"
  by (cases "c = c'"; simp add: flush_def take_buf_def send_taken_def Let_def)+

lemma flush_all_channels [simp]:
  "lw_closed (fold flush cs w) = lw_closed w"
  "c' < length (lw_cores w) \<Longrightarrow> oc_stopCh (lw_cores (fold flush cs w) ! c') = oc_stopCh (lw_cores w ! c')"
  by (induction cs arbitrary: w) simp_all

lemma Sync_twice_panics:
  assumes "gl_instance (fst s) = Some c" and "c < length (lw_cores (snd s))" and "logger_Sync s = Returns s'"
  shows "logger_Sync s' = Panics"
  using assms by (auto simp: logger_Sync_def core_Stop_def split: if_splits option.splits)

text \<open>
  The batch size and the interval are read without a check: with OpenSearch enabled a negative size or an
  interval that is not positive ends the server at its start.
\<close>

lemma initOpenSearch_panics:
  assumes "osc_enabled (NewOpenSearchConfig env)" and "gl_logger (fst s) = Some cores"
  shows "initOpenSearch maxCap debugLevel env s = Panics \<longleftrightarrow>
    osc_batchSize (NewOpenSearchConfig env) < 0 \<or> maxCap < osc_batchSize (NewOpenSearchConfig env) \<or>
    flush_interval (osc_flushInterval (NewOpenSearchConfig env)) \<le> 0"
  using assms by (auto simp: initOpenSearch_def AddOpenSearchCore_def NewOpenSearchCore_def Let_def split: outcome.splits)

subsection \<open>Traces\<close>

lemma NewAdaptiveSampler_range: "0 \<le> NewAdaptiveSampler r \<and> NewAdaptiveSampler r \<le> 1"
  by (simp add: NewAdaptiveSampler_def Let_def)

text \<open>
  Errors and children of sampled spans are always sampled; a new trace by its first byte alone.  At the
  rate one (the default) or above, the traces whose first byte is 255 are dropped.
\<close>

lemma full_rate_drops:
  assumes "ratio 255 = 1" and "\<And>b. b < 255 \<Longrightarrow> ratio b < 1" and "1 \<le> rate" and "sp_traceValid p"
    and "\<not> list_ex error_attribute (sp_attributes p)" and "\<not> sp_parentSampled p"
  shows "ShouldSample ratio (NewAdaptiveSampler rate) p = Drop \<longleftrightarrow> sp_traceID p ! 0 = 255"
proof -
  have rate: "NewAdaptiveSampler rate = 1" using assms(3) by (simp add: NewAdaptiveSampler_def Let_def)
  have "unat (sp_traceID p ! 0) < 2 ^ LENGTH(8)" by (rule unsigned_less)
  then have le: "unat (sp_traceID p ! 0) \<le> 255" by simp
  have eq: "unat (sp_traceID p ! 0) = 255 \<longleftrightarrow> sp_traceID p ! 0 = 255"
    by (simp add: word_unat_eq_iff)
  show ?thesis
  proof (cases "unat (sp_traceID p ! 0) = 255")
    case True
    then show ?thesis using assms rate eq by (simp add: ShouldSample_def)
  next
    case False
    then have "ratio (unat (sp_traceID p ! 0)) < 1" using assms(2) le by simp
    then show ?thesis using assms rate eq False by (simp add: ShouldSample_def)
  qed
qed

text \<open>Every shutdown function runs, in order, whatever the ones before it return.\<close>

lemma Shutdown_runs_all: "snd (telemetry_Shutdown fns s) = fold (\<lambda>f s. snd (f s)) fns s"
proof -
  have "snd (fold (\<lambda>f (errs, s). case f s of (Some e, s') \<Rightarrow> (errs @ [e], s') | (None, s') \<Rightarrow> (errs, s')) fns (errs, s)) =
        fold (\<lambda>f s. snd (f s)) fns s" for errs
    by (induction fns arbitrary: errs s) (auto split: prod.splits option.splits)
  then show ?thesis by (simp add: telemetry_Shutdown_def)
qed

text \<open>The exporter of the traces is shut down before the provider that flushes its last batch into it.\<close>

lemma exporter_stopped_first:
  "NewTelemetryProvider mk cfg = Inr (Some parts) \<Longrightarrow> \<exists>rest. parts = TraceExporter # TracerProvider # rest"
  by (auto simp: NewTelemetryProvider_def split: option.splits if_splits)

lemma carrier_roundtrip: "carrier_Get (carrier_Set c k v) k' = (if k' = k then v else carrier_Get c k')"
  by (simp add: carrier_Get_def carrier_Set_def update_conv)

end
