(* ===== verification/Spec2Isabelle.thy ===== *)
theory Spec2Isabelle
  imports Crawl_System Rate_Limiter Messaging Sharding Job_Reading Worker_Lifecycle Rendering_Fetchers Robots_Service
    Preview_Service Request_Validation Observability
begin

text \<open>
  A verification of the distributed crawler (\<^verbatim>\<open>src/internal\<close>, Go).

  \<^bold>\<open>The program.\<close>  An API server accepts crawl jobs.  Creating a job writes its configuration, the job,
  one task per seed and one outbox event per task in one transaction.  The outbox publisher turns
  unprocessed events into messages on the crawl queues, choosing a queue by the weights of the job.  A
  fetch worker takes a message, loads the task, checks scope, robots.txt and rate limit, fetches the
  page with retries, stores it in the content store and sends a parsing message.  A parser worker loads
  the page, extracts fields and items, stores the result, discovers links, creates the tasks for those in
  scope and publishes them.  An export worker writes the reports of finished jobs; a schedule worker
  starts the next run of scheduled jobs; a recovery pass republishes tasks that hang.  Users register,
  log in and rotate refresh tokens; two gRPC interceptors check their access tokens and roles.  A
  registry follows the workers' heartbeats and passes drain and kill commands to them.

  \<^bold>\<open>Conventions.\<close>  A struct is a record, a string-typed enumeration its string, an error a value of
  \<open>gerr\<close> (wrapping is a constructor, so that comparison with a sentinel and \<^verbatim>\<open>errors.Is\<close> differ as
  in Go), a fallible call returns \<open>'a res\<close>, a call that may panic \<open>'a outcome\<close>.  \<^verbatim>\<open>uint32\<close> and
  \<^verbatim>\<open>uint64\<close> are words, a \<^verbatim>\<open>float64\<close> of the extraction language and of the JSON columns is
  one (\<open>Go_Floats\<close>), those of the rate limiters are rationals, times and durations are integers (nanoseconds, zero
  being Go's zero time, with the saturation of \<^verbatim>\<open>Sub\<close>).  Tables are lists of rows; a statement is a
  function on the tables that respects keys, unique indexes and foreign keys; a transaction runs its
  body and keeps the tables only if body and commit succeed.  Everything outside the sources is a
  parameter: the environment records hold what one call draws from the clock, from random numbers and
  fresh identifiers, from JSON, HTML, regular expressions, bcrypt, JWT, cron, and which of its statements
  and sends fail.  Every theorem therefore ranges over all failures of these calls.

  \<^bold>\<open>What is idealised.\<close>  A statement or a commit that is answered with an error has no effect (no commit is
  lost on the way back); the limit of 65535 parameters of one statement is not reached; a time read
  from a column is the time written (the columns keep microseconds); the rows of a configuration are kept by
  the converters as they are, except in \<open>Config_JSON\<close> and \<open>Job_Reading\<close>, where they go through their JSON
  columns; the transactions of the user tables run one after the other, with the lookup before a
  rotation outside of them; upper and lower case are those of ASCII.

  \<^bold>\<open>The theories.\<close>
  \<^item> \<open>Go_Prelude\<close>: errors, the string functions the sources use, time, and the locale \<open>inv_machine\<close> of
    components whose steps keep an invariant.
  \<^item> \<open>Domain_Models\<close>: identifiers, statuses, job configuration, job, task and the task's state changes
    (\<^verbatim>\<open>domain/crawl/models\<close>, \<^verbatim>\<open>valueobjects\<close>).
  \<^item> \<open>Queue_Routing\<close>: \<^verbatim>\<open>SelectCrawlQueue\<close>; the routing is proportional to the weights, and panics
    exactly when the 32-bit sum of at least two usable weights wraps to zero.
  \<^item> \<open>Scope_Rules\<close>: allow patterns and the scope validator, equivalent to wildcard matching.
  \<^item> \<open>Database_Model\<close>: rows, converters, transactions and the consistency \<open>db_inv\<close> of the tables.
  \<^item> \<open>Task_Repository\<close>, \<open>Job_Repository\<close>: the repositories under \<^verbatim>\<open>postgres/repos\<close>, with
    deduplication, the export lock and the eligibility query; their statements keep \<open>db_inv\<close>, as the
    constraints of the tables enforce.
  \<^item> \<open>Outbox_Publisher\<close>: the poll of \<^verbatim>\<open>worker/outbox_publisher.go\<close>; at-least-once delivery, and
    progress when nothing fails.
  \<^item> \<open>HTTP_Fetcher\<close>: the retry loop of \<^verbatim>\<open>fetcher/http\<close> and the classification of its errors.
  \<^item> \<open>Fetch_Worker\<close>: \<^verbatim>\<open>worker/fetch_worker.go\<close>; what an acknowledged message has done.
  \<^item> \<open>Go_Floats\<close>: the values of \<^verbatim>\<open>float64\<close>, rounding, and the conversions from and to \<^verbatim>\<open>int64\<close>.
  \<^item> \<open>Extraction_DSL\<close>, \<open>Parser_Worker\<close>: the extraction language and \<^verbatim>\<open>worker/parser_worker.go\<close>;
    fields have the type they ask for, discovered tasks are in scope, parsing is atomic, announces exactly
    the inserted children of the message's task, and is idempotent under redelivery.
  \<^item> \<open>Job_Services\<close>: creation and deletion of jobs, the schedule worker and the stuck task recovery.
  \<^item> \<open>Export_Worker\<close>: \<^verbatim>\<open>worker/export_worker.go\<close> with the CSV writer, and PostgreSQL's aborted state
    inside a transaction; reports read back, a poll touches only eligible jobs.
  \<^item> \<open>Crawl_System\<close>: the services and workers above as steps on one world; what holds in every state
    the crawler can reach.
  \<^item> \<open>Auth_Service\<close>: users, refresh tokens, registration, login, refresh, logout and role changes;
    tokens are good for one use, one session per user when requests follow one another, and at most one
    more per overlapping refresh.
  \<^item> \<open>Access_Control\<close>: \<^verbatim>\<open>internal/auth\<close>, the interceptor chain of \<^verbatim>\<open>app/api_app.go\<close>, the user
    handlers and the hand-written HTTP routes; who is let in, what an issued token is worth.
  \<^item> \<open>Worker_Registry\<close>: \<^verbatim>\<open>workerhealth/registry.go\<close> and \<^verbatim>\<open>api/worker\<close>; channels are shared
    objects that panic as in Go; no history panics or loses a command.
  \<^item> \<open>Rate_Limiter\<close>: \<^verbatim>\<open>cache/inmemory_rate_limiter.go\<close> and \<^verbatim>\<open>cache/redis_rate_limiter.go\<close>, two
    interpretations of the locale \<open>token_bucket\<close>, which proves the bound once.
  \<^item> \<open>Listing\<close>: listing of tasks with cursors from the gRPC handler to the query; paging is complete and
    ends.
  \<^item> \<open>Messaging\<close>: \<^verbatim>\<open>api/memory_broker\<close> and the clients under \<^verbatim>\<open>infra/messaging\<close>; the in-memory
    broker neither loses nor invents a message, RabbitMQ deliveries are settled once, and what Kafka
    delivers again.
  \<^item> \<open>Sharding\<close>: the sharded client under \<^verbatim>\<open>postgres/pg\<close> and \<^verbatim>\<open>interceptor/shard_key.go\<close>; each
    shard is an unsharded database of the statements routed to it, and creating a job, statement by
    statement, with the query that inserts its tasks sent to every shard when there is no key.
  \<^item> \<open>Config_JSON\<close>: the JSON columns of configurations, with the rounding of numbers on their way; they
    implement the converters of \<open>Database_Model\<close> for integers of 53 bits, and what happens beyond.
  \<^item> \<open>API_Converters\<close>: \<^verbatim>\<open>api/crawl_job/converter.go\<close>; a configuration survives the way to a message and back.
  \<^item> \<open>Job_API\<close>: the remaining handlers under \<^verbatim>\<open>api/crawl_job\<close> with their services and the listing of jobs; paging
    is complete.
  \<^item> \<open>Job_Reading\<close>: reading a job through the JSON columns; a created job reads back as submitted when its
    integers have 53 bits, and cannot be read at all when one is near the largest 64-bit integer.
  \<^item> \<open>Go_Strings\<close>: splitting, joining and the count of runes.
  \<^item> \<open>Worker_Lifecycle\<close>: \<^verbatim>\<open>app/worker_app.go\<close> with the loops of the workers' \<^verbatim>\<open>Start\<close>, drain, kill and
    shutdown as a step relation whose tests and actions are separate steps, and \<^verbatim>\<open>worker/monitoring.go\<close>; what a
    drain waits for, what it misses in between, and that it ends.
  \<^item> \<open>Rendering_Fetchers\<close>: the browser and Selenium fetchers under \<^verbatim>\<open>services/fetcher\<close>; a page has settled
    when it is taken, its status is that of the last document response seen by then, and it is the first
    successful attempt's.
  \<^item> \<open>Robots_Service\<close>: \<^verbatim>\<open>cache/robots_txt_service.go\<close>; one request per host and time to live.
  \<^item> \<open>Preview_Service\<close>: \<^verbatim>\<open>contentstore/minio_store.go\<close>, which implements the map the workers write to over outages and
    missing keys, and the previews from the endpoint to the table; a created preview is shown.
  \<^item> \<open>Request_Validation\<close>: \<^verbatim>\<open>pkg/v1/models.pb.validate.go\<close> for every request; which requests reach a handler.
  \<^item> \<open>Env_Config\<close>: \<^verbatim>\<open>config/env\<close>, and the queue names of \<^verbatim>\<open>app/service_provider.go\<close> and
    \<^verbatim>\<open>app/worker_app.go\<close>; both sides agree on the queues, and when each of them has a consumer.
  \<^item> \<open>Observability\<close>: \<^verbatim>\<open>infra/logger\<close> with the arrays its slices share, the sampler and the shutdown of
    \<^verbatim>\<open>telemetry\<close>, and \<^verbatim>\<open>interceptor/logger.go\<close>; no log document is lost or sent twice by one core.
  \<^item> This theory: the links to files that the server hands out lead to stored objects.

  \<^bold>\<open>Loops and fuel.\<close>  Loops of the sources over slices are structural recursion; the schedule worker's
  paging over configurations is a \<open>function\<close> whose termination is proved from the growing offset; the
  pages of a client of the listing take fuel, and one unit per selected task and one is proved enough.
  Loops that wait for something outside (the browser's network and document, a hub) run over the list of
  what they see and have no result while it lasts; that they end with their deadline is a lemma.

  \<^bold>\<open>Ordering.\<close>  A history of a component is a list of calls.  Where the code releases its lock or leaves
  its transaction between two parts of a call, the parts are separate definitions, so that lemmas can
  interleave them (the lookup and the rotation of a refresh; attach and detach of a worker's stream).

  \<^bold>\<open>Not modelled.\<close>  The construction of the components and the start of the servers (\<^verbatim>\<open>app\<close>, other than the queues
  and the shutdown of workers); the encoders of zap and the instruments and exporters of OpenTelemetry; the
  generated protobuf, gateway and mock code other than the validation of requests; the policy of the HTML
  sanitizer, which is data of its library; how long the workers' tickers take.
\<close>

lemma task_file_row:
  assumes "db_inv db" and "GetTask ok fail tid db = Inr task"
  shows "\<exists>r \<in> set (db_tasks db). ts_ID r = tid \<and> task_MinioObjectKey task = ts_MinioObjectKey r \<and>
           task_ResultObjectKey task = ts_ResultObjectKey r"
proof -
  obtain r where r: "find_task db tid = Some r" "SaveCrawlTaskToSnapshot task = r"
    using assms(2) by (auto simp: GetTask_def bind_res_Inr_iff NewTypedID_eq db_read_def task_Get_def
        split: option.splits dest!: NewID_InrD RestoreTask_InrD)
  then show ?thesis using find_task_SomeD [OF r(1)] by (auto simp: SaveCrawlTaskToSnapshot_def)
qed

lemma job_file_row:
  assumes "db_inv db" and "GetCrawlJob ok fail jid db = Inr job"
  shows "\<exists>j \<in> set (db_jobs db). js_ID j = jid \<and> job_ExportJSONKey job = js_ExportJSONKey j \<and>
           job_ExportCSVKey job = js_ExportCSVKey j"
proof -
  obtain j where "find_job db jid = Some j" "job_ExportJSONKey job = js_ExportJSONKey j" "job_ExportCSVKey job = js_ExportCSVKey j"
    using assms(2) by (auto simp: GetCrawlJob_def bind_res_Inr_iff NewTypedID_eq db_read_def job_Get_def
        scanCrawlJobWithConfig_def RestoreCrawlJobFromSnapshot_def split: option.splits if_splits dest!: NewID_InrD)
  then show ?thesis using find_job_SomeD by blast
qed

text \<open>
  C16. Download links lead somewhere.  In every state the crawler can reach, a link that the server signs
  for the page of a fetched task, for the result of a parsed task or for a report of an exported job
  is the signature of a key under which the content store holds an object, and lasts ten minutes.
\<close>

theorem served_files_exist:
  fixes ops :: "'n system_op list"
  defines "w \<equiv> foldl system_step empty_world ops"
  shows "(api_GetTaskFileURL presign ok fail tid fileType (w_db w) = Inr (url, seconds) \<longrightarrow>
           (\<exists>r \<in> set (db_tasks (w_db w)). \<exists>key. ts_ID r = tid \<and> presign key 10 = Inr url \<and> seconds = 600 \<and>
              (ts_Status r = (if fileType = FileTypePages then TaskStatusFetched else TaskStatusParsed) \<longrightarrow> key \<in> dom (w_store w)))) \<and>
         (api_GetJobExportFileURL presign ok fail jid fileType (w_db w) = Inr (url, seconds) \<longrightarrow>
           (\<exists>j \<in> set (db_jobs (w_db w)). \<exists>key. js_ID j = jid \<and> presign key 10 = Inr url \<and> seconds = 600 \<and>
              (js_ExportStatus j = Some ExportStatusCompleted \<longrightarrow> key \<in> dom (w_store w))))"
proof (intro conjI impI)
  have c: "consistent (w_store w) (w_db w)"
    unfolding w_def by (rule crawler.run_inv) (simp add: empty_world_def empty_consistent)
  note inv = consistent_db_inv [OF c]
  {
    assume a: "api_GetTaskFileURL presign ok fail tid fileType (w_db w) = Inr (url, seconds)"
    then obtain task where t: "GetTask ok fail tid (w_db w) = Inr task"
      by (auto simp: api_GetTaskFileURL_def split: sum.splits)
    from task_file_row [OF inv t] obtain r where r: "r \<in> set (db_tasks (w_db w))" "ts_ID r = tid"
      "task_MinioObjectKey task = ts_MinioObjectKey r" "task_ResultObjectKey task = ts_ResultObjectKey r" by blast
    have b: "task_backed (w_store w) r" using c r(1) by (simp add: consistent_def)
    show "\<exists>r \<in> set (db_tasks (w_db w)). \<exists>key. ts_ID r = tid \<and> presign key 10 = Inr url \<and> seconds = 600 \<and>
        (ts_Status r = (if fileType = FileTypePages then TaskStatusFetched else TaskStatusParsed) \<longrightarrow> key \<in> dom (w_store w))"
      using a t r b by (intro bexI [of _ r])
        (auto simp: api_GetTaskFileURL_def presigned_def URLExpirationMinutes_def task_backed_def status_defs
          split: if_splits option.splits sum.splits)
  }
  {
    assume a: "api_GetJobExportFileURL presign ok fail jid fileType (w_db w) = Inr (url, seconds)"
    then obtain job where t: "GetCrawlJob ok fail jid (w_db w) = Inr job"
      by (auto simp: api_GetJobExportFileURL_def split: sum.splits)
    from job_file_row [OF inv t] obtain j where r: "j \<in> set (db_jobs (w_db w))" "js_ID j = jid"
      "job_ExportJSONKey job = js_ExportJSONKey j" "job_ExportCSVKey job = js_ExportCSVKey j" by blast
    have b: "job_backed (w_store w) j" using c r(1) by (simp add: consistent_def)
    show "\<exists>j \<in> set (db_jobs (w_db w)). \<exists>key. js_ID j = jid \<and> presign key 10 = Inr url \<and> seconds = 600 \<and>
        (js_ExportStatus j = Some ExportStatusCompleted \<longrightarrow> key \<in> dom (w_store w))"
      using a t r b by (intro bexI [of _ j])
        (auto simp: api_GetJobExportFileURL_def presigned_def URLExpirationMinutes_def job_backed_def status_defs
          split: if_splits option.splits sum.splits)
  }
qed

lemma whole_run_link:
  "let w = foldl system_step empty_world whole_run in
     api_GetTaskFileURL (\<lambda>k _. Inr (''signed:'' @ k)) (\<lambda>s. s \<noteq> []) None ''s'' FileTypeResult (w_db w) =
       Inr (''signed:'' @ result_key ''s'', 600) \<and>
     map (\<lambda>r. (ts_ID r, ts_Status r)) (db_tasks (w_db w)) = [(''s'', TaskStatusParsed), (''s00'', TaskStatusParsed)]"
  by code_simp

theorem served_files_exist_witness:
  "result_key ''s'' \<in> dom (w_store (foldl system_step empty_world whole_run))"
proof -
  let ?w = "foldl system_step empty_world whole_run"
  note l = whole_run_link [unfolded Let_def]
  obtain r key where r: "r \<in> set (db_tasks (w_db ?w))" "ts_ID r = ''s''" "''signed:'' @ key = ''signed:'' @ result_key ''s''"
    "ts_Status r = (if FileTypeResult = FileTypePages then TaskStatusFetched else TaskStatusParsed) \<longrightarrow> key \<in> dom (w_store ?w)"
    using served_files_exist [where presign = "\<lambda>k _. Inr (''signed:'' @ k)" and ok = "\<lambda>s. s \<noteq> []" and fail = None and tid = "''s''"
        and fileType = FileTypeResult and ops = whole_run, THEN conjunct1, rule_format, OF l [THEN conjunct1]] by auto
  have "(ts_ID r, ts_Status r) \<in> {(''s'', TaskStatusParsed), (''s00'', TaskStatusParsed)}"
    using arg_cong [OF l [THEN conjunct2], of set] r(1) by auto
  then show ?thesis using r(2-4) by (auto simp: status_defs)
qed

end
